(* ===== verification/Prelude.thy ===== *)
theory Prelude
  imports
    Main
    "HOL-Library.Word"
    "HOL-Library.Finite_Map"
    "HOL-Library.Char_ord"
    "HOL-Library.List_Lexorder"
begin

text \<open>
  Shared vocabulary of the development: the error results of partial C++ operations, the
  machine-integer conversions the code performs implicitly, raw memory (\<open>memcpy\<close>,
  \<open>memset\<close>), and the containers of the standard library.

  \<^item> A C++ operation that has no defined continuation (an exception of \<open>at()\<close>, a failed
    \<open>assert\<close>, a null or dangling pointer, a copy outside its buffer, a thread blocking on a
    mutex it already holds) is the left injection of a sum, with the reason.
  \<^item> \<open>std::map\<close>, \<open>std::unordered_map\<close> and \<open>std::unordered_set\<close> are finite maps and
    finite sets; a range-for over one visits its keys in ascending order. For the ordered
    containers this is what the standard prescribes; for the unordered ones it is one of the
    orders it allows.
\<close>

section \<open>Error results\<close>

datatype cpp_fault =
    OutOfRange          \<comment> \<open>\<open>std::out_of_range\<close> thrown by \<open>at()\<close>\<close>
  | NullDeref           \<comment> \<open>dereference of a null pointer\<close>
  | AssertFail          \<comment> \<open>\<open>assert\<close> aborts\<close>
  | BadAccess           \<comment> \<open>access outside an allocated buffer\<close>
  | DanglingIterator    \<comment> \<open>use of an iterator whose element is gone\<close>
  | EmptyContainer      \<comment> \<open>\<open>back()\<close> of an empty container\<close>
  | DivByZero
  | Deadlock            \<comment> \<open>a thread waits for a mutex it holds\<close>
  | InvalidArgument     \<comment> \<open>\<open>std::invalid_argument\<close> thrown by \<open>stoi\<close>\<close>
  | RegexError          \<comment> \<open>\<open>std::regex_error\<close> thrown by the constructor of a regex\<close>
  | RuntimeError        \<comment> \<open>\<open>std::runtime_error\<close>\<close>
  | StackOverflow       \<comment> \<open>a recursion that has used up the stack\<close>

type_synonym 'a res = "cpp_fault + 'a"

definition bnd :: "'f + 'a \<Rightarrow> ('a \<Rightarrow> 'f + 'b) \<Rightarrow> 'f + 'b" where
  "bnd m f = (case m of Inl e \<Rightarrow> Inl e | Inr x \<Rightarrow> f x)"

lemma bnd_Inl [simp]: "bnd (Inl e) f = Inl e"
  by (simp add: bnd_def)

lemma bnd_Inr [simp]: "bnd (Inr x) f = f x"
  by (simp add: bnd_def)

lemma bnd_eq_Inr: "bnd m f = Inr y \<longleftrightarrow> (\<exists>x. m = Inr x \<and> f x = Inr y)"
  by (cases m) auto

lemma bnd_eq_Inl: "bnd m f = Inl e \<longleftrightarrow> m = Inl e \<or> (\<exists>x. m = Inr x \<and> f x = Inl e)"
  by (cases m) auto

lemma bnd_assoc: "bnd (bnd m f) g = bnd m (\<lambda>x. bnd (f x) g)"
  by (cases m) auto

lemma bnd_cong [fundef_cong]:
  "m = m' \<Longrightarrow> (\<And>x. m' = Inr x \<Longrightarrow> f x = f' x) \<Longrightarrow> bnd m f = bnd m' f'"
  by (cases m') auto

definition require :: "bool \<Rightarrow> 'f \<Rightarrow> 'f + unit" where
  "require b e = (if b then Inr () else Inl e)"

lemma require_True [simp]: "require True e = Inr ()"
  by (simp add: require_def)

lemma require_False [simp]: "require False e = Inl e"
  by (simp add: require_def)

lemma require_eq_Inr [simp]: "require b e = Inr u \<longleftrightarrow> b"
  by (simp add: require_def)

definition of_option :: "'f \<Rightarrow> 'a option \<Rightarrow> 'f + 'a" where
  "of_option e x = (case x of None \<Rightarrow> Inl e | Some y \<Rightarrow> Inr y)"

lemma of_option_simps [simp]:
  "of_option e None = Inl e"
  "of_option e (Some y) = Inr y"
  by (simp_all add: of_option_def)

lemma of_option_eq_Inr: "of_option e x = Inr y \<longleftrightarrow> x = Some y"
  by (cases x) auto

text \<open>A loop over a sequence that stops at the first error.\<close>

fun foldE :: "('x \<Rightarrow> 's \<Rightarrow> 'f + 's) \<Rightarrow> 'x list \<Rightarrow> 's \<Rightarrow> 'f + 's" where
  "foldE f [] s = Inr s"
| "foldE f (x # xs) s = bnd (f x s) (foldE f xs)"

lemma foldE_append: "foldE f (xs @ ys) s = bnd (foldE f xs s) (foldE f ys)"
proof (induction xs arbitrary: s)
  case Nil
  then show ?case by simp
next
  case (Cons x xs)
  have "bnd (f x s) (foldE f (xs @ ys)) = bnd (f x s) (\<lambda>t. bnd (foldE f xs t) (foldE f ys))"
    by (rule bnd_cong [OF refl]) (rule Cons.IH)
  then show ?case by (simp add: bnd_assoc)
qed

lemma foldE_cong [fundef_cong]:
  assumes "xs = ys" and "s = t" and "\<And>x s. x \<in> set ys \<Longrightarrow> f x s = g x s"
  shows "foldE f xs s = foldE g ys t"
proof -
  have "foldE f zs u = foldE g zs u" if "set zs \<subseteq> set ys" for zs u
    using that
  proof (induction zs arbitrary: u)
    case Nil
    then show ?case by simp
  next
    case (Cons z zs)
    then have "f z u = g z u" using assms(3) by simp
    moreover have "bnd (g z u) (foldE f zs) = bnd (g z u) (foldE g zs)"
      by (rule bnd_cong [OF refl]) (use Cons in simp)
    ultimately show ?case by simp
  qed
  then show ?thesis using assms(1,2) by simp
qed

text \<open>
  The rule the component proofs use: an invariant indexed by the elements already visited.
\<close>

lemma foldE_prefix_rule:
  assumes init: "P [] s"
    and step: "\<And>ys x zs t. xs = ys @ x # zs \<Longrightarrow> P ys t \<Longrightarrow> \<exists>t'. f x t = Inr t' \<and> P (ys @ [x]) t'"
  shows "\<exists>t. foldE f xs s = Inr t \<and> P xs t"
proof -
  have "\<exists>t. foldE f zs u = Inr t \<and> P (ys @ zs) t" if "xs = ys @ zs" and "P ys u" for ys zs u
    using that
  proof (induction zs arbitrary: ys u)
    case Nil
    then show ?case by simp
  next
    case (Cons z zs)
    obtain u' where u': "f z u = Inr u'" "P (ys @ [z]) u'"
      using step [OF Cons.prems(1,2)] by blast
    have "xs = (ys @ [z]) @ zs" using Cons.prems(1) by simp
    from Cons.IH [OF this u'(2)] show ?case using u'(1) by simp
  qed
  from this [of "[]" xs s] init show ?thesis by simp
qed

lemma foldE_invariant:
  assumes "P s" and "\<And>x t. x \<in> set xs \<Longrightarrow> P t \<Longrightarrow> \<exists>t'. f x t = Inr t' \<and> P t'"
  shows "\<exists>t. foldE f xs s = Inr t \<and> P t"
proof (rule foldE_prefix_rule [where P = "\<lambda>_. P"])
  show "P s" by (fact assms(1))
next
  fix ys x zs t
  assume "xs = ys @ x # zs" and "P t"
  then show "\<exists>t'. f x t = Inr t' \<and> P t'" using assms(2) by simp
qed

text \<open>A loop over a sequence whose body may also \<open>break\<close> (the boolean of its result).\<close>

fun loopE :: "('x \<Rightarrow> 's \<Rightarrow> 'f + (bool \<times> 's)) \<Rightarrow> 'x list \<Rightarrow> 's \<Rightarrow> 'f + 's" where
  "loopE f [] s = Inr s"
| "loopE f (x # xs) s = bnd (f x s) (\<lambda>(brk, s). if brk then Inr s else loopE f xs s)"

section \<open>Machine integers\<close>

text \<open>
  The model computes with unbounded integers and writes out each conversion that can lose
  information: \<open>c_int\<close> is the narrowing of a wider value to a 32-bit \<open>int\<close>, \<open>u64\<close> the
  conversion to \<open>size_t\<close>, \<open>s64\<close> the one to \<open>off_t\<close>.
\<close>

definition c_int :: "int \<Rightarrow> int" where
  "c_int x = (x + 2147483648) mod 4294967296 - 2147483648"

definition u64 :: "int \<Rightarrow> int" where
  "u64 x = x mod 18446744073709551616"

definition s64 :: "int \<Rightarrow> int" where
  "s64 x = (x + 9223372036854775808) mod 18446744073709551616 - 9223372036854775808"

lemma s64_id: "- 9223372036854775808 \<le> x \<Longrightarrow> x < 9223372036854775808 \<Longrightarrow> s64 x = x"
  by (simp add: s64_def)

lemma c_int_id: "- 2147483648 \<le> x \<Longrightarrow> x < 2147483648 \<Longrightarrow> c_int x = x"
  by (simp add: c_int_def)

lemma c_int_range: "- 2147483648 \<le> c_int x \<and> c_int x < 2147483648"
proof -
  have "0 \<le> (x + 2147483648) mod 4294967296" "(x + 2147483648) mod 4294967296 < 4294967296"
    by simp_all
  then show ?thesis unfolding c_int_def by linarith
qed

lemma u64_id: "0 \<le> x \<Longrightarrow> x < 18446744073709551616 \<Longrightarrow> u64 x = x"
  by (simp add: u64_def)

lemma u64_nonneg [simp]: "0 \<le> u64 x"
  by (simp add: u64_def)

section \<open>Memory\<close>

type_synonym byte = "8 word"

definition mem_read :: "'a list \<Rightarrow> int \<Rightarrow> int \<Rightarrow> 'a list res" where
  "mem_read m off n =
     (if 0 \<le> off \<and> 0 \<le> n \<and> off + n \<le> int (length m)
      then Inr (take (nat n) (drop (nat off) m)) else Inl BadAccess)"

definition mem_write :: "'a list \<Rightarrow> int \<Rightarrow> 'a list \<Rightarrow> 'a list res" where
  "mem_write m off bs =
     (if 0 \<le> off \<and> off + int (length bs) \<le> int (length m)
      then Inr (take (nat off) m @ bs @ drop (nat off + length bs) m) else Inl BadAccess)"

definition mem_set :: "'a list \<Rightarrow> int \<Rightarrow> 'a \<Rightarrow> int \<Rightarrow> 'a list res" where
  "mem_set m off x n =
     (if 0 \<le> off \<and> 0 \<le> n \<and> off + n \<le> int (length m)
      then mem_write m off (replicate (nat n) x) else Inl BadAccess)"

lemma mem_write_Inr:
  "0 \<le> off \<Longrightarrow> off + int (length bs) \<le> int (length m) \<Longrightarrow>
   mem_write m off bs = Inr (take (nat off) m @ bs @ drop (nat off + length bs) m)"
  by (simp add: mem_write_def)

lemma mem_write_length: "mem_write m off bs = Inr m' \<Longrightarrow> length m' = length m"
  by (auto simp: mem_write_def split: if_splits)

lemma mem_set_length: "mem_set m off x n = Inr m' \<Longrightarrow> length m' = length m"
  by (auto simp: mem_set_def dest: mem_write_length split: if_splits)

lemma mem_read_length: "mem_read m off n = Inr bs \<Longrightarrow> int (length bs) = n"
  by (auto simp: mem_read_def split: if_splits)

lemma mem_write_nth:
  assumes "mem_write m off bs = Inr m'" and "i < length m"
  shows "m' ! i = (if nat off \<le> i \<and> i < nat off + length bs then bs ! (i - nat off) else m ! i)"
  using assms by (auto simp: mem_write_def nth_append split: if_splits)

lemma mem_read_write_same:
  assumes "mem_write m off bs = Inr m'"
  shows "mem_read m' off (int (length bs)) = Inr bs"
  using assms by (auto simp: mem_write_def mem_read_def split: if_splits)

lemma mem_read_all: "mem_read m 0 (int (length m)) = Inr m"
  by (simp add: mem_read_def)

section \<open>Containers\<close>

definition fmkeys :: "('k::linorder, 'v) fmap \<Rightarrow> 'k list" where
  "fmkeys m = sorted_list_of_fset (fmdom m)"

lemma set_fmkeys [simp]: "set (fmkeys m) = fset (fmdom m)"
  by (simp add: fmkeys_def)

lemma fmkeys_empty [simp]: "fmkeys fmempty = []"
  by (simp add: fmkeys_def sorted_list_of_fset.rep_eq)

lemma distinct_fmkeys [simp]: "distinct (fmkeys m)"
  by (simp add: fmkeys_def sorted_list_of_fset.rep_eq)

lemma sorted_fmkeys [simp]: "sorted (fmkeys m)"
  by (simp add: fmkeys_def sorted_list_of_fset.rep_eq)

lemma fmkeys_single [simp]: "fmkeys (fmupd k v fmempty) = [k]"
  by (simp add: fmkeys_def sorted_list_of_fset.rep_eq)

text \<open>\<open>insert\<close> of a standard map keeps the value of a key that is already there.\<close>

definition fmins :: "'k \<Rightarrow> 'v \<Rightarrow> ('k, 'v) fmap \<Rightarrow> ('k, 'v) fmap" where
  "fmins k v m = (case fmlookup m k of None \<Rightarrow> fmupd k v m | Some _ \<Rightarrow> m)"

lemma fmlookup_fmins:
  "fmlookup (fmins k v m) k' =
     (if k' = k \<and> fmlookup m k = None then Some v else fmlookup m k')"
  by (auto simp: fmins_def split: option.splits)

lemma fmdom_fmins [simp]: "fmdom (fmins k v m) = finsert k (fmdom m)"
  by (auto simp: fmins_def intro: fmdomI split: option.splits)

text \<open>\<open>at\<close> of a standard map throws for a missing key.\<close>

definition fmat :: "('k, 'v) fmap \<Rightarrow> 'k \<Rightarrow> 'v res" where
  "fmat m k = of_option OutOfRange (fmlookup m k)"

lemma fmat_eq_Inr [simp]: "fmat m k = Inr v \<longleftrightarrow> fmlookup m k = Some v"
  by (simp add: fmat_def of_option_eq_Inr)

lemma fmat_Some: "fmlookup m k = Some v \<Longrightarrow> fmat m k = Inr v"
  by simp

text \<open>\<open>back\<close> of a vector or a list.\<close>

definition vback :: "'a list \<Rightarrow> 'a res" where
  "vback xs = (if xs = [] then Inl EmptyContainer else Inr (last xs))"

lemma vback_snoc [simp]: "vback (xs @ [x]) = Inr x"
  by (simp add: vback_def)

end
