(* ===== verification/Config.thy ===== *)
theory Config
  imports Prelude
begin

text \<open>
  The configuration object of libpcache
  (\<open>libs/libpcache/include/cache/config/config.hpp\<close>,
  \<open>libs/libpcache/src/config/config.cpp\<close>): its fields with their default values, the two
  set-up routines with their assertions, and the parser of the \<open>custom_size\<close> string.
  Sizes are \<open>size_t\<close> and never negative; \<open>APPLY_LRU_EVICTION\<close> is an \<open>int\<close> used as a
  truth value.
\<close>

section \<open>The configuration and its set-up\<close>

record config =
  log_all_operations :: bool
  is_default_config :: bool
  CACHE_NR_PAGES :: int
  CACHE_PAGE_SIZE :: int
  IO_BLOCK_SIZE :: int
  DISK_SECTOR_SIZE :: int
  APPLY_LRU_EVICTION :: bool
  FIFO_PATH :: string
  FIFO_PATH_COMPLETED :: string
  LOG_FILE :: string

definition default_config :: config where
  "default_config =
     \<lparr>log_all_operations = False, is_default_config = True,
      CACHE_NR_PAGES = 5, CACHE_PAGE_SIZE = 4096, IO_BLOCK_SIZE = 4096, DISK_SECTOR_SIZE = 512,
      APPLY_LRU_EVICTION = False,
      FIFO_PATH = ''faults.fifo'', FIFO_PATH_COMPLETED = '''', LOG_FILE = ''''\<rparr>"

definition setup_config_manually :: "int \<Rightarrow> int \<Rightarrow> int \<Rightarrow> config \<Rightarrow> config res" where
  "setup_config_manually io_blk_sz pg_sz nr_pgs c =
     bnd (require (nr_pgs \<noteq> 0) AssertFail) (\<lambda>_.
     bnd (require (io_blk_sz \<noteq> 0) DivByZero) (\<lambda>_.
     bnd (require (pg_sz mod io_blk_sz = 0) AssertFail) (\<lambda>_.
     Inr (c\<lparr>CACHE_NR_PAGES := nr_pgs, CACHE_PAGE_SIZE := pg_sz, IO_BLOCK_SIZE := io_blk_sz\<rparr>))))"

text \<open>
  \<open>std::ceil\<close> of an integral byte count is that count (the conversion to \<open>double\<close> is exact
  below \<open>2^53\<close> bytes). The product \<open>nr_blocks_per_page * IO_BLOCK_SIZE\<close> mixes \<open>int\<close> and
  \<open>size_t\<close> and is computed modulo \<open>2^64\<close>.
\<close>

definition setup_config_by_size :: "int \<Rightarrow> int \<Rightarrow> config \<Rightarrow> config res" where
  "setup_config_by_size prealloc_bytes nr_blocks_per_page c =
     (let c = c\<lparr>is_default_config := False\<rparr> in
      bnd (require (IO_BLOCK_SIZE c \<le> prealloc_bytes) AssertFail) (\<lambda>_.
      let total_bytes = prealloc_bytes;
          page_size = u64 (nr_blocks_per_page * IO_BLOCK_SIZE c);
          c = c\<lparr>CACHE_PAGE_SIZE := page_size\<rparr>
      in bnd (require (page_size < total_bytes) AssertFail) (\<lambda>_.
         bnd (require (page_size \<noteq> 0) DivByZero) (\<lambda>_.
         Inr (c\<lparr>CACHE_NR_PAGES := total_bytes div page_size\<rparr>)))))"

definition set_eviction_flag :: "bool \<Rightarrow> config \<Rightarrow> config" where
  "set_eviction_flag flag c = c\<lparr>APPLY_LRU_EVICTION := flag\<rparr>"

section \<open>The \<open>custom_size\<close> string\<close>

definition is_digit :: "char \<Rightarrow> bool" where
  "is_digit ch \<longleftrightarrow> 48 \<le> (of_char ch :: nat) \<and> (of_char ch :: nat) \<le> 57"

definition digit_value :: "char \<Rightarrow> int" where
  "digit_value ch = of_char ch - 48"

definition to_lower :: "char \<Rightarrow> char" where
  "to_lower ch =
     (if 65 \<le> (of_char ch :: nat) \<and> (of_char ch :: nat) \<le> 90
      then char_of ((of_char ch :: nat) + 32) else ch)"

text \<open>
  The loop over the characters: digits and dots go to \<open>size_tmp\<close>, the rest to
  \<open>size_type\<close>, which is then lower-cased.
\<close>

fun split_size :: "string \<Rightarrow> string \<times> string" where
  "split_size [] = ([], [])"
| "split_size (ch # cs) =
     (let (size_tmp, size_type) = split_size cs in
      if is_digit ch \<or> ch = CHR ''.'' then (ch # size_tmp, size_type)
      else (size_tmp, ch # size_type))"

text \<open>
  \<open>atof\<close> on a string of digits and dots: the digits before the first dot and those between
  the first and the second one. The value is kept as a fraction \<open>(numerator, denominator)\<close>,
  before its rounding to a \<open>double\<close>.
\<close>

definition digits_value :: "string \<Rightarrow> int" where
  "digits_value ds = foldl (\<lambda>v ch. 10 * v + digit_value ch) 0 ds"

definition atof :: "string \<Rightarrow> int \<times> int" where
  "atof s =
     (let whole = takeWhile is_digit s;
          frac = takeWhile is_digit (drop 1 (dropWhile is_digit s))
      in (digits_value (whole @ frac), 10 ^ length frac))"

text \<open>
  The unit; for any other suffix the C++ variable \<open>size_bytes\<close> is read uninitialised, so the
  total uses whatever value it happens to have, the argument \<open>uninit\<close>. The source multiplies the
  unit, a power of two, by a \<open>double\<close> and drops the fraction. The product is taken here of the number
  as it is written; that \<open>atof\<close> rounds it to the 53 bits of a \<open>double\<close> first is left out.
\<close>

definition size_unit :: "string \<Rightarrow> int option" where
  "size_unit t =
     (if t = ''gb'' \<or> t = ''g'' then Some 1073741824
      else if t = ''mb'' \<or> t = ''m'' then Some 1048576
      else if t = ''kb'' \<or> t = ''k'' then Some 1024
      else None)"

definition parse_custom_size :: "int \<Rightarrow> string \<Rightarrow> int" where
  "parse_custom_size uninit s =
     (let (size_tmp, size_type) = split_size s;
          size_bytes = (case size_unit (map to_lower size_type) of None \<Rightarrow> uninit | Some n \<Rightarrow> n);
          (n, d) = atof size_tmp
      in size_bytes * n div d)"

section \<open>What a set-up configuration guarantees\<close>

text \<open>
  The page engine relies on a positive block size that divides the page size, and on at least
  one page.
\<close>

definition config_ok :: "config \<Rightarrow> bool" where
  "config_ok c \<longleftrightarrow>
     0 < IO_BLOCK_SIZE c \<and> 0 < CACHE_PAGE_SIZE c \<and> CACHE_PAGE_SIZE c mod IO_BLOCK_SIZE c = 0 \<and>
     0 < CACHE_NR_PAGES c"

lemma setup_config_manually_ok:
  assumes "setup_config_manually io pg nr c = Inr c'" and "0 \<le> nr" "0 < io" "0 < pg"
  shows "config_ok c'"
  using assms by (auto simp: setup_config_manually_def bnd_eq_Inr config_ok_def)

lemma setup_config_by_size_Inr:
  assumes "setup_config_by_size b n c = Inr c'"
  shows "IO_BLOCK_SIZE c' = IO_BLOCK_SIZE c"
    and "CACHE_PAGE_SIZE c' = u64 (n * IO_BLOCK_SIZE c)"
    and "CACHE_NR_PAGES c' = b div CACHE_PAGE_SIZE c'"
    and "CACHE_PAGE_SIZE c' < b" and "CACHE_PAGE_SIZE c' \<noteq> 0"
  using assms by (auto simp: setup_config_by_size_def Let_def bnd_eq_Inr)

text \<open>
  C40. A configuration set up from a cache size and a number of blocks per page is usable: its
  page size is exactly that many blocks, there is at least one page, and all pages together fit
  in the requested number of bytes, with less than one page to spare.
\<close>

theorem setup_config_by_size_fits:
  assumes "setup_config_by_size prealloc bpp c = Inr c'"
    and "0 < IO_BLOCK_SIZE c" and "0 < bpp" and "bpp * IO_BLOCK_SIZE c < 18446744073709551616"
  shows "config_ok c' \<and> CACHE_PAGE_SIZE c' = bpp * IO_BLOCK_SIZE c \<and>
         CACHE_NR_PAGES c' * CACHE_PAGE_SIZE c' \<le> prealloc \<and>
         prealloc < (CACHE_NR_PAGES c' + 1) * CACHE_PAGE_SIZE c'"
proof -
  note c' = setup_config_by_size_Inr [OF assms(1)]
  have pos: "0 < bpp * IO_BLOCK_SIZE c" using assms(2,3) by simp
  then have page: "CACHE_PAGE_SIZE c' = bpp * IO_BLOCK_SIZE c"
    using c'(2) assms(4) by (simp add: u64_id)
  have nr: "CACHE_NR_PAGES c' = prealloc div (bpp * IO_BLOCK_SIZE c)" using c'(3) page by simp
  have "1 \<le> prealloc div (bpp * IO_BLOCK_SIZE c)"
    using c'(4) pos page by (simp add: pos_imp_zdiv_pos_iff int_one_le_iff_zero_less)
  moreover have "prealloc div (bpp * IO_BLOCK_SIZE c) * (bpp * IO_BLOCK_SIZE c) \<le> prealloc"
    using pos by (metis div_mult_mod_eq le_add_same_cancel1 pos_mod_sign)
  moreover have "prealloc < (prealloc div (bpp * IO_BLOCK_SIZE c) + 1) * (bpp * IO_BLOCK_SIZE c)"
  proof -
    have "prealloc = prealloc div (bpp * IO_BLOCK_SIZE c) * (bpp * IO_BLOCK_SIZE c)
        + prealloc mod (bpp * IO_BLOCK_SIZE c)"
      by (rule div_mult_mod_eq [symmetric])
    moreover have "prealloc mod (bpp * IO_BLOCK_SIZE c) < bpp * IO_BLOCK_SIZE c"
      using pos by simp
    ultimately show ?thesis by (simp add: distrib_right)
  qed
  ultimately show ?thesis
    using pos assms(2,3) c'(1) unfolding config_ok_def page nr by simp
qed

theorem setup_config_by_size_fits_witness:
  "\<exists>c'. setup_config_by_size 10000 1 default_config = Inr c' \<and> config_ok c' \<and>
        CACHE_NR_PAGES c' = 2 \<and> CACHE_NR_PAGES c' * CACHE_PAGE_SIZE c' \<le> 10000"
proof -
  obtain c' where c': "setup_config_by_size 10000 1 default_config = Inr c'"
    and nr: "CACHE_NR_PAGES c' = 2"
    by (simp add: setup_config_by_size_def default_config_def u64_def)
  from setup_config_by_size_fits [OF c'] c' nr show ?thesis
    by (simp add: default_config_def)
qed

end
