(* ===== verification/Text.thy ===== *)
theory Text
  imports Config
begin

text \<open>
  The text handling the sources do with the standard library: decimal numbers
  (\<open>std::to_string\<close>, \<open>std::stoi\<close>), prefix tests, splitting at \<open>::\<close>, and the fixed regular
  expressions \<open>\d+\<close> and \<open>(\d+,)*\d+\<close> with which \<open>main.cpp\<close> and \<open>lazyfs.cpp\<close> check
  and tokenise lists of numbers.
\<close>

section \<open>Decimal numbers\<close>

fun nat_string :: "nat \<Rightarrow> string" where
  "nat_string n =
     (if n < 10 then [char_of (48 + n)] else nat_string (n div 10) @ [char_of (48 + n mod 10)])"

declare nat_string.simps [simp del]

definition to_string :: "int \<Rightarrow> string" where
  "to_string i = (if i < 0 then CHR ''-'' # nat_string (nat (- i)) else nat_string (nat i))"

definition is_space :: "char \<Rightarrow> bool" where
  "is_space ch \<longleftrightarrow> (of_char ch :: nat) \<in> {9, 10, 11, 12, 13, 32}"

text \<open>
  \<open>stoi\<close> skips white space, accepts a sign, converts the digits that follow and ignores the
  rest; it throws when there is no digit or the value does not fit an \<open>int\<close>.
\<close>

definition stoi :: "string \<Rightarrow> int res" where
  "stoi s =
     (let s = dropWhile is_space s;
          neg = (s \<noteq> [] \<and> hd s = CHR ''-'');
          s = (if s \<noteq> [] \<and> (hd s = CHR ''-'' \<or> hd s = CHR ''+'') then tl s else s);
          ds = takeWhile is_digit s;
          v = (if neg then - digits_value ds else digits_value ds)
      in if ds = [] then Inl InvalidArgument
         else if v < - 2147483648 \<or> 2147483647 < v then Inl OutOfRange
         else Inr v)"

section \<open>Tokens\<close>

definition starts_with :: "string \<Rightarrow> string \<Rightarrow> bool" where
  "starts_with pre s \<longleftrightarrow> take (length pre) s = pre"

text \<open>\<open>current.erase (0, current.find ("=") + 1)\<close>; without a \<open>=\<close> nothing is erased.\<close>

definition after_equals :: "string \<Rightarrow> string" where
  "after_equals s = (if CHR ''='' \<in> set s then tl (dropWhile (\<lambda>ch. ch \<noteq> CHR ''='') s) else s)"

text \<open>
  The pieces between the matches of \<open>::\<close>, found from left to right; the last piece is not
  reported when it is empty.
\<close>

fun split_colons_acc :: "string \<Rightarrow> string \<Rightarrow> string list" where
  "split_colons_acc acc [] = (if acc = [] then [] else [rev acc])"
| "split_colons_acc acc (x # xs) =
     (if x = CHR '':'' \<and> xs \<noteq> [] \<and> hd xs = CHR '':'' then rev acc # split_colons_acc [] (tl xs)
      else split_colons_acc (x # acc) xs)"

definition split_colons :: "string \<Rightarrow> string list" where
  "split_colons s = split_colons_acc [] s"

text \<open>The maximal runs of digits, from left to right.\<close>

fun number_tokens_acc :: "string \<Rightarrow> string \<Rightarrow> string list" where
  "number_tokens_acc acc [] = (if acc = [] then [] else [rev acc])"
| "number_tokens_acc acc (x # xs) =
     (if is_digit x then number_tokens_acc (x # acc) xs
      else if acc = [] then number_tokens_acc [] xs
      else rev acc # number_tokens_acc [] xs)"

definition number_tokens :: "string \<Rightarrow> string list" where
  "number_tokens s = number_tokens_acc [] s"

definition stoi_all :: "string list \<Rightarrow> int list res" where
  "stoi_all ts = foldE (\<lambda>t vs. bnd (stoi t) (\<lambda>v. Inr (vs @ [v]))) ts []"

text \<open>\<open>regex_match\<close> with \<open>\d+\<close> and with \<open>(\d+,)*\d+\<close>.\<close>

definition is_number :: "string \<Rightarrow> bool" where
  "is_number s \<longleftrightarrow> s \<noteq> [] \<and> (\<forall>ch \<in> set s. is_digit ch)"

fun split_commas_acc :: "string \<Rightarrow> string \<Rightarrow> string list" where
  "split_commas_acc acc [] = [rev acc]"
| "split_commas_acc acc (x # xs) =
     (if x = CHR '','' then rev acc # split_commas_acc [] xs else split_commas_acc (x # acc) xs)"

definition is_number_list :: "string \<Rightarrow> bool" where
  "is_number_list s \<longleftrightarrow> (\<forall>t \<in> set (split_commas_acc [] s). is_number t)"

section \<open>Lemmas\<close>

lemma digit_char:
  fixes n :: nat
  assumes "n < 10"
  shows "is_digit (char_of (48 + n))" and "digit_value (char_of (48 + n)) = int n"
proof -
  have n: "of_char (char_of (48 + n) :: char) = 48 + n" using assms by simp
  then show "is_digit (char_of (48 + n))" using assms by (simp add: is_digit_def)
  have "(of_char (char_of (48 + n) :: char) :: int) = int (48 + n)"
    by (metis n of_nat_of_char)
  then show "digit_value (char_of (48 + n)) = int n" by (simp add: digit_value_def)
qed

lemma digits_value_snoc: "digits_value (ds @ [ch]) = 10 * digits_value ds + digit_value ch"
  by (simp add: digits_value_def)

lemma nat_string_digits: "ch \<in> set (nat_string n) \<Longrightarrow> is_digit ch"
proof (induction n rule: nat_string.induct)
  case (1 n)
  show ?case
  proof (cases "n < 10")
    case True
    then show ?thesis using 1 by (subst (asm) (2) nat_string.simps) (auto simp: digit_char)
  next
    case False
    then have "ch \<in> set (nat_string (n div 10)) \<or> ch = char_of (48 + n mod 10)"
      using 1(2) by (subst (asm) nat_string.simps) auto
    then show ?thesis using 1(1) False by (auto simp: digit_char)
  qed
qed

lemma nat_string_not_Nil [simp]: "nat_string n \<noteq> []"
  by (subst nat_string.simps) simp

lemma digits_value_nat_string: "digits_value (nat_string n) = int n"
proof (induction n rule: nat_string.induct)
  case (1 n)
  show ?case
  proof (cases "n < 10")
    case True
    then show ?thesis
      by (subst nat_string.simps) (simp add: digits_value_def digit_char)
  next
    case False
    then have "digits_value (nat_string n) = 10 * int (n div 10) + int (n mod 10)"
      using 1 by (subst nat_string.simps) (simp add: digits_value_snoc digit_char)
    then show ?thesis by presburger
  qed
qed

lemma to_string_nonneg:
  assumes "0 \<le> i"
  shows "digits_value (to_string i) = i" and "\<forall>ch \<in> set (to_string i). is_digit ch"
    and "to_string i \<noteq> []"
  using assms by (auto simp: to_string_def digits_value_nat_string dest: nat_string_digits)

lemma to_string_inj: "0 \<le> i \<Longrightarrow> 0 \<le> j \<Longrightarrow> to_string i = to_string j \<Longrightarrow> i = j"
  using to_string_nonneg(1) by metis

lemma is_digit_not:
  "is_digit ch \<Longrightarrow> \<not> is_space ch" "is_digit ch \<Longrightarrow> ch \<noteq> CHR ''-'' \<and> ch \<noteq> CHR ''+''"
  "is_digit ch \<Longrightarrow> ch \<noteq> CHR '',''" "is_digit ch \<Longrightarrow> ch \<noteq> CHR '':''"
  by (auto simp: is_digit_def is_space_def)

lemma digits_value_nonneg: "\<forall>ch \<in> set ds. is_digit ch \<Longrightarrow> 0 \<le> digits_value ds"
proof (induction ds rule: rev_induct)
  case Nil
  then show ?case by (simp add: digits_value_def)
next
  case (snoc ch ds)
  then have "(48::nat) \<le> of_char ch" by (simp add: is_digit_def)
  then have "(48::int) \<le> of_char ch"
    by (metis of_nat_of_char of_nat_le_iff of_nat_numeral)
  with snoc show ?case by (simp add: digits_value_snoc digit_value_def)
qed

lemma stoi_digits:
  assumes "is_number s" and "digits_value s \<le> 2147483647"
  shows "stoi s = Inr (digits_value s)"
proof -
  obtain ch cs where s: "s = ch # cs" "is_digit ch" using assms(1)
    by (cases s) (auto simp: is_number_def)
  have "takeWhile is_digit s = s" using assms(1) by (simp add: is_number_def takeWhile_eq_all_conv)
  moreover have "0 \<le> digits_value s" using assms(1) by (simp add: is_number_def digits_value_nonneg)
  moreover have "dropWhile is_space s = s" using s is_digit_not by simp
  moreover have "hd s \<noteq> CHR ''-''" "hd s \<noteq> CHR ''+''" using s is_digit_not(2) by auto
  ultimately show ?thesis using s(1) assms(2) by (simp add: stoi_def)
qed

text \<open>Tokenising the comma-separated decimal notation of a list of numbers gives them back.\<close>

lemma number_tokens_acc_digits:
  "\<forall>ch \<in> set ds. is_digit ch \<Longrightarrow> number_tokens_acc acc (ds @ rest) = number_tokens_acc (rev ds @ acc) rest"
  by (induction ds arbitrary: acc) auto

fun comma_join :: "string list \<Rightarrow> string" where
  "comma_join [] = []"
| "comma_join [t] = t"
| "comma_join (t # ts) = t @ CHR '','' # comma_join ts"

lemma number_tokens_comma_join:
  "\<forall>t \<in> set ts. is_number t \<Longrightarrow> number_tokens (comma_join ts) = ts"
proof (induction ts rule: comma_join.induct)
  case 1
  then show ?case by (simp add: number_tokens_def)
next
  case (2 t)
  then show ?case
    using number_tokens_acc_digits [of t "[]" "[]"]
    by (auto simp: number_tokens_def is_number_def)
next
  case (3 t u ts)
  have "\<not> is_digit (CHR '','')" by (simp add: is_digit_def)
  with 3 show ?case
    using number_tokens_acc_digits [of t "[]"]
    by (auto simp: number_tokens_def is_number_def)
qed

end
