(* ===== verification/Faults.thy ===== *)
theory Faults
  imports Text
begin

text \<open>
  The faults that can be injected (\<open>libs/libpcache/src/faults.cpp\<close>), the table of faults by
  path, and the two operations of the file system that extend it while it runs
  (\<open>LazyFS::add_torn_op_fault\<close>, \<open>LazyFS::add_torn_seq_fault\<close> in
  \<open>lazyfs/src/lazyfs.cpp\<close>). The class hierarchy is a datatype with one constructor per class,
  so \<open>dynamic_cast\<close> is a case distinction; the error messages are constructors.
\<close>

section \<open>Fault objects\<close>

record split_write_f =
  sw_occurrence :: int
  sw_counter :: int
  sw_persist :: "int list"
  sw_parts :: int
  sw_parts_bytes :: "int list"

record reorder_f =
  ro_op :: string
  ro_counter :: int
  ro_persist :: "int list"
  ro_occurrence :: int
  ro_group_counter :: int

record clear_f =
  cl_timing :: string
  cl_op :: string
  cl_from :: string
  cl_to :: string
  cl_occurrence :: int
  cl_counter :: int
  cl_crash :: bool

datatype fault = SplitWriteF split_write_f | ReorderF reorder_f | ClearF clear_f

definition new_SplitWriteF_parts :: "int \<Rightarrow> int list \<Rightarrow> int \<Rightarrow> split_write_f" where
  "new_SplitWriteF_parts occurrence persist parts =
     \<lparr>sw_occurrence = occurrence, sw_counter = 0, sw_persist = persist, sw_parts = parts,
      sw_parts_bytes = []\<rparr>"

definition new_SplitWriteF_bytes :: "int \<Rightarrow> int list \<Rightarrow> int list \<Rightarrow> split_write_f" where
  "new_SplitWriteF_bytes occurrence persist parts_bytes =
     \<lparr>sw_occurrence = occurrence, sw_counter = 0, sw_persist = persist, sw_parts = - 1,
      sw_parts_bytes = parts_bytes\<rparr>"

definition new_ReorderF :: "string \<Rightarrow> int list \<Rightarrow> int \<Rightarrow> reorder_f" where
  "new_ReorderF op persist occurrence =
     \<lparr>ro_op = op, ro_counter = 0, ro_persist = persist, ro_occurrence = occurrence,
      ro_group_counter = 0\<rparr>"

definition new_ClearF ::
  "string \<Rightarrow> string \<Rightarrow> string \<Rightarrow> string \<Rightarrow> int \<Rightarrow> bool \<Rightarrow> clear_f" where
  "new_ClearF timing op from to occurrence crash =
     \<lparr>cl_timing = timing, cl_op = op, cl_from = from, cl_to = to, cl_occurrence = occurrence,
      cl_counter = 0, cl_crash = crash\<rparr>"

definition is_SplitWriteF :: "fault \<Rightarrow> bool" where
  "is_SplitWriteF f = (case f of SplitWriteF _ \<Rightarrow> True | _ \<Rightarrow> False)"

definition is_ReorderF :: "fault \<Rightarrow> bool" where
  "is_ReorderF f = (case f of ReorderF _ \<Rightarrow> True | _ \<Rightarrow> False)"

definition is_ClearF :: "fault \<Rightarrow> bool" where
  "is_ClearF f = (case f of ClearF _ \<Rightarrow> True | _ \<Rightarrow> False)"

section \<open>Validation\<close>

datatype fault_error =
    OperationNotWrite | OccurrenceNotPositive | PersistNotPositive
  | PartsNotPositive | PartsBytesNotPositive | PartsUndefined | PersistOutOfParts
  | OperationNotAvailable | BadTiming | FromToUndefined | FromWithoutTo
  | OnlyOneTornOp | OnlyOneTornSeq

definition reorder_validate :: "reorder_f \<Rightarrow> fault_error list" where
  "reorder_validate f =
     (if ro_op f \<noteq> ''write'' then [OperationNotWrite] else [])
     @ (if ro_occurrence f \<le> 0 then [OccurrenceNotPositive] else [])
     @ (if (\<exists>p \<in> set (ro_persist f). p \<le> 0) then [PersistNotPositive] else [])"

definition split_write_validate ::
  "int \<Rightarrow> int list \<Rightarrow> int option \<Rightarrow> int list option \<Rightarrow> fault_error list" where
  "split_write_validate occurrence persist parts parts_bytes =
     (let nr_parts = (case parts of
                        Some n \<Rightarrow> n
                      | None \<Rightarrow> (case parts_bytes of Some bs \<Rightarrow> int (length bs) | None \<Rightarrow> 1))
      in (if occurrence \<le> 0 then [OccurrenceNotPositive] else [])
         @ (case parts of Some n \<Rightarrow> if n \<le> 0 then [PartsNotPositive] else [] | None \<Rightarrow> [])
         @ (case parts_bytes of
              Some bs \<Rightarrow> if (\<exists>p \<in> set bs. p \<le> 0) then [PartsBytesNotPositive] else []
            | None \<Rightarrow> [])
         @ (if parts = None \<and> parts_bytes = None then [PartsUndefined] else [])
         @ (if (\<exists>p \<in> set persist. p \<le> 0 \<or> nr_parts < p) then [PersistOutOfParts] else []))"

definition allow_crash_fs_operations :: "string list" where
  "allow_crash_fs_operations =
     [''unlink'', ''truncate'', ''fsync'', ''write'', ''create'', ''access'', ''open'', ''read'',
      ''rename'', ''link'', ''symlink'']"

definition fs_op_multi_path :: "string list" where
  "fs_op_multi_path = [''rename'', ''link'', ''symlink'']"

definition clear_validate :: "clear_f \<Rightarrow> fault_error list" where
  "clear_validate f =
     (if cl_occurrence f \<le> 0 then [OccurrenceNotPositive] else [])
     @ (if cl_op f \<notin> set allow_crash_fs_operations then [OperationNotAvailable] else [])
     @ (if cl_timing f \<noteq> ''before'' \<and> cl_timing f \<noteq> ''after'' then [BadTiming] else [])
     @ (if cl_op f \<in> set fs_op_multi_path
        then (if cl_from f = ''none'' \<or> cl_to f = ''none'' then [FromToUndefined] else [])
        else (if cl_from f = ''none'' \<or> cl_to f \<noteq> ''none'' then [FromWithoutTo] else []))"

section \<open>The table of faults\<close>

type_synonym faults = "(string, fault list) fmap"

text \<open>
  The registration the sources repeat for every kind: a path without faults gets a list of
  its own; otherwise the fault is appended unless one of the same kind is there. The number of
  conflicting faults is the number of error messages.
\<close>

definition conflicts :: "(fault \<Rightarrow> bool) \<Rightarrow> string \<Rightarrow> faults \<Rightarrow> nat" where
  "conflicts same path fs =
     (case fmlookup fs path of None \<Rightarrow> 0 | Some v \<Rightarrow> length (filter same v))"

definition register_fault :: "(fault \<Rightarrow> bool) \<Rightarrow> string \<Rightarrow> fault \<Rightarrow> faults \<Rightarrow> faults" where
  "register_fault same path f fs =
     (case fmlookup fs path of
        None \<Rightarrow> fmupd path [f] fs
      | Some v \<Rightarrow> if (\<exists>g \<in> set v. same g) then fs else fmupd path (v @ [f]) fs)"

definition add_torn_op_fault ::
  "string \<Rightarrow> string \<Rightarrow> string \<Rightarrow> string \<Rightarrow> string \<Rightarrow> faults \<Rightarrow> (fault_error list \<times> faults) res"
  where
  "add_torn_op_fault path parts parts_bytes persist occurrence fs =
     bnd (stoi_all (number_tokens persist)) (\<lambda>persistv.
     bnd (if parts_bytes \<noteq> ''none'' then stoi_all (number_tokens parts_bytes) else Inr [])
       (\<lambda>parts_bytes_v.
     bnd (if parts \<noteq> ''none'' then stoi parts else Inr (- 1)) (\<lambda>partsi.
     bnd (if occurrence \<noteq> ''none'' then stoi occurrence else Inr 1) (\<lambda>occurrencei.
     let (f, errors) =
           (if partsi \<noteq> - 1
            then (new_SplitWriteF_parts occurrencei persistv partsi,
                  split_write_validate occurrencei persistv (Some partsi) None)
            else (new_SplitWriteF_bytes occurrencei persistv parts_bytes_v,
                  split_write_validate occurrencei persistv None (Some parts_bytes_v)))
     in if errors = []
        then Inr (replicate (conflicts is_SplitWriteF path fs) OnlyOneTornOp,
                  register_fault is_SplitWriteF path (SplitWriteF f) fs)
        else Inr (errors, fs)))))"

definition add_torn_seq_fault ::
  "string \<Rightarrow> string \<Rightarrow> string \<Rightarrow> string \<Rightarrow> faults \<Rightarrow> (fault_error list \<times> faults) res" where
  "add_torn_seq_fault path op persist occurrence fs =
     bnd (stoi_all (number_tokens persist)) (\<lambda>persistv.
     bnd (if occurrence \<noteq> ''none'' then stoi occurrence else Inr 1) (\<lambda>occurrencei.
     let f = new_ReorderF op persistv occurrencei;
         errors = reorder_validate f
     in if errors = []
        then Inr (replicate (conflicts is_ReorderF path fs) OnlyOneTornSeq,
                  register_fault is_ReorderF path (ReorderF f) fs)
        else Inr (errors, fs)))"

section \<open>Lemmas\<close>

lemma is_kind_simps [simp]:
  "is_SplitWriteF (SplitWriteF s)" "\<not> is_SplitWriteF (ReorderF r)" "\<not> is_SplitWriteF (ClearF c)"
  "\<not> is_ReorderF (SplitWriteF s)" "is_ReorderF (ReorderF r)" "\<not> is_ReorderF (ClearF c)"
  "\<not> is_ClearF (SplitWriteF s)" "\<not> is_ClearF (ReorderF r)" "is_ClearF (ClearF c)"
  by (simp_all add: is_SplitWriteF_def is_ReorderF_def is_ClearF_def)

lemma reorder_validate_Nil:
  "reorder_validate f = [] \<longleftrightarrow>
     ro_op f = ''write'' \<and> 0 < ro_occurrence f \<and> (\<forall>p \<in> set (ro_persist f). 0 < p)"
  by (auto simp: reorder_validate_def) (meson not_le)+

lemma split_write_validate_parts_Nil:
  "split_write_validate occ persist (Some n) None = [] \<longleftrightarrow>
     0 < occ \<and> 0 < n \<and> (\<forall>p \<in> set persist. 0 < p \<and> p \<le> n)"
  by (auto simp: split_write_validate_def Let_def not_le not_less)

lemma split_write_validate_bytes_Nil:
  "split_write_validate occ persist None (Some bs) = [] \<longleftrightarrow>
     0 < occ \<and> (\<forall>b \<in> set bs. 0 < b) \<and> (\<forall>p \<in> set persist. 0 < p \<and> p \<le> int (length bs))"
  by (auto simp: split_write_validate_def Let_def not_le not_less)

lemma clear_validate_Nil:
  "clear_validate f = [] \<longleftrightarrow>
     0 < cl_occurrence f \<and> cl_op f \<in> set allow_crash_fs_operations \<and>
     (cl_timing f = ''before'' \<or> cl_timing f = ''after'') \<and> cl_from f \<noteq> ''none'' \<and>
     (cl_op f \<in> set fs_op_multi_path \<longleftrightarrow> cl_to f \<noteq> ''none'')"
  by (auto simp: clear_validate_def)

text \<open>The faults of a path.\<close>

definition faults_of :: "faults \<Rightarrow> string \<Rightarrow> fault list" where
  "faults_of fs path = (case fmlookup fs path of None \<Rightarrow> [] | Some v \<Rightarrow> v)"

definition at_most_one :: "(fault \<Rightarrow> bool) \<Rightarrow> faults \<Rightarrow> bool" where
  "at_most_one same fs \<longleftrightarrow> (\<forall>path. length (filter same (faults_of fs path)) \<le> 1)"

lemma faults_of_register_fault:
  "faults_of (register_fault same path f fs) path' =
     (if path' = path \<and> (\<forall>g \<in> set (faults_of fs path). \<not> same g)
      then faults_of fs path @ [f] else faults_of fs path')"
  by (auto simp: faults_of_def register_fault_def split: option.splits)

lemma conflicts_faults_of: "conflicts same path fs = length (filter same (faults_of fs path))"
  by (simp add: conflicts_def faults_of_def split: option.splits)

text \<open>
  The contract of an operation that adds a fault of one kind: it either leaves the table alone
  and reports an error, or registers a fault of its kind that is valid.
\<close>

locale fault_registrar =
  fixes same :: "fault \<Rightarrow> bool"
    and add :: "'a \<Rightarrow> faults \<Rightarrow> (fault_error list \<times> faults) res"
    and path_of :: "'a \<Rightarrow> string"
    and ok :: "fault \<Rightarrow> bool"
  assumes add_law:
    "add a fs = Inr (errors, fs') \<Longrightarrow>
       (errors \<noteq> [] \<and> fs' = fs) \<or>
       (\<exists>f. same f \<and> ok f \<and> fs' = register_fault same (path_of a) f fs \<and>
            length errors = conflicts same (path_of a) fs)"
begin

lemma keeps_at_most_one:
  assumes "add a fs = Inr (errors, fs')" and "at_most_one same fs"
  shows "at_most_one same fs'"
  using add_law [OF assms(1)] assms(2)
  by (auto simp: at_most_one_def faults_of_register_fault)

lemma success_appends:
  assumes "add a fs = Inr ([], fs')"
  shows "\<exists>f. same f \<and> ok f \<and> faults_of fs' (path_of a) = faults_of fs (path_of a) @ [f]"
  using add_law [OF assms] by (auto simp: faults_of_register_fault conflicts_faults_of filter_empty_conv)

lemma error_keeps:
  assumes "add a fs = Inr (errors, fs')" and "errors \<noteq> []"
  shows "faults_of fs' path = faults_of fs path"
  using add_law [OF assms(1)]
proof (elim disjE exE conjE)
  fix f
  assume fs': "fs' = register_fault same (path_of a) f fs"
    and "length errors = conflicts same (path_of a) fs"
  then have "filter same (faults_of fs (path_of a)) \<noteq> []"
    using assms(2) by (auto simp: conflicts_faults_of)
  then show ?thesis by (auto simp: fs' faults_of_register_fault filter_empty_conv)
qed simp

lemma other_paths:
  assumes "add a fs = Inr (errors, fs')" and "path \<noteq> path_of a"
  shows "faults_of fs' path = faults_of fs path"
  using add_law [OF assms(1)] assms(2) by (auto simp: faults_of_register_fault)

end

text \<open>What validation guarantees of a registered fault.\<close>

definition split_write_ok :: "fault \<Rightarrow> bool" where
  "split_write_ok f =
     (case f of
        SplitWriteF s \<Rightarrow>
          0 < sw_occurrence s \<and> sw_counter s = 0 \<and>
          (let n = (if sw_parts s = - 1 then int (length (sw_parts_bytes s)) else sw_parts s) in
           (\<forall>p \<in> set (sw_persist s). 0 < p \<and> p \<le> n) \<and>
           (sw_parts s = - 1 \<or> 0 < sw_parts s) \<and> (\<forall>b \<in> set (sw_parts_bytes s). 0 < b))
      | _ \<Rightarrow> False)"

definition reorder_ok :: "fault \<Rightarrow> bool" where
  "reorder_ok f =
     (case f of
        ReorderF r \<Rightarrow>
          ro_op r = ''write'' \<and> 0 < ro_occurrence r \<and> ro_counter r = 0 \<and> ro_group_counter r = 0 \<and>
          (\<forall>p \<in> set (ro_persist r). 0 < p)
      | _ \<Rightarrow> False)"

lemma split_write_ok_parts:
  assumes "split_write_validate occ persist (Some n) None = []"
  shows "split_write_ok (SplitWriteF (new_SplitWriteF_parts occ persist n))"
  using assms
  by (auto simp: split_write_validate_parts_Nil split_write_ok_def new_SplitWriteF_parts_def)

lemma split_write_ok_bytes:
  assumes "split_write_validate occ persist None (Some bs) = []"
  shows "split_write_ok (SplitWriteF (new_SplitWriteF_bytes occ persist bs))"
  using assms
  by (auto simp: split_write_validate_bytes_Nil split_write_ok_def new_SplitWriteF_bytes_def)

lemma reorder_ok_validate:
  assumes "reorder_validate (new_ReorderF op persist occ) = []"
  shows "reorder_ok (ReorderF (new_ReorderF op persist occ))"
  using assms by (auto simp: reorder_validate_Nil reorder_ok_def new_ReorderF_def)

lemma add_torn_op_fault_law:
  assumes "add_torn_op_fault path parts parts_bytes persist occurrence fs = Inr (errors, fs')"
  shows "(errors \<noteq> [] \<and> fs' = fs) \<or>
     (\<exists>f. is_SplitWriteF f \<and> split_write_ok f \<and>
          fs' = register_fault is_SplitWriteF path f fs \<and>
          length errors = conflicts is_SplitWriteF path fs)"
proof -
  obtain persistv pbs n occ where
    eq: "(let (f, errors) =
           (if n \<noteq> - 1
            then (new_SplitWriteF_parts occ persistv n,
                  split_write_validate occ persistv (Some n) None)
            else (new_SplitWriteF_bytes occ persistv pbs,
                  split_write_validate occ persistv None (Some pbs)))
         in if errors = []
            then Inr (replicate (conflicts is_SplitWriteF path fs) OnlyOneTornOp,
                      register_fault is_SplitWriteF path (SplitWriteF f) fs)
            else Inr (errors, fs)) = (Inr (errors, fs') :: (fault_error list \<times> faults) res)"
    using assms unfolding add_torn_op_fault_def bnd_eq_Inr by blast
  define f where "f = (if n \<noteq> - 1 then new_SplitWriteF_parts occ persistv n
                      else new_SplitWriteF_bytes occ persistv pbs)"
  define v where "v = (if n \<noteq> - 1 then split_write_validate occ persistv (Some n) None
                      else split_write_validate occ persistv None (Some pbs))"
  have ok: "v = [] \<Longrightarrow> split_write_ok (SplitWriteF f)"
    unfolding v_def f_def using split_write_ok_parts split_write_ok_bytes by presburger
  have "errors = (if v = [] then replicate (conflicts is_SplitWriteF path fs) OnlyOneTornOp else v)"
    and "fs' = (if v = [] then register_fault is_SplitWriteF path (SplitWriteF f) fs else fs)"
    using eq by (auto simp: v_def f_def split: if_splits)
  then show ?thesis using ok is_kind_simps(1) [of f] length_replicate by metis
qed

lemma add_torn_seq_fault_law:
  assumes "add_torn_seq_fault path op persist occurrence fs = Inr (errors, fs')"
  shows "(errors \<noteq> [] \<and> fs' = fs) \<or>
     (\<exists>f. is_ReorderF f \<and> reorder_ok f \<and> fs' = register_fault is_ReorderF path f fs \<and>
          length errors = conflicts is_ReorderF path fs)"
proof -
  obtain persistv occ where
    eq: "(let f = new_ReorderF op persistv occ;
              errors = reorder_validate f
          in if errors = []
             then Inr (replicate (conflicts is_ReorderF path fs) OnlyOneTornSeq,
                       register_fault is_ReorderF path (ReorderF f) fs)
             else Inr (errors, fs)) = (Inr (errors, fs') :: (fault_error list \<times> faults) res)"
    using assms unfolding add_torn_seq_fault_def bnd_eq_Inr by blast
  define f where "f = new_ReorderF op persistv occ"
  have "errors = (if reorder_validate f = []
                  then replicate (conflicts is_ReorderF path fs) OnlyOneTornSeq
                  else reorder_validate f)"
    and "fs' = (if reorder_validate f = []
                then register_fault is_ReorderF path (ReorderF f) fs else fs)"
    using eq by (auto simp: f_def Let_def split: if_splits)
  then show ?thesis
    using reorder_ok_validate [of op persistv occ] is_kind_simps(5) [of f] length_replicate f_def
    by metis
qed

interpretation torn_op: fault_registrar is_SplitWriteF
  "\<lambda>(path, parts, parts_bytes, persist, occurrence).
     add_torn_op_fault path parts parts_bytes persist occurrence"
  fst split_write_ok
  by unfold_locales (auto split: prod.splits dest!: add_torn_op_fault_law)

interpretation torn_seq: fault_registrar is_ReorderF
  "\<lambda>(path, op, persist, occurrence). add_torn_seq_fault path op persist occurrence"
  fst reorder_ok
  by unfold_locales (auto split: prod.splits dest!: add_torn_seq_fault_law)

end
