(* ===== verification/Config_Load.thy ===== *)
theory Config_Load
  imports Faults
begin

text \<open>
  \<open>Config::load_config\<close> (\<open>libs/libpcache/src/config/config.cpp\<close>): from a parsed TOML document
  to the configuration and the table of faults to inject. The TOML parser is a third-party
  library; its result is the argument, a record with the keys the code looks up, each \<open>None\<close>
  when the document does not have it. \<open>toml::find\<close> of a missing key throws.
\<close>

section \<open>The parsed document\<close>

record toml_injection =
  in_type :: "string option"
  in_file :: "string option"
  in_op :: "string option"
  in_timing :: "string option"
  in_from :: "string option"
  in_to :: "string option"
  in_occurrence :: "int option"
  in_persist :: "int list option"
  in_parts :: "int option"
  in_parts_bytes :: "int list option"
  in_crash :: "bool option"

record toml_faults =
  tf_fifo_path :: "string option"
  tf_fifo_path_completed :: "string option"

record toml_simple =
  ts_custom_size :: "string option"
  ts_blocks_per_page :: "int option"

record toml_manual =
  tm_io_block_size :: "int option"
  tm_page_size :: "int option"
  tm_no_pages :: "int option"

record toml_cache =
  tc_simple :: "toml_simple option"
  tc_manual :: "toml_manual option"
  tc_apply_eviction :: "bool option"

record toml_filesystem =
  tfs_log_all_operations :: "bool option"
  tfs_logfile :: "string option"

record toml_document =
  doc_faults :: "toml_faults option"
  doc_cache :: "toml_cache option"
  doc_filesystem :: "toml_filesystem option"
  doc_injection :: "toml_injection list option"

definition toml_find :: "'a option \<Rightarrow> 'a res" where
  "toml_find x = of_option OutOfRange x"

text \<open>
  The numbers of a document have 64 bits; \<open>toml::find<int>\<close> and \<open>toml::find<vector<int>>\<close> convert
  them to \<open>int\<close>.
\<close>

definition find_int :: "int option \<Rightarrow> int option" where
  "find_int x = map_option c_int x"

definition find_ints :: "int list option \<Rightarrow> int list option" where
  "find_ints x = map_option (map c_int) x"

section \<open>Cache settings\<close>

definition load_fifo_paths :: "toml_faults \<Rightarrow> config \<Rightarrow> config" where
  "load_fifo_paths tf c =
     (let c = (case tf_fifo_path tf of
                 None \<Rightarrow> c | Some p \<Rightarrow> if p \<noteq> [] then c\<lparr>FIFO_PATH := p\<rparr> else c)
      in case tf_fifo_path_completed tf of
           None \<Rightarrow> c | Some p \<Rightarrow> if p \<noteq> [] then c\<lparr>FIFO_PATH_COMPLETED := p\<rparr> else c)"

definition load_cache_settings :: "int \<Rightarrow> toml_cache \<Rightarrow> config \<Rightarrow> config res" where
  "load_cache_settings uninit tc c =
     bnd (case tc_simple tc of
            Some s \<Rightarrow>
              bnd (toml_find (ts_custom_size s)) (\<lambda>cache_size.
              let bpp = (case ts_blocks_per_page s of None \<Rightarrow> 1 | Some n \<Rightarrow> c_int n)
              in setup_config_by_size (parse_custom_size uninit cache_size) bpp c)
          | None \<Rightarrow>
              (case tc_manual tc of
                 None \<Rightarrow> Inr c
               | Some m \<Rightarrow>
                   bnd (toml_find (tm_io_block_size m)) (\<lambda>block_size.
                   bnd (toml_find (tm_page_size m)) (\<lambda>page_size.
                   bnd (toml_find (tm_no_pages m)) (\<lambda>no_pages.
                   setup_config_manually (u64 block_size) (u64 page_size) (u64 no_pages) c))))) (\<lambda>c.
     Inr (case tc_apply_eviction tc of None \<Rightarrow> c | Some flag \<Rightarrow> set_eviction_flag flag c))"

definition load_filesystem_settings :: "toml_filesystem \<Rightarrow> config \<Rightarrow> config" where
  "load_filesystem_settings tfs c =
     (let c = (case tfs_log_all_operations tfs of
                 None \<Rightarrow> c | Some b \<Rightarrow> c\<lparr>log_all_operations := b\<rparr>)
      in case tfs_logfile tfs of None \<Rightarrow> c | Some f \<Rightarrow> c\<lparr>LOG_FILE := f\<rparr>)"

section \<open>Injections\<close>

text \<open>
  The result of \<open>fault->validate ()\<close> is stored in a second variable \<open>errors\<close> that hides the
  one tested afterwards, so a torn-seq fault whose four keys are present is always accepted. The
  persist list is sorted first.
\<close>

definition load_torn_seq :: "toml_injection \<Rightarrow> faults \<Rightarrow> faults" where
  "load_torn_seq injection fs =
     (case (in_file injection, in_op injection, find_int (in_occurrence injection),
             find_ints (in_persist injection)) of
        (Some file, Some op, Some occurrence, Some persist) \<Rightarrow>
          register_fault (\<lambda>g. case g of ReorderF r \<Rightarrow> ro_op r = op | _ \<Rightarrow> False) file
            (ReorderF (new_ReorderF op (sort persist) occurrence)) fs
      | _ \<Rightarrow> fs)"

definition load_torn_op :: "toml_injection \<Rightarrow> faults \<Rightarrow> faults" where
  "load_torn_op injection fs =
     (case (in_file injection, find_int (in_occurrence injection), find_ints (in_persist injection)) of
        (Some file, Some occurrence, Some persist) \<Rightarrow>
          (case (find_int (in_parts injection), find_ints (in_parts_bytes injection)) of
             (Some parts, None) \<Rightarrow>
               if split_write_validate occurrence persist (Some parts) None = []
               then register_fault is_SplitWriteF file
                      (SplitWriteF (new_SplitWriteF_parts occurrence persist parts)) fs
               else fs
           | (None, Some parts_bytes) \<Rightarrow>
               if split_write_validate occurrence persist None (Some parts_bytes) = []
               then register_fault is_SplitWriteF file
                      (SplitWriteF (new_SplitWriteF_bytes occurrence persist parts_bytes)) fs
               else fs
           | _ \<Rightarrow> fs)
      | _ \<Rightarrow> fs)"

definition load_clear :: "toml_injection \<Rightarrow> faults \<Rightarrow> faults" where
  "load_clear injection fs =
     (case (find_int (in_occurrence injection), in_timing injection, in_op injection, in_crash injection) of
        (Some occurrence, Some timing, Some op, Some crash) \<Rightarrow>
          (let from = (case in_from injection of None \<Rightarrow> ''none'' | Some p \<Rightarrow> p);
               to = (case in_to injection of None \<Rightarrow> ''none'' | Some p \<Rightarrow> p);
               f = new_ClearF timing op from to occurrence crash
           in if clear_validate f = [] then register_fault is_ClearF from (ClearF f) fs else fs)
      | _ \<Rightarrow> fs)"

definition load_injection :: "toml_injection \<Rightarrow> faults \<Rightarrow> faults res" where
  "load_injection injection fs =
     bnd (of_option RuntimeError (in_type injection)) (\<lambda>type.
     Inr (if type = ''torn-seq'' then load_torn_seq injection fs
          else if type = ''torn-op'' then load_torn_op injection fs
          else if type = ''clear-cache'' then load_clear injection fs
          else fs))"

definition load_injections :: "toml_injection list \<Rightarrow> faults res" where
  "load_injections injs = foldE load_injection injs fmempty"

definition load_config :: "int \<Rightarrow> toml_document \<Rightarrow> config \<Rightarrow> (config \<times> faults) res" where
  "load_config uninit doc c =
     bnd (toml_find (doc_faults doc)) (\<lambda>tf.
     bnd (toml_find (doc_cache doc)) (\<lambda>tc.
     bnd (load_cache_settings uninit tc (load_fifo_paths tf c)) (\<lambda>c.
     let c = (case doc_filesystem doc of
                None \<Rightarrow> c | Some tfs \<Rightarrow> load_filesystem_settings tfs c)
     in bnd (case doc_injection doc of None \<Rightarrow> Inr fmempty | Some injs \<Rightarrow> load_injections injs)
          (\<lambda>fs. Inr (c, fs)))))"

section \<open>Lemmas\<close>

lemma at_most_one_register:
  assumes "at_most_one same fs" and "same f \<Longrightarrow> (\<forall>g. same g \<longrightarrow> other g)"
  shows "at_most_one same (register_fault other path f fs)"
  using assms
  by (auto simp: at_most_one_def faults_of_register_fault filter_empty_conv)

lemma load_injection_at_most_one:
  assumes "load_injection injection fs = Inr fs'"
    and "at_most_one is_SplitWriteF fs" and "at_most_one is_ClearF fs"
  shows "at_most_one is_SplitWriteF fs' \<and> at_most_one is_ClearF fs'"
proof -
  have "at_most_one is_SplitWriteF (load_torn_seq injection fs)" "at_most_one is_ClearF (load_torn_seq injection fs)"
    using assms(2,3)
    by (auto simp: load_torn_seq_def intro!: at_most_one_register split: option.splits)
  moreover have "at_most_one is_SplitWriteF (load_torn_op injection fs)"
    "at_most_one is_ClearF (load_torn_op injection fs)"
    using assms(2,3)
    by (auto simp: load_torn_op_def intro!: at_most_one_register split: option.splits)
  moreover have "at_most_one is_SplitWriteF (load_clear injection fs)" "at_most_one is_ClearF (load_clear injection fs)"
    using assms(2,3)
    by (auto simp: load_clear_def Let_def intro!: at_most_one_register split: option.splits)
  ultimately show ?thesis
    using assms by (auto simp: load_injection_def bnd_eq_Inr split: if_splits)
qed

end
