(* ===== verification/Items.thy ===== *)
theory Items
  imports Prelude
begin

text \<open>
  Cached items (\<open>libs/libpcache/src/item\<close>): what the cache knows about one inode.
  \<^item> \<open>BlockInfo\<close>: the page a block lives in and the byte range that is readable there;
  \<^item> \<open>Data\<close>: the blocks of a file by block number;
  \<^item> \<open>Metadata\<close>: size, times and link count;
  \<^item> \<open>Item\<close>: both, with the flag that says whether the data is synced.
\<close>

section \<open>Block information\<close>

record block_info =
  readable_offset :: "int \<times> int"
  page_index_number :: int

definition BlockInfo :: block_info where
  "BlockInfo = \<lparr>readable_offset = (0, 0), page_index_number = - 1\<rparr>"

definition set_page_index_number :: "int \<Rightarrow> block_info \<Rightarrow> block_info" where
  "set_page_index_number page_id i = i\<lparr>page_index_number := page_id\<rparr>"

definition bi_make_readable_to :: "int \<Rightarrow> block_info \<Rightarrow> int \<times> block_info" where
  "bi_make_readable_to to i =
     (let i = (if to > snd (readable_offset i)
               then i\<lparr>readable_offset := (fst (readable_offset i), to)\<rparr> else i)
      in (snd (readable_offset i), i))"

definition truncate_readable_to :: "int \<Rightarrow> block_info \<Rightarrow> block_info" where
  "truncate_readable_to to i = i\<lparr>readable_offset := (fst (readable_offset i), to)\<rparr>"

section \<open>The blocks of an item\<close>

type_synonym item_data = "(int, block_info) fmap"

definition get_page_id :: "item_data \<Rightarrow> int \<Rightarrow> int" where
  "get_page_id d blk_id =
     (case fmlookup d blk_id of None \<Rightarrow> - 1 | Some i \<Rightarrow> page_index_number i)"

definition has_block :: "item_data \<Rightarrow> int \<Rightarrow> bool" where
  "has_block d blk_id \<longleftrightarrow> fmlookup d blk_id \<noteq> None"

text \<open>
  The C++ updates the \<open>BlockInfo\<close> through its pointer and then inserts the pair, which has
  no effect when the block was there: either way the block ends with the updated information.
\<close>

definition set_block_page_id :: "int \<Rightarrow> int \<Rightarrow> int \<Rightarrow> int \<Rightarrow> item_data \<Rightarrow> int \<times> item_data" where
  "set_block_page_id blk_id allocated_page readable_from readable_to d =
     (let block_info = (case fmlookup d blk_id of None \<Rightarrow> BlockInfo | Some i \<Rightarrow> i);
          block_info = set_page_index_number allocated_page block_info;
          (max, block_info) = bi_make_readable_to readable_to block_info
      in (max, fmupd blk_id block_info d))"

definition remove_data_block :: "int \<Rightarrow> item_data \<Rightarrow> item_data" where
  "remove_data_block blk_id d = fmdrop blk_id d"

definition data_readable_offsets :: "item_data \<Rightarrow> int \<Rightarrow> (int \<times> int) res" where
  "data_readable_offsets d blk_id =
     bnd (of_option NullDeref (fmlookup d blk_id)) (\<lambda>i. Inr (readable_offset i))"

definition get_blocks_max_offsets :: "item_data \<Rightarrow> (int, int) fmap" where
  "get_blocks_max_offsets d = fmmap (\<lambda>i. snd (readable_offset i)) d"

definition remove_all_blocks :: "item_data \<Rightarrow> item_data" where
  "remove_all_blocks d = fmempty"

definition count_blocks :: "item_data \<Rightarrow> int" where
  "count_blocks d = int (fcard (fmdom d))"

text \<open>
  One visit of the loop in \<open>Data::truncate_blocks_after\<close>: a block at or after the cut is
  reported with its page; it is dropped unless it is the block of the cut and keeps a prefix.
\<close>

definition truncate_visit ::
  "int \<Rightarrow> int \<Rightarrow> int \<Rightarrow> (int, int) fmap \<times> item_data \<Rightarrow> (int, int) fmap \<times> item_data" where
  "truncate_visit blk_id blk_byte_index b_id = (\<lambda>(res, d).
     if b_id \<ge> blk_id then
       (let res = fmins b_id (get_page_id d b_id) res in
        if b_id > blk_id then (res, fmdrop b_id d)
        else if blk_byte_index = 0 then (res, fmdrop b_id d)
        else (case fmlookup d blk_id of
                None \<Rightarrow> (res, d)
              | Some info \<Rightarrow>
                  (res, fmupd blk_id (truncate_readable_to (blk_byte_index - 1) info) d)))
     else (res, d))"

definition truncate_blocks_after :: "int \<Rightarrow> int \<Rightarrow> item_data \<Rightarrow> (int, int) fmap \<times> item_data" where
  "truncate_blocks_after blk_id blk_byte_index d =
     fold (truncate_visit blk_id blk_byte_index) (fmkeys d) (fmempty, d)"

section \<open>Metadata and items\<close>

record timespec =
  tv_sec :: int
  tv_nsec :: int

record metadata =
  nlinks :: int
  meta_size :: int
  atim :: timespec
  mtim :: timespec
  ctim :: timespec

text \<open>The constructor leaves the three times uninitialised; the model starts them at zero.\<close>

definition Metadata :: metadata where
  "Metadata =
     (let t0 = \<lparr>tv_sec = 0, tv_nsec = 0\<rparr> in
      \<lparr>nlinks = 1, meta_size = 0, atim = t0, mtim = t0, ctim = t0\<rparr>)"

record item =
  idata :: item_data
  imetadata :: metadata
  data_synced :: bool

definition Item :: item where
  "Item = \<lparr>idata = fmempty, imetadata = Metadata, data_synced = True\<rparr>"

definition update_field :: "metadata \<Rightarrow> string \<Rightarrow> metadata \<Rightarrow> metadata" where
  "update_field new_meta str oldmeta =
     (if str = ''size'' then oldmeta\<lparr>meta_size := meta_size new_meta\<rparr>
      else if str = ''atime'' then oldmeta\<lparr>atim := atim new_meta\<rparr>
      else if str = ''ctime'' then oldmeta\<lparr>ctim := ctim new_meta\<rparr>
      else if str = ''mtime'' then oldmeta\<lparr>mtim := mtim new_meta\<rparr>
      else if str = ''nlinks'' then oldmeta\<lparr>nlinks := nlinks new_meta\<rparr>
      else oldmeta)"

definition update_metadata :: "metadata \<Rightarrow> string list \<Rightarrow> item \<Rightarrow> item" where
  "update_metadata new_meta values_to_update i =
     i\<lparr>imetadata := fold (update_field new_meta) values_to_update (imetadata i)\<rparr>"

definition set_data_sync_flag :: "bool \<Rightarrow> item \<Rightarrow> item" where
  "set_data_sync_flag flag i = i\<lparr>data_synced := flag\<rparr>"

section \<open>Lemmas\<close>

lemma set_block_page_id_lookup:
  assumes "set_block_page_id b p f t d = (mx, d')"
  shows "fmlookup d' b' = (if b' = b then fmlookup d' b else fmlookup d b')"
    and "get_page_id d' b' = (if b' = b then p else get_page_id d b')"
    and "has_block d' b' \<longleftrightarrow> b' = b \<or> has_block d b'"
    and "fmdom d' = finsert b (fmdom d)"
  using assms
  by (auto simp: set_block_page_id_def Let_def bi_make_readable_to_def set_page_index_number_def
      get_page_id_def has_block_def split: if_splits)

text \<open>The readable end of a block never shrinks by writing to it.\<close>

lemma set_block_page_id_readable:
  assumes "set_block_page_id b p f t d = (mx, d')"
  shows "map_option (\<lambda>i. snd (readable_offset i)) (fmlookup d' b) = Some mx"
    and "mx = max t (case fmlookup d b of None \<Rightarrow> 0 | Some i \<Rightarrow> snd (readable_offset i))"
  using assms
  by (auto simp: set_block_page_id_def Let_def bi_make_readable_to_def set_page_index_number_def
      data_readable_offsets_def BlockInfo_def max_def split: if_splits option.splits)

text \<open>
  The result of \<open>Data::truncate_blocks_after\<close>, block by block: after visiting a set of
  blocks, exactly those at or after the cut are reported, with the page they had, and only the
  block of the cut can survive among them.
\<close>

definition truncated_block :: "int \<Rightarrow> int \<Rightarrow> item_data \<Rightarrow> int \<Rightarrow> block_info option" where
  "truncated_block blk_id blk_byte_index d b =
     (if b < blk_id then fmlookup d b
      else if b = blk_id \<and> blk_byte_index \<noteq> 0
      then map_option (truncate_readable_to (blk_byte_index - 1)) (fmlookup d b)
      else None)"

lemma truncate_visits:
  assumes "distinct ks" and "set ks \<subseteq> fset (fmdom d)"
    and "\<And>k. k \<in> set ks \<Longrightarrow> fmlookup e k = fmlookup d k \<and> fmlookup res k = None"
    and "fold (truncate_visit blk idx) ks (res, e) = (res', e')"
  shows "fmlookup e' b = (if b \<in> set ks then truncated_block blk idx d b else fmlookup e b) \<and>
         fmlookup res' b = (if b \<in> set ks \<and> blk \<le> b then Some (get_page_id d b)
                            else fmlookup res b)"
  using assms
proof (induction ks arbitrary: res e)
  case Nil
  then show ?case by simp
next
  case (Cons k ks)
  obtain res1 e1 where step: "truncate_visit blk idx k (res, e) = (res1, e1)"
    by (cases "truncate_visit blk idx k (res, e)")
  obtain i where i: "fmlookup d k = Some i" using Cons.prems(2) by (auto simp: fmlookup_dom_iff)
  have k: "fmlookup e k = Some i" "fmlookup res k = None" using Cons.prems(3) i by auto
  have e1: "fmlookup e1 b' = (if b' = k then truncated_block blk idx d k else fmlookup e b')"
    and res1: "fmlookup res1 b' =
        (if b' = k \<and> blk \<le> k then Some (get_page_id d k) else fmlookup res b')" for b'
    using step k i
    by (auto simp: truncate_visit_def truncated_block_def Let_def get_page_id_def fmlookup_fmins
        split: if_splits)
  have rest: "fold (truncate_visit blk idx) ks (res1, e1) = (res', e')"
    using Cons.prems(4) step by simp
  have "fmlookup e' b = (if b \<in> set ks then truncated_block blk idx d b else fmlookup e1 b) \<and>
        fmlookup res' b = (if b \<in> set ks \<and> blk \<le> b then Some (get_page_id d b)
                           else fmlookup res1 b)"
  proof (rule Cons.IH [OF _ _ _ rest])
    show "distinct ks" "set ks \<subseteq> fset (fmdom d)" using Cons.prems(1,2) by auto
  next
    fix k' assume "k' \<in> set ks"
    then show "fmlookup e1 k' = fmlookup d k' \<and> fmlookup res1 k' = None"
      using Cons.prems(1,3) by (auto simp: e1 res1)
  qed
  then show ?case using Cons.prems(1) by (auto simp: e1 res1)
qed

lemma truncate_blocks_after_lookup:
  assumes "truncate_blocks_after blk idx d = (res, d')"
  shows "fmlookup d' b = truncated_block blk idx d b"
    and "fmlookup res b = (if has_block d b \<and> blk \<le> b then Some (get_page_id d b) else None)"
proof -
  have "fmlookup d' b = (if b \<in> set (fmkeys d) then truncated_block blk idx d b else fmlookup d b)
      \<and> fmlookup res b = (if b \<in> set (fmkeys d) \<and> blk \<le> b then Some (get_page_id d b)
                          else fmlookup fmempty b)"
    by (rule truncate_visits) (use assms in \<open>auto simp: truncate_blocks_after_def\<close>)
  moreover have "b \<notin> set (fmkeys d) \<Longrightarrow> fmlookup d b = None" by (simp add: fmdom_notD)
  moreover have "b \<in> set (fmkeys d) \<longleftrightarrow> has_block d b"
    by (auto simp: has_block_def fmlookup_dom_iff)
  ultimately show "fmlookup d' b = truncated_block blk idx d b"
    and "fmlookup res b = (if has_block d b \<and> blk \<le> b then Some (get_page_id d b) else None)"
    by (auto simp: truncated_block_def)
qed

lemma remove_data_block_simps [simp]:
  "fmlookup (remove_data_block b d) b' = (if b' = b then None else fmlookup d b')"
  "has_block (remove_data_block b d) b' \<longleftrightarrow> b' \<noteq> b \<and> has_block d b'"
  by (auto simp: remove_data_block_def has_block_def)

lemma update_field_nlinks:
  "nlinks (update_field m str o1) = (if str = ''nlinks'' then nlinks m else nlinks o1)"
  "meta_size (update_field m str o1) = (if str = ''size'' then meta_size m else meta_size o1)"
  by (auto simp: update_field_def)

lemma update_metadata_frame [simp]:
  "idata (update_metadata m vs i) = idata i"
  "data_synced (update_metadata m vs i) = data_synced i"
  by (simp_all add: update_metadata_def)

end
