(* ===== verification/Host.thy ===== *)
theory Host
  imports Prelude Items
begin

text \<open>
  The host operating system as the code sees it. Its code is not part of the repository, so it
  is a parameter: a record of the system calls the sources use, over an arbitrary type of host
  states, each a function of its arguments and the host state. A failing call returns a negative
  value, as in C, and \<open>os_errno\<close> then tells why.

  \<open>host_laws\<close> collects what the file system relies on and POSIX documents for regular files: a
  view of the host state says which inode a path and a descriptor refer to and what an inode
  contains, and the calls read and write that view. Theorems that depend on the host name this
  predicate as a hypothesis.
\<close>

section \<open>System calls\<close>

record stat =
  st_ino :: int
  st_size :: int
  st_nlink :: int
  st_blocks :: int
  st_reg :: bool          \<comment> \<open>\<open>S_ISREG (st_mode)\<close>\<close>
  st_dir :: bool          \<comment> \<open>\<open>S_ISDIR (st_mode)\<close>\<close>
  st_atim :: timespec
  st_mtim :: timespec
  st_ctim :: timespec

record 'd os =
  os_open :: "string \<Rightarrow> int \<Rightarrow> int \<Rightarrow> 'd \<Rightarrow> int \<times> 'd"        \<comment> \<open>path, flags, mode\<close>
  os_close :: "int \<Rightarrow> 'd \<Rightarrow> 'd"
  os_pread :: "int \<Rightarrow> int \<Rightarrow> int \<Rightarrow> 'd \<Rightarrow> int \<times> byte list" \<comment> \<open>fd, count, offset\<close>
  os_pwrite :: "int \<Rightarrow> byte list \<Rightarrow> int \<Rightarrow> 'd \<Rightarrow> int \<times> 'd"
  os_pwritev :: "int \<Rightarrow> byte list list \<Rightarrow> int \<Rightarrow> 'd \<Rightarrow> int \<times> 'd"
  os_ftruncate :: "int \<Rightarrow> int \<Rightarrow> 'd \<Rightarrow> int \<times> 'd"
  os_truncate :: "string \<Rightarrow> int \<Rightarrow> 'd \<Rightarrow> int \<times> 'd"
  os_fsync :: "int \<Rightarrow> 'd \<Rightarrow> int \<times> 'd"
  os_fdatasync :: "int \<Rightarrow> 'd \<Rightarrow> int \<times> 'd"
  os_utimes :: "string \<Rightarrow> timespec \<Rightarrow> timespec \<Rightarrow> 'd \<Rightarrow> int \<times> 'd"
  os_lstat :: "string \<Rightarrow> 'd \<Rightarrow> int \<times> stat"
  os_stat :: "string \<Rightarrow> 'd \<Rightarrow> int \<times> stat"
  os_rename :: "string \<Rightarrow> string \<Rightarrow> 'd \<Rightarrow> int \<times> 'd"
  os_link :: "string \<Rightarrow> string \<Rightarrow> 'd \<Rightarrow> int \<times> 'd"
  os_symlink :: "string \<Rightarrow> string \<Rightarrow> 'd \<Rightarrow> int \<times> 'd"
  os_unlink :: "string \<Rightarrow> 'd \<Rightarrow> int \<times> 'd"
  os_access :: "string \<Rightarrow> int \<Rightarrow> 'd \<Rightarrow> int \<times> 'd"
  os_mkdir :: "string \<Rightarrow> int \<Rightarrow> 'd \<Rightarrow> int \<times> 'd"
  os_rmdir :: "string \<Rightarrow> 'd \<Rightarrow> int \<times> 'd"
  os_chmod :: "string \<Rightarrow> int \<Rightarrow> 'd \<Rightarrow> int \<times> 'd"
  os_lchown :: "string \<Rightarrow> int \<Rightarrow> int \<Rightarrow> 'd \<Rightarrow> int \<times> 'd"
  os_utimensat :: "string \<Rightarrow> timespec \<Rightarrow> timespec \<Rightarrow> 'd \<Rightarrow> int \<times> 'd"
  os_lseek :: "int \<Rightarrow> int \<Rightarrow> int \<Rightarrow> 'd \<Rightarrow> int \<times> 'd"
  os_readlink :: "string \<Rightarrow> int \<Rightarrow> 'd \<Rightarrow> int \<times> string"
  os_readdir :: "string \<Rightarrow> 'd \<Rightarrow> (string \<times> bool) list option" \<comment> \<open>names, regular or not\<close>
  os_mkfifo :: "string \<Rightarrow> int \<Rightarrow> 'd \<Rightarrow> int \<times> 'd"
  os_write :: "int \<Rightarrow> string \<Rightarrow> 'd \<Rightarrow> int \<times> 'd"
  os_lsetxattr :: "string \<Rightarrow> string \<Rightarrow> byte list \<Rightarrow> int \<Rightarrow> int \<Rightarrow> 'd \<Rightarrow> int \<times> 'd" \<comment> \<open>size, flags\<close>
  os_lgetxattr :: "string \<Rightarrow> string \<Rightarrow> int \<Rightarrow> 'd \<Rightarrow> int \<times> byte list"
  os_llistxattr :: "string \<Rightarrow> int \<Rightarrow> 'd \<Rightarrow> int \<times> byte list"
  os_lremovexattr :: "string \<Rightarrow> string \<Rightarrow> 'd \<Rightarrow> int \<times> 'd"
  os_errno :: "'d \<Rightarrow> int"
  os_now :: "'d \<Rightarrow> timespec"

text \<open>Flags of \<open>open\<close> on Linux.\<close>

definition O_RDONLY :: int where "O_RDONLY = 0"
definition O_WRONLY :: int where "O_WRONLY = 1"
definition O_RDWR :: int where "O_RDWR = 2"
definition O_ACCMODE :: int where "O_ACCMODE = 3"
definition O_CREAT :: int where "O_CREAT = 64"
definition O_TRUNC :: int where "O_TRUNC = 512"
definition EEXIST :: int where "EEXIST = 17"

text \<open>The number of bytes from which on the name of a file is too long for any call.\<close>

definition PATH_MAX :: nat where "PATH_MAX = 4096"

section \<open>Regular files as byte sequences\<close>

text \<open>
  Writing at an offset extends the file when it ends after its current end, and fills the gap
  with zeros; resizing cuts the file or extends it with zeros.
\<close>

definition file_write :: "byte list \<Rightarrow> int \<Rightarrow> byte list \<Rightarrow> byte list" where
  "file_write c off bs =
     (if bs = [] then c
      else take (nat off) c @ replicate (nat off - length c) 0 @ bs
           @ drop (nat off + length bs) c)"

definition file_resize :: "byte list \<Rightarrow> int \<Rightarrow> byte list" where
  "file_resize c n = take (nat n) c @ replicate (nat n - length c) 0"

lemma file_write_length:
  "length (file_write c off bs) = (if bs = [] then length c else max (length c) (nat off + length bs))"
  by (auto simp: file_write_def max_def min_def)

lemma file_resize_length [simp]: "length (file_resize c n) = nat n"
  by (simp add: file_resize_def)

text \<open>Reading past the end yields zeros; this total view makes the two operations pointwise.\<close>

definition byte_at :: "byte list \<Rightarrow> nat \<Rightarrow> byte" where
  "byte_at c i = (if i < length c then c ! i else 0)"

lemma byte_at_file_write:
  "byte_at (file_write c off bs) i =
     (if nat off \<le> i \<and> i < nat off + length bs then bs ! (i - nat off) else byte_at c i)"
proof (cases "bs = []")
  case True
  then show ?thesis by (auto simp: file_write_def)
next
  case False
  then show ?thesis
    by (auto simp: file_write_def byte_at_def nth_append min_def)
qed

lemma byte_at_file_resize:
  "byte_at (file_resize c n) i = (if i < nat n then byte_at c i else 0)"
  by (auto simp: file_resize_def byte_at_def nth_append min_def)

lemma byte_list_eqI:
  "length c = length c' \<Longrightarrow> (\<And>i. i < length c \<Longrightarrow> byte_at c i = byte_at c' i) \<Longrightarrow> c = c'"
  by (rule nth_equalityI) (auto simp: byte_at_def)

section \<open>What the code relies on\<close>

record 'd view =
  path_ino :: "'d \<Rightarrow> string \<Rightarrow> int option"
  fd_ino :: "'d \<Rightarrow> int \<Rightarrow> int option"
  content :: "'d \<Rightarrow> int \<Rightarrow> byte list"

text \<open>
  Opening an existing file without truncating it yields a fresh descriptor for it; that it would
  be created if it were not there makes no difference.
\<close>

definition open_law :: "'d os \<Rightarrow> 'd view \<Rightarrow> bool" where
  "open_law h v \<longleftrightarrow>
     (\<forall>d p f m i. path_ino v d p = Some i \<longrightarrow>
        f = O_RDONLY \<or> f = O_WRONLY \<or> f = O_RDWR \<or> f = O_CREAT + O_WRONLY \<longrightarrow>
        (\<exists>fd d'. os_open h p f m d = (fd, d') \<and> 0 \<le> fd \<and> fd_ino v d fd = None \<and>
                fd_ino v d' = (fd_ino v d)(fd := Some i) \<and>
                content v d' = content v d \<and> path_ino v d' = path_ino v d))"

definition close_law :: "'d os \<Rightarrow> 'd view \<Rightarrow> bool" where
  "close_law h v \<longleftrightarrow>
     (\<forall>d fd. content v (os_close h fd d) = content v d \<and>
             path_ino v (os_close h fd d) = path_ino v d \<and>
             fd_ino v (os_close h fd d) = (fd_ino v d)(fd := None))"

definition pread_law :: "'d os \<Rightarrow> 'd view \<Rightarrow> bool" where
  "pread_law h v \<longleftrightarrow>
     (\<forall>d fd i n off. fd_ino v d fd = Some i \<longrightarrow> 0 \<le> n \<longrightarrow> 0 \<le> off \<longrightarrow>
        (let bs = take (nat n) (drop (nat off) (content v d i))
         in os_pread h fd n off d = (int (length bs), bs)))"

definition pwrite_law :: "'d os \<Rightarrow> 'd view \<Rightarrow> bool" where
  "pwrite_law h v \<longleftrightarrow>
     (\<forall>d fd i bs off. fd_ino v d fd = Some i \<longrightarrow> 0 \<le> off \<longrightarrow>
        (\<exists>d'. os_pwrite h fd bs off d = (int (length bs), d') \<and>
              content v d' = (content v d)(i := file_write (content v d i) off bs) \<and>
              fd_ino v d' = fd_ino v d \<and> path_ino v d' = path_ino v d))"

definition pwritev_law :: "'d os \<Rightarrow> 'd view \<Rightarrow> bool" where
  "pwritev_law h v \<longleftrightarrow>
     (\<forall>d fd i bss off. fd_ino v d fd = Some i \<longrightarrow> 0 \<le> off \<longrightarrow>
        (\<exists>d'. os_pwritev h fd bss off d = (int (length (concat bss)), d') \<and>
              content v d' = (content v d)(i := file_write (content v d i) off (concat bss)) \<and>
              fd_ino v d' = fd_ino v d \<and> path_ino v d' = path_ino v d))"

definition ftruncate_law :: "'d os \<Rightarrow> 'd view \<Rightarrow> bool" where
  "ftruncate_law h v \<longleftrightarrow>
     (\<forall>d fd i n. fd_ino v d fd = Some i \<longrightarrow> 0 \<le> n \<longrightarrow>
        (\<exists>d'. os_ftruncate h fd n d = (0, d') \<and>
              content v d' = (content v d)(i := file_resize (content v d i) n) \<and>
              fd_ino v d' = fd_ino v d \<and> path_ino v d' = path_ino v d))"

text \<open>The calls that flush or stamp a file do not change what it contains.\<close>

definition quiet_law :: "'d os \<Rightarrow> 'd view \<Rightarrow> bool" where
  "quiet_law h v \<longleftrightarrow>
     (\<forall>d p t1 t2. content v (snd (os_utimes h p t1 t2 d)) = content v d \<and>
        path_ino v (snd (os_utimes h p t1 t2 d)) = path_ino v d \<and>
        fd_ino v (snd (os_utimes h p t1 t2 d)) = fd_ino v d) \<and>
     (\<forall>d fd. content v (snd (os_fsync h fd d)) = content v d \<and>
        content v (snd (os_fdatasync h fd d)) = content v d)"

definition lstat_law :: "'d os \<Rightarrow> 'd view \<Rightarrow> bool" where
  "lstat_law h v \<longleftrightarrow>
     (\<forall>d p i. path_ino v d p = Some i \<longrightarrow>
        (\<exists>st. os_lstat h p d = (0, st) \<and> os_stat h p d = (0, st) \<and> st_reg st \<and> st_ino st = i \<and>
              0 \<le> i \<and> st_size st = int (length (content v d i)) \<and> 1 \<le> st_nlink st))"

text \<open>
  The calls that change names, when they succeed. Names are those of regular files; the view keeps
  the contents of an inode that has lost its last name. A rename onto another name of the same
  file is not covered: the host then leaves both names.
\<close>

definition rename_law :: "'d os \<Rightarrow> 'd view \<Rightarrow> bool" where
  "rename_law h v \<longleftrightarrow>
     (\<forall>d p q i r d'. path_ino v d p = Some i \<longrightarrow> path_ino v d q \<noteq> Some i \<longrightarrow> os_rename h p q d = (r, d') \<longrightarrow> r \<noteq> - 1 \<longrightarrow>
        path_ino v d' = (path_ino v d)(q := Some i, p := None) \<and> fd_ino v d' = fd_ino v d \<and>
        content v d' = content v d)"

definition link_law :: "'d os \<Rightarrow> 'd view \<Rightarrow> bool" where
  "link_law h v \<longleftrightarrow>
     (\<forall>d p q i r d'. path_ino v d p = Some i \<longrightarrow> os_link h p q d = (r, d') \<longrightarrow> r \<noteq> - 1 \<longrightarrow>
        path_ino v d' = (path_ino v d)(q := Some i) \<and> fd_ino v d' = fd_ino v d \<and> content v d' = content v d)"

definition unlink_law :: "'d os \<Rightarrow> 'd view \<Rightarrow> bool" where
  "unlink_law h v \<longleftrightarrow>
     (\<forall>d p i r d'. path_ino v d p = Some i \<longrightarrow> os_unlink h p d = (r, d') \<longrightarrow> r \<noteq> - 1 \<longrightarrow>
        path_ino v d' = (path_ino v d)(p := None) \<and> fd_ino v d' = fd_ino v d \<and> content v d' = content v d)"

text \<open>Opening a path that has nothing at it with \<open>O_CREAT\<close> makes an empty file.\<close>

definition create_law :: "'d os \<Rightarrow> 'd view \<Rightarrow> bool" where
  "create_law h v \<longleftrightarrow>
     (\<forall>d p f m fd d'. fst (os_lstat h p d) = - 1 \<longrightarrow> f div O_CREAT mod 2 = 1 \<longrightarrow>
        os_open h p f m d = (fd, d') \<longrightarrow> 0 < fd \<longrightarrow>
        (\<exists>k. path_ino v d' = (path_ino v d)(p := Some k) \<and> fd_ino v d' = (fd_ino v d)(fd := Some k) \<and>
             content v d' = (content v d)(k := [])))"

text \<open>The calls on directories, links and attributes leave regular files alone.\<close>

definition unchanged :: "'d view \<Rightarrow> 'd \<Rightarrow> 'd \<Rightarrow> bool" where
  "unchanged v d d' \<longleftrightarrow> path_ino v d' = path_ino v d \<and> fd_ino v d' = fd_ino v d \<and> content v d' = content v d"

definition attribute_law :: "'d os \<Rightarrow> 'd view \<Rightarrow> bool" where
  "attribute_law h v \<longleftrightarrow>
     (\<forall>d p q m u g t1 t2. unchanged v d (snd (os_mkdir h p m d)) \<and> unchanged v d (snd (os_rmdir h p d)) \<and>
        unchanged v d (snd (os_symlink h p q d)) \<and> unchanged v d (snd (os_access h p m d)) \<and>
        unchanged v d (snd (os_chmod h p m d)) \<and> unchanged v d (snd (os_lchown h p u g d)) \<and>
        unchanged v d (snd (os_utimensat h p t1 t2 d)))"

definition host_laws :: "'d os \<Rightarrow> 'd view \<Rightarrow> bool" where
  "host_laws h v \<longleftrightarrow>
     open_law h v \<and> close_law h v \<and> pread_law h v \<and> pwrite_law h v \<and> pwritev_law h v \<and>
     ftruncate_law h v \<and> quiet_law h v \<and> lstat_law h v \<and> rename_law h v \<and> link_law h v \<and>
     unlink_law h v \<and> create_law h v \<and> attribute_law h v"

lemma host_lawsD:
  assumes "host_laws h v"
  shows "open_law h v" "close_law h v" "pread_law h v" "pwrite_law h v" "pwritev_law h v"
    "ftruncate_law h v" "quiet_law h v" "lstat_law h v" "rename_law h v" "link_law h v" "unlink_law h v"
    "create_law h v" "attribute_law h v"
  using assms by (simp_all add: host_laws_def)

text \<open>The laws as elimination rules.\<close>

lemma openD:
  assumes "open_law h v" and "path_ino v d p = Some i"
    and "f = O_RDONLY \<or> f = O_WRONLY \<or> f = O_RDWR \<or> f = O_CREAT + O_WRONLY"
  obtains fd d' where "os_open h p f m d = (fd, d')" "0 \<le> fd" "fd_ino v d fd = None"
    "fd_ino v d' = (fd_ino v d)(fd := Some i)"
    "content v d' = content v d" "path_ino v d' = path_ino v d"
  using assms unfolding open_law_def by blast

lemma pwriteD:
  assumes "pwrite_law h v" and "fd_ino v d fd = Some i" and "0 \<le> off"
  obtains d' where "os_pwrite h fd bs off d = (int (length bs), d')"
    "content v d' = (content v d)(i := file_write (content v d i) off bs)"
    "fd_ino v d' = fd_ino v d" "path_ino v d' = path_ino v d"
  using assms unfolding pwrite_law_def by blast

lemma pwritevD:
  assumes "pwritev_law h v" and "fd_ino v d fd = Some i" and "0 \<le> off"
  obtains d' where "os_pwritev h fd bss off d = (int (length (concat bss)), d')"
    "content v d' = (content v d)(i := file_write (content v d i) off (concat bss))"
    "fd_ino v d' = fd_ino v d" "path_ino v d' = path_ino v d"
  using assms unfolding pwritev_law_def by blast

lemma ftruncateD:
  assumes "ftruncate_law h v" and "fd_ino v d fd = Some i" and "0 \<le> n"
  obtains d' where "os_ftruncate h fd n d = (0, d')"
    "content v d' = (content v d)(i := file_resize (content v d i) n)"
    "fd_ino v d' = fd_ino v d" "path_ino v d' = path_ino v d"
  using assms unfolding ftruncate_law_def by blast

lemma lstatD:
  assumes "lstat_law h v" and "path_ino v d p = Some i"
  obtains st where "os_lstat h p d = (0, st)" "os_stat h p d = (0, st)" "st_reg st" "st_ino st = i"
    "0 \<le> i" "st_size st = int (length (content v d i))" "1 \<le> st_nlink st"
  using assms unfolding lstat_law_def by blast

end
