(* ===== verification/Pages.thy ===== *)
theory Pages
  imports Host Config
begin

text \<open>
  Cache pages (\<open>libs/libpcache/src/engine/page\<close>): \<open>BlockOffsets\<close> maps the blocks stored in
  a page to byte ranges of its buffer and to the last readable byte of each block; \<open>Page\<close> owns
  the buffer, the free slots and the dirty flag. The owner of a page is named by a string, and
  \<open>''none''\<close> stands for no owner.
\<close>

section \<open>Block offsets\<close>

record block_offsets =
  block_offset_mapping :: "(int, int \<times> int) fmap"
  block_readable_to :: "(int, int) fmap"

definition bo_empty :: block_offsets where
  "bo_empty = \<lparr>block_offset_mapping = fmempty, block_readable_to = fmempty\<rparr>"

definition bo_contains_block :: "block_offsets \<Rightarrow> int \<Rightarrow> bool" where
  "bo_contains_block o1 block_id \<longleftrightarrow> fmlookup (block_offset_mapping o1) block_id \<noteq> None"

definition bo_reset :: "block_offsets \<Rightarrow> block_offsets" where
  "bo_reset o1 = o1\<lparr>block_offset_mapping := fmempty, block_readable_to := fmempty\<rparr>"

definition bo_get_block_offsets :: "block_offsets \<Rightarrow> int \<Rightarrow> int \<times> int" where
  "bo_get_block_offsets o1 block_id =
     (case fmlookup (block_offset_mapping o1) block_id of None \<Rightarrow> (- 1, - 1) | Some p \<Rightarrow> p)"

definition bo_get_nr_blocks :: "block_offsets \<Rightarrow> int" where
  "bo_get_nr_blocks o1 = int (fcard (fmdom (block_offset_mapping o1)))"

definition insert_or_update_block_offsets ::
  "int \<Rightarrow> int \<times> int \<Rightarrow> block_offsets \<Rightarrow> block_offsets" where
  "insert_or_update_block_offsets block_id offsets o1 =
     o1\<lparr>block_offset_mapping := fmins block_id offsets (block_offset_mapping o1),
        block_readable_to := fmins block_id (- 1) (block_readable_to o1)\<rparr>"

definition bo_make_readable_to :: "int \<Rightarrow> int \<Rightarrow> block_offsets \<Rightarrow> block_offsets" where
  "bo_make_readable_to blk_id max_offset o1 =
     o1\<lparr>block_readable_to := fmupd blk_id max_offset (block_readable_to o1)\<rparr>"

definition get_block_readable_offsets :: "block_offsets \<Rightarrow> (int, int) fmap" where
  "get_block_readable_offsets o1 = block_readable_to o1"

definition get_readable_to :: "block_offsets \<Rightarrow> int \<Rightarrow> int res" where
  "get_readable_to o1 block_id = fmat (block_readable_to o1) block_id"

definition bo_remove_block :: "int \<Rightarrow> block_offsets \<Rightarrow> block_offsets" where
  "bo_remove_block blk_id o1 =
     o1\<lparr>block_offset_mapping := fmdrop blk_id (block_offset_mapping o1),
        block_readable_to := fmdrop blk_id (block_readable_to o1)\<rparr>"

definition bo_is_empty :: "block_offsets \<Rightarrow> bool" where
  "bo_is_empty o1 \<longleftrightarrow> block_offset_mapping o1 = fmempty"

section \<open>Pages\<close>

record page =
  is_dirty :: bool
  page_owner_id :: string
  free_block_indexes :: "int list"
  pdata :: "byte list"
  allocated_block_ids :: block_offsets

text \<open>The loop \<open>for (i = 0; i < CACHE_PAGE_SIZE; i += IO_BLOCK_SIZE)\<close> that lists the slots.\<close>

function slot_indexes :: "int \<Rightarrow> int \<Rightarrow> int \<Rightarrow> int list" where
  "slot_indexes step lim i =
     (if 0 < step \<and> i < lim then i # slot_indexes step lim (i + step) else [])"
  by pat_completeness auto
termination
  by (relation "measure (\<lambda>(step, lim, i). nat (lim - i))") auto

declare slot_indexes.simps [simp del]

definition new_page :: "config \<Rightarrow> page res" where
  "new_page c =
     bnd (require (IO_BLOCK_SIZE c \<noteq> 0) DivByZero) (\<lambda>_.
     bnd (require (CACHE_PAGE_SIZE c mod IO_BLOCK_SIZE c = 0) AssertFail) (\<lambda>_.
     Inr \<lparr>is_dirty = False, page_owner_id = ''none'',
          free_block_indexes = slot_indexes (IO_BLOCK_SIZE c) (CACHE_PAGE_SIZE c) 0,
          pdata = replicate (nat (CACHE_PAGE_SIZE c)) 0,
          allocated_block_ids = bo_empty\<rparr>))"

definition is_page_owner :: "page \<Rightarrow> string \<Rightarrow> bool" where
  "is_page_owner p query \<longleftrightarrow> page_owner_id p = query"

definition change_owner :: "string \<Rightarrow> page \<Rightarrow> page" where
  "change_owner new_owner p = p\<lparr>page_owner_id := new_owner\<rparr>"

definition has_free_space :: "page \<Rightarrow> bool" where
  "has_free_space p \<longleftrightarrow> free_block_indexes p \<noteq> []"

definition page_reset :: "config \<Rightarrow> page \<Rightarrow> page" where
  "page_reset c p =
     p\<lparr>free_block_indexes := slot_indexes (IO_BLOCK_SIZE c) (CACHE_PAGE_SIZE c) 0,
       allocated_block_ids := bo_reset (allocated_block_ids p),
       is_dirty := False,
       pdata := replicate (nat (CACHE_PAGE_SIZE c)) 0\<rparr>"

definition contains_block :: "page \<Rightarrow> int \<Rightarrow> bool" where
  "contains_block p block_id = bo_contains_block (allocated_block_ids p) block_id"

definition get_block_offsets :: "page \<Rightarrow> int \<Rightarrow> int \<times> int" where
  "get_block_offsets p block_id = bo_get_block_offsets (allocated_block_ids p) block_id"

definition get_allocate_free_offset :: "config \<Rightarrow> int \<Rightarrow> page \<Rightarrow> (int \<times> int) \<times> page" where
  "get_allocate_free_offset c block_id p =
     (if free_block_indexes p = [] then ((- 1, - 1), p)
      else
        let free_index = last (free_block_indexes p);
            p = p\<lparr>free_block_indexes := butlast (free_block_indexes p)\<rparr>;
            allocated_offset = (free_index, c_int (free_index + IO_BLOCK_SIZE c - 1));
            p = p\<lparr>allocated_block_ids :=
                    insert_or_update_block_offsets block_id allocated_offset
                      (allocated_block_ids p)\<rparr>
        in (allocated_offset, p))"

text \<open>The bytes that \<open>get_block_data\<close> copies to the start of the caller's buffer.\<close>

definition get_block_data :: "page \<Rightarrow> int \<Rightarrow> int \<Rightarrow> byte list res" where
  "get_block_data p block_id read_to_max_index =
     (let off_min = fst (get_block_offsets p block_id);
          off_max = read_to_max_index + 1
      in mem_read (pdata p) off_min (u64 (off_max - off_min)))"

definition set_page_as_dirty :: "bool \<Rightarrow> page \<Rightarrow> page" where
  "set_page_as_dirty dirty p = p\<lparr>is_dirty := dirty\<rparr>"

text \<open>
  \<open>_rewrite_offset_data\<close> copies \<open>off_max - off_min + 1\<close> bytes; its caller passes exactly the
  bounds of the new data, so the model hands over the data itself.
\<close>

definition rewrite_offset_data :: "byte list \<Rightarrow> int \<Rightarrow> int \<Rightarrow> page \<Rightarrow> page res" where
  "rewrite_offset_data new_data off_min off_max p =
     (let p = set_page_as_dirty True p in
      bnd (mem_read new_data 0 (u64 (off_max - off_min + 1))) (\<lambda>bs.
      bnd (mem_write (pdata p) off_min bs) (\<lambda>m.
      Inr (p\<lparr>pdata := m\<rparr>))))"

definition update_block_data ::
  "config \<Rightarrow> int \<Rightarrow> byte list \<Rightarrow> int \<Rightarrow> int \<Rightarrow> page \<Rightarrow> (bool \<times> page) res" where
  "update_block_data c block_id new_data data_length off_start p =
     (let block_offsets = get_block_offsets p block_id;
          off_min = fst block_offsets
      in if fst block_offsets \<ge> 0 \<and> snd block_offsets > 0 then
           bnd (require (data_length \<le> IO_BLOCK_SIZE c) AssertFail) (\<lambda>_.
           bnd (rewrite_offset_data new_data (off_min + off_start)
                  (off_min + off_start + data_length - 1) p) (\<lambda>p.
           Inr (True, p)))
         else Inr (False, p))"

definition make_block_readable_to :: "int \<Rightarrow> int \<Rightarrow> page \<Rightarrow> page" where
  "make_block_readable_to blk_id max_offset p =
     p\<lparr>allocated_block_ids := bo_make_readable_to blk_id max_offset (allocated_block_ids p)\<rparr>"

definition write_null_from :: "config \<Rightarrow> int \<Rightarrow> int \<Rightarrow> page \<Rightarrow> page res" where
  "write_null_from c block_id from_offset p =
     (let off_first = fst (get_block_offsets p block_id) in
      bnd (mem_set (pdata p) (off_first + from_offset) 0
             (u64 (IO_BLOCK_SIZE c - off_first - from_offset))) (\<lambda>m.
      Inr (p\<lparr>pdata := m\<rparr>)))"

definition page_remove_block :: "config \<Rightarrow> int \<Rightarrow> page \<Rightarrow> page res" where
  "page_remove_block c block_id p =
     bnd (if contains_block p block_id then
            (let off_first = fst (get_block_offsets p block_id);
                 p = p\<lparr>free_block_indexes := free_block_indexes p @ [off_first],
                       allocated_block_ids := bo_remove_block block_id (allocated_block_ids p)\<rparr>
             in bnd (mem_set (pdata p) off_first 0 (IO_BLOCK_SIZE c)) (\<lambda>m.
                Inr (p\<lparr>pdata := m\<rparr>)))
          else Inr p) (\<lambda>p.
     Inr (if bo_is_empty (allocated_block_ids p) then p\<lparr>is_dirty := False\<rparr> else p))"

text \<open>
  \<open>sync_data\<close> opens the file named by the owner of the page and writes the blocks in
  ascending order, the last of them only up to its readable end. The position in the file is an
  \<open>int\<close>. The loop state is the host, the number of bytes to write and the number written.
\<close>

definition sync_data_visit ::
  "'d os \<Rightarrow> config \<Rightarrow> page \<Rightarrow> int \<Rightarrow> int \<Rightarrow> int \<times> int \<Rightarrow> 'd \<times> int \<times> int \<Rightarrow> ('d \<times> int \<times> int) res"
  where
  "sync_data_visit h c p fd last_block = (\<lambda>(blk, readable) (d, should_write, actually_wrote).
     if contains_block p blk then
       (let data_offsets = get_block_offsets p blk;
            offset = c_int (blk * IO_BLOCK_SIZE c);
            total_bytes = (if blk = last_block then readable + 1 else c_int (IO_BLOCK_SIZE c))
        in bnd (mem_read (pdata p) (fst data_offsets) (u64 total_bytes)) (\<lambda>bs.
           let (n, d) = os_pwrite h fd bs offset d
           in Inr (d, should_write + total_bytes, actually_wrote + n)))
     else Inr (d, should_write, actually_wrote))"

definition sync_data :: "'d os \<Rightarrow> config \<Rightarrow> page \<Rightarrow> 'd \<Rightarrow> (bool \<times> page \<times> 'd) res" where
  "sync_data h c p d =
     (let (fd, d) = os_open h (page_owner_id p) O_WRONLY 0 d;
          offs = get_block_readable_offsets (allocated_block_ids p);
          blocks = map (\<lambda>k. (k, the (fmlookup offs k))) (fmkeys offs);
          last_block = (if blocks = [] then 0 else fst (last blocks))
      in bnd (foldE (sync_data_visit h c p fd last_block) blocks (d, 0, 0))
           (\<lambda>(d, should_write, actually_wrote).
         let res = (should_write = actually_wrote)
         in Inr (res, if res then p\<lparr>is_dirty := False\<rparr> else p, os_close h fd d)))"

end
