(* ===== verification/Engine.thy ===== *)
theory Engine
  imports Pages
begin

text \<open>
  The page engine (\<open>CustomCacheEngine\<close>,
  \<open>libs/libpcache/src/engine/backends/custom/custom_cache.cpp\<close>): a fixed pool of pages, the
  free ones in a stack, and for every content owner the pages and blocks it has in the pool.

  A \<open>Page*\<close> is named by the key under which \<open>search_index\<close> stores the page; the map never
  changes its keys after construction. The nodes of the LRU list carry an identity, which is
  what a list iterator in \<open>page_order_mapping\<close> denotes. The mutexes of the engine are held for
  the duration of a single operation and released at its end, so each operation is one step.
\<close>

section \<open>State\<close>

record block_ref =
  ref_page_id :: int
  ref_page :: int             \<comment> \<open>the \<open>Page*\<close>\<close>
  ref_offsets :: "int \<times> int"
  ref_synced :: bool

record engine =
  lru_main_vector :: "(nat \<times> int) list"
  lru_fresh :: nat
  page_order_mapping :: "(int, nat) fmap"
  search_index :: "(int, page) fmap"
  free_pages :: "int list"
  owner_pages_mapping :: "(string, int fset) fmap"
  owner_ordered_pages_mapping :: "(string, (int, block_ref) fmap) fmap"
  owner_free_pages_mapping :: "(string, int list) fmap"

datatype allocate_operation_type = OP_READ | OP_WRITE | OP_PASSTHROUGH

definition add_fresh_page :: "config \<Rightarrow> int \<Rightarrow> engine \<Rightarrow> engine res" where
  "add_fresh_page c page_index e =
     bnd (new_page c) (\<lambda>p.
     Inr (e\<lparr>search_index := fmins page_index p (search_index e),
            free_pages := free_pages e @ [page_index]\<rparr>))"

definition new_engine :: "config \<Rightarrow> engine res" where
  "new_engine c =
     foldE (add_fresh_page c) [0 .. CACHE_NR_PAGES c - 1]
       \<lparr>lru_main_vector = [], lru_fresh = 0, page_order_mapping = fmempty,
        search_index = fmempty, free_pages = [],
        owner_pages_mapping = fmempty, owner_ordered_pages_mapping = fmempty,
        owner_free_pages_mapping = fmempty\<rparr>"

definition get_engine_usage :: "config \<Rightarrow> engine \<Rightarrow> rat" where
  "get_engine_usage c e =
     (let used_pages = c_int (CACHE_NR_PAGES c - int (length (free_pages e)))
      in of_int used_pages / of_int (CACHE_NR_PAGES c) * 100)"

definition get_page_ptr :: "engine \<Rightarrow> int \<Rightarrow> int option" where
  "get_page_ptr e page_id =
     (case fmlookup (search_index e) page_id of None \<Rightarrow> None | Some _ \<Rightarrow> Some page_id)"

text \<open>Dereferencing a page pointer, and updating the page behind it.\<close>

definition deref_page :: "engine \<Rightarrow> int \<Rightarrow> page res" where
  "deref_page e ptr = of_option NullDeref (fmlookup (search_index e) ptr)"

definition put_page :: "int \<Rightarrow> page \<Rightarrow> engine \<Rightarrow> engine" where
  "put_page ptr p e = e\<lparr>search_index := fmupd ptr p (search_index e)\<rparr>"

section \<open>The LRU list\<close>

definition lru_erase :: "nat \<Rightarrow> (nat \<times> int) list \<Rightarrow> (nat \<times> int) list res" where
  "lru_erase node xs =
     bnd (require (node \<in> fst ` set xs) DanglingIterator) (\<lambda>_.
     Inr (filter (\<lambda>(n, _). n \<noteq> node) xs))"

definition lru_push_front :: "int \<Rightarrow> engine \<Rightarrow> engine" where
  "lru_push_front page_id e =
     e\<lparr>lru_main_vector := (lru_fresh e, page_id) # lru_main_vector e,
       page_order_mapping := fmupd page_id (lru_fresh e) (page_order_mapping e),
       lru_fresh := Suc (lru_fresh e)\<rparr>"

definition apply_lru_after_page_visitation_on_WRITE ::
  "config \<Rightarrow> int \<Rightarrow> engine \<Rightarrow> engine res" where
  "apply_lru_after_page_visitation_on_WRITE c visited_page_id e =
     (case fmlookup (page_order_mapping e) visited_page_id of
        None \<Rightarrow>
          (let e = lru_push_front visited_page_id e in
           if int (fcard (fmdom (page_order_mapping e))) > CACHE_NR_PAGES c then
             bnd (vback (lru_main_vector e)) (\<lambda>(_, page_id).
             Inr (e\<lparr>page_order_mapping := fmdrop page_id (page_order_mapping e),
                    lru_main_vector := butlast (lru_main_vector e)\<rparr>))
           else Inr e)
      | Some pos \<Rightarrow>
          bnd (lru_erase pos (lru_main_vector e)) (\<lambda>xs.
          Inr (lru_push_front visited_page_id (e\<lparr>lru_main_vector := xs\<rparr>))))"

definition apply_lru_after_page_visitation_on_READ :: "int \<Rightarrow> engine \<Rightarrow> engine res" where
  "apply_lru_after_page_visitation_on_READ visited_page_id e =
     bnd (case fmlookup (page_order_mapping e) visited_page_id of
            None \<Rightarrow> Inr (lru_main_vector e)
          | Some pos \<Rightarrow> lru_erase pos (lru_main_vector e)) (\<lambda>xs.
     Inr (lru_push_front visited_page_id (e\<lparr>lru_main_vector := xs\<rparr>)))"

text \<open>The removal of a page from the LRU structures when it is freed.\<close>

definition lru_forget :: "config \<Rightarrow> int \<Rightarrow> engine \<Rightarrow> engine res" where
  "lru_forget c page_id e =
     (if APPLY_LRU_EVICTION c then
        bnd (case fmlookup (page_order_mapping e) page_id of
               None \<Rightarrow> Inr (lru_main_vector e)
             | Some pos \<Rightarrow> lru_erase pos (lru_main_vector e)) (\<lambda>xs.
        Inr (e\<lparr>lru_main_vector := xs,
               page_order_mapping := fmdrop page_id (page_order_mapping e)\<rparr>))
      else Inr e)"

section \<open>Finding a page\<close>

definition evict_page :: "'d os \<Rightarrow> config \<Rightarrow> engine \<Rightarrow> 'd \<Rightarrow> ((int \<times> int option) \<times> engine \<times> 'd) res"
  where
  "evict_page h c e d =
     bnd (vback (lru_main_vector e)) (\<lambda>(_, replace_page_id).
     bnd (deref_page e replace_page_id) (\<lambda>page_to_reset.
     let old_owner = page_owner_id page_to_reset;
         blocks = get_block_readable_offsets (allocated_block_ids page_to_reset);
         e = (case fmlookup (owner_ordered_pages_mapping e) old_owner of
                None \<Rightarrow> e
              | Some m \<Rightarrow>
                  e\<lparr>owner_ordered_pages_mapping :=
                      fmupd old_owner (fold fmdrop (fmkeys blocks) m)
                        (owner_ordered_pages_mapping e)\<rparr>);
         e = (case fmlookup (owner_pages_mapping e) old_owner of
                None \<Rightarrow> e
              | Some s \<Rightarrow>
                  e\<lparr>owner_pages_mapping :=
                      fmupd old_owner (s |-| {|replace_page_id|}) (owner_pages_mapping e)\<rparr>)
     in bnd (if is_dirty page_to_reset
             then bnd (sync_data h c page_to_reset d) (\<lambda>(_, p, d). Inr (p, d))
             else Inr (page_to_reset, d)) (\<lambda>(p, d).
        Inr ((replace_page_id, Some replace_page_id),
             put_page replace_page_id (page_reset c p) e, d))))"

text \<open>
  The vector of the owner's free pages is copied before its last element is removed, so the
  engine's own vector keeps that element.
\<close>

definition get_next_free_page ::
  "'d os \<Rightarrow> config \<Rightarrow> string \<Rightarrow> engine \<Rightarrow> 'd \<Rightarrow> ((int \<times> int option) \<times> engine \<times> 'd) res" where
  "get_next_free_page h c owner_id e d =
     bnd (case fmlookup (owner_pages_mapping e) owner_id of
            None \<Rightarrow> Inr []
          | Some _ \<Rightarrow> fmat (owner_free_pages_mapping e) owner_id) (\<lambda>owner_free.
     if owner_free \<noteq> [] then
       (let free_page = last owner_free in Inr ((free_page, get_page_ptr e free_page), e, d))
     else if free_pages e \<noteq> [] then
       (let last_index = last (free_pages e);
            e = e\<lparr>free_pages := butlast (free_pages e)\<rparr>
        in Inr ((last_index, get_page_ptr e last_index), e, d))
     else if APPLY_LRU_EVICTION c then evict_page h c e d
     else Inr ((- 1, None), e, d))"

definition is_block_cached :: "engine \<Rightarrow> string \<Rightarrow> int \<Rightarrow> int \<Rightarrow> bool" where
  "is_block_cached e content_owner_id page_id block_id =
     (case fmlookup (search_index e) page_id of
        None \<Rightarrow> False
      | Some p \<Rightarrow> is_page_owner p content_owner_id \<and> contains_block p block_id)"

text \<open>Taking a page away from its previous owner.\<close>

definition disown_page :: "string \<Rightarrow> int \<Rightarrow> int \<Rightarrow> engine \<Rightarrow> engine res" where
  "disown_page real_owner page_id block_id e =
     (case fmlookup (owner_pages_mapping e) real_owner of
        None \<Rightarrow> Inr e
      | Some s \<Rightarrow>
          (let s = s |-| {|page_id|};
               e = e\<lparr>owner_pages_mapping := fmupd real_owner s (owner_pages_mapping e)\<rparr>
           in bnd (fmat (owner_ordered_pages_mapping e) real_owner) (\<lambda>m.
              let e = e\<lparr>owner_ordered_pages_mapping :=
                          fmupd real_owner (fmdrop block_id m) (owner_ordered_pages_mapping e)\<rparr>
              in Inr (if s = {||} then
                        e\<lparr>owner_pages_mapping := fmdrop real_owner (owner_pages_mapping e),
                          owner_free_pages_mapping :=
                            fmdrop real_owner (owner_free_pages_mapping e),
                          owner_ordered_pages_mapping :=
                            fmdrop real_owner (owner_ordered_pages_mapping e)\<rparr>
                      else e))))"

definition own_page :: "string \<Rightarrow> int \<Rightarrow> int \<Rightarrow> int \<times> int \<Rightarrow> engine \<Rightarrow> engine res" where
  "own_page new_owner page_id block_id offs e =
     (let r = \<lparr>ref_page_id = page_id, ref_page = page_id, ref_offsets = offs,
               ref_synced = False\<rparr> in
      case fmlookup (owner_pages_mapping e) new_owner of
        Some s \<Rightarrow>
          bnd (fmat (owner_ordered_pages_mapping e) new_owner) (\<lambda>m.
          Inr (e\<lparr>owner_pages_mapping :=
                   fmupd new_owner (finsert page_id s) (owner_pages_mapping e),
                 owner_ordered_pages_mapping :=
                   fmupd new_owner (fmins block_id r m) (owner_ordered_pages_mapping e)\<rparr>))
      | None \<Rightarrow>
          Inr (e\<lparr>owner_pages_mapping := fmupd new_owner {|page_id|} (owner_pages_mapping e),
                 owner_free_pages_mapping := fmins new_owner [] (owner_free_pages_mapping e),
                 owner_ordered_pages_mapping :=
                   fmins new_owner (fmupd block_id r fmempty)
                     (owner_ordered_pages_mapping e)\<rparr>))"

definition update_owner_pages ::
  "string \<Rightarrow> int \<Rightarrow> int \<Rightarrow> int \<times> int \<Rightarrow> engine \<Rightarrow> engine res" where
  "update_owner_pages new_owner page_id block_id offs e =
     (case fmlookup (search_index e) page_id of
        None \<Rightarrow> Inr e
      | Some p \<Rightarrow>
          (let real_owner = page_owner_id p;
               p = (if real_owner = ''none'' then change_owner new_owner p else p)
           in bnd (if real_owner \<noteq> new_owner
                   then disown_page real_owner page_id block_id
                          (put_page page_id (change_owner new_owner p) e)
                   else Inr (put_page page_id p e)) (\<lambda>e.
              bnd (own_page new_owner page_id block_id offs e) (\<lambda>e.
              if has_free_space p then
                bnd (fmat (owner_free_pages_mapping e) new_owner) (\<lambda>v.
                Inr (e\<lparr>owner_free_pages_mapping :=
                         fmupd new_owner (v @ [page_id]) (owner_free_pages_mapping e)\<rparr>))
              else Inr e))))"

section \<open>Reading and writing blocks\<close>

text \<open>
  A request to read names a page and the last byte wanted; the result is the data copied to
  the caller's buffer, or \<open>None\<close> where the C++ result is \<open>false\<close>.
\<close>

definition get_block ::
  "config \<Rightarrow> string \<Rightarrow> (int, int \<times> int) fmap \<Rightarrow> int \<Rightarrow>
   (int, byte list option) fmap \<times> engine \<Rightarrow> ((int, byte list option) fmap \<times> engine) res" where
  "get_block c content_owner_id block_pages blk_id = (\<lambda>(res, e).
     bnd (fmat block_pages blk_id) (\<lambda>(page_id, read_to_max_index).
     case fmlookup (search_index e) page_id of
       None \<Rightarrow> Inr (fmins blk_id None res, e)
     | Some p \<Rightarrow>
         if \<not> is_page_owner p content_owner_id \<or> \<not> contains_block p blk_id
         then Inr (fmins blk_id None res, e)
         else
           bnd (get_block_data p blk_id read_to_max_index) (\<lambda>bs.
           bnd (if APPLY_LRU_EVICTION c then apply_lru_after_page_visitation_on_READ page_id e
                else Inr e) (\<lambda>e.
           Inr (fmins blk_id (Some bs) res, e)))))"

definition get_blocks ::
  "config \<Rightarrow> string \<Rightarrow> (int, int \<times> int) fmap \<Rightarrow> engine \<Rightarrow>
   ((int, byte list option) fmap \<times> engine) res" where
  "get_blocks c content_owner_id block_pages e =
     foldE (get_block c content_owner_id block_pages) (fmkeys block_pages) (fmempty, e)"

text \<open>A request to write: the page the client believes in, the data, its length, the offset.\<close>

type_synonym alloc_request = "int \<times> byte list \<times> int \<times> int"

definition update_cached_block ::
  "config \<Rightarrow> string \<Rightarrow> int \<Rightarrow> alloc_request \<Rightarrow> engine \<Rightarrow> engine res" where
  "update_cached_block c content_owner_id blk_id = (\<lambda>(page_id, blk_data, blk_data_len, offset_start) e.
     bnd (deref_page e page_id) (\<lambda>p.
     bnd (update_block_data c blk_id blk_data blk_data_len offset_start p) (\<lambda>(_, p).
     let e = put_page page_id p e in
     bnd (fmat (owner_ordered_pages_mapping e) content_owner_id) (\<lambda>m.
     bnd (fmat m blk_id) (\<lambda>r.
     Inr (e\<lparr>owner_ordered_pages_mapping :=
              fmupd content_owner_id (fmupd blk_id (r\<lparr>ref_synced := False\<rparr>) m)
                (owner_ordered_pages_mapping e)\<rparr>))))))"

definition allocate_new_block ::
  "'d os \<Rightarrow> config \<Rightarrow> string \<Rightarrow> allocate_operation_type \<Rightarrow> int \<Rightarrow> alloc_request \<Rightarrow>
   engine \<Rightarrow> 'd \<Rightarrow> (int \<times> engine \<times> 'd) res" where
  "allocate_new_block h c content_owner_id operation_type blk_id =
     (\<lambda>(_, blk_data, blk_data_len, offset_start) e d.
     bnd (get_next_free_page h c content_owner_id e d) (\<lambda>((page_id, ptr), e, d).
     case ptr of
       None \<Rightarrow> Inr (- 1, e, d)
     | Some free_page_ptr \<Rightarrow>
         if page_id \<ge> 0 then
           bnd (deref_page e free_page_ptr) (\<lambda>p.
           let (offs, p) = get_allocate_free_offset c blk_id p in
           bnd (update_block_data c blk_id blk_data blk_data_len offset_start p) (\<lambda>(_, p).
           let p = (if operation_type = OP_WRITE then set_page_as_dirty True p else p);
               e = put_page free_page_ptr p e
           in bnd (if APPLY_LRU_EVICTION c
                   then apply_lru_after_page_visitation_on_WRITE c page_id e
                   else Inr e) (\<lambda>e.
              bnd (update_owner_pages content_owner_id page_id blk_id offs e) (\<lambda>e.
              Inr (page_id, e, d)))))
         else Inr (- 1, e, d)))"

definition allocate_block ::
  "'d os \<Rightarrow> config \<Rightarrow> string \<Rightarrow> (int, alloc_request) fmap \<Rightarrow> allocate_operation_type \<Rightarrow> int \<Rightarrow>
   (int, int) fmap \<times> engine \<times> 'd \<Rightarrow> ((int, int) fmap \<times> engine \<times> 'd) res" where
  "allocate_block h c content_owner_id block_data_mapping operation_type blk_id = (\<lambda>(res, e, d).
     bnd (fmat block_data_mapping blk_id) (\<lambda>req.
     let page_id = fst req in
     if page_id \<ge> 0 \<and> is_block_cached e content_owner_id page_id blk_id then
       bnd (update_cached_block c content_owner_id blk_id req e) (\<lambda>e.
       Inr (fmins blk_id page_id res, e, d))
     else
       bnd (allocate_new_block h c content_owner_id operation_type blk_id req e d)
         (\<lambda>(page_id, e, d). Inr (fmins blk_id page_id res, e, d))))"

definition allocate_blocks ::
  "'d os \<Rightarrow> config \<Rightarrow> string \<Rightarrow> (int, alloc_request) fmap \<Rightarrow> allocate_operation_type \<Rightarrow>
   engine \<Rightarrow> 'd \<Rightarrow> ((int, int) fmap \<times> engine \<times> 'd) res" where
  "allocate_blocks h c content_owner_id block_data_mapping operation_type e d =
     foldE (allocate_block h c content_owner_id block_data_mapping operation_type)
       (fmkeys block_data_mapping) (fmempty, e, d)"

definition make_block_readable_to_offset ::
  "string \<Rightarrow> int \<Rightarrow> int \<Rightarrow> int \<Rightarrow> engine \<Rightarrow> engine res" where
  "make_block_readable_to_offset cid page_id block_id offset e =
     bnd (deref_page e page_id) (\<lambda>p.
     Inr (if is_page_owner p cid
          then put_page page_id (make_block_readable_to block_id offset p) e else e))"

section \<open>Freeing blocks\<close>

definition release_page :: "config \<Rightarrow> int \<Rightarrow> engine \<Rightarrow> engine res" where
  "release_page c page_id e =
     bnd (lru_forget c page_id (e\<lparr>free_pages := free_pages e @ [page_id]\<rparr>)) (\<lambda>e.
     bnd (deref_page e page_id) (\<lambda>p.
     Inr (put_page page_id (change_owner ''none'' (page_reset c p)) e)))"

definition remove_cached_blocks :: "config \<Rightarrow> string \<Rightarrow> engine \<Rightarrow> engine res" where
  "remove_cached_blocks c owner e =
     (let e = e\<lparr>owner_free_pages_mapping := fmdrop owner (owner_free_pages_mapping e)\<rparr> in
      case fmlookup (owner_pages_mapping e) owner of
        None \<Rightarrow> Inr e
      | Some owner_pgs \<Rightarrow>
          bnd (foldE (release_page c) (sorted_list_of_fset owner_pgs) e) (\<lambda>e.
          Inr (e\<lparr>owner_pages_mapping := fmdrop owner (owner_pages_mapping e),
                 owner_ordered_pages_mapping := fmdrop owner (owner_ordered_pages_mapping e)\<rparr>)))"

definition truncate_cached_block ::
  "config \<Rightarrow> string \<Rightarrow> int \<Rightarrow> int \<Rightarrow> int \<times> int \<Rightarrow> engine \<Rightarrow> engine res" where
  "truncate_cached_block c content_owner_id from_block_id index_inside_block = (\<lambda>(blk_id, page_id) e.
     bnd (deref_page e page_id) (\<lambda>p.
     if is_page_owner p content_owner_id then
       if blk_id = from_block_id \<and> index_inside_block > 0 then
         if contains_block p from_block_id then
           bnd (write_null_from c from_block_id index_inside_block
                  (make_block_readable_to from_block_id (c_int (index_inside_block - 1)) p)) (\<lambda>p.
           Inr (put_page page_id p e))
         else Inr e
       else
         bnd (page_remove_block c blk_id p) (\<lambda>p.
         let e = put_page page_id p e in
         bnd (fmat (owner_pages_mapping e) content_owner_id) (\<lambda>s.
         let e = e\<lparr>owner_pages_mapping :=
                     fmupd content_owner_id (s |-| {|page_id|}) (owner_pages_mapping e)\<rparr> in
         bnd (fmat (owner_ordered_pages_mapping e) content_owner_id) (\<lambda>m.
         let e = e\<lparr>owner_ordered_pages_mapping :=
                     fmupd content_owner_id (fmdrop blk_id m) (owner_ordered_pages_mapping e)\<rparr> in
         if \<not> is_dirty p then release_page c page_id e else Inr e)))
     else Inr e))"

definition truncate_cached_blocks ::
  "config \<Rightarrow> string \<Rightarrow> (int, int) fmap \<Rightarrow> int \<Rightarrow> int \<Rightarrow> engine \<Rightarrow> engine res" where
  "truncate_cached_blocks c content_owner_id blocks_to_remove from_block_id index_inside_block e =
     foldE (truncate_cached_block c content_owner_id from_block_id index_inside_block)
       (map (\<lambda>k. (k, the (fmlookup blocks_to_remove k))) (fmkeys blocks_to_remove)) e"

definition rename_owner_pages :: "string \<Rightarrow> string \<Rightarrow> engine \<Rightarrow> (bool \<times> engine) res" where
  "rename_owner_pages old_owner new_owner e =
     (case fmlookup (owner_pages_mapping e) old_owner of
        None \<Rightarrow> Inr (False, e)
      | Some old_page_mapping \<Rightarrow>
          bnd (fmat (owner_free_pages_mapping e) old_owner) (\<lambda>old_free_mapping.
          bnd (fmat (owner_ordered_pages_mapping e) old_owner) (\<lambda>old_ordered_pages.
          let e = fold (\<lambda>it e. case fmlookup (search_index e) it of
                                 None \<Rightarrow> e
                               | Some p \<Rightarrow> put_page it (change_owner new_owner p) e)
                    (sorted_list_of_fset old_page_mapping) e
          in Inr (True,
               e\<lparr>owner_pages_mapping :=
                   fmupd new_owner old_page_mapping (fmdrop old_owner (owner_pages_mapping e)),
                 owner_free_pages_mapping :=
                   fmupd new_owner old_free_mapping
                     (fmdrop old_owner (owner_free_pages_mapping e)),
                 owner_ordered_pages_mapping :=
                   fmupd new_owner old_ordered_pages
                     (fmdrop old_owner (owner_ordered_pages_mapping e))\<rparr>))))"

section \<open>Writing back\<close>

text \<open>
  The first loop of \<open>sync_pages\<close>: the owner's blocks in ascending order whose page is dirty,
  marking those pages clean.
\<close>

definition collect_dirty ::
  "(int, block_ref) fmap \<Rightarrow> int \<Rightarrow> (int \<times> block_ref) list \<times> engine \<Rightarrow>
   ((int \<times> block_ref) list \<times> engine) res" where
  "collect_dirty iterate_blocks blk = (\<lambda>(acc, e).
     bnd (fmat iterate_blocks blk) (\<lambda>r.
     bnd (deref_page e (ref_page r)) (\<lambda>p.
     if is_dirty p
     then Inr (acc @ [(blk, r)], put_page (ref_page r) (set_page_as_dirty False p) e)
     else Inr (acc, e))))"

text \<open>
  One entry of the I/O vector of a run of \<open>page_streak\<close> consecutive blocks that ends with
  \<open>current_block_id\<close>: all but the last are whole blocks. The block is marked as synced.
\<close>

definition fill_iov ::
  "config \<Rightarrow> string \<Rightarrow> int \<Rightarrow> int \<Rightarrow> block_ref list \<Rightarrow> int \<Rightarrow>
   byte list list \<times> engine \<Rightarrow> (byte list list \<times> engine) res" where
  "fill_iov c owner current_block_id page_streak page_chunk p_id = (\<lambda>(iov, e).
     let streak_block = current_block_id - page_streak + p_id + 1;
         streak_pair = page_chunk ! nat p_id
     in bnd (deref_page e (ref_page streak_pair)) (\<lambda>p.
        bnd (if p_id = page_streak - 1
             then bnd (get_readable_to (allocated_block_ids p) streak_block) (\<lambda>r. Inr (r + 1))
             else Inr (IO_BLOCK_SIZE c)) (\<lambda>iov_len.
        bnd (mem_read (pdata p) (fst (ref_offsets streak_pair)) (u64 iov_len)) (\<lambda>bs.
        bnd (fmat (owner_ordered_pages_mapping e) owner) (\<lambda>m.
        bnd (fmat m streak_block) (\<lambda>r.
        Inr (iov @ [bs],
             e\<lparr>owner_ordered_pages_mapping :=
                 fmupd owner (fmupd streak_block (r\<lparr>ref_synced := True\<rparr>) m)
                   (owner_ordered_pages_mapping e)\<rparr>)))))))"

text \<open>
  The second loop, over the blocks the first has collected. Before it the source reads the key of
  the first of them, also when there is none; what it reads then is not used, as the loop has
  nothing to do.
\<close>

definition IOV_MAX :: int where "IOV_MAX = 1024"

fun sync_runs ::
  "'d os \<Rightarrow> config \<Rightarrow> string \<Rightarrow> int \<Rightarrow> (int \<times> block_ref) list \<Rightarrow> int \<Rightarrow> block_ref list \<Rightarrow>
   engine \<Rightarrow> 'd \<Rightarrow> (engine \<times> 'd) res" where
  "sync_runs h c owner fd [] page_streak page_chunk e d = Inr (e, d)"
| "sync_runs h c owner fd ((current_block_id, r) # rest) page_streak page_chunk e d =
     (if page_streak < IOV_MAX - 1 \<and> rest \<noteq> [] \<and> current_block_id = fst (hd rest) - 1 then
        sync_runs h c owner fd rest (page_streak + 1) (page_chunk @ [r]) e d
      else
        (let page_streak = page_streak + 1;
             page_chunk = page_chunk @ [r];
             page_streak_last_offset = (current_block_id - page_streak + 1) * IO_BLOCK_SIZE c
         in bnd (foldE (fill_iov c owner current_block_id page_streak page_chunk)
                   [0 .. page_streak - 1] ([], e)) (\<lambda>(iov, e).
            let (_, d) = os_pwritev h fd iov page_streak_last_offset d
            in sync_runs h c owner fd rest 0 [] e d)))"

definition sync_pages ::
  "'d os \<Rightarrow> config \<Rightarrow> string \<Rightarrow> int \<Rightarrow> string \<Rightarrow> engine \<Rightarrow> 'd \<Rightarrow> (bool \<times> engine \<times> 'd) res" where
  "sync_pages h c owner sz orig_path e d =
     (let (fd, d) = os_open h orig_path O_WRONLY 0 d in
      bnd (case fmlookup (owner_pages_mapping e) owner of
             None \<Rightarrow> Inr (e, d)
           | Some _ \<Rightarrow>
               bnd (fmat (owner_ordered_pages_mapping e) owner) (\<lambda>iterate_blocks.
               bnd (foldE (collect_dirty iterate_blocks) (fmkeys iterate_blocks) ([], e))
                 (\<lambda>(new_iterate_blocks, e).
               sync_runs h c owner fd new_iterate_blocks 0 [] e d))) (\<lambda>(e, d).
      let (_, d) = os_ftruncate h fd sz d
      in Inr (False, e, os_close h fd d)))"

definition dirty_block_info ::
  "(int, block_ref) fmap \<Rightarrow> engine \<Rightarrow> int \<Rightarrow> (int \<times> (int \<times> int) \<times> int) list \<Rightarrow>
   (int \<times> (int \<times> int) \<times> int) list res" where
  "dirty_block_info m e blk res =
     bnd (fmat m blk) (\<lambda>r.
     bnd (deref_page e (ref_page r)) (\<lambda>p.
     bnd (get_readable_to (allocated_block_ids p) blk) (\<lambda>readable.
     Inr (if ref_synced r then res else res @ [(blk, (0, readable), ref_page_id r)]))))"

definition get_dirty_blocks_info ::
  "string \<Rightarrow> engine \<Rightarrow> (int \<times> (int \<times> int) \<times> int) list res" where
  "get_dirty_blocks_info owner e =
     (case fmlookup (owner_ordered_pages_mapping e) owner of
        None \<Rightarrow> Inr []
      | Some m \<Rightarrow> foldE (dirty_block_info m e) (fmkeys m) [])"

end
