(* ===== verification/Mem_Host.thy ===== *)
theory Mem_Host
  imports Host
begin

text \<open>
  A small host: paths to inodes, inodes to byte sequences, open descriptors to inodes. The
  development uses it to show that the laws assumed of the host can hold and to evaluate the
  model on concrete runs; no other definition depends on it.
\<close>

record mem_host =
  mh_paths :: "(string, int) fmap"
  mh_files :: "(int, byte list) fmap"
  mh_fds :: "(int, int) fmap"
  mh_next :: int

definition mh_content :: "mem_host \<Rightarrow> int \<Rightarrow> byte list" where
  "mh_content d i = (case fmlookup (mh_files d) i of None \<Rightarrow> [] | Some c \<Rightarrow> c)"

definition mh_open :: "string \<Rightarrow> int \<Rightarrow> int \<Rightarrow> mem_host \<Rightarrow> int \<times> mem_host" where
  "mh_open p flags mode d =
     (case fmlookup (mh_paths d) p of
        Some i \<Rightarrow> (mh_next d, d\<lparr>mh_fds := fmupd (mh_next d) i (mh_fds d),
                               mh_next := mh_next d + 1\<rparr>)
      | None \<Rightarrow>
          if flags div O_CREAT mod 2 = 1 then
            (mh_next d, d\<lparr>mh_paths := fmupd p (mh_next d) (mh_paths d),
                          mh_files := fmupd (mh_next d) [] (mh_files d),
                          mh_fds := fmupd (mh_next d) (mh_next d) (mh_fds d),
                          mh_next := mh_next d + 1\<rparr>)
          else (- 1, d))"

definition mh_update :: "int \<Rightarrow> (byte list \<Rightarrow> int \<times> byte list) \<Rightarrow> mem_host \<Rightarrow> int \<times> mem_host" where
  "mh_update fd f d =
     (case fmlookup (mh_fds d) fd of
        None \<Rightarrow> (- 1, d)
      | Some i \<Rightarrow>
          (let (n, c) = f (mh_content d i) in (n, d\<lparr>mh_files := fmupd i c (mh_files d)\<rparr>)))"

definition mh_pread :: "int \<Rightarrow> int \<Rightarrow> int \<Rightarrow> mem_host \<Rightarrow> int \<times> byte list" where
  "mh_pread fd n off d =
     (case fmlookup (mh_fds d) fd of
        None \<Rightarrow> (- 1, [])
      | Some i \<Rightarrow> (let bs = take (nat n) (drop (nat off) (mh_content d i))
                   in (int (length bs), bs)))"

definition mh_stat :: "string \<Rightarrow> mem_host \<Rightarrow> int \<times> stat" where
  "mh_stat p d =
     (let t0 = \<lparr>tv_sec = 0, tv_nsec = 0\<rparr>;
          i = (case fmlookup (mh_paths d) p of None \<Rightarrow> 0 | Some i \<Rightarrow> i);
          links = length (filter (\<lambda>q. fmlookup (mh_paths d) q = Some i) (fmkeys (mh_paths d)))
      in (if fmlookup (mh_paths d) p = None then - 1 else 0,
          \<lparr>st_ino = i, st_size = int (length (mh_content d i)), st_nlink = int links,
           st_blocks = 0, st_reg = True, st_dir = False,
           st_atim = t0, st_mtim = t0, st_ctim = t0\<rparr>))"

definition mh_path_op :: "string \<Rightarrow> (int \<Rightarrow> (string, int) fmap \<Rightarrow> (string, int) fmap) \<Rightarrow>
  mem_host \<Rightarrow> int \<times> mem_host" where
  "mh_path_op p f d =
     (case fmlookup (mh_paths d) p of
        None \<Rightarrow> (- 1, d)
      | Some i \<Rightarrow> (0, d\<lparr>mh_paths := f i (mh_paths d)\<rparr>))"

definition mem_os :: "mem_host os" where
  "mem_os =
     \<lparr>os_open = mh_open,
      os_close = (\<lambda>fd d. d\<lparr>mh_fds := fmdrop fd (mh_fds d)\<rparr>),
      os_pread = mh_pread,
      os_pwrite = (\<lambda>fd bs off. mh_update fd (\<lambda>c. (int (length bs), file_write c off bs))),
      os_pwritev = (\<lambda>fd bss off. mh_update fd
                      (\<lambda>c. (int (length (concat bss)), file_write c off (concat bss)))),
      os_ftruncate = (\<lambda>fd n. mh_update fd (\<lambda>c. (0, file_resize c n))),
      os_truncate = (\<lambda>p n d. case fmlookup (mh_paths d) p of
                       None \<Rightarrow> (- 1, d)
                     | Some i \<Rightarrow> (0, d\<lparr>mh_files :=
                                        fmupd i (file_resize (mh_content d i) n) (mh_files d)\<rparr>)),
      os_fsync = (\<lambda>fd d. (0, d)),
      os_fdatasync = (\<lambda>fd d. (0, d)),
      os_utimes = (\<lambda>p t1 t2 d. (0, d)),
      os_lstat = mh_stat,
      os_stat = mh_stat,
      os_rename = (\<lambda>p q. mh_path_op p (\<lambda>i m. fmupd q i (fmdrop p m))),
      os_link = (\<lambda>p q. mh_path_op p (\<lambda>i m. fmupd q i m)),
      os_symlink = (\<lambda>p q d. (0, d)),
      os_unlink = (\<lambda>p. mh_path_op p (\<lambda>i m. fmdrop p m)),
      os_access = (\<lambda>p m. mh_path_op p (\<lambda>i m. m)),
      os_mkdir = (\<lambda>p m d. (0, d)),
      os_rmdir = (\<lambda>p d. (0, d)),
      os_chmod = (\<lambda>p m d. (0, d)),
      os_lchown = (\<lambda>p u g d. (0, d)),
      os_utimensat = (\<lambda>p t1 t2 d. (0, d)),
      os_lseek = (\<lambda>fd off whence d. (off, d)),
      os_readlink = (\<lambda>p n d. (- 1, [])),
      os_readdir = (\<lambda>p d. None),
      os_mkfifo = (\<lambda>p m d. (0, d)),
      os_write = (\<lambda>fd bs d. (int (length bs), d)),
      os_lsetxattr = (\<lambda>p n v sz f d. (- 1, d)),
      os_lgetxattr = (\<lambda>p n sz d. (- 1, [])),
      os_llistxattr = (\<lambda>p sz d. (- 1, [])),
      os_lremovexattr = (\<lambda>p n d. (- 1, d)),
      os_errno = (\<lambda>d. 2),
      os_now = (\<lambda>d. \<lparr>tv_sec = 1, tv_nsec = 0\<rparr>)\<rparr>"

text \<open>
  The view of it; an inode is a non-negative number and the descriptors in use are below the
  next one.
\<close>

definition mem_view :: "mem_host view" where
  "mem_view =
     \<lparr>path_ino = (\<lambda>d p. if 0 \<le> mh_next d
                        then case fmlookup (mh_paths d) p of
                               Some i \<Rightarrow> if 0 \<le> i then Some i else None
                             | None \<Rightarrow> None
                        else None),
      fd_ino = (\<lambda>d fd. if fd < mh_next d then fmlookup (mh_fds d) fd else None),
      content = mh_content\<rparr>"

lemma mh_content_upd [simp]:
  "mh_content (d\<lparr>mh_files := fmupd i c (mh_files d)\<rparr>) = (mh_content d)(i := c)"
  by (auto simp: mh_content_def fun_eq_iff)

lemma mh_content_frame [simp]:
  "mh_content (d\<lparr>mh_fds := fds, mh_next := n\<rparr>) = mh_content d"
  "mh_content (d\<lparr>mh_fds := fds\<rparr>) = mh_content d"
  "mh_content (d\<lparr>mh_paths := ps\<rparr>) = mh_content d"
  by (simp_all add: mh_content_def fun_eq_iff)

lemma mem_open_law: "open_law mem_os mem_view"
  by (auto simp: open_law_def mem_os_def mem_view_def mh_open_def fun_eq_iff
      split: if_splits option.splits)

lemma mem_create_law: "create_law mem_os mem_view"
  unfolding create_law_def
proof (intro allI impI)
  fix d p f m fd d'
  assume none: "fst (os_lstat mem_os p d) = - 1" and creat: "f div O_CREAT mod 2 = 1"
    and run: "os_open mem_os p f m d = (fd, d')" and fd: "0 < fd"
  have "fmlookup (mh_paths d) p = None"
    using none by (auto simp: mem_os_def mh_stat_def Let_def split: if_splits)
  then have d': "fd = mh_next d" "d' = d\<lparr>mh_paths := fmupd p (mh_next d) (mh_paths d),
      mh_files := fmupd (mh_next d) [] (mh_files d), mh_fds := fmupd (mh_next d) (mh_next d) (mh_fds d),
      mh_next := mh_next d + 1\<rparr>"
    using run creat by (auto simp: mem_os_def mh_open_def)
  show "\<exists>k. path_ino mem_view d' = (path_ino mem_view d)(p := Some k) \<and>
      fd_ino mem_view d' = (fd_ino mem_view d)(fd := Some k) \<and> content mem_view d' = (content mem_view d)(k := [])"
    by (rule exI [of _ fd]) (use fd in \<open>auto simp: d' mem_view_def fun_eq_iff mh_content_def\<close>)
qed

lemma mem_lstat_law: "lstat_law mem_os mem_view"
proof -
  have "1 \<le> length (filter (\<lambda>q. fmlookup (mh_paths d) q = Some i) (fmkeys (mh_paths d)))"
    if "fmlookup (mh_paths d) p = Some i" for d p i
  proof -
    have "p \<in> set (filter (\<lambda>q. fmlookup (mh_paths d) q = Some i) (fmkeys (mh_paths d)))"
      using that by (auto intro: fmdomI)
    then have "filter (\<lambda>q. fmlookup (mh_paths d) q = Some i) (fmkeys (mh_paths d)) \<noteq> []"
      by (metis empty_iff list.set(1))
    then show ?thesis by (simp add: Suc_le_eq)
  qed
  then show ?thesis
    by (auto simp: lstat_law_def mem_os_def mem_view_def mh_stat_def Let_def
        split: if_splits option.splits)
qed

lemma mem_host_laws: "host_laws mem_os mem_view"
proof -
  have "close_law mem_os mem_view" by (auto simp: close_law_def mem_os_def mem_view_def fun_eq_iff)
  moreover have "pread_law mem_os mem_view"
    by (auto simp: pread_law_def mem_os_def mem_view_def mh_pread_def Let_def split: if_splits)
  moreover have "pwrite_law mem_os mem_view"
    by (auto simp: pwrite_law_def mem_os_def mem_view_def mh_update_def fun_eq_iff split: if_splits)
  moreover have "pwritev_law mem_os mem_view"
    by (auto simp: pwritev_law_def mem_os_def mem_view_def mh_update_def fun_eq_iff split: if_splits)
  moreover have "ftruncate_law mem_os mem_view"
    by (auto simp: ftruncate_law_def mem_os_def mem_view_def mh_update_def fun_eq_iff split: if_splits)
  moreover have "quiet_law mem_os mem_view"
    by (simp add: quiet_law_def mem_os_def)
  moreover have "rename_law mem_os mem_view"
    by (auto simp: rename_law_def mem_os_def mem_view_def mh_path_op_def fun_eq_iff split: if_splits option.splits)
  moreover have "link_law mem_os mem_view"
    by (auto simp: link_law_def mem_os_def mem_view_def mh_path_op_def fun_eq_iff split: if_splits option.splits)
  moreover have "unlink_law mem_os mem_view"
    by (auto simp: unlink_law_def mem_os_def mem_view_def mh_path_op_def fun_eq_iff split: if_splits option.splits)
  moreover have "attribute_law mem_os mem_view"
    by (auto simp: attribute_law_def unchanged_def mem_os_def mem_view_def mh_path_op_def split: option.splits)
  ultimately show ?thesis using mem_open_law mem_lstat_law mem_create_law by (simp add: host_laws_def)
qed

end
