(* ===== verification/Page_Cache.thy ===== *)
theory Page_Cache
  imports Engine
begin

text \<open>
  The abstract class \<open>PageCacheEngine\<close>
  (\<open>libs/libpcache/include/cache/engine/page_cache.hpp\<close>) as a record of its virtual functions
  over an arbitrary engine state, and the instance the file system uses, the custom engine. The
  upper layer of the cache is written against the record, as the code is written against the
  class.
\<close>

record ('e, 'd) page_cache_engine =
  eng_allocate_blocks ::
    "string \<Rightarrow> (int, alloc_request) fmap \<Rightarrow> allocate_operation_type \<Rightarrow> 'e \<Rightarrow> 'd \<Rightarrow>
     ((int, int) fmap \<times> 'e \<times> 'd) res"
  eng_get_blocks ::
    "string \<Rightarrow> (int, int \<times> int) fmap \<Rightarrow> 'e \<Rightarrow> ((int, byte list option) fmap \<times> 'e) res"
  eng_is_block_cached :: "'e \<Rightarrow> string \<Rightarrow> int \<Rightarrow> int \<Rightarrow> bool"
  eng_make_block_readable_to_offset :: "string \<Rightarrow> int \<Rightarrow> int \<Rightarrow> int \<Rightarrow> 'e \<Rightarrow> 'e res"
  eng_get_engine_usage :: "'e \<Rightarrow> rat"
  eng_remove_cached_blocks :: "string \<Rightarrow> 'e \<Rightarrow> 'e res"
  eng_sync_pages :: "string \<Rightarrow> int \<Rightarrow> string \<Rightarrow> 'e \<Rightarrow> 'd \<Rightarrow> (bool \<times> 'e \<times> 'd) res"
  eng_rename_owner_pages :: "string \<Rightarrow> string \<Rightarrow> 'e \<Rightarrow> (bool \<times> 'e) res"
  eng_truncate_cached_blocks ::
    "string \<Rightarrow> (int, int) fmap \<Rightarrow> int \<Rightarrow> int \<Rightarrow> 'e \<Rightarrow> 'e res"
  eng_get_dirty_blocks_info :: "string \<Rightarrow> 'e \<Rightarrow> (int \<times> (int \<times> int) \<times> int) list res"

definition custom_cache_engine :: "'d os \<Rightarrow> config \<Rightarrow> (engine, 'd) page_cache_engine" where
  "custom_cache_engine h c =
     \<lparr>eng_allocate_blocks = allocate_blocks h c,
      eng_get_blocks = get_blocks c,
      eng_is_block_cached = is_block_cached,
      eng_make_block_readable_to_offset = make_block_readable_to_offset,
      eng_get_engine_usage = get_engine_usage c,
      eng_remove_cached_blocks = remove_cached_blocks c,
      eng_sync_pages = sync_pages h c,
      eng_rename_owner_pages = rename_owner_pages,
      eng_truncate_cached_blocks = truncate_cached_blocks c,
      eng_get_dirty_blocks_info = get_dirty_blocks_info\<rparr>"

lemma custom_cache_engine_simps [simp]:
  "eng_allocate_blocks (custom_cache_engine h c) = allocate_blocks h c"
  "eng_get_blocks (custom_cache_engine h c) = get_blocks c"
  "eng_is_block_cached (custom_cache_engine h c) = is_block_cached"
  "eng_make_block_readable_to_offset (custom_cache_engine h c) = make_block_readable_to_offset"
  "eng_get_engine_usage (custom_cache_engine h c) = get_engine_usage c"
  "eng_remove_cached_blocks (custom_cache_engine h c) = remove_cached_blocks c"
  "eng_sync_pages (custom_cache_engine h c) = sync_pages h c"
  "eng_rename_owner_pages (custom_cache_engine h c) = rename_owner_pages"
  "eng_truncate_cached_blocks (custom_cache_engine h c) = truncate_cached_blocks c"
  "eng_get_dirty_blocks_info (custom_cache_engine h c) = get_dirty_blocks_info"
  by (simp_all add: custom_cache_engine_def)

end
