(* ===== verification/Cache.thy ===== *)
theory Cache
  imports Page_Cache Items
begin

text \<open>
  The upper layer of the cache (\<open>class Cache\<close>, \<open>libs/libpcache/src/cache.cpp\<close>): path names
  to inodes, inodes to items, a mutex per item, and the page engine underneath.

  One operation is one step. A mutex is the flag that tells whether it is held; the running
  operation is the only one that takes it, so locking a held mutex is a deadlock and locking
  through the null pointer that \<open>item_locks[cid]\<close> yields for an unknown item is a fault. The
  global mutex \<open>lock_cache_mtx\<close> is released by every operation before it returns and no
  operation calls another that takes it, except where a definition says so.
\<close>

section \<open>State\<close>

record 'e cache =
  file_inode_mapping :: "(string, string) fmap"
  contents :: "(string, item) fmap"
  item_locks :: "(string, bool) fmap"
  cengine :: 'e

definition new_cache :: "'e \<Rightarrow> 'e cache" where
  "new_cache e =
     \<lparr>file_inode_mapping = fmempty, contents = fmempty, item_locks = fmempty, cengine = e\<rparr>"

definition get_cache_usage :: "('e, 'd) page_cache_engine \<Rightarrow> 'e cache \<Rightarrow> rat" where
  "get_cache_usage E C = eng_get_engine_usage E (cengine C)"

definition has_content_cached :: "'e cache \<Rightarrow> string \<Rightarrow> bool" where
  "has_content_cached C cid \<longleftrightarrow> fmlookup (contents C) cid \<noteq> None"

definition get_content_ptr :: "'e cache \<Rightarrow> string \<Rightarrow> item option" where
  "get_content_ptr C cid = fmlookup (contents C) cid"

text \<open>An update of the item behind a pointer to it.\<close>

definition update_item :: "string \<Rightarrow> (item \<Rightarrow> item) \<Rightarrow> 'e cache \<Rightarrow> 'e cache" where
  "update_item cid f C =
     (case fmlookup (contents C) cid of
        None \<Rightarrow> C
      | Some i \<Rightarrow> C\<lparr>contents := fmupd cid (f i) (contents C)\<rparr>)"

section \<open>Path names and metadata\<close>

definition get_original_inode :: "'e cache \<Rightarrow> string \<Rightarrow> string" where
  "get_original_inode C path =
     (case fmlookup (file_inode_mapping C) path of None \<Rightarrow> '''' | Some i \<Rightarrow> i)"

definition get_content_metadata :: "'e cache \<Rightarrow> string \<Rightarrow> metadata option" where
  "get_content_metadata C cid = map_option imetadata (get_content_ptr C cid)"

definition update_content_metadata ::
  "string \<Rightarrow> metadata \<Rightarrow> string list \<Rightarrow> 'e cache \<Rightarrow> bool \<times> 'e cache" where
  "update_content_metadata cid new_meta values_to_update C =
     (if get_content_ptr C cid = None then (False, C)
      else (True, update_item cid (update_metadata new_meta values_to_update) C))"

definition insert_inode_mapping :: "string \<Rightarrow> string \<Rightarrow> bool \<Rightarrow> 'e cache \<Rightarrow> 'e cache" where
  "insert_inode_mapping path inode increase C =
     (let C = C\<lparr>file_inode_mapping := fmupd path inode (file_inode_mapping C)\<rparr> in
      if increase then
        (case get_content_metadata C inode of
           None \<Rightarrow> C
         | Some oldmeta \<Rightarrow>
             snd (update_content_metadata inode (Metadata\<lparr>nlinks := nlinks oldmeta + 1\<rparr>)
                    [''nlinks''] C))
      else C)"

definition find_files_mapped_to_inode :: "'e cache \<Rightarrow> string \<Rightarrow> string list" where
  "find_files_mapped_to_inode C inode =
     filter (\<lambda>p. fmlookup (file_inode_mapping C) p = Some inode) (fmkeys (file_inode_mapping C))"

definition cache_is_block_cached ::
  "('e, 'd) page_cache_engine \<Rightarrow> 'e cache \<Rightarrow> string \<Rightarrow> int \<Rightarrow> bool" where
  "cache_is_block_cached E C cid blk_id =
     (case fmlookup (contents C) cid of
        None \<Rightarrow> False
      | Some i \<Rightarrow> eng_is_block_cached E (cengine C) cid (get_page_id (idata i) blk_id) blk_id)"

section \<open>Items and their mutexes\<close>

definition create_item :: "string \<Rightarrow> 'e cache \<Rightarrow> 'e cache" where
  "create_item cid C =
     C\<lparr>item_locks := fmins cid False (item_locks C), contents := fmins cid Item (contents C)\<rparr>"

definition lockItem :: "string \<Rightarrow> 'e cache \<Rightarrow> 'e cache res" where
  "lockItem cid C =
     (case fmlookup (item_locks C) cid of
        None \<Rightarrow> Inl NullDeref
      | Some held \<Rightarrow>
          if held then Inl Deadlock
          else Inr (C\<lparr>item_locks := fmupd cid True (item_locks C)\<rparr>))"

definition unlockItem :: "string \<Rightarrow> 'e cache \<Rightarrow> 'e cache res" where
  "unlockItem cid C =
     (case fmlookup (item_locks C) cid of
        None \<Rightarrow> Inl NullDeref
      | Some held \<Rightarrow> Inr (C\<lparr>item_locks := fmupd cid False (item_locks C)\<rparr>))"

definition lockItemCheckExists :: "string \<Rightarrow> 'e cache \<Rightarrow> (bool \<times> 'e cache) res" where
  "lockItemCheckExists cid C =
     (if \<not> has_content_cached C cid then Inr (False, C)
      else bnd (lockItem cid C) (\<lambda>C. Inr (True, C)))"

definition delete_item :: "string \<Rightarrow> 'e cache \<Rightarrow> 'e cache" where
  "delete_item cid C = C\<lparr>contents := fmdrop cid (contents C)\<rparr>"

definition erase_item_lock :: "string \<Rightarrow> 'e cache \<Rightarrow> 'e cache" where
  "erase_item_lock cid C = C\<lparr>item_locks := fmdrop cid (item_locks C)\<rparr>"

section \<open>Blocks\<close>

definition get_readable_offsets ::
  "('e, 'd) page_cache_engine \<Rightarrow> 'e cache \<Rightarrow> string \<Rightarrow> item \<Rightarrow> int \<Rightarrow> (int \<times> int) res" where
  "get_readable_offsets E C cid i blk_id =
     (if eng_is_block_cached E (cengine C) cid (get_page_id (idata i) blk_id) blk_id
      then data_readable_offsets (idata i) blk_id else Inr (0, 0))"

text \<open>A block to put: its data, their length, where they start in the block, where they end.\<close>

type_synonym put_request = "byte list \<times> int \<times> int \<times> int"

definition put_mapping ::
  "bool \<Rightarrow> item \<Rightarrow> (int, put_request) fmap \<Rightarrow> (int, alloc_request) fmap" where
  "put_mapping is_new_item i blocks =
     fmmap_keys (\<lambda>bid (bdata, bdata_len, off_start, _).
       (if is_new_item then - 1 else get_page_id (idata i) bid, bdata, bdata_len, off_start)) blocks"

text \<open>What is recorded for one block after the engine has answered.\<close>

definition note_allocation ::
  "('e, 'd) page_cache_engine \<Rightarrow> string \<Rightarrow> (int, put_request) fmap \<Rightarrow> (int, int) fmap \<Rightarrow>
   int \<Rightarrow> (int, bool) fmap \<times> bool \<times> 'e cache \<Rightarrow> ((int, bool) fmap \<times> bool \<times> 'e cache) res" where
  "note_allocation E cid blocks allocations bid = (\<lambda>(put_res, allocated_at_least_one_page, C).
     bnd (fmat allocations bid) (\<lambda>allocated_page.
     bnd (fmat blocks bid) (\<lambda>(_, _, _, rs_to).
     bnd (of_option NullDeref (get_content_ptr C cid)) (\<lambda>i.
     let put_res = fmins bid (allocated_page \<ge> 0) put_res in
     if allocated_page \<ge> 0 then
       (let (max_offset, d) = set_block_page_id bid allocated_page 0 rs_to (idata i);
            C = update_item cid (\<lambda>i. i\<lparr>idata := d\<rparr>) C
        in bnd (eng_make_block_readable_to_offset E cid allocated_page bid max_offset (cengine C))
             (\<lambda>e. Inr (put_res, True, C\<lparr>cengine := e\<rparr>)))
     else
       Inr (put_res, allocated_at_least_one_page,
            update_item cid (\<lambda>i. i\<lparr>idata := remove_data_block bid (idata i)\<rparr>) C)))))"

definition put_data_blocks ::
  "('e, 'd) page_cache_engine \<Rightarrow> string \<Rightarrow> (int, put_request) fmap \<Rightarrow> allocate_operation_type \<Rightarrow>
   'e cache \<Rightarrow> 'd \<Rightarrow> ((int, bool) fmap \<times> 'e cache \<times> 'd) res" where
  "put_data_blocks E cid blocks operation_type C d =
     (let is_new_item = (get_content_ptr C cid = None);
          C = (if is_new_item then create_item cid C else C)
      in bnd (lockItem cid C) (\<lambda>C.
         bnd (of_option NullDeref (get_content_ptr C cid)) (\<lambda>i.
         bnd (eng_allocate_blocks E cid (put_mapping is_new_item i blocks) operation_type
                (cengine C) d) (\<lambda>(allocations, e, d).
         bnd (foldE (note_allocation E cid blocks allocations) (fmkeys allocations)
                (fmempty, False, C\<lparr>cengine := e\<rparr>)) (\<lambda>(put_res, allocated_at_least_one_page, C).
         let C = (if allocated_at_least_one_page
                  then update_item cid (set_data_sync_flag False) C else C)
         in bnd (unlockItem cid C) (\<lambda>C. Inr (put_res, C, d)))))))"

text \<open>
  A read asks for whole blocks (\<open>max_offset\<close> is \<open>IO_BLOCK_SIZE - 1\<close>). The result says for
  each block known to the item whether the engine had it, with the bytes it copied to the
  caller's buffer, and its readable range.
\<close>

definition get_mapping :: "config \<Rightarrow> item \<Rightarrow> int fset \<Rightarrow> (int, int \<times> int) fmap" where
  "get_mapping c i blocks =
     fmrestrict_fset blocks
       (fmmap (\<lambda>info. (page_index_number info, c_int (u64 (IO_BLOCK_SIZE c - 1)))) (idata i))"

definition note_read ::
  "('e, 'd) page_cache_engine \<Rightarrow> string \<Rightarrow> (int, byte list option) fmap \<Rightarrow> int \<Rightarrow>
   (int, byte list option \<times> int \<times> int) fmap \<times> 'e cache \<Rightarrow>
   ((int, byte list option \<times> int \<times> int) fmap \<times> 'e cache) res" where
  "note_read E cid res bid = (\<lambda>(cache_res, C).
     bnd (fmat res bid) (\<lambda>found.
     let C = (if found = None
              then update_item cid (\<lambda>i. i\<lparr>idata := remove_data_block bid (idata i)\<rparr>) C else C)
     in bnd (of_option NullDeref (get_content_ptr C cid)) (\<lambda>i.
        bnd (get_readable_offsets E C cid i bid) (\<lambda>offs.
        Inr (fmins bid (found, offs) cache_res, C)))))"

definition get_data_blocks ::
  "('e, 'd) page_cache_engine \<Rightarrow> config \<Rightarrow> string \<Rightarrow> int fset \<Rightarrow> 'e cache \<Rightarrow>
   ((int, byte list option \<times> int \<times> int) fmap \<times> 'e cache) res" where
  "get_data_blocks E c cid blocks C =
     (if \<not> has_content_cached C cid then Inr (fmempty, C)
      else
        bnd (lockItem cid C) (\<lambda>C.
        bnd (of_option NullDeref (get_content_ptr C cid)) (\<lambda>i.
        bnd (eng_get_blocks E cid (get_mapping c i blocks) (cengine C)) (\<lambda>(res, e).
        bnd (foldE (note_read E cid res) (fmkeys res) (fmempty, C\<lparr>cengine := e\<rparr>))
          (\<lambda>(cache_res, C).
        bnd (unlockItem cid C) (\<lambda>C. Inr (cache_res, C)))))))"

definition truncate_item ::
  "('e, 'd) page_cache_engine \<Rightarrow> config \<Rightarrow> string \<Rightarrow> int \<Rightarrow> 'e cache \<Rightarrow> (bool \<times> 'e cache) res" where
  "truncate_item E c cid new_size C =
     (if \<not> has_content_cached C cid then Inr (False, C)
      else
        bnd (lockItem cid C) (\<lambda>C.
        bnd (of_option NullDeref (get_content_ptr C cid)) (\<lambda>i.
        if new_size = 0 then
          bnd (if count_blocks (idata i) > 0
               then bnd (eng_remove_cached_blocks E cid (cengine C)) (\<lambda>e.
                    Inr (update_item cid (\<lambda>i. i\<lparr>idata := remove_all_blocks (idata i)\<rparr>)
                           (C\<lparr>cengine := e\<rparr>)))
               else Inr C) (\<lambda>C.
          bnd (unlockItem cid C) (\<lambda>C. Inr (True, C)))
        else
          bnd (require (IO_BLOCK_SIZE c \<noteq> 0) DivByZero) (\<lambda>_.
          let from_block_id = c_int (u64 new_size div IO_BLOCK_SIZE c);
              from_block_index = u64 new_size mod IO_BLOCK_SIZE c;
              (removed, dt) = truncate_blocks_after from_block_id from_block_index (idata i);
              C = update_item cid (\<lambda>i. i\<lparr>idata := dt\<rparr>) C
          in bnd (eng_truncate_cached_blocks E cid removed from_block_id from_block_index
                    (cengine C)) (\<lambda>e.
             let C = update_item cid (set_data_sync_flag False) (C\<lparr>cengine := e\<rparr>) in
             bnd (unlockItem cid C) (\<lambda>C. Inr (True, C)))))))"

section \<open>Write-back\<close>

definition TIMESPEC_TO_TIMEVAL :: "timespec \<Rightarrow> timespec" where
  "TIMESPEC_TO_TIMEVAL t = t\<lparr>tv_nsec := tv_nsec t div 1000\<rparr>"

definition sync_owner ::
  "('e, 'd) page_cache_engine \<Rightarrow> 'd os \<Rightarrow> string \<Rightarrow> bool \<Rightarrow> string \<Rightarrow> 'e cache \<Rightarrow> 'd \<Rightarrow>
   (int \<times> 'e cache \<times> 'd) res" where
  "sync_owner E h cid only_sync_data orig_path C d =
     (if \<not> has_content_cached C cid then Inr (- 1, C, d)
      else
        bnd (lockItem cid C) (\<lambda>C.
        bnd (of_option NullDeref (get_content_metadata C cid)) (\<lambda>meta.
        bnd (eng_sync_pages E cid (meta_size meta) orig_path (cengine C) d) (\<lambda>(ok, e, d).
        let C = update_item cid (set_data_sync_flag True) (C\<lparr>cengine := e\<rparr>);
            d = (if only_sync_data then d
                 else snd (os_utimes h cid (TIMESPEC_TO_TIMEVAL (atim meta))
                             (TIMESPEC_TO_TIMEVAL (mtim meta)) d))
        in bnd (unlockItem cid C) (\<lambda>C. Inr (of_bool ok, C, d))))))"

definition full_checkpoint ::
  "('e, 'd) page_cache_engine \<Rightarrow> 'd os \<Rightarrow> 'e cache \<Rightarrow> 'd \<Rightarrow> ('e cache \<times> 'd) res" where
  "full_checkpoint E h C d =
     foldE (\<lambda>path (C, d).
       bnd (fmat (file_inode_mapping C) path) (\<lambda>inode.
       bnd (sync_owner E h inode False path C d) (\<lambda>(_, C, d). Inr (C, d))))
       (fmkeys (file_inode_mapping C)) (C, d)"

definition report_unsynced_data ::
  "('e, 'd) page_cache_engine \<Rightarrow> 'e cache \<Rightarrow>
   (string \<times> int \<times> (int \<times> (int \<times> int) \<times> int) list) list res" where
  "report_unsynced_data E C =
     foldE (\<lambda>cid unsynced_data.
       bnd (fmat (contents C) cid) (\<lambda>i.
       if data_synced i then Inr unsynced_data
       else bnd (eng_get_dirty_blocks_info E cid (cengine C)) (\<lambda>info.
            Inr (unsynced_data @ [(cid, 0, info)]))))
       (fmkeys (contents C)) []"

section \<open>Removal\<close>

text \<open>One link less, but never below one.\<close>

definition drop_link :: "metadata \<Rightarrow> item \<Rightarrow> item" where
  "drop_link m i =
     update_metadata (Metadata\<lparr>nlinks := max (c_int (nlinks m) - 1) 1\<rparr>) [''nlinks''] i"

text \<open>The removal of an item whose mutex is held, the mutex included.\<close>

definition drop_item ::
  "('e, 'd) page_cache_engine \<Rightarrow> string \<Rightarrow> 'e cache \<Rightarrow> 'e cache res" where
  "drop_item E cid C =
     bnd (eng_remove_cached_blocks E cid (cengine C)) (\<lambda>e.
     bnd (unlockItem cid (delete_item cid (C\<lparr>cengine := e\<rparr>))) (\<lambda>C.
     Inr (erase_item_lock cid C)))"

definition rename_item ::
  "('e, 'd) page_cache_engine \<Rightarrow> string \<Rightarrow> string \<Rightarrow> 'e cache \<Rightarrow> (bool \<times> 'e cache) res" where
  "rename_item E old_cid new_cid C =
     (case fmlookup (file_inode_mapping C) old_cid of
        None \<Rightarrow> Inr (True, C)
      | Some inode \<Rightarrow>
          (let to_remove_inode =
                 (case fmlookup (file_inode_mapping C) new_cid of None \<Rightarrow> '''' | Some i \<Rightarrow> i);
               C = C\<lparr>file_inode_mapping :=
                       fmupd new_cid inode (fmdrop old_cid (file_inode_mapping C))\<rparr>
           in case get_content_ptr C to_remove_inode of
                None \<Rightarrow> Inr (True, C)
              | Some i \<Rightarrow>
                  bnd (lockItem to_remove_inode C) (\<lambda>C.
                  let before_nlinks = nlinks (imetadata i);
                      C = update_item to_remove_inode (drop_link (imetadata i)) C
                  in if before_nlinks > 1
                     then bnd (unlockItem to_remove_inode C) (\<lambda>C. Inr (True, C))
                     else bnd (drop_item E to_remove_inode C) (\<lambda>C. Inr (True, C)))))"

definition remove_cached_item ::
  "('e, 'd) page_cache_engine \<Rightarrow> string \<Rightarrow> string \<Rightarrow> bool \<Rightarrow> 'e cache \<Rightarrow> (bool \<times> 'e cache) res" where
  "remove_cached_item E cid path is_from_cache C =
     (case get_content_ptr C cid of
        None \<Rightarrow> Inr (False, C)
      | Some i \<Rightarrow>
          bnd (lockItem cid C) (\<lambda>C.
          let before_nlinks = nlinks (imetadata i);
              C = C\<lparr>file_inode_mapping := fmdrop path (file_inode_mapping C)\<rparr>;
              C = update_item cid (drop_link (imetadata i)) C
          in if \<not> is_from_cache \<and> before_nlinks > 1
             then bnd (unlockItem cid C) (\<lambda>C. Inr (False, C))
             else bnd (drop_item E cid C) (\<lambda>C. Inr (True, C))))"

definition clear_all_cache :: "('e, 'd) page_cache_engine \<Rightarrow> 'e cache \<Rightarrow> 'e cache res" where
  "clear_all_cache E C =
     (let items = map (\<lambda>p. (p, the (fmlookup (file_inode_mapping C) p)))
                    (fmkeys (file_inode_mapping C))
      in bnd (foldE (\<lambda>(path, inode) C.
                bnd (remove_cached_item E inode path True C) (\<lambda>(_, C). Inr C)) items C) (\<lambda>C.
         foldE (\<lambda>cid C. bnd (lockItem cid C) (drop_item E cid)) (fmkeys (contents C)) C))"

end
