(* ===== verification/Injection.thy ===== *)
theory Injection
  imports Cache Faults Host
begin

text \<open>
  The state of the file system object and the injection of faults
  (\<open>class LazyFS\<close>, \<open>lazyfs/src/lazyfs.cpp\<close> lines 69 to 668): crash faults that kill the
  process before or after an operation, configured clear-cache faults with their counters, and
  the two faults that persist a part of the written data behind the cache's back.

  The world is everything an operation can change: the cache, the tables of faults, the pending
  write, the number of shared holders of \<open>cache_command_lock\<close>, and the host. The process ends
  with \<open>SelfKill\<close> when it sends itself \<open>SIGKILL\<close>; then only the host's state is left.
  The patterns of crash faults are regular expressions given by the user; whether a text
  matches one is asked of the standard library, a field of the environment.
\<close>

section \<open>State\<close>

record write_call =
  wr_path :: string
  wr_buf :: "byte list"
  wr_size :: int
  wr_offset :: int

definition new_Write :: "string \<Rightarrow> byte list \<Rightarrow> int \<Rightarrow> int \<Rightarrow> write_call res" where
  "new_Write path buf sz offset =
     bnd (mem_read buf 0 sz) (\<lambda>bs.
     Inr \<lparr>wr_path = path, wr_buf = bs, wr_size = sz, wr_offset = offset\<rparr>)"

type_synonym crash_faults = "(string, (string \<times> string) list) fmap"

record ('e, 'd) world =
  FSCache :: "'e cache"
  ffaults :: faults
  pending_write :: "write_call option"
  injecting_fault :: "string list"
  crash_faults_before_map :: crash_faults
  crash_faults_after_map :: crash_faults
  shared_locks :: nat
  host_state :: 'd

record ('e, 'd) env =
  eos :: "'d os"
  FSConfig :: config
  eengine :: "('e, 'd) page_cache_engine"
  regex_match :: "string \<Rightarrow> string \<Rightarrow> bool"     \<comment> \<open>text, pattern\<close>
  regex_valid :: "string \<Rightarrow> bool"
  uninit_int :: int                          \<comment> \<open>the value of an uninitialised variable\<close>

datatype 'd stop = Fault cpp_fault | SelfKill 'd

type_synonym ('e, 'd, 'a) outcome = "'d stop + ('a \<times> ('e, 'd) world)"

definition lift :: "'a res \<Rightarrow> 'd stop + 'a" where
  "lift m = (case m of Inl e \<Rightarrow> Inl (Fault e) | Inr x \<Rightarrow> Inr x)"

lemma lift_simps [simp]: "lift (Inl e) = Inl (Fault e)" "lift (Inr x) = Inr x"
  by (simp_all add: lift_def)

lemma lift_eq_Inr [simp]: "lift m = Inr x \<longleftrightarrow> m = Inr x"
  by (cases m) auto

definition new_lazyfs :: "'e cache \<Rightarrow> faults \<Rightarrow> 'd \<Rightarrow> ('e, 'd) world" where
  "new_lazyfs C fs d =
     (let no_faults = fold (\<lambda>op. fmins op []) allow_crash_fs_operations fmempty in
      \<lparr>FSCache = C, ffaults = fs, pending_write = None, injecting_fault = [],
       crash_faults_before_map = no_faults, crash_faults_after_map = no_faults,
       shared_locks = 0, host_state = d\<rparr>)"

text \<open>Running a cache operation, or a system call, on the world.\<close>

definition on_cache ::
  "('e cache \<Rightarrow> ('a \<times> 'e cache) res) \<Rightarrow> ('e, 'd) world \<Rightarrow> ('e, 'd, 'a) outcome" where
  "on_cache f w = bnd (lift (f (FSCache w))) (\<lambda>(x, C). Inr (x, w\<lparr>FSCache := C\<rparr>))"

definition on_cache_host ::
  "('e cache \<Rightarrow> 'd \<Rightarrow> ('a \<times> 'e cache \<times> 'd) res) \<Rightarrow> ('e, 'd) world \<Rightarrow> ('e, 'd, 'a) outcome" where
  "on_cache_host f w =
     bnd (lift (f (FSCache w) (host_state w))) (\<lambda>(x, C, d).
     Inr (x, w\<lparr>FSCache := C, host_state := d\<rparr>))"

definition syscall :: "('d \<Rightarrow> 'a \<times> 'd) \<Rightarrow> ('e, 'd) world \<Rightarrow> 'a \<times> ('e, 'd) world" where
  "syscall f w = (let (x, d) = f (host_state w) in (x, w\<lparr>host_state := d\<rparr>))"

text \<open>
  A handler holds \<open>cache_command_lock\<close> in shared mode from here to its return. The lock is the number
  of its shared holders: that a thread must not lock a \<open>std::shared_mutex\<close> it already shares, as
  \<open>lfs_truncate\<close> does when it calls \<open>lfs_write\<close>, and that a waiting command may be served before new
  sharers, makes no difference while handlers and commands run one after the other.
\<close>

definition with_shared_lock ::
  "(('e, 'd) world \<Rightarrow> ('e, 'd, 'a) outcome) \<Rightarrow> ('e, 'd) world \<Rightarrow> ('e, 'd, 'a) outcome" where
  "with_shared_lock body w =
     bnd (body (w\<lparr>shared_locks := Suc (shared_locks w)\<rparr>)) (\<lambda>(x, w).
     Inr (x, w\<lparr>shared_locks := shared_locks w - 1\<rparr>))"

text \<open>A command takes it exclusively, which blocks while anyone shares it.\<close>

definition with_unique_lock ::
  "(('e, 'd) world \<Rightarrow> ('e, 'd, 'a) outcome) \<Rightarrow> ('e, 'd) world \<Rightarrow> ('e, 'd, 'a) outcome" where
  "with_unique_lock body w = bnd (lift (require (shared_locks w = 0) Deadlock)) (\<lambda>_. body w)"

section \<open>Commands\<close>

text \<open>
  The ranges of blocks the report prints for one inode: first block, last block, first byte,
  last byte. At the last block the loop reads the block number after the end of the vector,
  which is the argument \<open>past_end\<close>.
\<close>

fun report_ranges ::
  "config \<Rightarrow> int \<Rightarrow> (int \<times> (int \<times> int) \<times> int) list \<Rightarrow> int \<Rightarrow> int \<Rightarrow> int \<Rightarrow>
   (int \<times> int \<times> int \<times> int) list" where
  "report_ranges c past_end [] last_block_index last_block_off_start first_block_id = []"
| "report_ranges c past_end ((block_id, offs, _) # rest) last_block_index last_block_off_start
     first_block_id =
     (let (last_block_index, last_block_off_start, first_block_id) =
            (if last_block_index < 0 then (block_id, fst offs, block_id)
             else (last_block_index, last_block_off_start, first_block_id));
          next_block = (case rest of [] \<Rightarrow> past_end | (b, _) # _ \<Rightarrow> b)
      in if block_id \<noteq> next_block - 1 then
           (last_block_index, block_id, last_block_off_start,
            u64 (snd offs + block_id * IO_BLOCK_SIZE c - first_block_id * IO_BLOCK_SIZE c))
           # report_ranges c past_end rest block_id (fst offs) first_block_id
         else report_ranges c past_end rest last_block_index last_block_off_start first_block_id)"

type_synonym report_entry = "string \<times> (int \<times> int \<times> int \<times> int) list \<times> string list"

definition report_entry ::
  "config \<Rightarrow> int \<Rightarrow> 'e cache \<Rightarrow> string list \<Rightarrow>
   (string \<times> int \<times> (int \<times> (int \<times> int) \<times> int) list) \<Rightarrow> report_entry list \<times> int \<Rightarrow>
   report_entry list \<times> int" where
  "report_entry c past_end C paths_to_exclude = (\<lambda>(ino, _, blocks) (lines, total_bytes_unsynced).
     (let files_mapped = find_files_mapped_to_inode C ino;
          report = (paths_to_exclude = [] \<or> (\<exists>f \<in> set files_mapped. f \<in> set paths_to_exclude))
      in if report \<and> blocks \<noteq> [] \<and> files_mapped \<noteq> [] then
           (lines @ [(ino, report_ranges c past_end blocks (- 1) (- 1) (- 1), files_mapped)],
            total_bytes_unsynced
              + sum_list (map (\<lambda>(_, offs, _). snd offs - fst offs + 1) blocks))
         else (lines, total_bytes_unsynced)))"

definition command_unsynced_data_report ::
  "('e, 'd) env \<Rightarrow> string list \<Rightarrow> ('e, 'd) world \<Rightarrow> 'd stop + (report_entry list \<times> int)" where
  "command_unsynced_data_report ev paths_to_exclude w =
     bnd (lift (report_unsynced_data (eengine ev) (FSCache w))) (\<lambda>res.
     Inr (fold (report_entry (FSConfig ev) (uninit_int ev) (FSCache w) paths_to_exclude) res
            ([], 0)))"

definition command_fault_clear_cache ::
  "('e, 'd) env \<Rightarrow> ('e, 'd) world \<Rightarrow> ('e, 'd, unit) outcome" where
  "command_fault_clear_cache ev =
     with_unique_lock (on_cache (\<lambda>C. bnd (clear_all_cache (eengine ev) C) (\<lambda>C. Inr ((), C))))"

definition command_display_cache_usage ::
  "('e, 'd) env \<Rightarrow> ('e, 'd) world \<Rightarrow> ('e, 'd, rat) outcome" where
  "command_display_cache_usage ev =
     with_unique_lock (\<lambda>w. Inr (get_cache_usage (eengine ev) (FSCache w), w))"

definition command_checkpoint :: "('e, 'd) env \<Rightarrow> ('e, 'd) world \<Rightarrow> ('e, 'd, unit) outcome" where
  "command_checkpoint ev =
     with_unique_lock (on_cache_host (\<lambda>C d.
       bnd (full_checkpoint (eengine ev) (eos ev) C d) (\<lambda>(C, d). Inr ((), C, d))))"

section \<open>Crash faults\<close>

text \<open>A stored crash fault is the pattern of the source path and the text of the other one.\<close>

definition any_around :: "string \<Rightarrow> string" where
  "any_around r = ''.*'' @ r @ ''.*''"

definition add_crash_fault ::
  "('e, 'd) env \<Rightarrow> string \<Rightarrow> string \<Rightarrow> string \<Rightarrow> string \<Rightarrow> ('e, 'd) world \<Rightarrow>
   ('e, 'd, unit) outcome" where
  "add_crash_fault ev crash_timing crash_operation crash_regex_from crash_regex_to w =
     (let fault = (any_around crash_regex_from, crash_regex_to);
          valid = lift (require (regex_valid ev (any_around crash_regex_from)) RegexError)
      in if crash_timing = ''before'' then
           bnd (lift (fmat (crash_faults_before_map w) crash_operation)) (\<lambda>l.
           bnd valid (\<lambda>_.
           Inr ((), w\<lparr>crash_faults_before_map :=
                        fmupd crash_operation (l @ [fault]) (crash_faults_before_map w)\<rparr>)))
         else
           bnd (lift (fmat (crash_faults_after_map w) crash_operation)) (\<lambda>l.
           bnd valid (\<lambda>_.
           Inr ((), w\<lparr>crash_faults_after_map :=
                        fmupd crash_operation (l @ [fault]) (crash_faults_after_map w)\<rparr>))))"

text \<open>Whether a stored crash fault applies to an operation on the given paths.\<close>

definition crash_fault_matches ::
  "('e, 'd) env \<Rightarrow> string \<Rightarrow> string \<Rightarrow> string \<Rightarrow> string \<times> string \<Rightarrow> bool res" where
  "crash_fault_matches ev opname from_op_path to_op_path = (\<lambda>(from_rgx, to).
     if opname \<in> set fs_op_multi_path then
       bnd (require (regex_valid ev (any_around to)) RegexError) (\<lambda>_.
       let matched = (if regex_match ev ''none'' from_rgx
                      then regex_match ev from_op_path from_rgx else True)
       in Inr (if to \<noteq> ''none'' then matched \<and> regex_match ev to_op_path (any_around to)
               else matched))
     else Inr (regex_match ev from_op_path from_rgx))"

definition trigger_crash_fault ::
  "('e, 'd) env \<Rightarrow> string \<Rightarrow> string \<Rightarrow> string \<Rightarrow> string \<Rightarrow> ('e, 'd) world \<Rightarrow>
   ('e, 'd, unit) outcome" where
  "trigger_crash_fault ev opname optiming from_op_path to_op_path w =
     bnd (lift (fmat (if optiming = ''before'' then crash_faults_before_map w
                      else crash_faults_after_map w) opname)) (\<lambda>opfaults.
     bnd (foldE (\<lambda>it w.
            bnd (lift (crash_fault_matches ev opname from_op_path to_op_path it)) (\<lambda>matched.
            if matched
            then bnd (command_unsynced_data_report ev (injecting_fault w) w) (\<lambda>_.
                 Inl (SelfKill (host_state w)))
            else Inr w)) opfaults w) (\<lambda>w. Inr ((), w)))"

section \<open>Clear-cache faults\<close>

definition set_fault :: "string \<Rightarrow> nat \<Rightarrow> fault \<Rightarrow> ('e, 'd) world \<Rightarrow> ('e, 'd) world" where
  "set_fault path i f w =
     (case fmlookup (ffaults w) path of
        None \<Rightarrow> w
      | Some v \<Rightarrow> w\<lparr>ffaults := fmupd path (v[i := f]) (ffaults w)\<rparr>)"

text \<open>
  \<open>fetch_add\<close> returns the value before the addition, and only calls with the timing
  \<open>before\<close> count.
\<close>

definition clear_fault_step ::
  "('e, 'd) env \<Rightarrow> string \<Rightarrow> string \<Rightarrow> string \<Rightarrow> string \<Rightarrow> nat \<times> fault \<Rightarrow> ('e, 'd) world \<Rightarrow>
   'd stop + ('e, 'd) world" where
  "clear_fault_step ev opname optiming from_path to_path = (\<lambda>(i, f) w.
     case f of
       ClearF clear_fault \<Rightarrow>
         if cl_op clear_fault = opname \<and>
            (opname \<in> set fs_op_multi_path \<longrightarrow> to_path = cl_to clear_fault) then
           (let current_count = cl_counter clear_fault;
                w = (if optiming = ''before''
                     then set_fault from_path i
                            (ClearF (clear_fault\<lparr>cl_counter := current_count + 1\<rparr>)) w
                     else w)
            in if cl_timing clear_fault = optiming \<and> current_count = cl_occurrence clear_fault then
                 bnd (command_unsynced_data_report ev (injecting_fault w) w) (\<lambda>_.
                 if cl_crash clear_fault then Inl (SelfKill (host_state w))
                 else bnd (command_fault_clear_cache ev w) (\<lambda>(_, w). Inr w))
               else Inr w)
         else Inr w
     | _ \<Rightarrow> Inr w)"

definition trigger_configured_clear_fault ::
  "('e, 'd) env \<Rightarrow> string \<Rightarrow> string \<Rightarrow> string \<Rightarrow> string \<Rightarrow> ('e, 'd) world \<Rightarrow>
   ('e, 'd, unit) outcome" where
  "trigger_configured_clear_fault ev opname optiming from_path to_path w =
     (case fmlookup (ffaults w) from_path of
        None \<Rightarrow> Inr ((), w)
      | Some v_faults \<Rightarrow>
          bnd (foldE (clear_fault_step ev opname optiming from_path to_path)
                 (List.enumerate 0 v_faults) w) (\<lambda>w. Inr ((), w)))"

text \<open>The two triggers that open and close a handler.\<close>

definition triggers ::
  "('e, 'd) env \<Rightarrow> string \<Rightarrow> string \<Rightarrow> string \<Rightarrow> string \<Rightarrow> ('e, 'd) world \<Rightarrow>
   ('e, 'd, unit) outcome" where
  "triggers ev opname optiming from_path to_path w =
     bnd (trigger_crash_fault ev opname optiming from_path to_path w) (\<lambda>(_, w).
     trigger_configured_clear_fault ev opname optiming from_path to_path w)"

end
