(* ===== verification/Torn.thy ===== *)
theory Torn
  imports Injection
begin

text \<open>
  The two faults that let a part of the written data reach the host although nothing was
  synced (\<open>lazyfs/src/lazyfs.cpp\<close> lines 460 to 668): torn-seq persists chosen writes of a
  sequence of writes, torn-op persists chosen parts of one write. Both then add a crash fault.
\<close>

section \<open>Torn sequences of writes\<close>

definition restart_counter :: "string \<Rightarrow> string \<Rightarrow> ('e, 'd) world \<Rightarrow> ('e, 'd) world" where
  "restart_counter path op w =
     (case fmlookup (ffaults w) path of
        None \<Rightarrow> w
      | Some v \<Rightarrow>
          w\<lparr>ffaults := fmupd path
              (map (\<lambda>f. case f of
                          ReorderF r \<Rightarrow> if ro_op r = op then ReorderF (r\<lparr>ro_counter := 0\<rparr>) else f
                        | _ \<Rightarrow> f) v) (ffaults w)\<rparr>)"

definition check_and_delete_pendingwrite ::
  "string \<Rightarrow> ('e, 'd) world \<Rightarrow> bool \<times> ('e, 'd) world" where
  "check_and_delete_pendingwrite path w =
     (let (res, w) = (case pending_write w of
                        None \<Rightarrow> (False, w)
                      | Some p \<Rightarrow> if wr_path p = path then (True, w\<lparr>pending_write := None\<rparr>)
                                  else (False, w))
      in (res, w\<lparr>injecting_fault := filter (\<lambda>p. p \<noteq> path) (injecting_fault w)\<rparr>))"

text \<open>
  The counters of all torn-seq faults of the operation are increased; the last of them is
  returned, by its position in the list of the path.
\<close>

definition get_and_update_reorder_fault ::
  "string \<Rightarrow> string \<Rightarrow> ('e, 'd) world \<Rightarrow> nat option \<times> ('e, 'd) world" where
  "get_and_update_reorder_fault path op w =
     (case fmlookup (ffaults w) path of
        None \<Rightarrow> (None, w)
      | Some v \<Rightarrow>
          fold (\<lambda>(i, f) (found, w).
            case f of
              ReorderF r \<Rightarrow>
                if ro_op r = op
                then (Some i, set_fault path i (ReorderF (r\<lparr>ro_counter := ro_counter r + 1\<rparr>)) w)
                else (found, w)
            | _ \<Rightarrow> (found, w)) (List.enumerate 0 v) (None, w))"

definition reorder_fault_at :: "string \<Rightarrow> nat \<Rightarrow> ('e, 'd) world \<Rightarrow> reorder_f res" where
  "reorder_fault_at path i w =
     (case fmlookup (ffaults w) path of
        None \<Rightarrow> Inl NullDeref
      | Some v \<Rightarrow> if i < length v then (case v ! i of ReorderF r \<Rightarrow> Inr r | _ \<Rightarrow> Inl NullDeref)
                  else Inl NullDeref)"

text \<open>\<open>open (path, O_CREAT | O_WRONLY, 0666)\<close>, \<open>pwrite\<close>, \<open>close\<close>.\<close>

definition persist_bytes ::
  "('e, 'd) env \<Rightarrow> string \<Rightarrow> byte list \<Rightarrow> int \<Rightarrow> ('e, 'd) world \<Rightarrow> int \<times> ('e, 'd) world" where
  "persist_bytes ev path bs offset w =
     (let (fd, w) = syscall (os_open (eos ev) path (O_CREAT + O_WRONLY) 438) w;
          (pw, w) = syscall (os_pwrite (eos ev) fd bs offset) w
      in (c_int pw, w\<lparr>host_state := os_close (eos ev) fd (host_state w)\<rparr>))"

text \<open>
  The first write of the sequence is kept back until a second one follows. When the sequence is
  the one to tear, the kept write is persisted; if it is the only one to persist, the operation
  returns from here (the boolean), with the kept write still there.
\<close>

definition persist_pending ::
  "('e, 'd) env \<Rightarrow> string \<Rightarrow> reorder_f \<Rightarrow> ('e, 'd) world \<Rightarrow> ('e, 'd, bool) outcome" where
  "persist_pending ev path r w =
     (case pending_write w of
        None \<Rightarrow> Inr (False, w)
      | Some p \<Rightarrow>
          if ro_group_counter r = ro_occurrence r then
            (let (pw, w) = persist_bytes ev (wr_path p) (wr_buf p) (wr_offset p) w in
             if u64 pw = wr_size p \<and> length (ro_persist r) = 1 then
               bnd (add_crash_fault ev ''after'' ''write'' path ''none'' w) (\<lambda>(_, w).
               Inr (True, w))
             else Inr (False, w\<lparr>pending_write := None\<rparr>))
          else Inr (False, w\<lparr>pending_write := None\<rparr>))"

definition persist_write ::
  "('e, 'd) env \<Rightarrow> string \<Rightarrow> byte list \<Rightarrow> int \<Rightarrow> int \<Rightarrow> ('e, 'd) world \<Rightarrow> ('e, 'd, bool) outcome"
  where
  "persist_write ev path buf sz offset w =
     (let (found, w) = get_and_update_reorder_fault path ''write'' w in
      case found of
        None \<Rightarrow> Inr (False, w)
      | Some i \<Rightarrow>
          bnd (lift (reorder_fault_at path i w)) (\<lambda>r.
          let (r, w) =
                (if ro_counter r = 2 then
                   (let r = r\<lparr>ro_group_counter := ro_group_counter r + 1\<rparr>
                    in (r, set_fault path i (ReorderF r)
                             (w\<lparr>injecting_fault := injecting_fault w @ [path]\<rparr>)))
                 else (r, w))
          in bnd (persist_pending ev path r w) (\<lambda>(returned, w).
             if returned then Inr (False, w)
             else if ro_counter r \<notin> set (ro_persist r) then Inr (False, w)
             else if ro_counter r = 1 then
               bnd (lift (new_Write path buf sz offset)) (\<lambda>p.
               Inr (False, w\<lparr>pending_write := Some p\<rparr>))
             else if ro_group_counter r = ro_occurrence r then
               bnd (lift (mem_read buf 0 sz)) (\<lambda>bs.
               let (pw, w) = persist_bytes ev path bs offset w in
               if u64 pw = sz \<and> last (ro_persist r) = ro_counter r then
                 bnd (add_crash_fault ev ''after'' ''write'' path ''none'' w) (\<lambda>(_, w).
                 Inr (True, w))
               else Inr (False, w))
             else Inr (False, w))))"

section \<open>Torn writes\<close>

text \<open>
  The parts of the write that reach the host: index in the buffer, length, offset in the file.
  All three are \<open>int\<close>, and so are the two sums of \<open>parts_bytes\<close>, of which the whole one is
  compared with a \<open>size_t\<close>. \<open>None\<close> is the case in which the parts do not add up to the size of
  the write and nothing is persisted.
\<close>

definition split_parts_bytes ::
  "split_write_f \<Rightarrow> int \<Rightarrow> int \<Rightarrow> int \<Rightarrow> (int \<times> int \<times> int) list option \<Rightarrow>
   (int \<times> int \<times> int) list option res" where
  "split_parts_bytes f sz offset p acc =
     (case acc of
        None \<Rightarrow> Inr None
      | Some info \<Rightarrow>
          if u64 (c_int (sum_list (sw_parts_bytes f))) \<noteq> sz then Inr None
          else
            bnd (require (0 < p \<and> p \<le> int (length (sw_parts_bytes f))) BadAccess) (\<lambda>_.
            let buf_i = c_int (sum_list (take (nat (p - 1)) (sw_parts_bytes f)))
            in Inr (Some (info @ [(buf_i, sw_parts_bytes f ! nat (p - 1), c_int (offset + buf_i))]))))"

definition split_parts_equal ::
  "split_write_f \<Rightarrow> int \<Rightarrow> int \<Rightarrow> (int \<times> int \<times> int) list res" where
  "split_parts_equal f sz offset =
     bnd (require (sw_parts f \<noteq> 0) DivByZero) (\<lambda>_.
     let size_to_persist = sz div u64 (sw_parts f);
         extra_size_to_persist = sz mod u64 (sw_parts f)
     in Inr (map (\<lambda>(p_i, p).
               (c_int ((p - 1) * size_to_persist),
                c_int (if extra_size_to_persist > 0 \<and> p_i = length (sw_persist f) - 1
                       then size_to_persist + extra_size_to_persist else size_to_persist),
                c_int (offset + (p - 1) * size_to_persist)))
             (List.enumerate 0 (sw_persist f))))"

definition split_persist_info ::
  "split_write_f \<Rightarrow> int \<Rightarrow> int \<Rightarrow> (int \<times> int \<times> int) list option res" where
  "split_persist_info f sz offset =
     (if sw_parts f = - 1
      then foldE (split_parts_bytes f sz offset) (sw_persist f) (Some [])
      else bnd (split_parts_equal f sz offset) (\<lambda>info. Inr (Some info)))"

text \<open>The loop that writes the parts; it stops (the boolean) at the first short write.\<close>

definition split_pwrite ::
  "('e, 'd) env \<Rightarrow> int \<Rightarrow> byte list \<Rightarrow> int \<times> int \<times> int \<Rightarrow> bool \<times> ('e, 'd) world \<Rightarrow>
   'd stop + (bool \<times> bool \<times> ('e, 'd) world)" where
  "split_pwrite ev fd buf = (\<lambda>(buf_i, len, off) (_, w).
     bnd (lift (mem_read buf buf_i len)) (\<lambda>bs.
     let (pw, w) = syscall (os_pwrite (eos ev) fd bs off) w
     in Inr (c_int pw \<noteq> len, c_int pw \<noteq> len, w)))"

definition split_write_fault ::
  "('e, 'd) env \<Rightarrow> string \<Rightarrow> nat \<Rightarrow> split_write_f \<Rightarrow> byte list \<Rightarrow> int \<Rightarrow> int \<Rightarrow>
   ('e, 'd) world \<Rightarrow> ('e, 'd, bool) outcome" where
  "split_write_fault ev path i f buf sz offset w =
     (let f = f\<lparr>sw_counter := sw_counter f + 1\<rparr>;
          w = set_fault path i (SplitWriteF f) (w\<lparr>injecting_fault := injecting_fault w @ [path]\<rparr>)
      in if sw_counter f = sw_occurrence f then
           (let (fd, w) = syscall (os_open (eos ev) path (O_CREAT + O_WRONLY) 438) w in
            bnd (lift (split_persist_info f sz offset)) (\<lambda>persist_info.
            case persist_info of
              None \<Rightarrow> Inr (False, w)
            | Some info \<Rightarrow>
                bnd (loopE (split_pwrite ev fd buf) info (False, w)) (\<lambda>(short, w).
                if short then Inr (False, w)
                else bnd (add_crash_fault ev ''after'' ''write'' path ''none'' w) (\<lambda>(_, w).
                     Inr (True, w)))))
         else Inr (False, w))"

text \<open>The search for the first torn-op fault of the path; the loop ends after it.\<close>

fun first_split_fault :: "(nat \<times> fault) list \<Rightarrow> (nat \<times> split_write_f) option" where
  "first_split_fault [] = None"
| "first_split_fault ((i, SplitWriteF f) # rest) = Some (i, f)"
| "first_split_fault (_ # rest) = first_split_fault rest"

definition split_write ::
  "('e, 'd) env \<Rightarrow> string \<Rightarrow> byte list \<Rightarrow> int \<Rightarrow> int \<Rightarrow> ('e, 'd) world \<Rightarrow> ('e, 'd, bool) outcome"
  where
  "split_write ev path buf sz offset w =
     (case fmlookup (ffaults w) path of
        None \<Rightarrow> Inr (False, w)
      | Some v_faults \<Rightarrow>
          (case first_split_fault (List.enumerate 0 v_faults) of
             None \<Rightarrow> Inr (False, w)
           | Some (i, f) \<Rightarrow> split_write_fault ev path i f buf sz offset w))"

end
