(* ===== verification/Lazyfs.thy ===== *)
theory Lazyfs
  imports Torn
begin

text \<open>
  The operations of the file system (\<open>lazyfs/src/lazyfs.cpp\<close>, lines 688 to 2172): attributes,
  opening and creating, writing, reading, synchronising, truncating. Each handler is one
  definition, with the loops over blocks as definitions of their own; \<open>fi\<close> is \<open>None\<close> for the
  null pointer.

  Offsets are non-negative, as the kernel passes them. A buffer handed to \<open>pread\<close> receives the
  bytes read at its start.
\<close>

record fuse_file_info =
  fh :: int
  fi_flags :: int
  direct_io :: bool

definition has_flag :: "int \<Rightarrow> int \<Rightarrow> bool" where
  "has_flag flags f \<longleftrightarrow> flags div f mod 2 = 1"

definition errno_of :: "('e, 'd) env \<Rightarrow> ('e, 'd) world \<Rightarrow> int" where
  "errno_of ev w = - os_errno (eos ev) (host_state w)"

definition now_of :: "('e, 'd) env \<Rightarrow> ('e, 'd) world \<Rightarrow> timespec" where
  "now_of ev w = os_now (eos ev) (host_state w)"

section \<open>Cache calls on the world\<close>

definition fs_lockItemCheckExists :: "string \<Rightarrow> ('e, 'd) world \<Rightarrow> ('e, 'd, bool) outcome" where
  "fs_lockItemCheckExists inode = on_cache (lockItemCheckExists inode)"

definition fs_unlockItem :: "string \<Rightarrow> ('e, 'd) world \<Rightarrow> ('e, 'd, unit) outcome" where
  "fs_unlockItem inode = on_cache (\<lambda>C. bnd (unlockItem inode C) (\<lambda>C. Inr ((), C)))"

definition fs_put_data_blocks ::
  "('e, 'd) env \<Rightarrow> string \<Rightarrow> (int, put_request) fmap \<Rightarrow> allocate_operation_type \<Rightarrow>
   ('e, 'd) world \<Rightarrow> ('e, 'd, (int, bool) fmap) outcome" where
  "fs_put_data_blocks ev inode blocks op =
     on_cache_host (put_data_blocks (eengine ev) inode blocks op)"

definition fs_update_metadata ::
  "string \<Rightarrow> metadata \<Rightarrow> string list \<Rightarrow> ('e, 'd) world \<Rightarrow> ('e, 'd) world" where
  "fs_update_metadata inode meta values w =
     w\<lparr>FSCache := snd (update_content_metadata inode meta values (FSCache w))\<rparr>"

text \<open>Updating the metadata of an item under its mutex, when there is such an item.\<close>

definition fs_locked_update ::
  "string \<Rightarrow> metadata \<Rightarrow> string list \<Rightarrow> ('e, 'd) world \<Rightarrow> ('e, 'd, unit) outcome" where
  "fs_locked_update inode meta values w =
     bnd (fs_lockItemCheckExists inode w) (\<lambda>(locked, w).
     if locked then fs_unlockItem inode (fs_update_metadata inode meta values w)
     else Inr ((), w))"

section \<open>Attributes\<close>

definition stat_metadata :: "stat \<Rightarrow> metadata" where
  "stat_metadata st =
     \<lparr>nlinks = st_nlink st, meta_size = st_size st, atim = st_atim st, mtim = st_mtim st,
      ctim = st_ctim st\<rparr>"

definition cached_stat :: "config \<Rightarrow> metadata \<Rightarrow> stat \<Rightarrow> stat" where
  "cached_stat c meta st =
     (let get_size = meta_size meta;
          blocks_ioblksize = (if get_size > 0 then (get_size - 1) div IO_BLOCK_SIZE c + 1 else 0);
          blocks = blocks_ioblksize * IO_BLOCK_SIZE c div DISK_SECTOR_SIZE c
      in st\<lparr>st_size := get_size, st_blocks := blocks, st_atim := atim meta, st_ctim := ctim meta,
           st_mtim := mtim meta, st_nlink := nlinks meta\<rparr>)"

definition getattr_body ::
  "('e, 'd) env \<Rightarrow> string \<Rightarrow> ('e, 'd) world \<Rightarrow> ('e, 'd, int \<times> stat) outcome" where
  "getattr_body ev path w =
     (let (res, stbuf) = os_lstat (eos ev) path (host_state w) in
      if res = - 1 then Inr ((errno_of ev w, stbuf), w)
      else if \<not> st_reg stbuf then Inr ((0, stbuf), w)
      else
        (let mapped = get_original_inode (FSCache w) path;
             inode = (if mapped = [] then to_string (st_ino stbuf) else mapped);
             w = (if mapped = []
                  then w\<lparr>FSCache := insert_inode_mapping path inode False (FSCache w)\<rparr> else w)
         in bnd (fs_lockItemCheckExists inode w) (\<lambda>(locked, w).
            if \<not> locked then
              bnd (fs_put_data_blocks ev inode fmempty OP_PASSTHROUGH w) (\<lambda>(_, w).
              bnd (fs_locked_update inode (stat_metadata stbuf)
                     [''size'', ''atime'', ''ctime'', ''mtime'', ''nlinks''] w) (\<lambda>(_, w).
              Inr ((0, stbuf), w)))
            else
              (let stbuf = (case get_content_metadata (FSCache w) inode of
                              None \<Rightarrow> stbuf
                            | Some meta \<Rightarrow> cached_stat (FSConfig ev) meta stbuf)
               in bnd (fs_unlockItem inode w) (\<lambda>(_, w). Inr ((0, stbuf), w))))))"

definition lfs_getattr ::
  "('e, 'd) env \<Rightarrow> string \<Rightarrow> ('e, 'd) world \<Rightarrow> ('e, 'd, int \<times> stat) outcome" where
  "lfs_getattr ev path = with_shared_lock (getattr_body ev path)"

text \<open>The loop of \<open>lfs_readdir\<close> over the entries, until the kernel's buffer is full.\<close>

definition lfs_readdir ::
  "('e, 'd) env \<Rightarrow> string \<Rightarrow> ('b \<Rightarrow> string \<Rightarrow> bool \<times> 'b) \<Rightarrow> 'b \<Rightarrow> ('e, 'd) world \<Rightarrow>
   ('e, 'd, int \<times> 'b) outcome" where
  "lfs_readdir ev path filler buf = with_shared_lock (\<lambda>w.
     case os_readdir (eos ev) path (host_state w) of
       None \<Rightarrow> Inr ((errno_of ev w, buf), w)
     | Some entries \<Rightarrow>
         bnd (loopE (\<lambda>(name, _) buf. Inr (filler buf name)) entries buf) (\<lambda>buf.
         Inr ((0, buf), w)))"

section \<open>Writing\<close>

text \<open>
  The bytes of a request that fall in one block: from \<open>blk_readable_from\<close> to
  \<open>blk_readable_to\<close>. \<open>offset + size - 1\<close> is unsigned. The last branch of the source,
  a second test for the last block, is unreachable.
\<close>

definition blk_high_of :: "int \<Rightarrow> int \<Rightarrow> int \<Rightarrow> int" where
  "blk_high_of bs offset sz = s64 (u64 (offset + sz - 1) div bs)"

definition block_range :: "int \<Rightarrow> int \<Rightarrow> int \<Rightarrow> int \<Rightarrow> int \<times> int" where
  "block_range bs offset sz blk =
     (let blk_low = offset div bs;
          blk_high = blk_high_of bs offset sz;
          last = u64 (offset + sz - 1);
          blk_readable_from = (if blk = blk_low then offset mod bs else 0)
      in (blk_readable_from,
          if blk = blk_high then last mod bs
          else if blk = blk_low \<and> last < bs then last
          else bs - 1))"

text \<open>
  What is cached for a block that is not cached yet: the new bytes alone when nothing had to be
  or could be read, otherwise the block as read, with the new bytes laid over it and the gap
  between the bytes read and the new ones filled with zeros.
\<close>

definition merge_block ::
  "byte list \<Rightarrow> byte list \<Rightarrow> byte list \<Rightarrow> int \<Rightarrow> int \<Rightarrow> (put_request \<times> byte list) res" where
  "merge_block block_caching_buffer read_bytes new_bytes from to =
     (let pread_res = int (length read_bytes) in
      bnd (mem_write block_caching_buffer 0 read_bytes) (\<lambda>b.
      bnd (mem_write b from new_bytes) (\<lambda>b.
      bnd (if from - pread_res > 0 then mem_set b pread_res 0 (from - pread_res) else Inr b) (\<lambda>b.
      let cache_wr_sz = (if pread_res > to + 1 then pread_res else to + 1)
      in Inr ((b, cache_wr_sz, 0, cache_wr_sz - 1), b)))))"

definition single_put :: "int \<Rightarrow> put_request \<Rightarrow> (int, put_request) fmap" where
  "single_put blk req = fmupd blk req fmempty"

definition was_put :: "int \<Rightarrow> (int, bool) fmap \<Rightarrow> bool" where
  "was_put blk put_res \<longleftrightarrow> fmlookup put_res blk = Some True"

text \<open>What stays the same during the loop over the blocks of one write.\<close>

record write_ctx =
  wc_inode :: string
  wc_buf :: "byte list"
  wc_size :: int
  wc_offset :: int
  wc_fd :: int
  wc_fd_caching :: int
  wc_file_size :: int
  wc_cache_full :: bool

text \<open>What the loop changes: the two counters and the buffer for reading blocks.\<close>

record write_loop =
  wl_data_allocated :: int
  wl_data_buffer_iterator :: int
  wl_block_caching_buffer :: "byte list"

definition store_block ::
  "('e, 'd) env \<Rightarrow> write_ctx \<Rightarrow> int \<Rightarrow> byte list \<times> int \<times> int \<times> int \<Rightarrow> write_loop \<times> ('e, 'd) world \<Rightarrow>
   'd stop + (bool \<times> write_loop \<times> ('e, 'd) world)" where
  "store_block ev x blk = (\<lambda>(cache_buf, cache_wr_sz, cache_from, cache_to) (l, w).
     let bs = c_int (IO_BLOCK_SIZE (FSConfig ev));
         l' = l\<lparr>wl_data_buffer_iterator := wl_data_allocated l\<rparr>
     in bnd (if wc_cache_full x then Inr (fmempty, w)
             else fs_put_data_blocks ev (wc_inode x)
                    (single_put (c_int blk) (cache_buf, cache_wr_sz, cache_from, cache_to)) OP_WRITE w)
          (\<lambda>(put_res, w).
        if wc_cache_full x \<or> \<not> was_put (c_int blk) put_res then
          bnd (lift (mem_read cache_buf 0 cache_wr_sz)) (\<lambda>bs'.
          let (pwrite_res, w) = syscall (os_pwrite (eos ev) (wc_fd x) bs' (blk * bs + cache_from)) w
          in if c_int pwrite_res \<noteq> cache_wr_sz then Inr (True, l, w) else Inr (False, l', w))
        else Inr (False, l', w)))"

definition write_uncached_block ::
  "('e, 'd) env \<Rightarrow> write_ctx \<Rightarrow> int \<Rightarrow> write_loop \<times> ('e, 'd) world \<Rightarrow>
   'd stop + (bool \<times> write_loop \<times> ('e, 'd) world)" where
  "write_uncached_block ev x blk = (\<lambda>(l, w).
     (let bs = c_int (IO_BLOCK_SIZE (FSConfig ev));
          (from, to) = block_range bs (wc_offset x) (wc_size x) blk;
          needs_pread = (wc_file_size x > blk * bs \<and> \<not> wc_cache_full x)
      in if wc_fd_caching x < 0 then Inr (True, l, w)
         else
           (let (pread_res, read_bytes) =
                  (if needs_pread
                   then os_pread (eos ev) (wc_fd_caching x) bs (blk * bs) (host_state w)
                   else (0, []))
            in if pread_res < 0 then Inr (True, l, w)
               else
                 bnd (lift (mem_read (wc_buf x) (wl_data_buffer_iterator l) (to - from + 1))) (\<lambda>new_bytes.
                 bnd (lift (if \<not> needs_pread \<or> pread_res = 0
                            then Inr ((new_bytes, to - from + 1, from, to), wl_block_caching_buffer l)
                            else merge_block (wl_block_caching_buffer l) read_bytes new_bytes from to))
                   (\<lambda>(request, bcb).
                 store_block ev x blk request
                   (l\<lparr>wl_data_allocated := wl_data_allocated l + (to - from + 1),
                      wl_block_caching_buffer := bcb\<rparr>, w))))))"

definition write_cached_block ::
  "('e, 'd) env \<Rightarrow> write_ctx \<Rightarrow> int \<Rightarrow> write_loop \<times> ('e, 'd) world \<Rightarrow>
   'd stop + (bool \<times> write_loop \<times> ('e, 'd) world)" where
  "write_cached_block ev x blk = (\<lambda>(l, w).
     (let bs = c_int (IO_BLOCK_SIZE (FSConfig ev));
          (from, to) = block_range bs (wc_offset x) (wc_size x) blk;
          allocated = wl_data_allocated l + (to - from + 1);
          l' = l\<lparr>wl_data_allocated := allocated\<rparr>
      in bnd (lift (mem_read (wc_buf x) (wl_data_buffer_iterator l) (to - from + 1))) (\<lambda>new_bytes.
         bnd (fs_put_data_blocks ev (wc_inode x)
                (single_put (c_int blk) (new_bytes, to - from + 1, from, to)) OP_WRITE w)
           (\<lambda>(put_res, w).
         if \<not> was_put (c_int blk) put_res then
           (let (pwrite_res, w) =
                  syscall (os_pwrite (eos ev) (wc_fd x) new_bytes (blk * bs + from)) w
            in if c_int pwrite_res \<noteq> to - from + 1 then Inr (True, l', w)
               else Inr (False, l'\<lparr>wl_data_buffer_iterator := allocated\<rparr>, w))
         else Inr (False, l'\<lparr>wl_data_buffer_iterator := allocated\<rparr>, w)))))"

definition write_block ::
  "('e, 'd) env \<Rightarrow> write_ctx \<Rightarrow> int \<Rightarrow> write_loop \<times> ('e, 'd) world \<Rightarrow>
   'd stop + (bool \<times> write_loop \<times> ('e, 'd) world)" where
  "write_block ev x blk = (\<lambda>(l, w).
     if cache_is_block_cached (eengine ev) (FSCache w) (wc_inode x) (c_int blk)
     then write_cached_block ev x blk (l, w)
     else write_uncached_block ev x blk (l, w))"

text \<open>The metadata of a written file: the size grows to the end of the write.\<close>

definition write_metadata :: "int \<Rightarrow> int \<Rightarrow> int \<Rightarrow> timespec \<Rightarrow> metadata \<times> string list" where
  "write_metadata offset sz FILE_SIZE_BEFORE modify_time =
     (let until = s64 (u64 (offset + sz));
          new_size = (if until > FILE_SIZE_BEFORE then until else FILE_SIZE_BEFORE)
      in (Metadata\<lparr>meta_size := new_size, mtim := modify_time, ctim := modify_time\<rparr>,
          [''size'', ''mtime''] @ (if new_size > FILE_SIZE_BEFORE then [''ctime''] else [])))"

definition write_through_cache ::
  "('e, 'd) env \<Rightarrow> string \<Rightarrow> string \<Rightarrow> byte list \<Rightarrow> int \<Rightarrow> int \<Rightarrow> int \<Rightarrow> int \<Rightarrow>
   ('e, 'd) world \<Rightarrow> ('e, 'd, unit) outcome" where
  "write_through_cache ev path inode buf sz offset fd FILE_SIZE_BEFORE w =
     (let bs = c_int (IO_BLOCK_SIZE (FSConfig ev)) in
      bnd (lift (require (bs \<noteq> 0) DivByZero)) (\<lambda>_.
      let (fd_caching, w) = syscall (os_open (eos ev) path O_RDONLY 0) w;
          cache_full = (get_cache_usage (eengine ev) (FSCache w) = 100
                        \<and> \<not> APPLY_LRU_EVICTION (FSConfig ev));
          x = \<lparr>wc_inode = inode, wc_buf = buf, wc_size = sz, wc_offset = offset, wc_fd = fd,
               wc_fd_caching = fd_caching, wc_file_size = FILE_SIZE_BEFORE,
               wc_cache_full = cache_full\<rparr>;
          l = \<lparr>wl_data_allocated = 0, wl_data_buffer_iterator = 0,
               wl_block_caching_buffer = replicate (nat bs) 0\<rparr>
      in bnd (loopE (write_block ev x) [offset div bs .. blk_high_of bs offset sz] (l, w)) (\<lambda>(_, w).
         let (meta, values) = write_metadata offset sz FILE_SIZE_BEFORE (now_of ev w)
         in bnd (fs_locked_update inode meta values w) (\<lambda>(_, w).
            Inr ((), w\<lparr>host_state := os_close (eos ev) fd_caching (host_state w)\<rparr>)))))"

text \<open>
  The size the file has in the cache, or on the host when it is not cached. The second mention
  of the metadata in the source reads the same item again.
\<close>

definition file_size_before ::
  "string \<Rightarrow> stat \<Rightarrow> ('e, 'd) world \<Rightarrow> ('e, 'd, int) outcome" where
  "file_size_before inode stats w =
     bnd (fs_lockItemCheckExists inode w) (\<lambda>(locked_this, w).
     if \<not> locked_this then Inr (st_size stats, w)
     else
       (let sz = (case get_content_metadata (FSCache w) inode of None \<Rightarrow> 0 | Some m \<Rightarrow> meta_size m)
        in bnd (fs_unlockItem inode w) (\<lambda>(_, w). Inr (sz, w))))"

text \<open>The faults that may be injected after the data has been cached.\<close>

definition write_faults ::
  "('e, 'd) env \<Rightarrow> string \<Rightarrow> byte list \<Rightarrow> int \<Rightarrow> int \<Rightarrow> ('e, 'd) world \<Rightarrow> ('e, 'd, bool) outcome"
  where
  "write_faults ev path buf sz offset w =
     bnd (persist_write ev path buf sz offset w) (\<lambda>(crash_added, w).
     if crash_added then Inr (True, w) else split_write ev path buf sz offset w)"

text \<open>
  The body of \<open>lfs_write\<close> with the call it makes of itself, to fill the gap of a sparse write
  with zeros, as an argument. The result variable is overwritten with \<open>size\<close> whatever
  happened to the data.
\<close>

definition write_body ::
  "('e, 'd) env \<Rightarrow>
   (string \<Rightarrow> byte list \<Rightarrow> int \<Rightarrow> int \<Rightarrow> ('e, 'd) world \<Rightarrow> ('e, 'd, int) outcome) \<Rightarrow>
   string \<Rightarrow> byte list \<Rightarrow> int \<Rightarrow> int \<Rightarrow> fuse_file_info option \<Rightarrow> ('e, 'd) world \<Rightarrow>
   ('e, 'd, int) outcome" where
  "write_body ev fill path buf sz offset fi w =
     (let (fd, w) = (case fi of None \<Rightarrow> syscall (os_open (eos ev) path O_WRONLY 0) w
                               | Some f \<Rightarrow> (fh f, w))
      in if fd = - 1 then Inr (errno_of ev w, w)
         else
           bnd (lfs_getattr ev path w) (\<lambda>((_, stats), w).
           let inode = get_original_inode (FSCache w) path in
           bnd (if (case fi of None \<Rightarrow> False | Some f \<Rightarrow> direct_io f) then
                  bnd (lift (mem_read buf 0 sz)) (\<lambda>bs.
                  let (_, w) = syscall (os_pwrite (eos ev) fd bs offset) w in Inr ((), w))
                else
                  bnd (file_size_before inode stats w) (\<lambda>(FILE_SIZE_BEFORE, w).
                  bnd (if fi \<noteq> None \<and> FILE_SIZE_BEFORE < offset then
                         (let size_to_fill = offset - max FILE_SIZE_BEFORE 0 in
                          if size_to_fill > 0
                          then fill path (replicate (nat size_to_fill) 0) size_to_fill
                                 FILE_SIZE_BEFORE w
                          else Inr (0, w))
                       else Inr (0, w)) (\<lambda>(_, w).
                  write_through_cache ev path inode buf sz offset fd FILE_SIZE_BEFORE w))) (\<lambda>(_, w).
           bnd (write_faults ev path buf sz offset w) (\<lambda>(_, w).
           let res = (if c_int sz = - 1 then errno_of ev w else c_int sz);
               w = (if fi = None then w\<lparr>host_state := os_close (eos ev) fd (host_state w)\<rparr> else w)
           in bnd (triggers ev ''write'' ''after'' path '''' w) (\<lambda>(_, w).
              Inr (res, w))))))"

definition lfs_write_fill ::
  "('e, 'd) env \<Rightarrow> string \<Rightarrow> byte list \<Rightarrow> int \<Rightarrow> int \<Rightarrow> ('e, 'd) world \<Rightarrow> ('e, 'd, int) outcome"
  where
  "lfs_write_fill ev path buf sz offset w =
     bnd (triggers ev ''write'' ''before'' path '''' w) (\<lambda>(_, w).
     with_shared_lock (write_body ev (\<lambda>_ _ _ _ w. Inr (0, w)) path buf sz offset None) w)"

definition lfs_write ::
  "('e, 'd) env \<Rightarrow> string \<Rightarrow> byte list \<Rightarrow> int \<Rightarrow> int \<Rightarrow> fuse_file_info option \<Rightarrow>
   ('e, 'd) world \<Rightarrow> ('e, 'd, int) outcome" where
  "lfs_write ev path buf sz offset fi w =
     bnd (triggers ev ''write'' ''before'' path '''' w) (\<lambda>(_, w).
     with_shared_lock (write_body ev (lfs_write_fill ev) path buf sz offset fi) w)"

end
