(* ===== verification/Handlers.thy ===== *)
theory Handlers
  imports Lazyfs
begin

text \<open>
  The remaining handlers of \<open>lazyfs/src/lazyfs.cpp\<close>: reading, opening, synchronising,
  renaming, truncating, links, and the ones that only pass a call on to the host.
\<close>

section \<open>Reading\<close>

record read_ctx =
  rc_inode :: string
  rc_size :: int
  rc_offset :: int
  rc_fd :: int
  rc_meta_size :: int

record read_loop =
  rl_buf :: "byte list"                \<comment> \<open>the caller's buffer\<close>
  rl_BUF_ITERATOR :: int
  rl_BYTES_LEFT :: int
  rl_last_pread_chunk_size :: int
  rl_last_pread_chunk_offset :: int
  rl_data_allocated :: int
  rl_read_buffer :: "byte list"

text \<open>The read that was postponed because its blocks are not cached.\<close>

definition flush_pread ::
  "('e, 'd) env \<Rightarrow> int \<Rightarrow> read_loop \<Rightarrow> 'd \<Rightarrow> read_loop res" where
  "flush_pread ev fd l d =
     (let (pread_res, bs) = os_pread (eos ev) fd (rl_last_pread_chunk_size l)
                              (rl_last_pread_chunk_offset l) d
      in bnd (mem_write (rl_buf l) (rl_BUF_ITERATOR l) bs) (\<lambda>buf.
         Inr (l\<lparr>rl_buf := buf, rl_BUF_ITERATOR := rl_BUF_ITERATOR l + c_int pread_res,
                rl_BYTES_LEFT := rl_BYTES_LEFT l - c_int pread_res\<rparr>)))"

text \<open>Copying what was found in the cache to the caller's buffer.\<close>

definition copy_cached_block ::
  "int \<Rightarrow> int \<Rightarrow> int \<Rightarrow> int \<Rightarrow> int \<Rightarrow> bool \<Rightarrow> byte list \<Rightarrow> read_loop \<Rightarrow> read_loop res" where
  "copy_cached_block bs blk from to max_readable_offset is_last found l =
     bnd (mem_write (rl_read_buffer l) 0 found) (\<lambda>rb.
     let read_to = min max_readable_offset to;
         n = read_to - from + 1
     in bnd (mem_read rb from (u64 n)) (\<lambda>bytes.
        bnd (mem_write (rl_buf l) (rl_BUF_ITERATOR l) bytes) (\<lambda>buf.
        let it = rl_BUF_ITERATOR l + n in
        bnd (if read_to < bs - 1 \<and> \<not> is_last
             then mem_set buf (it + read_to) 0 (u64 (bs - read_to)) else Inr buf) (\<lambda>buf.
        Inr (l\<lparr>rl_buf := buf, rl_BUF_ITERATOR := it, rl_BYTES_LEFT := rl_BYTES_LEFT l - n,
               rl_data_allocated := rl_data_allocated l + n, rl_read_buffer := rb\<rparr>)))))"

definition read_cached_block ::
  "('e, 'd) env \<Rightarrow> read_ctx \<Rightarrow> int \<Rightarrow> read_loop \<times> ('e, 'd) world \<Rightarrow>
   'd stop + (bool \<times> read_loop \<times> ('e, 'd) world)" where
  "read_cached_block ev x blk = (\<lambda>(l, w).
     (let bs = c_int (IO_BLOCK_SIZE (FSConfig ev));
          blk_high = blk_high_of bs (rc_offset x) (rc_size x);
          (from, to) = block_range bs (rc_offset x) (rc_size x) blk
      in bnd (lift (if rl_last_pread_chunk_size l > 0
                    then bnd (flush_pread ev (rc_fd x) l (host_state w)) (\<lambda>l.
                         Inr (l\<lparr>rl_last_pread_chunk_size := 0,
                                rl_last_pread_chunk_offset := (blk + 1) * bs\<rparr>))
                    else if blk < blk_high
                    then Inr (l\<lparr>rl_last_pread_chunk_offset := (blk + 1) * bs\<rparr>)
                    else Inr l)) (\<lambda>l.
         if rl_BYTES_LEFT l \<le> 0 then Inr (True, l, w)
         else
           bnd (on_cache (get_data_blocks (eengine ev) (FSConfig ev) (rc_inode x) {|c_int blk|}) w)
             (\<lambda>(found, w).
           case fmlookup found (c_int blk) of
             Some (Some bytes, _, max_readable_offset) \<Rightarrow>
               bnd (lift (copy_cached_block bs blk from to max_readable_offset (\<not> blk < blk_high)
                            bytes l)) (\<lambda>l. Inr (False, l, w))
           | _ \<Rightarrow> Inr (False, l, w)))))"

definition read_uncached_block ::
  "('e, 'd) env \<Rightarrow> read_ctx \<Rightarrow> int \<Rightarrow> read_loop \<Rightarrow> bool \<times> read_loop" where
  "read_uncached_block ev x blk l =
     (let bs = c_int (IO_BLOCK_SIZE (FSConfig ev));
          (from, to) = block_range bs (rc_offset x) (rc_size x) blk;
          needs_pread = rc_meta_size x > blk * bs
      in if rc_fd x > 0 then
           (False, l\<lparr>rl_data_allocated := rl_data_allocated l + (to - from + 1),
                     rl_last_pread_chunk_size :=
                       (if needs_pread then rl_last_pread_chunk_size l + (to - from + 1)
                        else rl_last_pread_chunk_size l)\<rparr>)
         else (True, l))"

definition read_block ::
  "('e, 'd) env \<Rightarrow> read_ctx \<Rightarrow> int \<Rightarrow> read_loop \<times> ('e, 'd) world \<Rightarrow>
   'd stop + (bool \<times> read_loop \<times> ('e, 'd) world)" where
  "read_block ev x blk = (\<lambda>(l, w).
     if blk * c_int (IO_BLOCK_SIZE (FSConfig ev)) > rc_meta_size x then Inr (True, l, w)
     else if cache_is_block_cached (eengine ev) (FSCache w) (rc_inode x) (c_int blk)
     then read_cached_block ev x blk (l, w)
     else (let (brk, l) = read_uncached_block ev x blk l in Inr (brk, l, w)))"

text \<open>The size of the file according to the cache, which learns it from the host if need be.\<close>

definition read_file_size :: "('e, 'd) env \<Rightarrow> string \<Rightarrow> string \<Rightarrow> ('e, 'd) world \<Rightarrow> ('e, 'd, int) outcome"
  where
  "read_file_size ev path inode w =
     (if \<not> has_content_cached (FSCache w) inode then
        bnd (fs_put_data_blocks ev inode fmempty OP_PASSTHROUGH w) (\<lambda>(_, w).
        bnd (fs_lockItemCheckExists inode w) (\<lambda>(locked, w).
        let (res, stats) = os_stat (eos ev) path (host_state w);
            meta = Metadata\<lparr>meta_size := (if res = 0 then st_size stats else 0),
                            atim := now_of ev w\<rparr>
        in if locked
           then bnd (fs_unlockItem inode (fs_update_metadata inode meta [''size'', ''atime''] w))
                  (\<lambda>(_, w). Inr (meta_size meta, w))
           else Inr (meta_size meta, w)))
      else
        bnd (fs_lockItemCheckExists inode w) (\<lambda>(locked, w).
        let sz = (case get_content_metadata (FSCache w) inode of None \<Rightarrow> 0 | Some m \<Rightarrow> meta_size m)
        in if locked then bnd (fs_unlockItem inode w) (\<lambda>(_, w). Inr (sz, w)) else Inr (0, w)))"

definition read_body ::
  "('e, 'd) env \<Rightarrow> string \<Rightarrow> byte list \<Rightarrow> int \<Rightarrow> int \<Rightarrow> fuse_file_info option \<Rightarrow> ('e, 'd) world \<Rightarrow>
   ('e, 'd, int \<times> byte list) outcome" where
  "read_body ev path buf sz offset fi w =
     (let bs = c_int (IO_BLOCK_SIZE (FSConfig ev));
          (fd, w) = (case fi of None \<Rightarrow> syscall (os_open (eos ev) path O_RDONLY 0) w
                              | Some f \<Rightarrow> (fh f, w))
      in if fd = - 1 then Inr ((errno_of ev w, buf), w)
         else
           bnd (lfs_getattr ev path w) (\<lambda>(_, w).
           let inode = get_original_inode (FSCache w) path in
           bnd (lift (require (bs \<noteq> 0) DivByZero)) (\<lambda>_.
           bnd (read_file_size ev path inode w) (\<lambda>(msize, w).
           if offset > msize - 1 then Inr ((0, buf), w)
           else
             (let x = \<lparr>rc_inode = inode, rc_size = sz, rc_offset = offset, rc_fd = fd,
                       rc_meta_size = msize\<rparr>;
                  l = \<lparr>rl_buf = buf, rl_BUF_ITERATOR = 0, rl_BYTES_LEFT = s64 sz,
                       rl_last_pread_chunk_size = 0, rl_last_pread_chunk_offset = offset,
                       rl_data_allocated = 0, rl_read_buffer = replicate (nat bs) 0\<rparr>
              in bnd (loopE (read_block ev x) [offset div bs .. blk_high_of bs offset sz] (l, w))
                   (\<lambda>(l, w).
                 bnd (lift (if rl_last_pread_chunk_size l > 0
                            then flush_pread ev fd l (host_state w) else Inr l)) (\<lambda>l.
                 let res = c_int (rl_BUF_ITERATOR l);
                     res = (if res = - 1 then errno_of ev w else res);
                     w = (if fi = None
                          then w\<lparr>host_state := os_close (eos ev) fd (host_state w)\<rparr> else w)
                 in bnd (triggers ev ''read'' ''after'' path '''' w) (\<lambda>(_, w).
                    Inr ((res, rl_buf l), w))))))))) "

definition lfs_read ::
  "('e, 'd) env \<Rightarrow> string \<Rightarrow> byte list \<Rightarrow> int \<Rightarrow> int \<Rightarrow> fuse_file_info option \<Rightarrow> ('e, 'd) world \<Rightarrow>
   ('e, 'd, int \<times> byte list) outcome" where
  "lfs_read ev path buf sz offset fi w =
     bnd (triggers ev ''read'' ''before'' path '''' w) (\<lambda>(_, w).
     with_shared_lock (read_body ev path buf sz offset fi) w)"

section \<open>Synchronising\<close>

definition fsync_body ::
  "('e, 'd) env \<Rightarrow> string \<Rightarrow> bool \<Rightarrow> fuse_file_info option \<Rightarrow> ('e, 'd) world \<Rightarrow>
   ('e, 'd, int) outcome" where
  "fsync_body ev path isdatasync fi w =
     bnd (lfs_getattr ev path w) (\<lambda>(_, w).
     let (_, w) = check_and_delete_pendingwrite path (restart_counter path ''write'' w);
         inode = get_original_inode (FSCache w) path
     in bnd (if has_content_cached (FSCache w) inode
             then on_cache_host (sync_owner (eengine ev) (eos ev) inode isdatasync path) w
             else
               bnd (lift (of_option NullDeref fi)) (\<lambda>f.
               Inr (syscall ((if isdatasync then os_fdatasync else os_fsync) (eos ev) (fh f)) w)))
          (\<lambda>(res, w).
        bnd (triggers ev ''fsync'' ''after'' path '''' w) (\<lambda>(_, w). Inr (res, w))))"

definition lfs_fsync ::
  "('e, 'd) env \<Rightarrow> string \<Rightarrow> bool \<Rightarrow> fuse_file_info option \<Rightarrow> ('e, 'd) world \<Rightarrow>
   ('e, 'd, int) outcome" where
  "lfs_fsync ev path isdatasync fi w =
     bnd (triggers ev ''fsync'' ''before'' path '''' w) (\<lambda>(_, w).
     with_shared_lock (fsync_body ev path isdatasync fi) w)"

section \<open>Truncating\<close>

text \<open>
  \<open>previous_metadata\<close> is a pointer to the metadata of a cached item, so it is the inode of
  that item and is read when it is used. The variable \<open>res\<close> is only assigned when the item
  was not cached; otherwise its value is the one of an uninitialised variable.
\<close>

definition deref_metadata :: "string \<Rightarrow> ('e, 'd) world \<Rightarrow> 'd stop + metadata" where
  "deref_metadata inode w = lift (of_option NullDeref (get_content_metadata (FSCache w) inode))"

definition host_truncate ::
  "('e, 'd) env \<Rightarrow> string \<Rightarrow> int \<Rightarrow> fuse_file_info option \<Rightarrow> ('e, 'd) world \<Rightarrow> int \<times> ('e, 'd) world"
  where
  "host_truncate ev path sz fi w =
     (case fi of
        Some f \<Rightarrow> syscall (os_ftruncate (eos ev) (fh f) sz) w
      | None \<Rightarrow> syscall (os_truncate (eos ev) path sz) w)"

text \<open>Finding the item: its inode, the value of \<open>res\<close>; \<open>None\<close> where the handler gives up.\<close>

definition truncate_find ::
  "('e, 'd) env \<Rightarrow> string \<Rightarrow> fuse_file_info option \<Rightarrow> ('e, 'd) world \<Rightarrow>
   ('e, 'd, (string \<times> int) option) outcome" where
  "truncate_find ev path fi w =
     (let inode = get_original_inode (FSCache w) path in
      bnd (fs_lockItemCheckExists inode w) (\<lambda>(locked_initial, w).
      if locked_initial then
        bnd (fs_unlockItem inode w) (\<lambda>(_, w). Inr (Some (inode, uninit_int ev), w))
      else
        (let (res, w) = host_truncate ev path 0 fi w in
         bnd (lfs_getattr ev path w) (\<lambda>((_, stats), w).
         let newino = to_string (st_ino stats) in
         bnd (fs_lockItemCheckExists newino w) (\<lambda>(locked, w).
         if locked
         then bnd (fs_unlockItem newino w) (\<lambda>(_, w). Inr (Some (newino, res), w))
         else Inr (None, w))))))"

text \<open>Growing writes zeros after the end; shrinking is asked of the cache under the path name.\<close>

definition truncate_data ::
  "('e, 'd) env \<Rightarrow> string \<Rightarrow> int \<Rightarrow> fuse_file_info option \<Rightarrow> string \<Rightarrow> ('e, 'd) world \<Rightarrow>
   ('e, 'd, unit) outcome" where
  "truncate_data ev path truncate_size fi inode w =
     bnd (deref_metadata inode w) (\<lambda>previous.
     if truncate_size > meta_size previous then
       (let add_bytes_total = truncate_size - meta_size previous in
        bnd (lfs_write ev path (replicate (nat add_bytes_total) 0) add_bytes_total
               (meta_size previous) fi w) (\<lambda>(r, w).
        if r \<noteq> add_bytes_total then
          (let (_, w) = host_truncate ev path truncate_size fi w in Inr ((), w))
        else Inr ((), w)))
     else if truncate_size < meta_size previous then
       bnd (on_cache (truncate_item (eengine ev) (FSConfig ev) path truncate_size) w) (\<lambda>(_, w).
       Inr ((), w))
     else Inr ((), w))"

definition truncate_body ::
  "('e, 'd) env \<Rightarrow> string \<Rightarrow> int \<Rightarrow> fuse_file_info option \<Rightarrow> ('e, 'd) world \<Rightarrow>
   ('e, 'd, int) outcome" where
  "truncate_body ev path truncate_size fi w =
     bnd (lfs_getattr ev path w) (\<lambda>(_, w).
     bnd (truncate_find ev path fi w) (\<lambda>(target, w).
     case target of
       None \<Rightarrow> Inr (- 1, w)
     | Some (inode, res) \<Rightarrow>
         bnd (truncate_data ev path truncate_size fi inode w) (\<lambda>(_, w).
         let modify_time = now_of ev w;
             new_meta = Metadata\<lparr>meta_size := truncate_size, mtim := modify_time,
                                 ctim := modify_time\<rparr>
         in bnd (deref_metadata inode w) (\<lambda>previous.
            bnd (fs_locked_update inode new_meta
                   ([''size'', ''mtime'']
                    @ (if truncate_size > meta_size previous then [''ctime''] else [])) w) (\<lambda>(_, w).
            if res = - 1 then Inr (errno_of ev w, w)
            else bnd (triggers ev ''truncate'' ''after'' path '''' w) (\<lambda>(_, w). Inr (0, w)))))))"

definition lfs_truncate ::
  "('e, 'd) env \<Rightarrow> string \<Rightarrow> int \<Rightarrow> fuse_file_info option \<Rightarrow> ('e, 'd) world \<Rightarrow>
   ('e, 'd, int) outcome" where
  "lfs_truncate ev path truncate_size fi w =
     bnd (triggers ev ''truncate'' ''before'' path '''' w) (\<lambda>(_, w).
     with_shared_lock (truncate_body ev path truncate_size fi) w)"

section \<open>Opening and creating\<close>

definition open_body ::
  "('e, 'd) env \<Rightarrow> string \<Rightarrow> fuse_file_info \<Rightarrow> ('e, 'd) world \<Rightarrow>
   ('e, 'd, int \<times> fuse_file_info) outcome" where
  "open_body ev path fi w =
     (let access_tmp = (if has_flag (fi_flags fi) O_TRUNC then O_WRONLY else fi_flags fi);
          (res, w) = syscall (os_open (eos ev) path access_tmp 0) w
      in if res = - 1 then Inr ((errno_of ev w, fi), w)
         else
           (let fi = fi\<lparr>fh := res\<rparr> in
            bnd (lfs_getattr ev path w) (\<lambda>(_, w).
            bnd (if has_flag (fi_flags fi) O_TRUNC then lfs_truncate ev path 0 (Some fi) w
                 else Inr (0, w)) (\<lambda>(_, w).
            bnd (triggers ev ''open'' ''after'' path '''' w) (\<lambda>(_, w).
            Inr ((0, fi), w))))))"

definition lfs_open ::
  "('e, 'd) env \<Rightarrow> string \<Rightarrow> fuse_file_info \<Rightarrow> ('e, 'd) world \<Rightarrow>
   ('e, 'd, int \<times> fuse_file_info) outcome" where
  "lfs_open ev path fi w =
     bnd (triggers ev ''open'' ''before'' path '''' w) (\<lambda>(_, w).
     with_shared_lock (open_body ev path fi) w)"

definition create_body ::
  "('e, 'd) env \<Rightarrow> string \<Rightarrow> int \<Rightarrow> fuse_file_info \<Rightarrow> ('e, 'd) world \<Rightarrow>
   ('e, 'd, int \<times> fuse_file_info) outcome" where
  "create_body ev path mode fi w =
     (let (res, w) = syscall (os_open (eos ev) path (fi_flags fi) mode) w in
      if res = - 1 then Inr ((errno_of ev w, fi), w)
      else
        (let fi = fi\<lparr>fh := res\<rparr> in
         bnd (lfs_getattr ev path w) (\<lambda>((_, stbuf), w).
         let inode = to_string (st_ino stbuf);
             access_mode = fi_flags fi mod 4;
             time_register = now_of ev w;
             meta = Metadata\<lparr>atim := time_register, mtim := time_register\<rparr>
         in bnd (if \<not> has_content_cached (FSCache w) inode
                 then bnd (fs_put_data_blocks ev inode fmempty OP_PASSTHROUGH w) (\<lambda>(_, w).
                      Inr ([''atime''], w))
                 else Inr ([], w)) (\<lambda>(values, w).
            let values = values
                  @ (if access_mode = O_RDONLY \<or> access_mode = O_RDWR \<or> access_mode = O_CREAT
                     then [''atime''] else [])
                  @ (if access_mode = O_WRONLY \<or> access_mode = O_RDWR then [''mtime''] else [])
            in bnd (fs_locked_update inode meta values w) (\<lambda>(_, w).
               bnd (triggers ev ''create'' ''after'' path '''' w) (\<lambda>(_, w).
               Inr ((0, fi), w)))))))"

definition lfs_create ::
  "('e, 'd) env \<Rightarrow> string \<Rightarrow> int \<Rightarrow> fuse_file_info \<Rightarrow> ('e, 'd) world \<Rightarrow>
   ('e, 'd, int \<times> fuse_file_info) outcome" where
  "lfs_create ev path mode fi w =
     bnd (triggers ev ''create'' ''before'' path '''' w) (\<lambda>(_, w).
     with_shared_lock (create_body ev path mode fi) w)"

section \<open>Renaming\<close>

text \<open>
  The files below a directory, found recursively; the walk calls itself on every entry, also on
  those that are no directories, where \<open>opendir\<close> fails. Nothing in the code bounds the depth of
  the recursion: a directory that leads back to itself would be walked for ever. So the walk has
  the number of nested calls it may make as fuel, and is \<open>None\<close> where that does not suffice; what
  bounds the depth is that the host refuses names that are too long.
\<close>

definition lfs_is_dir_empty :: "'d os \<Rightarrow> 'd \<Rightarrow> string \<Rightarrow> int" where
  "lfs_is_dir_empty h d dirname =
     (case os_readdir h dirname d of
        None \<Rightarrow> - 1
      | Some entries \<Rightarrow> if length entries \<le> 2 then 1 else 0)"

fun lfs_get_dir_filenames :: "nat \<Rightarrow> 'd os \<Rightarrow> 'd \<Rightarrow> string \<Rightarrow> string list option" where
  "lfs_get_dir_filenames 0 h d dirname = None"
| "lfs_get_dir_filenames (Suc n) h d dirname =
     (case os_readdir h dirname d of
        None \<Rightarrow> Some []
      | Some entries \<Rightarrow>
          map_option concat (those (map (\<lambda>(name, is_reg).
            if name \<noteq> ''.'' \<and> name \<noteq> ''..'' then
              (let base_path = dirname @ ''/'' @ name in
               map_option ((@) (if is_reg then [base_path] else []))
                 (lfs_get_dir_filenames n h d base_path))
            else Some []) entries)))"

text \<open>The result says whether the destination was a non-empty directory (\<open>ENOTEMPTY\<close>).\<close>

definition lfs_recursive_rename ::
  "('e, 'd) env \<Rightarrow> string \<Rightarrow> string \<Rightarrow> ('e, 'd) world \<Rightarrow> ('e, 'd, int) outcome" where
  "lfs_recursive_rename ev from to w =
     bnd (lift (of_option StackOverflow
            (lfs_get_dir_filenames (Suc PATH_MAX) (eos ev) (host_state w) from))) (\<lambda>from_dir_filepaths.
     let (res, to_stat) = os_stat (eos ev) to (host_state w);
         is_empty = lfs_is_dir_empty (eos ev) (host_state w) to;
         replace = bnd (foldE (\<lambda>it w.
                     bnd (on_cache (rename_item (eengine ev) it (to @ drop (length from) it)) w)
                       (\<lambda>(_, w). Inr w)) from_dir_filepaths w) (\<lambda>w. Inr (0, w))
     in if res = 0 \<and> st_dir to_stat
        then (if is_empty = 1 then replace
              else if is_empty = 0 then Inr (- 1, w)
              else Inr (0, w))
        else replace)"

definition EINVAL :: int where "EINVAL = 22"

definition rename_body ::
  "('e, 'd) env \<Rightarrow> string \<Rightarrow> string \<Rightarrow> int \<Rightarrow> ('e, 'd) world \<Rightarrow> ('e, 'd, int) outcome" where
  "rename_body ev from to flags w =
     (if flags \<noteq> 0 then Inr (- EINVAL, w)
      else
        bnd (if get_original_inode (FSCache w) from = []
             then bnd (lfs_recursive_rename ev from to w) (\<lambda>(_, w). Inr ((), w))
             else bnd (on_cache (rename_item (eengine ev) from to) w) (\<lambda>(_, w). Inr ((), w)))
          (\<lambda>(_, w).
        let (res, w) = syscall (os_rename (eos ev) from to) w in
        if res = - 1 then Inr (errno_of ev w, w)
        else bnd (triggers ev ''rename'' ''after'' from to w) (\<lambda>(_, w). Inr (0, w))))"

definition lfs_rename ::
  "('e, 'd) env \<Rightarrow> string \<Rightarrow> string \<Rightarrow> int \<Rightarrow> ('e, 'd) world \<Rightarrow> ('e, 'd, int) outcome" where
  "lfs_rename ev from to flags w =
     bnd (triggers ev ''rename'' ''before'' from to w) (\<lambda>(_, w).
     with_shared_lock (rename_body ev from to flags) w)"

section \<open>Links and removal\<close>

definition link_body ::
  "('e, 'd) env \<Rightarrow> string \<Rightarrow> string \<Rightarrow> ('e, 'd) world \<Rightarrow> ('e, 'd, int) outcome" where
  "link_body ev from to w =
     (let (res, w) = syscall (os_link (eos ev) from to) w in
      if res = - 1 then Inr (errno_of ev w, w)
      else
        (let inode = get_original_inode (FSCache w) from;
             w = (if inode \<noteq> []
                  then w\<lparr>FSCache := insert_inode_mapping to inode True (FSCache w)\<rparr> else w)
         in bnd (triggers ev ''link'' ''after'' from to w) (\<lambda>(_, w). Inr (0, w))))"

definition lfs_link ::
  "('e, 'd) env \<Rightarrow> string \<Rightarrow> string \<Rightarrow> ('e, 'd) world \<Rightarrow> ('e, 'd, int) outcome" where
  "lfs_link ev from to w =
     bnd (triggers ev ''link'' ''before'' from to w) (\<lambda>(_, w).
     with_shared_lock (link_body ev from to) w)"

text \<open>The second trigger at the end of \<open>lfs_unlink\<close> is again one with the timing \<open>before\<close>.\<close>

definition unlink_body :: "('e, 'd) env \<Rightarrow> string \<Rightarrow> ('e, 'd) world \<Rightarrow> ('e, 'd, int) outcome" where
  "unlink_body ev path w =
     (let inode = get_original_inode (FSCache w) path in
      bnd (if inode \<noteq> []
           then on_cache (remove_cached_item (eengine ev) inode path False) w
           else Inr (False, w)) (\<lambda>(_, w).
      let (res, w) = syscall (os_unlink (eos ev) path) w in
      bnd (if res = 0 \<and> inode = []
           then on_cache (remove_cached_item (eengine ev) inode path False) w
           else Inr (False, w)) (\<lambda>(_, w).
      if res = - 1 then Inr (errno_of ev w, w)
      else
        bnd (trigger_crash_fault ev ''unlink'' ''after'' path '''' w) (\<lambda>(_, w).
        bnd (trigger_configured_clear_fault ev ''unlink'' ''before'' path '''' w) (\<lambda>(_, w).
        Inr (0, w))))))"

definition lfs_unlink :: "('e, 'd) env \<Rightarrow> string \<Rightarrow> ('e, 'd) world \<Rightarrow> ('e, 'd, int) outcome" where
  "lfs_unlink ev path w =
     bnd (triggers ev ''unlink'' ''before'' path '''' w) (\<lambda>(_, w).
     with_shared_lock (unlink_body ev path) w)"

section \<open>Handlers that pass a call on\<close>

definition pass_on ::
  "('e, 'd) env \<Rightarrow> ('d \<Rightarrow> int \<times> 'd) \<Rightarrow> ('e, 'd) world \<Rightarrow> ('e, 'd, int) outcome" where
  "pass_on ev call w =
     (let (res, w) = syscall call w in
      if res = - 1 then Inr (errno_of ev w, w) else Inr (0, w))"

text \<open>The two that are also points of fault injection.\<close>

definition pass_on_triggered ::
  "('e, 'd) env \<Rightarrow> string \<Rightarrow> string \<Rightarrow> string \<Rightarrow> ('d \<Rightarrow> int \<times> 'd) \<Rightarrow> ('e, 'd) world \<Rightarrow>
   ('e, 'd, int) outcome" where
  "pass_on_triggered ev op from to call w =
     bnd (triggers ev op ''before'' from to w) (\<lambda>(_, w).
     with_shared_lock (\<lambda>w.
       let (res, w) = syscall call w in
       if res = - 1 then Inr (errno_of ev w, w)
       else bnd (triggers ev op ''after'' from to w) (\<lambda>(_, w). Inr (0, w))) w)"

definition lfs_symlink ::
  "('e, 'd) env \<Rightarrow> string \<Rightarrow> string \<Rightarrow> ('e, 'd) world \<Rightarrow> ('e, 'd, int) outcome" where
  "lfs_symlink ev from to = pass_on_triggered ev ''symlink'' from to (os_symlink (eos ev) from to)"

definition lfs_access ::
  "('e, 'd) env \<Rightarrow> string \<Rightarrow> int \<Rightarrow> ('e, 'd) world \<Rightarrow> ('e, 'd, int) outcome" where
  "lfs_access ev path acc = pass_on_triggered ev ''access'' path '''' (os_access (eos ev) path acc)"

definition lfs_mkdir ::
  "('e, 'd) env \<Rightarrow> string \<Rightarrow> int \<Rightarrow> ('e, 'd) world \<Rightarrow> ('e, 'd, int) outcome" where
  "lfs_mkdir ev path mode = with_shared_lock (pass_on ev (os_mkdir (eos ev) path mode))"

definition lfs_rmdir :: "('e, 'd) env \<Rightarrow> string \<Rightarrow> ('e, 'd) world \<Rightarrow> ('e, 'd, int) outcome" where
  "lfs_rmdir ev path = with_shared_lock (pass_on ev (os_rmdir (eos ev) path))"

definition lfs_chmod ::
  "('e, 'd) env \<Rightarrow> string \<Rightarrow> int \<Rightarrow> ('e, 'd) world \<Rightarrow> ('e, 'd, int) outcome" where
  "lfs_chmod ev path mode = with_shared_lock (pass_on ev (os_chmod (eos ev) path mode))"

definition lfs_chown ::
  "('e, 'd) env \<Rightarrow> string \<Rightarrow> int \<Rightarrow> int \<Rightarrow> ('e, 'd) world \<Rightarrow> ('e, 'd, int) outcome" where
  "lfs_chown ev path uid gid = with_shared_lock (pass_on ev (os_lchown (eos ev) path uid gid))"

definition lfs_utimens ::
  "('e, 'd) env \<Rightarrow> string \<Rightarrow> timespec \<Rightarrow> timespec \<Rightarrow> ('e, 'd) world \<Rightarrow> ('e, 'd, int) outcome" where
  "lfs_utimens ev path t0 t1 = with_shared_lock (pass_on ev (os_utimensat (eos ev) path t0 t1))"

text \<open>\<open>readlink\<close> puts no final zero byte, so the handler adds it: \<open>size - 1\<close> bytes are asked for.\<close>

definition lfs_readlink ::
  "('e, 'd) env \<Rightarrow> string \<Rightarrow> int \<Rightarrow> ('e, 'd) world \<Rightarrow> ('e, 'd, int \<times> string) outcome" where
  "lfs_readlink ev path sz = with_shared_lock (\<lambda>w.
     let (res, target) = os_readlink (eos ev) path (sz - 1) (host_state w) in
     Inr (if res = - 1 then (errno_of ev w, []) else (0, target @ [CHR 0x00]), w))"

definition lfs_release ::
  "('e, 'd) env \<Rightarrow> fuse_file_info \<Rightarrow> ('e, 'd) world \<Rightarrow> ('e, 'd, int) outcome" where
  "lfs_release ev fi = with_shared_lock (\<lambda>w.
     Inr (0, w\<lparr>host_state := os_close (eos ev) (fh fi) (host_state w)\<rparr>))"

definition lfs_lseek ::
  "('e, 'd) env \<Rightarrow> string \<Rightarrow> int \<Rightarrow> int \<Rightarrow> fuse_file_info option \<Rightarrow> ('e, 'd) world \<Rightarrow>
   ('e, 'd, int) outcome" where
  "lfs_lseek ev path off whence fi = with_shared_lock (\<lambda>w.
     let (fd, w) = (case fi of None \<Rightarrow> syscall (os_open (eos ev) path O_RDONLY 0) w
                             | Some f \<Rightarrow> (fh f, w))
     in if fd = - 1 then Inr (errno_of ev w, w)
        else
          (let (res, w) = syscall (os_lseek (eos ev) fd off whence) w;
               res = (if res = - 1 then errno_of ev w else res);
               w = (if fi = None then w\<lparr>host_state := os_close (eos ev) fd (host_state w)\<rparr> else w)
           in Inr (res, w)))"

text \<open>
  The extended attributes, present where \<open>HAVE_SETXATTR\<close> is defined: passed on without the
  command lock; the two that read return the number of bytes.
\<close>

definition lfs_setxattr ::
  "('e, 'd) env \<Rightarrow> string \<Rightarrow> string \<Rightarrow> byte list \<Rightarrow> int \<Rightarrow> int \<Rightarrow> ('e, 'd) world \<Rightarrow>
   ('e, 'd, int) outcome" where
  "lfs_setxattr ev path name v sz flags = pass_on ev (os_lsetxattr (eos ev) path name v sz flags)"

definition lfs_getxattr ::
  "('e, 'd) env \<Rightarrow> string \<Rightarrow> string \<Rightarrow> int \<Rightarrow> ('e, 'd) world \<Rightarrow> ('e, 'd, int \<times> byte list) outcome" where
  "lfs_getxattr ev path name sz w =
     (let (res, bs) = os_lgetxattr (eos ev) path name sz (host_state w) in
      Inr ((if res = - 1 then errno_of ev w else res, bs), w))"

definition lfs_listxattr ::
  "('e, 'd) env \<Rightarrow> string \<Rightarrow> int \<Rightarrow> ('e, 'd) world \<Rightarrow> ('e, 'd, int \<times> byte list) outcome" where
  "lfs_listxattr ev path sz w =
     (let (res, bs) = os_llistxattr (eos ev) path sz (host_state w) in
      Inr ((if res = - 1 then errno_of ev w else res, bs), w))"

definition lfs_removexattr ::
  "('e, 'd) env \<Rightarrow> string \<Rightarrow> string \<Rightarrow> ('e, 'd) world \<Rightarrow> ('e, 'd, int) outcome" where
  "lfs_removexattr ev path name = pass_on ev (os_lremovexattr (eos ev) path name)"

section \<open>Mounting\<close>

text \<open>
  What \<open>lfs_init\<close> sets in the configuration of the FUSE library; it also starts the thread that
  reads commands, see \<open>fht_worker\<close>.
\<close>

record fuse_config =
  entry_timeout :: rat
  attr_timeout :: rat
  negative_timeout :: rat
  use_ino :: int

definition lfs_init :: "fuse_config \<Rightarrow> fuse_config" where
  "lfs_init cfg = cfg\<lparr>entry_timeout := 0, attr_timeout := 0, negative_timeout := 0, use_ino := 1\<rparr>"

end
