(* ===== verification/Worker.thy ===== *)
theory Worker
  imports Handlers Config_Load
begin

text \<open>
  The thread that reads commands from the faults FIFO (\<open>fht_worker\<close>, \<open>lazyfs/src/main.cpp\<close>)
  and the command line and start-up of \<open>main\<close>. One command is one step of the world; the reply
  is what the worker logs; what it reads from the FIFO is given as a list of chunks. The logger
  is left out.
\<close>

section \<open>Crash commands\<close>

datatype worker_error =
    OpNotAvailable | TimingInvalid | NoRegex | OnlyFromRegex
  | FileNotSpecified | PartsNotANumber | PartsBytesNotAList | PersistNotAList
  | OccurrenceNotANumber | UnknownAttribute | NoParts | FaultError fault_error

record crash_command =
  cc_operation :: string
  cc_timing :: string
  cc_from_rgx :: string
  cc_to_rgx :: string
  cc_errors :: "worker_error list"

definition crash_attribute :: "string \<Rightarrow> crash_command \<Rightarrow> crash_command" where
  "crash_attribute current cc =
     (let v = after_equals current in
      if starts_with ''op='' current then
        (if v \<in> set allow_crash_fs_operations then cc\<lparr>cc_operation := v\<rparr>
         else cc\<lparr>cc_errors := cc_errors cc @ [OpNotAvailable]\<rparr>)
      else if starts_with ''timing='' current then
        (if v = ''before'' \<or> v = ''after'' then cc\<lparr>cc_timing := v\<rparr>
         else cc\<lparr>cc_errors := cc_errors cc @ [TimingInvalid]\<rparr>)
      else if starts_with ''from_rgx='' current then
        (if v \<noteq> [] then cc\<lparr>cc_from_rgx := v\<rparr> else cc)
      else if starts_with ''to_rgx='' current then
        (if v \<noteq> [] then cc\<lparr>cc_to_rgx := v\<rparr> else cc)
      else cc)"

definition parse_crash_command :: "string \<Rightarrow> crash_command" where
  "parse_crash_command command_str =
     (let cc = fold crash_attribute (split_colons command_str)
                 \<lparr>cc_operation = ''none'', cc_timing = ''none'', cc_from_rgx = ''none'',
                  cc_to_rgx = ''none'', cc_errors = []\<rparr>
      in if cc_operation cc \<in> set fs_op_multi_path then
           (if cc_from_rgx cc = ''none'' \<and> cc_to_rgx cc = ''none''
            then cc\<lparr>cc_errors := cc_errors cc @ [NoRegex]\<rparr> else cc)
         else
           (if cc_from_rgx cc = ''none'' \<or> cc_to_rgx cc \<noteq> ''none''
            then cc\<lparr>cc_errors := cc_errors cc @ [OnlyFromRegex]\<rparr> else cc))"

section \<open>Torn-op and torn-seq commands\<close>

record torn_command =
  tc_file :: string
  tc_op :: string
  tc_parts :: string
  tc_parts_bytes :: string
  tc_persist :: string
  tc_occurrence :: string
  tc_errors :: "worker_error list"

definition new_torn_command :: torn_command where
  "new_torn_command =
     \<lparr>tc_file = ''none'', tc_op = ''none'', tc_parts = ''none'', tc_parts_bytes = ''none'',
      tc_persist = ''none'', tc_occurrence = ''none'', tc_errors = []\<rparr>"

definition torn_error :: "worker_error \<Rightarrow> torn_command \<Rightarrow> torn_command" where
  "torn_error err t = t\<lparr>tc_errors := tc_errors t @ [err]\<rparr>"

definition torn_op_attribute :: "string \<Rightarrow> torn_command \<Rightarrow> torn_command" where
  "torn_op_attribute current t =
     (let v = after_equals current in
      if starts_with ''file='' current then
        (if v \<noteq> [] then t\<lparr>tc_file := v\<rparr> else torn_error FileNotSpecified t)
      else if starts_with ''parts='' current then
        (if is_number v then t\<lparr>tc_parts := v\<rparr> else torn_error PartsNotANumber t)
      else if starts_with ''parts_bytes='' current then
        (if is_number_list v then t\<lparr>tc_parts_bytes := v\<rparr> else torn_error PartsBytesNotAList t)
      else if starts_with ''persist='' current then
        (if is_number_list v then t\<lparr>tc_persist := v\<rparr> else torn_error PersistNotAList t)
      else if starts_with ''occurrence='' current then
        (if is_number v then t\<lparr>tc_occurrence := v\<rparr> else torn_error OccurrenceNotANumber t)
      else if current \<noteq> ''lazyfs'' \<and> current \<noteq> ''torn-op'' then torn_error UnknownAttribute t
      else t)"

definition parse_torn_op_command :: "string \<Rightarrow> torn_command" where
  "parse_torn_op_command command_str =
     (let t = fold torn_op_attribute (split_colons command_str) new_torn_command in
      if tc_parts t = ''none'' \<and> tc_parts_bytes t = ''none'' then torn_error NoParts t else t)"

definition torn_seq_attribute :: "string \<Rightarrow> torn_command \<Rightarrow> torn_command" where
  "torn_seq_attribute current t =
     (let v = after_equals current in
      if starts_with ''file='' current then
        (if v \<noteq> [] then t\<lparr>tc_file := v\<rparr> else torn_error FileNotSpecified t)
      else if starts_with ''op='' current then
        (if v \<noteq> [] then t\<lparr>tc_op := v\<rparr> else torn_error OpNotAvailable t)
      else if starts_with ''persist='' current then
        (if is_number_list v then t\<lparr>tc_persist := v\<rparr> else torn_error PersistNotAList t)
      else if starts_with ''occurrence='' current then
        (if is_number v then t\<lparr>tc_occurrence := v\<rparr> else torn_error OccurrenceNotANumber t)
      else if current \<noteq> ''lazyfs'' \<and> current \<noteq> ''torn-seq'' then torn_error UnknownAttribute t
      else t)"

definition parse_torn_seq_command :: "string \<Rightarrow> torn_command" where
  "parse_torn_seq_command command_str =
     fold torn_seq_attribute (split_colons command_str) new_torn_command"

section \<open>One command\<close>

datatype worker_reply =
    CrashAdded | CrashInvalid "worker_error list"
  | CacheCleared
  | TornConfigured | TornInvalid "worker_error list"
  | CacheUsage rat
  | Checkpointed
  | UnsyncedReport "report_entry list" int
  | HelpShown
  | UnknownCommand

definition run_crash_command ::
  "('e, 'd) env \<Rightarrow> string \<Rightarrow> ('e, 'd) world \<Rightarrow> ('e, 'd, worker_reply) outcome" where
  "run_crash_command ev command_str w =
     (let cc = parse_crash_command command_str in
      if cc_errors cc = [] then
        bnd (add_crash_fault ev (cc_timing cc) (cc_operation cc) (cc_from_rgx cc) (cc_to_rgx cc) w)
          (\<lambda>(_, w). Inr (CrashAdded, w))
      else Inr (CrashInvalid (cc_errors cc), w))"

text \<open>Registering the fault of a torn command, when its attributes are in order.\<close>

definition run_torn_command ::
  "torn_command \<Rightarrow> (faults \<Rightarrow> (fault_error list \<times> faults) res) \<Rightarrow> ('e, 'd) world \<Rightarrow>
   ('e, 'd, worker_reply) outcome" where
  "run_torn_command t register w =
     (if tc_errors t = [] then
        bnd (lift (register (ffaults w))) (\<lambda>(errors, fs).
        let w = w\<lparr>ffaults := fs\<rparr> in
        Inr (if errors = [] then (TornConfigured, w)
             else (TornInvalid (map FaultError errors), w)))
      else Inr (TornInvalid (tc_errors t), w))"

definition run_torn_op_command ::
  "string \<Rightarrow> ('e, 'd) world \<Rightarrow> ('e, 'd, worker_reply) outcome" where
  "run_torn_op_command command_str w =
     (let t = parse_torn_op_command command_str in
      run_torn_command t
        (add_torn_op_fault (tc_file t) (tc_parts t) (tc_parts_bytes t) (tc_persist t)
           (tc_occurrence t)) w)"

definition run_torn_seq_command ::
  "string \<Rightarrow> ('e, 'd) world \<Rightarrow> ('e, 'd, worker_reply) outcome" where
  "run_torn_seq_command command_str w =
     (let t = parse_torn_seq_command command_str in
      run_torn_command t
        (add_torn_seq_fault (tc_file t) (tc_op t) (tc_persist t) (tc_occurrence t)) w)"

text \<open>
  The bytes read become a C string: the last byte is overwritten with zero, and the command is
  what precedes the first zero.
\<close>

definition command_string :: "string \<Rightarrow> string" where
  "command_string buffer = takeWhile (\<lambda>ch. ch \<noteq> CHR 0x00) (butlast buffer)"

definition worker_command ::
  "('e, 'd) env \<Rightarrow> string \<Rightarrow> ('e, 'd) world \<Rightarrow> ('e, 'd, worker_reply) outcome" where
  "worker_command ev buffer w =
     (let command_str = command_string buffer in
      if starts_with ''lazyfs::crash'' command_str then run_crash_command ev command_str w
      else if command_str = ''lazyfs::clear-cache'' then
        bnd (command_fault_clear_cache ev w) (\<lambda>(_, w). Inr (CacheCleared, w))
      else if starts_with ''lazyfs::torn-op'' command_str then run_torn_op_command command_str w
      else if starts_with ''lazyfs::torn-seq'' command_str then run_torn_seq_command command_str w
      else if command_str = ''lazyfs::display-cache-usage'' then
        bnd (command_display_cache_usage ev w) (\<lambda>(u, w). Inr (CacheUsage u, w))
      else if command_str = ''lazyfs::cache-checkpoint'' then
        bnd (command_checkpoint ev w) (\<lambda>(_, w). Inr (Checkpointed, w))
      else if command_str = ''lazyfs::unsynced-data-report'' then
        bnd (command_unsynced_data_report ev (injecting_fault w) w) (\<lambda>(lines, total).
        Inr (UnsyncedReport lines total, w))
      else if command_str = ''lazyfs::help'' then Inr (HelpShown, w)
      else Inr (UnknownCommand, w))"

section \<open>The worker thread\<close>

text \<open>
  What the worker reads from the FIFO is external input: a list of chunks of at most
  \<open>MAX_READ_CHUNK\<close> bytes, where an empty chunk, like the end of the list, stands for a \<open>read\<close>
  that returns nothing and ends the loop. A cleared cache is announced on the second FIFO when
  there is one. The replies are what the worker logs.
\<close>

definition MAX_READ_CHUNK :: nat where "MAX_READ_CHUNK = 255"

definition notify_completed :: "('e, 'd) env \<Rightarrow> int option \<Rightarrow> worker_reply \<Rightarrow> ('e, 'd) world \<Rightarrow> ('e, 'd) world" where
  "notify_completed ev fd_fifo_completed reply w =
     (case fd_fifo_completed of
        Some fd \<Rightarrow>
          if reply = CacheCleared
          then snd (syscall (os_write (eos ev) fd (''finished::clear-cache'' @ [CHR 0x0A])) w) else w
      | None \<Rightarrow> w)"

fun worker_loop ::
  "('e, 'd) env \<Rightarrow> int option \<Rightarrow> string list \<Rightarrow> ('e, 'd) world \<Rightarrow> ('e, 'd, worker_reply list) outcome" where
  "worker_loop ev fd_fifo_completed [] w = Inr ([], w)"
| "worker_loop ev fd_fifo_completed (buffer # chunks) w =
     (if buffer = [] then Inr ([], w)
      else
        bnd (worker_command ev (take MAX_READ_CHUNK buffer) w) (\<lambda>(reply, w).
        bnd (worker_loop ev fd_fifo_completed chunks (notify_completed ev fd_fifo_completed reply w))
          (\<lambda>(replies, w).
        Inr (reply # replies, w))))"

definition fht_worker ::
  "('e, 'd) env \<Rightarrow> string list \<Rightarrow> ('e, 'd) world \<Rightarrow> ('e, 'd, worker_reply list) outcome" where
  "fht_worker ev chunks w =
     (let c = FSConfig ev;
          (fd_fifo, w) = syscall (os_open (eos ev) (FIFO_PATH c) O_RDWR 0) w
      in if fd_fifo < 0 then Inr ([], w)
         else
           (let write_completed_faults = (FIFO_PATH_COMPLETED c \<noteq> []);
                (fd_fifo_completed, w) =
                  (if write_completed_faults
                   then syscall (os_open (eos ev) (FIFO_PATH_COMPLETED c) O_WRONLY 0) w else (0, w))
            in if write_completed_faults \<and> fd_fifo_completed < 0 then Inr ([], w)
               else
                 bnd (worker_loop ev (if write_completed_faults then Some fd_fifo_completed else None) chunks w)
                   (\<lambda>(replies, w).
                 let w = w\<lparr>host_state := os_close (eos ev) fd_fifo (host_state w)\<rparr>;
                     w = (if write_completed_faults
                          then w\<lparr>host_state := os_close (eos ev) fd_fifo_completed (host_state w)\<rparr> else w)
                 in Inr (replies, w))))"

section \<open>Start-up\<close>

fun is_substring :: "string \<Rightarrow> string \<Rightarrow> bool" where
  "is_substring p [] \<longleftrightarrow> p = []"
| "is_substring p (x # xs) \<longleftrightarrow> take (length p) (x # xs) = p \<or> is_substring p xs"

definition strcasestr :: "string \<Rightarrow> string \<Rightarrow> bool" where
  "strcasestr haystack needle = is_substring (map to_lower needle) (map to_lower haystack)"

text \<open>
  The loop over the arguments: the option \<open>--config-path\<close> with its value is taken out, at most
  ten of the others are kept. After the last argument comes a null pointer.
\<close>

definition MAX_ARGS :: nat where "MAX_ARGS = 10"

fun parse_args :: "string list \<Rightarrow> string list \<Rightarrow> string option \<Rightarrow> (string list \<times> string option) res"
  where
  "parse_args [] new_argv path = Inr (new_argv, path)"
| "parse_args (a # rest) new_argv path =
     (if \<not> length new_argv < MAX_ARGS then Inr (new_argv, path)
      else if a = ''--config-path'' then
        (case rest of
           [] \<Rightarrow> Inl NullDeref
         | b # rest' \<Rightarrow>
             if strcasestr b ''-o'' then parse_args rest new_argv None
             else parse_args rest' new_argv (Some b))
      else parse_args rest (new_argv @ [a]) path)"

definition config_path_of :: "string option \<Rightarrow> string" where
  "config_path_of path = (case path of None \<Rightarrow> ''config/default.toml'' | Some p \<Rightarrow> p)"

definition start_environment ::
  "'d os \<Rightarrow> (string \<Rightarrow> string \<Rightarrow> bool) \<Rightarrow> (string \<Rightarrow> bool) \<Rightarrow> int \<Rightarrow> config \<Rightarrow> (engine, 'd) env" where
  "start_environment h rmatch rvalid uninit c =
     \<lparr>eos = h, FSConfig = c, eengine = custom_cache_engine h c, regex_match = rmatch,
      regex_valid = rvalid, uninit_int = uninit\<rparr>"

text \<open>The FIFOs are created unless they exist; any other failure ends the program.\<close>

definition make_fifo :: "'d os \<Rightarrow> string \<Rightarrow> 'd \<Rightarrow> bool \<times> 'd" where
  "make_fifo h path d =
     (let (res, d) = os_mkfifo h path 511 d in (\<not> (res < 0 \<and> os_errno h d \<noteq> EEXIST), d))"

definition make_fifos :: "'d os \<Rightarrow> config \<Rightarrow> 'd \<Rightarrow> bool \<times> 'd" where
  "make_fifos h c d =
     (let (made, d) = make_fifo h (FIFO_PATH c) d in
      if \<not> made then (False, d)
      else if FIFO_PATH_COMPLETED c \<noteq> [] then make_fifo h (FIFO_PATH_COMPLETED c) d
      else (True, d))"

text \<open>
  From the configuration to the running file system, or to the exit with status -1 (\<open>None\<close>). The
  set-up of the logger before it is left out.
\<close>

definition boot ::
  "'d os \<Rightarrow> (string \<Rightarrow> string \<Rightarrow> bool) \<Rightarrow> (string \<Rightarrow> bool) \<Rightarrow> int \<Rightarrow> string list \<Rightarrow> config \<Rightarrow> faults \<Rightarrow> 'd \<Rightarrow>
   (string list \<times> (engine, 'd) env \<times> (engine, 'd) world) option res" where
  "boot h rmatch rvalid uninit new_argv c fs d =
     (let (made, d) = make_fifos h c d in
      if \<not> made then Inr None
      else
        bnd (new_engine c) (\<lambda>e.
        Inr (Some (new_argv, start_environment h rmatch rvalid uninit c,
                   new_lazyfs (new_cache e) fs d))))"

text \<open>From the command line and the parsed configuration files on.\<close>

definition start ::
  "'d os \<Rightarrow> (string \<Rightarrow> string \<Rightarrow> bool) \<Rightarrow> (string \<Rightarrow> bool) \<Rightarrow> int \<Rightarrow>
   (string \<Rightarrow> toml_document option) \<Rightarrow> string list \<Rightarrow> 'd \<Rightarrow>
   (string list \<times> (engine, 'd) env \<times> (engine, 'd) world) option res" where
  "start h rmatch rvalid uninit toml argv d =
     bnd (parse_args argv [] None) (\<lambda>(new_argv, path).
     bnd (of_option RuntimeError (toml (config_path_of path))) (\<lambda>doc.
     bnd (load_config uninit doc default_config) (\<lambda>(c, fs).
     boot h rmatch rvalid uninit new_argv c fs d)))"

lemma boot_running:
  assumes "boot h rmatch rvalid uninit new_argv c fs d = Inr (Some (new_argv', ev, w))"
  obtains e d' where "new_engine c = Inr e" "ev = start_environment h rmatch rvalid uninit c"
    "w = new_lazyfs (new_cache e) fs d'" "make_fifos h c d = (True, d')"
  using assms that
  by (cases "make_fifos h c d") (auto simp: boot_def bnd_eq_Inr split: if_splits)

end
