(* ===== verification/Dispatch.thy ===== *)
theory Dispatch
  imports Worker
begin

text \<open>
  The table of operations handed to the FUSE library (\<open>lazyfs/include/lazyfs/fusepp\<close>). A request
  of the library names an operation and carries its arguments, as the function types of
  \<open>Fuse.h\<close> list them, less those no handler looks at and the results. The members of the class
  template are null pointers; \<open>LazyFS\<close> hides those it implements with its handlers, and
  \<open>load_operations_\<close> copies the result into the table. What the library answers when an operation
  is not set is documented there and a parameter here.
  \<open>lfs_lseek\<close> has no entry in the table, so no request reaches it.
\<close>

section \<open>Requests and replies\<close>

datatype fuse_request =
    T_getattr string
  | T_readlink string int
  | T_mknod string int int
  | T_mkdir string int
  | T_unlink string
  | T_rmdir string
  | T_symlink string string
  | T_rename string string int
  | T_link string string
  | T_chmod string int
  | T_chown string int int
  | T_truncate string int "fuse_file_info option"
  | T_open string fuse_file_info
  | T_read string "byte list" int int "fuse_file_info option"
  | T_write string "byte list" int int "fuse_file_info option"
  | T_statfs string
  | T_flush string fuse_file_info
  | T_release string fuse_file_info
  | T_fsync string bool "fuse_file_info option"
  | T_setxattr string string "byte list" int int
  | T_getxattr string string int
  | T_listxattr string int
  | T_removexattr string string
  | T_opendir string fuse_file_info
  | T_readdir string "string list \<Rightarrow> string \<Rightarrow> bool \<times> string list" \<comment> \<open>the filler\<close>
  | T_releasedir string fuse_file_info
  | T_fsyncdir string bool fuse_file_info
  | T_access string int
  | T_create string int fuse_file_info
  | T_lock string fuse_file_info int
  | T_utimens string timespec timespec
  | T_bmap string int
  | T_ioctl string int fuse_file_info int
  | T_poll string fuse_file_info
  | T_write_buf string "byte list" int fuse_file_info
  | T_read_buf string int int fuse_file_info
  | T_flock string fuse_file_info int
  | T_fallocate string int int int fuse_file_info

datatype fuse_reply =
    R_status int
  | R_attr int stat
  | R_text int string
  | R_data int "byte list"
  | R_open int fuse_file_info
  | R_dir int "string list"

type_synonym ('e, 'd) handler = "('e, 'd) world \<Rightarrow> ('e, 'd, fuse_reply) outcome"

definition replying :: "('a \<Rightarrow> fuse_reply) \<Rightarrow> (('e, 'd) world \<Rightarrow> ('e, 'd, 'a) outcome) \<Rightarrow> ('e, 'd) handler" where
  "replying reply f w = bnd (f w) (\<lambda>(x, w). Inr (reply x, w))"

section \<open>The table\<close>

text \<open>The members of the class template, all of them null pointers.\<close>

definition unset_operations :: "fuse_request \<Rightarrow> ('e, 'd) handler option" where
  "unset_operations req = None"

text \<open>The members of \<open>LazyFS\<close>; the handlers for extended attributes depend on \<open>HAVE_SETXATTR\<close>.\<close>

definition load_operations :: "bool \<Rightarrow> ('e, 'd) env \<Rightarrow> fuse_request \<Rightarrow> ('e, 'd) handler option" where
  "load_operations have_setxattr ev req =
     (case req of
        T_getattr path \<Rightarrow> Some (replying (\<lambda>(r, st). R_attr r st) (lfs_getattr ev path))
      | T_readlink path sz \<Rightarrow> Some (replying (\<lambda>(r, t). R_text r t) (lfs_readlink ev path sz))
      | T_mkdir path mode \<Rightarrow> Some (replying R_status (lfs_mkdir ev path mode))
      | T_unlink path \<Rightarrow> Some (replying R_status (lfs_unlink ev path))
      | T_rmdir path \<Rightarrow> Some (replying R_status (lfs_rmdir ev path))
      | T_symlink from to \<Rightarrow> Some (replying R_status (lfs_symlink ev from to))
      | T_rename from to flags \<Rightarrow> Some (replying R_status (lfs_rename ev from to flags))
      | T_link from to \<Rightarrow> Some (replying R_status (lfs_link ev from to))
      | T_chmod path mode \<Rightarrow> Some (replying R_status (lfs_chmod ev path mode))
      | T_chown path uid gid \<Rightarrow> Some (replying R_status (lfs_chown ev path uid gid))
      | T_truncate path sz fi \<Rightarrow> Some (replying R_status (lfs_truncate ev path sz fi))
      | T_open path fi \<Rightarrow> Some (replying (\<lambda>(r, fi). R_open r fi) (lfs_open ev path fi))
      | T_read path buf sz offset fi \<Rightarrow>
          Some (replying (\<lambda>(r, bs). R_data r bs) (lfs_read ev path buf sz offset fi))
      | T_write path buf sz offset fi \<Rightarrow> Some (replying R_status (lfs_write ev path buf sz offset fi))
      | T_release path fi \<Rightarrow> Some (replying R_status (lfs_release ev fi))
      | T_fsync path isdatasync fi \<Rightarrow> Some (replying R_status (lfs_fsync ev path isdatasync fi))
      | T_setxattr path name v sz flags \<Rightarrow>
          (if have_setxattr then Some (replying R_status (lfs_setxattr ev path name v sz flags))
           else unset_operations req)
      | T_getxattr path name sz \<Rightarrow>
          (if have_setxattr then Some (replying (\<lambda>(r, bs). R_data r bs) (lfs_getxattr ev path name sz))
           else unset_operations req)
      | T_listxattr path sz \<Rightarrow>
          (if have_setxattr then Some (replying (\<lambda>(r, bs). R_data r bs) (lfs_listxattr ev path sz))
           else unset_operations req)
      | T_removexattr path name \<Rightarrow>
          (if have_setxattr then Some (replying R_status (lfs_removexattr ev path name))
           else unset_operations req)
      | T_readdir path filler \<Rightarrow> Some (replying (\<lambda>(r, names). R_dir r names) (lfs_readdir ev path filler []))
      | T_access path acc \<Rightarrow> Some (replying R_status (lfs_access ev path acc))
      | T_create path mode fi \<Rightarrow> Some (replying (\<lambda>(r, fi). R_open r fi) (lfs_create ev path mode fi))
      | T_utimens path t0 t1 \<Rightarrow> Some (replying R_status (lfs_utimens ev path t0 t1))
      | _ \<Rightarrow> unset_operations req)"

text \<open>What the library does with a request; \<open>unset\<close> is its answer when there is no handler.\<close>

definition serve ::
  "bool \<Rightarrow> (fuse_request \<Rightarrow> int) \<Rightarrow> ('e, 'd) env \<Rightarrow> fuse_request \<Rightarrow> ('e, 'd) handler" where
  "serve have_setxattr unset ev req w =
     (case load_operations have_setxattr ev req of
        None \<Rightarrow> Inr (R_status (unset req), w)
      | Some handler \<Rightarrow> handler w)"

end
