(* ===== verification/Page_Facts.thy ===== *)
theory Page_Facts
  imports Pages
begin

text \<open>
  What the operations of a page do to its slots and its bytes.

  The first part holds for any number of blocks per page: the slots of a page are always
  divided between the free ones and the blocks stored in it. The second part is about pages of
  one block, the layout of the default configuration, and describes each operation completely;
  the invariant of the engine rests on it.
\<close>

section \<open>Slots\<close>

lemma slot_indexes_set:
  assumes "0 < step"
  shows "set (slot_indexes step lim i) = {j. i \<le> j \<and> j < lim \<and> (j - i) mod step = 0}"
  using assms
proof (induction step lim i rule: slot_indexes.induct)
  case (1 step lim i)
  show ?case
  proof (cases "i < lim")
    case False
    then show ?thesis by (subst slot_indexes.simps) auto
  next
    case True
    have shift: "(j - (i + step)) mod step = (j - i) mod step" for j
      by (metis diff_diff_eq minus_mod_self2)
    have zero: "(j - i) mod step = 0 \<Longrightarrow> i \<le> j \<Longrightarrow> j < i + step \<Longrightarrow> j = i" for j
      using mod_pos_pos_trivial [of "j - i" step] by simp
    have "set (slot_indexes step lim i) = insert i (set (slot_indexes step lim (i + step)))"
      using True 1(2) by (subst slot_indexes.simps) simp
    also have "\<dots> = insert i {j. i + step \<le> j \<and> j < lim \<and> (j - i) mod step = 0}"
      using 1(1) [OF _ 1(2)] True 1(2) by (simp add: shift)
    also have "\<dots> = {j. i \<le> j \<and> j < lim \<and> (j - i) mod step = 0}"
    proof (intro equalityI subsetI)
      fix j assume "j \<in> {j. i \<le> j \<and> j < lim \<and> (j - i) mod step = 0}"
      then show "j \<in> insert i {j. i + step \<le> j \<and> j < lim \<and> (j - i) mod step = 0}"
        using zero [of j] by (cases "j < i + step") simp_all
    qed (use True 1(2) in auto)
    finally show ?thesis .
  qed
qed

lemma slot_indexes_distinct: "distinct (slot_indexes step lim i)"
proof (induction step lim i rule: slot_indexes.induct)
  case (1 step lim i)
  show ?case
  proof (cases "0 < step \<and> i < lim")
    case True
    then have "i \<notin> set (slot_indexes step lim (i + step))" by (simp add: slot_indexes_set)
    with True 1 show ?thesis by (subst slot_indexes.simps) simp
  next
    case False
    then have "slot_indexes step lim i = []" by (subst slot_indexes.simps) auto
    then show ?thesis by simp
  qed
qed

text \<open>
  The slots of a page: every free index and every stored block starts a slot, no two share
  one, and together they are all slots.
\<close>

definition slots_ok :: "config \<Rightarrow> page \<Rightarrow> bool" where
  "slots_ok c p \<longleftrightarrow>
     (let m = block_offset_mapping (allocated_block_ids p);
          all = set (slot_indexes (IO_BLOCK_SIZE c) (CACHE_PAGE_SIZE c) 0)
      in distinct (free_block_indexes p) \<and>
         inj_on (\<lambda>b. fst (the (fmlookup m b))) (fset (fmdom m)) \<and>
         (\<forall>b \<in> fset (fmdom m). fst (the (fmlookup m b)) \<notin> set (free_block_indexes p)) \<and>
         (\<forall>b \<in> fset (fmdom m).
            snd (the (fmlookup m b)) = c_int (fst (the (fmlookup m b)) + IO_BLOCK_SIZE c - 1)) \<and>
         set (free_block_indexes p) \<union> (\<lambda>b. fst (the (fmlookup m b))) ` fset (fmdom m) = all \<and>
         length (pdata p) = nat (CACHE_PAGE_SIZE c))"

lemma slots_ok_new_page: "new_page c = Inr p \<Longrightarrow> slots_ok c p"
  by (auto simp: new_page_def bnd_eq_Inr slots_ok_def bo_empty_def slot_indexes_distinct)

lemma slots_ok_page_reset: "slots_ok c (page_reset c p)"
  by (auto simp: page_reset_def slots_ok_def bo_reset_def slot_indexes_distinct)

lemma slots_ok_get_allocate_free_offset:
  assumes "slots_ok c p" and "\<not> contains_block p b" and "get_allocate_free_offset c b p = (offs, p')"
  shows "slots_ok c p'"
proof (cases "free_block_indexes p = []")
  case True
  then show ?thesis using assms by (auto simp: get_allocate_free_offset_def)
next
  case False
  define m where "m = block_offset_mapping (allocated_block_ids p)"
  obtain fs i where fs: "free_block_indexes p = fs @ [i]" using False by (metis rev_exhaust)
  have b: "fmlookup m b = None"
    using assms(2) by (auto simp only: contains_block_def bo_contains_block_def m_def)
  have bdom: "b \<notin> fset (fmdom m)" using b by (simp add: fmlookup_dom_iff)
  have m': "block_offset_mapping (allocated_block_ids p') =
      fmupd b (i, c_int (i + IO_BLOCK_SIZE c - 1)) m"
    and f': "free_block_indexes p' = fs" and d': "pdata p' = pdata p"
    using assms(3) fs b
    by (auto simp: get_allocate_free_offset_def Let_def insert_or_update_block_offsets_def
        fmins_def m_def)
  have upd: "the (fmlookup (fmupd b x m) k) = (if k = b then x else the (fmlookup m k))" for x k
    by simp
  have im: "(\<lambda>k. fst (the (fmlookup (fmupd b x m) k))) ` fset (fmdom m) =
      (\<lambda>k. fst (the (fmlookup m k))) ` fset (fmdom m)" for x
    using bdom by (intro image_cong) auto
  have ok: "distinct (fs @ [i])" "inj_on (\<lambda>b. fst (the (fmlookup m b))) (fset (fmdom m))"
    "\<forall>b \<in> fset (fmdom m). fst (the (fmlookup m b)) \<notin> set (fs @ [i])"
    "\<forall>b \<in> fset (fmdom m).
       snd (the (fmlookup m b)) = c_int (fst (the (fmlookup m b)) + IO_BLOCK_SIZE c - 1)"
    "set (fs @ [i]) \<union> (\<lambda>b. fst (the (fmlookup m b))) ` fset (fmdom m) =
       set (slot_indexes (IO_BLOCK_SIZE c) (CACHE_PAGE_SIZE c) 0)"
    "length (pdata p) = nat (CACHE_PAGE_SIZE c)"
    using assms(1) unfolding slots_ok_def Let_def m_def [symmetric] fs by blast+
  have "inj_on (\<lambda>k. fst (the (fmlookup (fmupd b x m) k))) (fset (fmdom m))" for x
    using ok(2) bdom by (auto simp: inj_on_def)
  then have "inj_on (\<lambda>k. fst (the (fmlookup (fmupd b (i, j) m) k))) (fset (fmdom (fmupd b (i, j) m)))" for j
    using ok(3) bdom by (auto simp: inj_on_def)
  moreover have "\<forall>k \<in> fset (fmdom (fmupd b (i, j) m)). fst (the (fmlookup (fmupd b (i, j) m) k)) \<notin> set fs" for j
    using ok(1,3) by auto
  moreover have "set fs \<union> (\<lambda>k. fst (the (fmlookup (fmupd b (i, j) m) k))) ` fset (fmdom (fmupd b (i, j) m))
      = set (slot_indexes (IO_BLOCK_SIZE c) (CACHE_PAGE_SIZE c) 0)" for j
    using ok(5) im by auto
  ultimately show ?thesis
    unfolding slots_ok_def Let_def m' f' d' using ok(1,4,6) by auto
qed

lemma slots_ok_remove_block:
  assumes "slots_ok c p" and "page_remove_block c b p = Inr p'"
  shows "slots_ok c p'"
proof (cases "contains_block p b")
  case False
  then have "p' = p \<or> p' = p\<lparr>is_dirty := False\<rparr>"
    using assms(2) by (auto simp: page_remove_block_def split: if_splits)
  then show ?thesis using assms(1) by (auto simp: slots_ok_def)
next
  case True
  define m where "m = block_offset_mapping (allocated_block_ids p)"
  define off where "off = fst (the (fmlookup m b))"
  obtain x where x: "fmlookup m b = Some x"
    using True by (auto simp: contains_block_def bo_contains_block_def m_def)
  have bdom: "b \<in> fset (fmdom m)" using x by (simp add: fmlookup_dom_iff)
  have goff: "fst (get_block_offsets p b) = off"
    using x by (simp add: get_block_offsets_def bo_get_block_offsets_def off_def m_def)
  have m': "block_offset_mapping (allocated_block_ids p') = fmdrop b m"
    and f': "free_block_indexes p' = free_block_indexes p @ [off]"
    and d': "length (pdata p') = length (pdata p)"
    using assms(2) True goff
    by (auto simp: page_remove_block_def Let_def bnd_eq_Inr bo_remove_block_def m_def
        dest: mem_set_length)
  have ok: "distinct (free_block_indexes p)"
    "inj_on (\<lambda>b. fst (the (fmlookup m b))) (fset (fmdom m))"
    "\<forall>b \<in> fset (fmdom m). fst (the (fmlookup m b)) \<notin> set (free_block_indexes p)"
    "\<forall>b \<in> fset (fmdom m).
       snd (the (fmlookup m b)) = c_int (fst (the (fmlookup m b)) + IO_BLOCK_SIZE c - 1)"
    "set (free_block_indexes p) \<union> (\<lambda>b. fst (the (fmlookup m b))) ` fset (fmdom m) =
       set (slot_indexes (IO_BLOCK_SIZE c) (CACHE_PAGE_SIZE c) 0)"
    "length (pdata p) = nat (CACHE_PAGE_SIZE c)"
    using assms(1) unfolding slots_ok_def Let_def m_def [symmetric] by blast+
  have look: "fst (the (fmlookup (fmdrop b m) k)) = fst (the (fmlookup m k))"
    if "k \<in> fset (fmdom (fmdrop b m))" for k
    using that by auto
  have img: "(\<lambda>k. fst (the (fmlookup (fmdrop b m) k))) ` fset (fmdom (fmdrop b m)) =
      (\<lambda>k. fst (the (fmlookup m k))) ` (fset (fmdom m) - {b})"
    using look by (auto intro!: image_eqI)
  have "insert off ((\<lambda>k. fst (the (fmlookup m k))) ` (fset (fmdom m) - {b})) =
      (\<lambda>k. fst (the (fmlookup m k))) ` fset (fmdom m)"
    using bdom by (auto simp: off_def)
  then have "set (free_block_indexes p @ [off]) \<union>
      (\<lambda>k. fst (the (fmlookup (fmdrop b m) k))) ` fset (fmdom (fmdrop b m)) =
      set (slot_indexes (IO_BLOCK_SIZE c) (CACHE_PAGE_SIZE c) 0)"
    unfolding img using ok(5) by auto
  moreover have "inj_on (\<lambda>k. fst (the (fmlookup (fmdrop b m) k))) (fset (fmdom (fmdrop b m)))"
    using ok(2) by (auto simp: inj_on_def)
  moreover have "\<forall>k \<in> fset (fmdom (fmdrop b m)).
      fst (the (fmlookup (fmdrop b m) k)) \<notin> set (free_block_indexes p @ [off])"
    using ok(2,3) bdom by (auto simp: inj_on_def off_def)
  moreover have "off \<notin> set (free_block_indexes p)" using ok(3) bdom by (simp add: off_def)
  ultimately show ?thesis
    unfolding slots_ok_def Let_def m' f' d' using ok(1,4,6) by auto
qed

section \<open>Pages of one block\<close>

text \<open>
  The configurations considered: one block per page, sizes that fit the \<open>int\<close> variables of the
  code, and no eviction. A block of one byte is excluded because \<open>update_block_data\<close> takes the
  range \<open>(0, 0)\<close> for no range.
\<close>

definition single_block :: "config \<Rightarrow> bool" where
  "single_block c \<longleftrightarrow>
     CACHE_PAGE_SIZE c = IO_BLOCK_SIZE c \<and> 2 \<le> IO_BLOCK_SIZE c \<and> IO_BLOCK_SIZE c < 2147483648 \<and>
     0 < CACHE_NR_PAGES c \<and> CACHE_NR_PAGES c < 2147483648 \<and> \<not> APPLY_LRU_EVICTION c"

lemma single_blockD:
  assumes "single_block c"
  shows "CACHE_PAGE_SIZE c = IO_BLOCK_SIZE c" "2 \<le> IO_BLOCK_SIZE c" "0 < IO_BLOCK_SIZE c"
    "IO_BLOCK_SIZE c < 2147483648" "0 < CACHE_NR_PAGES c" "CACHE_NR_PAGES c < 2147483648"
    "\<not> APPLY_LRU_EVICTION c" "IO_BLOCK_SIZE c \<noteq> 0"
  using assms by (auto simp: single_block_def)

definition blank_page :: "config \<Rightarrow> page" where
  "blank_page c =
     \<lparr>is_dirty = False, page_owner_id = ''none'', free_block_indexes = [0],
      pdata = replicate (nat (IO_BLOCK_SIZE c)) 0, allocated_block_ids = bo_empty\<rparr>"

definition full_page ::
  "config \<Rightarrow> string \<Rightarrow> int \<Rightarrow> int \<Rightarrow> byte list \<Rightarrow> bool \<Rightarrow> page" where
  "full_page c owner b r dt dirty =
     \<lparr>is_dirty = dirty, page_owner_id = owner, free_block_indexes = [], pdata = dt,
      allocated_block_ids =
        \<lparr>block_offset_mapping = fmupd b (0, IO_BLOCK_SIZE c - 1) fmempty,
         block_readable_to = fmupd b r fmempty\<rparr>\<rparr>"

text \<open>New bytes laid over a block.\<close>

definition overlay :: "byte list \<Rightarrow> int \<Rightarrow> byte list \<Rightarrow> byte list" where
  "overlay dt off bs = take (nat off) dt @ bs @ drop (nat off + length bs) dt"

lemma overlay_length [simp]:
  "0 \<le> off \<Longrightarrow> off + int (length bs) \<le> int (length dt) \<Longrightarrow> length (overlay dt off bs) = length dt"
  by (auto simp: overlay_def)

lemma overlay_nth:
  assumes "0 \<le> off" "off + int (length bs) \<le> int (length dt)" "i < length dt"
  shows "overlay dt off bs ! i =
    (if nat off \<le> i \<and> i < nat off + length bs then bs ! (i - nat off) else dt ! i)"
  using assms by (auto simp: overlay_def nth_append)

lemma full_page_simps [simp]:
  "is_dirty (full_page c ow b r dt dirty) = dirty"
  "page_owner_id (full_page c ow b r dt dirty) = ow"
  "pdata (full_page c ow b r dt dirty) = dt"
  "has_free_space (full_page c ow b r dt dirty) = False"
  "is_page_owner (full_page c ow b r dt dirty) q \<longleftrightarrow> ow = q"
  "contains_block (full_page c ow b r dt dirty) b' \<longleftrightarrow> b' = b"
  "change_owner ow' (full_page c ow b r dt dirty) = full_page c ow' b r dt dirty"
  "set_page_as_dirty d' (full_page c ow b r dt dirty) = full_page c ow b r dt d'"
  "make_block_readable_to b r' (full_page c ow b r dt dirty) = full_page c ow b r' dt dirty"
  "get_block_offsets (full_page c ow b r dt dirty) b = (0, IO_BLOCK_SIZE c - 1)"
  "get_readable_to (allocated_block_ids (full_page c ow b r dt dirty)) b = Inr r"
  by (simp_all add: full_page_def has_free_space_def is_page_owner_def contains_block_def
      bo_contains_block_def change_owner_def set_page_as_dirty_def make_block_readable_to_def
      bo_make_readable_to_def get_block_offsets_def bo_get_block_offsets_def get_readable_to_def)

lemma full_page_inject [simp]:
  "full_page c ow b r dt dirty = full_page c ow' b' r' dt' dirty' \<longleftrightarrow>
     ow = ow' \<and> b = b' \<and> r = r' \<and> dt = dt' \<and> dirty = dirty'"
proof -
  have "fmupd b r fmempty = fmupd b' r' fmempty \<Longrightarrow> b = b' \<and> r = r'"
    by (metis fmempty_lookup fmupd_lookup option.distinct(1) option.inject)
  then show ?thesis by (auto simp: full_page_def)
qed

lemma blank_page_simps [simp]:
  "is_dirty (blank_page c) = False"
  "page_owner_id (blank_page c) = ''none''"
  "contains_block (blank_page c) b = False"
  "is_page_owner (blank_page c) q \<longleftrightarrow> q = ''none''"
  by (auto simp: blank_page_def contains_block_def bo_contains_block_def bo_empty_def
      is_page_owner_def)

lemma full_not_blank [simp]:
  "full_page c ow b r dt dirty \<noteq> blank_page c" "blank_page c \<noteq> full_page c ow b r dt dirty"
  by (metis blank_page_simps(3) full_page_simps(6))+

lemma slot_indexes_single: "0 < n \<Longrightarrow> slot_indexes n n 0 = [0]"
  by (subst slot_indexes.simps, simp, subst slot_indexes.simps, simp)

lemma new_page_single: "single_block c \<Longrightarrow> new_page c = Inr (blank_page c)"
  using single_blockD [of c] by (simp add: new_page_def blank_page_def slot_indexes_single)

lemma page_reset_single:
  "single_block c \<Longrightarrow> change_owner ''none'' (page_reset c p) = blank_page c"
  using single_blockD [of c]
  by (simp add: page_reset_def blank_page_def slot_indexes_single change_owner_def bo_reset_def
      bo_empty_def)

lemma get_allocate_free_offset_single:
  assumes "single_block c"
  shows "get_allocate_free_offset c b (blank_page c) =
    ((0, IO_BLOCK_SIZE c - 1),
     full_page c ''none'' b (- 1) (replicate (nat (IO_BLOCK_SIZE c)) 0) False)"
  using single_blockD [OF assms]
  by (simp add: get_allocate_free_offset_def blank_page_def full_page_def Let_def c_int_id
      insert_or_update_block_offsets_def bo_empty_def fmins_def)

lemma update_block_data_single:
  assumes "single_block c" and "0 \<le> off" and "0 \<le> len" and "off + len \<le> IO_BLOCK_SIZE c"
    and "len \<le> int (length bs)" and "int (length dt) = IO_BLOCK_SIZE c"
  shows "update_block_data c b bs len off (full_page c ow b r dt dirty) =
    Inr (True, full_page c ow b r (overlay dt off (take (nat len) bs)) True)"
proof -
  note c = single_blockD [OF assms(1)]
  have len: "u64 (off + len - 1 - off + 1) = len"
    using assms(2-4) c(4) by (simp add: u64_id)
  have read: "mem_read bs 0 len = Inr (take (nat len) bs)"
    using assms(3,5) by (simp add: mem_read_def)
  have min: "min (length bs) (nat len) = nat len" using assms(5) by simp
  have written: "mem_write dt off (take (nat len) bs) = Inr (overlay dt off (take (nat len) bs))"
    using assms(2-6) by (simp add: mem_write_def overlay_def min)
  have "set_page_as_dirty True (full_page c ow b r dt dirty)\<lparr>pdata := x\<rparr> = full_page c ow b r x True"
    for x by (simp add: full_page_def set_page_as_dirty_def)
  then show ?thesis
    using c(2) assms(2-4) len read written
    by (simp add: update_block_data_def rewrite_offset_data_def Let_def)
qed

lemma get_block_data_single:
  assumes "single_block c" and "int (length dt) = IO_BLOCK_SIZE c"
  shows "get_block_data (full_page c ow b r dt dirty) b (IO_BLOCK_SIZE c - 1) = Inr dt"
  using single_blockD [OF assms(1)] assms(2) mem_read_all [of dt]
  by (simp add: get_block_data_def Let_def u64_id)

lemma write_null_from_single:
  assumes "single_block c" and "0 \<le> k" and "k \<le> IO_BLOCK_SIZE c"
    and "int (length dt) = IO_BLOCK_SIZE c"
  shows "write_null_from c b k (full_page c ow b r dt dirty) =
    Inr (full_page c ow b r (take (nat k) dt @ replicate (nat (IO_BLOCK_SIZE c - k)) 0) dirty)"
proof -
  note c = single_blockD [OF assms(1)]
  have "u64 (IO_BLOCK_SIZE c - 0 - k) = IO_BLOCK_SIZE c - k" using assms c by (simp add: u64_id)
  moreover have "drop (nat k + nat (IO_BLOCK_SIZE c - k)) dt = []" using assms c by simp
  ultimately show ?thesis
    using assms c by (simp add: write_null_from_def Let_def mem_set_def mem_write_def)
      (simp add: full_page_def)
qed

lemma page_remove_block_single:
  assumes "single_block c" and "int (length dt) = IO_BLOCK_SIZE c"
  shows "\<exists>p. page_remove_block c b (full_page c ow b r dt dirty) = Inr p \<and> \<not> is_dirty p"
proof -
  note c = single_blockD [OF assms(1)]
  have "fmdrop b (fmupd b x fmempty) = fmempty" for x :: "int \<times> int"
    by (metis fmdrop_empty fmdrop_fmupd_same)
  then show ?thesis
    using assms c
    by (simp add: page_remove_block_def Let_def mem_set_def mem_write_def)
      (simp add: full_page_def bo_remove_block_def bo_is_empty_def)
qed

end
