(* ===== verification/Engine_Facts.thy ===== *)
theory Engine_Facts
  imports Engine Page_Facts
begin

text \<open>
  The invariant of the page engine for one block per page and no eviction, the view it gives of
  the cached blocks, and how the few kinds of state change the operations are made of act on
  both.
\<close>

section \<open>The cached blocks\<close>

record cblock =
  cb_page :: int
  cb_data :: "byte list"
  cb_readable :: int
  cb_dirty :: bool

definition block_of :: "int \<Rightarrow> page \<Rightarrow> int \<Rightarrow> cblock" where
  "block_of ptr p b =
     \<lparr>cb_page = ptr, cb_data = pdata p,
      cb_readable = the (fmlookup (block_readable_to (allocated_block_ids p)) b),
      cb_dirty = is_dirty p\<rparr>"

definition find_ref :: "engine \<Rightarrow> string \<Rightarrow> int \<Rightarrow> block_ref option" where
  "find_ref e ow b =
     (case fmlookup (owner_ordered_pages_mapping e) ow of None \<Rightarrow> None | Some m \<Rightarrow> fmlookup m b)"

text \<open>What the engine holds for a block of an owner.\<close>

definition cblocks :: "engine \<Rightarrow> string \<Rightarrow> int \<Rightarrow> cblock option" where
  "cblocks e ow b =
     (case find_ref e ow b of
        None \<Rightarrow> None
      | Some r \<Rightarrow> map_option (\<lambda>p. block_of (ref_page r) p b) (fmlookup (search_index e) (ref_page r)))"

definition nfree :: "engine \<Rightarrow> nat" where
  "nfree e = length (free_pages e)"

lemma block_of_full_page [simp]:
  "block_of ptr (full_page c ow b r dt dirty) b =
     \<lparr>cb_page = ptr, cb_data = dt, cb_readable = r, cb_dirty = dirty\<rparr>"
  by (simp add: block_of_def full_page_def)

section \<open>The invariant\<close>

text \<open>The pool has its pages under the numbers below \<open>CACHE_NR_PAGES\<close>; free pages are blank.\<close>

definition pool_ok :: "config \<Rightarrow> engine \<Rightarrow> bool" where
  "pool_ok c e \<longleftrightarrow>
     (\<forall>p. fmlookup (search_index e) p \<noteq> None \<longleftrightarrow> 0 \<le> p \<and> p < CACHE_NR_PAGES c) \<and>
     distinct (free_pages e) \<and>
     (\<forall>p \<in> set (free_pages e). fmlookup (search_index e) p = Some (blank_page c))"

text \<open>Every other page stores a block of an owner, and the owner knows where.\<close>

definition used_ok :: "config \<Rightarrow> engine \<Rightarrow> bool" where
  "used_ok c e \<longleftrightarrow>
     (\<forall>p pg. fmlookup (search_index e) p = Some pg \<longrightarrow> p \<notin> set (free_pages e) \<longrightarrow>
        (\<exists>ow b r dt dirty ref. ow \<noteq> ''none'' \<and> pg = full_page c ow b r dt dirty \<and>
            int (length dt) = IO_BLOCK_SIZE c \<and>
            find_ref e ow b = Some ref \<and> ref_page ref = p))"

text \<open>What an owner knows about its blocks is true.\<close>

definition refs_ok :: "config \<Rightarrow> engine \<Rightarrow> bool" where
  "refs_ok c e \<longleftrightarrow>
     (\<forall>ow b ref. find_ref e ow b = Some ref \<longrightarrow>
        ref_page_id ref = ref_page ref \<and> ref_offsets ref = (0, IO_BLOCK_SIZE c - 1) \<and>
        (\<exists>r dt dirty. fmlookup (search_index e) (ref_page ref) =
                        Some (full_page c ow b r dt dirty)))"

text \<open>The three maps of an owner agree, and it has no page with room left.\<close>

definition owner_entry_ok ::
  "(int, block_ref) fmap option \<Rightarrow> int fset option \<Rightarrow> int list option \<Rightarrow> bool" where
  "owner_entry_ok m s v =
     (case m of
        None \<Rightarrow> s = None \<and> v = None
      | Some m \<Rightarrow>
          v = Some [] \<and>
          (\<exists>ps. s = Some ps \<and> (\<forall>p. p |\<in>| ps \<longleftrightarrow> (\<exists>b ref. fmlookup m b = Some ref \<and> ref_page ref = p))))"

lemma owner_entry_ok_simps [simp]:
  "owner_entry_ok None s v \<longleftrightarrow> s = None \<and> v = None"
  "owner_entry_ok (Some m) s v \<longleftrightarrow>
     v = Some [] \<and>
     (\<exists>ps. s = Some ps \<and> (\<forall>p. p |\<in>| ps \<longleftrightarrow> (\<exists>b ref. fmlookup m b = Some ref \<and> ref_page ref = p)))"
  by (simp_all add: owner_entry_ok_def)

definition owners_ok :: "engine \<Rightarrow> bool" where
  "owners_ok e \<longleftrightarrow>
     fmlookup (owner_ordered_pages_mapping e) ''none'' = None \<and>
     (\<forall>ow. owner_entry_ok (fmlookup (owner_ordered_pages_mapping e) ow)
             (fmlookup (owner_pages_mapping e) ow) (fmlookup (owner_free_pages_mapping e) ow))"

definition eng_inv :: "config \<Rightarrow> engine \<Rightarrow> bool" where
  "eng_inv c e \<longleftrightarrow> pool_ok c e \<and> used_ok c e \<and> refs_ok c e \<and> owners_ok e"

lemma eng_invI:
  "pool_ok c e \<Longrightarrow> used_ok c e \<Longrightarrow> refs_ok c e \<Longrightarrow> owners_ok e \<Longrightarrow> eng_inv c e"
  by (simp add: eng_inv_def)

lemma eng_invD:
  assumes "eng_inv c e"
  shows "pool_ok c e" "used_ok c e" "refs_ok c e" "owners_ok e"
  using assms by (simp_all add: eng_inv_def)

section \<open>Consequences\<close>

lemma find_ref_block:
  assumes "eng_inv c e" and "find_ref e ow b = Some ref"
  obtains r dt dirty where
    "fmlookup (search_index e) (ref_page ref) = Some (full_page c ow b r dt dirty)"
    "int (length dt) = IO_BLOCK_SIZE c" "ow \<noteq> ''none''"
    "ref_page ref \<notin> set (free_pages e)"
    "cblocks e ow b = Some \<lparr>cb_page = ref_page ref, cb_data = dt, cb_readable = r, cb_dirty = dirty\<rparr>"
proof -
  obtain r dt dirty where pg:
    "fmlookup (search_index e) (ref_page ref) = Some (full_page c ow b r dt dirty)"
    using eng_invD(3) [OF assms(1)] assms(2) unfolding refs_ok_def by blast
  have nf: "ref_page ref \<notin> set (free_pages e)"
    using eng_invD(1) [OF assms(1)] pg by (auto simp: pool_ok_def)
  have "ow \<noteq> ''none'' \<and> int (length dt) = IO_BLOCK_SIZE c"
    using eng_invD(2) [OF assms(1)] pg nf by (fastforce simp: used_ok_def)
  then show ?thesis using that pg nf assms(2) by (simp add: cblocks_def)
qed

lemma cblocks_Some:
  assumes "eng_inv c e" and "cblocks e ow b = Some cb"
  shows "fmlookup (search_index e) (cb_page cb) =
           Some (full_page c ow b (cb_readable cb) (cb_data cb) (cb_dirty cb))"
    and "int (length (cb_data cb)) = IO_BLOCK_SIZE c" and "ow \<noteq> ''none''"
    and "0 \<le> cb_page cb" and "cb_page cb < CACHE_NR_PAGES c" and "cb_page cb \<notin> set (free_pages e)"
    and "\<exists>ref. find_ref e ow b = Some ref \<and> ref_page ref = cb_page cb"
proof -
  obtain ref where ref: "find_ref e ow b = Some ref"
    using assms(2) by (auto simp: cblocks_def split: option.splits)
  obtain r dt dirty where
    pg: "fmlookup (search_index e) (ref_page ref) = Some (full_page c ow b r dt dirty)"
    and len: "int (length dt) = IO_BLOCK_SIZE c" and nn: "ow \<noteq> ''none''"
    and nf: "ref_page ref \<notin> set (free_pages e)"
    and eq: "cblocks e ow b =
      Some \<lparr>cb_page = ref_page ref, cb_data = dt, cb_readable = r, cb_dirty = dirty\<rparr>"
    by (rule find_ref_block [OF assms(1) ref])
  have cb: "cb = \<lparr>cb_page = ref_page ref, cb_data = dt, cb_readable = r, cb_dirty = dirty\<rparr>"
    using eq assms(2) by simp
  show "fmlookup (search_index e) (cb_page cb) =
           Some (full_page c ow b (cb_readable cb) (cb_data cb) (cb_dirty cb))"
    and "int (length (cb_data cb)) = IO_BLOCK_SIZE c" and "ow \<noteq> ''none''"
    and "cb_page cb \<notin> set (free_pages e)"
    and "\<exists>ref. find_ref e ow b = Some ref \<and> ref_page ref = cb_page cb"
    using pg len nn nf ref by (simp_all add: cb)
  have "fmlookup (search_index e) (cb_page cb) \<noteq> None" using pg by (simp add: cb)
  then have "0 \<le> cb_page cb \<and> cb_page cb < CACHE_NR_PAGES c"
    using eng_invD(1) [OF assms(1)] unfolding pool_ok_def by blast
  then show "0 \<le> cb_page cb" and "cb_page cb < CACHE_NR_PAGES c" by auto
qed

lemma full_page_cblocks:
  assumes "eng_inv c e" and "fmlookup (search_index e) p = Some (full_page c ow b r dt dirty)"
  shows "cblocks e ow b = Some \<lparr>cb_page = p, cb_data = dt, cb_readable = r, cb_dirty = dirty\<rparr>"
    and "p \<notin> set (free_pages e)" and "int (length dt) = IO_BLOCK_SIZE c"
proof -
  show p: "p \<notin> set (free_pages e)"
    using eng_invD(1) [OF assms(1)] assms(2) by (auto simp: pool_ok_def)
  with assms obtain ref where ref: "find_ref e ow b = Some ref" "ref_page ref = p"
    using eng_invD(2) [OF assms(1)] by (fastforce simp: used_ok_def)
  obtain r' dt' dirty' where
    "fmlookup (search_index e) (ref_page ref) = Some (full_page c ow b r' dt' dirty')"
    "int (length dt') = IO_BLOCK_SIZE c"
    "cblocks e ow b =
      Some \<lparr>cb_page = ref_page ref, cb_data = dt', cb_readable = r', cb_dirty = dirty'\<rparr>"
    by (rule find_ref_block [OF assms(1) ref(1)])
  then show "cblocks e ow b = Some \<lparr>cb_page = p, cb_data = dt, cb_readable = r, cb_dirty = dirty\<rparr>"
    and "int (length dt) = IO_BLOCK_SIZE c"
    using ref(2) assms(2) by simp_all
qed

text \<open>A page stores one block of one owner.\<close>

lemma cblocks_page_unique:
  assumes "eng_inv c e" and "cblocks e ow b = Some cb" and "cblocks e ow' b' = Some cb'"
    and "cb_page cb = cb_page cb'"
  shows "ow = ow' \<and> b = b'"
  using cblocks_Some(1) [OF assms(1,2)] cblocks_Some(1) [OF assms(1,3)] assms(4) by simp

lemma page_cases:
  assumes "eng_inv c e" and "fmlookup (search_index e) p = Some pg"
  obtains (free) "p \<in> set (free_pages e)" "pg = blank_page c"
    | (used) ow b r dt dirty where "ow \<noteq> ''none''" "pg = full_page c ow b r dt dirty"
        "p \<notin> set (free_pages e)"
proof (cases "p \<in> set (free_pages e)")
  case True
  then show ?thesis using eng_invD(1) [OF assms(1)] assms(2) free by (auto simp: pool_ok_def)
next
  case False
  then show ?thesis using eng_invD(2) [OF assms(1)] assms(2) used unfolding used_ok_def by blast
qed

lemma is_block_cached_iff:
  assumes "eng_inv c e" and "ow \<noteq> ''none''"
  shows "is_block_cached e ow p b \<longleftrightarrow> (\<exists>cb. cblocks e ow b = Some cb \<and> cb_page cb = p)"
proof
  assume cached: "is_block_cached e ow p b"
  then obtain pg where pg: "fmlookup (search_index e) p = Some pg"
    "is_page_owner pg ow" "contains_block pg b"
    by (auto simp: is_block_cached_def split: option.splits)
  from assms(1) pg(1) show "\<exists>cb. cblocks e ow b = Some cb \<and> cb_page cb = p"
  proof (cases rule: page_cases)
    case free
    then show ?thesis using pg(3) by simp
  next
    case (used ow' b' r dt dirty)
    then have "pg = full_page c ow b r dt dirty" using pg(2,3) by simp
    then show ?thesis using full_page_cblocks(1) [OF assms(1)] pg(1) by fastforce
  qed
next
  assume "\<exists>cb. cblocks e ow b = Some cb \<and> cb_page cb = p"
  then show "is_block_cached e ow p b"
    using cblocks_Some(1) [OF assms(1)] by (auto simp: is_block_cached_def)
qed

lemma get_engine_usage_full_iff:
  assumes "single_block c" and "eng_inv c e"
  shows "get_engine_usage c e = 100 \<longleftrightarrow> nfree e = 0"
proof -
  note c = single_blockD [OF assms(1)]
  have pool: "distinct (free_pages e)" "set (free_pages e) \<subseteq> {0..<CACHE_NR_PAGES c}"
    using eng_invD(1) [OF assms(2)] by (auto simp: pool_ok_def)
  then have "card (set (free_pages e)) \<le> nat (CACHE_NR_PAGES c)"
    using card_mono [OF _ pool(2)] by simp
  then have len: "int (length (free_pages e)) \<le> CACHE_NR_PAGES c"
    using pool(1) c(5) by (simp add: distinct_card)
  then have "c_int (CACHE_NR_PAGES c - int (length (free_pages e))) =
      CACHE_NR_PAGES c - int (length (free_pages e))"
    using c(5,6) by (simp add: c_int_id)
  then have usage: "get_engine_usage c e =
      of_int (CACHE_NR_PAGES c - int (nfree e)) / of_int (CACHE_NR_PAGES c) * 100"
    by (simp only: get_engine_usage_def nfree_def Let_def)
  have ratio: "(x / n * 100 = 100) = (x = n)" if "n \<noteq> 0" for x n :: rat
  proof -
    have "(x / n * 100 = 100) = (x / n = 1)"
      using mult_cancel_right [of "x / n" 100 1] by simp
    also have "\<dots> \<longleftrightarrow> x = n"
      using that by (metis divide_self_if nonzero_mult_div_cancel_right right_inverse_eq)
    finally show ?thesis .
  qed
  have "get_engine_usage c e = 100 \<longleftrightarrow>
      rat_of_int (CACHE_NR_PAGES c - int (nfree e)) = rat_of_int (CACHE_NR_PAGES c)"
    unfolding usage by (rule ratio) (use c(5) in simp)
  also have "\<dots> \<longleftrightarrow> CACHE_NR_PAGES c - int (nfree e) = CACHE_NR_PAGES c"
    by (rule of_int_eq_iff)
  finally show ?thesis by simp
qed

lemma get_engine_usage_empty:
  assumes sb: "single_block c" and inv: "eng_inv c e" and none: "\<And>ow b. cblocks e ow b = None"
  shows "get_engine_usage c e = 0"
proof -
  note c = single_blockD [OF sb]
  have "p \<in> set (free_pages e)" if p: "0 \<le> p" "p < CACHE_NR_PAGES c" for p
  proof (rule ccontr)
    assume nf: "p \<notin> set (free_pages e)"
    obtain pg where pg: "fmlookup (search_index e) p = Some pg"
      using eng_invD(1) [OF inv] p by (auto simp: pool_ok_def)
    obtain ow b r dt dirty where "pg = full_page c ow b r dt dirty"
      by (rule page_cases [OF inv pg]) (use nf in auto)
    then show False using full_page_cblocks(1) [OF inv, of p ow b r dt dirty] pg none by simp
  qed
  moreover have pool: "distinct (free_pages e)" "set (free_pages e) \<subseteq> {0..<CACHE_NR_PAGES c}"
    using eng_invD(1) [OF inv] by (auto simp: pool_ok_def)
  ultimately have "set (free_pages e) = {0..<CACHE_NR_PAGES c}" by auto
  then have "length (free_pages e) = nat (CACHE_NR_PAGES c)"
    using pool(1) by (metis card_atLeastLessThan_int diff_zero distinct_card)
  then have "int (length (free_pages e)) = CACHE_NR_PAGES c" using c(5) by simp
  then show ?thesis by (simp add: get_engine_usage_def c_int_def)
qed

section \<open>The start\<close>

lemma add_fresh_pages:
  assumes "single_block c"
    and "foldE (add_fresh_page c) xs e = Inr e'" and "distinct xs"
    and "\<forall>p \<in> set xs. fmlookup (search_index e) p = None"
  shows "fmlookup (search_index e') p =
           (if p \<in> set xs then Some (blank_page c) else fmlookup (search_index e) p) \<and>
         free_pages e' = free_pages e @ xs \<and>
         owner_pages_mapping e' = owner_pages_mapping e \<and>
         owner_ordered_pages_mapping e' = owner_ordered_pages_mapping e \<and>
         owner_free_pages_mapping e' = owner_free_pages_mapping e"
  using assms(2-)
proof (induction xs arbitrary: e)
  case Nil
  then show ?case by simp
next
  case (Cons x xs)
  define e1 where "e1 = e\<lparr>search_index := fmins x (blank_page c) (search_index e),
                          free_pages := free_pages e @ [x]\<rparr>"
  have step: "add_fresh_page c x e = Inr e1"
    using new_page_single [OF assms(1)] by (simp add: add_fresh_page_def e1_def)
  have e1: "fmlookup (search_index e1) q =
      (if q = x then Some (blank_page c) else fmlookup (search_index e) q)" for q
    using Cons.prems(3) by (auto simp: e1_def fmlookup_fmins)
  have "fmlookup (search_index e') p =
           (if p \<in> set xs then Some (blank_page c) else fmlookup (search_index e1) p) \<and>
         free_pages e' = free_pages e1 @ xs \<and>
         owner_pages_mapping e' = owner_pages_mapping e1 \<and>
         owner_ordered_pages_mapping e' = owner_ordered_pages_mapping e1 \<and>
         owner_free_pages_mapping e' = owner_free_pages_mapping e1"
    by (rule Cons.IH) (use Cons.prems step e1 in auto)
  then show ?case using e1 by (auto simp: e1_def)
qed

lemma add_fresh_pages_ok: "single_block c \<Longrightarrow> \<exists>e'. foldE (add_fresh_page c) xs e = Inr e'"
proof (induction xs arbitrary: e)
  case (Cons x xs)
  then show ?case using new_page_single [of c] by (simp add: add_fresh_page_def)
qed simp

lemma new_engine_inv:
  assumes "single_block c"
  shows "\<exists>e. new_engine c = Inr e \<and> eng_inv c e \<and> cblocks e = (\<lambda>_ _. None) \<and>
             nfree e = nat (CACHE_NR_PAGES c)"
proof -
  obtain e where e: "new_engine c = Inr e"
    using add_fresh_pages_ok [OF assms] unfolding new_engine_def by blast
  note facts = add_fresh_pages [OF assms e [unfolded new_engine_def]]
  have look: "fmlookup (search_index e) p =
      (if 0 \<le> p \<and> p < CACHE_NR_PAGES c then Some (blank_page c) else None)" for p
    using facts [of p] by auto
  have free: "free_pages e = [0..CACHE_NR_PAGES c - 1]"
    and maps: "owner_pages_mapping e = fmempty" "owner_ordered_pages_mapping e = fmempty"
      "owner_free_pages_mapping e = fmempty"
    using facts [of 0] by auto
  have "find_ref e ow b = None" for ow b using maps by (simp add: find_ref_def)
  then have "eng_inv c e" "cblocks e = (\<lambda>_ _. None)"
    using look free maps
    by (auto simp: eng_inv_def pool_ok_def used_ok_def refs_ok_def owners_ok_def cblocks_def
        fun_eq_iff)
  moreover have "nfree e = nat (CACHE_NR_PAGES c)"
    using free by (simp add: nfree_def)
  ultimately show ?thesis using e by blast
qed

section \<open>Changing a stored block\<close>

lemma find_ref_put_page [simp]: "find_ref (put_page p pg e) = find_ref e"
  by (simp add: find_ref_def put_page_def fun_eq_iff)

lemma put_page_frame [simp]:
  "free_pages (put_page p pg e) = free_pages e"
  "owner_pages_mapping (put_page p pg e) = owner_pages_mapping e"
  "owner_ordered_pages_mapping (put_page p pg e) = owner_ordered_pages_mapping e"
  "owner_free_pages_mapping (put_page p pg e) = owner_free_pages_mapping e"
  "fmlookup (search_index (put_page p pg e)) q =
     (if q = p then Some pg else fmlookup (search_index e) q)"
  "nfree (put_page p pg e) = nfree e"
  by (simp_all add: put_page_def nfree_def)

text \<open>The view of the cached blocks with one of them replaced.\<close>

definition upd_view ::
  "string \<Rightarrow> int \<Rightarrow> cblock option \<Rightarrow> (string \<Rightarrow> int \<Rightarrow> cblock option) \<Rightarrow>
   string \<Rightarrow> int \<Rightarrow> cblock option" where
  "upd_view ow b x v = v(ow := (v ow)(b := x))"

lemma upd_view_apply: "upd_view ow b x v ow' b' = (if ow' = ow \<and> b' = b then x else v ow' b')"
  by (simp add: upd_view_def)

lemma ref_facts:
  assumes "eng_inv c e" and "find_ref e ow b = Some ref"
  shows "ref_page_id ref = ref_page ref" "ref_offsets ref = (0, IO_BLOCK_SIZE c - 1)"
    "\<exists>r dt dirty. fmlookup (search_index e) (ref_page ref) = Some (full_page c ow b r dt dirty)"
  using eng_invD(3) [OF assms(1)] assms(2) unfolding refs_ok_def by blast+

lemma used_facts:
  assumes "eng_inv c e" and "fmlookup (search_index e) p = Some pg" and "p \<notin> set (free_pages e)"
  obtains ow b r dt dirty ref where "ow \<noteq> ''none''" "pg = full_page c ow b r dt dirty"
    "int (length dt) = IO_BLOCK_SIZE c" "find_ref e ow b = Some ref" "ref_page ref = p"
proof -
  have "\<exists>ow b r dt dirty ref. ow \<noteq> ''none'' \<and> pg = full_page c ow b r dt dirty \<and>
      int (length dt) = IO_BLOCK_SIZE c \<and> find_ref e ow b = Some ref \<and> ref_page ref = p"
    by (rule eng_invD(2) [OF assms(1), unfolded used_ok_def, rule_format, OF assms(2,3)])
  then show ?thesis using that by (elim exE conjE)
qed

lemma touch_page:
  assumes "eng_inv c e" and "cblocks e ow b = Some cb"
    and "int (length dt) = IO_BLOCK_SIZE c"
  shows "eng_inv c (put_page (cb_page cb) (full_page c ow b r dt dirty) e)" (is "eng_inv c ?e")
    and "cblocks (put_page (cb_page cb) (full_page c ow b r dt dirty) e) =
      upd_view ow b (Some \<lparr>cb_page = cb_page cb, cb_data = dt, cb_readable = r, cb_dirty = dirty\<rparr>)
        (cblocks e)"
proof -
  note cb = cblocks_Some [OF assms(1,2)]
  note inv = eng_invD [OF assms(1)]
  obtain ref where ref: "find_ref e ow b = Some ref" "ref_page ref = cb_page cb" using cb(7) by blast
  have other: "ref_page ref' = cb_page cb \<Longrightarrow> ow' = ow \<and> b' = b"
    if "find_ref e ow' b' = Some ref'" for ow' b' ref'
    using inv(3) that cb(1) by (fastforce simp: refs_ok_def)
  have "pool_ok c ?e" using inv(1) cb(1,6) by (auto simp: pool_ok_def)
  moreover have "used_ok c ?e" using inv(2) ref assms(3) cb(3) by (auto simp: used_ok_def)
  moreover have "refs_ok c ?e" using inv(3) other by (fastforce simp: refs_ok_def)
  moreover have "owners_ok ?e" using inv(4) by (simp add: owners_ok_def)
  ultimately show "eng_inv c ?e" by (rule eng_invI)
  show "cblocks ?e = upd_view ow b
      (Some \<lparr>cb_page = cb_page cb, cb_data = dt, cb_readable = r, cb_dirty = dirty\<rparr>) (cblocks e)"
  proof (intro ext)
    fix ow' b'
    show "cblocks ?e ow' b' = upd_view ow b
      (Some \<lparr>cb_page = cb_page cb, cb_data = dt, cb_readable = r, cb_dirty = dirty\<rparr>) (cblocks e) ow' b'"
    proof (cases "find_ref e ow' b'")
      case None
      then have "\<not> (ow' = ow \<and> b' = b)" using ref(1) by auto
      then show ?thesis using None by (simp add: cblocks_def upd_view_apply)
    next
      case (Some ref')
      show ?thesis
      proof (cases "ow' = ow \<and> b' = b")
        case True
        then show ?thesis using ref by (simp add: cblocks_def upd_view_apply)
      next
        case False
        then have "ref_page ref' \<noteq> cb_page cb" using other [OF Some] by blast
        then show ?thesis using Some False by (auto simp: cblocks_def upd_view_apply)
      qed
    qed
  qed
qed

text \<open>The flag that a block is synced does not matter to either.\<close>

lemma resync_ref:
  fixes s :: bool
  assumes "eng_inv c e" and "fmlookup (owner_ordered_pages_mapping e) ow = Some m"
    and "fmlookup m b = Some ref"
  defines "e' \<equiv> e\<lparr>owner_ordered_pages_mapping :=
      fmupd ow (fmupd b (ref\<lparr>ref_synced := s\<rparr>) m) (owner_ordered_pages_mapping e)\<rparr>"
  shows "eng_inv c e'" and "cblocks e' = cblocks e" and "nfree e' = nfree e"
    and "free_pages e' = free_pages e" and "search_index e' = search_index e"
proof -
  have ref: "find_ref e ow b = Some ref" using assms(2,3) by (simp add: find_ref_def)
  have find: "find_ref e' ow' b' =
      (if ow' = ow \<and> b' = b then Some (ref\<lparr>ref_synced := s\<rparr>) else find_ref e ow' b')" for ow' b'
    using assms(2) by (auto simp: e'_def find_ref_def)
  show same: "free_pages e' = free_pages e" "search_index e' = search_index e"
    "nfree e' = nfree e"
    by (simp_all add: e'_def nfree_def)
  note inv = eng_invD [OF assms(1)]
  have refs: "\<exists>r'. find_ref e' ow1 b1 = Some r' \<and> ref_page_id r' = ref_page_id r1 \<and>
      ref_page r' = ref_page r1 \<and> ref_offsets r' = ref_offsets r1"
    if "find_ref e ow1 b1 = Some r1" for ow1 b1 r1
    using that ref find [of ow1 b1] by (cases "ow1 = ow \<and> b1 = b") auto
  have refs': "\<exists>r1. find_ref e ow1 b1 = Some r1 \<and> ref_page_id r' = ref_page_id r1 \<and>
      ref_page r' = ref_page r1 \<and> ref_offsets r' = ref_offsets r1"
    if "find_ref e' ow1 b1 = Some r'" for ow1 b1 r'
    using that ref find [of ow1 b1] by (cases "ow1 = ow \<and> b1 = b") auto
  have "pool_ok c e'" using inv(1) same by (simp add: pool_ok_def)
  moreover have "used_ok c e'"
    unfolding used_ok_def same
  proof (intro allI impI)
    fix p pg assume "fmlookup (search_index e) p = Some pg" "p \<notin> set (free_pages e)"
    then obtain ow1 b1 r dt dirty ref1 where u:
      "ow1 \<noteq> ''none''" "pg = full_page c ow1 b1 r dt dirty" "int (length dt) = IO_BLOCK_SIZE c"
      "find_ref e ow1 b1 = Some ref1" "ref_page ref1 = p"
      by (rule used_facts [OF assms(1)])
    with refs [OF u(4)]
    show "\<exists>ow b r dt dirty ref. ow \<noteq> ''none'' \<and> pg = full_page c ow b r dt dirty \<and>
        int (length dt) = IO_BLOCK_SIZE c \<and> find_ref e' ow b = Some ref \<and> ref_page ref = p"
      by metis
  qed
  moreover have "refs_ok c e'"
    unfolding refs_ok_def same
  proof (intro allI impI)
    fix ow1 b1 ref1 assume "find_ref e' ow1 b1 = Some ref1"
    from refs' [OF this] show "ref_page_id ref1 = ref_page ref1 \<and> ref_offsets ref1 = (0, IO_BLOCK_SIZE c - 1) \<and>
        (\<exists>r dt dirty. fmlookup (search_index e) (ref_page ref1) =
                        Some (full_page c ow1 b1 r dt dirty))"
      using ref_facts [OF assms(1)] by metis
  qed
  moreover have "owners_ok e'"
  proof -
    have same_pages: "(\<exists>b' r. fmlookup (fmupd b (ref\<lparr>ref_synced := s\<rparr>) m) b' = Some r \<and> ref_page r = p)
        \<longleftrightarrow> (\<exists>b' r. fmlookup m b' = Some r \<and> ref_page r = p)" for p
    proof
      assume "\<exists>b' r. fmlookup (fmupd b (ref\<lparr>ref_synced := s\<rparr>) m) b' = Some r \<and> ref_page r = p"
      then show "\<exists>b' r. fmlookup m b' = Some r \<and> ref_page r = p"
        using assms(3) by (auto split: if_splits)
    next
      assume "\<exists>b' r. fmlookup m b' = Some r \<and> ref_page r = p"
      then obtain b1 r1 where "fmlookup m b1 = Some r1" "ref_page r1 = p" by blast
      then show "\<exists>b' r. fmlookup (fmupd b (ref\<lparr>ref_synced := s\<rparr>) m) b' = Some r \<and> ref_page r = p"
        using assms(3) by (cases "b1 = b") (auto intro: exI [of _ b1] exI [of _ b])
    qed
    have "owner_entry_ok (Some m) (fmlookup (owner_pages_mapping e) ow)
        (fmlookup (owner_free_pages_mapping e) ow)"
      using inv(4) assms(2) unfolding owners_ok_def by metis
    then have entry: "owner_entry_ok (Some (fmupd b (ref\<lparr>ref_synced := s\<rparr>) m))
        (fmlookup (owner_pages_mapping e) ow) (fmlookup (owner_free_pages_mapping e) ow)"
      by (simp only: owner_entry_ok_simps same_pages)
    have "owner_entry_ok (fmlookup (owner_ordered_pages_mapping e') ow')
          (fmlookup (owner_pages_mapping e') ow') (fmlookup (owner_free_pages_mapping e') ow')" for ow'
      using entry inv(4) by (cases "ow' = ow") (simp_all add: e'_def owners_ok_def)
    then show ?thesis using inv(4) assms(2) by (auto simp: owners_ok_def e'_def)
  qed
  ultimately show "eng_inv c e'" by (rule eng_invI)
  show "cblocks e' = cblocks e"
  proof (intro ext)
    fix ow1 b1
    show "cblocks e' ow1 b1 = cblocks e ow1 b1"
      using ref by (cases "find_ref e ow1 b1") (auto simp: cblocks_def find same)
  qed
qed

section \<open>Taking and giving back pages\<close>

lemma cblocks_None_iff: "eng_inv c e \<Longrightarrow> cblocks e ow b = None \<longleftrightarrow> find_ref e ow b = None"
proof -
  assume inv: "eng_inv c e"
  show ?thesis
  proof (cases "find_ref e ow b")
    case None
    then show ?thesis by (simp add: cblocks_def)
  next
    case (Some ref)
    show ?thesis using ref_facts(3) [OF inv Some] Some by (auto simp: cblocks_def)
  qed
qed

lemma cblocks_cong:
  assumes "map_option ref_page (find_ref e' ow b) = map_option ref_page (find_ref e ow b)"
    and "\<And>r. find_ref e ow b = Some r \<Longrightarrow>
      fmlookup (search_index e') (ref_page r) = fmlookup (search_index e) (ref_page r)"
  shows "cblocks e' ow b = cblocks e ow b"
proof (cases "find_ref e ow b")
  case None
  then show ?thesis using assms(1) by (simp add: cblocks_def)
next
  case (Some r)
  then obtain r' where "find_ref e' ow b = Some r'" "ref_page r' = ref_page r"
    using assms(1) by (cases "find_ref e' ow b") auto
  then show ?thesis using Some assms(2) by (simp add: cblocks_def)
qed

lemma occupy_page:
  assumes inv: "eng_inv c e" and nn: "ow \<noteq> ''none''" and none: "find_ref e ow b = None"
    and free: "free_pages e = fs @ [p]" "free_pages e' = fs"
    and idx: "\<And>q. fmlookup (search_index e') q =
      (if q = p then Some (full_page c ow b r dt dirty) else fmlookup (search_index e) q)"
    and dt: "int (length dt) = IO_BLOCK_SIZE c"
    and ref: "ref_page_id ref = p" "ref_page ref = p" "ref_offsets ref = (0, IO_BLOCK_SIZE c - 1)"
    and find: "\<And>ow' b'. find_ref e' ow' b' =
      (if ow' = ow \<and> b' = b then Some ref else find_ref e ow' b')"
    and owners: "owners_ok e'"
  shows "eng_inv c e'"
    and "cblocks e' = upd_view ow b
      (Some \<lparr>cb_page = p, cb_data = dt, cb_readable = r, cb_dirty = dirty\<rparr>) (cblocks e)"
    and "nfree e' = nfree e - 1"
proof -
  note i = eng_invD [OF inv]
  have p: "fmlookup (search_index e) p = Some (blank_page c)" "p \<notin> set fs" "distinct fs"
    using i(1) free(1) by (auto simp: pool_ok_def)
  have not_p: "ref_page r' \<noteq> p" if "find_ref e ow' b' = Some r'" for ow' b' r'
    using ref_facts(3) [OF inv that] p(1) by auto
  have "pool_ok c e'"
    unfolding pool_ok_def free(2)
  proof (intro conjI allI ballI)
    fix q show "fmlookup (search_index e') q \<noteq> None \<longleftrightarrow> 0 \<le> q \<and> q < CACHE_NR_PAGES c"
      using i(1) p(1) idx by (cases "q = p") (auto simp: pool_ok_def)
  next
    fix q assume "q \<in> set fs"
    then show "fmlookup (search_index e') q = Some (blank_page c)"
      using i(1) p(2) idx free(1) by (auto simp: pool_ok_def)
  qed (rule p(3))
  moreover have "used_ok c e'"
    unfolding used_ok_def free(2)
  proof (intro allI impI)
    fix q pg assume q: "fmlookup (search_index e') q = Some pg" "q \<notin> set fs"
    show "\<exists>ow b r dt dirty ref. ow \<noteq> ''none'' \<and> pg = full_page c ow b r dt dirty \<and>
        int (length dt) = IO_BLOCK_SIZE c \<and> find_ref e' ow b = Some ref \<and> ref_page ref = q"
    proof (cases "q = p")
      case True
      then have "pg = full_page c ow b r dt dirty" using q(1) idx by simp
      moreover have "find_ref e' ow b = Some ref" using find by simp
      ultimately show ?thesis using nn dt ref(2) True by blast
    next
      case False
      then have old: "fmlookup (search_index e) q = Some pg" "q \<notin> set (free_pages e)"
        using q idx free(1) by auto
      obtain ow1 b1 r1 dt1 dirty1 ref1 where u: "ow1 \<noteq> ''none''"
        "pg = full_page c ow1 b1 r1 dt1 dirty1" "int (length dt1) = IO_BLOCK_SIZE c"
        "find_ref e ow1 b1 = Some ref1" "ref_page ref1 = q"
        by (rule used_facts [OF inv old])
      then have "find_ref e' ow1 b1 = Some ref1" using find none by auto
      then show ?thesis using u by blast
    qed
  qed
  moreover have "refs_ok c e'"
    unfolding refs_ok_def
  proof (intro allI impI)
    fix ow1 b1 ref1 assume f: "find_ref e' ow1 b1 = Some ref1"
    show "ref_page_id ref1 = ref_page ref1 \<and> ref_offsets ref1 = (0, IO_BLOCK_SIZE c - 1) \<and>
        (\<exists>r dt dirty. fmlookup (search_index e') (ref_page ref1) =
                        Some (full_page c ow1 b1 r dt dirty))"
    proof (cases "ow1 = ow \<and> b1 = b")
      case True
      then show ?thesis using f find ref idx by auto
    next
      case False
      then have old: "find_ref e ow1 b1 = Some ref1" using f find by auto
      then show ?thesis using ref_facts [OF inv old] not_p [OF old] idx by auto
    qed
  qed
  ultimately show "eng_inv c e'" using owners by (intro eng_invI)
  show "cblocks e' = upd_view ow b
      (Some \<lparr>cb_page = p, cb_data = dt, cb_readable = r, cb_dirty = dirty\<rparr>) (cblocks e)"
  proof (intro ext)
    fix ow1 b1
    show "cblocks e' ow1 b1 = upd_view ow b
      (Some \<lparr>cb_page = p, cb_data = dt, cb_readable = r, cb_dirty = dirty\<rparr>) (cblocks e) ow1 b1"
    proof (cases "ow1 = ow \<and> b1 = b")
      case True
      then show ?thesis using find ref idx by (simp add: cblocks_def upd_view_apply)
    next
      case False
      have "cblocks e' ow1 b1 = cblocks e ow1 b1"
        by (rule cblocks_cong) (use False find not_p idx in auto)
      then show ?thesis using False by (auto simp: upd_view_apply)
    qed
  qed
  show "nfree e' = nfree e - 1" using free by (simp add: nfree_def)
qed

lemma drop_refs:
  assumes inv: "eng_inv c e"
    and free: "free_pages e' = free_pages e @ ps" and ps: "distinct ps"
      "\<And>q. q \<in> set ps \<longleftrightarrow> (\<exists>b ref. b \<in> K \<and> find_ref e ow b = Some ref \<and> ref_page ref = q)"
    and idx: "\<And>q. fmlookup (search_index e') q =
      (if q \<in> set ps then Some (blank_page c) else fmlookup (search_index e) q)"
    and find: "\<And>ow' b'. find_ref e' ow' b' =
      (if ow' = ow \<and> b' \<in> K then None else find_ref e ow' b')"
    and owners: "owners_ok e'"
  shows "eng_inv c e'"
    and "cblocks e' ow' b' = (if ow' = ow \<and> b' \<in> K then None else cblocks e ow' b')"
    and "nfree e' = nfree e + length ps"
proof -
  note i = eng_invD [OF inv]
  have used: "fmlookup (search_index e) q \<noteq> None \<and> q \<notin> set (free_pages e)" if q: "q \<in> set ps" for q
  proof -
    obtain b ref where ref: "find_ref e ow b = Some ref" "ref_page ref = q"
      using iffD1 [OF ps(2) q] by blast
    then obtain r dt dirty where pg: "fmlookup (search_index e) q = Some (full_page c ow b r dt dirty)"
      using ref_facts(3) [OF inv ref(1)] by auto
    show ?thesis using full_page_cblocks(2) [OF inv pg] pg by simp
  qed
  have not_ps: "ref_page r' \<notin> set ps"
    if "find_ref e ow' b' = Some r'" "\<not> (ow' = ow \<and> b' \<in> K)" for ow' b' r'
  proof
    assume "ref_page r' \<in> set ps"
    then obtain b ref where b: "b \<in> K" "find_ref e ow b = Some ref" "ref_page ref = ref_page r'"
      using iffD1 [OF ps(2)] by blast
    have "ow = ow' \<and> b = b'"
      using ref_facts(3) [OF inv b(2)] ref_facts(3) [OF inv that(1)] b(3) by auto
    then show False using that(2) b(1) by auto
  qed
  have "pool_ok c e'"
    unfolding pool_ok_def free
  proof (intro conjI allI ballI)
    fix q show "fmlookup (search_index e') q \<noteq> None \<longleftrightarrow> 0 \<le> q \<and> q < CACHE_NR_PAGES c"
      using i(1) used [of q] idx by (cases "q \<in> set ps") (auto simp: pool_ok_def)
  next
    show "distinct (free_pages e @ ps)" using i(1) ps(1) used by (auto simp: pool_ok_def)
  next
    fix q assume "q \<in> set (free_pages e @ ps)"
    then show "fmlookup (search_index e') q = Some (blank_page c)"
      using i(1) idx by (auto simp: pool_ok_def)
  qed
  moreover have "used_ok c e'"
    unfolding used_ok_def free
  proof (intro allI impI)
    fix q pg assume q: "fmlookup (search_index e') q = Some pg" "q \<notin> set (free_pages e @ ps)"
    then have old: "fmlookup (search_index e) q = Some pg" "q \<notin> set (free_pages e)"
      using idx by auto
    obtain ow1 b1 r1 dt1 dirty1 ref1 where u: "ow1 \<noteq> ''none''"
      "pg = full_page c ow1 b1 r1 dt1 dirty1" "int (length dt1) = IO_BLOCK_SIZE c"
      "find_ref e ow1 b1 = Some ref1" "ref_page ref1 = q"
      by (rule used_facts [OF inv old])
    have "\<not> (ow1 = ow \<and> b1 \<in> K)" using u(4,5) q(2) ps(2) by auto
    then have "find_ref e' ow1 b1 = Some ref1" using find u(4) by auto
    then show "\<exists>ow b r dt dirty ref. ow \<noteq> ''none'' \<and> pg = full_page c ow b r dt dirty \<and>
        int (length dt) = IO_BLOCK_SIZE c \<and> find_ref e' ow b = Some ref \<and> ref_page ref = q"
      using u by blast
  qed
  moreover have "refs_ok c e'"
    unfolding refs_ok_def
  proof (intro allI impI)
    fix ow1 b1 ref1 assume f: "find_ref e' ow1 b1 = Some ref1"
    then have old: "\<not> (ow1 = ow \<and> b1 \<in> K)" "find_ref e ow1 b1 = Some ref1"
      using find by (auto split: if_splits)
    show "ref_page_id ref1 = ref_page ref1 \<and> ref_offsets ref1 = (0, IO_BLOCK_SIZE c - 1) \<and>
        (\<exists>r dt dirty. fmlookup (search_index e') (ref_page ref1) =
                        Some (full_page c ow1 b1 r dt dirty))"
      using ref_facts [OF inv old(2)] not_ps [OF old(2,1)] idx by simp
  qed
  ultimately show "eng_inv c e'" using owners by (intro eng_invI)
  show "cblocks e' ow' b' = (if ow' = ow \<and> b' \<in> K then None else cblocks e ow' b')"
  proof (cases "ow' = ow \<and> b' \<in> K")
    case True
    then show ?thesis using find by (simp add: cblocks_def)
  next
    case False
    have "cblocks e' ow' b' = cblocks e ow' b'"
      by (rule cblocks_cong) (use False find not_ps idx in auto)
    then show ?thesis using False by auto
  qed
  show "nfree e' = nfree e + length ps" using free by (simp add: nfree_def)
qed

section \<open>The pages in use\<close>

text \<open>Every page is free or holds one cached block.\<close>

lemma pages_in_use:
  assumes inv: "eng_inv c e"
  defines "used \<equiv> {(ow, b). cblocks e ow b \<noteq> None}"
  shows "finite used" and "nfree e + card used = nat (CACHE_NR_PAGES c)"
proof -
  define page where "page = (\<lambda>(ow, b). cb_page (the (cblocks e ow b)))"
  have facts: "\<exists>ref r dt dirty. find_ref e ow b = Some ref \<and> ref_page ref = page (ow, b) \<and>
      fmlookup (search_index e) (page (ow, b)) = Some (full_page c ow b r dt dirty) \<and>
      page (ow, b) \<notin> set (free_pages e)" if u: "(ow, b) \<in> used" for ow b
  proof -
    obtain ref where "find_ref e ow b = Some ref"
      using u by (cases "find_ref e ow b") (auto simp: used_def cblocks_def)
    then show ?thesis using find_ref_block [OF inv] by (metis (no_types, lifting) page_def prod.case option.sel cblock.select_convs(1))
  qed
  have "inj_on page used"
  proof (rule inj_onI, clarify)
    fix ow b ow' b' assume u: "(ow, b) \<in> used" "(ow', b') \<in> used" "page (ow, b) = page (ow', b')"
    from facts [OF u(1)] facts [OF u(2)] u(3) obtain r dt dirty r' dt' dirty' where
      "full_page c ow b r dt dirty = full_page c ow' b' r' dt' dirty'" by (metis option.inject)
    then show "ow = ow' \<and> b = b'" by simp
  qed
  moreover have img: "page ` used = {0..<CACHE_NR_PAGES c} - set (free_pages e)"
  proof
    show "page ` used \<subseteq> {0..<CACHE_NR_PAGES c} - set (free_pages e)"
    proof clarify
      fix ow b assume "(ow, b) \<in> used"
      from facts [OF this] eng_invD(1) [OF inv]
      show "page (ow, b) \<in> {0..<CACHE_NR_PAGES c} - set (free_pages e)" by (auto simp: pool_ok_def)
    qed
    show "{0..<CACHE_NR_PAGES c} - set (free_pages e) \<subseteq> page ` used"
    proof
      fix p assume p: "p \<in> {0..<CACHE_NR_PAGES c} - set (free_pages e)"
      then have "fmlookup (search_index e) p \<noteq> None" using eng_invD(1) [OF inv] by (auto simp: pool_ok_def)
      then obtain pg where pg: "fmlookup (search_index e) p = Some pg" by blast
      have "\<exists>ow b ref. find_ref e ow b = Some ref \<and> ref_page ref = p"
        using eng_invD(2) [OF inv] pg p unfolding used_ok_def by blast
      then obtain ow b ref where ref: "find_ref e ow b = Some ref" "ref_page ref = p" by blast
      obtain r dt dirty where "cblocks e ow b = Some \<lparr>cb_page = p, cb_data = dt, cb_readable = r, cb_dirty = dirty\<rparr>"
        using find_ref_block [OF inv ref(1)] ref(2) by metis
      then have "(ow, b) \<in> used" "page (ow, b) = p" by (simp_all add: used_def page_def)
      then show "p \<in> page ` used" by (metis imageI)
    qed
  qed
  ultimately show "finite used" using finite_imageD [of page used] by (metis finite_Diff finite_atLeastLessThan_int)
  have sub: "set (free_pages e) \<subseteq> {0..<CACHE_NR_PAGES c}" and d: "distinct (free_pages e)"
    using eng_invD(1) [OF inv] by (auto simp: pool_ok_def)
  have "card used = card ({0..<CACHE_NR_PAGES c} - set (free_pages e))"
    using card_image [OF \<open>inj_on page used\<close>] img by simp
  also have "\<dots> = nat (CACHE_NR_PAGES c) - nfree e"
    using sub d by (simp add: card_Diff_subset nfree_def distinct_card)
  moreover have "nfree e \<le> nat (CACHE_NR_PAGES c)"
    using card_mono [OF _ sub] d by (simp add: nfree_def distinct_card)
  ultimately show "nfree e + card used = nat (CACHE_NR_PAGES c)" by simp
qed

end
