(* ===== verification/Engine_Ops.thy ===== *)
theory Engine_Ops
  imports Engine_Facts
begin

text \<open>
  The operations of the engine on a state that satisfies the invariant (one block per page, no
  eviction): each one returns, keeps the invariant, and changes the view of the cached blocks as
  stated.
\<close>

section \<open>Allocation\<close>

lemma nfree_0: "nfree e = 0 \<longleftrightarrow> free_pages e = []"
  by (simp add: nfree_def)

lemma owner_free_lookup:
  assumes "eng_inv c e"
  shows "(case fmlookup (owner_pages_mapping e) ow of
            None \<Rightarrow> Inr [] | Some _ \<Rightarrow> fmat (owner_free_pages_mapping e) ow) = Inr []"
proof -
  have "owner_entry_ok (fmlookup (owner_ordered_pages_mapping e) ow)
      (fmlookup (owner_pages_mapping e) ow) (fmlookup (owner_free_pages_mapping e) ow)"
    using eng_invD(4) [OF assms] by (simp add: owners_ok_def)
  then show ?thesis
    by (cases "fmlookup (owner_ordered_pages_mapping e) ow") (auto simp: fmat_Some)
qed

lemma get_next_free_page_single:
  assumes "single_block c" and "eng_inv c e"
  shows "free_pages e = [] \<Longrightarrow> get_next_free_page h c ow e d = Inr ((- 1, None), e, d)"
    and "free_pages e = fs @ [p] \<Longrightarrow>
      get_next_free_page h c ow e d = Inr ((p, Some p), e\<lparr>free_pages := fs\<rparr>, d)"
proof -
  show "free_pages e = [] \<Longrightarrow> get_next_free_page h c ow e d = Inr ((- 1, None), e, d)"
    using single_blockD(7) [OF assms(1)]
    by (simp add: get_next_free_page_def owner_free_lookup [OF assms(2)])
  assume fs: "free_pages e = fs @ [p]"
  then have "fmlookup (search_index e) p = Some (blank_page c)"
    using eng_invD(1) [OF assms(2)] by (simp add: pool_ok_def)
  then have "get_page_ptr (e\<lparr>free_pages := fs\<rparr>) p = Some p" by (simp add: get_page_ptr_def)
  then show "get_next_free_page h c ow e d = Inr ((p, Some p), e\<lparr>free_pages := fs\<rparr>, d)"
    using fs by (simp add: get_next_free_page_def owner_free_lookup [OF assms(2)])
qed

lemma owners_ok_occupy:
  assumes inv: "eng_inv c e" and nn: "ow \<noteq> ''none''" and none: "find_ref e ow b = None"
    and ref: "ref = \<lparr>ref_page_id = p, ref_page = p, ref_offsets = offs, ref_synced = False\<rparr>"
    and e1: "owner_pages_mapping e1 = owner_pages_mapping e"
      "owner_ordered_pages_mapping e1 = owner_ordered_pages_mapping e"
      "owner_free_pages_mapping e1 = owner_free_pages_mapping e"
  obtains e2 where "own_page ow p b offs e1 = Inr e2"
    and "search_index e2 = search_index e1" and "free_pages e2 = free_pages e1"
    and "owners_ok e2"
    and "\<And>ow' b'. find_ref e2 ow' b' = (if ow' = ow \<and> b' = b then Some ref else find_ref e ow' b')"
proof (cases "fmlookup (owner_ordered_pages_mapping e) ow")
  case None
  have ok: "owners_ok e" using eng_invD(4) [OF inv] .
  then have maps: "fmlookup (owner_pages_mapping e) ow = None"
    "fmlookup (owner_free_pages_mapping e) ow = None"
    using None unfolding owners_ok_def by (metis owner_entry_ok_simps(1))+
  define e2 where "e2 = e1\<lparr>owner_pages_mapping := fmupd ow {|p|} (owner_pages_mapping e),
      owner_free_pages_mapping := fmupd ow [] (owner_free_pages_mapping e),
      owner_ordered_pages_mapping := fmupd ow (fmupd b ref fmempty) (owner_ordered_pages_mapping e)\<rparr>"
  have "own_page ow p b offs e1 = Inr e2"
    using maps None by (simp add: own_page_def Let_def e1 e2_def fmins_def ref)
  moreover have "owners_ok e2"
    using ok nn by (auto simp: owners_ok_def e2_def ref)
  moreover have "find_ref e2 ow' b' = (if ow' = ow \<and> b' = b then Some ref else find_ref e ow' b')"
    for ow' b'
    using None by (auto simp: find_ref_def e2_def)
  ultimately show ?thesis by (intro that [of e2]) (simp_all add: e2_def)
next
  case (Some m)
  have ok: "owners_ok e" using eng_invD(4) [OF inv] .
  then have entry: "owner_entry_ok (Some m) (fmlookup (owner_pages_mapping e) ow)
      (fmlookup (owner_free_pages_mapping e) ow)"
    using Some unfolding owners_ok_def by metis
  then obtain s where s: "fmlookup (owner_pages_mapping e) ow = Some s"
    "\<And>q. q |\<in>| s \<longleftrightarrow> (\<exists>b ref. fmlookup m b = Some ref \<and> ref_page ref = q)"
    and v: "fmlookup (owner_free_pages_mapping e) ow = Some []"
    by auto
  have mb: "fmlookup m b = None" using none Some by (simp add: find_ref_def)
  define e2 where "e2 = e1\<lparr>owner_pages_mapping := fmupd ow (finsert p s) (owner_pages_mapping e),
      owner_ordered_pages_mapping := fmupd ow (fmupd b ref m) (owner_ordered_pages_mapping e)\<rparr>"
  have "own_page ow p b offs e1 = Inr e2"
    using s(1) Some mb by (simp add: own_page_def Let_def e1 e2_def fmins_def ref fmat_Some)
  moreover have "owners_ok e2"
  proof -
    have pages: "(\<exists>b' r. fmlookup (fmupd b ref m) b' = Some r \<and> ref_page r = q) \<longleftrightarrow> q |\<in>| finsert p s"
      for q
    proof
      assume "\<exists>b' r. fmlookup (fmupd b ref m) b' = Some r \<and> ref_page r = q"
      then show "q |\<in>| finsert p s" using s(2) by (auto simp: ref split: if_splits)
    next
      assume "q |\<in>| finsert p s"
      then consider "q = p" | b1 r1 where "fmlookup m b1 = Some r1" "ref_page r1 = q"
        using s(2) by auto
      then show "\<exists>b' r. fmlookup (fmupd b ref m) b' = Some r \<and> ref_page r = q"
      proof cases
        case 1
        then show ?thesis by (intro exI [of _ b] exI [of _ ref]) (simp add: ref)
      next
        case 2
        then have "b1 \<noteq> b" using mb by auto
        then show ?thesis using 2 by (intro exI [of _ b1] exI [of _ r1]) simp
      qed
    qed
    have "owner_entry_ok (Some (fmupd b ref m)) (Some (finsert p s)) (Some [])"
      unfolding owner_entry_ok_simps pages by simp
    then have "owner_entry_ok (fmlookup (owner_ordered_pages_mapping e2) ow')
        (fmlookup (owner_pages_mapping e2) ow') (fmlookup (owner_free_pages_mapping e2) ow')" for ow'
      using ok v by (cases "ow' = ow") (simp_all add: e2_def owners_ok_def e1)
    then show ?thesis using ok nn by (auto simp: owners_ok_def e2_def)
  qed
  moreover have "find_ref e2 ow' b' = (if ow' = ow \<and> b' = b then Some ref else find_ref e ow' b')"
    for ow' b'
    using Some by (auto simp: find_ref_def e2_def)
  ultimately show ?thesis by (intro that [of e2]) (simp_all add: e2_def)
qed

text \<open>A request that fits in a block.\<close>

definition request_ok :: "config \<Rightarrow> alloc_request \<Rightarrow> bool" where
  "request_ok c = (\<lambda>(_, bs, len, off).
     0 \<le> off \<and> 0 \<le> len \<and> off + len \<le> IO_BLOCK_SIZE c \<and> len \<le> int (length bs))"

text \<open>The bytes of a block after the request.\<close>

definition requested :: "byte list \<Rightarrow> alloc_request \<Rightarrow> byte list" where
  "requested dt = (\<lambda>(_, bs, len, off). overlay dt off (take (nat len) bs))"

lemma requested_length:
  "request_ok c req \<Longrightarrow> int (length dt) = IO_BLOCK_SIZE c \<Longrightarrow>
   int (length (requested dt req)) = IO_BLOCK_SIZE c"
  by (auto simp: request_ok_def requested_def)

definition zero_block :: "config \<Rightarrow> byte list" where
  "zero_block c = replicate (nat (IO_BLOCK_SIZE c)) 0"

lemma zero_block_length [simp]: "single_block c \<Longrightarrow> int (length (zero_block c)) = IO_BLOCK_SIZE c"
  using single_blockD [of c] by (simp add: zero_block_def)

lemma update_owner_pages_occupy:
  fixes r :: int and dirty :: bool
  assumes inv: "eng_inv c e" and nn: "ow \<noteq> ''none''" and none: "find_ref e ow b = None"
    and free: "free_pages e = fs @ [p]" and dt: "int (length dt) = IO_BLOCK_SIZE c"
    and sb: "single_block c"
  defines "e1 \<equiv> put_page p (full_page c ''none'' b r dt dirty) (e\<lparr>free_pages := fs\<rparr>)"
  shows "\<exists>e'. update_owner_pages ow p b (0, IO_BLOCK_SIZE c - 1) e1 = Inr e' \<and> eng_inv c e' \<and>
    cblocks e' = upd_view ow b
      (Some \<lparr>cb_page = p, cb_data = dt, cb_readable = r, cb_dirty = dirty\<rparr>) (cblocks e) \<and>
    nfree e' = nfree e - 1"
proof -
  define ref where "ref = \<lparr>ref_page_id = p, ref_page = p, ref_offsets = (0, IO_BLOCK_SIZE c - 1),
      ref_synced = False\<rparr>"
  define e1' where "e1' = put_page p (full_page c ow b r dt dirty) e1"
  have "fmlookup (owner_ordered_pages_mapping e) ''none'' = None"
    using eng_invD(4) [OF inv] by (simp add: owners_ok_def)
  then have "fmlookup (owner_pages_mapping e) ''none'' = None"
    using eng_invD(4) [OF inv] unfolding owners_ok_def by (metis owner_entry_ok_simps(1))
  then have disown: "disown_page ''none'' p b e1' = Inr e1'"
    by (simp add: disown_page_def e1'_def e1_def)
  obtain e2 where e2: "own_page ow p b (0, IO_BLOCK_SIZE c - 1) e1' = Inr e2"
    "search_index e2 = search_index e1'" "free_pages e2 = free_pages e1'" "owners_ok e2"
    "\<And>ow' b'. find_ref e2 ow' b' = (if ow' = ow \<and> b' = b then Some ref else find_ref e ow' b')"
    by (rule owners_ok_occupy [OF inv nn none ref_def, of e1']) (simp_all add: e1'_def e1_def)
  have run: "update_owner_pages ow p b (0, IO_BLOCK_SIZE c - 1) e1 = Inr e2"
    using nn disown e2(1) by (simp add: update_owner_pages_def Let_def e1_def) (simp add: e1'_def e1_def)
  have idx: "fmlookup (search_index e2) q =
      (if q = p then Some (full_page c ow b r dt dirty) else fmlookup (search_index e) q)" for q
    by (simp add: e2(2) e1'_def e1_def)
  have fp: "free_pages e2 = fs" by (simp add: e2(3) e1'_def e1_def)
  note occ = occupy_page [OF inv nn none free fp idx dt _ _ _ e2(5) e2(4)]
  show ?thesis using run occ by (simp add: ref_def)
qed

lemma allocate_new_block_single:
  assumes sb: "single_block c" and inv: "eng_inv c e" and nn: "ow \<noteq> ''none''"
    and none: "cblocks e ow b = None" and req: "request_ok c req"
  shows "nfree e = 0 \<Longrightarrow> allocate_new_block h c ow op b req e d = Inr (- 1, e, d)"
    and "0 < nfree e \<Longrightarrow> \<exists>p e'. allocate_new_block h c ow op b req e d = Inr (p, e', d) \<and>
      0 \<le> p \<and> eng_inv c e' \<and> nfree e' = nfree e - 1 \<and>
      cblocks e' = upd_view ow b
        (Some \<lparr>cb_page = p, cb_data = requested (zero_block c) req, cb_readable = - 1,
               cb_dirty = True\<rparr>) (cblocks e)"
proof -
  obtain pg bs len off where r: "req = (pg, bs, len, off)" by (cases req)
  note c = single_blockD [OF sb]
  show "allocate_new_block h c ow op b req e d = Inr (- 1, e, d)" if "nfree e = 0"
    using get_next_free_page_single(1) [OF sb inv, of h ow d] that by (simp add: allocate_new_block_def r nfree_0)
  assume "0 < nfree e"
  then obtain fs p where fs: "free_pages e = fs @ [p]" by (metis length_greater_0_conv nfree_def rev_exhaust)
  have p: "fmlookup (search_index e) p = Some (blank_page c)"
    using eng_invD(1) [OF inv] fs by (simp add: pool_ok_def)
  have p0: "0 \<le> p"
  proof -
    have "fmlookup (search_index e) p \<noteq> None" using p by simp
    then show ?thesis using eng_invD(1) [OF inv] unfolding pool_ok_def by blast
  qed
  define dt where "dt = requested (zero_block c) req"
  have dt: "int (length dt) = IO_BLOCK_SIZE c"
    using requested_length [OF req] sb by (simp add: dt_def)
  have upd: "update_block_data c b bs len off (full_page c ''none'' b (- 1)
      (replicate (nat (IO_BLOCK_SIZE c)) 0) False) = Inr (True, full_page c ''none'' b (- 1) dt True)"
    using update_block_data_single [OF sb] req c
    by (simp add: request_ok_def r dt_def requested_def zero_block_def)
  have "find_ref e ow b = None" using none cblocks_None_iff [OF inv] by simp
  from update_owner_pages_occupy [OF inv nn this fs dt sb]
  obtain e' where e': "update_owner_pages ow p b (0, IO_BLOCK_SIZE c - 1)
      (put_page p (full_page c ''none'' b (- 1) dt True) (e\<lparr>free_pages := fs\<rparr>)) = Inr e'"
    "eng_inv c e'" "nfree e' = nfree e - 1"
    "cblocks e' = upd_view ow b
      (Some \<lparr>cb_page = p, cb_data = dt, cb_readable = - 1, cb_dirty = True\<rparr>) (cblocks e)"
    by blast
  have "allocate_new_block h c ow op b req e d = Inr (p, e', d)"
    using get_next_free_page_single(2) [OF sb inv fs, of h ow d] p p0 upd e'(1) c
    by (simp add: allocate_new_block_def r deref_page_def get_allocate_free_offset_single [OF sb])
  then show "\<exists>p e'. allocate_new_block h c ow op b req e d = Inr (p, e', d) \<and>
      0 \<le> p \<and> eng_inv c e' \<and> nfree e' = nfree e - 1 \<and>
      cblocks e' = upd_view ow b
        (Some \<lparr>cb_page = p, cb_data = requested (zero_block c) req, cb_readable = - 1,
               cb_dirty = True\<rparr>) (cblocks e)"
    using e' p0 by (auto simp: dt_def)
qed

lemma update_cached_block_single:
  assumes sb: "single_block c" and inv: "eng_inv c e" and cb: "cblocks e ow b = Some cb"
    and req: "request_ok c req" and pg: "fst req = cb_page cb"
  shows "\<exists>e'. update_cached_block c ow b req e = Inr e' \<and> eng_inv c e' \<and> nfree e' = nfree e \<and>
    cblocks e' = upd_view ow b
      (Some (cb\<lparr>cb_data := requested (cb_data cb) req, cb_dirty := True\<rparr>)) (cblocks e)"
proof -
  obtain bs len off where r: "req = (cb_page cb, bs, len, off)" using pg by (cases req) auto
  note f = cblocks_Some [OF inv cb]
  define dt where "dt = requested (cb_data cb) req"
  have dt: "int (length dt) = IO_BLOCK_SIZE c"
    using requested_length [OF req f(2)] by (simp add: dt_def)
  have upd: "update_block_data c b bs len off
      (full_page c ow b (cb_readable cb) (cb_data cb) (cb_dirty cb)) =
      Inr (True, full_page c ow b (cb_readable cb) dt True)"
    using update_block_data_single [OF sb] req f(2)
    by (simp add: request_ok_def r dt_def requested_def)
  define e1 where "e1 = put_page (cb_page cb) (full_page c ow b (cb_readable cb) dt True) e"
  note t = touch_page [OF inv cb dt, of "cb_readable cb" True, folded e1_def]
  obtain ref where ref: "find_ref e1 ow b = Some ref" using f(7) by (auto simp: e1_def)
  then obtain m where m: "fmlookup (owner_ordered_pages_mapping e1) ow = Some m" "fmlookup m b = Some ref"
    by (auto simp: find_ref_def split: option.splits)
  note s = resync_ref [OF t(1) m, of False]
  have "update_cached_block c ow b req e = Inr (e1\<lparr>owner_ordered_pages_mapping :=
      fmupd ow (fmupd b (ref\<lparr>ref_synced := False\<rparr>) m) (owner_ordered_pages_mapping e1)\<rparr>)"
    using f(1) upd m
    by (simp add: update_cached_block_def r deref_page_def Let_def fmat_Some)
      (simp add: e1_def fmat_Some)
  moreover have "\<lparr>cb_page = cb_page cb, cb_data = dt, cb_readable = cb_readable cb, cb_dirty = True\<rparr> =
      cb\<lparr>cb_data := requested (cb_data cb) req, cb_dirty := True\<rparr>"
    by (simp add: dt_def)
  ultimately show ?thesis using s(1,2,3) t(2) by (auto simp: e1_def)
qed

text \<open>
  The view after a request has been served from page \<open>p\<close>: the new bytes are laid over the block,
  or over zeros when it was not cached.
\<close>

definition served :: "config \<Rightarrow> alloc_request \<Rightarrow> int \<Rightarrow> cblock option \<Rightarrow> cblock" where
  "served c req p old =
     (case old of
        None \<Rightarrow> \<lparr>cb_page = p, cb_data = requested (zero_block c) req, cb_readable = - 1,
                 cb_dirty = True\<rparr>
      | Some cb \<Rightarrow> cb\<lparr>cb_data := requested (cb_data cb) req, cb_dirty := True\<rparr>)"

lemma allocate_block_single:
  assumes sb: "single_block c" and inv: "eng_inv c e" and nn: "ow \<noteq> ''none''"
    and look: "fmlookup reqs b = Some req" and req: "request_ok c req"
    and coh: "\<And>cb. cblocks e ow b = Some cb \<Longrightarrow> fst req = cb_page cb"
  shows "\<exists>p e'. allocate_block h c ow reqs op b (res, e, d) = Inr (fmins b p res, e', d) \<and>
    eng_inv c e' \<and>
    (if cblocks e ow b = None \<and> nfree e = 0 then p = - 1 \<and> e' = e
     else 0 \<le> p \<and> cblocks e' = upd_view ow b (Some (served c req p (cblocks e ow b))) (cblocks e) \<and>
          (\<forall>cb. cblocks e ow b = Some cb \<longrightarrow> p = cb_page cb) \<and>
          nfree e' = nfree e - (if cblocks e ow b = None then 1 else 0))"
proof (cases "cblocks e ow b")
  case None
  then have nc: "\<not> is_block_cached e ow p b" for p using is_block_cached_iff [OF inv nn] by simp
  note a = allocate_new_block_single [OF sb inv nn None req, of h op d]
  show ?thesis
  proof (cases "nfree e = 0")
    case True
    then show ?thesis using a(1) nc inv None by (simp add: allocate_block_def fmat_Some [OF look] Let_def)
  next
    case False
    then obtain p e' where "allocate_new_block h c ow op b req e d = Inr (p, e', d)"
      "0 \<le> p" "eng_inv c e'" "nfree e' = nfree e - 1"
      "cblocks e' = upd_view ow b
        (Some \<lparr>cb_page = p, cb_data = requested (zero_block c) req, cb_readable = - 1,
               cb_dirty = True\<rparr>) (cblocks e)"
      using a(2) by auto
    then show ?thesis
      using nc None False
      by (intro exI [of _ p] exI [of _ e'])
        (simp add: allocate_block_def fmat_Some [OF look] Let_def served_def)
  qed
next
  case (Some cb)
  note f = cblocks_Some [OF inv Some]
  have cached: "is_block_cached e ow (cb_page cb) b" using is_block_cached_iff [OF inv nn] Some by simp
  from update_cached_block_single [OF sb inv Some req coh [OF Some]]
  obtain e' where "update_cached_block c ow b req e = Inr e'" "eng_inv c e'" "nfree e' = nfree e"
    "cblocks e' = upd_view ow b
      (Some (cb\<lparr>cb_data := requested (cb_data cb) req, cb_dirty := True\<rparr>)) (cblocks e)"
    by blast
  then show ?thesis
    using cached Some f(4) coh [OF Some]
    by (simp add: allocate_block_def fmat_Some [OF look] Let_def served_def)
qed

lemma allocate_blocks_empty: "allocate_blocks h c ow fmempty op e d = Inr (fmempty, e, d)"
  by (simp add: allocate_blocks_def)

lemma allocate_blocks_single:
  assumes sb: "single_block c" and inv: "eng_inv c e" and nn: "ow \<noteq> ''none''"
    and req: "request_ok c req"
    and coh: "\<And>cb. cblocks e ow b = Some cb \<Longrightarrow> fst req = cb_page cb"
  shows "\<exists>p e'. allocate_blocks h c ow (fmupd b req fmempty) op e d = Inr (fmupd b p fmempty, e', d) \<and>
    eng_inv c e' \<and>
    (if cblocks e ow b = None \<and> nfree e = 0 then p = - 1 \<and> e' = e
     else 0 \<le> p \<and> cblocks e' = upd_view ow b (Some (served c req p (cblocks e ow b))) (cblocks e) \<and>
          (\<forall>cb. cblocks e ow b = Some cb \<longrightarrow> p = cb_page cb) \<and>
          nfree e' = nfree e - (if cblocks e ow b = None then 1 else 0))"
proof -
  have look: "fmlookup (fmupd b req fmempty) b = Some req" by simp
  obtain p e' where a: "allocate_block h c ow (fmupd b req fmempty) op b (fmempty, e, d) =
      Inr (fmins b p fmempty, e', d)"
    and rest: "eng_inv c e' \<and>
    (if cblocks e ow b = None \<and> nfree e = 0 then p = - 1 \<and> e' = e
     else 0 \<le> p \<and> cblocks e' = upd_view ow b (Some (served c req p (cblocks e ow b))) (cblocks e) \<and>
          (\<forall>cb. cblocks e ow b = Some cb \<longrightarrow> p = cb_page cb) \<and>
          nfree e' = nfree e - (if cblocks e ow b = None then 1 else 0))"
    using allocate_block_single [OF sb inv nn look req coh, of h op fmempty d] by blast
  have "allocate_blocks h c ow (fmupd b req fmempty) op e d = Inr (fmupd b p fmempty, e', d)"
    using a by (simp add: allocate_blocks_def fmins_def)
  with rest show ?thesis by blast
qed

section \<open>Reading\<close>

text \<open>What a reader is told about a block it believes to be in page \<open>p\<close>.\<close>

definition found_block :: "(string \<Rightarrow> int \<Rightarrow> cblock option) \<Rightarrow> string \<Rightarrow> int \<Rightarrow> int \<Rightarrow> byte list option"
  where
  "found_block v ow b p =
     (case v ow b of None \<Rightarrow> None | Some cb \<Rightarrow> if cb_page cb = p then Some (cb_data cb) else None)"

lemma get_block_single:
  assumes sb: "single_block c" and inv: "eng_inv c e" and nn: "ow \<noteq> ''none''"
    and look: "fmlookup reqs b = Some (p, IO_BLOCK_SIZE c - 1)"
  shows "get_block c ow reqs b (res, e) = Inr (fmins b (found_block (cblocks e) ow b p) res, e)"
proof (cases "\<exists>cb. cblocks e ow b = Some cb \<and> cb_page cb = p")
  case True
  then obtain cb where cb: "cblocks e ow b = Some cb" "cb_page cb = p" by blast
  note f = cblocks_Some [OF inv cb(1)]
  show ?thesis
    using f(1) cb get_block_data_single [OF sb f(2), of ow b] single_blockD(7) [OF sb]
    by (simp add: get_block_def fmat_Some [OF look] found_block_def)
next
  case False
  then have "\<not> is_block_cached e ow p b" using is_block_cached_iff [OF inv nn] by blast
  moreover have "found_block (cblocks e) ow b p = None"
    using False by (auto simp: found_block_def split: option.splits)
  ultimately show ?thesis
    by (auto simp: get_block_def fmat_Some [OF look] is_block_cached_def split: option.splits)
qed

lemma get_blocks_single:
  assumes sb: "single_block c" and inv: "eng_inv c e" and nn: "ow \<noteq> ''none''"
    and reqs: "\<And>b q. fmlookup reqs b = Some q \<Longrightarrow> snd q = IO_BLOCK_SIZE c - 1"
  shows "\<exists>res. get_blocks c ow reqs e = Inr (res, e) \<and>
    (\<forall>b. fmlookup res b = map_option (\<lambda>q. found_block (cblocks e) ow b (fst q)) (fmlookup reqs b))"
proof -
  define P where "P ys s \<longleftrightarrow> snd s = e \<and> (\<forall>b. fmlookup (fst s) b =
      (if b \<in> set ys then map_option (\<lambda>q. found_block (cblocks e) ow b (fst q)) (fmlookup reqs b)
       else None))" for ys :: "int list" and s :: "(int, byte list option) fmap \<times> engine"
  have "\<exists>t. foldE (get_block c ow reqs) (fmkeys reqs) (fmempty, e) = Inr t \<and> P (fmkeys reqs) t"
  proof (rule foldE_prefix_rule)
    show "P [] (fmempty, e)" by (simp add: P_def)
  next
    fix ys x zs t assume ks: "fmkeys reqs = ys @ x # zs" and "P ys t"
    obtain res where t: "t = (res, e)" using \<open>P ys t\<close> by (cases t) (simp add: P_def)
    have "x \<in> set (fmkeys reqs)" using ks by simp
    then obtain q where q: "fmlookup reqs x = Some q" by (auto simp: fmlookup_dom_iff)
    have look: "fmlookup reqs x = Some (fst q, IO_BLOCK_SIZE c - 1)"
      using q reqs [OF q] by (cases q) simp
    have "x \<notin> set ys" using distinct_fmkeys [of reqs] ks by simp
    then have "fmlookup res x = None" using \<open>P ys t\<close> by (simp add: P_def t)
    then have "P (ys @ [x]) (fmins x (found_block (cblocks e) ow x (fst q)) res, e)"
      using \<open>P ys t\<close> q by (auto simp: P_def t fmlookup_fmins)
    then show "\<exists>t'. get_block c ow reqs x t = Inr t' \<and> P (ys @ [x]) t'"
      using get_block_single [OF sb inv nn look, of res] by (simp add: t)
  qed
  then obtain t where t: "foldE (get_block c ow reqs) (fmkeys reqs) (fmempty, e) = Inr t"
    "P (fmkeys reqs) t" by blast
  obtain res where res: "t = (res, e)" using t(2) by (cases t) (simp add: P_def)
  have "fmlookup res b = map_option (\<lambda>q. found_block (cblocks e) ow b (fst q)) (fmlookup reqs b)" for b
  proof (cases "b \<in> set (fmkeys reqs)")
    case False
    then have "fmlookup reqs b = None" by (simp add: fmdom_notD)
    then show ?thesis using t(2) False by (simp add: P_def res)
  qed (use t(2) in \<open>simp add: P_def res\<close>)
  then show ?thesis using t(1) by (auto simp: get_blocks_def res)
qed

section \<open>Readable ends\<close>

lemma make_block_readable_to_offset_single:
  assumes inv: "eng_inv c e" and cb: "cblocks e ow b = Some cb"
  shows "\<exists>e'. make_block_readable_to_offset ow (cb_page cb) b r e = Inr e' \<and> eng_inv c e' \<and>
    nfree e' = nfree e \<and> cblocks e' = upd_view ow b (Some (cb\<lparr>cb_readable := r\<rparr>)) (cblocks e)"
proof -
  note f = cblocks_Some [OF inv cb]
  note t = touch_page [OF inv cb f(2), of r "cb_dirty cb"]
  have "make_block_readable_to_offset ow (cb_page cb) b r e =
      Inr (put_page (cb_page cb) (full_page c ow b r (cb_data cb) (cb_dirty cb)) e)"
    using f(1) by (simp add: make_block_readable_to_offset_def deref_page_def)
  moreover have eq: "\<lparr>cb_page = cb_page cb, cb_data = cb_data cb, cb_readable = r,
      cb_dirty = cb_dirty cb\<rparr> = cb\<lparr>cb_readable := r\<rparr>"
    by (cases cb) simp
  ultimately show ?thesis using t(1) t(2) [unfolded eq] by simp
qed

section \<open>Removal\<close>

lemma release_page_single:
  assumes sb: "single_block c" and "fmlookup (search_index e) p \<noteq> None"
  shows "release_page c p e =
    Inr (put_page p (blank_page c) (e\<lparr>free_pages := free_pages e @ [p]\<rparr>))"
  using assms(2) single_blockD(7) [OF sb] page_reset_single [OF sb]
  by (auto simp: release_page_def lru_forget_def deref_page_def)

lemma release_pages_single:
  assumes sb: "single_block c" and "\<forall>p \<in> set ps. fmlookup (search_index e) p \<noteq> None"
  shows "\<exists>e2. foldE (release_page c) ps e = Inr e2 \<and> free_pages e2 = free_pages e @ ps \<and>
    (\<forall>q. fmlookup (search_index e2) q =
       (if q \<in> set ps then Some (blank_page c) else fmlookup (search_index e) q)) \<and>
    owner_pages_mapping e2 = owner_pages_mapping e \<and>
    owner_ordered_pages_mapping e2 = owner_ordered_pages_mapping e \<and>
    owner_free_pages_mapping e2 = owner_free_pages_mapping e"
  using assms(2)
proof (induction ps arbitrary: e)
  case Nil
  then show ?case by simp
next
  case (Cons p ps)
  define e1 where "e1 = put_page p (blank_page c) (e\<lparr>free_pages := free_pages e @ [p]\<rparr>)"
  have step: "release_page c p e = Inr e1"
    using release_page_single [OF sb] Cons.prems by (simp add: e1_def)
  have look: "fmlookup (search_index e1) q =
      (if q = p then Some (blank_page c) else fmlookup (search_index e) q)" for q
    by (simp add: e1_def)
  have "\<forall>q \<in> set ps. fmlookup (search_index e1) q \<noteq> None" using Cons.prems by (simp add: look)
  from Cons.IH [OF this] obtain e2 where e2: "foldE (release_page c) ps e1 = Inr e2"
    "free_pages e2 = free_pages e1 @ ps"
    "\<forall>q. fmlookup (search_index e2) q =
       (if q \<in> set ps then Some (blank_page c) else fmlookup (search_index e1) q)"
    "owner_pages_mapping e2 = owner_pages_mapping e1"
    "owner_ordered_pages_mapping e2 = owner_ordered_pages_mapping e1"
    "owner_free_pages_mapping e2 = owner_free_pages_mapping e1"
    by blast
  have "foldE (release_page c) (p # ps) e = Inr e2" using step e2(1) by simp
  moreover have "free_pages e2 = free_pages e @ p # ps" using e2(2) by (simp add: e1_def)
  moreover have "\<forall>q. fmlookup (search_index e2) q =
       (if q \<in> set (p # ps) then Some (blank_page c) else fmlookup (search_index e) q)"
    using e2(3) look by auto
  ultimately show ?case using e2(4-6) by (simp add: e1_def)
qed

lemma owner_entry:
  "eng_inv c e \<Longrightarrow> owner_entry_ok (fmlookup (owner_ordered_pages_mapping e) ow)
     (fmlookup (owner_pages_mapping e) ow) (fmlookup (owner_free_pages_mapping e) ow)"
  by (simp add: eng_inv_def owners_ok_def)

lemma no_none_owner: "eng_inv c e \<Longrightarrow> fmlookup (owner_ordered_pages_mapping e) ''none'' = None"
  by (simp add: eng_inv_def owners_ok_def)

lemma owners_okI:
  assumes "fmlookup (owner_ordered_pages_mapping e) ''none'' = None"
    and "\<And>ow. owner_entry_ok (fmlookup (owner_ordered_pages_mapping e) ow)
      (fmlookup (owner_pages_mapping e) ow) (fmlookup (owner_free_pages_mapping e) ow)"
  shows "owners_ok e"
  using assms by (simp add: owners_ok_def)

lemma set_sorted_list_of_fset [simp]: "set (sorted_list_of_fset s) = fset s"
  by (simp add: sorted_list_of_fset.rep_eq)

lemma distinct_sorted_list_of_fset [simp]: "distinct (sorted_list_of_fset s)"
  by (simp add: sorted_list_of_fset.rep_eq)

text \<open>Removing the blocks of an owner gives all its pages back, blank, and touches no other.\<close>

lemma remove_cached_blocks_single:
  assumes sb: "single_block c" and inv: "eng_inv c e"
  shows "\<exists>e'. remove_cached_blocks c ow e = Inr e' \<and> eng_inv c e' \<and>
    cblocks e' = (cblocks e)(ow := \<lambda>_. None) \<and> nfree e \<le> nfree e'"
proof -
  define e1 where "e1 = e\<lparr>owner_free_pages_mapping := fmdrop ow (owner_free_pages_mapping e)\<rparr>"
  have goal: "eng_inv c e' \<and> cblocks e' = (cblocks e)(ow := \<lambda>_. None) \<and> nfree e \<le> nfree e'"
    if "free_pages e' = free_pages e @ ps" "distinct ps"
      "\<And>q. q \<in> set ps \<longleftrightarrow> (\<exists>b ref. b \<in> UNIV \<and> find_ref e ow b = Some ref \<and> ref_page ref = q)"
      "\<And>q. fmlookup (search_index e') q =
         (if q \<in> set ps then Some (blank_page c) else fmlookup (search_index e) q)"
      "\<And>ow' b'. find_ref e' ow' b' = (if ow' = ow \<and> b' \<in> UNIV then None else find_ref e ow' b')"
      "owners_ok e'" for e' ps
    using drop_refs [OF inv that] by (auto simp: fun_eq_iff)
  show ?thesis
  proof (cases "fmlookup (owner_ordered_pages_mapping e) ow")
    case None
    have p: "fmlookup (owner_pages_mapping e) ow = None"
      "fmlookup (owner_free_pages_mapping e) ow = None"
      using owner_entry [OF inv, of ow] None by simp_all
    have "owners_ok e1"
      by (rule owners_okI) (use owner_entry [OF inv] no_none_owner [OF inv] None p in \<open>auto simp: e1_def\<close>)
    moreover have "find_ref e1 ow' b' = (if ow' = ow \<and> b' \<in> UNIV then None else find_ref e ow' b')"
      for ow' b' using None by (auto simp: e1_def find_ref_def)
    moreover have "find_ref e ow b = None" for b using None by (simp add: find_ref_def)
    ultimately have "eng_inv c e1 \<and> cblocks e1 = (cblocks e)(ow := \<lambda>_. None) \<and> nfree e \<le> nfree e1"
      by (intro goal [where ps = "[]"]) (simp_all add: e1_def)
    moreover have "remove_cached_blocks c ow e = Inr e1"
      using p by (simp add: remove_cached_blocks_def e1_def)
    ultimately show ?thesis by blast
  next
    case (Some m)
    obtain s where s: "fmlookup (owner_pages_mapping e) ow = Some s"
      "\<And>q. q |\<in>| s \<longleftrightarrow> (\<exists>b ref. fmlookup m b = Some ref \<and> ref_page ref = q)"
      using owner_entry [OF inv, of ow] Some by auto
    have find: "find_ref e ow b = fmlookup m b" for b using Some by (simp add: find_ref_def)
    have "\<forall>p \<in> set (sorted_list_of_fset s). fmlookup (search_index e1) p \<noteq> None"
    proof
      fix p assume "p \<in> set (sorted_list_of_fset s)"
      then obtain b ref where "find_ref e ow b = Some ref" "ref_page ref = p" using s(2) find by auto
      then show "fmlookup (search_index e1) p \<noteq> None"
        using ref_facts(3) [OF inv, of ow b ref] by (auto simp: e1_def)
    qed
    from release_pages_single [OF sb this] obtain e2 where
      e2: "foldE (release_page c) (sorted_list_of_fset s) e1 = Inr e2"
      "free_pages e2 = free_pages e @ sorted_list_of_fset s"
      "\<And>q. fmlookup (search_index e2) q =
         (if q \<in> set (sorted_list_of_fset s) then Some (blank_page c)
          else fmlookup (search_index e) q)"
      "owner_pages_mapping e2 = owner_pages_mapping e"
      "owner_ordered_pages_mapping e2 = owner_ordered_pages_mapping e"
      "owner_free_pages_mapping e2 = fmdrop ow (owner_free_pages_mapping e)"
      by (auto simp: e1_def)
    define e3 where "e3 = e2\<lparr>owner_pages_mapping := fmdrop ow (owner_pages_mapping e2),
        owner_ordered_pages_mapping := fmdrop ow (owner_ordered_pages_mapping e2)\<rparr>"
    have run: "remove_cached_blocks c ow e = Inr e3"
      using s(1) e2(1) by (simp add: remove_cached_blocks_def e1_def e3_def Let_def)
    have "owners_ok e3"
      by (rule owners_okI)
        (use owner_entry [OF inv] no_none_owner [OF inv] in \<open>auto simp: e3_def e2\<close>)
    moreover have "find_ref e3 ow' b' = (if ow' = ow \<and> b' \<in> UNIV then None else find_ref e ow' b')"
      for ow' b' by (auto simp: e3_def e2 find_ref_def)
    ultimately have "eng_inv c e3 \<and> cblocks e3 = (cblocks e)(ow := \<lambda>_. None) \<and> nfree e \<le> nfree e3"
      by (intro goal [where ps = "sorted_list_of_fset s"]) (auto simp: e3_def e2 s(2) find)
    then show ?thesis using run by blast
  qed
qed

section \<open>Truncation\<close>

text \<open>
  What is left of a cached block that is reported as truncated: the block of the cut keeps its
  first bytes, the others go.
\<close>

definition cut_block :: "config \<Rightarrow> int \<Rightarrow> int \<Rightarrow> int \<Rightarrow> cblock \<Rightarrow> cblock option" where
  "cut_block c from_block idx b cb =
     (if b = from_block \<and> 0 < idx
      then Some (cb\<lparr>cb_data := take (nat idx) (cb_data cb)
                               @ replicate (nat (IO_BLOCK_SIZE c - idx)) 0,
                    cb_readable := idx - 1\<rparr>)
      else None)"

lemma truncate_cached_block_cuts:
  assumes sb: "single_block c" and inv: "eng_inv c e" and cb: "cblocks e ow b = Some cb"
    and idx: "0 \<le> idx" "idx < IO_BLOCK_SIZE c" and True: "b = from_block \<and> 0 < idx"
  shows "\<exists>e'. truncate_cached_block c ow from_block idx (b, cb_page cb) e = Inr e' \<and> eng_inv c e' \<and>
    cblocks e' = upd_view ow b (cut_block c from_block idx b cb) (cblocks e) \<and> nfree e \<le> nfree e'"
proof -
  note f = cblocks_Some [OF inv cb]
  note c = single_blockD [OF sb]
  define dt where "dt = take (nat idx) (cb_data cb) @ replicate (nat (IO_BLOCK_SIZE c - idx)) 0"
  have dt: "int (length dt) = IO_BLOCK_SIZE c" using f(2) idx by (simp add: dt_def)
  have null: "write_null_from c b idx (full_page c ow b (idx - 1) (cb_data cb) (cb_dirty cb)) =
      Inr (full_page c ow b (idx - 1) dt (cb_dirty cb))"
    using write_null_from_single [OF sb _ _ f(2)] idx by (simp add: dt_def)
  have "c_int (idx - 1) = idx - 1" using idx c(4) True by (simp add: c_int_id)
  then have "truncate_cached_block c ow from_block idx (b, cb_page cb) e =
      Inr (put_page (cb_page cb) (full_page c ow b (idx - 1) dt (cb_dirty cb)) e)"
    using f(1) True null by (auto simp: truncate_cached_block_def deref_page_def)
  moreover have eq: "\<lparr>cb_page = cb_page cb, cb_data = dt, cb_readable = idx - 1,
      cb_dirty = cb_dirty cb\<rparr> = cb\<lparr>cb_data := dt, cb_readable := idx - 1\<rparr>"
    by (cases cb) simp
  ultimately show ?thesis
    using touch_page(1) [OF inv cb dt, of "idx - 1" "cb_dirty cb"]
      touch_page(2) [OF inv cb dt, of "idx - 1" "cb_dirty cb", unfolded eq] True
    by (simp add: cut_block_def dt_def)
qed

text \<open>The pages of an owner after one of its blocks has gone.\<close>

lemma pages_without_block:
  assumes unique: "\<And>b' r'. fmlookup m b' = Some r' \<Longrightarrow> ref_page r' = p \<Longrightarrow> b' = b"
    and m: "fmlookup m b = Some ref" "ref_page ref = p"
    and s: "\<And>q. q |\<in>| s \<longleftrightarrow> (\<exists>b ref. fmlookup m b = Some ref \<and> ref_page ref = q)"
  shows "(\<exists>b' r. fmlookup (fmdrop b m) b' = Some r \<and> ref_page r = q) \<longleftrightarrow> q |\<in>| s |-| {|p|}"
proof
  assume "\<exists>b' r. fmlookup (fmdrop b m) b' = Some r \<and> ref_page r = q"
  then obtain b' r where r: "b' \<noteq> b" "fmlookup m b' = Some r" "ref_page r = q"
    by (auto split: if_splits)
  then have "q \<noteq> p" using unique by blast
  then show "q |\<in>| s |-| {|p|}" using s [of q] r(2,3) by auto
next
  assume q: "q |\<in>| s |-| {|p|}"
  then obtain b' r where r: "fmlookup m b' = Some r" "ref_page r = q" using s [of q] by auto
  then have "b' \<noteq> b" using q m by auto
  then show "\<exists>b' r. fmlookup (fmdrop b m) b' = Some r \<and> ref_page r = q"
    using r by (intro exI [of _ b'] exI [of _ r]) simp
qed

lemma truncate_cached_block_drops:
  assumes sb: "single_block c" and inv: "eng_inv c e" and cb: "cblocks e ow b = Some cb"
    and False: "\<not> (b = from_block \<and> 0 < idx)"
  shows "\<exists>e'. truncate_cached_block c ow from_block idx (b, cb_page cb) e = Inr e' \<and> eng_inv c e' \<and>
    cblocks e' = upd_view ow b (cut_block c from_block idx b cb) (cblocks e) \<and> nfree e \<le> nfree e'"
proof -
  note f = cblocks_Some [OF inv cb]
  obtain p1 where p1: "page_remove_block c b
      (full_page c ow b (cb_readable cb) (cb_data cb) (cb_dirty cb)) = Inr p1" "\<not> is_dirty p1"
    using page_remove_block_single [OF sb f(2)] by blast
  obtain ref where ref: "find_ref e ow b = Some ref" "ref_page ref = cb_page cb" using f(7) by blast
  then obtain m where m: "fmlookup (owner_ordered_pages_mapping e) ow = Some m" "fmlookup m b = Some ref"
    by (auto simp: find_ref_def split: option.splits)
  obtain s where s: "fmlookup (owner_pages_mapping e) ow = Some s"
    "\<And>q. q |\<in>| s \<longleftrightarrow> (\<exists>b ref. fmlookup m b = Some ref \<and> ref_page ref = q)"
    and v: "fmlookup (owner_free_pages_mapping e) ow = Some []"
    using owner_entry [OF inv, of ow] m by auto
  define e1 where "e1 = (put_page (cb_page cb) p1 e)
    \<lparr>owner_pages_mapping := fmupd ow (s |-| {|cb_page cb|}) (owner_pages_mapping e),
     owner_ordered_pages_mapping := fmupd ow (fmdrop b m) (owner_ordered_pages_mapping e)\<rparr>"
  define e2 where "e2 = put_page (cb_page cb) (blank_page c)
      (e1\<lparr>free_pages := free_pages e1 @ [cb_page cb]\<rparr>)"
  have "release_page c (cb_page cb) e1 = Inr e2"
    unfolding e2_def by (rule release_page_single [OF sb]) (simp add: e1_def)
  then have run: "truncate_cached_block c ow from_block idx (b, cb_page cb) e = Inr e2"
    using f(1) p1 s(1) m(1) False
    by (auto simp: truncate_cached_block_def deref_page_def Let_def fmat_Some e1_def)
  have unique: "b' = b" if "fmlookup m b' = Some r'" "ref_page r' = cb_page cb" for b' r'
  proof -
    have "find_ref e ow b' = Some r'" using that(1) m(1) by (simp add: find_ref_def)
    then show ?thesis using ref_facts(3) [OF inv, of ow b' r'] that(2) f(1) by auto
  qed
  have pages: "(\<exists>b' r. fmlookup (fmdrop b m) b' = Some r \<and> ref_page r = q) \<longleftrightarrow>
      q |\<in>| s |-| {|cb_page cb|}" for q
    by (rule pages_without_block [OF _ m(2) ref(2) s(2)]) (rule unique)
  have owners2: "owners_ok e2"
  proof (rule owners_okI)
    have "owner_entry_ok (Some (fmdrop b m)) (Some (s |-| {|cb_page cb|})) (Some [])"
      unfolding owner_entry_ok_simps pages by simp
    then show "owner_entry_ok (fmlookup (owner_ordered_pages_mapping e2) ow')
        (fmlookup (owner_pages_mapping e2) ow') (fmlookup (owner_free_pages_mapping e2) ow')" for ow'
      using owner_entry [OF inv, of ow'] v by (cases "ow' = ow") (simp_all add: e2_def e1_def)
    show "fmlookup (owner_ordered_pages_mapping e2) ''none'' = None"
      using no_none_owner [OF inv] f(3) by (simp add: e2_def e1_def)
  qed
  have find2: "find_ref e2 ow' b' = (if ow' = ow \<and> b' \<in> {b} then None else find_ref e ow' b')"
    for ow' b' using m by (auto simp: find_ref_def e2_def e1_def)
  have pgs: "q \<in> set [cb_page cb] \<longleftrightarrow>
      (\<exists>b' r. b' \<in> {b} \<and> find_ref e ow b' = Some r \<and> ref_page r = q)" for q
    using ref by auto
  have free2: "free_pages e2 = free_pages e @ [cb_page cb]" by (simp add: e2_def e1_def)
  have idx2: "fmlookup (search_index e2) q =
      (if q \<in> set [cb_page cb] then Some (blank_page c) else fmlookup (search_index e) q)" for q
    by (simp add: e2_def e1_def)
  have single: "distinct [cb_page cb]" by simp
  note dropped = drop_refs [OF inv free2 single pgs idx2 find2 owners2]
  have "cblocks e2 = upd_view ow b (cut_block c from_block idx b cb) (cblocks e)"
    using False by (auto simp: fun_eq_iff dropped(2) upd_view_apply cut_block_def)
  then show ?thesis using run dropped(1,3) by auto
qed

lemma truncate_cached_block_single:
  assumes sb: "single_block c" and inv: "eng_inv c e" and cb: "cblocks e ow b = Some cb"
    and idx: "0 \<le> idx" "idx < IO_BLOCK_SIZE c"
  shows "\<exists>e'. truncate_cached_block c ow from_block idx (b, cb_page cb) e = Inr e' \<and> eng_inv c e' \<and>
    cblocks e' = upd_view ow b (cut_block c from_block idx b cb) (cblocks e) \<and> nfree e \<le> nfree e'"
  using truncate_cached_block_cuts [OF sb inv cb idx] truncate_cached_block_drops [OF sb inv cb] by blast

lemma truncate_cached_blocks_single:
  assumes sb: "single_block c" and inv: "eng_inv c e"
    and idx: "0 \<le> idx" "idx < IO_BLOCK_SIZE c"
    and coh: "\<And>b p. fmlookup bl b = Some p \<Longrightarrow> \<exists>cb. cblocks e ow b = Some cb \<and> cb_page cb = p"
  shows "\<exists>e'. truncate_cached_blocks c ow bl from_block idx e = Inr e' \<and> eng_inv c e' \<and>
    (\<forall>ow' b. cblocks e' ow' b =
       (if ow' = ow \<and> fmlookup bl b \<noteq> None
        then Option.bind (cblocks e ow b) (cut_block c from_block idx b) else cblocks e ow' b)) \<and>
    nfree e \<le> nfree e'"
proof -
  define ks where "ks = map (\<lambda>k. (k, the (fmlookup bl k))) (fmkeys bl)"
  define P where "P ys e' \<longleftrightarrow> eng_inv c e' \<and> nfree e \<le> nfree e' \<and>
    (\<forall>ow' b. cblocks e' ow' b = (if ow' = ow \<and> b \<in> fst ` set ys
        then Option.bind (cblocks e ow b) (cut_block c from_block idx b) else cblocks e ow' b))"
    for ys :: "(int \<times> int) list" and e'
  have "\<exists>t. foldE (truncate_cached_block c ow from_block idx) ks e = Inr t \<and> P ks t"
  proof (rule foldE_prefix_rule)
    show "P [] e" using inv by (simp add: P_def)
  next
    fix ys x zs t assume split: "ks = ys @ x # zs" and P: "P ys t"
    have "x \<in> set ks" using split by simp
    then obtain b p where x: "x = (b, p)" "fmlookup bl b = Some p"
      by (auto simp: ks_def fmlookup_dom_iff)
    obtain cb where cb: "cblocks e ow b = Some cb" "cb_page cb = p" using coh [OF x(2)] by blast
    have "distinct (map fst ks)" by (simp add: ks_def comp_def)
    then have "b \<notin> fst ` set ys" using split x(1) by auto
    then have t: "cblocks t ow b = Some cb" "eng_inv c t" "nfree e \<le> nfree t"
      using P cb by (auto simp: P_def)
    from truncate_cached_block_single [OF sb t(2,1) idx, of from_block] cb(2)
    obtain e' where e': "truncate_cached_block c ow from_block idx x t = Inr e'" "eng_inv c e'"
      "cblocks e' = upd_view ow b (cut_block c from_block idx b cb) (cblocks t)" "nfree t \<le> nfree e'"
      by (auto simp: x)
    have "P (ys @ [x]) e'"
      using P e' t(3) cb by (auto simp: P_def x upd_view_apply)
    then show "\<exists>t'. truncate_cached_block c ow from_block idx x t = Inr t' \<and> P (ys @ [x]) t'"
      using e'(1) by blast
  qed
  moreover have "b \<in> fst ` set ks \<longleftrightarrow> fmlookup bl b \<noteq> None" for b
    by (auto simp: ks_def fmlookup_dom_iff image_iff)
  ultimately show ?thesis by (auto simp: P_def truncate_cached_blocks_def ks_def)
qed

end
