(* ===== verification/Engine_Sync.thy ===== *)
theory Engine_Sync
  imports Engine_Ops Host
begin

text \<open>
  Writing back: \<open>sync_pages\<close> groups the dirty blocks of a file into runs of consecutive blocks
  and writes each run with one \<open>pwritev\<close>. The lemmas here show that, under the laws of the
  host, the grouping does not matter: afterwards every byte of the file is the cached one where
  a dirty block covers it, and the old one elsewhere.
\<close>

section \<open>Writes as functions on bytes\<close>

definition wr :: "(nat \<Rightarrow> byte) \<Rightarrow> nat \<Rightarrow> byte list \<Rightarrow> nat \<Rightarrow> byte" where
  "wr f off bs j = (if off \<le> j \<and> j < off + length bs then bs ! (j - off) else f j)"

lemma byte_at_file_write_wr: "byte_at (file_write x off bs) = wr (byte_at x) (nat off) bs"
  by (simp add: fun_eq_iff wr_def byte_at_file_write)

lemma wr_Nil [simp]: "wr f off [] = f"
  by (auto simp: fun_eq_iff wr_def)

lemma wr_append: "wr f off (xs @ ys) = wr (wr f off xs) (off + length xs) ys"
  by (auto simp: fun_eq_iff wr_def nth_append)

text \<open>The readable bytes of a block, and writing them to their place in the file.\<close>

definition readable_bytes :: "cblock \<Rightarrow> byte list" where
  "readable_bytes cb = take (nat (cb_readable cb + 1)) (cb_data cb)"

definition wr_block :: "int \<Rightarrow> (int \<Rightarrow> cblock option) \<Rightarrow> int \<Rightarrow> (nat \<Rightarrow> byte) \<Rightarrow> nat \<Rightarrow> byte" where
  "wr_block bs v b f =
     (case v b of None \<Rightarrow> f | Some cb \<Rightarrow> wr f (nat (b * bs)) (readable_bytes cb))"

text \<open>A file as the cache shows it: cached bytes where there are some, the given bytes elsewhere.\<close>

definition file_byte :: "int \<Rightarrow> (int \<Rightarrow> cblock option) \<Rightarrow> (nat \<Rightarrow> byte) \<Rightarrow> nat \<Rightarrow> byte" where
  "file_byte bs v f j =
     (case v (int j div bs) of
        None \<Rightarrow> f j
      | Some cb \<Rightarrow> if int j mod bs \<le> cb_readable cb then cb_data cb ! nat (int j mod bs) else f j)"

definition block_shape :: "int \<Rightarrow> cblock \<Rightarrow> bool" where
  "block_shape bs cb \<longleftrightarrow>
     int (length (cb_data cb)) = bs \<and> - 1 \<le> cb_readable cb \<and> cb_readable cb < bs"

lemma readable_bytes_length:
  "block_shape bs cb \<Longrightarrow> int (length (readable_bytes cb)) = cb_readable cb + 1"
  by (auto simp: block_shape_def readable_bytes_def)

lemma wr_block_apply:
  assumes "0 < bs" and "0 \<le> b" and "v b = Some cb" and "block_shape bs cb"
  shows "wr_block bs v b f j =
    (if int j div bs = b \<and> int j mod bs \<le> cb_readable cb then cb_data cb ! nat (int j mod bs) else f j)"
proof -
  define q where "q = int j div bs"
  define k where "k = int j mod bs"
  have jq: "int j = q * bs + k" and k: "0 \<le> k" "k < bs"
    using assms(1) by (simp_all add: q_def k_def)
  have q0: "0 \<le> q" using assms(1) by (simp add: q_def pos_imp_zdiv_nonneg_iff)
  have len: "int (length (readable_bytes cb)) = cb_readable cb + 1"
    and shape: "- 1 \<le> cb_readable cb" "cb_readable cb < bs"
    using assms(4) readable_bytes_length by (auto simp: block_shape_def)
  have nb: "int (nat (b * bs)) = b * bs" using assms(1,2) by simp
  have range: "nat (b * bs) \<le> j \<and> j < nat (b * bs) + length (readable_bytes cb) \<longleftrightarrow>
      q = b \<and> k \<le> cb_readable cb"
  proof
    assume *: "nat (b * bs) \<le> j \<and> j < nat (b * bs) + length (readable_bytes cb)"
    then have low: "b * bs \<le> int j" using nb by linarith
    have "int j < int (nat (b * bs)) + int (length (readable_bytes cb))" using * by linarith
    then have high: "int j < b * bs + (cb_readable cb + 1)" using nb len by simp
    have "int j < b * bs + bs" using high shape by linarith
    then have "int j div bs = b"
      using low assms(1) by (intro int_div_pos_eq [where r = "int j - b * bs"]) auto
    then have "q = b" by (simp add: q_def)
    then show "q = b \<and> k \<le> cb_readable cb" using jq high by simp
  next
    assume "q = b \<and> k \<le> cb_readable cb"
    then have "b * bs \<le> int j" "int j < b * bs + (cb_readable cb + 1)" using jq k by auto
    then show "nat (b * bs) \<le> j \<and> j < nat (b * bs) + length (readable_bytes cb)"
      using nb len by linarith
  qed
  show ?thesis
  proof (cases "q = b \<and> k \<le> cb_readable cb")
    case True
    have "int (j - nat (b * bs)) = k" using True jq nb range by simp
    then have "j - nat (b * bs) = nat k" by simp
    moreover have "nat k < nat (cb_readable cb + 1)" using True k by linarith
    ultimately show ?thesis
      using True range assms(3) by (simp add: wr_block_def wr_def readable_bytes_def q_def k_def)
  next
    case False
    then show ?thesis using range assms(3) by (auto simp: wr_block_def wr_def q_def k_def)
  qed
qed

lemma fold_wr_block:
  assumes "0 < bs" and "distinct ks" and "\<forall>b \<in> set ks. 0 \<le> b \<and> (\<exists>cb. v b = Some cb \<and> block_shape bs cb)"
  shows "fold (wr_block bs v) ks f = file_byte bs (\<lambda>b. if b \<in> set ks then v b else None) f"
  using assms(2,3)
proof (induction ks arbitrary: f rule: rev_induct)
  case Nil
  then show ?case by (simp add: file_byte_def fun_eq_iff)
next
  case (snoc b ks)
  obtain cb where cb: "v b = Some cb" "block_shape bs cb" and b: "0 \<le> b" using snoc.prems(2) by auto
  have IH: "fold (wr_block bs v) ks f = file_byte bs (\<lambda>b. if b \<in> set ks then v b else None) f"
    by (rule snoc.IH) (use snoc.prems in auto)
  have "b \<notin> set ks" using snoc.prems(1) by simp
  then show ?case
    by (auto simp: fun_eq_iff IH wr_block_apply [where v = v, OF assms(1) b cb] file_byte_def cb(1))
qed

text \<open>A run of consecutive blocks, all but the last of them full, is one write.\<close>

lemma fold_wr_block_run:
  assumes "0 < bs" and "0 \<le> b0"
    and "\<forall>k < n. \<exists>cb. v (b0 + int k) = Some cb \<and> block_shape bs cb"
    and "\<forall>k. Suc k < n \<longrightarrow> cb_readable (the (v (b0 + int k))) = bs - 1"
  shows "fold (wr_block bs v) (map (\<lambda>k. b0 + int k) [0..<n]) f =
    wr f (nat (b0 * bs)) (concat (map (\<lambda>k. readable_bytes (the (v (b0 + int k)))) [0..<n]))
    \<and> (\<forall>m < n. int (length (concat (map (\<lambda>k. readable_bytes (the (v (b0 + int k)))) [0..<m]))) = int m * bs)"
  using assms(3,4)
proof (induction n)
  case 0
  then show ?case by simp
next
  case (Suc n)
  have IH: "fold (wr_block bs v) (map (\<lambda>k. b0 + int k) [0..<n]) f =
    wr f (nat (b0 * bs)) (concat (map (\<lambda>k. readable_bytes (the (v (b0 + int k)))) [0..<n]))"
    and lens: "\<forall>m < n. int (length (concat (map (\<lambda>k. readable_bytes (the (v (b0 + int k)))) [0..<m]))) = int m * bs"
    using Suc by auto
  obtain cb where cb: "v (b0 + int n) = Some cb" "block_shape bs cb" using Suc.prems(1) by auto
  have len: "int (length (concat (map (\<lambda>k. readable_bytes (the (v (b0 + int k)))) [0..<n]))) = int n * bs"
  proof (cases n)
    case 0
    then show ?thesis by simp
  next
    case (Suc m)
    obtain cbm where cbm: "v (b0 + int m) = Some cbm" "block_shape bs cbm"
      using Suc.prems(1) Suc by (metis lessI less_SucI)
    have "cb_readable cbm = bs - 1" using Suc.prems(2) Suc cbm(1) by force
    then have "int (length (readable_bytes cbm)) = bs" using readable_bytes_length [OF cbm(2)] by simp
    moreover have "int (length (concat (map (\<lambda>k. readable_bytes (the (v (b0 + int k)))) [0..<m]))) = int m * bs"
      using lens Suc by simp
    ultimately show ?thesis by (simp add: Suc cbm(1) algebra_simps)
  qed
  have "nat (b0 * bs) + length (concat (map (\<lambda>k. readable_bytes (the (v (b0 + int k)))) [0..<n])) =
      nat ((b0 + int n) * bs)"
    using len assms(1,2) by (simp add: distrib_right nat_add_distrib)
  then have "fold (wr_block bs v) (map (\<lambda>k. b0 + int k) [0..<Suc n]) f =
    wr f (nat (b0 * bs)) (concat (map (\<lambda>k. readable_bytes (the (v (b0 + int k)))) [0..<Suc n]))"
    by (simp add: IH wr_append wr_block_def cb(1))
  moreover have "\<forall>m < Suc n. int (length (concat (map (\<lambda>k. readable_bytes (the (v (b0 + int k)))) [0..<m]))) = int m * bs"
    using lens len by (simp add: less_Suc_eq)
  ultimately show ?case by blast
qed

section \<open>Collecting the dirty blocks\<close>

definition clean_block :: "cblock \<Rightarrow> cblock" where
  "clean_block cb = cb\<lparr>cb_dirty := False\<rparr>"

lemma clean_block_simps [simp]:
  "cb_page (clean_block cb) = cb_page cb" "cb_data (clean_block cb) = cb_data cb"
  "cb_readable (clean_block cb) = cb_readable cb" "cb_dirty (clean_block cb) = False"
  by (simp_all add: clean_block_def)

lemma clean_block_idem [simp]: "clean_block (clean_block cb) = clean_block cb"
  by (simp add: clean_block_def)

definition is_dirty_block :: "engine \<Rightarrow> string \<Rightarrow> int \<Rightarrow> bool" where
  "is_dirty_block e ow b \<longleftrightarrow> (\<exists>cb. cblocks e ow b = Some cb \<and> cb_dirty cb)"

lemma collect_dirty_single:
  assumes inv: "eng_inv c e" and m: "fmlookup (owner_ordered_pages_mapping e) ow = Some m"
  shows "\<exists>e'. foldE (collect_dirty m) (fmkeys m) ([], e) =
      Inr (map (\<lambda>b. (b, the (fmlookup m b))) (filter (is_dirty_block e ow) (fmkeys m)), e') \<and>
    eng_inv c e' \<and> nfree e' = nfree e \<and>
    cblocks e' = (cblocks e)(ow := \<lambda>b. map_option clean_block (cblocks e ow b)) \<and>
    owner_pages_mapping e' = owner_pages_mapping e"
proof -
  define P where "P ys t \<longleftrightarrow>
      fst t = map (\<lambda>b. (b, the (fmlookup m b))) (filter (is_dirty_block e ow) ys) \<and>
      eng_inv c (snd t) \<and> nfree (snd t) = nfree e \<and>
      (\<forall>ow' b. cblocks (snd t) ow' b = (if ow' = ow \<and> b \<in> set ys
          then map_option clean_block (cblocks e ow b) else cblocks e ow' b)) \<and>
      owner_pages_mapping (snd t) = owner_pages_mapping e"
    for ys :: "int list" and t :: "(int \<times> block_ref) list \<times> engine"
  have "\<exists>t. foldE (collect_dirty m) (fmkeys m) ([], e) = Inr t \<and> P (fmkeys m) t"
  proof (rule foldE_prefix_rule)
    show "P [] ([], e)" using inv by (simp add: P_def)
  next
    fix ys b zs t assume ks: "fmkeys m = ys @ b # zs" and P: "P ys t"
    obtain acc e1 where t: "t = (acc, e1)" by (cases t)
    have "b \<in> set (fmkeys m)" using ks by simp
    then obtain ref where ref: "fmlookup m b = Some ref" by (auto simp: fmlookup_dom_iff)
    have new: "b \<notin> set ys" using distinct_fmkeys [of m] ks by simp
    have fr: "find_ref e ow b = Some ref" using m ref by (simp add: find_ref_def)
    obtain cb where cb: "cblocks e ow b = Some cb" "cb_page cb = ref_page ref"
    proof -
      obtain r dt dirty where "cblocks e ow b =
          Some \<lparr>cb_page = ref_page ref, cb_data = dt, cb_readable = r, cb_dirty = dirty\<rparr>"
        by (rule find_ref_block [OF inv fr])
      then show ?thesis using that by simp
    qed
    have inv1: "eng_inv c e1" and cb1: "cblocks e1 ow b = Some cb"
      using P new cb(1) by (simp_all add: P_def t)
    note f = cblocks_Some [OF inv1 cb1]
    show "\<exists>t'. collect_dirty m b t = Inr t' \<and> P (ys @ [b]) t'"
    proof (cases "cb_dirty cb")
      case False
      then have "cb = clean_block cb" by (cases cb) (simp add: clean_block_def)
      then have "P (ys @ [b]) (acc, e1)"
        using P False cb(1) by (auto simp: P_def t is_dirty_block_def)
      moreover have "collect_dirty m b t = Inr (acc, e1)"
        using f(1) False cb(2)
        by (simp add: collect_dirty_def t fmat_Some [OF ref] deref_page_def)
      ultimately show ?thesis by blast
    next
      case True
      define e2 where "e2 = put_page (cb_page cb)
          (full_page c ow b (cb_readable cb) (cb_data cb) False) e1"
      note tp = touch_page [OF inv1 cb1 f(2), of "cb_readable cb" False, folded e2_def]
      have eq: "\<lparr>cb_page = cb_page cb, cb_data = cb_data cb, cb_readable = cb_readable cb,
          cb_dirty = False\<rparr> = clean_block cb"
        by (cases cb) (simp add: clean_block_def)
      have "collect_dirty m b t = Inr (acc @ [(b, ref)], e2)"
        using f(1) True cb(2)
        by (simp add: collect_dirty_def t fmat_Some [OF ref] deref_page_def e2_def)
      moreover have "nfree e2 = nfree e1" "owner_pages_mapping e2 = owner_pages_mapping e1"
        by (simp_all add: e2_def)
      moreover have "P (ys @ [b]) (acc @ [(b, ref)], e2)"
        using P True cb(1) tp(1) ref calculation(2,3)
        by (auto simp: P_def t is_dirty_block_def tp(2) [unfolded eq] upd_view_apply)
      ultimately show ?thesis by blast
    qed
  qed
  then obtain t where t: "foldE (collect_dirty m) (fmkeys m) ([], e) = Inr t" "P (fmkeys m) t" by blast
  have "cblocks e ow b = None" if "b \<notin> set (fmkeys m)" for b
  proof -
    have "fmlookup m b = None" using that by (simp add: fmdom_notD)
    then show ?thesis using m by (simp add: cblocks_def find_ref_def)
  qed
  then have "cblocks (snd t) = (cblocks e)(ow := \<lambda>b. map_option clean_block (cblocks e ow b))"
    using t(2) by (fastforce simp: fun_eq_iff P_def)
  then show ?thesis using t by (cases t) (auto simp: P_def)
qed

section \<open>One run\<close>

text \<open>A collected block: its number and where it is, according to the engine.\<close>

definition collected :: "config \<Rightarrow> engine \<Rightarrow> string \<Rightarrow> int \<times> block_ref \<Rightarrow> bool" where
  "collected c e ow = (\<lambda>(b, r). 0 \<le> b \<and> ref_offsets r = (0, IO_BLOCK_SIZE c - 1) \<and>
     (\<exists>cb. cblocks e ow b = Some cb \<and> cb_page cb = ref_page r \<and> block_shape (IO_BLOCK_SIZE c) cb))"

lemma fill_iov_single:
  assumes sb: "single_block c" and inv: "eng_inv c e"
    and run: "\<And>k. k < n \<Longrightarrow> fst (ps ! k) = b0 + int k" and len: "length ps = n" and n: "0 < n"
    and ps: "\<forall>x \<in> set ps. collected c e ow x"
    and full: "\<And>k. Suc k < n \<Longrightarrow> cb_readable (the (cblocks e ow (b0 + int k))) = IO_BLOCK_SIZE c - 1"
  shows "\<exists>e'. foldE (fill_iov c ow (b0 + int n - 1) (int n) (map snd ps)) [0 .. int n - 1] ([], e) =
      Inr (map (\<lambda>k. readable_bytes (the (cblocks e ow (b0 + int k)))) [0..<n], e') \<and>
    eng_inv c e' \<and> nfree e' = nfree e \<and> cblocks e' = cblocks e"
proof -
  note c = single_blockD [OF sb]
  define P where "P ys t \<longleftrightarrow>
      fst t = map (\<lambda>k. readable_bytes (the (cblocks e ow (b0 + k)))) ys \<and>
      eng_inv c (snd t) \<and> nfree (snd t) = nfree e \<and> cblocks (snd t) = cblocks e"
    for ys :: "int list" and t :: "byte list list \<times> engine"
  have "\<exists>t. foldE (fill_iov c ow (b0 + int n - 1) (int n) (map snd ps)) [0 .. int n - 1] ([], e) = Inr t
      \<and> P [0 .. int n - 1] t"
  proof (rule foldE_prefix_rule)
    show "P [] ([], e)" using inv by (simp add: P_def)
  next
    fix ys p_id zs t assume ks: "[0..int n - 1] = ys @ p_id # zs" and P: "P ys t"
    obtain acc e1 where t: "t = (acc, e1)" by (cases t)
    have inv1: "eng_inv c e1" and view: "cblocks e1 = cblocks e" and nf: "nfree e1 = nfree e"
      using P by (simp_all add: P_def t)
    have "p_id \<in> set [0..int n - 1]" using ks by simp
    then have pid: "0 \<le> p_id" "p_id < int n" by auto
    define k where "k = nat p_id"
    have k: "p_id = int k" "k < n" using pid by (simp_all add: k_def)
    define b where "b = b0 + int k"
    have blk: "b0 + int n - 1 - int n + p_id + 1 = b" by (simp add: b_def k)
    have psk: "ps ! k \<in> set ps" using k len by simp
    obtain r where r: "ps ! k = (b, r)" using run [OF k(2)] by (cases "ps ! k") (simp add: b_def)
    obtain cb where cb: "cblocks e1 ow b = Some cb" "cb_page cb = ref_page r"
      "block_shape (IO_BLOCK_SIZE c) cb" and offs: "ref_offsets r = (0, IO_BLOCK_SIZE c - 1)"
      using ps psk r view by (fastforce simp: collected_def)
    note f = cblocks_Some [OF inv1 cb(1)]
    have shape: "- 1 \<le> cb_readable cb" "cb_readable cb < IO_BLOCK_SIZE c"
      using cb(3) by (auto simp: block_shape_def)
    define iov_len where "iov_len = (if p_id = int n - 1 then cb_readable cb + 1 else IO_BLOCK_SIZE c)"
    have iov: "iov_len = cb_readable cb + 1"
    proof (cases "p_id = int n - 1")
      case False
      then have "Suc k < n" using k by linarith
      from full [OF this] show ?thesis using cb(1) view False by (simp add: iov_len_def b_def)
    qed (simp add: iov_len_def)
    have rd: "mem_read (cb_data cb) 0 (u64 iov_len) = Inr (readable_bytes cb)"
      using iov shape f(2) c(4) by (simp add: mem_read_def u64_id readable_bytes_def)
    obtain ref where ref: "find_ref e1 ow b = Some ref" using f(7) by blast
    then obtain m where m: "fmlookup (owner_ordered_pages_mapping e1) ow = Some m" "fmlookup m b = Some ref"
      by (auto simp: find_ref_def split: option.splits)
    note s = resync_ref [OF inv1 m, of True]
    have nth: "map snd ps ! nat p_id = r" using k len r by (simp add: k_def [symmetric])
    have "bnd (if p_id = int n - 1
             then bnd (get_readable_to (allocated_block_ids
                         (full_page c ow b (cb_readable cb) (cb_data cb) (cb_dirty cb))) b)
                    (\<lambda>r. Inr (r + 1))
             else Inr (IO_BLOCK_SIZE c)) g = g iov_len" for g :: "int \<Rightarrow> (byte list list \<times> engine) res"
      by (simp add: iov_len_def)
    then have "fill_iov c ow (b0 + int n - 1) (int n) (map snd ps) p_id t =
        Inr (acc @ [readable_bytes cb],
          e1\<lparr>owner_ordered_pages_mapping :=
            fmupd ow (fmupd b (ref\<lparr>ref_synced := True\<rparr>) m) (owner_ordered_pages_mapping e1)\<rparr>)"
      using f(1) rd m
      by (simp only: fill_iov_def t prod.case Let_def blk nth deref_page_def cb(2) [symmetric]
          of_option_simps bnd_Inr offs fst_conv full_page_simps fmat_Some [OF m(1)] fmat_Some [OF m(2)])
    moreover have "P (ys @ [p_id]) (acc @ [readable_bytes cb],
          e1\<lparr>owner_ordered_pages_mapping :=
            fmupd ow (fmupd b (ref\<lparr>ref_synced := True\<rparr>) m) (owner_ordered_pages_mapping e1)\<rparr>)"
      using P s(1,2,3) view nf cb(1) by (simp add: P_def t b_def k)
    ultimately show "\<exists>t'. fill_iov c ow (b0 + int n - 1) (int n) (map snd ps) p_id t = Inr t' \<and>
        P (ys @ [p_id]) t'" by blast
  qed
  moreover have "map (\<lambda>k. readable_bytes (the (cblocks e ow (b0 + k)))) [0..int n - 1] =
      map (\<lambda>k. readable_bytes (the (cblocks e ow (b0 + int k)))) [0..<n]"
  proof -
    have "[0..int n - 1] = map int [0..<n]" by (induction n) (simp_all add: upto_rec2)
    then show ?thesis by simp
  qed
  ultimately show ?thesis by (auto simp: P_def)
qed

section \<open>All runs\<close>

text \<open>Which blocks may be written as one run: a block before another one is full.\<close>

definition runs_full :: "config \<Rightarrow> (int \<Rightarrow> cblock option) \<Rightarrow> int set \<Rightarrow> bool" where
  "runs_full c v S \<longleftrightarrow>
     (\<forall>b cb. b \<in> S \<longrightarrow> b + 1 \<in> S \<longrightarrow> v b = Some cb \<longrightarrow> cb_readable cb = IO_BLOCK_SIZE c - 1)"

lemma run_written:
  assumes sb: "single_block c" and law: "pwritev_law h v"
    and inv: "eng_inv c e" and fd: "fd_ino v d fd = Some i"
    and coll': "\<forall>x \<in> set ps'. collected c e ow x"
    and len: "length ps' = n" "0 < n" and ps': "\<And>k. k < n \<Longrightarrow> fst (ps' ! k) = bfst + int k"
    and full: "runs_full c (cblocks e ow) (fst ` set ps')"
  obtains iov e1 d1 where
    "foldE (fill_iov c ow (bfst + int n - 1) (int n) (map snd ps')) [0 .. int n - 1] ([], e) = Inr (iov, e1)"
    "os_pwritev h fd iov (bfst * IO_BLOCK_SIZE c) d = (int (length (concat iov)), d1)"
    "eng_inv c e1" "nfree e1 = nfree e" "cblocks e1 = cblocks e"
    "byte_at (content v d1 i) =
      fold (wr_block (IO_BLOCK_SIZE c) (cblocks e ow)) (map fst ps') (byte_at (content v d i))"
    "\<forall>i'. i' \<noteq> i \<longrightarrow> content v d1 i' = content v d i'"
    "fd_ino v d1 = fd_ino v d" "path_ino v d1 = path_ino v d"
proof -
  note c = single_blockD [OF sb]
  have mem: "bfst + int k \<in> fst ` set ps'" and at: "\<exists>r. (bfst + int k, r) \<in> set ps'"
    if "k < n" for k
    using ps' [OF that] nth_mem [of k ps'] that by (metis image_eqI len(1), metis len(1) prod.collapse)
  have full_run: "cb_readable (the (cblocks e ow (bfst + int k))) = IO_BLOCK_SIZE c - 1"
    if "Suc k < n" for k
  proof -
    have "bfst + int k \<in> fst ` set ps'" "bfst + int k + 1 \<in> fst ` set ps'"
      using mem [of k] mem [of "Suc k"] that by (simp_all add: add.assoc add.commute [of 1])
    moreover have "\<exists>cb. cblocks e ow (bfst + int k) = Some cb"
      using coll' at [of k] that by (fastforce simp: collected_def)
    ultimately show ?thesis using full by (auto simp: runs_full_def)
  qed
  have bfst: "0 \<le> bfst"
    using coll' at [of 0] len(2) by (fastforce simp: collected_def)
  from fill_iov_single [OF sb inv ps' len(1,2) coll' full_run]
  obtain e1 where e1: "foldE (fill_iov c ow (bfst + int n - 1) (int n) (map snd ps')) [0 .. int n - 1] ([], e) =
      Inr (map (\<lambda>k. readable_bytes (the (cblocks e ow (bfst + int k)))) [0..<n], e1)"
    "eng_inv c e1" "nfree e1 = nfree e" "cblocks e1 = cblocks e"
    by blast
  define iov where "iov = map (\<lambda>k. readable_bytes (the (cblocks e ow (bfst + int k)))) [0..<n]"
  have off0: "0 \<le> bfst * IO_BLOCK_SIZE c" using bfst c by simp
  obtain d1 where d1: "os_pwritev h fd iov (bfst * IO_BLOCK_SIZE c) d = (int (length (concat iov)), d1)"
    "content v d1 = (content v d)(i := file_write (content v d i) (bfst * IO_BLOCK_SIZE c) (concat iov))"
    "fd_ino v d1 = fd_ino v d" "path_ino v d1 = path_ino v d"
    by (rule pwritevD [OF law fd off0])
  have "map fst ps' = map (\<lambda>k. bfst + int k) [0..<n]"
    by (rule nth_equalityI) (use ps' len in auto)
  moreover have "fold (wr_block (IO_BLOCK_SIZE c) (cblocks e ow)) (map (\<lambda>k. bfst + int k) [0..<n]) f =
      wr f (nat (bfst * IO_BLOCK_SIZE c)) (concat iov)" for f
  proof -
    have "\<forall>k<n. \<exists>cb. cblocks e ow (bfst + int k) = Some cb \<and> block_shape (IO_BLOCK_SIZE c) cb"
      using coll' at by (fastforce simp: collected_def)
    then show ?thesis
      using fold_wr_block_run [OF c(3) bfst, of n "cblocks e ow" f] full_run by (simp add: iov_def)
  qed
  ultimately have run: "byte_at (content v d1 i) =
      fold (wr_block (IO_BLOCK_SIZE c) (cblocks e ow)) (map fst ps') (byte_at (content v d i))"
    by (simp add: d1(2) byte_at_file_write_wr)
  show thesis
    by (rule that [OF e1(1) [folded iov_def] d1(1) e1(2-4) run]) (simp_all add: d1)
qed

lemma sync_runs_single:
  assumes sb: "single_block c" and law: "pwritev_law h v"
  shows "\<lbrakk>eng_inv c e; fd_ino v d fd = Some i;
     \<forall>x \<in> set (ps @ L). collected c e ow x;
     \<And>k. k < length ps \<Longrightarrow> fst (ps ! k) = bfst + int k;
     L = [] \<Longrightarrow> ps = []; L \<noteq> [] \<Longrightarrow> fst (hd L) = bfst + int (length ps);
     runs_full c (cblocks e ow) (fst ` set (ps @ L))\<rbrakk> \<Longrightarrow>
    \<exists>e' d'. sync_runs h c ow fd L (int (length ps)) (map snd ps) e d = Inr (e', d') \<and>
      eng_inv c e' \<and> nfree e' = nfree e \<and> cblocks e' = cblocks e \<and>
      byte_at (content v d' i) =
        fold (wr_block (IO_BLOCK_SIZE c) (cblocks e ow)) (map fst (ps @ L)) (byte_at (content v d i)) \<and>
      (\<forall>i'. i' \<noteq> i \<longrightarrow> content v d' i' = content v d i') \<and>
      fd_ino v d' = fd_ino v d \<and> path_ino v d' = path_ino v d"
proof (induction L arbitrary: ps bfst e d)
  case Nil
  then show ?case by simp
next
  case (Cons x L)
  note c = single_blockD [OF sb]
  obtain b r where x: "x = (b, r)" by (cases x)
  define ps' where "ps' = ps @ [(b, r)]"
  define n where "n = length ps'"
  have b: "b = bfst + int (length ps)" using Cons.prems(6) by (simp add: x)
  have ps': "fst (ps' ! k) = bfst + int k" if "k < n" for k
    using that Cons.prems(4) b by (auto simp: ps'_def n_def nth_append less_Suc_eq)
  have coll: "\<forall>y \<in> set (ps' @ L). collected c e ow y" using Cons.prems(3) by (simp add: ps'_def x)
  have app: "ps @ x # L = ps' @ L" by (simp add: ps'_def x)
  have full: "runs_full c (cblocks e ow) (fst ` set (ps' @ L))" using Cons.prems(7) app by simp
  have n: "int n = int (length ps) + 1" "0 < n" by (simp_all add: n_def ps'_def)
  show ?case
  proof (cases "int (length ps) < IOV_MAX - 1 \<and> L \<noteq> [] \<and> b = fst (hd L) - 1")
    case True
    have "\<exists>e' d'. sync_runs h c ow fd L (int (length ps')) (map snd ps') e d = Inr (e', d') \<and>
      eng_inv c e' \<and> nfree e' = nfree e \<and> cblocks e' = cblocks e \<and>
      byte_at (content v d' i) =
        fold (wr_block (IO_BLOCK_SIZE c) (cblocks e ow)) (map fst (ps' @ L)) (byte_at (content v d i)) \<and>
      (\<forall>i'. i' \<noteq> i \<longrightarrow> content v d' i' = content v d i') \<and>
      fd_ino v d' = fd_ino v d \<and> path_ino v d' = path_ino v d"
      by (rule Cons.IH [where bfst = bfst])
        (use Cons.prems(1,2) coll ps' full True b in \<open>auto simp: n_def ps'_def\<close>)
    moreover have "sync_runs h c ow fd (x # L) (int (length ps)) (map snd ps) e d =
        sync_runs h c ow fd L (int (length ps')) (map snd ps') e d"
      using True by (simp add: x ps'_def add.commute)
    ultimately show ?thesis unfolding app by simp
  next
    case False
    have cur: "bfst + int n - 1 = b" using b n by simp
    have "runs_full c (cblocks e ow) (fst ` set ps')" using full by (auto simp: runs_full_def)
    from run_written [OF sb law Cons.prems(1,2) _ n_def [symmetric] n(2) ps' this] coll
    obtain iov e1 d1 where e1: "foldE (fill_iov c ow b (int n) (map snd ps')) [0 .. int n - 1] ([], e) = Inr (iov, e1)"
      "eng_inv c e1" "nfree e1 = nfree e" "cblocks e1 = cblocks e"
      and d1: "os_pwritev h fd iov (bfst * IO_BLOCK_SIZE c) d = (int (length (concat iov)), d1)"
      "\<forall>i'. i' \<noteq> i \<longrightarrow> content v d1 i' = content v d i'" "fd_ino v d1 = fd_ino v d" "path_ino v d1 = path_ino v d"
      and run: "byte_at (content v d1 i) =
        fold (wr_block (IO_BLOCK_SIZE c) (cblocks e ow)) (map fst ps') (byte_at (content v d i))"
      unfolding cur by (metis (lifting) UnCI set_append)
    have off: "(b - int n + 1) * IO_BLOCK_SIZE c = bfst * IO_BLOCK_SIZE c" using cur by simp
    have fdi: "fd_ino v d1 fd = Some i" using d1(3) Cons.prems(2) by simp
    have collL: "\<forall>y \<in> set ([] @ L). collected c e1 ow y"
      using coll e1(4) by (simp add: collected_def)
    have fullL: "runs_full c (cblocks e1 ow) (fst ` set ([] @ L))"
      using full e1(4) by (auto simp: runs_full_def)
    have "\<exists>e' d'. sync_runs h c ow fd L (int (length ([] :: (int \<times> block_ref) list)))
        (map snd ([] :: (int \<times> block_ref) list)) e1 d1 = Inr (e', d') \<and>
      eng_inv c e' \<and> nfree e' = nfree e1 \<and> cblocks e' = cblocks e1 \<and>
      byte_at (content v d' i) =
        fold (wr_block (IO_BLOCK_SIZE c) (cblocks e1 ow)) (map fst ([] @ L)) (byte_at (content v d1 i)) \<and>
      (\<forall>i'. i' \<noteq> i \<longrightarrow> content v d' i' = content v d1 i') \<and>
      fd_ino v d' = fd_ino v d1 \<and> path_ino v d' = path_ino v d1"
      by (rule Cons.IH [where ps = "[]" and bfst = "fst (hd L)"])
        (use e1(2) fdi collL fullL in simp_all)
    moreover have "sync_runs h c ow fd (x # L) (int (length ps)) (map snd ps) e d =
        sync_runs h c ow fd L 0 [] e1 d1"
    proof -
      have "map snd ps @ [r] = map snd ps'" by (simp add: ps'_def)
      then show ?thesis
        by (simp only: x sync_runs.simps if_not_P [OF False] Let_def n(1) [symmetric]
            e1(1)  bnd_Inr prod.case off d1(1))
    qed
    ultimately show ?thesis unfolding app using run e1(3,4) d1 by auto
  qed
qed

section \<open>The whole write-back\<close>

definition dirty_blocks :: "(int \<Rightarrow> cblock option) \<Rightarrow> int \<Rightarrow> cblock option" where
  "dirty_blocks v b = (case v b of None \<Rightarrow> None | Some cb \<Rightarrow> if cb_dirty cb then Some cb else None)"

text \<open>The content of a file of the given size after the dirty blocks have been written to it.\<close>

definition synced_file :: "int \<Rightarrow> (int \<Rightarrow> cblock option) \<Rightarrow> int \<Rightarrow> byte list \<Rightarrow> byte list" where
  "synced_file bs v sz old = map (file_byte bs (dirty_blocks v) (byte_at old)) [0..<nat sz]"

lemma file_byte_cong:
  assumes "\<And>b. map_option (\<lambda>cb. (cb_data cb, cb_readable cb)) (v b) =
      map_option (\<lambda>cb. (cb_data cb, cb_readable cb)) (v' b)"
  shows "file_byte bs v f = file_byte bs v' f"
proof
  fix j
  show "file_byte bs v f j = file_byte bs v' f j"
    using assms [of "int j div bs"] by (auto simp: file_byte_def split: option.splits)
qed

lemma synced_file_resize:
  assumes "byte_at c1 = file_byte bs (dirty_blocks v) (byte_at old)"
  shows "file_resize c1 sz = synced_file bs v sz old"
proof (rule byte_list_eqI)
  fix j assume "j < length (file_resize c1 sz)"
  then have j: "j < nat sz" by simp
  then have "byte_at (synced_file bs v sz old) j = file_byte bs (dirty_blocks v) (byte_at old) j"
    by (simp add: byte_at_def synced_file_def)
  then show "byte_at (file_resize c1 sz) j = byte_at (synced_file bs v sz old) j"
    using j by (simp add: byte_at_file_resize assms)
qed (simp add: synced_file_def)

definition blocks_shaped :: "config \<Rightarrow> (int \<Rightarrow> cblock option) \<Rightarrow> bool" where
  "blocks_shaped c v \<longleftrightarrow>
     (\<forall>b cb. v b = Some cb \<longrightarrow> 0 \<le> b \<and> - 1 \<le> cb_readable cb \<and> cb_readable cb < IO_BLOCK_SIZE c)"

lemma sync_dirty_single:
  assumes sb: "single_block c" and inv: "eng_inv c e" and law: "pwritev_law h v"
    and m: "fmlookup (owner_ordered_pages_mapping e) ow = Some m"
    and fd: "fd_ino v d fd = Some i" and sh: "blocks_shaped c (cblocks e ow)"
    and full: "runs_full c (cblocks e ow) {b. is_dirty_block e ow b}"
  obtains L e1 e2 d2 where
    "foldE (collect_dirty m) (fmkeys m) ([], e) = Inr (L, e1)"
    "sync_runs h c ow fd L 0 [] e1 d = Inr (e2, d2)"
    "eng_inv c e2" "nfree e2 = nfree e"
    "cblocks e2 = (cblocks e)(ow := \<lambda>b. map_option clean_block (cblocks e ow b))"
    "byte_at (content v d2 i) = file_byte (IO_BLOCK_SIZE c) (dirty_blocks (cblocks e ow))
       (byte_at (content v d i))"
    "\<forall>i'. i' \<noteq> i \<longrightarrow> content v d2 i' = content v d i'"
    "fd_ino v d2 = fd_ino v d" "path_ino v d2 = path_ino v d"
proof -
  note c = single_blockD [OF sb]
  define ks where "ks = filter (is_dirty_block e ow) (fmkeys m)"
  define L where "L = map (\<lambda>b. (b, the (fmlookup m b))) ks"
  have fst_L: "map fst L = ks" by (simp add: L_def comp_def)
  obtain e1 where e1: "foldE (collect_dirty m) (fmkeys m) ([], e) = Inr (L, e1)" "eng_inv c e1"
    "nfree e1 = nfree e" "cblocks e1 = (cblocks e)(ow := \<lambda>b. map_option clean_block (cblocks e ow b))"
    using collect_dirty_single [OF inv m] unfolding L_def ks_def by blast
  have dirty: "b \<in> set ks \<longleftrightarrow> is_dirty_block e ow b" for b
  proof -
    have "b \<in> set (fmkeys m)" if "is_dirty_block e ow b"
    proof -
      have "find_ref e ow b \<noteq> None"
        using that by (auto simp: is_dirty_block_def cblocks_def split: option.splits)
      then show ?thesis using m by (auto simp: find_ref_def fmlookup_dom_iff)
    qed
    then show ?thesis by (auto simp: ks_def)
  qed
  have shaped: "0 \<le> b \<and> (\<exists>cb. cblocks e1 ow b = Some cb \<and> block_shape (IO_BLOCK_SIZE c) cb)"
    if bk: "b \<in> set ks" for b
  proof -
    obtain cb where cb: "cblocks e ow b = Some cb"
      using bk by (auto simp: dirty is_dirty_block_def)
    then show ?thesis
      using sh cblocks_Some(2) [OF inv cb] e1(4)
      by (auto simp: blocks_shaped_def block_shape_def)
  qed
  have coll: "\<forall>x \<in> set ([] @ L). collected c e1 ow x"
  proof
    fix x assume "x \<in> set ([] @ L)"
    then obtain b where b: "b \<in> set ks" "x = (b, the (fmlookup m b))" by (auto simp: L_def)
    then have "b \<in> set (fmkeys m)" by (simp add: ks_def)
    then obtain r where r: "fmlookup m b = Some r" by (auto simp: fmlookup_dom_iff)
    then have fr: "find_ref e ow b = Some r" using m by (simp add: find_ref_def)
    obtain cb where cb: "cblocks e1 ow b = Some cb" "block_shape (IO_BLOCK_SIZE c) cb"
      using shaped [OF b(1)] by blast
    obtain rd dt dirty where
      "cblocks e ow b = Some \<lparr>cb_page = ref_page r, cb_data = dt, cb_readable = rd, cb_dirty = dirty\<rparr>"
      by (rule find_ref_block [OF inv fr])
    then have "cb_page cb = ref_page r" using cb(1) e1(4) by auto
    then show "collected c e1 ow x"
      using cb shaped [OF b(1)] ref_facts(2) [OF inv fr] b(2) r by (simp add: collected_def)
  qed
  have full1: "runs_full c (cblocks e1 ow) (fst ` set ([] @ L))"
  proof -
    have "fst ` set ([] @ L) = {b. is_dirty_block e ow b}"
      using dirty fst_L by (metis Collect_cong append_Nil list.set_map mem_Collect_eq subsetI subset_antisym)
    then show ?thesis using full e1(4) by (auto simp: runs_full_def)
  qed
  have runs: "\<exists>e' d'. sync_runs h c ow fd L (int (length ([] :: (int \<times> block_ref) list)))
      (map snd ([] :: (int \<times> block_ref) list)) e1 d = Inr (e', d') \<and>
      eng_inv c e' \<and> nfree e' = nfree e1 \<and> cblocks e' = cblocks e1 \<and>
      byte_at (content v d' i) =
        fold (wr_block (IO_BLOCK_SIZE c) (cblocks e1 ow)) (map fst ([] @ L)) (byte_at (content v d i)) \<and>
      (\<forall>i'. i' \<noteq> i \<longrightarrow> content v d' i' = content v d i') \<and>
      fd_ino v d' = fd_ino v d \<and> path_ino v d' = path_ino v d"
    by (rule sync_runs_single [where bfst = "fst (hd L)", OF sb law e1(2) fd coll _ _ _ full1]) simp_all
  then obtain e2 d2 where e2: "sync_runs h c ow fd L 0 [] e1 d = Inr (e2, d2)"
    "eng_inv c e2" "nfree e2 = nfree e1" "cblocks e2 = cblocks e1"
    "byte_at (content v d2 i) = fold (wr_block (IO_BLOCK_SIZE c) (cblocks e1 ow)) ks (byte_at (content v d i))"
    "\<forall>i'. i' \<noteq> i \<longrightarrow> content v d2 i' = content v d i'"
    "fd_ino v d2 = fd_ino v d" "path_ino v d2 = path_ino v d"
    by (auto simp: fst_L)
  have "fold (wr_block (IO_BLOCK_SIZE c) (cblocks e1 ow)) ks f =
      file_byte (IO_BLOCK_SIZE c) (\<lambda>b. if b \<in> set ks then cblocks e1 ow b else None) f" for f
    by (rule fold_wr_block) (use c(3) shaped in \<open>auto simp: ks_def\<close>)
  also have "\<And>f. file_byte (IO_BLOCK_SIZE c) (\<lambda>b. if b \<in> set ks then cblocks e1 ow b else None) f =
      file_byte (IO_BLOCK_SIZE c) (dirty_blocks (cblocks e ow)) f"
    by (rule file_byte_cong) (auto simp: dirty dirty_blocks_def is_dirty_block_def e1(4) split: option.splits)
  finally show ?thesis using that e1 e2 by metis
qed

lemma sync_pages_single:
  assumes sb: "single_block c" and inv: "eng_inv c e" and laws: "host_laws h v"
    and p: "path_ino v d path = Some i" and sz: "0 \<le> sz" and sh: "blocks_shaped c (cblocks e ow)"
    and full: "runs_full c (cblocks e ow) {b. is_dirty_block e ow b}"
  shows "\<exists>e' d'. sync_pages h c ow sz path e d = Inr (False, e', d') \<and>
    eng_inv c e' \<and> nfree e' = nfree e \<and>
    cblocks e' = (cblocks e)(ow := \<lambda>b. map_option clean_block (cblocks e ow b)) \<and>
    content v d' = (content v d)
      (i := synced_file (IO_BLOCK_SIZE c) (cblocks e ow) sz (content v d i)) \<and>
    fd_ino v d' = fd_ino v d \<and> path_ino v d' = path_ino v d"
proof -
  note l = host_lawsD [OF laws]
  obtain fd d1 where d1: "os_open h path O_WRONLY 0 d = (fd, d1)" "fd_ino v d1 fd = Some i"
    "content v d1 = content v d" "path_ino v d1 = path_ino v d"
    and fds: "fd_ino v d fd = None" "fd_ino v d1 = (fd_ino v d)(fd := Some i)"
    by (rule openD [OF l(1) p, of O_WRONLY 0]) simp_all
  define run where "run = (case fmlookup (owner_pages_mapping e) ow of
             None \<Rightarrow> Inr (e, d1)
           | Some _ \<Rightarrow>
               bnd (fmat (owner_ordered_pages_mapping e) ow) (\<lambda>iterate_blocks.
               bnd (foldE (collect_dirty iterate_blocks) (fmkeys iterate_blocks) ([], e))
                 (\<lambda>(new_iterate_blocks, e). sync_runs h c ow fd new_iterate_blocks 0 [] e d1)))"
  have "\<exists>e2 d2. run = Inr (e2, d2) \<and> eng_inv c e2 \<and> nfree e2 = nfree e \<and>
      cblocks e2 = (cblocks e)(ow := \<lambda>b. map_option clean_block (cblocks e ow b)) \<and>
      byte_at (content v d2 i) = file_byte (IO_BLOCK_SIZE c) (dirty_blocks (cblocks e ow))
         (byte_at (content v d1 i)) \<and>
      (\<forall>i'. i' \<noteq> i \<longrightarrow> content v d2 i' = content v d1 i') \<and>
      fd_ino v d2 = fd_ino v d1 \<and> path_ino v d2 = path_ino v d1"
  proof (cases "fmlookup (owner_ordered_pages_mapping e) ow")
    case None
    then have "fmlookup (owner_pages_mapping e) ow = None" using owner_entry [OF inv, of ow] by simp
    moreover have none: "cblocks e ow = (\<lambda>_. None)"
      using None by (simp add: fun_eq_iff cblocks_def find_ref_def)
    then have "cblocks e = (cblocks e)(ow := \<lambda>b. map_option clean_block (cblocks e ow b))"
      by (simp add: fun_eq_iff)
    moreover have "file_byte (IO_BLOCK_SIZE c) (dirty_blocks (cblocks e ow)) f = f" for f
      by (simp add: fun_eq_iff file_byte_def dirty_blocks_def none)
    ultimately show ?thesis using inv by (simp add: run_def)
  next
    case (Some m)
    then obtain s where s: "fmlookup (owner_pages_mapping e) ow = Some s"
      using owner_entry [OF inv, of ow] by auto
    obtain L e1 e2 d2 where r: "foldE (collect_dirty m) (fmkeys m) ([], e) = Inr (L, e1)"
      "sync_runs h c ow fd L 0 [] e1 d1 = Inr (e2, d2)"
      "eng_inv c e2" "nfree e2 = nfree e"
      "cblocks e2 = (cblocks e)(ow := \<lambda>b. map_option clean_block (cblocks e ow b))"
      "byte_at (content v d2 i) = file_byte (IO_BLOCK_SIZE c) (dirty_blocks (cblocks e ow))
         (byte_at (content v d1 i))"
      "\<forall>i'. i' \<noteq> i \<longrightarrow> content v d2 i' = content v d1 i'"
      "fd_ino v d2 = fd_ino v d1" "path_ino v d2 = path_ino v d1"
      by (rule sync_dirty_single [OF sb inv l(5) Some d1(2) sh full])
    have "run = Inr (e2, d2)" using s r(1,2) by (simp add: run_def fmat_Some [OF Some])
    then show ?thesis using r by blast
  qed
  then obtain e2 d2 where r: "run = Inr (e2, d2)" "eng_inv c e2" "nfree e2 = nfree e"
    "cblocks e2 = (cblocks e)(ow := \<lambda>b. map_option clean_block (cblocks e ow b))"
    "byte_at (content v d2 i) = file_byte (IO_BLOCK_SIZE c) (dirty_blocks (cblocks e ow))
       (byte_at (content v d1 i))"
    "\<forall>i'. i' \<noteq> i \<longrightarrow> content v d2 i' = content v d1 i'"
    "fd_ino v d2 = fd_ino v d1" "path_ino v d2 = path_ino v d1" by blast
  have "fd_ino v d2 fd = Some i" using r(7) d1(2) by simp
  from ftruncateD [OF l(6) this sz] obtain d3 where d3: "os_ftruncate h fd sz d2 = (0, d3)"
    "content v d3 = (content v d2)(i := file_resize (content v d2 i) sz)"
    "path_ino v d3 = path_ino v d2" "fd_ino v d3 = fd_ino v d2" by metis
  define d' where "d' = os_close h fd d3"
  have d': "content v d' = content v d3" "path_ino v d' = path_ino v d3"
    "fd_ino v d' = (fd_ino v d3)(fd := None)"
    using l(2) by (simp_all add: close_law_def d'_def)
  have "sync_pages h c ow sz path e d = Inr (False, e2, d')"
    using d1(1) r(1) d3(1) by (simp add: sync_pages_def run_def d'_def)
  moreover have "file_resize (content v d2 i) sz =
      synced_file (IO_BLOCK_SIZE c) (cblocks e ow) sz (content v d i)"
    by (rule synced_file_resize) (use r(5) d1(3) in simp)
  then have "content v d' = (content v d)
      (i := synced_file (IO_BLOCK_SIZE c) (cblocks e ow) sz (content v d i))"
    using d' d3(2) r(6) d1(3) by (auto simp: fun_eq_iff)
  moreover have "path_ino v d' = path_ino v d" using d' d3(3) r(8) d1(4) by simp
  moreover have "fd_ino v d' = fd_ino v d"
    using d'(3) d3(4) r(7) fds by (simp add: fun_upd_idem)
  ultimately show ?thesis using r by blast
qed

lemma get_dirty_blocks_info_ok:
  assumes inv: "eng_inv c e"
  shows "\<exists>info. get_dirty_blocks_info ow e = Inr info"
proof (cases "fmlookup (owner_ordered_pages_mapping e) ow")
  case None
  then show ?thesis by (simp add: get_dirty_blocks_info_def)
next
  case (Some m)
  have "\<exists>t. foldE (dirty_block_info m e) (fmkeys m) [] = Inr t \<and> True"
  proof (rule foldE_invariant)
    fix b t assume "b \<in> set (fmkeys m)"
    then obtain r where r: "fmlookup m b = Some r" by (auto simp: fmlookup_dom_iff)
    then have fr: "find_ref e ow b = Some r" using Some by (simp add: find_ref_def)
    obtain rd dt dirty where "fmlookup (search_index e) (ref_page r) = Some (full_page c ow b rd dt dirty)"
      using ref_facts(3) [OF inv fr] by blast
    then show "\<exists>t'. dirty_block_info m e b t = Inr t' \<and> True"
      by (simp add: dirty_block_info_def fmat_Some [OF r] deref_page_def)
  qed simp
  then show ?thesis using Some by (auto simp: get_dirty_blocks_info_def)
qed

end
