(* ===== verification/Engine_Spec.thy ===== *)
theory Engine_Spec
  imports Engine_Sync Page_Cache
begin

text \<open>
  The contract between the two layers of the cache. The upper layer (\<open>class Cache\<close>) calls a
  page engine through the virtual functions of \<open>PageCacheEngine\<close>; what it relies on is stated
  here once, as a locale over the record of those functions, a state invariant of the engine, an
  abstract view (which blocks of which owner are stored, with their page, bytes, readable end
  and dirty flag) and the number of free pages. The custom engine meets the contract when a page
  holds one block and no page is evicted, which is the configuration the file system ships with.
\<close>

section \<open>The contract\<close>

text \<open>
  Laws of the operations that do not touch the host. A request to write one block either stores
  it, taking a free page when the block was not there, or fails exactly when it was not there
  and no page is free.
\<close>

locale page_engine =
  fixes E :: "('e, 'd) page_cache_engine"
    and c :: config
    and ok :: "'e \<Rightarrow> bool"
    and view :: "'e \<Rightarrow> string \<Rightarrow> int \<Rightarrow> cblock option"
    and room :: "'e \<Rightarrow> nat"
  assumes geometry: "ok e \<Longrightarrow> 0 < IO_BLOCK_SIZE c \<and> IO_BLOCK_SIZE c < 2147483648"
    and stored: "ok e \<Longrightarrow> view e ow b = Some cb \<Longrightarrow>
      0 \<le> cb_page cb \<and> int (length (cb_data cb)) = IO_BLOCK_SIZE c \<and> ow \<noteq> ''none''"
    and is_cached: "ok e \<Longrightarrow> ow \<noteq> ''none'' \<Longrightarrow>
      eng_is_block_cached E e ow p b \<longleftrightarrow> (\<exists>cb. view e ow b = Some cb \<and> cb_page cb = p)"
    and usage_full: "ok e \<Longrightarrow> eng_get_engine_usage E e = 100 \<longleftrightarrow> room e = 0"
    and usage_empty: "ok e \<Longrightarrow> (\<And>ow b. view e ow b = None) \<Longrightarrow> eng_get_engine_usage E e = 0"
    and allocate_none: "eng_allocate_blocks E ow fmempty op e d = Inr (fmempty, e, d)"
    and allocate_one: "\<lbrakk>ok e; ow \<noteq> ''none''; request_ok c req;
      \<And>cb. view e ow b = Some cb \<Longrightarrow> fst req = cb_page cb\<rbrakk> \<Longrightarrow>
      \<exists>p e'. eng_allocate_blocks E ow (fmupd b req fmempty) op e d = Inr (fmupd b p fmempty, e', d) \<and>
        ok e' \<and>
        (if view e ow b = None \<and> room e = 0 then p = - 1 \<and> e' = e
         else 0 \<le> p \<and> view e' = upd_view ow b (Some (served c req p (view e ow b))) (view e) \<and>
              (\<forall>cb. view e ow b = Some cb \<longrightarrow> p = cb_page cb) \<and>
              room e' = room e - (if view e ow b = None then 1 else 0))"
    and get: "\<lbrakk>ok e; ow \<noteq> ''none'';
      \<And>b q. fmlookup reqs b = Some q \<Longrightarrow> snd q = IO_BLOCK_SIZE c - 1\<rbrakk> \<Longrightarrow>
      \<exists>res e'. eng_get_blocks E ow reqs e = Inr (res, e') \<and> ok e' \<and> view e' = view e \<and>
        room e' = room e \<and>
        (\<forall>b. fmlookup res b =
           map_option (\<lambda>q. found_block (view e) ow b (fst q)) (fmlookup reqs b))"
    and make_readable: "\<lbrakk>ok e; view e ow b = Some cb\<rbrakk> \<Longrightarrow>
      \<exists>e'. eng_make_block_readable_to_offset E ow (cb_page cb) b r e = Inr e' \<and> ok e' \<and>
        room e' = room e \<and> view e' = upd_view ow b (Some (cb\<lparr>cb_readable := r\<rparr>)) (view e)"
    and remove: "ok e \<Longrightarrow>
      \<exists>e'. eng_remove_cached_blocks E ow e = Inr e' \<and> ok e' \<and>
        view e' = (view e)(ow := \<lambda>_. None) \<and> room e \<le> room e'"
    and truncate: "\<lbrakk>ok e; 0 \<le> idx; idx < IO_BLOCK_SIZE c;
      \<And>b p. fmlookup bl b = Some p \<Longrightarrow> \<exists>cb. view e ow b = Some cb \<and> cb_page cb = p\<rbrakk> \<Longrightarrow>
      \<exists>e'. eng_truncate_cached_blocks E ow bl from_block idx e = Inr e' \<and> ok e' \<and>
        (\<forall>ow' b. view e' ow' b =
           (if ow' = ow \<and> fmlookup bl b \<noteq> None
            then Option.bind (view e ow b) (cut_block c from_block idx b) else view e ow' b)) \<and>
        room e \<le> room e'"
    and dirty_info: "ok e \<Longrightarrow> \<exists>info. eng_get_dirty_blocks_info E ow e = Inr info"
begin

lemma stored_none: "ok e \<Longrightarrow> view e ''none'' b = None"
  using stored [of e "''none''" b] by (cases "view e ''none'' b") auto

text \<open>A request served leaves every other block of every owner alone.\<close>

lemma allocate_one_frame:
  assumes "ok e" and "ow \<noteq> ''none''" and "request_ok c req"
    and "\<And>cb. view e ow b = Some cb \<Longrightarrow> fst req = cb_page cb"
    and "(ow', b') \<noteq> (ow, b)"
  shows "\<exists>res e'. eng_allocate_blocks E ow (fmupd b req fmempty) op e d = Inr (res, e', d) \<and>
      view e' ow' b' = view e ow' b'"
proof -
  obtain p e' where "eng_allocate_blocks E ow (fmupd b req fmempty) op e d = Inr (fmupd b p fmempty, e', d)"
    "if view e ow b = None \<and> room e = 0 then p = - 1 \<and> e' = e
     else 0 \<le> p \<and> view e' = upd_view ow b (Some (served c req p (view e ow b))) (view e) \<and>
          (\<forall>cb. view e ow b = Some cb \<longrightarrow> p = cb_page cb) \<and>
          room e' = room e - (if view e ow b = None then 1 else 0)"
    using allocate_one [OF assms(1-4)] by blast
  then show ?thesis using assms(5) by (auto simp: upd_view_apply split: if_splits)
qed

end

text \<open>
  Writing back, under the laws of the host: afterwards the file has the given size, every byte
  under a dirty block is the cached one, every other byte is the one the file had, and no block
  of the owner is dirty.
\<close>

locale durable_page_engine = page_engine E c ok view room
  for E :: "('e, 'd) page_cache_engine"
    and c :: config
    and ok :: "'e \<Rightarrow> bool"
    and view :: "'e \<Rightarrow> string \<Rightarrow> int \<Rightarrow> cblock option"
    and room :: "'e \<Rightarrow> nat" +
  fixes h :: "'d os" and hv :: "'d view"
  assumes sync: "\<lbrakk>ok e; host_laws h hv; path_ino hv d path = Some i; 0 \<le> sz;
      blocks_shaped c (view e ow);
      runs_full c (view e ow) {b. dirty_blocks (view e ow) b \<noteq> None}\<rbrakk> \<Longrightarrow>
      \<exists>e' d'. eng_sync_pages E ow sz path e d = Inr (False, e', d') \<and> ok e' \<and> room e' = room e \<and>
        view e' = (view e)(ow := \<lambda>b. map_option clean_block (view e ow b)) \<and>
        content hv d' = (content hv d)
          (i := synced_file (IO_BLOCK_SIZE c) (view e ow) sz (content hv d i)) \<and>
        fd_ino hv d' = fd_ino hv d \<and> path_ino hv d' = path_ino hv d"
begin

text \<open>A second write-back right after the first changes nothing.\<close>

lemma sync_idle:
  assumes "ok e" and "host_laws h hv" and "path_ino hv d path = Some i"
    and "view e ow = (\<lambda>b. map_option clean_block (w b))" and "blocks_shaped c (view e ow)"
  shows "\<exists>e' d'. eng_sync_pages E ow (int (length (content hv d i))) path e d = Inr (False, e', d') \<and>
    content hv d' = content hv d \<and> view e' = view e"
proof -
  have clean: "dirty_blocks (view e ow) = (\<lambda>_. None)"
    using assms(4) by (auto simp: dirty_blocks_def fun_eq_iff split: option.splits)
  have same: "synced_file (IO_BLOCK_SIZE c) (view e ow) (int (length (content hv d i))) (content hv d i) =
      content hv d i"
    by (rule nth_equalityI) (simp_all add: synced_file_def clean file_byte_def byte_at_def)
  have "runs_full c (view e ow) {b. dirty_blocks (view e ow) b \<noteq> None}"
    by (simp add: runs_full_def clean)
  from sync [OF assms(1,2,3) _ assms(5) this, of "int (length (content hv d i))"] obtain e' d' where
    "eng_sync_pages E ow (int (length (content hv d i))) path e d = Inr (False, e', d')"
    "view e' = (view e)(ow := \<lambda>b. map_option clean_block (view e ow b))"
    "content hv d' = (content hv d)(i := content hv d i)"
    unfolding same by auto
  moreover have "(view e)(ow := \<lambda>b. map_option clean_block (view e ow b)) = view e"
    by (auto simp: fun_eq_iff assms(4) option.map_comp comp_def)
  ultimately show ?thesis by auto
qed

end

section \<open>The custom engine meets the contract\<close>

definition engine_ok :: "config \<Rightarrow> engine \<Rightarrow> bool" where
  "engine_ok c e \<longleftrightarrow> single_block c \<and> eng_inv c e"

lemma dirty_blocks_iff: "{b. dirty_blocks (cblocks e ow) b \<noteq> None} = {b. is_dirty_block e ow b}"
  by (auto simp: dirty_blocks_def is_dirty_block_def split: option.splits)

interpretation custom: page_engine "custom_cache_engine h c" c "engine_ok c" cblocks nfree for h c
proof
  fix e ow b cb
  assume "engine_ok c e"
  then have sb: "single_block c" and inv: "eng_inv c e" by (simp_all add: engine_ok_def)
  show "0 < IO_BLOCK_SIZE c \<and> IO_BLOCK_SIZE c < 2147483648"
    using single_blockD [OF sb] by simp
  show "eng_get_engine_usage (custom_cache_engine h c) e = 100 \<longleftrightarrow> nfree e = 0"
    using get_engine_usage_full_iff [OF sb inv] by simp
  show "\<exists>info. eng_get_dirty_blocks_info (custom_cache_engine h c) ow e = Inr info"
    using get_dirty_blocks_info_ok [OF inv] by simp
  show "\<exists>e'. eng_remove_cached_blocks (custom_cache_engine h c) ow e = Inr e' \<and> engine_ok c e' \<and>
        cblocks e' = (cblocks e)(ow := \<lambda>_. None) \<and> nfree e \<le> nfree e'"
    using remove_cached_blocks_single [OF sb inv, of ow] sb by (auto simp: engine_ok_def)
  assume cb: "cblocks e ow b = Some cb"
  show "0 \<le> cb_page cb \<and> int (length (cb_data cb)) = IO_BLOCK_SIZE c \<and> ow \<noteq> ''none''"
    using cblocks_Some [OF inv cb] by simp
  show "\<exists>e'. eng_make_block_readable_to_offset (custom_cache_engine h c) ow (cb_page cb) b r e = Inr e' \<and>
        engine_ok c e' \<and> nfree e' = nfree e \<and>
        cblocks e' = upd_view ow b (Some (cb\<lparr>cb_readable := r\<rparr>)) (cblocks e)" for r
    using make_block_readable_to_offset_single [OF inv cb, of r] sb by (auto simp: engine_ok_def)
next
  fix e
  assume "engine_ok c e" and "\<And>ow b. cblocks e ow b = None"
  then show "eng_get_engine_usage (custom_cache_engine h c) e = 0"
    using get_engine_usage_empty [of c e] by (simp add: engine_ok_def)
next
  fix e ow p b
  assume "engine_ok c e" and "ow \<noteq> ''none''"
  then show "eng_is_block_cached (custom_cache_engine h c) e ow p b \<longleftrightarrow>
      (\<exists>cb. cblocks e ow b = Some cb \<and> cb_page cb = p)"
    using is_block_cached_iff [of c e ow p b] by (simp add: engine_ok_def)
next
  fix ow op e d
  show "eng_allocate_blocks (custom_cache_engine h c) ow fmempty op e d = Inr (fmempty, e, d)"
    by (simp add: allocate_blocks_empty)
next
  fix e ow req b op d
  assume "engine_ok c e" and a: "ow \<noteq> ''none''" "request_ok c req"
    "\<And>cb. cblocks e ow b = Some cb \<Longrightarrow> fst req = cb_page cb"
  then have sb: "single_block c" and inv: "eng_inv c e" by (simp_all add: engine_ok_def)
  show "\<exists>p e'. eng_allocate_blocks (custom_cache_engine h c) ow (fmupd b req fmempty) op e d =
        Inr (fmupd b p fmempty, e', d) \<and> engine_ok c e' \<and>
        (if cblocks e ow b = None \<and> nfree e = 0 then p = - 1 \<and> e' = e
         else 0 \<le> p \<and> cblocks e' = upd_view ow b (Some (served c req p (cblocks e ow b))) (cblocks e) \<and>
              (\<forall>cb. cblocks e ow b = Some cb \<longrightarrow> p = cb_page cb) \<and>
              nfree e' = nfree e - (if cblocks e ow b = None then 1 else 0))"
    using allocate_blocks_single [OF sb inv a, where h = h and op = op and d = d] sb
    unfolding engine_ok_def custom_cache_engine_simps by blast
next
  fix e ow and reqs :: "(int, int \<times> int) fmap"
  assume "engine_ok c e" and a: "ow \<noteq> ''none''"
    "\<And>b q. fmlookup reqs b = Some q \<Longrightarrow> snd q = IO_BLOCK_SIZE c - 1"
  then have sb: "single_block c" and inv: "eng_inv c e" by (simp_all add: engine_ok_def)
  show "\<exists>res e'. eng_get_blocks (custom_cache_engine h c) ow reqs e = Inr (res, e') \<and>
        engine_ok c e' \<and> cblocks e' = cblocks e \<and> nfree e' = nfree e \<and>
        (\<forall>b. fmlookup res b =
           map_option (\<lambda>q. found_block (cblocks e) ow b (fst q)) (fmlookup reqs b))"
    using get_blocks_single [OF sb inv a(1), of reqs] a(2) sb inv
    unfolding engine_ok_def custom_cache_engine_simps by blast
next
  fix e idx bl ow from_block
  assume "engine_ok c e" and a: "0 \<le> idx" "idx < IO_BLOCK_SIZE c"
    "\<And>b p. fmlookup bl b = Some p \<Longrightarrow> \<exists>cb. cblocks e ow b = Some cb \<and> cb_page cb = p"
  then have sb: "single_block c" and inv: "eng_inv c e" by (simp_all add: engine_ok_def)
  show "\<exists>e'. eng_truncate_cached_blocks (custom_cache_engine h c) ow bl from_block idx e = Inr e' \<and>
        engine_ok c e' \<and>
        (\<forall>ow' b. cblocks e' ow' b =
           (if ow' = ow \<and> fmlookup bl b \<noteq> None
            then Option.bind (cblocks e ow b) (cut_block c from_block idx b) else cblocks e ow' b)) \<and>
        nfree e \<le> nfree e'"
    using truncate_cached_blocks_single [OF sb inv a] sb
    unfolding engine_ok_def custom_cache_engine_simps by blast
qed

interpretation custom: durable_page_engine "custom_cache_engine h c" c "engine_ok c" cblocks nfree h hv
  for h c hv
proof
  fix e and d :: 'a and path i and sz :: int and ow
  assume "engine_ok c e" and a: "host_laws h hv" "path_ino hv d path = Some i" "0 \<le> sz"
    "blocks_shaped c (cblocks e ow)"
    "runs_full c (cblocks e ow) {b. dirty_blocks (cblocks e ow) b \<noteq> None}"
  then have sb: "single_block c" and inv: "eng_inv c e" by (simp_all add: engine_ok_def)
  show "\<exists>e' d'. eng_sync_pages (custom_cache_engine h c) ow sz path e d = Inr (False, e', d') \<and>
        engine_ok c e' \<and> nfree e' = nfree e \<and>
        cblocks e' = (cblocks e)(ow := \<lambda>b. map_option clean_block (cblocks e ow b)) \<and>
        content hv d' = (content hv d)
          (i := synced_file (IO_BLOCK_SIZE c) (cblocks e ow) sz (content hv d i)) \<and>
        fd_ino hv d' = fd_ino hv d \<and> path_ino hv d' = path_ino hv d"
    using sync_pages_single [OF sb inv a(1-4) a(5) [unfolded dirty_blocks_iff]] sb
    unfolding engine_ok_def custom_cache_engine_simps by blast
qed

end
