(* ===== verification/Cache_Facts.thy ===== *)
theory Cache_Facts
  imports Cache Engine_Spec
begin

text \<open>
  The upper layer of the cache, verified against the contract of the page engine: what each
  operation of \<open>class Cache\<close> does to the stored blocks and to the items, that every mutex taken
  is released, and that items and engine stay in agreement. The lemmas about operations that
  call the engine are proved inside the locales of the contract and hold for any engine that
  meets it; the theorems at the end are their instances for the custom engine.
\<close>

section \<open>The invariant\<close>

definition locks_free :: "'e cache \<Rightarrow> bool" where
  "locks_free C \<longleftrightarrow>
     (\<forall>cid. fmlookup (item_locks C) cid =
              (if fmlookup (contents C) cid = None then None else Some False))"

definition known_block :: "block_info \<Rightarrow> int \<times> int \<times> int" where
  "known_block info = (page_index_number info, readable_offset info)"

definition stored_block :: "cblock \<Rightarrow> int \<times> int \<times> int" where
  "stored_block cb = (cb_page cb, 0, cb_readable cb)"

definition item_agrees :: "item_data \<Rightarrow> (int \<Rightarrow> cblock option) \<Rightarrow> bool" where
  "item_agrees dt v \<longleftrightarrow> (\<forall>b. map_option known_block (fmlookup dt b) = map_option stored_block (v b))"

definition data_of :: "'e cache \<Rightarrow> string \<Rightarrow> item_data" where
  "data_of C cid = (case fmlookup (contents C) cid of None \<Rightarrow> fmempty | Some i \<Rightarrow> idata i)"

definition coherent :: "('e \<Rightarrow> string \<Rightarrow> int \<Rightarrow> cblock option) \<Rightarrow> 'e cache \<Rightarrow> bool" where
  "coherent view C \<longleftrightarrow>
     fmlookup (contents C) ''none'' = None \<and>
     (\<forall>cid. item_agrees (data_of C cid) (view (cengine C) cid))"

definition cache_inv ::
  "('e \<Rightarrow> bool) \<Rightarrow> ('e \<Rightarrow> string \<Rightarrow> int \<Rightarrow> cblock option) \<Rightarrow> 'e cache \<Rightarrow> bool" where
  "cache_inv ok view C \<longleftrightarrow> ok (cengine C) \<and> locks_free C \<and> coherent view C"

lemma cache_invD:
  assumes "cache_inv ok view C"
  shows "ok (cengine C)" "locks_free C" "coherent view C"
  using assms by (simp_all add: cache_inv_def)

lemma item_agrees_cases:
  assumes "item_agrees dt v"
  obtains "fmlookup dt b = None" "v b = None"
    | info cb where "fmlookup dt b = Some info" "v b = Some cb"
        "page_index_number info = cb_page cb" "readable_offset info = (0, cb_readable cb)"
proof -
  have "map_option known_block (fmlookup dt b) = map_option stored_block (v b)"
    using assms by (simp add: item_agrees_def)
  then show ?thesis
    using that by (cases "fmlookup dt b"; cases "v b") (auto simp: known_block_def stored_block_def)
qed

lemma item_agrees_page:
  assumes "item_agrees dt v"
  shows "v b = Some cb \<Longrightarrow> get_page_id dt b = cb_page cb" and "v b = None \<Longrightarrow> get_page_id dt b = - 1"
  by (rule item_agrees_cases [OF assms, of b]; simp add: get_page_id_def)+

lemma update_item_Some:
  "fmlookup (contents C) cid = Some i \<Longrightarrow>
   update_item cid f C = C\<lparr>contents := fmupd cid (f i) (contents C)\<rparr>"
  by (simp add: update_item_def)

lemma fmmap_keys_single: "fmmap_keys f (fmupd k x fmempty) = fmupd k (f k x) fmempty"
  by (rule fmap_ext) simp

lemma fmins_empty: "fmins k v fmempty = fmupd k v fmempty"
  by (simp add: fmins_def)

text \<open>The item of a content identifier after the possible creation of it.\<close>

definition item_or_new :: "'e cache \<Rightarrow> string \<Rightarrow> item" where
  "item_or_new C cid = (case fmlookup (contents C) cid of None \<Rightarrow> Item | Some i \<Rightarrow> i)"

lemma data_of_item_or_new: "idata (item_or_new C cid) = data_of C cid"
  by (simp add: item_or_new_def data_of_def Item_def split: option.splits)

text \<open>
  Taking the mutex of an item, created if need be, and the state an operation leaves when it has
  replaced the item and the engine and released the mutex.
\<close>

definition with_item :: "string \<Rightarrow> item \<Rightarrow> 'e \<Rightarrow> 'e cache \<Rightarrow> 'e cache" where
  "with_item cid i e C =
     C\<lparr>contents := fmupd cid i (contents C), item_locks := fmupd cid False (item_locks C),
       cengine := e\<rparr>"

lemma with_item_simps [simp]:
  "cengine (with_item cid i e C) = e"
  "file_inode_mapping (with_item cid i e C) = file_inode_mapping C"
  "fmlookup (contents (with_item cid i e C)) cid' =
     (if cid' = cid then Some i else fmlookup (contents C) cid')"
  "data_of (with_item cid i e C) cid' = (if cid' = cid then idata i else data_of C cid')"
  by (simp_all add: with_item_def data_of_def)

lemma with_item_locks: "locks_free C \<Longrightarrow> locks_free (with_item cid i e C)"
  by (simp add: locks_free_def with_item_def)

lemma with_item_inv:
  assumes "cache_inv ok view C" and "ok e" and "cid \<noteq> ''none''"
    and "item_agrees (idata i) (view e cid)"
    and "\<And>cid'. cid' \<noteq> cid \<Longrightarrow> view e cid' = view (cengine C) cid'"
  shows "cache_inv ok view (with_item cid i e C)"
  using assms cache_invD [OF assms(1)]
  by (auto simp: cache_inv_def coherent_def with_item_locks)


lemma fmupd_fmupd [simp]: "fmupd k x (fmupd k y m) = fmupd k x m"
  by (rule fmap_ext) simp

lemma fmupd_same: "fmlookup m k = Some x \<Longrightarrow> fmupd k x m = m"
  by (rule fmap_ext) auto

lemma take_item:
  assumes "locks_free C"
  shows "lockItem cid (if get_content_ptr C cid = None then create_item cid C else C) =
    Inr (C\<lparr>contents := fmupd cid (item_or_new C cid) (contents C),
           item_locks := fmupd cid True (item_locks C)\<rparr>)"
proof (cases "fmlookup (contents C) cid")
  case None
  then have "fmlookup (item_locks C) cid = None" using assms by (simp add: locks_free_def)
  with None show ?thesis
    by (simp add: get_content_ptr_def create_item_def lockItem_def fmins_def item_or_new_def)
next
  case (Some i)
  then have "fmlookup (item_locks C) cid = Some False" using assms by (simp add: locks_free_def)
  with Some show ?thesis
    by (simp add: get_content_ptr_def lockItem_def item_or_new_def fmupd_same)
qed

lemma take_known_item:
  assumes "locks_free C" and "fmlookup (contents C) cid = Some i"
  shows "lockItem cid C = Inr (C\<lparr>contents := fmupd cid i (contents C),
           item_locks := fmupd cid True (item_locks C)\<rparr>)"
  using take_item [OF assms(1), of cid] assms(2)
  by (simp add: get_content_ptr_def item_or_new_def)

section \<open>Putting and getting blocks\<close>

definition put_ok :: "config \<Rightarrow> put_request \<Rightarrow> bool" where
  "put_ok c = (\<lambda>(bs, len, from, to). request_ok c (- 1, bs, len, from))"

text \<open>The block a put leaves in the cache, given the one that was there and the page it got.\<close>

definition put_block :: "config \<Rightarrow> put_request \<Rightarrow> int \<Rightarrow> cblock option \<Rightarrow> cblock" where
  "put_block c = (\<lambda>(bs, len, from, to) p old.
     \<lparr>cb_page = p,
      cb_data = requested (case old of None \<Rightarrow> zero_block c | Some cb \<Rightarrow> cb_data cb) (p, bs, len, from),
      cb_readable = max to (case old of None \<Rightarrow> 0 | Some cb \<Rightarrow> cb_readable cb),
      cb_dirty = True\<rparr>)"

text \<open>The cache while the mutex of an item is held.\<close>

definition holding :: "string \<Rightarrow> item \<Rightarrow> 'e \<Rightarrow> 'e cache \<Rightarrow> 'e cache" where
  "holding cid i e C =
     C\<lparr>contents := fmupd cid i (contents C), item_locks := fmupd cid True (item_locks C),
       cengine := e\<rparr>"

lemma holding_simps [simp]:
  "cengine (holding cid i e C) = e"
  "fmlookup (contents (holding cid i e C)) cid = Some i"
  "get_content_ptr (holding cid i e C) cid = Some i"
  "(holding cid i e C)\<lparr>cengine := e'\<rparr> = holding cid i e' C"
  "update_item cid f (holding cid i e C) = holding cid (f i) e C"
  "unlockItem cid (holding cid i e C) = Inr (with_item cid i e C)"
  by (simp_all add: holding_def get_content_ptr_def update_item_def unlockItem_def with_item_def)

lemma put_data_blocks_held:
  assumes "locks_free C"
  shows "put_data_blocks E cid blocks op C d =
    bnd (eng_allocate_blocks E cid
           (put_mapping (fmlookup (contents C) cid = None) (item_or_new C cid) blocks) op (cengine C) d)
      (\<lambda>(allocations, e, d).
    bnd (foldE (note_allocation E cid blocks allocations) (fmkeys allocations)
           (fmempty, False, holding cid (item_or_new C cid) e C))
      (\<lambda>(put_res, allocated_at_least_one_page, C).
    bnd (unlockItem cid (if allocated_at_least_one_page
                         then update_item cid (set_data_sync_flag False) C else C))
      (\<lambda>C. Inr (put_res, C, d))))"
proof -
  have eq: "C\<lparr>contents := fmupd cid (item_or_new C cid) (contents C),
      item_locks := fmupd cid True (item_locks C)\<rparr> = holding cid (item_or_new C cid) (cengine C) C"
    by (simp add: holding_def)
  show ?thesis
    unfolding put_data_blocks_def Let_def take_item [OF assms] bnd_Inr eq
    by (simp add: get_content_ptr_def)
qed

lemma note_allocation_held:
  assumes "fmlookup blocks b = Some (bs, len, frm, to)"
  shows "0 \<le> p \<Longrightarrow> set_block_page_id b p 0 to (idata i) = (mx, dt) \<Longrightarrow>
      eng_make_block_readable_to_offset E cid p b mx e = Inr e' \<Longrightarrow>
      foldE (note_allocation E cid blocks (fmupd b p fmempty)) (fmkeys (fmupd b p fmempty))
        (fmempty, al, holding cid i e C) =
      Inr (fmupd b True fmempty, True, holding cid (i\<lparr>idata := dt\<rparr>) e' C)"
    and "p < 0 \<Longrightarrow>
      foldE (note_allocation E cid blocks (fmupd b p fmempty)) (fmkeys (fmupd b p fmempty))
        (fmempty, al, holding cid i e C) =
      Inr (fmupd b False fmempty, al, holding cid (i\<lparr>idata := remove_data_block b (idata i)\<rparr>) e C)"
  by (simp_all add: note_allocation_def fmat_Some assms fmins_empty)

context page_engine
begin

lemma put_nothing:
  assumes "cache_inv ok view C"
  shows "put_data_blocks E cid fmempty op C d =
    Inr (fmempty, with_item cid (item_or_new C cid) (cengine C) C, d)"
proof -
  have "put_mapping is_new i fmempty = fmempty" for is_new i
    by (rule fmap_ext) (simp add: put_mapping_def)
  then show ?thesis
    by (simp add: put_data_blocks_held [OF cache_invD(2) [OF assms]] allocate_none)
qed

lemma put_nothing_inv:
  assumes "cache_inv ok view C" and "cid \<noteq> ''none''"
  shows "cache_inv ok view (with_item cid (item_or_new C cid) (cengine C) C)"
  using assms cache_invD [OF assms(1)]
  by (intro with_item_inv) (auto simp: data_of_item_or_new coherent_def)

lemma put_one_fails:
  assumes inv: "cache_inv ok view C" and cid: "cid \<noteq> ''none''" and put: "put_ok c req"
    and none: "view (cengine C) cid b = None" and full: "room (cengine C) = 0"
  shows "put_data_blocks E cid (fmupd b req fmempty) op C d =
    Inr (fmupd b False fmempty, with_item cid (item_or_new C cid) (cengine C) C, d)"
proof -
  note i = cache_invD [OF inv]
  obtain bs len frm to where req: "req = (bs, len, frm, to)" by (cases req)
  have agree: "item_agrees (data_of C cid) (view (cengine C) cid)" using i(3) by (simp add: coherent_def)
  have pid: "get_page_id (data_of C cid) b = - 1" using item_agrees_page(2) [OF agree none] .
  have gone: "fmlookup (data_of C cid) b = None"
    by (rule item_agrees_cases [OF agree, of b]) (simp_all add: none)
  have r: "request_ok c (- 1, bs, len, frm)" using put by (simp add: put_ok_def req)
  have a: "eng_allocate_blocks E cid (fmupd b (- 1, bs, len, frm) fmempty) op (cengine C) d =
      Inr (fmupd b (- 1) fmempty, cengine C, d)"
    using allocate_one [where b = b and op = op and d = d, OF i(1) cid r] none full by auto
  have map: "put_mapping (fmlookup (contents C) cid = None) (item_or_new C cid) (fmupd b req fmempty) =
      fmupd b (- 1, bs, len, frm) fmempty"
    using pid by (simp add: put_mapping_def req fmmap_keys_single data_of_item_or_new)
  have drop: "idata_update (\<lambda>_. remove_data_block b (idata (item_or_new C cid))) (item_or_new C cid) =
      item_or_new C cid"
  proof -
    have "remove_data_block b (data_of C cid) = data_of C cid"
      by (rule fmap_ext) (simp add: gone)
    then show ?thesis by (simp add: data_of_item_or_new [symmetric])
  qed
  have look: "fmlookup (fmupd b req fmempty) b = Some (bs, len, frm, to)" by (simp add: req)
  note n = note_allocation_held(2) [where p = "- 1", OF look]
  show ?thesis
    unfolding put_data_blocks_held [OF i(2)] map a bnd_Inr prod.case
    by (subst n) (simp_all add: drop)
qed

lemma put_one_stores:
  assumes inv: "cache_inv ok view C" and cid: "cid \<noteq> ''none''" and put: "put_ok c req"
    and space: "view (cengine C) cid b \<noteq> None \<or> 0 < room (cengine C)"
  shows "\<exists>p e' i'. put_data_blocks E cid (fmupd b req fmempty) op C d =
      Inr (fmupd b True fmempty, with_item cid i' e' C, d) \<and>
    cache_inv ok view (with_item cid i' e' C) \<and>
    imetadata i' = imetadata (item_or_new C cid) \<and> data_synced i' = False \<and>
    view e' = upd_view cid b (Some (put_block c req p (view (cengine C) cid b))) (view (cengine C)) \<and>
    room e' = room (cengine C) - (if view (cengine C) cid b = None then 1 else 0)"
proof -
  note i = cache_invD [OF inv]
  define e where "e = cengine C"
  define it where "it = item_or_new C cid"
  define old where "old = view e cid b"
  obtain bs len frm to where req: "req = (bs, len, frm, to)" by (cases req)
  have agree: "item_agrees (idata it) (view e cid)"
    using i(3) by (simp add: coherent_def e_def it_def data_of_item_or_new)
  define pid where "pid = get_page_id (idata it) b"
  have r: "request_ok c (pid, bs, len, frm)" using put by (simp add: put_ok_def request_ok_def req)
  have coh: "\<And>cb. view e cid b = Some cb \<Longrightarrow> fst (pid, bs, len, frm) = cb_page cb"
    using item_agrees_page(1) [OF agree] by (simp add: pid_def)
  have space': "\<not> (view e cid b = None \<and> room e = 0)" using space by (auto simp: e_def)
  obtain p e1 where a: "eng_allocate_blocks E cid (fmupd b (pid, bs, len, frm) fmempty) op e d =
      Inr (fmupd b p fmempty, e1, d)" "ok e1" "0 \<le> p"
    "view e1 = upd_view cid b (Some (served c (pid, bs, len, frm) p old)) (view e)"
    "\<forall>cb. old = Some cb \<longrightarrow> p = cb_page cb"
    "room e1 = room e - (if old = None then 1 else 0)"
    using allocate_one [where b = b and op = op and d = d, OF i(1) [folded e_def] cid r coh]
    unfolding if_not_P [OF space'] old_def by blast
  obtain mx dt where set: "set_block_page_id b p 0 to (idata it) = (mx, dt)" by (cases "set_block_page_id b p 0 to (idata it)")
  have mx: "mx = max to (case old of None \<Rightarrow> 0 | Some cb \<Rightarrow> cb_readable cb)"
    by (rule item_agrees_cases [OF agree, of b])
      (use set_block_page_id_readable(2) [OF set] in \<open>simp_all add: old_def\<close>)
  have srv: "view e1 cid b = Some (served c (pid, bs, len, frm) p old)" using a(4) by (simp add: upd_view_def)
  have srv_page: "cb_page (served c (pid, bs, len, frm) p old) = p"
    using a(5) by (simp add: served_def split: option.splits)
  obtain e2 where e2: "eng_make_block_readable_to_offset E cid p b mx e1 = Inr e2" "ok e2" "room e2 = room e1"
    "view e2 = upd_view cid b (Some ((served c (pid, bs, len, frm) p old)\<lparr>cb_readable := mx\<rparr>)) (view e1)"
    using make_readable [OF a(2) srv, of mx] srv_page by auto
  define i' where "i' = it\<lparr>idata := dt, data_synced := False\<rparr>"
  have blk: "(served c (pid, bs, len, frm) p old)\<lparr>cb_readable := mx\<rparr> = put_block c req p old"
    using a(5) by (auto simp: served_def put_block_def req mx requested_def split: option.splits)
  have v2: "view e2 = upd_view cid b (Some (put_block c req p old)) (view e)"
    using e2(4) a(4) by (auto simp: blk upd_view_def)
  have map: "put_mapping (fmlookup (contents C) cid = None) it (fmupd b req fmempty) =
      fmupd b (pid, bs, len, frm) fmempty"
    by (auto simp: put_mapping_def req fmmap_keys_single pid_def it_def item_or_new_def get_page_id_def
        Item_def)
  have look: "fmlookup (fmupd b req fmempty) b = Some (bs, len, frm, to)" by (simp add: req)
  have run: "put_data_blocks E cid (fmupd b req fmempty) op C d =
      Inr (fmupd b True fmempty, with_item cid i' e2 C, d)"
    unfolding put_data_blocks_held [OF i(2)] e_def [symmetric] it_def [symmetric] map a(1) bnd_Inr prod.case
    by (subst note_allocation_held(1) [OF look a(3) set e2(1)]) (simp add: set_data_sync_flag_def i'_def)
  have "item_agrees dt (view e2 cid)"
  proof -
    have "map_option known_block (fmlookup dt b') = map_option stored_block (view e2 cid b')" for b'
    proof (cases "b' = b")
      case True
      obtain inf where inf: "fmlookup dt b = Some inf" "snd (readable_offset inf) = mx"
        using set_block_page_id_readable(1) [OF set] by auto
      have "page_index_number inf = p"
        using set_block_page_id_lookup(2) [OF set, of b] inf(1) by (simp add: get_page_id_def)
      moreover have "fst (readable_offset inf) = 0"
        by (rule item_agrees_cases [OF agree, of b])
          (use set inf(1) in \<open>auto simp: set_block_page_id_def Let_def bi_make_readable_to_def
            set_page_index_number_def BlockInfo_def split: if_splits\<close>)
      ultimately show ?thesis
        using inf v2 True
        by (cases inf) (auto simp: upd_view_def known_block_def stored_block_def put_block_def req mx
            prod_eq_iff)
    next
      case False
      then show ?thesis
        using set_block_page_id_lookup(1) [OF set, of b'] v2 agree
        by (simp add: item_agrees_def upd_view_def)
    qed
    then show ?thesis by (simp add: item_agrees_def)
  qed
  then have "cache_inv ok view (with_item cid i' e2 C)"
    using v2 by (intro with_item_inv [OF inv e2(2) cid]) (auto simp: i'_def upd_view_def e_def)
  moreover have "imetadata i' = imetadata (item_or_new C cid)" "data_synced i' = False"
    by (simp_all add: i'_def it_def)
  moreover note v2 [unfolded old_def e_def]
  moreover have "room e2 = room (cengine C) - (if view (cengine C) cid b = None then 1 else 0)"
    using a(6) e2(3) by (simp add: e_def old_def)
  ultimately show ?thesis using run by blast
qed

end

lemma get_data_blocks_held:
  assumes "locks_free C" and "fmlookup (contents C) cid = Some i"
  shows "get_data_blocks E c cid blocks C =
    bnd (eng_get_blocks E cid (get_mapping c i blocks) (cengine C)) (\<lambda>(res, e).
    bnd (foldE (note_read E cid res) (fmkeys res) (fmempty, holding cid i e C))
      (\<lambda>(cache_res, C). bnd (unlockItem cid C) (\<lambda>C. Inr (cache_res, C))))"
proof -
  have eq: "C\<lparr>contents := fmupd cid i (contents C), item_locks := fmupd cid True (item_locks C)\<rparr> =
      holding cid i (cengine C) C"
    by (simp add: holding_def)
  show ?thesis
    using assms(2)
    by (simp add: get_data_blocks_def has_content_cached_def take_known_item [OF assms] eq)
qed

lemma get_data_blocks_unknown:
  "fmlookup (contents C) cid = None \<Longrightarrow> get_data_blocks E c cid blocks C = Inr (fmempty, C)"
  by (simp add: get_data_blocks_def has_content_cached_def)

lemma get_mapping_single:
  "get_mapping c i {|b|} =
     (case fmlookup (idata i) b of
        None \<Rightarrow> fmempty
      | Some info \<Rightarrow> fmupd b (page_index_number info, c_int (u64 (IO_BLOCK_SIZE c - 1))) fmempty)"
  by (rule fmap_ext) (auto simp: get_mapping_def split: option.splits)

text \<open>What a get of one block finds: its bytes and its readable range.\<close>

definition got_block :: "int \<Rightarrow> cblock option \<Rightarrow> (int, byte list option \<times> int \<times> int) fmap" where
  "got_block b cb =
     (case cb of
        None \<Rightarrow> fmempty
      | Some cb \<Rightarrow> fmupd b (Some (cb_data cb), 0, cb_readable cb) fmempty)"

context page_engine
begin

lemma get_one:
  assumes inv: "cache_inv ok view C" and i: "fmlookup (contents C) cid = Some i"
  shows "\<exists>e'. get_data_blocks E c cid {|b|} C =
      Inr (got_block b (view (cengine C) cid b), with_item cid i e' C) \<and>
    cache_inv ok view (with_item cid i e' C) \<and> view e' = view (cengine C) \<and> room e' = room (cengine C)"
proof -
  note I = cache_invD [OF inv]
  define e where "e = cengine C"
  have cid: "cid \<noteq> ''none''" using I(3) i by (auto simp: coherent_def)
  have agree: "item_agrees (idata i) (view e cid)"
    using I(3) i by (auto simp: coherent_def e_def data_of_def split: option.splits dest: spec [of _ cid])
  have size: "c_int (u64 (IO_BLOCK_SIZE c - 1)) = IO_BLOCK_SIZE c - 1"
    using geometry [OF I(1)] by (simp add: u64_id c_int_id)
  define reqs where "reqs = get_mapping c i {|b|}"
  have last: "\<And>b' q. fmlookup reqs b' = Some q \<Longrightarrow> snd q = IO_BLOCK_SIZE c - 1"
    by (auto simp: reqs_def get_mapping_single size split: option.splits if_splits)
  obtain res e' where res: "eng_get_blocks E cid reqs e = Inr (res, e')"
    "ok e'" "view e' = view e" "room e' = room e"
    "\<And>b'. fmlookup res b' = map_option (\<lambda>q. found_block (view e) cid b' (fst q)) (fmlookup reqs b')"
    using get [OF I(1) [folded e_def] cid, of reqs] last by blast
  have inv': "cache_inv ok view (with_item cid i e' C)"
    using agree res(3) by (intro with_item_inv [OF inv res(2) cid]) (simp_all add: e_def)
  have "get_data_blocks E c cid {|b|} C = Inr (got_block b (view e cid b), with_item cid i e' C)"
  proof (rule item_agrees_cases [OF agree, of b])
    assume none: "fmlookup (idata i) b = None" "view e cid b = None"
    then have "res = fmempty"
      by (intro fmap_ext) (simp add: res(5) reqs_def get_mapping_single)
    then show ?thesis
      using res(1) none
      by (simp add: get_data_blocks_held [OF I(2) i] reqs_def [symmetric] e_def [symmetric] got_block_def)
  next
    fix info cb
    assume some: "fmlookup (idata i) b = Some info" "view e cid b = Some cb"
      "page_index_number info = cb_page cb" "readable_offset info = (0, cb_readable cb)"
    then have res': "res = fmupd b (Some (cb_data cb)) fmempty"
      by (intro fmap_ext) (auto simp: res(5) reqs_def get_mapping_single found_block_def)
    have "eng_is_block_cached E e' cid (cb_page cb) b"
      using some(2) res(3) is_cached [OF res(2) cid] by simp
    moreover have "get_page_id (idata i) b = cb_page cb" using some by (simp add: get_page_id_def)
    ultimately have noted: "note_read E cid res b (fmempty, holding cid i e' C) =
        Inr (fmupd b (Some (cb_data cb), 0, cb_readable cb) fmempty, holding cid i e' C)"
      using some
      by (simp add: note_read_def res' fmat_Some get_readable_offsets_def data_readable_offsets_def
          fmins_empty)
    show ?thesis
      unfolding get_data_blocks_held [OF I(2) i] reqs_def [symmetric] e_def [symmetric] res(1)
      using noted by (simp add: res' got_block_def some(2))
  qed
  then show ?thesis using inv' res(3,4) unfolding e_def by blast
qed

end

section \<open>Removing and truncating\<close>

lemma drop_item_held:
  assumes "locks_free C"
  shows "drop_item E cid (holding cid i e C) =
    bnd (eng_remove_cached_blocks E cid e) (\<lambda>e'.
    Inr (C\<lparr>contents := fmdrop cid (contents C), item_locks := fmdrop cid (item_locks C), cengine := e'\<rparr>))"
proof -
  have "fmdrop cid (fmupd cid i (contents C)) = fmdrop cid (contents C)"
    "fmdrop cid (fmupd cid False (item_locks C)) = fmdrop cid (item_locks C)"
    by (rule fmap_ext; simp)+
  then show ?thesis
    by (cases "eng_remove_cached_blocks E cid e")
      (simp_all add: drop_item_def delete_item_def holding_def unlockItem_def erase_item_lock_def)
qed

definition without_item :: "string \<Rightarrow> 'e \<Rightarrow> 'e cache \<Rightarrow> 'e cache" where
  "without_item cid e C =
     C\<lparr>contents := fmdrop cid (contents C), item_locks := fmdrop cid (item_locks C), cengine := e\<rparr>"

lemma without_item_simps [simp]:
  "cengine (without_item cid e C) = e"
  "file_inode_mapping (without_item cid e C) = file_inode_mapping C"
  "fmlookup (contents (without_item cid e C)) cid' =
     (if cid' = cid then None else fmlookup (contents C) cid')"
  "data_of (without_item cid e C) cid' = (if cid' = cid then fmempty else data_of C cid')"
  by (simp_all add: without_item_def data_of_def)

lemma without_item_inv:
  assumes "cache_inv ok view C" and "ok e" and "view e = (view (cengine C))(cid := \<lambda>_. None)"
  shows "cache_inv ok view (without_item cid e C)"
proof -
  note i = cache_invD [OF assms(1)]
  have "locks_free (without_item cid e C)" using i(2) by (simp add: locks_free_def without_item_def)
  moreover have "item_agrees fmempty (\<lambda>_. None)" by (simp add: item_agrees_def)
  ultimately show ?thesis
    using i(3) assms(2,3) by (simp add: cache_inv_def coherent_def)
qed

lemma mapping_inv [simp]:
  "cache_inv ok view (C\<lparr>file_inode_mapping := m\<rparr>) = cache_inv ok view C"
  "locks_free (C\<lparr>file_inode_mapping := m\<rparr>) = locks_free C"
  by (simp_all add: cache_inv_def locks_free_def coherent_def data_of_def)

text \<open>The state after one link to an item is gone.\<close>

context page_engine
begin

lemma drop_item_ok:
  assumes inv: "cache_inv ok view C"
  shows "\<exists>e'. drop_item E cid (holding cid i (cengine C) C) = Inr (without_item cid e' C) \<and>
    cache_inv ok view (without_item cid e' C) \<and>
    view e' = (view (cengine C))(cid := \<lambda>_. None) \<and> room (cengine C) \<le> room e'"
proof -
  obtain e' where e': "eng_remove_cached_blocks E cid (cengine C) = Inr e'" "ok e'"
    "view e' = (view (cengine C))(cid := \<lambda>_. None)" "room (cengine C) \<le> room e'"
    using remove [OF cache_invD(1) [OF inv], of cid] by blast
  then show ?thesis
    using drop_item_held [OF cache_invD(2) [OF inv], of E cid i "cengine C"]
      without_item_inv [OF inv e'(2,3)]
    by (auto simp: without_item_def)
qed

lemma remove_cached_item_ok:
  fixes path :: string
  assumes inv: "cache_inv ok view C" and i: "fmlookup (contents C) cid = Some i"
  defines "C' \<equiv> C\<lparr>file_inode_mapping := fmdrop path (file_inode_mapping C)\<rparr>"
  shows "\<not> from_cache \<Longrightarrow> 1 < nlinks (imetadata i) \<Longrightarrow>
      remove_cached_item E cid path from_cache C =
        Inr (False, with_item cid (drop_link (imetadata i) i) (cengine C) C') \<and>
      cache_inv ok view (with_item cid (drop_link (imetadata i) i) (cengine C) C')"
    and "from_cache \<or> nlinks (imetadata i) \<le> 1 \<Longrightarrow>
      \<exists>e'. remove_cached_item E cid path from_cache C = Inr (True, without_item cid e' C') \<and>
        cache_inv ok view (without_item cid e' C') \<and>
        view e' = (view (cengine C))(cid := \<lambda>_. None) \<and> room (cengine C) \<le> room e'"
proof -
  note I = cache_invD [OF inv]
  have inv': "cache_inv ok view C'" using inv by (simp add: C'_def)
  have cid: "cid \<noteq> ''none''" using I(3) i by (auto simp: coherent_def)
  have agree: "item_agrees (idata i) (view (cengine C) cid)"
    using I(3) i by (auto simp: coherent_def data_of_def split: option.splits dest: spec [of _ cid])
  have lock: "lockItem cid C = Inr (holding cid i (cengine C) C)"
    using take_known_item [OF I(2) i] by (simp add: holding_def)
  have map: "(holding cid i (cengine C) C)\<lparr>file_inode_mapping := fmdrop path (file_inode_mapping (holding cid i (cengine C) C))\<rparr>
      = holding cid i (cengine C') C'"
    by (simp add: holding_def C'_def)
  have get: "get_content_ptr C cid = Some i" using i by (simp add: get_content_ptr_def)
  have run: "remove_cached_item E cid path from_cache C =
      (if \<not> from_cache \<and> nlinks (imetadata i) > 1
       then Inr (False, with_item cid (drop_link (imetadata i) i) (cengine C') C')
       else bnd (drop_item E cid (holding cid (drop_link (imetadata i) i) (cengine C') C'))
              (\<lambda>C. Inr (True, C)))"
    unfolding remove_cached_item_def get option.case lock bnd_Inr Let_def map by simp
  have eng: "cengine C' = cengine C" by (simp add: C'_def)
  show "remove_cached_item E cid path from_cache C =
        Inr (False, with_item cid (drop_link (imetadata i) i) (cengine C) C') \<and>
      cache_inv ok view (with_item cid (drop_link (imetadata i) i) (cengine C) C')"
    if "\<not> from_cache" "1 < nlinks (imetadata i)"
  proof -
    have "cache_inv ok view (with_item cid (drop_link (imetadata i) i) (cengine C') C')"
      using agree by (intro with_item_inv [OF inv' _ cid]) (simp_all add: drop_link_def I(1) eng)
    then show ?thesis using run that by (simp add: eng)
  qed
  show "\<exists>e'. remove_cached_item E cid path from_cache C = Inr (True, without_item cid e' C') \<and>
        cache_inv ok view (without_item cid e' C') \<and>
        view e' = (view (cengine C))(cid := \<lambda>_. None) \<and> room (cengine C) \<le> room e'"
    if "from_cache \<or> nlinks (imetadata i) \<le> 1"
    using run that drop_item_ok [OF inv', of cid "drop_link (imetadata i) i"] by (auto simp: eng)
qed

end

section \<open>Losing a link\<close>

text \<open>
  An item that loses a link keeps its data as long as it has another one; with its last link it
  goes, and so do its blocks.
\<close>

definition link_dropped ::
  "('e \<Rightarrow> string \<Rightarrow> int \<Rightarrow> cblock option) \<Rightarrow> string \<Rightarrow> 'e cache \<Rightarrow> 'e cache \<Rightarrow> bool" where
  "link_dropped view cid C C' \<longleftrightarrow>
     (\<forall>x. fmlookup (contents C') x =
        (if x = cid
         then Option.bind (fmlookup (contents C) cid)
                (\<lambda>i. if 1 < nlinks (imetadata i) then Some (drop_link (imetadata i) i) else None)
         else fmlookup (contents C) x)) \<and>
     (\<forall>x. view (cengine C') x =
        (if fmlookup (contents C') x = None then (\<lambda>_. None) else view (cengine C) x))"

lemma unknown_blocks:
  assumes "cache_inv ok view C" and "fmlookup (contents C) cid = None"
  shows "view (cengine C) cid = (\<lambda>_. None)"
proof
  fix b
  have "item_agrees fmempty (view (cengine C) cid)"
    using cache_invD(3) [OF assms(1)] assms(2) by (auto simp: coherent_def data_of_def dest: spec [of _ cid])
  then show "view (cengine C) cid b = None" by (rule item_agrees_cases [of _ _ b]) auto
qed

lemma known_item:
  assumes "cache_inv ok view C" and "fmlookup (contents C) cid = Some i"
  shows "cid \<noteq> ''none''" and "item_agrees (idata i) (view (cengine C) cid)"
  using cache_invD(3) [OF assms(1)] assms(2)
  by (auto simp: coherent_def data_of_def split: option.splits dest: spec [of _ cid])

lemma take_known_item_holding:
  "locks_free C \<Longrightarrow> fmlookup (contents C) cid = Some i \<Longrightarrow>
   lockItem cid C = Inr (holding cid i (cengine C) C)"
  by (simp add: take_known_item holding_def)

lemma link_dropped_kept:
  assumes "cache_inv ok view C" and "fmlookup (contents C) cid = Some i" and "1 < nlinks (imetadata i)"
  shows "link_dropped view cid C (with_item cid (drop_link (imetadata i) i) (cengine C) C)"
  using assms unknown_blocks [OF assms(1)] by (auto simp: link_dropped_def)

lemma link_dropped_gone:
  assumes "cache_inv ok view C" and "fmlookup (contents C) cid = Some i" and "\<not> 1 < nlinks (imetadata i)"
    and "view e' = (view (cengine C))(cid := \<lambda>_. None)"
  shows "link_dropped view cid C (without_item cid e' C)"
  using assms unknown_blocks [OF assms(1)] by (auto simp: link_dropped_def)

lemma link_dropped_unknown:
  assumes "cache_inv ok view C" and "fmlookup (contents C) cid = None"
  shows "link_dropped view cid C C"
  using assms unknown_blocks [OF assms(1)] by (auto simp: link_dropped_def)

lemma link_dropped_mapping [simp]:
  "link_dropped view cid (C\<lparr>file_inode_mapping := m\<rparr>) C' = link_dropped view cid C C'"
  by (simp add: link_dropped_def)

text \<open>The table of names after a rename, and the inode that loses its name by it.\<close>

definition renamed_paths :: "string \<Rightarrow> string \<Rightarrow> (string, string) fmap \<Rightarrow> (string, string) fmap" where
  "renamed_paths old_cid new_cid m =
     (case fmlookup m old_cid of None \<Rightarrow> m | Some inode \<Rightarrow> fmupd new_cid inode (fmdrop old_cid m))"

definition displaced :: "string \<Rightarrow> (string, string) fmap \<Rightarrow> string" where
  "displaced new_cid m = (case fmlookup m new_cid of None \<Rightarrow> '''' | Some i \<Rightarrow> i)"

context page_engine
begin

lemma remove_link_ok:
  assumes inv: "cache_inv ok view C" and i: "fmlookup (contents C) cid = Some i"
  shows "\<exists>C'. remove_cached_item E cid path False C = Inr (\<not> 1 < nlinks (imetadata i), C') \<and>
    cache_inv ok view C' \<and> link_dropped view cid C C' \<and>
    file_inode_mapping C' = fmdrop path (file_inode_mapping C)"
proof -
  define C1 where "C1 = C\<lparr>file_inode_mapping := fmdrop path (file_inode_mapping C)\<rparr>"
  have inv1: "cache_inv ok view C1" and i1: "fmlookup (contents C1) cid = Some i"
    and eng: "cengine C1 = cengine C" "file_inode_mapping C1 = fmdrop path (file_inode_mapping C)"
    using inv i by (simp_all add: C1_def)
  have same: "link_dropped view cid C1 C' = link_dropped view cid C C'" for C'
    by (simp add: C1_def)
  note r = remove_cached_item_ok [OF inv i, of False path, folded C1_def]
  show ?thesis
  proof (cases "1 < nlinks (imetadata i)")
    case True
    then show ?thesis
      using r(1) link_dropped_kept [OF inv1 i1 True] by (auto simp: same eng)
  next
    case False
    then obtain e' where e': "remove_cached_item E cid path False C = Inr (True, without_item cid e' C1)"
      "cache_inv ok view (without_item cid e' C1)" "view e' = (view (cengine C))(cid := \<lambda>_. None)"
      using r(2) by auto
    then show ?thesis
      using False link_dropped_gone [OF inv1 i1 False, of e'] by (auto simp: same eng)
  qed
qed

lemma rename_item_ok:
  assumes inv: "cache_inv ok view C"
  shows "\<exists>C'. rename_item E old_cid new_cid C = Inr (True, C') \<and> cache_inv ok view C' \<and>
    file_inode_mapping C' = renamed_paths old_cid new_cid (file_inode_mapping C) \<and>
    (if fmlookup (file_inode_mapping C) old_cid = None then C' = C
     else link_dropped view (displaced new_cid (file_inode_mapping C)) C C')"
proof (cases "fmlookup (file_inode_mapping C) old_cid")
  case None
  then show ?thesis using inv by (simp add: rename_item_def renamed_paths_def)
next
  case (Some inode)
  define cid where "cid = displaced new_cid (file_inode_mapping C)"
  define C1 where "C1 = C\<lparr>file_inode_mapping :=
      fmupd new_cid inode (fmdrop old_cid (file_inode_mapping C))\<rparr>"
  have inv1: "cache_inv ok view C1" using inv by (simp add: C1_def)
  have same: "link_dropped view cid C1 C' = link_dropped view cid C C'" for C'
    by (simp add: C1_def)
  have paths: "file_inode_mapping C1 = renamed_paths old_cid new_cid (file_inode_mapping C)"
    by (simp add: C1_def renamed_paths_def Some)
  have run: "rename_item E old_cid new_cid C =
      (case fmlookup (contents C1) cid of
         None \<Rightarrow> Inr (True, C1)
       | Some i \<Rightarrow>
           bnd (lockItem cid C1) (\<lambda>C.
           let C = update_item cid (drop_link (imetadata i)) C in
           if nlinks (imetadata i) > 1 then bnd (unlockItem cid C) (\<lambda>C. Inr (True, C))
           else bnd (drop_item E cid C) (\<lambda>C. Inr (True, C))))"
    unfolding C1_def cid_def
    by (simp only: rename_item_def Some option.case Let_def get_content_ptr_def displaced_def)
  show ?thesis
  proof (cases "fmlookup (contents C1) cid")
    case None
    then show ?thesis
      using run inv1 link_dropped_unknown [OF inv1 None, unfolded same] Some
      by (auto simp: paths cid_def)
  next
    case i: (Some i)
    note k = known_item [OF inv1 i]
    have run': "rename_item E old_cid new_cid C =
      (if nlinks (imetadata i) > 1 then Inr (True, with_item cid (drop_link (imetadata i) i) (cengine C1) C1)
       else bnd (drop_item E cid (holding cid (drop_link (imetadata i) i) (cengine C1) C1))
              (\<lambda>C. Inr (True, C)))"
      by (simp add: run i take_known_item_holding [OF cache_invD(2) [OF inv1] i])
    show ?thesis
    proof (cases "1 < nlinks (imetadata i)")
      case True
      have "cache_inv ok view (with_item cid (drop_link (imetadata i) i) (cengine C1) C1)"
        using k(2) by (intro with_item_inv [OF inv1 cache_invD(1) [OF inv1] k(1)]) (simp_all add: drop_link_def)
      then show ?thesis
        using run' True link_dropped_kept [OF inv1 i True, unfolded same] Some
        by (auto simp: paths cid_def)
    next
      case False
      obtain e' where e': "drop_item E cid (holding cid (drop_link (imetadata i) i) (cengine C1) C1) =
          Inr (without_item cid e' C1)" "cache_inv ok view (without_item cid e' C1)"
        "view e' = (view (cengine C1))(cid := \<lambda>_. None)"
        using drop_item_ok [OF inv1, of cid "drop_link (imetadata i) i"] by blast
      then show ?thesis
        using run' False link_dropped_gone [OF inv1 i False e'(3), unfolded same] Some
        by (auto simp: paths cid_def)
    qed
  qed
qed

section \<open>Clearing the cache\<close>

lemma clear_links:
  assumes inv: "cache_inv ok view C"
  shows "\<exists>C'. foldE (\<lambda>(path, inode) C. bnd (remove_cached_item E inode path True C) (\<lambda>(_, C). Inr C))
      items C = Inr C' \<and> (cache_inv ok view C' \<and> file_inode_mapping C' \<subseteq>\<^sub>f file_inode_mapping C)"
proof (rule foldE_invariant)
  fix x :: "string \<times> string" and C'
  assume a: "cache_inv ok view C' \<and> file_inode_mapping C' \<subseteq>\<^sub>f file_inode_mapping C"
  then have inv': "cache_inv ok view C'" by simp
  obtain path inode where x: "x = (path, inode)" by (cases x)
  show "\<exists>C''. (case x of (path, inode) \<Rightarrow> \<lambda>C. bnd (remove_cached_item E inode path True C)
      (\<lambda>(_, C). Inr C)) C' = Inr C'' \<and>
      (cache_inv ok view C'' \<and> file_inode_mapping C'' \<subseteq>\<^sub>f file_inode_mapping C)"
  proof (cases "fmlookup (contents C') inode")
    case None
    then show ?thesis using a by (simp add: x remove_cached_item_def get_content_ptr_def)
  next
    case (Some i)
    moreover have "fmdrop path (file_inode_mapping C') \<subseteq>\<^sub>f file_inode_mapping C"
      using a by (auto simp: fmsubset_alt_def fmpred_iff split: if_splits)
    ultimately show ?thesis
      using remove_cached_item_ok(2) [OF inv' Some, of True path] by (auto simp: x)
  qed
qed (use inv in \<open>simp add: fmsubset_alt_def fmpred_iff\<close>)

lemma clear_items:
  assumes inv: "cache_inv ok view C" and ks: "distinct ks" "set ks \<subseteq> fset (fmdom (contents C))"
  shows "\<exists>C'. foldE (\<lambda>cid C. bnd (lockItem cid C) (drop_item E cid)) ks C = Inr C' \<and>
    cache_inv ok view C' \<and> file_inode_mapping C' = file_inode_mapping C \<and>
    (\<forall>cid. fmlookup (contents C') cid = (if cid \<in> set ks then None else fmlookup (contents C) cid))"
  using assms
proof (induction ks arbitrary: C)
  case Nil
  then show ?case by simp
next
  case (Cons cid ks)
  obtain i where i: "fmlookup (contents C) cid = Some i"
    using Cons.prems(3) by (auto simp: fmlookup_dom_iff)
  obtain e' where e': "drop_item E cid (holding cid i (cengine C) C) = Inr (without_item cid e' C)"
    "cache_inv ok view (without_item cid e' C)"
    using drop_item_ok [OF Cons.prems(1), of cid i] by blast
  have "set ks \<subseteq> fset (fmdom (contents (without_item cid e' C)))"
    using Cons.prems(2,3) by (auto simp: fmlookup_dom_iff)
  then obtain C' where C': "foldE (\<lambda>cid C. bnd (lockItem cid C) (drop_item E cid)) ks
      (without_item cid e' C) = Inr C'" "cache_inv ok view C'"
    "file_inode_mapping C' = file_inode_mapping C"
    "\<forall>x. fmlookup (contents C') x =
      (if x \<in> set ks then None else fmlookup (contents (without_item cid e' C)) x)"
    using Cons.IH [OF e'(2)] Cons.prems(2) by auto
  then show ?case
    using e'(1) by (auto simp: take_known_item_holding [OF cache_invD(2) [OF Cons.prems(1)] i])
qed

text \<open>After clearing, nothing is cached, and every page is free.\<close>

lemma clear_all_cache_ok:
  assumes inv: "cache_inv ok view C"
  shows "\<exists>C'. clear_all_cache E C = Inr C' \<and> cache_inv ok view C' \<and> contents C' = fmempty \<and>
    item_locks C' = fmempty \<and> (\<forall>cid b. view (cengine C') cid b = None) \<and> get_cache_usage E C' = 0 \<and>
    file_inode_mapping C' \<subseteq>\<^sub>f file_inode_mapping C"
proof -
  define items where "items = map (\<lambda>p. (p, the (fmlookup (file_inode_mapping C) p)))
      (fmkeys (file_inode_mapping C))"
  obtain C1 where C1: "foldE (\<lambda>(path, inode) C. bnd (remove_cached_item E inode path True C)
      (\<lambda>(_, C). Inr C)) items C = Inr C1" "cache_inv ok view C1"
    "file_inode_mapping C1 \<subseteq>\<^sub>f file_inode_mapping C"
    using clear_links [OF inv] by blast
  obtain C' where C': "foldE (\<lambda>cid C. bnd (lockItem cid C) (drop_item E cid)) (fmkeys (contents C1)) C1 =
      Inr C'" "cache_inv ok view C'" "file_inode_mapping C' = file_inode_mapping C1"
    "\<forall>cid. fmlookup (contents C') cid =
       (if cid \<in> set (fmkeys (contents C1)) then None else fmlookup (contents C1) cid)"
    using clear_items [OF C1(2), of "fmkeys (contents C1)"] by auto
  have none: "fmlookup (contents C') cid = None" for cid
    using C'(4) by (auto simp: fmdom_notD)
  have cont: "contents C' = fmempty" by (rule fmap_ext) (simp add: none)
  moreover have "item_locks C' = fmempty"
    by (rule fmap_ext) (use cache_invD(2) [OF C'(2)] none in \<open>simp add: locks_free_def\<close>)
  moreover have view: "\<forall>cid b. view (cengine C') cid b = None"
    using unknown_blocks [OF C'(2) none] by simp
  moreover have "get_cache_usage E C' = 0"
    using usage_empty [OF cache_invD(1) [OF C'(2)]] view by (simp add: get_cache_usage_def)
  moreover have "clear_all_cache E C = Inr C'"
    using C1(1) C'(1) by (simp add: clear_all_cache_def items_def [symmetric])
  moreover have "file_inode_mapping C' \<subseteq>\<^sub>f file_inode_mapping C" using C'(3) C1(3) by simp
  ultimately show ?thesis using C'(2) by blast
qed

end

section \<open>Truncating an item\<close>

text \<open>What truncating a file to a size leaves of its blocks.\<close>

definition cut_view :: "config \<Rightarrow> int \<Rightarrow> (int \<Rightarrow> cblock option) \<Rightarrow> int \<Rightarrow> cblock option" where
  "cut_view c new_size v b =
     (if b < new_size div IO_BLOCK_SIZE c then v b
      else Option.bind (v b) (cut_block c (new_size div IO_BLOCK_SIZE c) (new_size mod IO_BLOCK_SIZE c) b))"

lemma cut_view_0:
  assumes "0 < IO_BLOCK_SIZE c" and "\<And>b. v b \<noteq> None \<Longrightarrow> 0 \<le> b"
  shows "cut_view c 0 v = (\<lambda>_. None)"
proof
  fix b
  show "cut_view c 0 v b = None"
    using assms(2) [of b] by (cases "v b") (auto simp: cut_view_def cut_block_def)
qed

lemma truncated_agrees:
  assumes "item_agrees dt v" and "0 \<le> idx"
    and look: "\<And>b. fmlookup dt' b = truncated_block fb idx dt b"
  shows "item_agrees dt' (\<lambda>b. if b < fb then v b else Option.bind (v b) (cut_block c fb idx b))"
proof -
  have "map_option known_block (fmlookup dt' b) =
      map_option stored_block (if b < fb then v b else Option.bind (v b) (cut_block c fb idx b))" for b
    by (rule item_agrees_cases [OF assms(1), of b])
      (use assms(2) in \<open>auto simp: look truncated_block_def cut_block_def truncate_readable_to_def
        known_block_def stored_block_def\<close>)
  then show ?thesis by (simp add: item_agrees_def)
qed

context page_engine
begin

lemma truncate_item_zero:
  assumes inv: "cache_inv ok view C" and i: "fmlookup (contents C) cid = Some i"
  shows "\<exists>e'. truncate_item E c cid 0 C =
      Inr (True, with_item cid (i\<lparr>idata := fmempty\<rparr>) e' C) \<and>
    cache_inv ok view (with_item cid (i\<lparr>idata := fmempty\<rparr>) e' C) \<and>
    view e' = (view (cengine C))(cid := \<lambda>_. None)"
proof -
  note I = cache_invD [OF inv] and k = known_item [OF inv i]
  have empty: "item_agrees fmempty (\<lambda>_. None)" by (simp add: item_agrees_def)
  have has: "has_content_cached C cid" using i by (simp add: has_content_cached_def)
  show ?thesis
  proof (cases "0 < count_blocks (idata i)")
    case True
    obtain e' where e': "eng_remove_cached_blocks E cid (cengine C) = Inr e'" "ok e'"
      "view e' = (view (cengine C))(cid := \<lambda>_. None)"
      using remove [OF I(1), of cid] by blast
    have "cache_inv ok view (with_item cid (i\<lparr>idata := fmempty\<rparr>) e' C)"
      using e' empty by (intro with_item_inv [OF inv e'(2) k(1)]) simp_all
    then show ?thesis
      using True e' has
      by (auto simp: truncate_item_def take_known_item_holding [OF I(2) i] remove_all_blocks_def)
  next
    case False
    then have "fmdom (idata i) = {||}" by (simp add: count_blocks_def)
    then have dt: "idata i = fmempty" by (intro fmap_ext) (auto simp: fmdom_notD)
    have none: "view (cengine C) cid = (\<lambda>_. None)"
    proof
      fix b show "view (cengine C) cid b = None"
        by (rule item_agrees_cases [OF k(2), of b]) (simp_all add: dt)
    qed
    have "i\<lparr>idata := fmempty\<rparr> = i" using dt by (cases i) simp
    moreover have "cache_inv ok view (with_item cid i (cengine C) C)"
      using k(2) by (intro with_item_inv [OF inv I(1) k(1)]) simp_all
    moreover have "view (cengine C) = (view (cengine C))(cid := \<lambda>_. None)"
      using none by (auto simp: fun_eq_iff)
    ultimately show ?thesis
      using False has
      by (intro exI [of _ "cengine C"])
        (simp add: truncate_item_def take_known_item_holding [OF I(2) i])
  qed
qed

lemma truncate_item_ok:
  assumes inv: "cache_inv ok view C" and i: "fmlookup (contents C) cid = Some i"
    and sz: "0 < new_size" "new_size < 9223372036854775808"
      "new_size div IO_BLOCK_SIZE c < 2147483648"
  shows "\<exists>i' e'. truncate_item E c cid new_size C = Inr (True, with_item cid i' e' C) \<and>
    cache_inv ok view (with_item cid i' e' C) \<and>
    imetadata i' = imetadata i \<and> \<not> data_synced i' \<and>
    view e' = (view (cengine C))(cid := cut_view c new_size (view (cengine C) cid))"
proof -
  note I = cache_invD [OF inv] and k = known_item [OF inv i] and g = geometry [OF cache_invD(1) [OF inv]]
  define fb where "fb = new_size div IO_BLOCK_SIZE c"
  define idx where "idx = new_size mod IO_BLOCK_SIZE c"
  have fb: "c_int (u64 new_size div IO_BLOCK_SIZE c) = fb" "u64 new_size mod IO_BLOCK_SIZE c = idx"
  proof -
    have "0 \<le> new_size div IO_BLOCK_SIZE c" using sz g by (simp add: pos_imp_zdiv_nonneg_iff)
    then show "c_int (u64 new_size div IO_BLOCK_SIZE c) = fb" "u64 new_size mod IO_BLOCK_SIZE c = idx"
      using sz by (simp_all add: u64_id fb_def idx_def c_int_id)
  qed
  have idx: "0 \<le> idx" "idx < IO_BLOCK_SIZE c" using g by (simp_all add: idx_def)
  obtain removed dt where tr: "truncate_blocks_after fb idx (idata i) = (removed, dt)"
    by (cases "truncate_blocks_after fb idx (idata i)")
  note look = truncate_blocks_after_lookup [OF tr]
  have coh: "\<And>b p. fmlookup removed b = Some p \<Longrightarrow> \<exists>cb. view (cengine C) cid b = Some cb \<and> cb_page cb = p"
  proof -
    fix b p assume p: "fmlookup removed b = Some p"
    then have "has_block (idata i) b" "p = get_page_id (idata i) b"
      using look(2) [of b] by (auto split: if_splits)
    then show "\<exists>cb. view (cengine C) cid b = Some cb \<and> cb_page cb = p"
      by (cases rule: item_agrees_cases [OF k(2), of b]) (auto simp: has_block_def get_page_id_def)
  qed
  obtain e' where e': "eng_truncate_cached_blocks E cid removed fb idx (cengine C) = Inr e'" "ok e'"
    "\<forall>ow' b. view e' ow' b = (if ow' = cid \<and> fmlookup removed b \<noteq> None
       then Option.bind (view (cengine C) cid b) (cut_block c fb idx b) else view (cengine C) ow' b)"
    using truncate [OF I(1) idx, of removed cid fb] coh by blast
  have v: "view e' = (view (cengine C))(cid := cut_view c new_size (view (cengine C) cid))"
  proof (intro ext)
    fix ow b
    show "view e' ow b = ((view (cengine C))(cid := cut_view c new_size (view (cengine C) cid))) ow b"
      by (cases rule: item_agrees_cases [OF k(2), of b])
        (auto simp: e'(3) look(2) cut_view_def fb_def [symmetric] idx_def [symmetric] has_block_def)
  qed
  define i' where "i' = i\<lparr>idata := dt, data_synced := False\<rparr>"
  have "item_agrees (idata i') (view e' cid)"
    using truncated_agrees [OF k(2) idx(1) look(1), of c] v unfolding fb_def idx_def
    by (simp add: i'_def cut_view_def [abs_def])
  then have "cache_inv ok view (with_item cid i' e' C)"
    using v by (intro with_item_inv [OF inv e'(2) k(1)]) simp_all
  moreover have "truncate_item E c cid new_size C = Inr (True, with_item cid i' e' C)"
    using sz g i
    by (simp add: truncate_item_def has_content_cached_def take_known_item_holding [OF I(2) i] fb tr
        e'(1) set_data_sync_flag_def i'_def)
  moreover have "imetadata i' = imetadata i" "\<not> data_synced i'" by (simp_all add: i'_def)
  ultimately show ?thesis using v by blast
qed

end

section \<open>Writing an item back\<close>

context durable_page_engine
begin

lemma sync_owner_ok:
  assumes inv: "cache_inv ok view C" and i: "fmlookup (contents C) cid = Some i"
    and laws: "host_laws h hv" and p: "path_ino hv d path = Some ino"
    and sz: "0 \<le> meta_size (imetadata i)" and sh: "blocks_shaped c (view (cengine C) cid)"
    and full: "runs_full c (view (cengine C) cid) {b. dirty_blocks (view (cengine C) cid) b \<noteq> None}"
  shows "\<exists>e' d'. sync_owner E h cid only_data path C d =
      Inr (0, with_item cid (i\<lparr>data_synced := True\<rparr>) e' C, d') \<and>
    cache_inv ok view (with_item cid (i\<lparr>data_synced := True\<rparr>) e' C) \<and>
    view e' = (view (cengine C))(cid := \<lambda>b. map_option clean_block (view (cengine C) cid b)) \<and>
    content hv d' = (content hv d)
      (ino := synced_file (IO_BLOCK_SIZE c) (view (cengine C) cid) (meta_size (imetadata i))
                (content hv d ino)) \<and>
    fd_ino hv d' = fd_ino hv d \<and> path_ino hv d' = path_ino hv d"
proof -
  note I = cache_invD [OF inv] and k = known_item [OF inv i]
  obtain e' d1 where s: "eng_sync_pages E cid (meta_size (imetadata i)) path (cengine C) d =
      Inr (False, e', d1)" "ok e'"
    "view e' = (view (cengine C))(cid := \<lambda>b. map_option clean_block (view (cengine C) cid b))"
    "content hv d1 = (content hv d)
      (ino := synced_file (IO_BLOCK_SIZE c) (view (cengine C) cid) (meta_size (imetadata i))
                (content hv d ino))"
    "path_ino hv d1 = path_ino hv d" "fd_ino hv d1 = fd_ino hv d"
    using sync [OF I(1) laws p sz sh full] by blast
  define d' where "d' = (if only_data then d1
      else snd (os_utimes h cid (TIMESPEC_TO_TIMEVAL (atim (imetadata i)))
                  (TIMESPEC_TO_TIMEVAL (mtim (imetadata i))) d1))"
  have d': "content hv d' = content hv d1" "path_ino hv d' = path_ino hv d1" "fd_ino hv d' = fd_ino hv d1"
    using host_lawsD(7) [OF laws] by (simp_all add: quiet_law_def d'_def)
  have "item_agrees (idata i) (view e' cid)"
  proof -
    have "map_option stored_block (map_option clean_block x) = map_option stored_block x" for x
      by (cases x) (simp_all add: stored_block_def)
    then show ?thesis using k(2) s(3) by (simp add: item_agrees_def)
  qed
  then have "cache_inv ok view (with_item cid (i\<lparr>data_synced := True\<rparr>) e' C)"
    using s(3) by (intro with_item_inv [OF inv s(2) k(1)]) simp_all
  moreover have "sync_owner E h cid only_data path C d =
      Inr (0, with_item cid (i\<lparr>data_synced := True\<rparr>) e' C, d')"
    using i s(1)
    by (simp add: sync_owner_def has_content_cached_def take_known_item_holding [OF I(2) i]
        get_content_metadata_def set_data_sync_flag_def d'_def)
  ultimately show ?thesis using s d' by auto
qed

end

lemma sync_owner_unknown:
  "fmlookup (contents C) cid = None \<Longrightarrow> sync_owner E h cid only_data path C d = Inr (- 1, C, d)"
  by (simp add: sync_owner_def has_content_cached_def)

section \<open>Metadata\<close>

text \<open>The way the handlers update the metadata of an item: take its mutex, update, release it.\<close>

lemma lock_known:
  assumes "locks_free C" and "fmlookup (contents C) cid = Some i"
  shows "lockItemCheckExists cid C = Inr (True, holding cid i (cengine C) C)"
  using assms by (simp add: lockItemCheckExists_def has_content_cached_def take_known_item_holding)

lemma lock_unknown:
  "fmlookup (contents C) cid = None \<Longrightarrow> lockItemCheckExists cid C = Inr (False, C)"
  by (simp add: lockItemCheckExists_def has_content_cached_def)

lemma update_held:
  "update_content_metadata cid m vs (holding cid i e C) = (True, holding cid (update_metadata m vs i) e C)"
  by (simp add: update_content_metadata_def)

lemma get_metadata_held:
  "get_content_metadata (holding cid i e C) cid = Some (imetadata i)"
  by (simp add: get_content_metadata_def)

lemma with_item_same:
  assumes "locks_free C" and "fmlookup (contents C) cid = Some i"
  shows "with_item cid i (cengine C) C = C"
proof -
  have "fmlookup (item_locks C) cid = Some False" using assms by (simp add: locks_free_def)
  then show ?thesis using assms(2) by (simp add: with_item_def fmupd_same)
qed

lemma with_metadata_inv:
  assumes "cache_inv ok view C" and "fmlookup (contents C) cid = Some i" and "idata i' = idata i"
  shows "cache_inv ok view (with_item cid i' (cengine C) C)"
  using known_item [OF assms(1,2)] assms(3)
  by (intro with_item_inv [OF assms(1) cache_invD(1) [OF assms(1)]]) simp_all

lemma insert_inode_mapping_inv:
  assumes "cache_inv ok view C"
  shows "cache_inv ok view (insert_inode_mapping path inode increase C)"
proof (cases "increase \<and> fmlookup (contents C) inode \<noteq> None")
  case True
  then obtain i where i: "fmlookup (contents C) inode = Some i" by auto
  define C1 where "C1 = C\<lparr>file_inode_mapping := fmupd path inode (file_inode_mapping C)\<rparr>"
  define i' where "i' = update_metadata (Metadata\<lparr>nlinks := nlinks (imetadata i) + 1\<rparr>) [''nlinks''] i"
  have inv1: "cache_inv ok view C1" and i1: "fmlookup (contents C1) inode = Some i"
    using assms i by (simp_all add: C1_def)
  have l: "fmlookup (item_locks C1) inode = Some False"
    using cache_invD(2) [OF inv1] i1 by (simp add: locks_free_def)
  have "insert_inode_mapping path inode increase C = with_item inode i' (cengine C1) C1"
    using True i1 l
    by (simp add: insert_inode_mapping_def get_content_metadata_def get_content_ptr_def C1_def
        update_content_metadata_def update_item_def with_item_def fmupd_same i'_def)
  then show ?thesis
    using with_metadata_inv [OF inv1 i1, of i'] by (simp add: i'_def)
next
  case False
  then show ?thesis
    using assms
    by (auto simp: insert_inode_mapping_def Let_def get_content_metadata_def get_content_ptr_def)
qed

context page_engine
begin

lemma report_unsynced_data_ok:
  assumes "cache_inv ok view C"
  shows "\<exists>r. report_unsynced_data E C = Inr r"
proof -
  have "\<exists>t. report_unsynced_data E C = Inr t \<and> True"
    unfolding report_unsynced_data_def
  proof (rule foldE_invariant)
    fix cid t assume "cid \<in> set (fmkeys (contents C))"
    then obtain i where i: "fmlookup (contents C) cid = Some i" by (auto simp: fmlookup_dom_iff)
    show "\<exists>t'. bnd (fmat (contents C) cid) (\<lambda>i. if data_synced i then Inr t
        else bnd (eng_get_dirty_blocks_info E cid (cengine C)) (\<lambda>info. Inr (t @ [(cid, 0, info)]))) =
        Inr t' \<and> True"
      using dirty_info [OF cache_invD(1) [OF assms], of cid] by (auto simp: fmat_Some [OF i])
  qed simp
  then show ?thesis by blast
qed

end

end
