(* ===== verification/Cache_Theorems.thy ===== *)
theory Cache_Theorems
  imports Cache_Facts Mem_Host
begin

text \<open>
  The two layers of the cache together: the facts proved from the contract of the page engine,
  on the custom engine. What a put, a get, a removal, a truncation, a rename, a write-back and a
  clearing do, with witnesses on the demonstration host.
\<close>

section \<open>The cache on the custom engine\<close>

text \<open>The invariant of the whole cache: engine, items and mutexes.\<close>

definition cache_ok :: "config \<Rightarrow> engine cache \<Rightarrow> bool" where
  "cache_ok c C \<longleftrightarrow> cache_inv (engine_ok c) cblocks C"

definition blocks_of :: "engine cache \<Rightarrow> string \<Rightarrow> int \<Rightarrow> cblock option" where
  "blocks_of C = cblocks (cengine C)"

lemma new_cache_ok:
  assumes "single_block c"
  obtains e where "new_engine c = Inr e" "cache_ok c (new_cache e)" "blocks_of (new_cache e) = (\<lambda>_ _. None)"
    "nfree e = nat (CACHE_NR_PAGES c)"
proof -
  obtain e where e: "new_engine c = Inr e" "eng_inv c e" "cblocks e = (\<lambda>_ _. None)"
    "nfree e = nat (CACHE_NR_PAGES c)"
    using new_engine_inv [OF assms] by blast
  have "cache_ok c (new_cache e)"
    using assms e(2,3)
    by (simp add: cache_ok_def cache_inv_def engine_ok_def locks_free_def coherent_def new_cache_def
        data_of_def item_agrees_def)
  then show ?thesis using that e by (simp add: blocks_of_def new_cache_def)
qed

lemma single_block_default: "single_block default_config"
  by (simp add: single_block_def default_config_def)

text \<open>A cache with one block of one file in it, and a host that has the file.\<close>

definition demo_host :: mem_host where
  "demo_host = \<lparr>mh_paths = fmupd ''/f'' 7 fmempty, mh_files = fmupd 7 [9, 9] fmempty,
     mh_fds = fmempty, mh_next = 3\<rparr>"

text \<open>
  C23. Putting a block into the cache either stores it or reports that it could not, and it could
  not exactly when the block was not cached and no page was free. It never deadlocks, never
  touches the host, keeps the invariant, and leaves every other block of every file as it was.
\<close>

theorem put_data_blocks_total:
  assumes "cache_ok c C" and "cid \<noteq> ''none''" and "put_ok c req"
  shows "\<exists>stored C'. put_data_blocks (custom_cache_engine h c) cid (fmupd b req fmempty) op C d =
      Inr (fmupd b stored fmempty, C', d) \<and> cache_ok c C' \<and>
    (stored \<longleftrightarrow> blocks_of C cid b \<noteq> None \<or> 0 < nfree (cengine C)) \<and>
    (\<forall>cid' b'. (cid', b') \<noteq> (cid, b) \<longrightarrow> blocks_of C' cid' b' = blocks_of C cid' b')"
proof (cases "blocks_of C cid b \<noteq> None \<or> 0 < nfree (cengine C)")
  case True
  then show ?thesis
    using custom.put_one_stores [OF assms(1) [unfolded cache_ok_def] assms(2,3), of b h op d]
    by (fastforce simp: blocks_of_def cache_ok_def upd_view_def)
next
  case False
  then have none: "cblocks (cengine C) cid b = None" "nfree (cengine C) = 0"
    by (simp_all add: blocks_of_def)
  have "put_data_blocks (custom_cache_engine h c) cid (fmupd b req fmempty) op C d =
      Inr (fmupd b False fmempty, with_item cid (item_or_new C cid) (cengine C) C, d)"
    by (rule custom.put_one_fails [OF assms(1) [unfolded cache_ok_def] assms(2,3) none])
  moreover have "cache_inv (engine_ok c) cblocks (with_item cid (item_or_new C cid) (cengine C) C)"
    by (rule custom.put_nothing_inv [OF assms(1) [unfolded cache_ok_def] assms(2)])
  ultimately show ?thesis
    using False none by (auto simp: cache_ok_def blocks_of_def)
qed

theorem put_data_blocks_total_witness:
  "\<exists>e C'. new_engine default_config = Inr e \<and>
     put_data_blocks (custom_cache_engine mem_os default_config) ''7''
       (fmupd 0 ([1, 2, 3], 3, 0, 2) fmempty) OP_WRITE (new_cache e) demo_host =
       Inr (fmupd 0 True fmempty, C', demo_host) \<and> cache_ok default_config C'"
proof -
  obtain e where e: "new_engine default_config = Inr e" "cache_ok default_config (new_cache e)"
    "nfree e = nat (CACHE_NR_PAGES default_config)"
    by (rule new_cache_ok [OF single_block_default])
  have put: "put_ok default_config ([1, 2, 3], 3, 0, 2)"
    by (simp add: put_ok_def request_ok_def default_config_def)
  have free: "0 < nfree (cengine (new_cache e))" using e(3) by (simp add: new_cache_def default_config_def)
  have "\<exists>stored C'. put_data_blocks (custom_cache_engine mem_os default_config) ''7''
      (fmupd 0 ([1, 2, 3], 3, 0, 2) fmempty) OP_WRITE (new_cache e) demo_host =
      Inr (fmupd 0 stored fmempty, C', demo_host) \<and> cache_ok default_config C' \<and>
    (stored \<longleftrightarrow> blocks_of (new_cache e) ''7'' 0 \<noteq> None \<or> 0 < nfree (cengine (new_cache e))) \<and>
    (\<forall>cid' b'. (cid', b') \<noteq> (''7'', 0) \<longrightarrow> blocks_of C' cid' b' = blocks_of (new_cache e) cid' b')"
    by (rule put_data_blocks_total [OF e(2) _ put]) simp
  then show ?thesis using e(1) free by auto
qed

text \<open>
  C24. What has been put can be got: after a successful put, a get of the block returns the
  whole block with the bytes of the request in their place, readable at least up to where the
  request ends, and the invariant holds throughout.
\<close>

theorem put_then_get:
  assumes "cache_ok c C" and "cid \<noteq> ''none''" and "put_ok c (bs, len, off, to)"
    and put: "put_data_blocks (custom_cache_engine h c) cid (fmupd b (bs, len, off, to) fmempty) op C d =
      Inr (res, C1, d1)" and stored: "fmlookup res b = Some True"
  shows "\<exists>dt r C2. get_data_blocks (custom_cache_engine h' c) c cid {|b|} C1 =
      Inr (fmupd b (Some dt, 0, r) fmempty, C2) \<and> cache_ok c C2 \<and>
    int (length dt) = IO_BLOCK_SIZE c \<and> to \<le> r \<and>
    take (nat len) (drop (nat off) dt) = take (nat len) bs \<and>
    blocks_of C2 = blocks_of C1"
proof -
  have inv: "cache_inv (engine_ok c) cblocks C" using assms(1) by (simp add: cache_ok_def)
  have space: "cblocks (cengine C) cid b \<noteq> None \<or> 0 < nfree (cengine C)"
  proof (rule ccontr)
    assume "\<not> ?thesis"
    then have "cblocks (cengine C) cid b = None" "nfree (cengine C) = 0" by simp_all
    from custom.put_one_fails [where h = h and op = op and d = d, OF inv assms(2,3) this]
    show False using put stored by simp
  qed
  obtain p e1 i1 where p: "put_data_blocks (custom_cache_engine h c) cid
      (fmupd b (bs, len, off, to) fmempty) op C d = Inr (fmupd b True fmempty, with_item cid i1 e1 C, d)"
    "cache_inv (engine_ok c) cblocks (with_item cid i1 e1 C)"
    "cblocks e1 = upd_view cid b (Some (put_block c (bs, len, off, to) p (cblocks (cengine C) cid b)))
       (cblocks (cengine C))"
    using custom.put_one_stores [OF inv assms(2,3) space, of h op d] by blast
  have C1: "C1 = with_item cid i1 e1 C" using put p(1) by simp
  define cb where "cb = put_block c (bs, len, off, to) p (cblocks (cengine C) cid b)"
  have cb: "cblocks e1 cid b = Some cb" using p(3) by (simp add: upd_view_def cb_def)
  have i1: "fmlookup (contents C1) cid = Some i1" by (simp add: C1)
  obtain e2 where g: "get_data_blocks (custom_cache_engine h' c) c cid {|b|} C1 =
      Inr (got_block b (cblocks (cengine C1) cid b), with_item cid i1 e2 C1)"
    "cache_inv (engine_ok c) cblocks (with_item cid i1 e2 C1)" "cblocks e2 = cblocks (cengine C1)"
    using custom.get_one [OF p(2) [folded C1] i1, of h' b] by blast
  have len: "int (length (cb_data cb)) = IO_BLOCK_SIZE c"
    using custom.stored [OF cache_invD(1) [OF p(2)], of cid b cb] cb by simp
  define old where "old = (case cblocks (cengine C) cid b of None \<Rightarrow> zero_block c | Some cb \<Rightarrow> cb_data cb)"
  have old_len: "int (length old) = IO_BLOCK_SIZE c"
    using custom.stored [OF cache_invD(1) [OF inv], of cid b] custom.geometry [OF cache_invD(1) [OF inv]]
      cache_invD(1) [OF inv]
    by (auto simp: old_def engine_ok_def split: option.splits)
  have "cb_data cb = overlay old off (take (nat len) bs)"
    by (simp add: cb_def put_block_def requested_def old_def)
  moreover have "take (nat len) (drop (nat off) (overlay old off (take (nat len) bs))) = take (nat len) bs"
    using assms(3) old_len by (auto simp: put_ok_def request_ok_def overlay_def min_def)
  moreover have "to \<le> cb_readable cb" by (simp add: cb_def put_block_def)
  ultimately show ?thesis
    using g len cb by (auto simp: got_block_def C1 cache_ok_def blocks_of_def)
qed


text \<open>The cache the witnesses use: one block of one file, put into a new cache.\<close>

definition demo_put :: put_request where "demo_put = ([1, 2, 3], 3, 0, 2)"

definition demo_meta :: metadata where
  "demo_meta = Metadata\<lparr>meta_size := 3, nlinks := 2\<rparr>"

lemma demo_put_ok: "put_ok default_config demo_put"
  by (simp add: demo_put_def put_ok_def request_ok_def default_config_def)

lemma demo_stored:
  obtains e C p i where "new_engine default_config = Inr e"
    "put_data_blocks (custom_cache_engine mem_os default_config) ''7'' (fmupd 0 demo_put fmempty) OP_WRITE
       (new_cache e) demo_host = Inr (fmupd 0 True fmempty, C, demo_host)"
    "cache_ok default_config C" "fmlookup (contents C) ''7'' = Some i" "imetadata i = Metadata"
    "blocks_of C ''7'' = [0 \<mapsto> put_block default_config demo_put p None]"
    "cache_ok default_config (new_cache e)" "file_inode_mapping C = fmempty"
proof -
  obtain e where e: "new_engine default_config = Inr e" "cache_ok default_config (new_cache e)"
    "blocks_of (new_cache e) = (\<lambda>_ _. None)" "nfree e = nat (CACHE_NR_PAGES default_config)"
    by (rule new_cache_ok [OF single_block_default])
  have inv: "cache_inv (engine_ok default_config) cblocks (new_cache e)" using e(2) by (simp add: cache_ok_def)
  have none: "cblocks (cengine (new_cache e)) ''7'' 0 = None" "cblocks e = (\<lambda>_ _. None)"
    using e(3) by (simp_all add: blocks_of_def new_cache_def)
  have "0 < nfree (cengine (new_cache e))" using e(4) by (simp add: new_cache_def default_config_def)
  then obtain p e1 i where p: "put_data_blocks (custom_cache_engine mem_os default_config) ''7''
        (fmupd 0 demo_put fmempty) OP_WRITE (new_cache e) demo_host =
        Inr (fmupd 0 True fmempty, with_item ''7'' i e1 (new_cache e), demo_host)"
    "cache_inv (engine_ok default_config) cblocks (with_item ''7'' i e1 (new_cache e))"
    "imetadata i = imetadata (item_or_new (new_cache e) ''7'')"
    "cblocks e1 = upd_view ''7'' 0 (Some (put_block default_config demo_put p None)) (\<lambda>_ _. None)"
    using custom.put_one_stores [OF inv _ demo_put_ok, of "''7''" 0 mem_os OP_WRITE demo_host] none
    by (auto simp: new_cache_def)
  have "imetadata i = Metadata"
    using p(3) by (simp add: item_or_new_def new_cache_def Item_def)
  moreover have "cblocks e1 ''7'' =
      [0 \<mapsto> put_block default_config demo_put p None]"
    by (simp add: p(4) upd_view_def fun_eq_iff)
  moreover have "file_inode_mapping (with_item ''7'' i e1 (new_cache e)) = fmempty"
    by (simp add: new_cache_def)
  ultimately show ?thesis
    using that [OF e(1) p(1)] p(2) e(2) by (simp add: cache_ok_def blocks_of_def)
qed

theorem put_then_get_witness:
  "\<exists>C1 dt r C2. get_data_blocks (custom_cache_engine mem_os default_config) default_config ''7'' {|0|} C1 =
      Inr (fmupd 0 (Some dt, 0, r) fmempty, C2) \<and> take 3 dt = [1, 2, 3] \<and> 2 \<le> r"
proof -
  obtain e C where C: "put_data_blocks (custom_cache_engine mem_os default_config) ''7''
      (fmupd 0 demo_put fmempty) OP_WRITE (new_cache e) demo_host =
      Inr (fmupd 0 True fmempty, C, demo_host)" "cache_ok default_config (new_cache e)"
    by (rule demo_stored)
  have "\<exists>dt r C2. get_data_blocks (custom_cache_engine mem_os default_config) default_config ''7'' {|0|} C =
      Inr (fmupd 0 (Some dt, 0, r) fmempty, C2) \<and> cache_ok default_config C2 \<and>
    int (length dt) = IO_BLOCK_SIZE default_config \<and> 2 \<le> r \<and>
    take (nat 3) (drop (nat 0) dt) = take (nat 3) [1, 2, 3] \<and> blocks_of C2 = blocks_of C"
    by (rule put_then_get [OF C(2) _ demo_put_ok [unfolded demo_put_def] C(1) [unfolded demo_put_def]])
      simp_all
  then show ?thesis by fastforce
qed

text \<open>
  Clearing the cache always succeeds and leaves it as new: no items, no mutexes, no blocks,
  usage zero; a read of any file afterwards finds nothing in the cache.
\<close>

theorem clear_all_cache_empties:
  assumes "cache_ok c C"
  shows "\<exists>C'. clear_all_cache (custom_cache_engine h c) C = Inr C' \<and> cache_ok c C' \<and>
    contents C' = fmempty \<and> item_locks C' = fmempty \<and> blocks_of C' = (\<lambda>_ _. None) \<and>
    get_cache_usage (custom_cache_engine h c) C' = 0 \<and>
    (\<forall>cid bl. get_data_blocks (custom_cache_engine h c) c cid bl C' = Inr (fmempty, C'))"
proof -
  obtain C' where "clear_all_cache (custom_cache_engine h c) C = Inr C'"
    "cache_inv (engine_ok c) cblocks C'" "contents C' = fmempty" "item_locks C' = fmempty"
    "\<forall>cid b. cblocks (cengine C') cid b = None" "get_cache_usage (custom_cache_engine h c) C' = 0"
    using custom.clear_all_cache_ok [OF assms [unfolded cache_ok_def], of h] by blast
  then show ?thesis
    by (intro exI [of _ C']) (simp add: cache_ok_def blocks_of_def fun_eq_iff get_data_blocks_unknown)
qed

theorem clear_all_cache_empties_witness:
  "\<exists>C C'. blocks_of C ''7'' 0 \<noteq> None \<and>
     clear_all_cache (custom_cache_engine mem_os default_config) C = Inr C' \<and> blocks_of C' ''7'' 0 = None"
proof -
  obtain C p where "cache_ok default_config C"
    "blocks_of C ''7'' = [0 \<mapsto> put_block default_config demo_put p None]"
    by (rule demo_stored)
  moreover obtain C' where "clear_all_cache (custom_cache_engine mem_os default_config) C = Inr C'"
    "blocks_of C' = (\<lambda>_ _. None)"
    using clear_all_cache_empties [OF calculation(1), of mem_os] by blast
  ultimately show ?thesis by (intro exI [of _ C] exI [of _ C']) simp
qed

text \<open>
  Truncating a cached file to a size cuts its cached blocks at that size, drops those past
  it, leaves every other file's blocks alone, and marks the item as not synced when anything of
  it can remain.
\<close>

theorem truncate_item_cuts:
  assumes "cache_ok c C" and "fmlookup (contents C) cid = Some i"
    and "0 < new_size" "new_size < 9223372036854775808" "new_size div IO_BLOCK_SIZE c < 2147483648"
  shows "\<exists>C' i'. truncate_item (custom_cache_engine h c) c cid new_size C = Inr (True, C') \<and>
    cache_ok c C' \<and> fmlookup (contents C') cid = Some i' \<and> imetadata i' = imetadata i \<and>
    \<not> data_synced i' \<and>
    (\<forall>b. blocks_of C' cid b =
       (if b < new_size div IO_BLOCK_SIZE c then blocks_of C cid b
        else Option.bind (blocks_of C cid b)
               (cut_block c (new_size div IO_BLOCK_SIZE c) (new_size mod IO_BLOCK_SIZE c) b))) \<and>
    (\<forall>cid'. cid' \<noteq> cid \<longrightarrow> blocks_of C' cid' = blocks_of C cid')"
proof -
  obtain i' e' where t: "truncate_item (custom_cache_engine h c) c cid new_size C =
      Inr (True, with_item cid i' e' C)"
    "cache_inv (engine_ok c) cblocks (with_item cid i' e' C)"
    "imetadata i' = imetadata i" "\<not> data_synced i'"
    "cblocks e' = (cblocks (cengine C))(cid := cut_view c new_size (cblocks (cengine C) cid))"
    using custom.truncate_item_ok [OF assms(1) [unfolded cache_ok_def] assms(2-5), of h] by blast
  show ?thesis
    by (intro exI [of _ "with_item cid i' e' C"] exI [of _ i'])
      (simp add: t cache_ok_def blocks_of_def cut_view_def)
qed

theorem truncate_item_cuts_witness:
  "\<exists>C C'. truncate_item (custom_cache_engine mem_os default_config) default_config ''7'' 2 C = Inr (True, C') \<and>
     cache_ok default_config C' \<and> blocks_of C ''7'' 0 \<noteq> None"
proof -
  obtain C i p where C: "cache_ok default_config C" "fmlookup (contents C) ''7'' = Some i"
    "blocks_of C ''7'' = [0 \<mapsto> put_block default_config demo_put p None]"
    by (rule demo_stored)
  have "(2::int) div IO_BLOCK_SIZE default_config < 2147483648" by (simp add: default_config_def)
  then obtain C' where "truncate_item (custom_cache_engine mem_os default_config) default_config ''7'' 2 C =
      Inr (True, C')" "cache_ok default_config C'"
    using truncate_item_cuts [OF C(1,2), of 2 mem_os] by auto
  then show ?thesis using C(3) by (intro exI [of _ C] exI [of _ C']) simp
qed

text \<open>
  Removing one link of a cached inode keeps its item and blocks while another link remains,
  with one link less, and otherwise drops both; nothing else is touched.
\<close>

theorem remove_cached_item_links:
  assumes "cache_ok c C" and "fmlookup (contents C) cid = Some i"
  shows "\<exists>C'. remove_cached_item (custom_cache_engine h c) cid path False C =
      Inr (\<not> 1 < nlinks (imetadata i), C') \<and> cache_ok c C' \<and> link_dropped cblocks cid C C' \<and>
    file_inode_mapping C' = fmdrop path (file_inode_mapping C)"
  using custom.remove_link_ok [OF assms(1) [unfolded cache_ok_def] assms(2), of h path]
  by (auto simp: cache_ok_def)

theorem remove_cached_item_links_witness:
  "\<exists>C C'. blocks_of C ''7'' 0 \<noteq> None \<and>
     remove_cached_item (custom_cache_engine mem_os default_config) ''7'' ''/f'' False C = Inr (True, C') \<and>
     blocks_of C' ''7'' 0 = None"
proof -
  obtain C i p where C: "cache_ok default_config C" "fmlookup (contents C) ''7'' = Some i"
    "imetadata i = Metadata"
    "blocks_of C ''7'' = [0 \<mapsto> put_block default_config demo_put p None]"
    by (rule demo_stored)
  have one: "nlinks (imetadata i) = 1" by (simp add: C(3) Metadata_def Let_def)
  obtain C' where "remove_cached_item (custom_cache_engine mem_os default_config) ''7'' ''/f'' False C =
      Inr (True, C')" "link_dropped cblocks ''7'' C C'"
    using remove_cached_item_links [OF C(1,2), of mem_os "''/f''"] one by auto
  moreover have "blocks_of C' ''7'' 0 = None"
    using calculation(2) C(2) one by (simp add: link_dropped_def blocks_of_def)
  ultimately show ?thesis using C(4) by (intro exI [of _ C] exI [of _ C']) simp
qed

text \<open>
  A rename never fails in the cache: the new name takes over the inode of the old one, and
  the inode the new name had before loses a link.
\<close>

theorem rename_item_relinks:
  assumes "cache_ok c C"
  shows "\<exists>C'. rename_item (custom_cache_engine h c) old_cid new_cid C = Inr (True, C') \<and>
    cache_ok c C' \<and>
    file_inode_mapping C' =
      (case fmlookup (file_inode_mapping C) old_cid of
         None \<Rightarrow> file_inode_mapping C
       | Some inode \<Rightarrow> fmupd new_cid inode (fmdrop old_cid (file_inode_mapping C))) \<and>
    (if fmlookup (file_inode_mapping C) old_cid = None then C' = C
     else link_dropped cblocks (displaced new_cid (file_inode_mapping C)) C C')"
  using custom.rename_item_ok [OF assms(1) [unfolded cache_ok_def], of h old_cid new_cid]
  by (auto simp: cache_ok_def renamed_paths_def)

theorem rename_item_relinks_witness:
  "\<exists>C C'. rename_item (custom_cache_engine mem_os default_config) ''/f'' ''/g''
      (insert_inode_mapping ''/f'' ''7'' False C) = Inr (True, C') \<and>
     fmlookup (file_inode_mapping C') ''/g'' = Some ''7'' \<and>
     blocks_of C' ''7'' 0 \<noteq> None \<and> cache_ok default_config C'"
proof -
  obtain C i p where C: "cache_ok default_config C" "fmlookup (contents C) ''7'' = Some i"
    "blocks_of C ''7'' = [0 \<mapsto> put_block default_config demo_put p None]"
    "imetadata i = Metadata" "file_inode_mapping C = fmempty"
    by (rule demo_stored)
  define C0 where "C0 = insert_inode_mapping ''/f'' ''7'' False C"
  have C0: "cache_ok default_config C0" "fmlookup (file_inode_mapping C0) ''/f'' = Some ''7''"
    "displaced ''/g'' (file_inode_mapping C0) = []" "contents C0 = contents C" "cengine C0 = cengine C"
    using insert_inode_mapping_inv [OF C(1) [unfolded cache_ok_def], of "''/f''" "''7''" False] C(5)
    by (simp_all add: C0_def cache_ok_def insert_inode_mapping_def displaced_def)
  obtain C' where C': "rename_item (custom_cache_engine mem_os default_config) ''/f'' ''/g'' C0 = Inr (True, C')"
    "cache_ok default_config C'" "fmlookup (file_inode_mapping C') ''/g'' = Some ''7''"
    "link_dropped cblocks [] C0 C'"
    using rename_item_relinks [OF C0(1), of mem_os "''/f''" "''/g''"] C0(2,3) by auto
  have "blocks_of C' ''7'' 0 \<noteq> None"
    using C'(4) C(2,3) C0(4,5) by (simp add: link_dropped_def blocks_of_def)
  then show ?thesis using C' unfolding C0_def by blast
qed

text \<open>
  C26. Writing a cached file back makes it durable: afterwards the file on the host has the size
  the item records and the bytes of every dirty block, what lay under no dirty block is as it
  was, no block of the file is dirty any more, and no other file of the host has changed.
\<close>

theorem sync_owner_durable:
  assumes "cache_ok c C" and "fmlookup (contents C) cid = Some i"
    and "host_laws h hv" and "path_ino hv d path = Some ino" and "0 \<le> meta_size (imetadata i)"
    and "blocks_shaped c (blocks_of C cid)"
    and "runs_full c (blocks_of C cid) {b. dirty_blocks (blocks_of C cid) b \<noteq> None}"
  shows "\<exists>C' d'. sync_owner (custom_cache_engine h c) h cid only_data path C d = Inr (0, C', d') \<and>
    cache_ok c C' \<and>
    blocks_of C' = (blocks_of C)(cid := \<lambda>b. map_option clean_block (blocks_of C cid b)) \<and>
    content hv d' ino = map (file_byte (IO_BLOCK_SIZE c) (dirty_blocks (blocks_of C cid))
        (byte_at (content hv d ino))) [0..<nat (meta_size (imetadata i))] \<and>
    (\<forall>ino'. ino' \<noteq> ino \<longrightarrow> content hv d' ino' = content hv d ino') \<and>
    path_ino hv d' = path_ino hv d"
proof -
  obtain e' d' where "sync_owner (custom_cache_engine h c) h cid only_data path C d =
      Inr (0, with_item cid (i\<lparr>data_synced := True\<rparr>) e' C, d')"
    "cache_inv (engine_ok c) cblocks (with_item cid (i\<lparr>data_synced := True\<rparr>) e' C)"
    "cblocks e' = (cblocks (cengine C))(cid := \<lambda>b. map_option clean_block (cblocks (cengine C) cid b))"
    "content hv d' = (content hv d)
      (ino := synced_file (IO_BLOCK_SIZE c) (cblocks (cengine C) cid) (meta_size (imetadata i))
                (content hv d ino))"
    "path_ino hv d' = path_ino hv d"
    using custom.sync_owner_ok [OF assms(1) [unfolded cache_ok_def] assms(2-5)
        assms(6,7) [unfolded blocks_of_def], of only_data] by blast
  then show ?thesis
    by (intro exI [of _ "with_item cid (i\<lparr>data_synced := True\<rparr>) e' C"] exI [of _ d'])
      (simp add: cache_ok_def blocks_of_def synced_file_def)
qed

text \<open>The demo cache with the size of the write recorded, as the handlers do after a write.\<close>

theorem sync_owner_durable_witness:
  "\<exists>C C' d'. sync_owner (custom_cache_engine mem_os default_config) mem_os ''7'' False ''/f'' C demo_host =
      Inr (0, C', d') \<and> content mem_view d' 7 = [1, 2, 3]"
proof -
  obtain C i p where C: "cache_ok default_config C" "fmlookup (contents C) ''7'' = Some i"
    "blocks_of C ''7'' = [0 \<mapsto> put_block default_config demo_put p None]"
    by (rule demo_stored)
  define i' where "i' = i\<lparr>imetadata := demo_meta\<rparr>"
  define C0 where "C0 = with_item ''7'' i' (cengine C) C"
  define cb where "cb = put_block default_config demo_put p None"
  have inv: "cache_ok default_config C0"
    using with_metadata_inv [OF C(1) [unfolded cache_ok_def] C(2), of i'] by (simp add: C0_def cache_ok_def i'_def)
  have it: "fmlookup (contents C0) ''7'' = Some i'" by (simp add: C0_def)
  have bl: "blocks_of C0 ''7'' = [0 \<mapsto> cb]" using C(3) by (simp add: C0_def blocks_of_def cb_def)
  have path: "path_ino mem_view demo_host ''/f'' = Some 7" by (simp add: mem_view_def demo_host_def)
  have size: "meta_size (imetadata i') = 3" by (simp add: i'_def demo_meta_def)
  have cb: "cb_readable cb = 2" "cb_data cb = [1, 2, 3] @ replicate 4093 0" "cb_dirty cb"
    by (simp_all add: cb_def put_block_def demo_put_def requested_def zero_block_def overlay_def default_config_def)
  have dirty: "dirty_blocks (blocks_of C0 ''7'') = [0 \<mapsto> cb]"
    by (simp add: bl dirty_blocks_def fun_eq_iff cb)
  have shaped: "blocks_shaped default_config (blocks_of C0 ''7'')"
    by (simp add: bl blocks_shaped_def cb default_config_def)
  have full: "runs_full default_config (blocks_of C0 ''7'')
      {b. dirty_blocks (blocks_of C0 ''7'') b \<noteq> None}"
    by (simp add: dirty runs_full_def)
  obtain C' d' where s: "sync_owner (custom_cache_engine mem_os default_config) mem_os ''7'' False ''/f'' C0 demo_host =
      Inr (0, C', d')"
    "content mem_view d' 7 = map (file_byte (IO_BLOCK_SIZE default_config) (dirty_blocks (blocks_of C0 ''7''))
        (byte_at (content mem_view demo_host 7))) [0..<nat 3]"
    using sync_owner_durable [OF inv it mem_host_laws path _ shaped full, of False] size by auto
  have "content mem_view d' 7 = [1, 2, 3]"
    by (simp add: s(2) dirty file_byte_def cb default_config_def upt_rec)
  then show ?thesis using s(1) by blast
qed

end
