(* ===== verification/Files.thy ===== *)
theory Files
  imports Engine_Sync
begin

text \<open>
  Files of which some blocks are cached, as byte sequences: what a reader sees, what the host
  has, and how the two change when a part of a block is written into the cache, written past it,
  or the dirty blocks are written back. No definition of the code occurs here; the lemmas are
  what the handlers for writing and synchronising are verified with.
\<close>


section \<open>Positions in blocks\<close>

lemma in_block:
  fixes B b x :: int
  assumes "0 < B" and "b * B \<le> x" and "x < b * B + B"
  shows "x div B = b" "x mod B = x - b * B"
proof -
  show d: "x div B = b" using assms by (intro int_div_pos_eq [where r = "x - b * B"]) auto
  show "x mod B = x - b * B" using d by (simp add: minus_mult_div_eq_mod [symmetric] algebra_simps)
qed

lemma block_bounds:
  fixes B x :: int
  assumes "0 < B"
  shows "x div B * B \<le> x" "x < x div B * B + B"
  using assms pos_mod_bound [of B x] pos_mod_sign [of B x] div_mult_mod_eq [of x B] by linarith+

lemma block_before:
  fixes B b b' :: int
  assumes "0 < B" and "b' < b"
  shows "b' * B + B \<le> b * B"
proof -
  have "(b' + 1) * B \<le> b * B" using assms by (intro mult_right_mono) auto
  then show ?thesis by (simp add: algebra_simps)
qed

lemma file_byte_in:
  assumes "0 < B" and "b * B \<le> int j" and "int j < b * B + B"
  shows "file_byte B v f j =
    (case v b of
       None \<Rightarrow> f j
     | Some cb \<Rightarrow> if int j - b * B \<le> cb_readable cb then cb_data cb ! nat (int j - b * B) else f j)"
  using in_block [OF assms] by (simp only: file_byte_def)

lemma file_byte_upd:
  assumes "0 < B"
  shows "file_byte B (v(b \<mapsto> cb)) f j =
    (if b * B \<le> int j \<and> int j < b * B + B
     then if int j - b * B \<le> cb_readable cb then cb_data cb ! nat (int j - b * B) else f j
     else file_byte B v f j)"
proof (cases "b * B \<le> int j \<and> int j < b * B + B")
  case True
  then show ?thesis using file_byte_in [OF assms, of b j] by simp
next
  case False
  then have "int j div B \<noteq> b" using block_bounds [OF assms, of "int j"] by auto
  then show ?thesis unfolding if_not_P [OF False] by (simp add: file_byte_def)
qed

section \<open>A file of which some blocks are cached\<close>

text \<open>
  The file has the size the cache records. It is never shorter than what the host has; a cached
  block is readable up to the end of the file or of the block; a clean one agrees with the host;
  and a block of the file that is not cached is on the host.
\<close>

definition cached_block_ok :: "int \<Rightarrow> int \<Rightarrow> byte list \<Rightarrow> int \<Rightarrow> cblock \<Rightarrow> bool" where
  "cached_block_ok B sz disk b cb \<longleftrightarrow>
     0 \<le> b \<and> b * B < sz \<and> cb_readable cb = min B (sz - b * B) - 1 \<and>
     (\<not> cb_dirty cb \<longrightarrow>
        (\<forall>k. 0 \<le> k \<longrightarrow> k \<le> cb_readable cb \<longrightarrow> cb_data cb ! nat k = byte_at disk (nat (b * B + k))))"

definition file_ok :: "int \<Rightarrow> int \<Rightarrow> (int \<Rightarrow> cblock option) \<Rightarrow> byte list \<Rightarrow> bool" where
  "file_ok B sz v disk \<longleftrightarrow>
     int (length disk) \<le> sz \<and>
     (\<forall>b cb. v b = Some cb \<longrightarrow> cached_block_ok B sz disk b cb) \<and>
     (\<forall>b. 0 \<le> b \<longrightarrow> b * B < sz \<longrightarrow> v b = None \<longrightarrow> min sz (b * B + B) \<le> int (length disk))"

lemma file_okD:
  assumes "file_ok B sz v disk"
  shows "int (length disk) \<le> sz" "0 \<le> sz"
    and "v b = Some cb \<Longrightarrow> cached_block_ok B sz disk b cb"
    and "0 \<le> b \<Longrightarrow> b * B < sz \<Longrightarrow> v b = None \<Longrightarrow> min sz (b * B + B) \<le> int (length disk)"
  using assms by (auto simp: file_ok_def)

text \<open>What a reader of the file sees.\<close>

definition visible :: "int \<Rightarrow> int \<Rightarrow> (int \<Rightarrow> cblock option) \<Rightarrow> byte list \<Rightarrow> byte list" where
  "visible B sz v disk = map (file_byte B v (byte_at disk)) [0..<nat sz]"

lemma visible_length [simp]: "length (visible B sz v disk) = nat sz"
  by (simp add: visible_def)

lemma byte_at_visible:
  "byte_at (visible B sz v disk) j = (if j < nat sz then file_byte B v (byte_at disk) j else 0)"
  by (simp add: visible_def byte_at_def)

lemma file_ok_uncached:
  "0 < B \<Longrightarrow> file_ok B (int (length disk)) (\<lambda>_. None) disk"
  "visible B (int (length disk)) (\<lambda>_. None) disk = disk"
  by (auto simp: file_ok_def visible_def file_byte_def byte_at_def intro: nth_equalityI)

text \<open>Writing without a gap, byte by byte.\<close>

lemma file_write_eqI:
  assumes "off \<le> length x" and "length y = max (length x) (off + length bs)"
    and "\<And>j. j < length y \<Longrightarrow>
      byte_at y j = (if off \<le> j \<and> j < off + length bs then bs ! (j - off) else byte_at x j)"
  shows "y = file_write x (int off) bs"
proof (rule byte_list_eqI)
  show "length y = length (file_write x (int off) bs)"
    using assms(1,2) by (simp add: file_write_length)
next
  fix j assume "j < length y"
  then show "byte_at y j = byte_at (file_write x (int off) bs) j"
    using assms(3) by (simp add: byte_at_file_write)
qed

lemma file_write_append:
  assumes "0 \<le> off"
  shows "file_write (file_write x off xs) (off + int (length xs)) ys = file_write x off (xs @ ys)"
proof (rule byte_list_eqI)
  show "length (file_write (file_write x off xs) (off + int (length xs)) ys) =
      length (file_write x off (xs @ ys))"
    using assms by (auto simp: file_write_length nat_add_distrib)
next
  fix j
  show "byte_at (file_write (file_write x off xs) (off + int (length xs)) ys) j =
      byte_at (file_write x off (xs @ ys)) j"
    using assms by (auto simp: byte_at_file_write nat_add_distrib nth_append)
qed

text \<open>
  What may happen to the host's copy of a file during a write that is not synced: bytes in the
  range of the write may have reached it, every other byte is as it was.
\<close>

definition torn :: "int \<Rightarrow> byte list \<Rightarrow> byte list \<Rightarrow> byte list \<Rightarrow> bool" where
  "torn off bs disk disk' \<longleftrightarrow> length disk \<le> length disk' \<and>
     (\<forall>j. byte_at disk' j = byte_at disk j \<or>
          (nat off \<le> j \<and> j < nat off + length bs \<and> byte_at disk' j = bs ! (j - nat off)))"

lemma torn_refl [simp]: "torn off bs disk disk"
  by (simp add: torn_def)

lemma torn_append:
  assumes "0 \<le> off" and "torn off xs d1 d2" and "torn (off + int (length xs)) ys d2 d3"
  shows "torn off (xs @ ys) d1 d3"
proof -
  have "byte_at d3 j = byte_at d1 j \<or>
      (nat off \<le> j \<and> j < nat off + length (xs @ ys) \<and> byte_at d3 j = (xs @ ys) ! (j - nat off))" for j
    using assms(2,3) [unfolded torn_def, THEN conjunct2, rule_format, of j] assms(1)
    by (auto simp: nat_add_distrib nth_append)
  then show ?thesis using assms(2,3) by (auto simp: torn_def)
qed

section \<open>Writing a part of one block\<close>

text \<open>
  The bytes from \<open>frm\<close> to \<open>to\<close> of block \<open>b\<close> are written, with no gap after the end of the
  file. Every other block keeps its place in the file, because the file only grows inside or
  right after block \<open>b\<close>.
\<close>

definition part_ok :: "int \<Rightarrow> int \<Rightarrow> int \<Rightarrow> int \<Rightarrow> int \<Rightarrow> byte list \<Rightarrow> bool" where
  "part_ok B sz b frm to nb \<longleftrightarrow>
     0 < B \<and> 0 \<le> b \<and> 0 \<le> frm \<and> frm \<le> to \<and> to < B \<and> b * B + frm \<le> sz \<and>
     int (length nb) = to - frm + 1"

definition grown :: "int \<Rightarrow> int \<Rightarrow> int \<Rightarrow> int \<Rightarrow> int" where
  "grown B sz b to = max sz (b * B + to + 1)"

lemma part_other_block:
  assumes "part_ok B sz b frm to nb" and "b' \<noteq> b"
  shows "b' * B < grown B sz b to \<longleftrightarrow> b' * B < sz"
    and "b' * B < sz \<Longrightarrow> min B (grown B sz b to - b' * B) = min B (sz - b' * B)"
    and "b' * B < sz \<Longrightarrow> min (grown B sz b to) (b' * B + B) = min sz (b' * B + B)"
proof -
  have p: "0 < B" "0 \<le> b" "0 \<le> frm" "frm \<le> to" "to < B" "b * B + frm \<le> sz"
    using assms(1) by (simp_all add: part_ok_def)
  consider "b' < b" | "b < b'" using assms(2) by linarith
  then have "(b' * B < grown B sz b to \<longleftrightarrow> b' * B < sz) \<and>
      (b' * B < sz \<longrightarrow> min B (grown B sz b to - b' * B) = min B (sz - b' * B) \<and>
         min (grown B sz b to) (b' * B + B) = min sz (b' * B + B))"
  proof cases
    case 1
    have "b' * B + B \<le> b * B" by (rule block_before [OF p(1) 1])
    then show ?thesis using p by (auto simp: grown_def min_def max_def)
  next
    case 2
    have "b * B + B \<le> b' * B" by (rule block_before [OF p(1) 2])
    then show ?thesis using p by (auto simp: grown_def min_def max_def)
  qed
  then show "b' * B < grown B sz b to \<longleftrightarrow> b' * B < sz"
    and "b' * B < sz \<Longrightarrow> min B (grown B sz b to - b' * B) = min B (sz - b' * B)"
    and "b' * B < sz \<Longrightarrow> min (grown B sz b to) (b' * B + B) = min sz (b' * B + B)"
    by blast+
qed

lemma part_bounds:
  assumes "part_ok B sz b frm to nb"
  shows "0 \<le> b * B" "nat (b * B + frm) \<le> nat sz" "b * B < grown B sz b to"
    "sz \<le> grown B sz b to" "b * B + to < grown B sz b to" "0 \<le> sz"
    "nat (grown B sz b to) = max (nat sz) (nat (b * B + frm) + length nb)"
proof -
  have p: "0 < B" "0 \<le> b" "0 \<le> frm" "frm \<le> to" "b * B + frm \<le> sz" "int (length nb) = to - frm + 1"
    using assms by (simp_all add: part_ok_def)
  show bB: "0 \<le> b * B" using p by simp
  show "nat (b * B + frm) \<le> nat sz" "b * B < grown B sz b to" "sz \<le> grown B sz b to"
    "b * B + to < grown B sz b to"
    using p bB by (auto simp: grown_def max_def)
  show "0 \<le> sz" using p bB by linarith
  have "int (nat (b * B + frm)) = b * B + frm" using p bB by simp
  then have "nat (b * B + to + 1) = nat (b * B + frm) + length nb" using p(6) by linarith
  moreover have "nat (max x y) = max (nat x) (nat y)" for x y by (simp add: max_def)
  ultimately show "nat (grown B sz b to) = max (nat sz) (nat (b * B + frm) + length nb)"
    by (simp add: grown_def)
qed

text \<open>Into the cache.\<close>

lemma put_part:
  assumes part: "part_ok B sz b frm to nb" and ok: "file_ok B sz v disk"
    and cb: "cb_dirty cb" "cb_readable cb = min B (grown B sz b to - b * B) - 1"
    and data: "\<And>k. 0 \<le> k \<Longrightarrow> k \<le> cb_readable cb \<Longrightarrow> cb_data cb ! nat k =
      (if frm \<le> k \<and> k \<le> to then nb ! nat (k - frm)
       else file_byte B v (byte_at disk) (nat (b * B + k)))"
  shows "file_ok B (grown B sz b to) (v(b \<mapsto> cb)) disk"
    and "visible B (grown B sz b to) (v(b \<mapsto> cb)) disk =
      file_write (visible B sz v disk) (b * B + frm) nb"
proof -
  have p: "0 < B" "0 \<le> b" "0 \<le> frm" "frm \<le> to" "to < B" "b * B + frm \<le> sz"
    "int (length nb) = to - frm + 1"
    using part by (simp_all add: part_ok_def)
  note q = part_bounds [OF part] and o = part_other_block [OF part]
  show "file_ok B (grown B sz b to) (v(b \<mapsto> cb)) disk"
    unfolding file_ok_def
  proof (intro conjI allI impI)
    show "int (length disk) \<le> grown B sz b to" using file_okD(1) [OF ok] q(4) by linarith
  next
    fix b' cb' assume "(v(b \<mapsto> cb)) b' = Some cb'"
    then show "cached_block_ok B (grown B sz b to) disk b' cb'"
      using file_okD(3) [OF ok, of b' cb'] o [of b'] p(2) q(3) cb
      by (auto simp: cached_block_ok_def split: if_splits)
  next
    fix b' assume "0 \<le> b'" "b' * B < grown B sz b to" "(v(b \<mapsto> cb)) b' = None"
    then show "min (grown B sz b to) (b' * B + B) \<le> int (length disk)"
      using file_okD(4) [OF ok, of b'] o [of b'] by (auto split: if_splits)
  qed
  define off where "off = nat (b * B + frm)"
  have off: "int off = b * B + frm" using p(3) q(1) by (simp add: off_def)
  have "visible B (grown B sz b to) (v(b \<mapsto> cb)) disk = file_write (visible B sz v disk) (int off) nb"
  proof (rule file_write_eqI)
    fix j assume "j < length (visible B (grown B sz b to) (v(b \<mapsto> cb)) disk)"
    then have jn: "j < nat (grown B sz b to)" and j: "int j < grown B sz b to" by simp_all
    have new: "off \<le> j \<and> j < off + length nb \<longleftrightarrow> b * B + frm \<le> int j \<and> int j \<le> b * B + to"
      using off p(7) by linarith
    show "byte_at (visible B (grown B sz b to) (v(b \<mapsto> cb)) disk) j =
      (if off \<le> j \<and> j < off + length nb then nb ! (j - off) else byte_at (visible B sz v disk) j)"
    proof (cases "b * B \<le> int j \<and> int j < b * B + B")
      case True
      have k: "0 \<le> int j - b * B" "int j - b * B \<le> cb_readable cb" "nat (b * B + (int j - b * B)) = j"
        using True j cb(2) by auto
      have idx: "nat (int j - b * B - frm) = j - off" if "off \<le> j" using that off by linarith
      have val: "byte_at (visible B (grown B sz b to) (v(b \<mapsto> cb)) disk) j = cb_data cb ! nat (int j - b * B)"
        using True jn k(2) by (simp add: byte_at_visible file_byte_upd p(1))
      show ?thesis
      proof (cases "off \<le> j \<and> j < off + length nb")
        case True
        then have "frm \<le> int j - b * B \<and> int j - b * B \<le> to" using new by auto
        then show ?thesis using True val data [OF k(1,2)] idx by simp
      next
        case False
        then have old: "\<not> (frm \<le> int j - b * B \<and> int j - b * B \<le> to)" using new by auto
        then have "int j < sz" using j p(6) by (auto simp: grown_def max_def split: if_splits)
        then have "j < nat sz" by simp
        then have "byte_at (visible B sz v disk) j = file_byte B v (byte_at disk) j"
          by (simp add: byte_at_visible)
        then show ?thesis using False val data [OF k(1,2)] old k(3) by (simp only: if_False)
      qed
    next
      case False
      then have out: "\<not> (off \<le> j \<and> j < off + length nb)" using new p(3,5) by auto
      have "int j < sz" using False j p by (auto simp: grown_def max_def split: if_splits)
      then have "j < nat sz" by simp
      then show ?thesis
        using jn unfolding byte_at_visible file_byte_upd [OF p(1)] if_not_P [OF False] if_not_P [OF out]
        by simp
    qed
  qed (use q(2,7) in \<open>simp_all add: off_def\<close>)
  then show "visible B (grown B sz b to) (v(b \<mapsto> cb)) disk =
      file_write (visible B sz v disk) (b * B + frm) nb"
    by (simp add: off)
qed


text \<open>Past the cache, straight to the host, possibly with bytes of the file before or after it.\<close>

definition direct_write :: "int \<Rightarrow> int \<Rightarrow> int \<Rightarrow> int \<Rightarrow> int \<Rightarrow> byte list \<Rightarrow> (int \<Rightarrow> cblock option) \<Rightarrow>
    byte list \<Rightarrow> int \<Rightarrow> byte list \<Rightarrow> bool" where
  "direct_write B sz b frm to nb v disk cf buf \<longleftrightarrow>
    part_ok B sz b frm to nb \<and> file_ok B sz v disk \<and> v b = None \<and>
    0 \<le> cf \<and> cf \<le> frm \<and> to < cf + int (length buf) \<and> cf + int (length buf) \<le> B \<and>
    b * B + cf + int (length buf) \<le> grown B sz b to \<and>
    (\<forall>k < length buf. buf ! k =
      (if frm \<le> cf + int k \<and> cf + int k \<le> to then nb ! nat (cf + int k - frm)
       else byte_at disk (nat (b * B + cf + int k))))"

lemma direct_writeD:
  assumes "direct_write B sz b frm to nb v disk cf buf"
  shows "part_ok B sz b frm to nb" and "file_ok B sz v disk" and "v b = None"
    and "0 \<le> cf" and "cf \<le> frm" and "to < cf + int (length buf)" and "cf + int (length buf) \<le> B"
    and "b * B + cf + int (length buf) \<le> grown B sz b to"
    and "\<And>k. k < length buf \<Longrightarrow> buf ! k =
      (if frm \<le> cf + int k \<and> cf + int k \<le> to then nb ! nat (cf + int k - frm)
       else byte_at disk (nat (b * B + cf + int k)))"
    and "0 < B" and "0 \<le> b" and "0 \<le> frm" and "frm \<le> to" and "to < B" and "b * B + frm \<le> sz"
    and "int (length nb) = to - frm + 1" and "buf \<noteq> []"
  using assms unfolding direct_write_def part_ok_def by auto

text \<open>Where the bytes are laid, and what the disk holds after it.\<close>

lemma direct_bytes:
  assumes D: "direct_write B sz b frm to nb v disk cf buf"
  defines "disk' \<equiv> file_write disk (b * B + cf) buf" and "o' \<equiv> nat (b * B + cf)"
  shows "int o' = b * B + cf"
    and "length disk' = max (length disk) (o' + length buf)"
    and "byte_at disk' j = (if o' \<le> j \<and> j < o' + length buf then buf ! (j - o') else byte_at disk j)"
  using part_bounds(1) [OF direct_writeD(1) [OF D]] direct_writeD(4,17) [OF D]
  by (simp_all add: disk'_def o'_def file_write_length byte_at_file_write)

lemma direct_other:
  assumes D: "direct_write B sz b frm to nb v disk cf buf" and out: "\<not> (b * B \<le> int j \<and> int j < b * B + B)"
  shows "byte_at (file_write disk (b * B + cf) buf) j = byte_at disk j"
proof -
  have "\<not> (nat (b * B + cf) \<le> j \<and> j < nat (b * B + cf) + length buf)"
    using out direct_bytes(1) [OF D] direct_writeD(4,7) [OF D] by linarith
  then show ?thesis unfolding direct_bytes(3) [OF D] by (rule if_not_P)
qed

lemma direct_other_block:
  assumes D: "direct_write B sz b frm to nb v disk cf buf"
    and b': "b' \<noteq> b" "0 \<le> b'" and k: "0 \<le> k" "k < B"
  shows "byte_at (file_write disk (b * B + cf) buf) (nat (b' * B + k)) = byte_at disk (nat (b' * B + k))"
proof (rule direct_other [OF D])
  note p = direct_writeD(10-16) [OF D]
  have "0 \<le> b' * B" using b'(2) p(1) by simp
  then have "int (nat (b' * B + k)) = b' * B + k" using k by simp
  then show "\<not> (b * B \<le> int (nat (b' * B + k)) \<and> int (nat (b' * B + k)) < b * B + B)"
    using block_before [OF p(1), of b' b] block_before [OF p(1), of b b'] b'(1) k by fastforce
qed

lemma direct_torn:
  assumes D: "direct_write B sz b frm to nb v disk cf buf"
  defines "disk' \<equiv> file_write disk (b * B + cf) buf"
  shows "torn (b * B + frm) nb disk disk'"
proof -
  note part = direct_writeD(1) [OF D] and ok = direct_writeD(2) [OF D] and none = direct_writeD(3) [OF D]
    and cf = direct_writeD(4-8) [OF D] and data = direct_writeD(9) [OF D] and p = direct_writeD(10-16) [OF D]
  note q = part_bounds [OF part] and o = part_other_block [OF part]
  define o' where "o' = nat (b * B + cf)"
  note o' = direct_bytes(1) [OF D, folded o'_def] and len = direct_bytes(2) [OF D, folded o'_def disk'_def]
    and new = direct_bytes(3) [OF D, folded o'_def disk'_def]
    and other = direct_other [OF D, folded disk'_def] and other_block = direct_other_block [OF D, folded disk'_def]
  show ?thesis
    unfolding torn_def
  proof (intro conjI allI)
    fix j
    have bB: "0 \<le> b * B" by (rule q(1))
    show "byte_at disk' j = byte_at disk j \<or> (nat (b * B + frm) \<le> j \<and>
        j < nat (b * B + frm) + length nb \<and> byte_at disk' j = nb ! (j - nat (b * B + frm)))"
    proof (cases "o' \<le> j \<and> j < o' + length buf")
      case True
      then have k: "j - o' < length buf" by auto
      have pos: "cf + int (j - o') = int j - b * B" using True o' by auto
      have off: "int (nat (b * B + frm)) = b * B + frm" using p(3) bB by simp
      show ?thesis
      proof (cases "frm \<le> int j - b * B \<and> int j - b * B \<le> to")
        case in_new: True
        have "nat (b * B + frm) \<le> j \<and> j < nat (b * B + frm) + length nb" using in_new off p(7) by linarith
        moreover have "nat (int j - b * B - frm) = j - nat (b * B + frm)" using in_new off by linarith
        ultimately show ?thesis
          using data [OF k, unfolded pos] in_new True by (simp add: new del: of_nat_diff)
      next
        case False
        have "nat (b * B + cf + int (j - o')) = j" using pos by linarith
        then show ?thesis using data [OF k] True unfolding pos if_not_P [OF False] by (simp add: new)
      qed
    next
      case False
      then show ?thesis unfolding new [of j] if_not_P [OF False] by simp
    qed
  qed (simp add: len)
qed

lemma direct_file_ok:
  assumes D: "direct_write B sz b frm to nb v disk cf buf"
  defines "disk' \<equiv> file_write disk (b * B + cf) buf"
  shows "file_ok B (grown B sz b to) v disk'"
proof -
  note part = direct_writeD(1) [OF D] and ok = direct_writeD(2) [OF D] and none = direct_writeD(3) [OF D]
    and cf = direct_writeD(4-8) [OF D] and data = direct_writeD(9) [OF D] and p = direct_writeD(10-16) [OF D]
  note q = part_bounds [OF part] and o = part_other_block [OF part]
  define o' where "o' = nat (b * B + cf)"
  note o' = direct_bytes(1) [OF D, folded o'_def] and len = direct_bytes(2) [OF D, folded o'_def disk'_def]
    and new = direct_bytes(3) [OF D, folded o'_def disk'_def]
    and other = direct_other [OF D, folded disk'_def] and other_block = direct_other_block [OF D, folded disk'_def]
  show ?thesis
    unfolding file_ok_def
  proof (intro conjI allI impI)
    show "int (length disk') \<le> grown B sz b to"
      using file_okD(1) [OF ok] q(4) cf(5) o' by (simp add: len)
  next
    fix b' cb' assume b': "v b' = Some cb'"
    then have ne: "b' \<noteq> b" using none by auto
    note old = file_okD(3) [OF ok b', unfolded cached_block_ok_def]
    have "byte_at disk' (nat (b' * B + k)) = byte_at disk (nat (b' * B + k))"
      if "0 \<le> k" "k \<le> cb_readable cb'" for k
      using old that by (intro other_block [OF ne]) auto
    then show "cached_block_ok B (grown B sz b to) disk' b' cb'"
      using old o [OF ne] by (auto simp: cached_block_ok_def)
  next
    fix b' assume b': "0 \<le> b'" "b' * B < grown B sz b to" "v b' = None"
    show "min (grown B sz b to) (b' * B + B) \<le> int (length disk')"
    proof (cases "b' = b")
      case True
      have "b * B + to + 1 \<le> int (length disk')" using cf(3) o' by (simp add: len)
      moreover have "b * B < sz \<Longrightarrow> min sz (b * B + B) \<le> int (length disk')"
        using file_okD(4) [OF ok b'(1)] none True by (simp add: len)
      ultimately show ?thesis using True p by (auto simp: grown_def max_def min_def)
    next
      case False
      then have "min sz (b' * B + B) \<le> int (length disk)"
        using file_okD(4) [OF ok b'(1) _ b'(3)] b'(2) o(1) [OF False] by simp
      then show ?thesis using o(1,3) [OF False] b'(2) by (simp add: len)
    qed
  qed
qed

lemma direct_file_byte:
  assumes D: "direct_write B sz b frm to nb v disk cf buf"
  defines "disk' \<equiv> file_write disk (b * B + cf) buf"
  shows "file_byte B v (byte_at disk') j = (if b * B \<le> int j \<and> int j < b * B + B
      then byte_at disk' j else file_byte B v (byte_at disk) j)"
proof (cases "b * B \<le> int j \<and> int j < b * B + B")
  case True
  then show ?thesis using file_byte_in [OF direct_writeD(10) [OF D], of b j] direct_writeD(3) [OF D] by simp
next
  case False
  then show ?thesis unfolding if_not_P [OF False] using direct_other [OF D False, folded disk'_def]
    by (simp add: file_byte_def split: option.split)
qed

lemma direct_byte:
  assumes D: "direct_write B sz b frm to nb v disk cf buf"
  defines "disk' \<equiv> file_write disk (b * B + cf) buf"
  shows "byte_at disk' j = (if nat (b * B + frm) \<le> j \<and> j < nat (b * B + frm) + length nb
      then nb ! (j - nat (b * B + frm)) else byte_at disk j)"
proof -
  note part = direct_writeD(1) [OF D] and ok = direct_writeD(2) [OF D] and none = direct_writeD(3) [OF D]
    and cf = direct_writeD(4-8) [OF D] and data = direct_writeD(9) [OF D] and p = direct_writeD(10-16) [OF D]
  note q = part_bounds [OF part] and o = part_other_block [OF part]
  define o' where "o' = nat (b * B + cf)"
  note o' = direct_bytes(1) [OF D, folded o'_def] and len = direct_bytes(2) [OF D, folded o'_def disk'_def]
    and new = direct_bytes(3) [OF D, folded o'_def disk'_def]
    and other = direct_other [OF D, folded disk'_def] and other_block = direct_other_block [OF D, folded disk'_def]
  define off where "off = nat (b * B + frm)"
  have off: "int off = b * B + frm" using p(3) q(1) by (simp add: off_def)
  have range: "off \<le> j \<and> j < off + length nb \<longleftrightarrow> b * B + frm \<le> int j \<and> int j \<le> b * B + to"
    using off p(7) by linarith
  have "byte_at disk' j = (if off \<le> j \<and> j < off + length nb then nb ! (j - off) else byte_at disk j)"
  proof (cases "o' \<le> j \<and> j < o' + length buf")
    case True
    then have k: "j - o' < length buf" "cf + int (j - o') = int j - b * B" using o' by auto
    have "nat (int j - b * B - frm) = j - off" if "off \<le> j" using that off by linarith
    moreover have "nat (b * B + cf + int (j - o')) = j" using k(2) by linarith
    moreover have "frm \<le> int j - b * B \<and> int j - b * B \<le> to \<longleftrightarrow> off \<le> j \<and> j < off + length nb"
      using range by auto
    ultimately show ?thesis using True new [of j] data [OF k(1)] unfolding k(2) by auto
  next
    case False
    then have "\<not> (off \<le> j \<and> j < off + length nb)" using range o' cf by auto
    then show ?thesis unfolding new [of j] if_not_P [OF False] by argo
  qed
  then show ?thesis by (simp add: off_def)
qed

lemma direct_visible:
  assumes D: "direct_write B sz b frm to nb v disk cf buf"
  defines "disk' \<equiv> file_write disk (b * B + cf) buf"
  shows "visible B (grown B sz b to) v disk' = file_write (visible B sz v disk) (b * B + frm) nb"
proof -
  note part = direct_writeD(1) [OF D] and ok = direct_writeD(2) [OF D] and none = direct_writeD(3) [OF D]
    and cf = direct_writeD(4-8) [OF D] and data = direct_writeD(9) [OF D] and p = direct_writeD(10-16) [OF D]
  note q = part_bounds [OF part] and o = part_other_block [OF part]
  define o' where "o' = nat (b * B + cf)"
  note o' = direct_bytes(1) [OF D, folded o'_def] and len = direct_bytes(2) [OF D, folded o'_def disk'_def]
    and new = direct_bytes(3) [OF D, folded o'_def disk'_def]
    and other = direct_other [OF D, folded disk'_def] and other_block = direct_other_block [OF D, folded disk'_def]
  define off where "off = nat (b * B + frm)"
  have off: "int off = b * B + frm" using p(3) q(1) by (simp add: off_def)
  have "visible B (grown B sz b to) v disk' = file_write (visible B sz v disk) (int off) nb"
  proof (rule file_write_eqI)
    fix j assume "j < length (visible B (grown B sz b to) v disk')"
    then have jn: "j < nat (grown B sz b to)" and j: "int j < grown B sz b to" by simp_all
    have range: "off \<le> j \<and> j < off + length nb \<longleftrightarrow> b * B + frm \<le> int j \<and> int j \<le> b * B + to"
      using off p(7) by linarith
    show "byte_at (visible B (grown B sz b to) v disk') j =
      (if off \<le> j \<and> j < off + length nb then nb ! (j - off) else byte_at (visible B sz v disk) j)"
    proof (cases "b * B \<le> int j \<and> int j < b * B + B")
      case True
      have old: "file_byte B v (byte_at disk) j = byte_at disk j"
        using True file_byte_in [OF p(1), of b j] none by simp
      have val: "byte_at (visible B (grown B sz b to) v disk') j = byte_at disk' j"
        using True jn by (simp add: byte_at_visible direct_file_byte [OF D, folded disk'_def])
      have past: "byte_at disk j = 0" if "\<not> j < nat sz"
      proof -
        have "length disk \<le> nat sz" using file_okD(1) [OF ok] by linarith
        then show ?thesis using that by (simp add: byte_at_def)
      qed
      show ?thesis using val direct_byte [OF D, folded disk'_def off_def, of j] old past by (auto simp: byte_at_visible)
    next
      case False
      then have out: "\<not> (off \<le> j \<and> j < off + length nb)" using range p(3,5) by auto
      have "int j < sz" using False j p by (auto simp: grown_def max_def split: if_splits)
      then have "j < nat sz" by simp
      then show ?thesis
        using jn unfolding byte_at_visible direct_file_byte [OF D, folded disk'_def] if_not_P [OF False] if_not_P [OF out] by simp
    qed
  qed (use q(2,7) in \<open>simp_all add: off_def\<close>)
  then show "visible B (grown B sz b to) v disk' = file_write (visible B sz v disk) (b * B + frm) nb"
    by (simp add: off)
qed

lemma direct_part:
  assumes part: "part_ok B sz b frm to nb" and ok: "file_ok B sz v disk" and none: "v b = None"
    and cf: "0 \<le> cf" "cf \<le> frm" "to < cf + int (length buf)" "cf + int (length buf) \<le> B"
      "b * B + cf + int (length buf) \<le> grown B sz b to"
    and data: "\<And>k. k < length buf \<Longrightarrow> buf ! k =
      (if frm \<le> cf + int k \<and> cf + int k \<le> to then nb ! nat (cf + int k - frm)
       else byte_at disk (nat (b * B + cf + int k)))"
  defines "disk' \<equiv> file_write disk (b * B + cf) buf"
  shows "torn (b * B + frm) nb disk disk'"
    and "file_ok B (grown B sz b to) v disk'"
    and "visible B (grown B sz b to) v disk' = file_write (visible B sz v disk) (b * B + frm) nb"
proof -
  have D: "direct_write B sz b frm to nb v disk cf buf"
    unfolding direct_write_def using part ok none cf data by blast
  show "torn (b * B + frm) nb disk disk'" unfolding disk'_def by (rule direct_torn [OF D])
  show "file_ok B (grown B sz b to) v disk'" unfolding disk'_def by (rule direct_file_ok [OF D])
  show "visible B (grown B sz b to) v disk' = file_write (visible B sz v disk) (b * B + frm) nb"
    unfolding disk'_def by (rule direct_visible [OF D])
qed

section \<open>Writing back\<close>

lemma file_byte_below:
  assumes "0 < B" and "file_ok B sz v disk" and "int j < sz"
  shows "file_byte B v (byte_at disk) j =
    (case v (int j div B) of None \<Rightarrow> byte_at disk j | Some cb \<Rightarrow> cb_data cb ! nat (int j mod B))"
proof (cases "v (int j div B)")
  case (Some cb)
  then have "cb_readable cb = min B (sz - int j div B * B) - 1"
    using file_okD(3) [OF assms(2)] by (simp add: cached_block_ok_def)
  moreover have "int j mod B = int j - int j div B * B" by (simp add: minus_div_mult_eq_mod)
  ultimately have "int j mod B \<le> cb_readable cb"
    using assms(1,3) pos_mod_bound [OF assms(1), of "int j"] by (simp add: min_def)
  then show ?thesis using Some by (simp add: file_byte_def)
qed (simp add: file_byte_def)

lemma synced_is_visible:
  assumes B: "0 < B" and ok: "file_ok B sz v disk"
  shows "synced_file B v sz disk = visible B sz v disk"
proof -
  have "file_byte B (dirty_blocks v) (byte_at disk) j = file_byte B v (byte_at disk) j" for j
  proof (cases "v (int j div B)")
    case None
    then show ?thesis by (simp add: file_byte_def dirty_blocks_def)
  next
    case (Some cb)
    note c = file_okD(3) [OF ok Some, unfolded cached_block_ok_def]
    have k: "0 \<le> int j mod B" "int j div B * B + int j mod B = int j" using B by simp_all
    show ?thesis
    proof (cases "cb_dirty cb \<or> cb_readable cb < int j mod B")
      case True
      then show ?thesis using Some by (auto simp: file_byte_def dirty_blocks_def)
    next
      case False
      then have "cb_data cb ! nat (int j mod B) = byte_at disk (nat (int j div B * B + int j mod B))"
        using c k(1) by (meson not_less)
      then have "cb_data cb ! nat (int j mod B) = byte_at disk j" unfolding k(2) by simp
      then show ?thesis using Some False by (simp add: file_byte_def dirty_blocks_def)
    qed
  qed
  then show ?thesis by (simp add: synced_file_def visible_def)
qed

lemma synced_file_ok:
  assumes B: "0 < B" and ok: "file_ok B sz v disk"
  defines "v' \<equiv> \<lambda>b. map_option clean_block (v b)"
  shows "file_ok B sz v' (visible B sz v disk)"
    and "visible B sz v' (visible B sz v disk) = visible B sz v disk"
proof -
  have eq: "byte_at (visible B sz v disk) (nat (b * B + k)) = cb_data cb ! nat k"
    if "v b = Some cb" "0 \<le> b" "0 \<le> k" "k \<le> cb_readable cb" "cb_readable cb = min B (sz - b * B) - 1"
    for b k cb
  proof -
    have "0 \<le> b * B" using that(2) B by simp
    then have j: "int (nat (b * B + k)) = b * B + k" using that(3) by simp
    have "k < B" "nat (b * B + k) < nat sz" using that(4,5) j by linarith+
    then show ?thesis
      using that(1,3,4) j by (simp add: byte_at_visible file_byte_in [OF B, of b])
  qed
  show "file_ok B sz v' (visible B sz v disk)"
    using file_okD [OF ok] eq by (fastforce simp: file_ok_def v'_def cached_block_ok_def)
  show "visible B sz v' (visible B sz v disk) = visible B sz v disk"
  proof (rule byte_list_eqI)
    fix j assume "j < length (visible B sz v' (visible B sz v disk))"
    then have j: "j < nat sz" "int j < sz" by simp_all
    show "byte_at (visible B sz v' (visible B sz v disk)) j = byte_at (visible B sz v disk) j"
      using j by (simp add: byte_at_visible file_byte_def v'_def split: option.split)
  qed simp
qed

lemma file_ok_shaped:
  assumes "file_ok (IO_BLOCK_SIZE c) sz v disk" and "0 < IO_BLOCK_SIZE c"
  shows "blocks_shaped c v" and "runs_full c v {b. dirty_blocks v b \<noteq> None}"
proof -
  show "blocks_shaped c v"
    using file_okD(3) [OF assms(1)] assms(2) by (fastforce simp: blocks_shaped_def cached_block_ok_def)
  show "runs_full c v {b. dirty_blocks v b \<noteq> None}"
  proof -
    have "cb_readable cb = IO_BLOCK_SIZE c - 1" if "v b = Some cb" "v (b + 1) = Some cb'" for b cb cb'
      using file_okD(3) [OF assms(1) that(1)] file_okD(3) [OF assms(1) that(2)]
      by (simp add: cached_block_ok_def distrib_right)
    then show ?thesis by (fastforce simp: runs_full_def dirty_blocks_def split: option.splits if_splits)
  qed
qed

end
