(* ===== verification/Fs_Files.thy ===== *)
theory Fs_Files
  imports Handlers Cache_Theorems Files
begin

text \<open>
  The files of a mounted file system: the invariant that ties the item of a file, its cached
  blocks and the host's copy together, what a reader sees of a file, and the attributes. All of
  it is stated for the custom engine with one block per page and for a path no registered fault
  concerns; the handlers for writing, reading and synchronising build on it.
\<close>


section \<open>Paths without faults\<close>

text \<open>
  No registered fault concerns a path: there is none in the table of faults, and no crash fault
  matches it.
\<close>

definition no_crash_for :: "('e, 'd) env \<Rightarrow> string \<Rightarrow> crash_faults \<Rightarrow> bool" where
  "no_crash_for ev path m \<longleftrightarrow>
     (\<forall>op \<in> set allow_crash_fs_operations. \<exists>l. fmlookup m op = Some l \<and>
        (\<forall>f \<in> set l. crash_fault_matches ev op path '''' f = Inr False))"

definition calm :: "('e, 'd) env \<Rightarrow> string \<Rightarrow> ('e, 'd) world \<Rightarrow> bool" where
  "calm ev path w \<longleftrightarrow> fmlookup (ffaults w) path = None \<and>
     no_crash_for ev path (crash_faults_before_map w) \<and>
     no_crash_for ev path (crash_faults_after_map w)"

lemma calm_updates [simp]:
  "calm ev path (w\<lparr>FSCache := C\<rparr>) = calm ev path w" "calm ev path (w\<lparr>host_state := d\<rparr>) = calm ev path w"
  "calm ev path (w\<lparr>shared_locks := n\<rparr>) = calm ev path w"
  "calm ev path (w\<lparr>pending_write := p\<rparr>) = calm ev path w"
  "calm ev path (w\<lparr>injecting_fault := l\<rparr>) = calm ev path w"
  by (simp_all add: calm_def)

lemma no_crash_skip:
  assumes "\<forall>f \<in> set l. crash_fault_matches ev op path to f = Inr False"
  shows "foldE (\<lambda>it w. bnd (lift (crash_fault_matches ev op path to it)) (\<lambda>matched.
            if matched
            then bnd (command_unsynced_data_report ev (injecting_fault w) w) (\<lambda>_.
                 Inl (SelfKill (host_state w)))
            else Inr w)) l w = Inr w"
  using assms by (induction l) auto

lemma triggers_calm:
  assumes "calm ev path w" and "op \<in> set allow_crash_fs_operations"
  shows "triggers ev op timing path '''' w = Inr ((), w)"
proof -
  have "no_crash_for ev path (if timing = ''before'' then crash_faults_before_map w
      else crash_faults_after_map w)"
    using assms(1) by (simp add: calm_def)
  then obtain l where l: "fmlookup (if timing = ''before'' then crash_faults_before_map w
      else crash_faults_after_map w) op = Some l"
    "\<forall>f \<in> set l. crash_fault_matches ev op path '''' f = Inr False"
    using assms(2) unfolding no_crash_for_def by blast
  have "trigger_crash_fault ev op timing path '''' w = Inr ((), w)"
    using no_crash_skip [OF l(2), of w] by (simp add: trigger_crash_fault_def fmat_Some [OF l(1)])
  then show ?thesis
    using assms(1) by (simp add: triggers_def trigger_configured_clear_fault_def calm_def)
qed

lemma fault_ops [simp]:
  "''write'' \<in> set allow_crash_fs_operations" "''read'' \<in> set allow_crash_fs_operations"
  "''fsync'' \<in> set allow_crash_fs_operations" "''truncate'' \<in> set allow_crash_fs_operations"
  "''open'' \<in> set allow_crash_fs_operations" "''create'' \<in> set allow_crash_fs_operations"
  by (simp_all add: allow_crash_fs_operations_def)

lemma write_faults_calm:
  "calm ev path w \<Longrightarrow> write_faults ev path buf sz offset w = Inr (False, w)"
  by (simp add: write_faults_def persist_write_def get_and_update_reorder_fault_def split_write_def calm_def)

section \<open>Files in a world\<close>

definition mounted :: "(engine, 'd) env \<Rightarrow> 'd view \<Rightarrow> bool" where
  "mounted ev hv \<longleftrightarrow> eengine ev = custom_cache_engine (eos ev) (FSConfig ev) \<and>
     host_laws (eos ev) hv \<and> single_block (FSConfig ev)"

text \<open>The table of names agrees with the host on the paths the host has.\<close>

definition names_ok :: "'d view \<Rightarrow> engine cache \<Rightarrow> 'd \<Rightarrow> bool" where
  "names_ok hv C d \<longleftrightarrow>
     (\<forall>p i s. path_ino hv d p = Some i \<longrightarrow> fmlookup (file_inode_mapping C) p = Some s \<longrightarrow>
        s = to_string i)"

text \<open>
  All files, given the size of each: during a write the size of the written file runs ahead of
  the one its item records.
\<close>

definition files_at :: "config \<Rightarrow> 'd view \<Rightarrow> (int \<Rightarrow> int) \<Rightarrow> engine cache \<Rightarrow> 'd \<Rightarrow> bool" where
  "files_at c hv sz C d \<longleftrightarrow> cache_ok c C \<and> names_ok hv C d \<and>
     (\<forall>i. file_ok (IO_BLOCK_SIZE c) (sz i) (blocks_of C (to_string i)) (content hv d i))"

definition seen_at :: "config \<Rightarrow> 'd view \<Rightarrow> (int \<Rightarrow> int) \<Rightarrow> engine cache \<Rightarrow> 'd \<Rightarrow> int \<Rightarrow> byte list" where
  "seen_at c hv sz C d i = visible (IO_BLOCK_SIZE c) (sz i) (blocks_of C (to_string i)) (content hv d i)"

definition file_size :: "'d view \<Rightarrow> engine cache \<Rightarrow> 'd \<Rightarrow> int \<Rightarrow> int" where
  "file_size hv C d i =
     (case fmlookup (contents C) (to_string i) of
        None \<Rightarrow> int (length (content hv d i))
      | Some it \<Rightarrow> meta_size (imetadata it))"

abbreviation files_ok :: "config \<Rightarrow> 'd view \<Rightarrow> engine cache \<Rightarrow> 'd \<Rightarrow> bool" where
  "files_ok c hv C d \<equiv> files_at c hv (file_size hv C d) C d"

abbreviation seen :: "config \<Rightarrow> 'd view \<Rightarrow> engine cache \<Rightarrow> 'd \<Rightarrow> int \<Rightarrow> byte list" where
  "seen c hv C d \<equiv> seen_at c hv (file_size hv C d) C d"

lemma nat_string_head: "hd (nat_string n) \<noteq> CHR ''-''"
proof -
  have "is_digit (hd (nat_string n))" by (rule nat_string_digits [of _ n]) simp
  then show ?thesis using is_digit_not(2) by blast
qed

lemma to_string_eq [simp]: "to_string i = to_string j \<longleftrightarrow> i = j"
proof
  assume eq: "to_string i = to_string j"
  show "i = j"
  proof (cases "0 \<le> i \<longleftrightarrow> 0 \<le> j")
    case same: True
    show ?thesis
    proof (cases "0 \<le> i")
      case True
      then show ?thesis using same eq to_string_inj by blast
    next
      case False
      then have "nat_string (nat (- i)) = nat_string (nat (- j))"
        using same eq by (simp add: to_string_def)
      then have "digits_value (nat_string (nat (- i))) = digits_value (nat_string (nat (- j)))"
        by (rule arg_cong)
      then show ?thesis using False same by (simp add: digits_value_nat_string)
    qed
  next
    case False
    then have "hd (to_string i) \<noteq> hd (to_string j)"
      using nat_string_head [of "nat i"] nat_string_head [of "nat j"] by (auto simp: to_string_def)
    then show ?thesis using eq by simp
  qed
qed simp

lemma to_string_not_none [simp]: "to_string i \<noteq> ''none''"
proof -
  have "digits \<noteq> ''none''" if "\<forall>ch \<in> set digits. is_digit ch" for digits :: string
    using that by (auto simp: is_digit_def)
  then show ?thesis
    using nat_string_digits by (auto simp: to_string_def)
qed

lemma files_atD:
  assumes "files_at c hv sz C d"
  shows "cache_ok c C" "cache_inv (engine_ok c) cblocks C" "names_ok hv C d"
    "file_ok (IO_BLOCK_SIZE c) (sz i) (blocks_of C (to_string i)) (content hv d i)"
  using assms by (auto simp: files_at_def cache_ok_def)

text \<open>A step that touches one file.\<close>

lemma files_at_step:
  assumes "files_at c hv sz C d" and "cache_ok c C'"
    and "file_inode_mapping C' = file_inode_mapping C" and "path_ino hv d' = path_ino hv d"
    and "content hv d' = (content hv d)(i := disk')" and "blocks_of C' = (blocks_of C)(to_string i := v')"
    and "file_ok (IO_BLOCK_SIZE c) s v' disk'"
  shows "files_at c hv (sz(i := s)) C' d'"
    and "seen_at c hv (sz(i := s)) C' d' = (seen_at c hv sz C d)(i := visible (IO_BLOCK_SIZE c) s v' disk')"
proof -
  have b: "blocks_of C' (to_string j) = (if j = i then v' else blocks_of C (to_string j))"
    and k: "content hv d' j = (if j = i then disk' else content hv d j)" for j
    by (simp_all add: assms(5,6))
  show "files_at c hv (sz(i := s)) C' d'"
    using assms(1-4,7) by (auto simp: files_at_def names_ok_def b k)
  show "seen_at c hv (sz(i := s)) C' d' = (seen_at c hv sz C d)(i := visible (IO_BLOCK_SIZE c) s v' disk')"
    by (rule ext) (simp add: seen_at_def b k)
qed

lemma file_size_with_item:
  assumes "content hv d' = content hv d"
  shows "file_size hv (with_item (to_string i) it e C) d' = (file_size hv C d)(i := meta_size (imetadata it))"
  unfolding file_size_def assms by (simp add: fun_eq_iff)

text \<open>Replacing the item of a file without changing its size.\<close>

lemma blocks_of_with_item [simp]: "blocks_of (with_item cid it e C) = cblocks e"
  by (simp add: blocks_of_def)

lemma cblocks_cengine: "cblocks (cengine C) = blocks_of C"
  by (simp add: blocks_of_def)

lemma files_at_item:
  assumes "files_at c hv sz C d" and "cache_ok c (with_item cid it e C)" and "cblocks e = blocks_of C"
  shows "files_at c hv sz (with_item cid it e C) d"
    and "seen_at c hv sz (with_item cid it e C) d = seen_at c hv sz C d"
  using assms by (auto simp: files_at_def names_ok_def seen_at_def)

lemma files_at_name:
  assumes "files_at c hv sz C d" and "path_ino hv d path = Some i"
  shows "files_at c hv sz (insert_inode_mapping path (to_string i) False C) d"
    and "seen_at c hv sz (insert_inode_mapping path (to_string i) False C) d = seen_at c hv sz C d"
proof -
  have "cache_ok c (insert_inode_mapping path (to_string i) False C)"
    using insert_inode_mapping_inv [OF files_atD(2) [OF assms(1)]] by (simp add: cache_ok_def)
  then show "files_at c hv sz (insert_inode_mapping path (to_string i) False C) d"
    and "seen_at c hv sz (insert_inode_mapping path (to_string i) False C) d = seen_at c hv sz C d"
    using assms by (auto simp: files_at_def names_ok_def seen_at_def insert_inode_mapping_def blocks_of_def)
qed

text \<open>The blocks in the cache, of all files.\<close>

definition cached :: "engine cache \<Rightarrow> (string \<times> int) set" where
  "cached C = {(cid, b). blocks_of C cid b \<noteq> None}"

lemma cached_cong: "blocks_of C' = blocks_of C \<Longrightarrow> cached C' = cached C"
  by (simp add: cached_def)

lemma cached_cengine: "cengine C' = cengine C \<Longrightarrow> cached C' = cached C"
  by (simp add: cached_def blocks_of_def)

lemma cached_room:
  assumes "files_at c hv sz C d"
  shows "finite (cached C)" and "nfree (cengine C) + card (cached C) = nat (CACHE_NR_PAGES c)"
proof -
  have "eng_inv c (cengine C)"
    using cache_invD(1) [OF files_atD(2) [OF assms]] by (simp add: engine_ok_def)
  from pages_in_use [OF this] show "finite (cached C)" "nfree (cengine C) + card (cached C) = nat (CACHE_NR_PAGES c)"
    by (simp_all add: cached_def blocks_of_def)
qed

section \<open>Attributes\<close>

lemma put_nothing_world:
  assumes "mounted ev hv" and "cache_ok (FSConfig ev) (FSCache w)"
  shows "fs_put_data_blocks ev cid fmempty op w =
    Inr (fmempty, w\<lparr>FSCache := with_item cid (item_or_new (FSCache w) cid) (cengine (FSCache w)) (FSCache w)\<rparr>)"
proof -
  have e: "eengine ev = custom_cache_engine (eos ev) (FSConfig ev)" using assms(1) by (simp add: mounted_def)
  show ?thesis
    using custom.put_nothing [OF assms(2) [unfolded cache_ok_def],
        where op = op and d = "host_state w" and cid = cid and h = "eos ev"]
    by (cases w) (simp add: fs_put_data_blocks_def on_cache_host_def e)
qed

lemma locked_update_known:
  assumes "cache_ok c (FSCache w)" and "fmlookup (contents (FSCache w)) cid = Some it"
  shows "fs_locked_update cid meta vs w =
    Inr ((), w\<lparr>FSCache := with_item cid (update_metadata meta vs it) (cengine (FSCache w)) (FSCache w)\<rparr>)"
proof -
  have free: "locks_free (FSCache w)" using cache_invD(2) assms(1) by (simp add: cache_ok_def)
  show ?thesis
    by (simp add: fs_locked_update_def fs_lockItemCheckExists_def on_cache_def lock_known [OF free assms(2)]
        fs_update_metadata_def update_held fs_unlockItem_def)
qed

lemma lock_round_known:
  assumes "cache_ok c (FSCache w)" and "fmlookup (contents (FSCache w)) cid = Some it"
  shows "fs_lockItemCheckExists cid w =
      Inr (True, w\<lparr>FSCache := holding cid it (cengine (FSCache w)) (FSCache w)\<rparr>)"
    and "fs_unlockItem cid (w\<lparr>FSCache := holding cid it (cengine (FSCache w)) (FSCache w)\<rparr>) = Inr ((), w)"
proof -
  have free: "locks_free (FSCache w)" using cache_invD(2) assms(1) by (simp add: cache_ok_def)
  show "fs_lockItemCheckExists cid w =
      Inr (True, w\<lparr>FSCache := holding cid it (cengine (FSCache w)) (FSCache w)\<rparr>)"
    by (simp add: fs_lockItemCheckExists_def on_cache_def lock_known [OF free assms(2)])
  show "fs_unlockItem cid (w\<lparr>FSCache := holding cid it (cengine (FSCache w)) (FSCache w)\<rparr>) = Inr ((), w)"
    by (simp add: fs_unlockItem_def on_cache_def with_item_same [OF free assms(2)])
qed

lemma lock_unknown_world:
  "fmlookup (contents (FSCache w)) cid = None \<Longrightarrow> fs_lockItemCheckExists cid w = Inr (False, w)"
  by (simp add: fs_lockItemCheckExists_def on_cache_def lock_unknown)

lemma stat_update_size:
  "meta_size (imetadata (update_metadata (stat_metadata st)
     [''size'', ''atime'', ''ctime'', ''mtime'', ''nlinks''] it)) = st_size st"
  by (simp add: update_metadata_def update_field_def stat_metadata_def)

text \<open>The name a lookup leaves in the cache, and what the handler does with the item behind it.\<close>

definition with_name :: "string \<Rightarrow> int \<Rightarrow> 'e cache \<Rightarrow> 'e cache" where
  "with_name path i C = (if get_original_inode C path = [] then insert_inode_mapping path (to_string i) False C else C)"

definition getattr_item ::
  "('e, 'd) env \<Rightarrow> string \<Rightarrow> stat \<Rightarrow> ('e, 'd) world \<Rightarrow> ('e, 'd, int \<times> stat) outcome" where
  "getattr_item ev inode st w =
     bnd (fs_lockItemCheckExists inode w) (\<lambda>(locked, w).
        if \<not> locked then
          bnd (fs_put_data_blocks ev inode fmempty OP_PASSTHROUGH w) (\<lambda>(_, w).
          bnd (fs_locked_update inode (stat_metadata st)
                 [''size'', ''atime'', ''ctime'', ''mtime'', ''nlinks''] w) (\<lambda>(_, w).
          Inr ((0, st), w)))
        else
          (let stbuf = (case get_content_metadata (FSCache w) inode of
                          None \<Rightarrow> st | Some meta \<Rightarrow> cached_stat (FSConfig ev) meta st)
           in bnd (fs_unlockItem inode w) (\<lambda>(_, w). Inr ((0, stbuf), w))))"

lemma with_name_files:
  assumes ok: "files_ok c hv C d" and p: "path_ino hv d path = Some i"
  shows "files_ok c hv (with_name path i C) d" "seen c hv (with_name path i C) d = seen c hv C d"
    "file_size hv (with_name path i C) d = file_size hv C d"
    "cengine (with_name path i C) = cengine C" "contents (with_name path i C) = contents C"
    "get_original_inode (with_name path i C) path = to_string i"
    "get_original_inode C path \<noteq> [] \<Longrightarrow> get_original_inode C path = to_string i"
    "q \<noteq> path \<Longrightarrow> fmlookup (file_inode_mapping (with_name path i C)) q = fmlookup (file_inode_mapping C) q"
proof -
  show "q \<noteq> path \<Longrightarrow> fmlookup (file_inode_mapping (with_name path i C)) q = fmlookup (file_inode_mapping C) q"
    by (simp add: with_name_def insert_inode_mapping_def)
  show same: "cengine (with_name path i C) = cengine C" "contents (with_name path i C) = contents C"
    by (simp_all add: with_name_def insert_inode_mapping_def)
  show sz: "file_size hv (with_name path i C) d = file_size hv C d" by (rule ext) (simp add: file_size_def same)
  show "files_ok c hv (with_name path i C) d" "seen c hv (with_name path i C) d = seen c hv C d"
    using files_at_name [OF ok p] ok unfolding sz by (simp_all add: with_name_def)
  show ino: "get_original_inode C path \<noteq> [] \<Longrightarrow> get_original_inode C path = to_string i"
    using files_atD(3) [OF ok] p by (auto simp: get_original_inode_def names_ok_def split: option.splits)
  show "get_original_inode (with_name path i C) path = to_string i"
    using ino by (cases "get_original_inode C path = []")
      (simp_all add: with_name_def, simp add: get_original_inode_def insert_inode_mapping_def)
qed

lemma getattr_body_regular:
  assumes "os_lstat (eos ev) path (host_state w) = (0, st)" and "st_reg st" and "st_ino st = i"
    and "get_original_inode (FSCache w) path \<noteq> [] \<Longrightarrow> get_original_inode (FSCache w) path = to_string i"
  shows "getattr_body ev path w = getattr_item ev (to_string i) st (w\<lparr>FSCache := with_name path i (FSCache w)\<rparr>)"
proof -
  have "w\<lparr>FSCache := FSCache w\<rparr> = w" by (cases w) simp
  then show ?thesis
    using assms(1,2,4) unfolding assms(3) [symmetric]
    by (cases "get_original_inode (FSCache w) path = []")
      (simp_all add: getattr_body_def getattr_item_def with_name_def Let_def)
qed

lemma getattr_item_new:
  assumes m: "mounted ev hv" and ok: "files_ok (FSConfig ev) hv (FSCache w) (host_state w)"
    and st: "st_size st = int (length (content hv (host_state w) i))"
    and none: "fmlookup (contents (FSCache w)) (to_string i) = None"
  shows "\<exists>it. getattr_item ev (to_string i) st w =
      Inr ((0, st), w\<lparr>FSCache := with_item (to_string i) it (cengine (FSCache w)) (FSCache w)\<rparr>) \<and>
    files_ok (FSConfig ev) hv (with_item (to_string i) it (cengine (FSCache w)) (FSCache w)) (host_state w) \<and>
    seen (FSConfig ev) hv (with_item (to_string i) it (cengine (FSCache w)) (FSCache w)) (host_state w) =
      seen (FSConfig ev) hv (FSCache w) (host_state w) \<and>
    file_size hv (with_item (to_string i) it (cengine (FSCache w)) (FSCache w)) (host_state w) =
      file_size hv (FSCache w) (host_state w)"
proof -
  define c where "c = FSConfig ev"
  define C where "C = FSCache w"
  define new where "new = item_or_new C (to_string i)"
  define w2 where "w2 = w\<lparr>FSCache := with_item (to_string i) new (cengine C) C\<rparr>"
  define it where "it = update_metadata (stat_metadata st) [''size'', ''atime'', ''ctime'', ''mtime'', ''nlinks''] new"
  define C' where "C' = with_item (to_string i) it (cengine C) C"
  have ok: "files_ok c hv C (host_state w)" using ok by (simp add: c_def C_def)
  have inv2: "cache_ok c (FSCache w2)"
    using custom.put_nothing_inv [OF files_atD(2) [OF ok], of "to_string i"]
    by (simp add: w2_def new_def cache_ok_def)
  have l2: "fmlookup (contents (FSCache w2)) (to_string i) = Some new" by (simp add: w2_def)
  have C': "C' = with_item (to_string i) it (cengine (FSCache w2)) (FSCache w2)"
    by (simp add: C'_def w2_def with_item_def)
  have inv': "cache_ok c C'"
    using with_metadata_inv [OF inv2 [unfolded cache_ok_def] l2, of it] by (simp add: C' it_def cache_ok_def)
  have "fs_put_data_blocks ev (to_string i) fmempty OP_PASSTHROUGH w = Inr (fmempty, w2)"
    using put_nothing_world [OF m, of w "to_string i" OP_PASSTHROUGH] files_atD(1) [OF ok]
    by (simp add: c_def w2_def new_def C_def)
  moreover have "fs_locked_update (to_string i) (stat_metadata st)
      [''size'', ''atime'', ''ctime'', ''mtime'', ''nlinks''] w2 = Inr ((), w\<lparr>FSCache := C'\<rparr>)"
    using locked_update_known [OF inv2 l2] by (simp add: C' it_def w2_def)
  ultimately have run: "getattr_item ev (to_string i) st w = Inr ((0, st), w\<lparr>FSCache := C'\<rparr>)"
    by (simp add: getattr_item_def lock_unknown_world [OF none])
  have sz: "file_size hv C' (host_state w) = file_size hv C (host_state w)"
    using none st file_size_with_item [of hv "host_state w" "host_state w" i it "cengine C" C]
    by (simp add: C'_def C_def it_def stat_update_size file_size_def fun_eq_iff)
  have "files_ok c hv C' (host_state w)" "seen c hv C' (host_state w) = seen c hv C (host_state w)"
    using files_at_item [OF ok inv' [unfolded C'_def] cblocks_cengine] unfolding sz by (simp_all add: C'_def)
  then show ?thesis using run sz by (intro exI [of _ it]) (simp add: C'_def C_def c_def)
qed

lemma getattr_item_known:
  assumes inv: "cache_ok c (FSCache w)" and it: "fmlookup (contents (FSCache w)) (to_string i) = Some it"
  shows "getattr_item ev (to_string i) st w = Inr ((0, cached_stat (FSConfig ev) (imetadata it) st), w)"
proof -
  note l = lock_round_known [OF inv it]
  have "get_content_metadata (holding (to_string i) it (cengine (FSCache w)) (FSCache w)) (to_string i) =
      Some (imetadata it)" by (simp add: get_content_metadata_def)
  then show ?thesis by (simp add: getattr_item_def l)
qed

lemma getattr_ok:
  assumes m: "mounted ev hv" and ok: "files_ok (FSConfig ev) hv (FSCache w) (host_state w)"
    and p: "path_ino hv (host_state w) path = Some i"
  shows "\<exists>st C'. lfs_getattr ev path w = Inr ((0, st), w\<lparr>FSCache := C'\<rparr>) \<and>
    files_ok (FSConfig ev) hv C' (host_state w) \<and>
    seen (FSConfig ev) hv C' (host_state w) = seen (FSConfig ev) hv (FSCache w) (host_state w) \<and>
    file_size hv C' (host_state w) = file_size hv (FSCache w) (host_state w) \<and>
    st_size st = file_size hv (FSCache w) (host_state w) i \<and> st_ino st = i \<and>
    get_original_inode C' path = to_string i \<and>
    fmlookup (contents C') (to_string i) \<noteq> None \<and> cengine C' = cengine (FSCache w) \<and>
    (\<forall>cid. cid \<noteq> to_string i \<longrightarrow> fmlookup (contents C') cid = fmlookup (contents (FSCache w)) cid) \<and>
    (\<forall>q. q \<noteq> path \<longrightarrow> fmlookup (file_inode_mapping C') q = fmlookup (file_inode_mapping (FSCache w)) q)"
proof -
  define C1 where "C1 = with_name path i (FSCache w)"
  define w1 where "w1 = w\<lparr>shared_locks := Suc (shared_locks w), FSCache := C1\<rparr>"
  obtain st where st: "os_lstat (eos ev) path (host_state w) = (0, st)" "st_reg st" "st_ino st = i"
    "st_size st = int (length (content hv (host_state w) i))"
    using lstatD [OF host_lawsD(8) p] m unfolding mounted_def by blast
  note C1 = with_name_files [OF ok p, folded C1_def]
  have ws: "FSCache w1 = C1" "host_state w1 = host_state w" by (simp_all add: w1_def)
  have body: "getattr_body ev path (w\<lparr>shared_locks := Suc (shared_locks w)\<rparr>) = getattr_item ev (to_string i) st w1"
    using getattr_body_regular [of ev path "w\<lparr>shared_locks := Suc (shared_locks w)\<rparr>" st i] st C1(7)
    by (simp add: w1_def C1_def)
  have fin: "lfs_getattr ev path w = Inr ((0, s), w\<lparr>FSCache := C'\<rparr>)"
    if "getattr_item ev (to_string i) st w1 = Inr ((0, s), w1\<lparr>FSCache := C'\<rparr>)" for s C'
    using that body by (cases w) (simp add: lfs_getattr_def with_shared_lock_def w1_def)
  show ?thesis
  proof (cases "fmlookup (contents C1) (to_string i)")
    case None
    obtain it where it: "getattr_item ev (to_string i) st w1 =
        Inr ((0, st), w1\<lparr>FSCache := with_item (to_string i) it (cengine C1) C1\<rparr>)"
      "files_ok (FSConfig ev) hv (with_item (to_string i) it (cengine C1) C1) (host_state w)"
      "seen (FSConfig ev) hv (with_item (to_string i) it (cengine C1) C1) (host_state w) = seen (FSConfig ev) hv C1 (host_state w)"
      "file_size hv (with_item (to_string i) it (cengine C1) C1) (host_state w) = file_size hv C1 (host_state w)"
      using getattr_item_new [OF m _ _ None [folded ws(1)], of st] C1(1) st(4) unfolding ws by blast
    have "st_size st = file_size hv (FSCache w) (host_state w) i"
      using None st(4) by (simp add: file_size_def C1(5))
    then show ?thesis
      using fin [OF it(1)] it(2-4) C1 st(3)
      by (intro exI [of _ st] exI [of _ "with_item (to_string i) it (cengine C1) C1"]) (simp add: get_original_inode_def)
  next
    case (Some it)
    have "w1\<lparr>FSCache := C1\<rparr> = w1" by (simp add: w1_def)
    then have "getattr_item ev (to_string i) st w1 =
        Inr ((0, cached_stat (FSConfig ev) (imetadata it) st), w1\<lparr>FSCache := C1\<rparr>)"
      using getattr_item_known [of "FSConfig ev" w1 i it ev st] files_atD(1) [OF C1(1)] Some by (simp add: ws)
    from fin [OF this] show ?thesis
      using C1 Some st(3)
      by (intro exI [of _ "cached_stat (FSConfig ev) (imetadata it) st"] exI [of _ C1])
        (simp add: file_size_def cached_stat_def Let_def)
  qed
qed

end
