(* ===== verification/Fs_Blocks.thy ===== *)
theory Fs_Blocks
  imports Fs_Files
begin

text \<open>
  One block of a write: the part of the request that falls into it, whether it is cached, new, or
  has to be completed from the host first.
\<close>


section \<open>One block of a write\<close>

lemma blk_high_eq:
  assumes "0 < bs" and "0 \<le> offset" and "0 < sz" and "offset + sz \<le> 9223372036854775808"
  shows "blk_high_of bs offset sz = (offset + sz - 1) div bs" "u64 (offset + sz - 1) = offset + sz - 1"
proof -
  show u: "u64 (offset + sz - 1) = offset + sz - 1" using assms by (simp add: u64_id)
  have "0 \<le> (offset + sz - 1) div bs" "(offset + sz - 1) div bs \<le> offset + sz - 1"
    using assms zdiv_mono2 [of "offset + sz - 1" 1 bs] by (simp_all add: pos_imp_zdiv_nonneg_iff)
  then show "blk_high_of bs offset sz = (offset + sz - 1) div bs"
    using assms by (simp add: blk_high_of_def u s64_id)
qed

text \<open>The part of a request that falls in a block, as the handlers compute it.\<close>

lemma block_range_eq:
  assumes bs: "0 < bs" and r: "0 \<le> offset" "0 < sz" "offset + sz \<le> 9223372036854775808"
    and b: "offset div bs \<le> b" "b \<le> (offset + sz - 1) div bs"
  shows "block_range bs offset sz b = (max offset (b * bs) - b * bs, min (offset + sz) (b * bs + bs) - 1 - b * bs)"
    and "b * bs < offset + sz" and "offset < b * bs + bs"
proof -
  define last where "last = offset + sz - 1"
  note lo = block_bounds [OF bs, of offset] and hi = block_bounds [OF bs, of last]
  show lt: "b * bs < offset + sz"
  proof (cases "b = last div bs")
    case True
    then show ?thesis using hi(1) by (simp add: last_def)
  next
    case False
    then have "b * bs + bs \<le> last div bs * bs" using b(2) by (intro block_before [OF bs]) (simp add: last_def)
    then show ?thesis using hi(1) bs by (simp add: last_def)
  qed
  show gt: "offset < b * bs + bs"
  proof (cases "b = offset div bs")
    case False
    then have "offset div bs * bs + bs \<le> b * bs" using b(1) by (intro block_before [OF bs]) simp
    then show ?thesis using lo(2) bs by linarith
  qed (use lo(2) in simp)
  have frm: "(if b = offset div bs then offset mod bs else 0) = max offset (b * bs) - b * bs"
  proof (cases "b = offset div bs")
    case True
    then show ?thesis using lo(1) by (simp add: minus_div_mult_eq_mod)
  next
    case False
    then have "offset div bs * bs + bs \<le> b * bs" using b(1) by (intro block_before [OF bs]) simp
    then show ?thesis using lo(2) False by simp
  qed
  have to: "(if b = last div bs then last mod bs
      else if b = offset div bs \<and> last < bs then last else bs - 1) = min (last + 1) (b * bs + bs) - 1 - b * bs"
  proof (cases "b = last div bs")
    case True
    then show ?thesis using hi by (simp add: minus_div_mult_eq_mod)
  next
    case False
    then have "b * bs + bs \<le> last div bs * bs" using b(2) by (intro block_before [OF bs]) (simp add: last_def)
    then have "b * bs + bs \<le> last" using hi(1) by linarith
    moreover have "\<not> (b = offset div bs \<and> last < bs)"
    proof
      assume "b = offset div bs \<and> last < bs"
      moreover have "0 \<le> offset div bs * bs" using r(1) bs by (simp add: pos_imp_zdiv_nonneg_iff)
      ultimately show False using \<open>b * bs + bs \<le> last\<close> by auto
    qed
    ultimately show ?thesis using False by auto
  qed
  show "block_range bs offset sz b = (max offset (b * bs) - b * bs, min (offset + sz) (b * bs + bs) - 1 - b * bs)"
    using frm to [unfolded last_def] unfolding block_range_def Let_def blk_high_eq [OF bs r] by simp
qed

text \<open>The world while a write is under way: the context of the loop and what it relies on.\<close>

definition write_ready ::
  "(engine, 'd) env \<Rightarrow> 'd view \<Rightarrow> write_ctx \<Rightarrow> int \<Rightarrow> ('d \<Rightarrow> bool)" where
  "write_ready ev hv x i d \<longleftrightarrow>
     wc_inode x = to_string i \<and> fd_ino hv d (wc_fd x) = Some i \<and> fd_ino hv d (wc_fd_caching x) = Some i \<and>
     0 \<le> wc_fd_caching x \<and> 0 \<le> wc_offset x \<and> wc_size x = int (length (wc_buf x)) \<and> wc_buf x \<noteq> [] \<and>
     wc_offset x + wc_size x \<le> 2147483648 * IO_BLOCK_SIZE (FSConfig ev)"

text \<open>
  What \<open>k\<close> steps of the loop establish for the bytes \<open>nb\<close> they write at \<open>pos\<close>: the file reads
  as if they had been written to it, the host's copy is at most torn there, and it is untouched
  as long as the cache has room.
\<close>

definition parts_written ::
  "nat \<Rightarrow> config \<Rightarrow> 'd view \<Rightarrow> int \<Rightarrow> (int \<Rightarrow> int) \<Rightarrow> int \<Rightarrow> int \<Rightarrow> byte list \<Rightarrow> engine cache \<Rightarrow> 'd \<Rightarrow> engine cache \<Rightarrow> 'd \<Rightarrow> bool"
  where
  "parts_written k c hv i sz s pos nb C d C' d' \<longleftrightarrow>
     files_at c hv (sz(i := s)) C' d' \<and>
     seen_at c hv (sz(i := s)) C' d' =
       (seen_at c hv sz C d)(i := file_write (seen_at c hv sz C d i) pos nb) \<and>
     (\<exists>disk'. content hv d' = (content hv d)(i := disk') \<and> torn pos nb (content hv d i) disk') \<and>
     path_ino hv d' = path_ino hv d \<and> fd_ino hv d' = fd_ino hv d \<and>
     file_inode_mapping C' = file_inode_mapping C \<and>
     map_option imetadata (fmlookup (contents C') (to_string i)) =
       map_option imetadata (fmlookup (contents C) (to_string i)) \<and>
     (\<forall>j. j \<noteq> to_string i \<longrightarrow> fmlookup (contents C') j = fmlookup (contents C) j \<and> blocks_of C' j = blocks_of C j) \<and>
     nfree (cengine C') \<le> nfree (cengine C) \<and> nfree (cengine C) \<le> k + nfree (cengine C') \<and>
     (k \<le> nfree (cengine C) \<longrightarrow> content hv d' = content hv d) \<and>
     (\<forall>b. blocks_of C (to_string i) b \<noteq> None \<longrightarrow> blocks_of C' (to_string i) b \<noteq> None) \<and>
     (nb \<noteq> [] \<longrightarrow> (\<forall>b. pos div IO_BLOCK_SIZE c \<le> b \<longrightarrow> b * IO_BLOCK_SIZE c < pos + int (length nb) \<longrightarrow>
        blocks_of C' (to_string i) b \<noteq> None \<or> nfree (cengine C') = 0))"

abbreviation part_written where "part_written \<equiv> parts_written 1"

lemma parts_append:
  assumes a: "parts_written k c hv i sz s1 pos xs C d C1 d1"
    and b: "parts_written m c hv i (sz(i := s1)) s2 (pos + int (length xs)) ys C1 d1 C2 d2" and pos: "0 \<le> pos"
    and B: "0 < IO_BLOCK_SIZE c"
  shows "parts_written (k + m) c hv i sz s2 pos (xs @ ys) C d C2 d2"
proof -
  obtain k1 k2 where k: "content hv d1 = (content hv d)(i := k1)" "torn pos xs (content hv d i) k1"
    "content hv d2 = (content hv d1)(i := k2)" "torn (pos + int (length xs)) ys (content hv d1 i) k2"
    using a b unfolding parts_written_def by blast
  have "torn pos (xs @ ys) (content hv d i) k2" using torn_append [OF pos k(2)] k by simp
  moreover have "content hv d2 = (content hv d)(i := k2)" using k by simp
  moreover have "seen_at c hv (sz(i := s2)) C2 d2 =
      (seen_at c hv sz C d)(i := file_write (seen_at c hv sz C d i) pos (xs @ ys))"
    using a b file_write_append [OF pos] by (simp add: parts_written_def)
  moreover have "blocks_of C2 (to_string i) b' \<noteq> None \<or> nfree (cengine C2) = 0"
    if nb: "xs @ ys \<noteq> []" and b': "pos div IO_BLOCK_SIZE c \<le> b'" "b' * IO_BLOCK_SIZE c < pos + int (length (xs @ ys))" for b'
  proof (cases "xs \<noteq> [] \<and> b' * IO_BLOCK_SIZE c < pos + int (length xs)")
    case True
    then have "blocks_of C1 (to_string i) b' \<noteq> None \<or> nfree (cengine C1) = 0"
      using a b'(1) by (simp add: parts_written_def)
    then show ?thesis using b unfolding parts_written_def by (metis le_zero_eq)
  next
    case False
    have "ys \<noteq> []"
    proof
      assume "ys = []"
      then show False using False nb b'(2) by simp
    qed
    moreover have "(pos + int (length xs)) div IO_BLOCK_SIZE c \<le> b'"
    proof (cases "xs = []")
      case True
      then show ?thesis using b'(1) by simp
    next
      case xs: False
      then have "pos + int (length xs) \<le> b' * IO_BLOCK_SIZE c" using False by simp
      then have "(pos + int (length xs)) div IO_BLOCK_SIZE c \<le> b' * IO_BLOCK_SIZE c div IO_BLOCK_SIZE c"
        using B by (intro zdiv_mono1)
      then show ?thesis using B by simp
    qed
    ultimately show ?thesis using b b'(2) by (simp add: parts_written_def)
  qed
  ultimately show ?thesis
    using a b unfolding parts_written_def by auto
qed

lemma part_block:
  assumes "part_ok B sz b frm to nb" and "(b * B + frm) div B \<le> b'" and "b' * B < b * B + frm + int (length nb)"
  shows "b' = b"
proof -
  have p: "0 < B" "0 \<le> frm" "to < B" "int (length nb) = to - frm + 1" "frm \<le> to"
    using assms(1) by (simp_all add: part_ok_def)
  have "(b * B + frm) div B = b" using p by (intro in_block(1)) simp_all
  then have "b \<le> b'" using assms(2) by simp
  moreover have "b' \<le> b"
  proof (rule ccontr)
    assume "\<not> b' \<le> b"
    then have "b * B + B \<le> b' * B" by (intro block_before [OF p(1)]) simp
    then show False using assms(3) p by simp
  qed
  ultimately show ?thesis by simp
qed

lemma parts_none:
  assumes "files_at c hv sz C d"
  shows "parts_written 0 c hv i sz (sz i) pos [] C d C d"
  using assms
  by (auto simp: parts_written_def file_write_def intro: exI [of _ "content hv d i"])


text \<open>The bytes that go to the cache or to the host for a block that is not cached.\<close>

definition part_image ::
  "int \<Rightarrow> int \<Rightarrow> int \<Rightarrow> int \<Rightarrow> int \<Rightarrow> byte list \<Rightarrow> byte list \<Rightarrow> int \<Rightarrow> byte list \<Rightarrow> bool" where
  "part_image B sz b frm to nb disk cf buf \<longleftrightarrow>
     0 \<le> cf \<and> cf \<le> frm \<and> to < cf + int (length buf) \<and> cf + int (length buf) \<le> B \<and>
     b * B + cf + int (length buf) \<le> grown B sz b to \<and>
     (\<forall>k < length buf. buf ! k =
       (if frm \<le> cf + int k \<and> cf + int k \<le> to then nb ! nat (cf + int k - frm)
        else byte_at disk (nat (b * B + cf + int k))))"

lemma part_image_plain:
  assumes "part_ok B sz b frm to nb"
  shows "part_image B sz b frm to nb disk frm nb"
proof -
  have len: "int (length nb) = to - frm + 1" using assms by (simp add: part_ok_def)
  have "nb ! k = (if frm \<le> frm + int k \<and> frm + int k \<le> to then nb ! nat (frm + int k - frm)
       else byte_at disk (nat (b * B + frm + int k)))" if "k < length nb" for k
    using that len by auto
  then show ?thesis
    using assms len unfolding part_image_def by (auto simp: part_ok_def grown_def)
qed

lemma merge_block_image:
  assumes part: "part_ok B sz b frm to nb" and rd: "read = take (nat B) (drop (nat (b * B)) disk)"
    and len: "int (length read) = min B (sz - b * B)" and below: "b * B < sz"
    and bcb: "int (length bcb) = B"
  shows "\<exists>buf. merge_block bcb read nb frm to =
      Inr ((buf, max (int (length read)) (to + 1), 0, max (int (length read)) (to + 1) - 1), buf) \<and>
    int (length buf) = B \<and>
    part_image B sz b frm to nb disk 0 (take (nat (max (int (length read)) (to + 1))) buf) \<and>
    max (int (length read)) (to + 1) = min B (grown B sz b to - b * B)"
proof -
  have p: "0 < B" "0 \<le> b" "0 \<le> frm" "frm \<le> to" "to < B" "b * B + frm \<le> sz"
    "int (length nb) = to - frm + 1"
    using part by (simp_all add: part_ok_def)
  define wr where "wr = max (int (length read)) (to + 1)"
  have bB: "0 \<le> b * B" using p by simp
  have r: "int (length read) \<le> B" "frm \<le> int (length read)" using len p(4,5,6) by auto
  obtain b1 where b1: "mem_write bcb 0 read = Inr b1" "length b1 = length bcb"
    using mem_write_Inr [of 0 read bcb] mem_write_length r(1) bcb by auto
  obtain b2 where b2: "mem_write b1 frm nb = Inr b2" "length b2 = length b1"
    using mem_write_Inr [of frm nb b1] mem_write_length p b1(2) bcb by auto
  have run: "merge_block bcb read nb frm to = Inr ((b2, wr, 0, wr - 1), b2)"
    using r(2) by (simp add: merge_block_def b1 b2 wr_def max_def Let_def)
  have wr: "0 < wr" "wr \<le> B" "wr = min B (grown B sz b to - b * B)"
    using r p len by (auto simp: wr_def grown_def)
  have nth: "b2 ! k = (if frm \<le> int k \<and> int k \<le> to then nb ! nat (int k - frm)
      else byte_at disk (nat (b * B + int k)))" if k: "int k < wr" for k
  proof -
    have kB: "k < length bcb" using k wr(2) bcb by linarith
    have n2: "b2 ! k = (if nat frm \<le> k \<and> k < nat frm + length nb then nb ! (k - nat frm) else b1 ! k)"
      using mem_write_nth [OF b2(1), of k] kB b1(2) by simp
    have n1: "b1 ! k = (if k < length read then read ! k else bcb ! k)"
      using mem_write_nth [OF b1(1), of k] kB by simp
    have iff: "nat frm \<le> k \<and> k < nat frm + length nb \<longleftrightarrow> frm \<le> int k \<and> int k \<le> to" using p by linarith
    show ?thesis
    proof (cases "frm \<le> int k \<and> int k \<le> to")
      case True
      then have "k - nat frm = nat (int k - frm)" using p(3) by linarith
      then show ?thesis using True iff n2 by simp
    next
      case False
      have kr: "k < length read" using k False r(2) by (auto simp: wr_def)
      then have "read ! k = disk ! (nat (b * B) + k)" "nat (b * B) + k < length disk"
        by (auto simp: rd)
      moreover have "nat (b * B + int k) = nat (b * B) + k" using bB by linarith
      ultimately have "b1 ! k = byte_at disk (nat (b * B + int k))" using n1 kr by (simp add: byte_at_def)
      then show ?thesis unfolding if_not_P [OF False] using n2 iff False by argo
    qed
  qed
  have lt: "int (length (take (nat wr) b2)) = wr" using wr(1,2) b1(2) b2(2) bcb by simp
  have "part_image B sz b frm to nb disk 0 (take (nat wr) b2)"
    unfolding part_image_def lt
  proof (intro conjI allI impI)
    show "to < 0 + wr" "0 + wr \<le> B" "b * B + 0 + wr \<le> grown B sz b to"
      using wr by (auto simp: wr_def)
  next
    fix k assume "k < length (take (nat wr) b2)"
    then show "take (nat wr) b2 ! k = (if frm \<le> 0 + int k \<and> 0 + int k \<le> to then nb ! nat (0 + int k - frm)
         else byte_at disk (nat (b * B + 0 + int k)))"
      using nth [of k] lt by auto
  qed (use p in simp_all)
  then show ?thesis using run b1(2) b2(2) bcb wr(3) by (auto simp: wr_def)
qed

text \<open>Into the cache, for any request that leaves the right bytes in the block.\<close>

lemma put_part_files:
  assumes m: "mounted ev hv" and ok: "files_at c hv sz C d" and c: "c = FSConfig ev"
    and it: "fmlookup (contents C) (to_string i) = Some it"
    and part: "part_ok (IO_BLOCK_SIZE c) (sz i) b frm to nb"
    and put: "put_ok c req"
    and space: "blocks_of C (to_string i) b \<noteq> None \<or> 0 < nfree (cengine C)"
    and blk: "\<And>p. cb_readable (put_block c req p (blocks_of C (to_string i) b)) =
        min (IO_BLOCK_SIZE c) (grown (IO_BLOCK_SIZE c) (sz i) b to - b * IO_BLOCK_SIZE c) - 1"
    and data: "\<And>p k. 0 \<le> k \<Longrightarrow>
        k \<le> cb_readable (put_block c req p (blocks_of C (to_string i) b)) \<Longrightarrow>
        cb_data (put_block c req p (blocks_of C (to_string i) b)) ! nat k =
      (if frm \<le> k \<and> k \<le> to then nb ! nat (k - frm)
       else file_byte (IO_BLOCK_SIZE c) (blocks_of C (to_string i)) (byte_at (content hv d i))
              (nat (b * IO_BLOCK_SIZE c + k)))"
  shows "\<exists>C'. put_data_blocks (eengine ev) (to_string i) (fmupd b req fmempty) op C d =
      Inr (fmupd b True fmempty, C', d) \<and>
    part_written c hv i sz (grown (IO_BLOCK_SIZE c) (sz i) b to) (b * IO_BLOCK_SIZE c + frm) nb C d C' d"
proof -
  note inv = files_atD(2) [OF ok]
  define ino where "ino = to_string i"
  obtain p e' it' where e': "put_data_blocks (custom_cache_engine (eos ev) c) ino (fmupd b req fmempty) op C d =
      Inr (fmupd b True fmempty, with_item ino it' e' C, d)"
    "cache_inv (engine_ok c) cblocks (with_item ino it' e' C)"
    "imetadata it' = imetadata (item_or_new C ino)"
    "cblocks e' = upd_view ino b (Some (put_block c req p (cblocks (cengine C) ino b))) (cblocks (cengine C))"
    "nfree e' = nfree (cengine C) - (if cblocks (cengine C) ino b = None then 1 else 0)"
    using custom.put_one_stores [OF inv _ put, of ino b "eos ev" op d] space
    by (auto simp: ino_def blocks_of_def)
  define cb where "cb = put_block c req p (blocks_of C ino b)"
  define v' where "v' = (blocks_of C ino)(b \<mapsto> cb)"
  have view: "blocks_of (with_item ino it' e' C) = (blocks_of C)(ino := v')"
    using e'(4) by (auto simp: fun_eq_iff upd_view_def v'_def cb_def blocks_of_def)
  have dirty: "cb_dirty cb" by (cases req) (simp add: cb_def put_block_def)
  have rd: "cb_readable cb = min (IO_BLOCK_SIZE c) (grown (IO_BLOCK_SIZE c) (sz i) b to - b * IO_BLOCK_SIZE c) - 1"
    using blk [of p] by (simp add: cb_def ino_def)
  have bytes: "cb_data cb ! nat k = (if frm \<le> k \<and> k \<le> to then nb ! nat (k - frm)
       else file_byte (IO_BLOCK_SIZE c) (blocks_of C ino) (byte_at (content hv d i)) (nat (b * IO_BLOCK_SIZE c + k)))"
    if "0 \<le> k" "k \<le> cb_readable cb" for k
    using data [of k p] that unfolding cb_def ino_def by blast
  have pt: "file_ok (IO_BLOCK_SIZE c) (grown (IO_BLOCK_SIZE c) (sz i) b to) v' (content hv d i)"
    "visible (IO_BLOCK_SIZE c) (grown (IO_BLOCK_SIZE c) (sz i) b to) v' (content hv d i) =
      file_write (visible (IO_BLOCK_SIZE c) (sz i) (blocks_of C ino) (content hv d i)) (b * IO_BLOCK_SIZE c + frm) nb"
    using put_part [OF part files_atD(4) [OF ok, of i, folded ino_def] dirty rd] bytes unfolding v'_def by blast+
  note st = files_at_step [OF ok, of "with_item ino it' e' C" d i "content hv d i" v'
      "grown (IO_BLOCK_SIZE c) (sz i) b to"]
  have inv': "cache_ok c (with_item ino it' e' C)" using e'(2) by (simp add: cache_ok_def)
  have "part_written c hv i sz (grown (IO_BLOCK_SIZE c) (sz i) b to) (b * IO_BLOCK_SIZE c + frm) nb C d
      (with_item ino it' e' C) d"
    unfolding parts_written_def
  proof (intro conjI)
    show "files_at c hv (sz(i := grown (IO_BLOCK_SIZE c) (sz i) b to)) (with_item ino it' e' C) d"
      by (rule st(1)) (use inv' view pt(1) in \<open>simp_all add: ino_def\<close>)
    have "seen_at c hv (sz(i := grown (IO_BLOCK_SIZE c) (sz i) b to)) (with_item ino it' e' C) d =
        (seen_at c hv sz C d)(i := visible (IO_BLOCK_SIZE c) (grown (IO_BLOCK_SIZE c) (sz i) b to) v' (content hv d i))"
      by (rule st(2)) (use inv' view pt(1) in \<open>simp_all add: ino_def\<close>)
    then show "seen_at c hv (sz(i := grown (IO_BLOCK_SIZE c) (sz i) b to)) (with_item ino it' e' C) d =
       (seen_at c hv sz C d)(i := file_write (seen_at c hv sz C d i) (b * IO_BLOCK_SIZE c + frm) nb)"
      using pt(2) by (simp add: seen_at_def ino_def)
    show "\<exists>disk'. content hv d = (content hv d)(i := disk') \<and>
        torn (b * IO_BLOCK_SIZE c + frm) nb (content hv d i) disk'"
      by (rule exI [of _ "content hv d i"]) simp
    show "map_option imetadata (fmlookup (contents (with_item ino it' e' C)) (to_string i)) =
        map_option imetadata (fmlookup (contents C) (to_string i))"
      using e'(3) it by (simp add: ino_def item_or_new_def)
    show "nb \<noteq> [] \<longrightarrow> (\<forall>b'. (b * IO_BLOCK_SIZE c + frm) div IO_BLOCK_SIZE c \<le> b' \<longrightarrow>
        b' * IO_BLOCK_SIZE c < b * IO_BLOCK_SIZE c + frm + int (length nb) \<longrightarrow>
        blocks_of (with_item ino it' e' C) (to_string i) b' \<noteq> None \<or>
        nfree (cengine (with_item ino it' e' C)) = 0)"
      using part_block [OF part] unfolding view by (auto simp: ino_def v'_def)
    show "\<forall>b'. blocks_of C (to_string i) b' \<noteq> None \<longrightarrow> blocks_of (with_item ino it' e' C) (to_string i) b' \<noteq> None"
      unfolding view by (simp add: ino_def v'_def)
    show "\<forall>j. j \<noteq> to_string i \<longrightarrow>
        fmlookup (contents (with_item ino it' e' C)) j = fmlookup (contents C) j \<and>
        blocks_of (with_item ino it' e' C) j = blocks_of C j"
      unfolding view by (simp add: ino_def)
  qed (use e'(5) in \<open>auto simp: ino_def\<close>)
  then show ?thesis using e'(1) m c by (auto simp: mounted_def ino_def)
qed


text \<open>Past the cache.\<close>

lemma direct_part_files:
  assumes m: "mounted ev hv" and ok: "files_at c hv sz C d" and full: "nfree (cengine C) = 0"
    and part: "part_ok (IO_BLOCK_SIZE c) (sz i) b frm to nb"
    and img: "part_image (IO_BLOCK_SIZE c) (sz i) b frm to nb (content hv d i) cf buf"
    and none: "blocks_of C (to_string i) b = None" and fd: "fd_ino hv d fd = Some i"
  shows "\<exists>d'. os_pwrite (eos ev) fd buf (b * IO_BLOCK_SIZE c + cf) d = (int (length buf), d') \<and>
    part_written c hv i sz (grown (IO_BLOCK_SIZE c) (sz i) b to) (b * IO_BLOCK_SIZE c + frm) nb C d C d'"
proof -
  define B where "B = IO_BLOCK_SIZE c"
  define disk' where "disk' = file_write (content hv d i) (b * B + cf) buf"
  have "0 \<le> b * B + cf" using part_bounds(1) [OF part] img by (simp add: part_image_def B_def)
  then obtain d' where d': "os_pwrite (eos ev) fd buf (b * B + cf) d = (int (length buf), d')"
    "content hv d' = (content hv d)(i := disk')" "fd_ino hv d' = fd_ino hv d" "path_ino hv d' = path_ino hv d"
    using pwriteD [OF host_lawsD(4) fd] m unfolding mounted_def disk'_def by blast
  have pt: "torn (b * B + frm) nb (content hv d i) disk'"
    "file_ok B (grown B (sz i) b to) (blocks_of C (to_string i)) disk'"
    "visible B (grown B (sz i) b to) (blocks_of C (to_string i)) disk' =
      file_write (visible B (sz i) (blocks_of C (to_string i)) (content hv d i)) (b * B + frm) nb"
    using direct_part [OF part files_atD(4) [OF ok, of i] none, of cf buf] img
    unfolding part_image_def B_def [symmetric] disk'_def by blast+
  have view: "blocks_of C = (blocks_of C)(to_string i := blocks_of C (to_string i))" by simp
  note st = files_at_step [OF ok files_atD(1) [OF ok] refl d'(4,2) view pt(2) [unfolded B_def]]
  have "part_written c hv i sz (grown B (sz i) b to) (b * B + frm) nb C d C d'"
    unfolding parts_written_def
    using st pt d'(2-4) full by (auto simp: B_def seen_at_def)
  then show ?thesis using d'(1) by (auto simp: B_def)
qed

lemma cached_iff:
  assumes "mounted ev hv" and "files_at (FSConfig ev) hv sz C d"
  shows "cache_is_block_cached (eengine ev) C (to_string i) b \<longleftrightarrow> blocks_of C (to_string i) b \<noteq> None"
proof (cases "fmlookup (contents C) (to_string i)")
  case None
  then show ?thesis
    using unknown_blocks [OF files_atD(2) [OF assms(2)] None]
    by (simp add: cache_is_block_cached_def blocks_of_def)
next
  case (Some it)
  note inv = files_atD(2) [OF assms(2)]
  note k = known_item [OF inv Some]
  have "cache_is_block_cached (eengine ev) C (to_string i) b \<longleftrightarrow>
      (\<exists>cb. cblocks (cengine C) (to_string i) b = Some cb \<and> cb_page cb = get_page_id (idata it) b)"
    using assms(1) custom.is_cached [OF cache_invD(1) [OF inv] k(1)] Some
    by (simp add: cache_is_block_cached_def mounted_def)
  then show ?thesis
    using item_agrees_page(1) [OF k(2), of b] by (auto simp: blocks_of_def)
qed

lemma put_block_part:
  fixes p :: int
  assumes "part_ok B sz b frm to nb" and "old = Some cb" and "IO_BLOCK_SIZE c = B"
    and "cached_block_ok B sz disk b cb" and "int (length (cb_data cb)) = B"
  defines "new \<equiv> put_block c (nb, to - frm + 1, frm, to) p old"
  shows "cb_readable new = min B (grown B sz b to - b * B) - 1"
    and "0 \<le> k \<Longrightarrow> k \<le> cb_readable new \<Longrightarrow> cb_data new ! nat k =
      (if frm \<le> k \<and> k \<le> to then nb ! nat (k - frm) else cb_data cb ! nat k)"
    and "0 \<le> k \<Longrightarrow> k \<le> cb_readable new \<Longrightarrow> \<not> (frm \<le> k \<and> k \<le> to) \<Longrightarrow> k \<le> cb_readable cb"
proof -
  have p: "0 < B" "0 \<le> b" "0 \<le> frm" "frm \<le> to" "to < B" "b * B + frm \<le> sz"
    "int (length nb) = to - frm + 1"
    using assms(1) by (simp_all add: part_ok_def)
  have rd: "cb_readable new = max to (cb_readable cb)"
    by (simp add: new_def put_block_def assms(2))
  have cr: "cb_readable cb = min B (sz - b * B) - 1" using assms(4) by (simp add: cached_block_ok_def)
  show *: "cb_readable new = min B (grown B sz b to - b * B) - 1"
    unfolding rd cr using p by (auto simp: grown_def)
  show "\<not> (frm \<le> k \<and> k \<le> to) \<Longrightarrow> k \<le> cb_readable cb" if "0 \<le> k" "k \<le> cb_readable new"
    using that p(3-6) unfolding rd cr by (auto simp: max_def split: if_splits)
  show "cb_data new ! nat k = (if frm \<le> k \<and> k \<le> to then nb ! nat (k - frm) else cb_data cb ! nat k)"
    if "0 \<le> k" "k \<le> cb_readable new"
  proof -
    have dat: "cb_data new = overlay (cb_data cb) frm nb"
      using p(7) by (simp add: new_def put_block_def requested_def assms(2))
    have "nat k < length (cb_data cb)" using that assms(5) unfolding * by linarith
    then have "cb_data new ! nat k = (if nat frm \<le> nat k \<and> nat k < nat frm + length nb
        then nb ! (nat k - nat frm) else cb_data cb ! nat k)"
      unfolding dat using p assms(5) by (intro overlay_nth) simp_all
    moreover have "nat frm \<le> nat k \<and> nat k < nat frm + length nb \<longleftrightarrow> frm \<le> k \<and> k \<le> to"
      using that(1) p by linarith
    moreover have "nat k - nat frm = nat (k - frm)" using that(1) p(3) by (simp add: nat_diff_distrib')
    ultimately show ?thesis by simp
  qed
qed

lemma put_ok_part:
  assumes "part_ok (IO_BLOCK_SIZE c) sz b frm to nb"
  shows "put_ok c (nb, to - frm + 1, frm, to)"
  using assms by (simp add: put_ok_def request_ok_def part_ok_def)

lemma write_cached_step:
  assumes m: "mounted ev hv" and c: "c = FSConfig ev" and r: "write_ready ev hv x i (host_state w)"
    and ok: "files_at c hv sz (FSCache w) (host_state w)"
    and it: "fmlookup (contents (FSCache w)) (to_string i) = Some it"
    and range: "block_range (IO_BLOCK_SIZE c) (wc_offset x) (wc_size x) b = (frm, to)"
    and part: "part_ok (IO_BLOCK_SIZE c) (sz i) b frm to nb" and b: "b < 2147483648"
    and rd: "mem_read (wc_buf x) (wl_data_buffer_iterator l) (to - frm + 1) = Inr nb"
    and cached: "blocks_of (FSCache w) (to_string i) b = Some cb"
  shows "\<exists>C'. write_cached_block ev x b (l, w) =
      Inr (False, l\<lparr>wl_data_allocated := wl_data_allocated l + (to - frm + 1),
                    wl_data_buffer_iterator := wl_data_allocated l + (to - frm + 1)\<rparr>, w\<lparr>FSCache := C'\<rparr>) \<and>
    part_written c hv i sz (grown (IO_BLOCK_SIZE c) (sz i) b to) (b * IO_BLOCK_SIZE c + frm) nb
      (FSCache w) (host_state w) C' (host_state w)"
proof -
  define B where "B = IO_BLOCK_SIZE c"
  have sb: "single_block c" using m c by (simp add: mounted_def)
  have ids: "c_int B = B" "c_int b = b"
    using single_blockD [OF sb] b part by (simp_all add: c_int_id B_def part_ok_def)
  have old: "cached_block_ok B (sz i) (content hv (host_state w) i) b cb"
    using file_okD(3) [OF files_atD(4) [OF ok] cached] by (simp add: B_def)
  have dlen: "int (length (cb_data cb)) = B"
    using custom.stored [OF cache_invD(1) [OF files_atD(2) [OF ok]], of "to_string i" b cb] cached
    by (simp add: blocks_of_def B_def)
  note pb = put_block_part [OF part [folded B_def] refl B_def [symmetric] old dlen]
  have bB: "0 \<le> b * B" using part_bounds(1) [OF part] by (simp add: B_def)
  have cb_at: "file_byte B (blocks_of (FSCache w) (to_string i)) f (nat (b * B + k)) = cb_data cb ! nat k"
    if "0 \<le> k" "k \<le> cb_readable cb" for k f
  proof -
    have "int (nat (b * B + k)) = b * B + k" using bB that(1) by simp
    moreover have "k < B" "0 < B" using that(2) old part by (simp_all add: cached_block_ok_def part_ok_def B_def)
    ultimately show ?thesis using that cached by (simp add: file_byte_in [of B b])
  qed
  obtain C' where C': "put_data_blocks (eengine ev) (to_string i)
      (fmupd b (nb, to - frm + 1, frm, to) fmempty) OP_WRITE (FSCache w) (host_state w) =
      Inr (fmupd b True fmempty, C', host_state w)"
    "part_written c hv i sz (grown B (sz i) b to) (b * B + frm) nb (FSCache w) (host_state w) C' (host_state w)"
  proof (rule exE [OF put_part_files [OF m ok c it part put_ok_part [OF part],
          where op = OP_WRITE]])
    show "blocks_of (FSCache w) (to_string i) b \<noteq> None \<or> 0 < nfree (cengine (FSCache w))"
      using cached by simp
    show "cb_readable (put_block c (nb, to - frm + 1, frm, to) p (blocks_of (FSCache w) (to_string i) b)) =
        min (IO_BLOCK_SIZE c) (grown (IO_BLOCK_SIZE c) (sz i) b to - b * IO_BLOCK_SIZE c) - 1" for p
      using pb(1) [of p] by (simp add: cached B_def)
    show "cb_data (put_block c (nb, to - frm + 1, frm, to) p (blocks_of (FSCache w) (to_string i) b)) ! nat k =
      (if frm \<le> k \<and> k \<le> to then nb ! nat (k - frm)
       else file_byte (IO_BLOCK_SIZE c) (blocks_of (FSCache w) (to_string i))
              (byte_at (content hv (host_state w) i)) (nat (b * IO_BLOCK_SIZE c + k)))"
      if "0 \<le> k" "k \<le> cb_readable (put_block c (nb, to - frm + 1, frm, to) p
        (blocks_of (FSCache w) (to_string i) b))" for p k
      using pb(2,3) [of k p] that cb_at [of k] unfolding cached B_def by auto
  qed (use that in \<open>auto simp: B_def\<close>)
  have put: "fs_put_data_blocks ev (to_string i) (single_put b (nb, to - frm + 1, frm, to)) OP_WRITE w =
      Inr (fmupd b True fmempty, w\<lparr>FSCache := C'\<rparr>)"
    using C'(1) by (cases w) (simp add: fs_put_data_blocks_def on_cache_host_def single_put_def)
  have "wc_inode x = to_string i" using r by (simp add: write_ready_def)
  then show ?thesis
    using C'(2) put range rd
    by (auto simp: write_cached_block_def Let_def c [symmetric] ids B_def [symmetric] was_put_def)
qed


lemma served_image:
  assumes "part_ok B sz b frm to nb" and "part_image B sz b frm to nb disk 0 buf"
    and "IO_BLOCK_SIZE c = B" and "n = int (length buf)"
    and "int (length big) \<ge> n" and "buf = take (nat n) big"
  shows "cb_readable (put_block c (big, n, 0, n - 1) p None) = n - 1"
    and "put_ok c (big, n, 0, n - 1)"
    and "0 \<le> k \<Longrightarrow> k \<le> n - 1 \<Longrightarrow> cb_data (put_block c (big, n, 0, n - 1) p None) ! nat k =
      (if frm \<le> k \<and> k \<le> to then nb ! nat (k - frm) else byte_at disk (nat (b * B + k)))"
proof -
  have p: "0 < B" "0 \<le> frm" "frm \<le> to" using assms(1) by (simp_all add: part_ok_def)
  have i: "to < n" "n \<le> B"
    "\<And>k. k < length buf \<Longrightarrow> buf ! k =
       (if frm \<le> int k \<and> int k \<le> to then nb ! nat (int k - frm) else byte_at disk (nat (b * B + int k)))"
    using assms(2,4) by (auto simp: part_image_def)
  have pos: "1 \<le> n" using i(1) p by linarith
  then show "cb_readable (put_block c (big, n, 0, n - 1) p None) = n - 1"
    by (simp add: put_block_def)
  show "put_ok c (big, n, 0, n - 1)" using pos i(2) assms(3,5) by (simp add: put_ok_def request_ok_def)
  show "cb_data (put_block c (big, n, 0, n - 1) p None) ! nat k =
      (if frm \<le> k \<and> k \<le> to then nb ! nat (k - frm) else byte_at disk (nat (b * B + k)))"
    if k: "0 \<le> k" "k \<le> n - 1"
  proof -
    have "nat k < length buf" using k assms(4) by linarith
    moreover have "cb_data (put_block c (big, n, 0, n - 1) p None) ! nat k = buf ! nat k"
      using calculation assms(6) by (simp add: put_block_def requested_def overlay_def nth_append)
    ultimately show ?thesis using i(3) [of "nat k"] k(1) by simp
  qed
qed

text \<open>
  A part \<open>frm..to\<close> of block \<open>b\<close> is due in the loop: its bytes \<open>nb\<close> are next in the buffer of the
  request, and the files are in order with a size \<open>sz i\<close> of the written one that counts the parts
  before it.
\<close>

definition part_due ::
  "(engine, 'd) env \<Rightarrow> 'd view \<Rightarrow> write_ctx \<Rightarrow> int \<Rightarrow> (int \<Rightarrow> int) \<Rightarrow> int \<Rightarrow> int \<Rightarrow> int \<Rightarrow> byte list \<Rightarrow>
   write_loop \<Rightarrow> (engine, 'd) world \<Rightarrow> bool" where
  "part_due ev hv x i sz b frm to nb l w \<longleftrightarrow>
     write_ready ev hv x i (host_state w) \<and> files_at (FSConfig ev) hv sz (FSCache w) (host_state w) \<and>
     fmlookup (contents (FSCache w)) (to_string i) \<noteq> None \<and>
     block_range (IO_BLOCK_SIZE (FSConfig ev)) (wc_offset x) (wc_size x) b = (frm, to) \<and>
     frm = max (wc_offset x) (b * IO_BLOCK_SIZE (FSConfig ev)) - b * IO_BLOCK_SIZE (FSConfig ev) \<and>
     part_ok (IO_BLOCK_SIZE (FSConfig ev)) (sz i) b frm to nb \<and> b < 2147483648 \<and> wc_file_size x \<le> sz i \<and>
     (\<not> wc_cache_full x \<longrightarrow> blocks_of (FSCache w) (to_string i) b = None \<longrightarrow>
        wc_file_size x \<le> b * IO_BLOCK_SIZE (FSConfig ev) \<longrightarrow> sz i \<le> b * IO_BLOCK_SIZE (FSConfig ev)) \<and>
     mem_read (wc_buf x) (wl_data_buffer_iterator l) (to - frm + 1) = Inr nb \<and>
     int (length (wl_block_caching_buffer l)) = IO_BLOCK_SIZE (FSConfig ev) \<and>
     (wc_cache_full x \<longrightarrow> nfree (cengine (FSCache w)) = 0)"

lemma part_dueD:
  assumes "part_due ev hv x i sz b frm to nb l w"
  shows "write_ready ev hv x i (host_state w)" "files_at (FSConfig ev) hv sz (FSCache w) (host_state w)"
    "fmlookup (contents (FSCache w)) (to_string i) \<noteq> None"
    "block_range (IO_BLOCK_SIZE (FSConfig ev)) (wc_offset x) (wc_size x) b = (frm, to)"
    "frm = max (wc_offset x) (b * IO_BLOCK_SIZE (FSConfig ev)) - b * IO_BLOCK_SIZE (FSConfig ev)"
    "part_ok (IO_BLOCK_SIZE (FSConfig ev)) (sz i) b frm to nb" "b < 2147483648" "wc_file_size x \<le> sz i"
    "\<not> wc_cache_full x \<Longrightarrow> blocks_of (FSCache w) (to_string i) b = None \<Longrightarrow>
       wc_file_size x \<le> b * IO_BLOCK_SIZE (FSConfig ev) \<Longrightarrow> sz i \<le> b * IO_BLOCK_SIZE (FSConfig ev)"
    "mem_read (wc_buf x) (wl_data_buffer_iterator l) (to - frm + 1) = Inr nb"
    "int (length (wl_block_caching_buffer l)) = IO_BLOCK_SIZE (FSConfig ev)"
    "wc_cache_full x \<Longrightarrow> nfree (cengine (FSCache w)) = 0"
  using assms unfolding part_due_def by auto

text \<open>
  The two ways a block that is not cached goes on once its bytes are known: into the cache, or past
  it to the host when the cache has no room.
\<close>

lemma store_block_direct:
  assumes m: "mounted ev hv" and due: "part_due ev hv x i sz b frm to nb l0 w" and c: "c = FSConfig ev"
    and none: "blocks_of (FSCache w) (to_string i) b = None"
    and img: "part_image (IO_BLOCK_SIZE c) (sz i) b frm to nb (content hv (host_state w) i) cf (take (nat n) big)"
    and n: "0 \<le> n" "n \<le> int (length big)"
    and nf: "nfree (cengine (FSCache w)) = 0"
    and put: "\<not> wc_cache_full x \<Longrightarrow>
      fs_put_data_blocks ev (to_string i) (single_put b (big, n, cf, cf + n - 1)) OP_WRITE w =
        Inr (fmupd b False fmempty, w)"
  shows "\<exists>C' d'. store_block ev x b (big, n, cf, cf + n - 1) (l, w) =
      Inr (False, l\<lparr>wl_data_buffer_iterator := wl_data_allocated l\<rparr>, w\<lparr>FSCache := C', host_state := d'\<rparr>) \<and>
    part_written c hv i sz (grown (IO_BLOCK_SIZE c) (sz i) b to) (b * IO_BLOCK_SIZE c + frm) nb
      (FSCache w) (host_state w) C' d'"
proof -
  note due = part_dueD [OF due, folded c]
  have sb: "single_block c" using m c by (simp add: mounted_def)
  have ids: "c_int (IO_BLOCK_SIZE c) = IO_BLOCK_SIZE c" "c_int b = b"
    using single_blockD [OF sb] due(6,7) by (simp_all add: c_int_id part_ok_def)
  have len: "int (length (take (nat n) big)) = n" using n by simp
  have "n < 2147483648" "0 < n"
    using img single_blockD(4) [OF sb] due(6) unfolding part_image_def len by (simp_all add: part_ok_def)
  then have nn: "c_int n = n" by (simp add: c_int_id)
  have rd: "mem_read big 0 n = Inr (take (nat n) big)" using n by (simp add: mem_read_def)
  have x: "wc_inode x = to_string i" "fd_ino hv (host_state w) (wc_fd x) = Some i"
    using due(1) by (simp_all add: write_ready_def)
  obtain d' where d': "os_pwrite (eos ev) (wc_fd x) (take (nat n) big) (b * IO_BLOCK_SIZE c + cf) (host_state w) = (n, d')"
    "part_written c hv i sz (grown (IO_BLOCK_SIZE c) (sz i) b to) (b * IO_BLOCK_SIZE c + frm) nb
      (FSCache w) (host_state w) (FSCache w) d'"
    using direct_part_files [OF m due(2) nf due(6) img none x(2)] len by auto
  have same: "w\<lparr>FSCache := FSCache w, host_state := d'\<rparr> = w\<lparr>host_state := d'\<rparr>" by (cases w) simp
  have "store_block ev x b (big, n, cf, cf + n - 1) (l, w) =
      Inr (False, l\<lparr>wl_data_buffer_iterator := wl_data_allocated l\<rparr>, w\<lparr>host_state := d'\<rparr>)"
    using put d'(1) nn
    by (cases "wc_cache_full x") (simp_all add: store_block_def Let_def c [symmetric] ids x(1) rd syscall_def was_put_def)
  then show ?thesis using d'(2) by (intro exI [of _ "FSCache w"] exI [of _ d']) (simp add: same)
qed

lemma store_block_fails:
  assumes m: "mounted ev hv" and c: "c = FSConfig ev" and inv: "cache_inv (engine_ok c) cblocks (FSCache w)"
    and it: "fmlookup (contents (FSCache w)) (to_string i) = Some it"
    and none: "blocks_of (FSCache w) (to_string i) b = None" and nf: "nfree (cengine (FSCache w)) = 0"
    and put: "put_ok c (big, n, 0, n - 1)"
  shows "fs_put_data_blocks ev (to_string i) (single_put b (big, n, 0, n - 1)) OP_WRITE w = Inr (fmupd b False fmempty, w)"
proof -
  have ion: "item_or_new (FSCache w) (to_string i) = it" using it by (simp add: item_or_new_def)
  have same: "with_item (to_string i) it (cengine (FSCache w)) (FSCache w) = FSCache w"
    using with_item_same [OF cache_invD(2) [OF inv] it] .
  have "put_data_blocks (custom_cache_engine (eos ev) c) (to_string i) (fmupd b (big, n, 0, n - 1) fmempty) OP_WRITE
      (FSCache w) (host_state w) = Inr (fmupd b False fmempty, FSCache w, host_state w)"
    using custom.put_one_fails [OF inv _ put, of "to_string i" b "eos ev" OP_WRITE "host_state w"] none nf ion same
    by (simp add: blocks_of_def)
  then show ?thesis
    using m by (cases w) (simp add: fs_put_data_blocks_def on_cache_host_def single_put_def mounted_def c)
qed

lemma store_block_cached:
  assumes m: "mounted ev hv" and due: "part_due ev hv x i sz b frm to nb l0 w" and c: "c = FSConfig ev"
    and none: "blocks_of (FSCache w) (to_string i) b = None"
    and img: "part_image (IO_BLOCK_SIZE c) (sz i) b frm to nb (content hv (host_state w) i) 0 (take (nat n) big)"
    and n: "0 \<le> n" "n \<le> int (length big)"
    and nn: "n = min (IO_BLOCK_SIZE c) (grown (IO_BLOCK_SIZE c) (sz i) b to - b * IO_BLOCK_SIZE c)"
    and nf: "nfree (cengine (FSCache w)) \<noteq> 0" "\<not> wc_cache_full x"
  shows "\<exists>C'. store_block ev x b (big, n, 0, n - 1) (l, w) =
      Inr (False, l\<lparr>wl_data_buffer_iterator := wl_data_allocated l\<rparr>, w\<lparr>FSCache := C'\<rparr>) \<and>
    part_written c hv i sz (grown (IO_BLOCK_SIZE c) (sz i) b to) (b * IO_BLOCK_SIZE c + frm) nb
      (FSCache w) (host_state w) C' (host_state w)"
proof -
  note due = part_dueD [OF due, folded c]
  define B where "B = IO_BLOCK_SIZE c"
  define put where "put p = put_block c (big, n, 0, n - 1) p (blocks_of (FSCache w) (to_string i) b)" for p
  have sb: "single_block c" using m c by (simp add: mounted_def)
  have ids: "c_int b = b" using due(6,7) by (simp add: c_int_id part_ok_def)
  obtain it where it: "fmlookup (contents (FSCache w)) (to_string i) = Some it" using due(3) by blast
  have len: "int (length (take (nat n) big)) = n" using n by simp
  note sv = served_image [OF due(6) img refl len [symmetric]]
  have rd: "cb_readable (put p) = n - 1" for p unfolding put_def none by (rule sv(1)) (use n len in simp_all)
  have ok: "put_ok c (big, n, 0, n - 1)" by (rule sv(2)) (use n len in simp_all)
  have dat: "cb_data (put p) ! nat k =
      (if frm \<le> k \<and> k \<le> to then nb ! nat (k - frm)
       else file_byte B (blocks_of (FSCache w) (to_string i)) (byte_at (content hv (host_state w) i)) (nat (b * B + k)))"
    if k: "0 \<le> k" "k \<le> n - 1" for p k
  proof -
    have "0 < B" "k < B" using due(6) nn k by (simp_all add: part_ok_def B_def)
    moreover have "int (nat (b * B + k)) = b * B + k" using part_bounds(1) [OF due(6)] k by (simp add: B_def)
    ultimately show ?thesis
      using sv(3) [of big k p] n len k none file_byte_in [of B b "nat (b * B + k)" "blocks_of (FSCache w) (to_string i)"]
      by (simp add: put_def none B_def)
  qed
  obtain C' where C': "put_data_blocks (eengine ev) (to_string i) (fmupd b (big, n, 0, n - 1) fmempty) OP_WRITE
      (FSCache w) (host_state w) = Inr (fmupd b True fmempty, C', host_state w)"
    "part_written c hv i sz (grown B (sz i) b to) (b * B + frm) nb (FSCache w) (host_state w) C' (host_state w)"
  proof (rule exE [OF put_part_files [OF m due(2) c it due(6) ok, where op = OP_WRITE, folded put_def B_def]])
    show "cb_data (put p) ! nat k =
        (if frm \<le> k \<and> k \<le> to then nb ! nat (k - frm)
         else file_byte B (blocks_of (FSCache w) (to_string i)) (byte_at (content hv (host_state w) i)) (nat (b * B + k)))"
      if "0 \<le> k" "k \<le> cb_readable (put p)" for p k
      by (rule dat) (use that rd in simp_all)
  qed (use nf(1) rd nn that in \<open>auto simp: B_def\<close>)
  have "fs_put_data_blocks ev (to_string i) (single_put b (big, n, 0, n - 1)) OP_WRITE w =
      Inr (fmupd b True fmempty, w\<lparr>FSCache := C'\<rparr>)"
    using C'(1) by (cases w) (simp add: fs_put_data_blocks_def on_cache_host_def single_put_def)
  then show ?thesis
    using C'(2) nf(2) due(1)
    by (intro exI [of _ C']) (simp add: store_block_def Let_def ids was_put_def write_ready_def B_def)
qed

lemma store_block_ok:
  assumes m: "mounted ev hv" and due: "part_due ev hv x i sz b frm to nb l0 w" and c: "c = FSConfig ev"
    and none: "blocks_of (FSCache w) (to_string i) b = None"
    and img: "part_image (IO_BLOCK_SIZE c) (sz i) b frm to nb (content hv (host_state w) i) cf (take (nat n) big)"
    and n: "0 \<le> n" "n \<le> int (length big)"
    and cf: "\<not> wc_cache_full x \<Longrightarrow> cf = 0 \<and>
      n = min (IO_BLOCK_SIZE c) (grown (IO_BLOCK_SIZE c) (sz i) b to - b * IO_BLOCK_SIZE c)"
  shows "\<exists>C' d'. store_block ev x b (big, n, cf, cf + n - 1) (l, w) =
      Inr (False, l\<lparr>wl_data_buffer_iterator := wl_data_allocated l\<rparr>, w\<lparr>FSCache := C', host_state := d'\<rparr>) \<and>
    part_written c hv i sz (grown (IO_BLOCK_SIZE c) (sz i) b to) (b * IO_BLOCK_SIZE c + frm) nb
      (FSCache w) (host_state w) C' d'"
proof (cases "nfree (cengine (FSCache w)) = 0")
  case nf: True
  have "fs_put_data_blocks ev (to_string i) (single_put b (big, n, cf, cf + n - 1)) OP_WRITE w =
      Inr (fmupd b False fmempty, w)" if full: "\<not> wc_cache_full x"
  proof -
    note d = part_dueD [OF due, folded c]
    have len: "int (length (take (nat n) big)) = n" using n by simp
    obtain it where it: "fmlookup (contents (FSCache w)) (to_string i) = Some it" using d(3) by blast
    have ok: "put_ok c (big, n, 0, n - 1)"
      by (rule served_image(2) [OF d(6) img [unfolded cf [OF full, THEN conjunct1]] refl len [symmetric] _ refl])
        (use n len in simp_all)
    show ?thesis using store_block_fails [OF m c files_atD(2) [OF d(2)] it none nf ok] cf [OF full] by simp
  qed
  from store_block_direct [OF m due c none img n nf this] show ?thesis .
next
  case nf: False
  then have full: "\<not> wc_cache_full x" using part_dueD(12) [OF due] by auto
  have same: "w\<lparr>FSCache := C', host_state := host_state w\<rparr> = w\<lparr>FSCache := C'\<rparr>" for C' by (cases w) simp
  have cf0: "cf = 0" "n = min (IO_BLOCK_SIZE c) (grown (IO_BLOCK_SIZE c) (sz i) b to - b * IO_BLOCK_SIZE c)"
    using cf [OF full] by simp_all
  obtain C' where "store_block ev x b (big, n, 0, n - 1) (l, w) =
      Inr (False, l\<lparr>wl_data_buffer_iterator := wl_data_allocated l\<rparr>, w\<lparr>FSCache := C'\<rparr>)"
    "part_written c hv i sz (grown (IO_BLOCK_SIZE c) (sz i) b to) (b * IO_BLOCK_SIZE c + frm) nb
      (FSCache w) (host_state w) C' (host_state w)"
    using store_block_cached [OF m due c none img [unfolded cf0(1)] n cf0(2) nf full] by blast
  then show ?thesis by (intro exI [of _ C'] exI [of _ "host_state w"]) (simp add: same cf0(1))
qed

section \<open>A block that is not cached\<close>

text \<open>What the loop finds on the host of a block that is not cached.\<close>

lemma host_block_read:
  assumes m: "mounted ev hv" and ok: "files_at c hv sz C d" and fd: "fd_ino hv d fd = Some i"
    and none: "blocks_of C (to_string i) b = None" and b: "0 \<le> b" "b * IO_BLOCK_SIZE c < sz i" and B: "0 < IO_BLOCK_SIZE c"
  defines "read \<equiv> take (nat (IO_BLOCK_SIZE c)) (drop (nat (b * IO_BLOCK_SIZE c)) (content hv d i))"
  shows "os_pread (eos ev) fd (IO_BLOCK_SIZE c) (b * IO_BLOCK_SIZE c) d = (int (length read), read)"
    and "int (length read) = min (IO_BLOCK_SIZE c) (sz i - b * IO_BLOCK_SIZE c)"
proof -
  define B where "B = IO_BLOCK_SIZE c"
  define disk where "disk = content hv d i"
  have bB: "0 \<le> b * B" using b B by (simp add: B_def)
  have "pread_law (eos ev) hv" using m by (auto simp: mounted_def intro: host_lawsD(3))
  then show "os_pread (eos ev) fd (IO_BLOCK_SIZE c) (b * IO_BLOCK_SIZE c) d = (int (length read), read)"
    using fd B bB by (simp add: pread_law_def read_def Let_def B_def)
  note f = files_atD(4) [OF ok, of i, folded B_def disk_def]
  have low: "min (sz i) (b * B + B) \<le> int (length disk)" by (rule file_okD(4) [OF f b(1) b(2) [folded B_def] none])
  then have le: "b * B \<le> int (length disk)" using b(2) B by (simp add: B_def min_def split: if_splits)
  have int: "int (nat (b * B)) = b * B" "int (nat B) = B" using bB B by (simp_all add: B_def)
  have "int (length disk - nat (b * B)) = int (length disk) - int (nat (b * B))" using le bB by linarith
  then have "int (length read) = min (int (nat B)) (int (length disk) - int (nat (b * B)))"
    by (simp add: read_def disk_def [symmetric] B_def [symmetric] min_def del: of_nat_diff int_nat_eq)
  moreover have "int (length disk) \<le> sz i" by (rule file_okD(1) [OF f])
  ultimately show "int (length read) = min (IO_BLOCK_SIZE c) (sz i - b * IO_BLOCK_SIZE c)"
    using low b(2) B int unfolding B_def by (simp add: min_def split: if_splits)
qed

abbreviation part_done where
  "part_done ev hv x i sz b frm to nb l w r \<equiv> \<exists>l' C' d'. r = Inr (False, l', w\<lparr>FSCache := C', host_state := d'\<rparr>) \<and>
    wl_data_allocated l' = wl_data_allocated l + (to - frm + 1) \<and>
    wl_data_buffer_iterator l' = wl_data_allocated l + (to - frm + 1) \<and>
    int (length (wl_block_caching_buffer l')) = IO_BLOCK_SIZE (FSConfig ev) \<and>
    part_written (FSConfig ev) hv i sz (grown (IO_BLOCK_SIZE (FSConfig ev)) (sz i) b to)
      (b * IO_BLOCK_SIZE (FSConfig ev) + frm) nb (FSCache w) (host_state w) C' d'"

lemma write_uncached_merged:
  assumes m: "mounted ev hv" and due: "part_due ev hv x i sz b frm to nb l w"
    and none: "blocks_of (FSCache w) (to_string i) b = None"
    and behind: "wc_file_size x > b * IO_BLOCK_SIZE (FSConfig ev)" and full: "\<not> wc_cache_full x"
  shows "part_done ev hv x i sz b frm to nb l w (write_uncached_block ev x b (l, w))"
proof -
  define B where "B = IO_BLOCK_SIZE (FSConfig ev)"
  define disk where "disk = content hv (host_state w) i"
  note d = part_dueD [OF due, folded B_def]
  have sb: "single_block (FSConfig ev)" using m by (simp add: mounted_def)
  have ids: "c_int B = B" using single_blockD [OF sb] by (simp add: c_int_id B_def)
  have p: "0 < B" "0 \<le> frm" "frm \<le> to" "0 \<le> b" using d(6) by (simp_all add: part_ok_def)
  have x: "\<not> wc_fd_caching x < 0" "fd_ino hv (host_state w) (wc_fd_caching x) = Some i"
    using d(1) by (simp_all add: write_ready_def)
  have lt: "b * B < sz i" using behind d(8) by (simp add: B_def)
  define read where "read = take (nat B) (drop (nat (b * B)) disk)"
  note rd = host_block_read [OF m d(2) x(2) none p(4) lt [unfolded B_def] p(1) [unfolded B_def], folded B_def disk_def, folded read_def]
  have pos: "int (length read) \<noteq> 0" using rd(2) lt p(1) by linarith
  define n where "n = max (int (length read)) (to + 1)"
  obtain buf where buf: "merge_block (wl_block_caching_buffer l) read nb frm to = Inr ((buf, n, 0, n - 1), buf)"
    "int (length buf) = B" "part_image B (sz i) b frm to nb disk 0 (take (nat n) buf)" "n = min B (grown B (sz i) b to - b * B)"
    using merge_block_image [OF d(6) read_def rd(2) lt d(11)] unfolding n_def by blast
  define l' where "l' = l\<lparr>wl_data_allocated := wl_data_allocated l + (to - frm + 1), wl_block_caching_buffer := buf\<rparr>"
  have n: "0 \<le> n" "n \<le> int (length buf)" using buf(2,4) p by (simp_all add: n_def)
  obtain C' d' where st: "store_block ev x b (buf, n, 0, 0 + n - 1) (l', w) =
      Inr (False, l'\<lparr>wl_data_buffer_iterator := wl_data_allocated l'\<rparr>, w\<lparr>FSCache := C', host_state := d'\<rparr>)"
    "part_written (FSConfig ev) hv i sz (grown B (sz i) b to) (b * B + frm) nb (FSCache w) (host_state w) C' d'"
    using store_block_ok [OF m due refl none buf(3) [unfolded B_def disk_def] n, where l = l'] buf(4) unfolding B_def by blast
  have "write_uncached_block ev x b (l, w) =
      Inr (False, l'\<lparr>wl_data_buffer_iterator := wl_data_allocated l'\<rparr>, w\<lparr>FSCache := C', host_state := d'\<rparr>)"
    using st(1) behind full x(1) rd(1) pos buf(1) d(4,10)
    by (simp add: write_uncached_block_def Let_def B_def [symmetric] ids l'_def)
  then show ?thesis using st(2) buf(2) by (simp add: l'_def B_def) blast
qed

lemma write_uncached_plain:
  assumes m: "mounted ev hv" and due: "part_due ev hv x i sz b frm to nb l w"
    and none: "blocks_of (FSCache w) (to_string i) b = None"
    and plain: "\<not> (wc_file_size x > b * IO_BLOCK_SIZE (FSConfig ev) \<and> \<not> wc_cache_full x)"
  shows "part_done ev hv x i sz b frm to nb l w (write_uncached_block ev x b (l, w))"
proof -
  define B where "B = IO_BLOCK_SIZE (FSConfig ev)"
  note d = part_dueD [OF due, folded B_def]
  have sb: "single_block (FSConfig ev)" using m by (simp add: mounted_def)
  have ids: "c_int B = B" using single_blockD [OF sb] by (simp add: c_int_id B_def)
  have p: "0 < B" "0 \<le> frm" "frm \<le> to" "int (length nb) = to - frm + 1" using d(6) by (simp_all add: part_ok_def)
  have x: "\<not> wc_fd_caching x < 0" using d(1) by (simp add: write_ready_def)
  define n where "n = to - frm + 1"
  have n: "0 \<le> n" "n \<le> int (length nb)" "frm + n - 1 = to" using p by (simp_all add: n_def)
  have img: "part_image B (sz i) b frm to nb (content hv (host_state w) i) frm (take (nat n) nb)"
    using part_image_plain [OF d(6)] p(4) by (simp add: n_def)
  have whole: "frm = 0 \<and> n = min B (grown B (sz i) b to - b * B)" if "\<not> wc_cache_full x"
  proof -
    have "sz i \<le> b * B" using d(9) [OF that none] plain that by (simp add: B_def)
    then show ?thesis using p d(6) by (auto simp: grown_def part_ok_def n_def)
  qed
  define l' where "l' = l\<lparr>wl_data_allocated := wl_data_allocated l + (to - frm + 1)\<rparr>"
  have l': "l\<lparr>wl_data_allocated := wl_data_allocated l + (to - frm + 1),
      wl_block_caching_buffer := wl_block_caching_buffer l\<rparr> = l'"
    by (cases l) (simp add: l'_def)
  obtain C' d' where st: "store_block ev x b (nb, n, frm, frm + n - 1) (l', w) =
      Inr (False, l'\<lparr>wl_data_buffer_iterator := wl_data_allocated l'\<rparr>, w\<lparr>FSCache := C', host_state := d'\<rparr>)"
    "part_written (FSConfig ev) hv i sz (grown B (sz i) b to) (b * B + frm) nb (FSCache w) (host_state w) C' d'"
    using store_block_ok [OF m due refl none img [unfolded B_def] n(1,2), where l = l'] whole unfolding B_def by blast
  have np: "(wc_file_size x > b * B \<and> \<not> wc_cache_full x) = False" using plain by (simp add: B_def)
  have "write_uncached_block ev x b (l, w) = store_block ev x b (nb, n, frm, to) (l', w)"
    by (simp only: write_uncached_block_def Let_def B_def [symmetric] ids d(4) prod.case np x if_False d(10) [folded n_def] n_def [symmetric]
        lift_simps bnd_Inr not_False_eq_True simp_thms if_True less_irrefl l' [unfolded n_def [symmetric]])
  then show ?thesis using st n(3) d(11) by (simp add: l'_def B_def n_def) blast
qed

end
