(* ===== verification/Fs_Write.thy ===== *)
theory Fs_Write
  imports Fs_Blocks
begin

text \<open>
  Writing: the loop over the blocks of a request and the whole handler with the filling of gaps.
  Afterwards the file reads as if the bytes had been written to it, and no other file's blocks
  have changed.
\<close>


section \<open>The loop over the blocks of a write\<close>

lemma write_block_step:
  assumes m: "mounted ev hv" and due: "part_due ev hv x i sz b frm to nb l w"
  shows "part_done ev hv x i sz b frm to nb l w (write_block ev x b (l, w))"
proof -
  note d = part_dueD [OF due]
  have b': "c_int b = b" using d(6,7) by (simp add: c_int_id part_ok_def)
  have ino: "wc_inode x = to_string i" using d(1) by (simp add: write_ready_def)
  note ci = cached_iff [OF m d(2), of i b]
  show ?thesis
  proof (cases "blocks_of (FSCache w) (to_string i) b")
    case None
    then have "write_block ev x b (l, w) = write_uncached_block ev x b (l, w)"
      using ci by (simp add: write_block_def b' ino)
    then show ?thesis using write_uncached_merged [OF m due None] write_uncached_plain [OF m due None] by metis
  next
    case (Some cb)
    obtain it where it: "fmlookup (contents (FSCache w)) (to_string i) = Some it" using d(3) by blast
    obtain C' where C': "write_cached_block ev x b (l, w) =
      Inr (False, l\<lparr>wl_data_allocated := wl_data_allocated l + (to - frm + 1),
                    wl_data_buffer_iterator := wl_data_allocated l + (to - frm + 1)\<rparr>, w\<lparr>FSCache := C'\<rparr>)"
      "part_written (FSConfig ev) hv i sz (grown (IO_BLOCK_SIZE (FSConfig ev)) (sz i) b to)
        (b * IO_BLOCK_SIZE (FSConfig ev) + frm) nb (FSCache w) (host_state w) C' (host_state w)"
      using write_cached_step [OF m refl d(1,2) it d(4,6,7,10) Some] by blast
    have same: "w\<lparr>FSCache := C', host_state := host_state w\<rparr> = w\<lparr>FSCache := C'\<rparr>" by (cases w) simp
    have "write_block ev x b (l, w) = write_cached_block ev x b (l, w)"
      using ci Some by (simp add: write_block_def b' ino)
    then show ?thesis
      using C' d(11) by (intro exI [of _ "l\<lparr>wl_data_allocated := wl_data_allocated l + (to - frm + 1),
          wl_data_buffer_iterator := wl_data_allocated l + (to - frm + 1)\<rparr>"] exI [of _ C'] exI [of _ "host_state w"])
        (simp add: same)
  qed
qed

text \<open>How far the write has got when block \<open>b\<close> is next.\<close>

definition written_to :: "int \<Rightarrow> int \<Rightarrow> int \<Rightarrow> int \<Rightarrow> int" where
  "written_to B offset sz b = min (offset + sz) (max offset (b * B))"

text \<open>
  The state of the loop when block \<open>b\<close> is next: \<open>s0\<close> is the size of the file before the loop, and
  every byte before \<open>written_to\<close> is in place.
\<close>

definition write_under_way ::
  "(engine, 'd) env \<Rightarrow> 'd view \<Rightarrow> write_ctx \<Rightarrow> int \<Rightarrow> int \<Rightarrow> (int \<Rightarrow> int) \<Rightarrow> int \<Rightarrow> write_loop \<Rightarrow> (engine, 'd) world \<Rightarrow> bool"
  where
  "write_under_way ev hv x i s0 sz b l w \<longleftrightarrow>
     write_ready ev hv x i (host_state w) \<and> files_at (FSConfig ev) hv sz (FSCache w) (host_state w) \<and>
     fmlookup (contents (FSCache w)) (to_string i) \<noteq> None \<and>
     wc_offset x div IO_BLOCK_SIZE (FSConfig ev) \<le> b \<and>
     wl_data_allocated l = written_to (IO_BLOCK_SIZE (FSConfig ev)) (wc_offset x) (wc_size x) b - wc_offset x \<and>
     wl_data_buffer_iterator l = wl_data_allocated l \<and>
     int (length (wl_block_caching_buffer l)) = IO_BLOCK_SIZE (FSConfig ev) \<and>
     sz i = max s0 (written_to (IO_BLOCK_SIZE (FSConfig ev)) (wc_offset x) (wc_size x) b) \<and>
     wc_file_size x \<le> s0 \<and> wc_offset x \<le> s0 \<and> (s0 = wc_file_size x \<or> s0 = wc_offset x) \<and>
     (\<not> wc_cache_full x \<longrightarrow> blocks_of (FSCache w) (to_string i) b = None \<longrightarrow>
        wc_file_size x \<le> b * IO_BLOCK_SIZE (FSConfig ev) \<longrightarrow> sz i \<le> b * IO_BLOCK_SIZE (FSConfig ev)) \<and>
     (wc_cache_full x \<longrightarrow> nfree (cengine (FSCache w)) = 0)"

lemma loop_part:
  assumes B: "0 < B" "B < 2147483648" and off: "0 \<le> off" "0 < len" "off + len \<le> 2147483648 * B"
    and b: "off div B \<le> b" "b \<le> (off + len - 1) div B"
  defines "frm \<equiv> max off (b * B) - b * B" and "to \<equiv> min (off + len) (b * B + B) - 1 - b * B"
  shows "block_range B off len b = (frm, to)" "0 \<le> b" "b < 2147483648"
    "written_to B off len b = b * B + frm" "written_to B off len (b + 1) = b * B + to + 1"
    "0 \<le> frm" "frm \<le> to" "to < B" "off < b * B + B"
proof -
  have "2147483648 * B \<le> 2147483648 * 2147483648" using B(2) by (intro mult_left_mono) simp_all
  then have bound: "off + len \<le> 9223372036854775808" using off(3) by simp
  note br = block_range_eq [OF B(1) off(1,2) bound b]
  show "block_range B off len b = (frm, to)" using br(1) by (simp add: frm_def to_def)
  show "0 \<le> b" using b(1) off(1) B(1) by (meson order_trans pos_imp_zdiv_nonneg_iff)
  show "b < 2147483648"
  proof (rule ccontr)
    assume "\<not> ?thesis"
    then have "2147483648 * B \<le> b * B" using B(1) by (intro mult_right_mono) simp_all
    then show False using br(2) off(3) by simp
  qed
  show "written_to B off len b = b * B + frm" "written_to B off len (b + 1) = b * B + to + 1"
    using br(2,3) off(2) by (auto simp: written_to_def frm_def to_def algebra_simps)
  show "0 \<le> frm" "frm \<le> to" "to < B" "off < b * B + B" using br(2,3) off(2) B(1) by (auto simp: frm_def to_def)
qed

lemma under_way_part:
  assumes m: "mounted ev hv" and u: "write_under_way ev hv x i s0 sz b l w"
    and b: "b \<le> (wc_offset x + wc_size x - 1) div IO_BLOCK_SIZE (FSConfig ev)"
  obtains frm to nb where "part_due ev hv x i sz b frm to nb l w"
    "written_to (IO_BLOCK_SIZE (FSConfig ev)) (wc_offset x) (wc_size x) b = b * IO_BLOCK_SIZE (FSConfig ev) + frm"
    "written_to (IO_BLOCK_SIZE (FSConfig ev)) (wc_offset x) (wc_size x) (b + 1) =
       b * IO_BLOCK_SIZE (FSConfig ev) + frm + int (length nb)" "int (length nb) = to - frm + 1"
    "nb @ drop (nat (wl_data_allocated l + (to - frm + 1))) (wc_buf x) = drop (nat (wl_data_allocated l)) (wc_buf x)"
    "wc_offset x < b * IO_BLOCK_SIZE (FSConfig ev) + IO_BLOCK_SIZE (FSConfig ev)" "0 \<le> b" "0 \<le> frm"
    "to < IO_BLOCK_SIZE (FSConfig ev)"
proof -
  define B where "B = IO_BLOCK_SIZE (FSConfig ev)"
  have sb: "single_block (FSConfig ev)" using m by (simp add: mounted_def)
  note u = u [unfolded write_under_way_def, folded B_def]
  have rr: "wc_size x = int (length (wc_buf x))" "0 \<le> wc_offset x" "0 < wc_size x" "wc_offset x + wc_size x \<le> 2147483648 * B"
    using u by (simp_all add: write_ready_def B_def)
  define frm where "frm = max (wc_offset x) (b * B) - b * B"
  define to where "to = min (wc_offset x + wc_size x) (b * B + B) - 1 - b * B"
  have bl: "wc_offset x div B \<le> b" using u by blast
  have B: "0 < B" "B < 2147483648" using single_blockD(3,4) [OF sb] by (simp_all add: B_def)
  note lp = loop_part [OF B rr(2-4) bl b [folded B_def], folded frm_def to_def]
  have alloc: "wl_data_allocated l = b * B + frm - wc_offset x" using u lp(4) by simp
  have a0: "0 \<le> wl_data_allocated l" using alloc by (simp add: frm_def)
  define nb where "nb = take (nat (to - frm + 1)) (drop (nat (wl_data_allocated l)) (wc_buf x))"
  have "wl_data_allocated l + (to - frm + 1) \<le> wc_size x" using alloc by (simp add: to_def)
  then have rd: "mem_read (wc_buf x) (wl_data_buffer_iterator l) (to - frm + 1) = Inr nb"
    using a0 lp(7) rr(1) u by (simp add: mem_read_def nb_def)
  have nbl: "int (length nb) = to - frm + 1" using mem_read_length [OF rd] .
  have si: "sz i = max s0 (b * B + frm)" using u lp(4) by simp
  have part: "part_ok B (sz i) b frm to nb" using B(1) lp(2,6-8) nbl si by (simp add: part_ok_def)
  have le: "wc_file_size x \<le> sz i" using u si by auto
  have due: "part_due ev hv x i sz b frm to nb l w"
    unfolding part_due_def B_def [symmetric] using u lp(1,3) part rd le frm_def by blast
  have "nat (wl_data_allocated l + (to - frm + 1)) = nat (to - frm + 1) + nat (wl_data_allocated l)"
    using a0 lp(7) by (simp add: nat_add_distrib)
  then have app: "nb @ drop (nat (wl_data_allocated l + (to - frm + 1))) (wc_buf x) = drop (nat (wl_data_allocated l)) (wc_buf x)"
    by (simp add: nb_def drop_drop [symmetric] del: drop_drop)
  show thesis using that [OF due] lp(2,4-6,8,9) nbl app by (simp add: B_def)
qed

lemma under_way_step:
  assumes m: "mounted ev hv" and u: "write_under_way ev hv x i s0 sz b l w" and due: "part_due ev hv x i sz b frm to nb l w"
    and wt: "written_to (IO_BLOCK_SIZE (FSConfig ev)) (wc_offset x) (wc_size x) b = b * IO_BLOCK_SIZE (FSConfig ev) + frm"
      "written_to (IO_BLOCK_SIZE (FSConfig ev)) (wc_offset x) (wc_size x) (b + 1) =
        b * IO_BLOCK_SIZE (FSConfig ev) + frm + int (length nb)" "int (length nb) = to - frm + 1"
    and in_block: "wc_offset x < b * IO_BLOCK_SIZE (FSConfig ev) + IO_BLOCK_SIZE (FSConfig ev)"
    and l1: "wl_data_allocated l1 = wl_data_allocated l + (to - frm + 1)"
      "wl_data_buffer_iterator l1 = wl_data_allocated l + (to - frm + 1)"
      "int (length (wl_block_caching_buffer l1)) = IO_BLOCK_SIZE (FSConfig ev)"
    and pw: "part_written (FSConfig ev) hv i sz (grown (IO_BLOCK_SIZE (FSConfig ev)) (sz i) b to)
      (b * IO_BLOCK_SIZE (FSConfig ev) + frm) nb (FSCache w) (host_state w) C1 d1"
  shows "write_under_way ev hv x i s0 (sz(i := grown (IO_BLOCK_SIZE (FSConfig ev)) (sz i) b to)) (b + 1) l1
    (w\<lparr>FSCache := C1, host_state := d1\<rparr>)"
proof -
  define B where "B = IO_BLOCK_SIZE (FSConfig ev)"
  note u = u [unfolded write_under_way_def, folded B_def]
  have p: "0 < B" "0 \<le> frm" "frm \<le> to" "to < B" using part_dueD(6) [OF due] by (simp_all add: part_ok_def B_def)
  have frm: "frm = max (wc_offset x) (b * B) - b * B" using part_dueD(5) [OF due] by (simp add: B_def)
  have si: "sz i = max s0 (b * B + frm)" using u wt(1) by (simp add: B_def)
  have kept: "fd_ino hv d1 = fd_ino hv (host_state w)" "nfree (cengine C1) \<le> nfree (cengine (FSCache w))"
    "map_option imetadata (fmlookup (contents C1) (to_string i)) =
       map_option imetadata (fmlookup (contents (FSCache w)) (to_string i))"
    using pw unfolding parts_written_def by blast+
  have ready: "write_ready ev hv x i d1" using u kept(1) by (simp add: write_ready_def)
  have s1: "grown B (sz i) b to = max s0 (written_to B (wc_offset x) (wc_size x) (b + 1))"
    using si p(3) wt(2,3) by (simp add: grown_def B_def)
  have first: "grown B (sz i) b to \<le> (b + 1) * B" if "wc_file_size x \<le> (b + 1) * B"
    using that u in_block [folded B_def] p by (auto simp: si grown_def frm algebra_simps)
  have nl: "wc_cache_full x \<longrightarrow> nfree (cengine C1) = 0" using u kept(2) by auto
  have it: "fmlookup (contents C1) (to_string i) \<noteq> None" using u kept(3) by auto
  have bl: "wc_offset x div B \<le> b + 1" using u by linarith
  have al: "wl_data_allocated l1 = written_to B (wc_offset x) (wc_size x) (b + 1) - wc_offset x"
    using l1(1) u wt by (simp add: B_def)
  have ok: "files_at (FSConfig ev) hv (sz(i := grown B (sz i) b to)) C1 d1" using pw by (simp add: parts_written_def B_def)
  have bounds: "wc_file_size x \<le> s0" "wc_offset x \<le> s0" "s0 = wc_file_size x \<or> s0 = wc_offset x" using u by blast+
  have l: "wl_data_buffer_iterator l1 = wl_data_allocated l1" "int (length (wl_block_caching_buffer l1)) = B"
    using l1 by (simp_all add: B_def)
  show ?thesis
    unfolding write_under_way_def B_def [symmetric]
    using bounds ready ok it bl al l s1 first nl by simp
qed

lemma write_loop_ok:
  assumes m: "mounted ev hv" and u: "write_under_way ev hv x i s0 sz b l w"
    and n: "b + int n = (wc_offset x + wc_size x - 1) div IO_BLOCK_SIZE (FSConfig ev) + 1"
  shows "\<exists>l' C' d'. loopE (write_block ev x) [b .. (wc_offset x + wc_size x - 1) div IO_BLOCK_SIZE (FSConfig ev)] (l, w) =
      Inr (l', w\<lparr>FSCache := C', host_state := d'\<rparr>) \<and>
    parts_written n (FSConfig ev) hv i sz (max s0 (wc_offset x + wc_size x))
      (written_to (IO_BLOCK_SIZE (FSConfig ev)) (wc_offset x) (wc_size x) b)
      (drop (nat (wl_data_allocated l)) (wc_buf x)) (FSCache w) (host_state w) C' d'"
  using u n
proof (induction n arbitrary: b l w sz)
  case 0
  define B where "B = IO_BLOCK_SIZE (FSConfig ev)"
  note u = 0(1) [unfolded write_under_way_def, folded B_def]
  have B: "0 < B" using m single_blockD(3) by (auto simp: B_def mounted_def)
  have rr: "wc_size x = int (length (wc_buf x))" "0 < wc_size x" using u by (simp_all add: write_ready_def)
  have "wc_offset x + wc_size x \<le> b * B"
    using block_bounds(2) [OF B, of "wc_offset x + wc_size x - 1"] 0(2) by (simp add: B_def algebra_simps)
  then have e: "written_to B (wc_offset x) (wc_size x) b = wc_offset x + wc_size x"
    using rr by (simp add: written_to_def)
  have "drop (nat (wl_data_allocated l)) (wc_buf x) = []" using u e rr by simp
  moreover have "loopE (write_block ev x) [b .. (wc_offset x + wc_size x - 1) div B] (l, w) = Inr (l, w)"
    using 0(2) by (simp add: B_def)
  moreover have "files_at (FSConfig ev) hv sz (FSCache w) (host_state w)" "sz i = max s0 (wc_offset x + wc_size x)"
    using u e by simp_all
  ultimately show ?case
    using parts_none [of "FSConfig ev" hv sz "FSCache w" "host_state w" i "wc_offset x + wc_size x"] e
    by (intro exI [of _ l] exI [of _ "FSCache w"] exI [of _ "host_state w"]) (simp add: B_def)
next
  case (Suc n)
  define B where "B = IO_BLOCK_SIZE (FSConfig ev)"
  define hi where "hi = (wc_offset x + wc_size x - 1) div B"
  have B: "0 < B" using m single_blockD(3) by (auto simp: B_def mounted_def)
  have bh: "b \<le> hi" using Suc.prems(2) by (simp add: hi_def B_def)
  obtain frm to nb where due: "part_due ev hv x i sz b frm to nb l w"
    "written_to B (wc_offset x) (wc_size x) b = b * B + frm"
    "written_to B (wc_offset x) (wc_size x) (b + 1) = b * B + frm + int (length nb)" "int (length nb) = to - frm + 1"
    "nb @ drop (nat (wl_data_allocated l + (to - frm + 1))) (wc_buf x) = drop (nat (wl_data_allocated l)) (wc_buf x)"
    "wc_offset x < b * B + B" "0 \<le> b" "0 \<le> frm"
    using under_way_part [OF m Suc.prems(1) bh [unfolded hi_def B_def]] unfolding B_def by blast
  obtain l1 C1 d1 where st: "write_block ev x b (l, w) = Inr (False, l1, w\<lparr>FSCache := C1, host_state := d1\<rparr>)"
    "wl_data_allocated l1 = wl_data_allocated l + (to - frm + 1)"
    "wl_data_buffer_iterator l1 = wl_data_allocated l + (to - frm + 1)"
    "int (length (wl_block_caching_buffer l1)) = B"
    "part_written (FSConfig ev) hv i sz (grown B (sz i) b to) (b * B + frm) nb (FSCache w) (host_state w) C1 d1"
    using write_block_step [OF m due(1)] unfolding B_def by blast
  define w1 where "w1 = w\<lparr>FSCache := C1, host_state := d1\<rparr>"
  define s1 where "s1 = grown B (sz i) b to"
  have u1: "write_under_way ev hv x i s0 (sz(i := s1)) (b + 1) l1 w1"
    unfolding w1_def s1_def B_def
    by (rule under_way_step [OF m Suc.prems(1) due(1) due(2-4,6) [unfolded B_def] st(2-5) [unfolded B_def]])
  have n1: "b + 1 + int n = (wc_offset x + wc_size x - 1) div IO_BLOCK_SIZE (FSConfig ev) + 1"
    using Suc.prems(2) by simp
  have w1: "FSCache w1 = C1" "host_state w1 = d1" by (simp_all add: w1_def)
  obtain l' C' d' where run: "loopE (write_block ev x) [b + 1 .. hi] (l1, w1) =
      Inr (l', w1\<lparr>FSCache := C', host_state := d'\<rparr>)"
    "parts_written n (FSConfig ev) hv i (sz(i := s1)) (max s0 (wc_offset x + wc_size x)) (b * B + frm + int (length nb))
      (drop (nat (wl_data_allocated l1)) (wc_buf x)) C1 d1 C' d'"
    using Suc.IH [OF u1 n1] unfolding B_def [symmetric] hi_def [symmetric] due(3) w1 by blast
  have bB: "0 \<le> b * B + frm" using due(7,8) B by simp
  have "parts_written (1 + n) (FSConfig ev) hv i sz (max s0 (wc_offset x + wc_size x)) (b * B + frm)
      (nb @ drop (nat (wl_data_allocated l1)) (wc_buf x)) (FSCache w) (host_state w) C' d'"
    by (rule parts_append [OF st(5) [folded s1_def] run(2) bB B [unfolded B_def]])
  moreover have "loopE (write_block ev x) [b .. hi] (l, w) = Inr (l', w\<lparr>FSCache := C', host_state := d'\<rparr>)"
  proof -
    have "[b .. hi] = b # [b + 1 .. hi]" using bh by (simp add: upto_rec1)
    then show ?thesis using st(1) run(1) by (simp add: w1_def)
  qed
  ultimately show ?case
    unfolding st(2) due(5) B_def [symmetric] hi_def [symmetric] due(2) by auto
qed

section \<open>The handler\<close>

text \<open>
  What a write of \<open>bs\<close> at \<open>off\<close> to file \<open>i\<close> does, whatever was cached before. It takes at most
  one page per block; as long as there are that many, the host's copy is not touched at all.
\<close>

definition block_span :: "int \<Rightarrow> int \<Rightarrow> int \<Rightarrow> nat" where
  "block_span B off len = nat ((off + len - 1) div B - off div B + 1)"

definition written ::
  "nat \<Rightarrow> config \<Rightarrow> 'd view \<Rightarrow> int \<Rightarrow> int \<Rightarrow> byte list \<Rightarrow> engine cache \<Rightarrow> 'd \<Rightarrow> engine cache \<Rightarrow> 'd \<Rightarrow> bool" where
  "written k c hv i off bs C d C' d' \<longleftrightarrow>
     files_ok c hv C' d' \<and>
     seen c hv C' d' = (seen c hv C d)(i := file_write (seen c hv C d i) off bs) \<and>
     (\<exists>disk'. content hv d' = (content hv d)(i := disk') \<and> torn off bs (content hv d i) disk') \<and>
     path_ino hv d' = path_ino hv d \<and> fd_ino hv d' = fd_ino hv d \<and>
     fmlookup (contents C') (to_string i) \<noteq> None \<and>
     (\<forall>j. j \<noteq> to_string i \<longrightarrow> blocks_of C' j = blocks_of C j) \<and>
     nfree (cengine C') \<le> nfree (cengine C) \<and> nfree (cengine C) \<le> k + nfree (cengine C') \<and>
     (k \<le> nfree (cengine C) \<longrightarrow> content hv d' = content hv d)"

lemma file_size_seen:
  assumes "files_at c hv sz C d"
  shows "int (length (seen_at c hv sz C d i)) = sz i"
  using file_okD(2) [OF files_atD(4) [OF assms]] by (simp add: seen_at_def)

lemma file_size_cong:
  assumes "content hv d' = content hv d" and "contents C' = contents C"
  shows "file_size hv C' d' = file_size hv C d"
  unfolding file_size_def assms ..

lemma write_metadata_size:
  assumes "0 \<le> offset" and "0 \<le> sz" and "offset + sz < 9223372036854775808"
    and "write_metadata offset sz before t = (meta, vs)"
  shows "meta_size (imetadata (update_metadata meta vs it)) = max before (offset + sz)"
proof -
  have "s64 (u64 (offset + sz)) = offset + sz" using assms by (simp add: u64_id s64_id)
  then show ?thesis
    using assms(4) by (auto simp: write_metadata_def Let_def update_metadata_def update_field_def)
qed

lemma files_resized:
  assumes ok: "files_at c hv sz C d" and it: "fmlookup (contents C) (to_string i) = Some it"
    and sz: "sz i = meta_size (imetadata it')" "\<And>j. j \<noteq> i \<Longrightarrow> sz j = file_size hv C d j"
    and dt: "idata it' = idata it"
  defines "C' \<equiv> with_item (to_string i) it' (cengine C) C"
  shows "files_ok c hv C' d" and "seen c hv C' d = seen_at c hv sz C d"
proof -
  have inv: "cache_ok c C'"
    using with_metadata_inv [OF files_atD(2) [OF ok] it dt] by (simp add: C'_def cache_ok_def)
  have size: "file_size hv C' d = sz"
    using sz file_size_with_item [of hv d d i it' "cengine C" C] by (auto simp: C'_def fun_eq_iff)
  show "files_ok c hv C' d" "seen c hv C' d = seen_at c hv sz C d"
    unfolding size
    using files_at_item [OF ok inv [unfolded C'_def] cblocks_cengine, folded C'_def] by blast+
qed

text \<open>After the loop: the new size is recorded and the descriptor used for reading is closed.\<close>

lemma written_after_loop:
  assumes close: "close_law (eos ev) hv"
    and lp: "parts_written k c hv i sz s offset buf C d1 C2 d2" and sz: "sz = file_size hv C d"
    and op: "fd_ino hv d fc = None" "fd_ino hv d1 = (fd_ino hv d)(fc := Some i)" "content hv d1 = content hv d"
      "path_ino hv d1 = path_ino hv d"
    and it: "fmlookup (contents C2) (to_string i) = Some it" and it': "idata it' = idata it" "meta_size (imetadata it') = s"
  defines "C' \<equiv> with_item (to_string i) it' (cengine C2) C2" and "d' \<equiv> os_close (eos ev) fc d2"
  shows "written k c hv i offset buf C d C' d'"
proof -
  have inv: "files_at c hv (sz(i := s)) C2 d2" using lp by (simp add: parts_written_def)
  have cl: "content hv d' = content hv d2" "path_ino hv d' = path_ino hv d2" "fd_ino hv d' = (fd_ino hv d2)(fc := None)"
    using close by (simp_all add: close_law_def d'_def)
  obtain disk' where disk': "content hv d2 = (content hv d1)(i := disk')" "torn offset buf (content hv d1 i) disk'"
    using lp by (auto simp: parts_written_def)
  have others: "sz j = file_size hv C2 d2 j" if "j \<noteq> i" for j
  proof -
    have a: "content hv d2 j = content hv d j" using that disk'(1) op(3) by simp
    have b: "fmlookup (contents C2) (to_string j) = fmlookup (contents C) (to_string j)"
      using that lp by (simp add: parts_written_def)
    show ?thesis unfolding sz file_size_def a b ..
  qed
  note rs = files_resized [OF inv it, of it', folded C'_def]
  have fin: "files_ok c hv C' d2" "seen c hv C' d2 = seen_at c hv (sz(i := s)) C2 d2"
    by (rule rs; use it' others in simp)+
  have fsz: "file_size hv C' d' = file_size hv C' d2" by (rule file_size_cong [OF cl(1) refl])
  have "files_ok c hv C' d'" "seen c hv C' d' = seen c hv C' d2"
    unfolding fsz using fin(1) by (auto simp: files_at_def names_ok_def seen_at_def cl)
  moreover have "fd_ino hv d' = fd_ino hv d" using lp op(1,2) by (auto simp: cl parts_written_def)
  moreover have "seen_at c hv sz C d1 = seen c hv C d" using op(3) by (simp add: seen_at_def sz fun_eq_iff)
  then have "seen c hv C' d2 = (seen c hv C d)(i := file_write (seen c hv C d i) offset buf)"
    using lp fin(2) by (simp add: parts_written_def)
  ultimately show ?thesis
    using lp disk' op(3,4) unfolding written_def by (auto simp: parts_written_def cl C'_def blocks_of_def)
qed

text \<open>
  Before the loop: the bytes are to be written at \<open>offset\<close>, and the file as the cache has it ends
  before or at it.
\<close>

lemma write_starts:
  assumes m: "mounted ev hv" and c: "c = FSConfig ev" and ok: "files_ok c hv (FSCache w) (host_state w)"
    and it: "fmlookup (contents (FSCache w)) (to_string i) = Some it"
    and buf: "buf \<noteq> []" and off: "0 \<le> offset" "offset \<le> file_size hv (FSCache w) (host_state w) i"
    and bound: "offset + int (length buf) \<le> 2147483648 * IO_BLOCK_SIZE c"
    and fs: "before \<le> file_size hv (FSCache w) (host_state w) i"
      "file_size hv (FSCache w) (host_state w) i = before \<or>
       file_size hv (FSCache w) (host_state w) i = offset \<and>
         (offset mod IO_BLOCK_SIZE c = 0 \<or> nfree (cengine (FSCache w)) = 0 \<or>
          blocks_of (FSCache w) (to_string i) (offset div IO_BLOCK_SIZE c) \<noteq> None)"
    and op: "0 \<le> fc" "fd_ino hv d1 fc = Some i" "fd_ino hv d1 fd = Some i" "content hv d1 = content hv (host_state w)"
      "path_ino hv d1 = path_ino hv (host_state w)"
    and full: "full \<longleftrightarrow> nfree (cengine (FSCache w)) = 0"
  shows "write_under_way ev hv
    \<lparr>wc_inode = to_string i, wc_buf = buf, wc_size = int (length buf), wc_offset = offset, wc_fd = fd,
      wc_fd_caching = fc, wc_file_size = before, wc_cache_full = full\<rparr>
    i (file_size hv (FSCache w) (host_state w) i) (file_size hv (FSCache w) (host_state w)) (offset div IO_BLOCK_SIZE c)
    \<lparr>wl_data_allocated = 0, wl_data_buffer_iterator = 0, wl_block_caching_buffer = replicate (nat (IO_BLOCK_SIZE c)) 0\<rparr>
    (w\<lparr>host_state := d1\<rparr>)"
proof -
  define B where "B = IO_BLOCK_SIZE c"
  define sz where "sz = file_size hv (FSCache w) (host_state w)"
  have B: "0 < B" using m single_blockD(3) by (auto simp: mounted_def c B_def)
  have pos: "written_to B offset (int (length buf)) (offset div B) = offset"
    using block_bounds(1) [OF B, of offset] by (simp add: written_to_def)
  have ok1: "files_at c hv sz (FSCache w) d1"
    using ok op(4,5) by (auto simp: files_at_def names_ok_def sz_def)
  have first: "sz i \<le> offset div B * B"
    if "\<not> full" "blocks_of (FSCache w) (to_string i) (offset div B) = None" "before \<le> offset div B * B"
  proof -
    have "offset mod B = 0 \<or> sz i = before" using fs(2) that(1,2) full by (auto simp: sz_def B_def)
    moreover have "sz i = before \<or> sz i = offset" using fs(2) by (auto simp: sz_def)
    moreover have "offset div B * B = offset" if "offset mod B = 0"
      using that by (simp add: minus_mod_eq_div_mult [symmetric])
    ultimately show ?thesis using that(3) by auto
  qed
  show ?thesis
    unfolding write_under_way_def c [symmetric] B_def [symmetric] sz_def [symmetric]
    using ok1 it first full off fs B op(1-3) bound buf pos
    by (auto simp: write_ready_def sz_def B_def c)
qed

lemma write_through_ok:
  assumes m: "mounted ev hv" and c: "c = FSConfig ev"
    and ok: "files_ok c hv (FSCache w) (host_state w)"
    and p: "path_ino hv (host_state w) path = Some i"
    and it: "fmlookup (contents (FSCache w)) (to_string i) = Some it"
    and fd: "fd_ino hv (host_state w) fd = Some i"
    and buf: "buf \<noteq> []" and off: "0 \<le> offset" "offset \<le> file_size hv (FSCache w) (host_state w) i"
    and bound: "offset + int (length buf) \<le> 2147483648 * IO_BLOCK_SIZE c"
    and fs: "before \<le> file_size hv (FSCache w) (host_state w) i"
      "file_size hv (FSCache w) (host_state w) i = before \<or>
       file_size hv (FSCache w) (host_state w) i = offset \<and>
         (offset mod IO_BLOCK_SIZE c = 0 \<or> nfree (cengine (FSCache w)) = 0 \<or>
          blocks_of (FSCache w) (to_string i) (offset div IO_BLOCK_SIZE c) \<noteq> None)"
  shows "\<exists>C' d'. write_through_cache ev path (to_string i) buf (int (length buf)) offset fd before w =
      Inr ((), w\<lparr>FSCache := C', host_state := d'\<rparr>) \<and>
    written (block_span (IO_BLOCK_SIZE c) offset (int (length buf))) c hv i offset buf
      (FSCache w) (host_state w) C' d' \<and>
    (\<forall>b. offset div IO_BLOCK_SIZE c \<le> b \<longrightarrow> b * IO_BLOCK_SIZE c < offset + int (length buf) \<longrightarrow>
        blocks_of C' (to_string i) b \<noteq> None \<or> nfree (cengine C') = 0)"
proof -
  define B where "B = IO_BLOCK_SIZE c"
  define C where "C = FSCache w"
  define d where "d = host_state w"
  define len where "len = int (length buf)"
  define sz where "sz = file_size hv C d"
  have sb: "single_block c" using m c by (simp add: mounted_def)
  note g = single_blockD [OF sb]
  have ids: "c_int B = B" "B \<noteq> 0" "0 < B" using g by (simp_all add: c_int_id B_def)
  have len0: "0 < len" using buf by (simp add: len_def)
  have "2147483648 * B \<le> 2147483648 * 2147483648" using g(4) by (intro mult_left_mono) (simp_all add: B_def)
  then have bound63: "offset + len < 9223372036854775808" using bound by (simp add: len_def B_def)
  have bh: "blk_high_of B offset len = (offset + len - 1) div B"
    by (rule blk_high_eq [OF ids(3) off(1) len0]) (use bound63 in simp)
  have "offset div B \<le> (offset + len - 1) div B" using len0 ids(3) by (intro zdiv_mono1) simp_all
  then have n: "offset div B + int (block_span B offset len) = (offset + len - 1) div B + 1" by (simp add: block_span_def)
  have laws: "host_laws (eos ev) hv" using m by (simp add: mounted_def)
  obtain fc d1 where op: "os_open (eos ev) path O_RDONLY 0 d = (fc, d1)" "0 \<le> fc" "fd_ino hv d fc = None"
    "fd_ino hv d1 = (fd_ino hv d)(fc := Some i)" "content hv d1 = content hv d" "path_ino hv d1 = path_ino hv d"
    using openD [OF host_lawsD(1) [OF laws], of d path i O_RDONLY 0] p by (auto simp: d_def)
  define full where "full \<longleftrightarrow> get_cache_usage (eengine ev) C = 100 \<and> \<not> APPLY_LRU_EVICTION c"
  have full: "full \<longleftrightarrow> nfree (cengine C) = 0"
    using custom.usage_full [OF cache_invD(1) [OF files_atD(2) [OF ok]]] m g(7)
    by (simp add: full_def get_cache_usage_def mounted_def C_def c [symmetric])
  define x where "x = \<lparr>wc_inode = to_string i, wc_buf = buf, wc_size = len, wc_offset = offset, wc_fd = fd,
      wc_fd_caching = fc, wc_file_size = before, wc_cache_full = full\<rparr>"
  define l where "l = \<lparr>wl_data_allocated = 0, wl_data_buffer_iterator = 0,
      wl_block_caching_buffer = replicate (nat B) (0::byte)\<rparr>"
  define w1 where "w1 = w\<lparr>host_state := d1\<rparr>"
  have w1: "FSCache w1 = C" "host_state w1 = d1" by (simp_all add: w1_def C_def)
  have fds: "fd_ino hv d1 fc = Some i" "fd_ino hv d1 fd = Some i" using fd op(3,4) by (auto simp: d_def)
  have under_way: "write_under_way ev hv x i (sz i) sz (offset div B) l w1"
    using write_starts [OF m c ok it buf off bound fs op(2) fds op(5,6) [unfolded d_def] full [unfolded C_def]]
    by (simp add: x_def l_def w1_def sz_def C_def d_def B_def len_def)
  have pos: "written_to B offset len (offset div B) = offset"
    using block_bounds(1) [OF ids(3), of offset] len0 by (simp add: written_to_def)
  obtain l' C2 d2 where lp: "loopE (write_block ev x) [offset div B .. (offset + len - 1) div B] (l, w1) =
      Inr (l', w1\<lparr>FSCache := C2, host_state := d2\<rparr>)"
    "parts_written (block_span B offset len) c hv i sz (max (sz i) (offset + len)) offset buf C d1 C2 d2"
    using write_loop_ok [OF m under_way, of "block_span B offset len"] n
    by (auto simp: x_def l_def w1 c [symmetric] B_def [symmetric] pos)
  define w2 where "w2 = w1\<lparr>FSCache := C2, host_state := d2\<rparr>"
  have w2: "FSCache w2 = C2" "host_state w2 = d2" by (simp_all add: w2_def)
  obtain it2 where it2: "fmlookup (contents C2) (to_string i) = Some it2"
    using lp(2) it by (auto simp: parts_written_def C_def)
  obtain meta vs where mv: "write_metadata offset len before (now_of ev w2) = (meta, vs)"
    by (cases "write_metadata offset len before (now_of ev w2)")
  define C' where "C' = with_item (to_string i) (update_metadata meta vs it2) (cengine C2) C2"
  define d' where "d' = os_close (eos ev) fc d2"
  have "cache_ok c C2" using lp(2) unfolding parts_written_def by (blast dest: files_atD(1))
  then have upd: "fs_locked_update (to_string i) meta vs w2 = Inr ((), w2\<lparr>FSCache := C'\<rparr>)"
    using locked_update_known [of c w2 "to_string i" it2 meta vs] it2 by (simp add: w2 C'_def)
  have sys: "syscall (os_open (eos ev) path O_RDONLY 0) w = (fc, w1)"
    using op(1) by (cases w) (simp add: syscall_def w1_def d_def)
  have "w2\<lparr>FSCache := C', host_state := os_close (eos ev) fc (host_state (w2\<lparr>FSCache := C'\<rparr>))\<rparr> =
      w\<lparr>FSCache := C', host_state := d'\<rparr>"
    by (cases w) (simp add: w2_def w1_def d'_def)
  then have run: "write_through_cache ev path (to_string i) buf len offset fd before w =
      Inr ((), w\<lparr>FSCache := C', host_state := d'\<rparr>)"
    using upd mv lp(1)
    by (simp add: write_through_cache_def Let_def c [symmetric] B_def [symmetric] ids sys bh
        full_def [symmetric] w1 x_def [symmetric] l_def [symmetric] w2_def [symmetric])
  have "meta_size (imetadata (update_metadata meta vs it2)) = max before (offset + len)"
    by (rule write_metadata_size [OF off(1) _ bound63 mv]) (use len0 in simp)
  then have meta: "meta_size (imetadata (update_metadata meta vs it2)) = max (sz i) (offset + len)"
    using fs len0 by (auto simp: sz_def C_def d_def)
  have "written (block_span B offset len) c hv i offset buf C d C' d'"
    unfolding C'_def d'_def
    by (rule written_after_loop [OF host_lawsD(2) [OF laws] lp(2) sz_def op(3-6) it2 _ meta]) simp
  moreover have "\<forall>b. offset div B \<le> b \<longrightarrow> b * B < offset + len \<longrightarrow>
        blocks_of C' (to_string i) b \<noteq> None \<or> nfree (cengine C') = 0"
    using lp(2) buf by (auto simp: parts_written_def C'_def B_def len_def blocks_of_def)
  ultimately show ?thesis using run unfolding B_def C_def d_def len_def by blast
qed


lemma files_ok_host:
  assumes "content hv d' = content hv d" and "path_ino hv d' = path_ino hv d"
  shows "files_ok c hv C d' = files_ok c hv C d" and "seen c hv C d' = seen c hv C d"
  unfolding file_size_cong [OF assms(1) refl]
  by (auto simp: files_at_def names_ok_def seen_at_def assms)

lemma written_host:
  assumes "written k c hv i off bs C d1 C' d2"
    and "content hv d1 = content hv d" and "path_ino hv d1 = path_ino hv d"
    and "content hv d' = content hv d2" and "path_ino hv d' = path_ino hv d2" and "fd_ino hv d' = fd_ino hv d"
  shows "written k c hv i off bs C d C' d'"
  using assms(1) assms(6) unfolding written_def
  unfolding files_ok_host [OF assms(4,5)] files_ok_host [OF assms(2,3)] assms(2-5) by simp

lemma written_cache:
  assumes "written k c hv i off bs C1 d C' d'" and "seen c hv C1 d = seen c hv C d" and "cengine C1 = cengine C"
  shows "written k c hv i off bs C d C' d'"
  using assms by (simp add: written_def blocks_of_def)

lemma written_append:
  assumes "written k c hv i off xs C d C1 d1" and "written m c hv i (off + int (length xs)) ys C1 d1 C2 d2"
    and "0 \<le> off"
  shows "written (k + m) c hv i off (xs @ ys) C d C2 d2"
proof -
  obtain k1 k2 where k: "content hv d1 = (content hv d)(i := k1)" "torn off xs (content hv d i) k1"
    "content hv d2 = (content hv d1)(i := k2)" "torn (off + int (length xs)) ys (content hv d1 i) k2"
    using assms(1,2) unfolding written_def by blast
  have "torn off (xs @ ys) (content hv d i) k2" using torn_append [OF assms(3) k(2)] k by simp
  moreover have "content hv d2 = (content hv d)(i := k2)" using k by simp
  moreover have "seen c hv C2 d2 = (seen c hv C d)(i := file_write (seen c hv C d i) off (xs @ ys))"
    using assms(1,2) file_write_append [OF assms(3)] by (simp add: written_def)
  ultimately show ?thesis
    using assms(1,2) unfolding written_def by auto
qed

text \<open>Zeros between the end of the file and the bytes written make no difference.\<close>

lemma file_write_gap:
  assumes "int (length x) \<le> off" and "z = replicate (nat (off - int (length x))) 0" and "bs \<noteq> []"
  shows "file_write x (int (length x)) (z @ bs) = file_write x off bs"
proof (rule byte_list_eqI)
  have z: "length x + length z = nat off" using assms(1,2) by simp
  show "length (file_write x (int (length x)) (z @ bs)) = length (file_write x off bs)"
    using assms(1,3) z by (simp add: file_write_length)
  fix j
  show "byte_at (file_write x (int (length x)) (z @ bs)) j = byte_at (file_write x off bs) j"
  proof (cases "nat off \<le> j")
    case True
    then have "length z \<le> j - length x" "j - length x - length z = j - nat off" using z by auto
    then show ?thesis using True z by (auto simp: byte_at_file_write nth_append)
  next
    case False
    moreover have "length x \<le> j \<Longrightarrow> byte_at x j = 0" by (simp add: byte_at_def)
    moreover have "k < length z \<Longrightarrow> z ! k = 0" for k by (simp add: assms(2))
    ultimately show ?thesis using z by (auto simp: byte_at_file_write nth_append)
  qed
qed

lemma torn_gap:
  assumes "torn (int n) (z @ bs) disk disk'" and "length disk \<le> n" and "int n \<le> off"
    and "z = replicate (nat (off - int n)) 0"
  shows "torn off bs disk disk'"
proof -
  have z: "n + length z = nat off" using assms(3,4) by simp
  have "byte_at disk' j = byte_at disk j \<or>
      (nat off \<le> j \<and> j < nat off + length bs \<and> byte_at disk' j = bs ! (j - nat off))" for j
  proof -
    consider "byte_at disk' j = byte_at disk j"
      | "n \<le> j" "j < n + length (z @ bs)" "byte_at disk' j = (z @ bs) ! (j - n)"
      using assms(1) by (auto simp: torn_def)
    then show ?thesis
    proof cases
      case 2
      show ?thesis
      proof (cases "nat off \<le> j")
        case True
        then have "length z \<le> j - n" "j - n - length z = j - nat off" using z by auto
        then show ?thesis using 2 True z by (auto simp: nth_append)
      next
        case False
        then have "j - n < length z" using 2(1) z by auto
        then have "byte_at disk' j = 0" using 2(3) assms(4) by (simp add: nth_append)
        moreover have "byte_at disk j = 0" using 2(1) assms(2) by (simp add: byte_at_def)
        ultimately show ?thesis by simp
      qed
    qed simp
  qed
  then show ?thesis using assms(1) by (simp add: torn_def)
qed

text \<open>The part of the handler after the descriptor is known.\<close>

definition write_rest ::
  "('e, 'd) env \<Rightarrow>
   (string \<Rightarrow> byte list \<Rightarrow> int \<Rightarrow> int \<Rightarrow> ('e, 'd) world \<Rightarrow> ('e, 'd, int) outcome) \<Rightarrow>
   string \<Rightarrow> byte list \<Rightarrow> int \<Rightarrow> int \<Rightarrow> bool \<Rightarrow> int \<Rightarrow> ('e, 'd) world \<Rightarrow>
   ('e, 'd, int) outcome" where
  "write_rest ev fill path buf sz offset fi fd w =
     bnd (lfs_getattr ev path w) (\<lambda>((_, stats), w).
     let inode = get_original_inode (FSCache w) path in
     bnd (bnd (file_size_before inode stats w) (\<lambda>(FILE_SIZE_BEFORE, w).
          bnd (if fi \<and> FILE_SIZE_BEFORE < offset then
                 (let size_to_fill = offset - max FILE_SIZE_BEFORE 0 in
                  if size_to_fill > 0
                  then fill path (replicate (nat size_to_fill) 0) size_to_fill FILE_SIZE_BEFORE w
                  else Inr (0, w))
               else Inr (0, w)) (\<lambda>(_, w).
          write_through_cache ev path inode buf sz offset fd FILE_SIZE_BEFORE w))) (\<lambda>(_, w).
     bnd (write_faults ev path buf sz offset w) (\<lambda>(_, w).
     let res = (if c_int sz = - 1 then errno_of ev w else c_int sz);
         w = (if \<not> fi then w\<lparr>host_state := os_close (eos ev) fd (host_state w)\<rparr> else w)
     in bnd (triggers ev ''write'' ''after'' path '''' w) (\<lambda>(_, w).
        Inr (res, w)))))"

lemma write_body_rest:
  "fh f \<noteq> - 1 \<Longrightarrow> \<not> direct_io f \<Longrightarrow>
    write_body ev fill path buf sz offset (Some f) w = write_rest ev fill path buf sz offset True (fh f) w"
  "os_open (eos ev) path O_WRONLY 0 (host_state w) = (fd, d1) \<Longrightarrow> fd \<noteq> - 1 \<Longrightarrow>
    write_body ev fill path buf sz offset None w =
    write_rest ev fill path buf sz offset False fd (w\<lparr>host_state := d1\<rparr>)"
  by (simp_all add: write_body_def write_rest_def syscall_def Let_def)

lemma file_size_before_known:
  assumes "cache_ok c (FSCache w)" and "fmlookup (contents (FSCache w)) cid = Some it"
  shows "file_size_before cid st w = Inr (meta_size (imetadata it), w)"
  using lock_round_known [OF assms] by (simp add: file_size_before_def get_metadata_held)


lemma write_rest_start:
  assumes m: "mounted ev hv" and c: "c = FSConfig ev"
    and ok: "files_ok c hv (FSCache w) (host_state w)"
    and p: "path_ino hv (host_state w) path = Some i"
  defines "F \<equiv> file_size hv (FSCache w) (host_state w) i"
  obtains C1 it where "files_ok c hv C1 (host_state w)"
    "seen c hv C1 (host_state w) = seen c hv (FSCache w) (host_state w)"
    "file_size hv C1 (host_state w) = file_size hv (FSCache w) (host_state w)"
    "cengine C1 = cengine (FSCache w)" "fmlookup (contents C1) (to_string i) = Some it"
    "write_rest ev fill path buf sz offset fi fd w =
       bnd (bnd (if fi \<and> F < offset then fill path (replicate (nat (offset - F)) 0) (offset - F) F
                                          (w\<lparr>FSCache := C1\<rparr>)
                 else Inr (0, w\<lparr>FSCache := C1\<rparr>)) (\<lambda>(_, w).
            write_through_cache ev path (to_string i) buf sz offset fd F w)) (\<lambda>(_, w).
       bnd (write_faults ev path buf sz offset w) (\<lambda>(_, w).
       let res = (if c_int sz = - 1 then errno_of ev w else c_int sz);
           w = (if \<not> fi then w\<lparr>host_state := os_close (eos ev) fd (host_state w)\<rparr> else w)
       in bnd (triggers ev ''write'' ''after'' path '''' w) (\<lambda>(_, w).
          Inr (res, w))))"
proof -
  obtain st C1 where g: "lfs_getattr ev path w = Inr ((0, st), w\<lparr>FSCache := C1\<rparr>)"
    "files_ok c hv C1 (host_state w)"
    "seen c hv C1 (host_state w) = seen c hv (FSCache w) (host_state w)"
    "file_size hv C1 (host_state w) = file_size hv (FSCache w) (host_state w)"
    "get_original_inode C1 path = to_string i" "fmlookup (contents C1) (to_string i) \<noteq> None"
    "cengine C1 = cengine (FSCache w)"
    using getattr_ok [OF m _ p] ok unfolding c by blast
  then obtain it where it: "fmlookup (contents C1) (to_string i) = Some it" by blast
  define w1 where "w1 = w\<lparr>FSCache := C1\<rparr>"
  have w1: "FSCache w1 = C1" by (simp add: w1_def)
  have F: "meta_size (imetadata it) = F" using fun_cong [OF g(4), of i] it by (simp add: file_size_def F_def)
  have F0: "0 \<le> F" using file_okD(2) [OF files_atD(4) [OF ok]] by (simp add: F_def)
  have fsb: "file_size_before (to_string i) st w1 = Inr (F, w1)"
    using file_size_before_known [of c w1 "to_string i" it st] files_atD(1) [OF g(2)] it F by (simp add: w1)
  have mx: "max F 0 = F" using F0 by simp
  have gap: "(if fi \<and> F < offset then
                 (let size_to_fill = offset - max F 0 in
                  if size_to_fill > 0
                  then fill path (replicate (nat size_to_fill) 0) size_to_fill F w1
                  else Inr (0, w1))
               else Inr (0, w1)) =
      (if fi \<and> F < offset then fill path (replicate (nat (offset - F)) 0) (offset - F) F w1 else Inr (0, w1))"
    unfolding mx Let_def by simp
  have "write_rest ev fill path buf sz offset fi fd w =
       bnd (bnd (if fi \<and> F < offset then fill path (replicate (nat (offset - F)) 0) (offset - F) F w1
                 else Inr (0, w1)) (\<lambda>(_, w).
            write_through_cache ev path (to_string i) buf sz offset fd F w)) (\<lambda>(_, w).
       bnd (write_faults ev path buf sz offset w) (\<lambda>(_, w).
       let res = (if c_int sz = - 1 then errno_of ev w else c_int sz);
           w = (if \<not> fi then w\<lparr>host_state := os_close (eos ev) fd (host_state w)\<rparr> else w)
       in bnd (triggers ev ''write'' ''after'' path '''' w) (\<lambda>(_, w).
          Inr (res, w))))"
    unfolding write_rest_def g(1) w1_def [symmetric] bnd_Inr prod.case
    unfolding w1 g(5) Let_def [of "to_string i"] fsb bnd_Inr prod.case gap ..
  then show thesis using that g it unfolding w1_def by blast
qed

lemma write_rest_end:
  assumes "calm ev path w"
  shows "bnd (write_faults ev path buf sz offset w) (\<lambda>(_, w).
       let res = (if c_int sz = - 1 then errno_of ev w else c_int sz);
           w = (if \<not> fi then w\<lparr>host_state := os_close (eos ev) fd (host_state w)\<rparr> else w)
       in bnd (triggers ev ''write'' ''after'' path '''' w) (\<lambda>(_, w). Inr (res, w))) =
    Inr (if c_int sz = - 1 then errno_of ev w else c_int sz,
      if fi then w else w\<lparr>host_state := os_close (eos ev) fd (host_state w)\<rparr>)"
  using assms by (simp add: write_faults_calm triggers_calm Let_def)

lemma write_result:
  "len < 2147483648 \<Longrightarrow> (if c_int (int len) = - 1 then e else c_int (int len)) = int len"
  by (simp add: c_int_id)

text \<open>What a write still has to do when its bytes are in place: faults, the result, and the descriptor.\<close>

definition write_end ::
  "('e, 'd) env \<Rightarrow> string \<Rightarrow> byte list \<Rightarrow> int \<Rightarrow> int \<Rightarrow> bool \<Rightarrow> int \<Rightarrow> ('e, 'd) world \<Rightarrow> ('e, 'd, int) outcome" where
  "write_end ev path buf sz offset fi fd w =
     bnd (write_faults ev path buf sz offset w) (\<lambda>(_, w).
       let res = (if c_int sz = - 1 then errno_of ev w else c_int sz);
           w = (if \<not> fi then w\<lparr>host_state := os_close (eos ev) fd (host_state w)\<rparr> else w)
       in bnd (triggers ev ''write'' ''after'' path '''' w) (\<lambda>(_, w). Inr (res, w)))"

text \<open>A write that starts inside the file or at its end.\<close>

lemma write_rest_reaches:
  assumes m: "mounted ev hv" and c: "c = FSConfig ev"
    and ok: "files_ok c hv (FSCache w) (host_state w)"
    and p: "path_ino hv (host_state w) path = Some i"
    and fd: "fd_ino hv (host_state w) fd = Some i"
    and buf: "buf \<noteq> []" and off: "0 \<le> offset" "offset \<le> file_size hv (FSCache w) (host_state w) i"
    and bound: "offset + int (length buf) \<le> 2147483648 * IO_BLOCK_SIZE c"
  shows "\<exists>C' d'. write_rest ev fill path buf (int (length buf)) offset fi fd w =
      write_end ev path buf (int (length buf)) offset fi fd (w\<lparr>FSCache := C', host_state := d'\<rparr>) \<and>
    written (block_span (IO_BLOCK_SIZE c) offset (int (length buf))) c hv i offset buf
      (FSCache w) (host_state w) C' d' \<and>
    (\<forall>b. offset div IO_BLOCK_SIZE c \<le> b \<longrightarrow> b * IO_BLOCK_SIZE c < offset + int (length buf) \<longrightarrow>
        blocks_of C' (to_string i) b \<noteq> None \<or> nfree (cengine C') = 0)"
proof -
  define F where "F = file_size hv (FSCache w) (host_state w) i"
  define len where "len = int (length buf)"
  obtain C1 it where s: "files_ok c hv C1 (host_state w)"
    "seen c hv C1 (host_state w) = seen c hv (FSCache w) (host_state w)"
    "file_size hv C1 (host_state w) = file_size hv (FSCache w) (host_state w)"
    "cengine C1 = cengine (FSCache w)" "fmlookup (contents C1) (to_string i) = Some it"
    "write_rest ev fill path buf len offset fi fd w =
       bnd (bnd (if fi \<and> F < offset then fill path (replicate (nat (offset - F)) 0) (offset - F) F
                                          (w\<lparr>FSCache := C1\<rparr>)
                 else Inr (0, w\<lparr>FSCache := C1\<rparr>)) (\<lambda>(_, w).
            write_through_cache ev path (to_string i) buf len offset fd F w)) (\<lambda>(_, w).
       write_end ev path buf len offset fi fd w)"
    unfolding F_def write_end_def by (rule write_rest_start [OF m c ok p])
  define w1 where "w1 = w\<lparr>FSCache := C1\<rparr>"
  have w1: "FSCache w1 = C1" "host_state w1 = host_state w" by (simp_all add: w1_def)
  obtain C' d' where wt: "write_through_cache ev path (to_string i) buf len offset fd F w1 =
      Inr ((), w1\<lparr>FSCache := C', host_state := d'\<rparr>)"
    "written (block_span (IO_BLOCK_SIZE c) offset len) c hv i offset buf C1 (host_state w) C' d'"
    "\<forall>b. offset div IO_BLOCK_SIZE c \<le> b \<longrightarrow> b * IO_BLOCK_SIZE c < offset + len \<longrightarrow>
        blocks_of C' (to_string i) b \<noteq> None \<or> nfree (cengine C') = 0"
    using write_through_ok [OF m c, of w1 path i it fd buf offset F] s(1,3,5) p fd buf off bound
    by (auto simp: w1 F_def len_def)
  have nogap: "\<not> (fi \<and> F < offset)" using off(2) by (simp add: F_def)
  have fin: "w1\<lparr>FSCache := C', host_state := d'\<rparr> = w\<lparr>FSCache := C', host_state := d'\<rparr>" by (simp add: w1_def)
  have run: "write_rest ev fill path buf len offset fi fd w =
      write_end ev path buf len offset fi fd (w\<lparr>FSCache := C', host_state := d'\<rparr>)"
    unfolding s(6) if_not_P [OF nogap] bnd_Inr prod.case w1_def [symmetric] wt(1) fin ..
  show ?thesis using run written_cache [OF wt(2) s(2,4)] wt(3) unfolding len_def by blast
qed

lemma write_rest_flat:
  assumes m: "mounted ev hv" and c: "c = FSConfig ev" and cm: "calm ev path w"
    and ok: "files_ok c hv (FSCache w) (host_state w)"
    and p: "path_ino hv (host_state w) path = Some i"
    and fd: "fd_ino hv (host_state w) fd = Some i"
    and buf: "buf \<noteq> []" and off: "0 \<le> offset" "offset \<le> file_size hv (FSCache w) (host_state w) i"
    and bound: "offset + int (length buf) \<le> 2147483648 * IO_BLOCK_SIZE c"
  shows "\<exists>r C' d'. write_rest ev fill path buf (int (length buf)) offset fi fd w =
      Inr (r, w\<lparr>FSCache := C', host_state := (if fi then d' else os_close (eos ev) fd d')\<rparr>) \<and>
    written (block_span (IO_BLOCK_SIZE c) offset (int (length buf))) c hv i offset buf
      (FSCache w) (host_state w) C' d' \<and>
    (length buf < 2147483648 \<longrightarrow> r = int (length buf)) \<and>
    (\<forall>b. offset div IO_BLOCK_SIZE c \<le> b \<longrightarrow> b * IO_BLOCK_SIZE c < offset + int (length buf) \<longrightarrow>
        blocks_of C' (to_string i) b \<noteq> None \<or> nfree (cengine C') = 0)"
proof -
  define len where "len = int (length buf)"
  obtain C' d' where r: "write_rest ev fill path buf len offset fi fd w =
      write_end ev path buf len offset fi fd (w\<lparr>FSCache := C', host_state := d'\<rparr>)"
    "written (block_span (IO_BLOCK_SIZE c) offset len) c hv i offset buf (FSCache w) (host_state w) C' d'"
    "\<forall>b. offset div IO_BLOCK_SIZE c \<le> b \<longrightarrow> b * IO_BLOCK_SIZE c < offset + len \<longrightarrow>
        blocks_of C' (to_string i) b \<noteq> None \<or> nfree (cengine C') = 0"
    using write_rest_reaches [OF m c ok p fd buf off bound, of fill fi] unfolding len_def by blast
  define w2 where "w2 = w\<lparr>FSCache := C', host_state := d'\<rparr>"
  have cm2: "calm ev path w2" using cm by (simp add: w2_def)
  have run: "write_rest ev fill path buf len offset fi fd w =
      Inr (if c_int len = - 1 then errno_of ev w2 else c_int len,
        if fi then w2 else w2\<lparr>host_state := os_close (eos ev) fd (host_state w2)\<rparr>)"
    unfolding r(1) w2_def [symmetric] write_end_def by (rule write_rest_end [OF cm2])
  have fin: "(if fi then w2 else w2\<lparr>host_state := os_close (eos ev) fd (host_state w2)\<rparr>) =
      w\<lparr>FSCache := C', host_state := (if fi then d' else os_close (eos ev) fd d')\<rparr>"
    by (cases w) (simp add: w2_def)
  have "length buf < 2147483648 \<longrightarrow> (if c_int len = - 1 then errno_of ev w2 else c_int len) = len"
    using write_result [of "length buf" "errno_of ev w2"] unfolding len_def by blast
  then show ?thesis using run r(2,3) unfolding fin len_def by blast
qed


lemma with_shared_lock_ok:
  assumes "body (w\<lparr>shared_locks := Suc (shared_locks w)\<rparr>) =
    Inr (x, w\<lparr>shared_locks := Suc (shared_locks w), FSCache := C', host_state := d'\<rparr>)"
  shows "with_shared_lock body w = Inr (x, w\<lparr>FSCache := C', host_state := d'\<rparr>)"
  using assms by (cases w) (simp add: with_shared_lock_def)

lemma lfs_write_fill_ok:
  assumes m: "mounted ev hv" and c: "c = FSConfig ev" and cm: "calm ev path w"
    and ok: "files_ok c hv (FSCache w) (host_state w)"
    and p: "path_ino hv (host_state w) path = Some i"
    and buf: "buf \<noteq> []" and off: "0 \<le> offset" "offset \<le> file_size hv (FSCache w) (host_state w) i"
    and bound: "offset + int (length buf) \<le> 2147483648 * IO_BLOCK_SIZE c"
  shows "\<exists>r C' d'. lfs_write_fill ev path buf (int (length buf)) offset w =
      Inr (r, w\<lparr>FSCache := C', host_state := d'\<rparr>) \<and>
    written (block_span (IO_BLOCK_SIZE c) offset (int (length buf))) c hv i offset buf
      (FSCache w) (host_state w) C' d' \<and>
    (\<forall>b. offset div IO_BLOCK_SIZE c \<le> b \<longrightarrow> b * IO_BLOCK_SIZE c < offset + int (length buf) \<longrightarrow>
        blocks_of C' (to_string i) b \<noteq> None \<or> nfree (cengine C') = 0)"
proof -
  have laws: "host_laws (eos ev) hv" using m by (simp add: mounted_def)
  define d where "d = host_state w"
  obtain fd d1 where op: "os_open (eos ev) path O_WRONLY 0 d = (fd, d1)" "0 \<le> fd" "fd_ino hv d fd = None"
    "fd_ino hv d1 = (fd_ino hv d)(fd := Some i)" "content hv d1 = content hv d" "path_ino hv d1 = path_ino hv d"
    using openD [OF host_lawsD(1) [OF laws], of d path i O_WRONLY 0] p by (auto simp: d_def)
  define w0 where "w0 = w\<lparr>shared_locks := Suc (shared_locks w)\<rparr>"
  define w1 where "w1 = w0\<lparr>host_state := d1\<rparr>"
  have w1: "FSCache w1 = FSCache w" "host_state w1 = d1" by (simp_all add: w1_def w0_def)
  have cm1: "calm ev path w1" using cm by (simp add: w1_def w0_def)
  note host = files_ok_host [OF op(5,6)] file_size_cong [OF op(5) refl]
  obtain r C' d2 where rs: "write_rest ev (\<lambda>_ _ _ _ w. Inr (0, w)) path buf (int (length buf)) offset False fd w1 =
      Inr (r, w1\<lparr>FSCache := C', host_state := os_close (eos ev) fd d2\<rparr>)"
    "written (block_span (IO_BLOCK_SIZE c) offset (int (length buf))) c hv i offset buf (FSCache w) d1 C' d2"
    "\<forall>b. offset div IO_BLOCK_SIZE c \<le> b \<longrightarrow> b * IO_BLOCK_SIZE c < offset + int (length buf) \<longrightarrow>
        blocks_of C' (to_string i) b \<noteq> None \<or> nfree (cengine C') = 0"
  proof -
    have pre: "files_ok c hv (FSCache w1) (host_state w1)" "path_ino hv (host_state w1) path = Some i"
      "fd_ino hv (host_state w1) fd = Some i" "offset \<le> file_size hv (FSCache w1) (host_state w1) i"
      using ok p op(4,6) off(2) files_ok_host(1) [OF op(5,6), of c "FSCache w"]
      unfolding w1 host(3) d_def by auto
    from write_rest_flat [OF m c cm1 pre(1-3) buf off(1) pre(4) bound, where fi = False
        and fill = "\<lambda>_ _ _ _ w. Inr (0, w)"]
    show thesis using that unfolding w1 if_False by blast
  qed
  define d' where "d' = os_close (eos ev) fd d2"
  have cl: "content hv d' = content hv d2" "path_ino hv d' = path_ino hv d2"
    "fd_ino hv d' = (fd_ino hv d2)(fd := None)"
    using host_lawsD(2) [OF laws] by (simp_all add: close_law_def d'_def)
  have fds: "fd_ino hv d' = fd_ino hv d" using rs(2) op(3,4) by (auto simp: cl written_def)
  have "write_body ev (\<lambda>_ _ _ _ w. Inr (0, w)) path buf (int (length buf)) offset None w0 =
      Inr (r, w0\<lparr>FSCache := C', host_state := d'\<rparr>)"
  proof -
    have "os_open (eos ev) path O_WRONLY 0 (host_state w0) = (fd, d1)" using op(1) by (simp add: w0_def d_def)
    note b = write_body_rest(2) [OF this]
    have "w1\<lparr>FSCache := C', host_state := d'\<rparr> = w0\<lparr>FSCache := C', host_state := d'\<rparr>"
      by (cases w0) (simp add: w1_def)
    then show ?thesis using rs(1) op(2) by (simp add: b w1_def [symmetric] d'_def)
  qed
  then have "with_shared_lock (write_body ev (\<lambda>_ _ _ _ w. Inr (0, w)) path buf (int (length buf)) offset None) w =
      Inr (r, w\<lparr>FSCache := C', host_state := d'\<rparr>)"
    unfolding w0_def by (intro with_shared_lock_ok) simp
  then have "lfs_write_fill ev path buf (int (length buf)) offset w = Inr (r, w\<lparr>FSCache := C', host_state := d'\<rparr>)"
    by (simp add: lfs_write_fill_def triggers_calm [OF cm])
  moreover have "written (block_span (IO_BLOCK_SIZE c) offset (int (length buf))) c hv i offset buf
      (FSCache w) d C' d'"
    by (rule written_host [OF rs(2) op(5,6) cl(1,2) fds])
  ultimately show ?thesis using rs(3) unfolding d_def by blast
qed

definition gap_span :: "int \<Rightarrow> int \<Rightarrow> int \<Rightarrow> nat" where
  "gap_span B sz off = (if sz < off then block_span B sz (off - sz) else 0)"

text \<open>The zeros of a gap and the bytes after them are one write, as what is seen and what is torn goes.\<close>

lemma written_gap:
  assumes ok: "files_ok c hv C d" and F: "F = file_size hv C d i" "F < offset" and buf: "buf \<noteq> []"
    and w: "written k c hv i F (replicate (nat (offset - F)) 0 @ buf) C d C' d'"
  shows "written k c hv i offset buf C d C' d'"
proof -
  define V where "V = seen c hv C d i"
  define z where "z = replicate (nat (offset - F)) (0 :: byte)"
  have F0: "0 \<le> F" using file_okD(2) [OF files_atD(4) [OF ok]] by (simp add: F(1))
  have V: "int (length V) = F" using file_size_seen [OF ok, of i] by (simp add: V_def F(1))
  have "file_write V F (z @ buf) = file_write V offset buf"
    using file_write_gap [of V offset z buf] V F(2) buf by (simp add: z_def)
  moreover have "torn offset buf (content hv d i) disk'"
    if "torn F (z @ buf) (content hv d i) disk'" for disk'
    using torn_gap [of "nat F" z buf _ disk' offset] that F0 F(2) file_okD(1) [OF files_atD(4) [OF ok, of i]]
    by (auto simp: z_def F(1))
  ultimately show ?thesis using w by (auto simp: written_def V_def z_def)
qed

text \<open>The file after its gap has been filled: it ends where the write starts, and the block before that
is cached unless the write starts a block or no page is free.\<close>

lemma gap_filled:
  assumes ok: "files_ok c hv C1 d1" and F: "F = file_size hv C1 d1 i" "F < offset" and B: "0 < B"
    and f: "written k c hv i F (replicate (nat (offset - F)) 0) C1 d1 C2 d2"
    and cached: "\<forall>b. F div B \<le> b \<longrightarrow> b * B < offset \<longrightarrow> blocks_of C2 j b \<noteq> None \<or> nfree (cengine C2) = 0"
  shows "file_size hv C2 d2 i = offset"
    and "blocks_of C2 j (offset div B) \<noteq> None \<or> nfree (cengine C2) = 0 \<or> offset mod B = 0"
proof -
  define z where "z = replicate (nat (offset - F)) (0 :: byte)"
  have z: "z \<noteq> []" "int (length z) = offset - F" using F(2) by (simp_all add: z_def)
  have F0: "0 \<le> F" using file_okD(2) [OF files_atD(4) [OF ok]] by (simp add: F(1))
  have "seen c hv C2 d2 i = file_write (seen c hv C1 d1 i) F z" and ok2: "files_ok c hv C2 d2"
    using f by (simp_all add: written_def z_def)
  then have "file_size hv C2 d2 i = int (length (file_write (seen c hv C1 d1 i) F z))"
    using file_size_seen [OF ok2, of i] by simp
  moreover have "int (length (seen c hv C1 d1 i)) = F" using file_size_seen [OF ok, of i] F(1) by simp
  ultimately show "file_size hv C2 d2 i = offset" using z F0 by (simp add: file_write_length)
  show "blocks_of C2 j (offset div B) \<noteq> None \<or> nfree (cengine C2) = 0 \<or> offset mod B = 0"
  proof (cases "offset mod B = 0")
    case False
    have "offset mod B = offset - offset div B * B" by (simp add: minus_div_mult_eq_mod)
    moreover have "0 \<le> offset mod B" using B by simp
    ultimately have "offset div B * B < offset" using False by linarith
    moreover have "F div B \<le> offset div B" using F(2) B by (intro zdiv_mono1) simp_all
    ultimately show ?thesis using cached by blast
  qed simp
qed

lemma write_rest_gap:
  assumes m: "mounted ev hv" and c: "c = FSConfig ev" and cm: "calm ev path w"
    and ok: "files_ok c hv (FSCache w) (host_state w)"
    and p: "path_ino hv (host_state w) path = Some i"
    and fd: "fd_ino hv (host_state w) fd = Some i"
    and buf: "buf \<noteq> []" and off: "file_size hv (FSCache w) (host_state w) i < offset"
    and bound: "offset + int (length buf) \<le> 2147483648 * IO_BLOCK_SIZE c"
  shows "\<exists>r C' d'. write_rest ev (lfs_write_fill ev) path buf (int (length buf)) offset True fd w =
      Inr (r, w\<lparr>FSCache := C', host_state := d'\<rparr>) \<and>
    written (gap_span (IO_BLOCK_SIZE c) (file_size hv (FSCache w) (host_state w) i) offset +
        block_span (IO_BLOCK_SIZE c) offset (int (length buf))) c hv i offset buf
      (FSCache w) (host_state w) C' d' \<and>
    (length buf < 2147483648 \<longrightarrow> r = int (length buf))"
proof -
  define F where "F = file_size hv (FSCache w) (host_state w) i"
  define len where "len = int (length buf)"
  define z where "z = replicate (nat (offset - F)) (0 :: byte)"
  define B where "B = IO_BLOCK_SIZE c"
  have B: "0 < B" using m c single_blockD(3) by (simp add: mounted_def B_def)
  have F0: "0 \<le> F" using file_okD(2) [OF files_atD(4) [OF ok]] by (simp add: F_def)
  have lt: "F < offset" using off by (simp add: F_def)
  have z: "z \<noteq> []" "int (length z) = offset - F" using lt by (simp_all add: z_def)
  obtain C1 it where s: "files_ok c hv C1 (host_state w)"
    "seen c hv C1 (host_state w) = seen c hv (FSCache w) (host_state w)"
    "file_size hv C1 (host_state w) = file_size hv (FSCache w) (host_state w)"
    "cengine C1 = cengine (FSCache w)" "fmlookup (contents C1) (to_string i) = Some it"
    "write_rest ev (lfs_write_fill ev) path buf len offset True fd w =
       bnd (bnd (if True \<and> F < offset then lfs_write_fill ev path z (offset - F) F (w\<lparr>FSCache := C1\<rparr>)
                 else Inr (0, w\<lparr>FSCache := C1\<rparr>)) (\<lambda>(_, w).
            write_through_cache ev path (to_string i) buf len offset fd F w)) (\<lambda>(_, w).
       bnd (write_faults ev path buf len offset w) (\<lambda>(_, w).
       let res = (if c_int len = - 1 then errno_of ev w else c_int len);
           w = (if \<not> True then w\<lparr>host_state := os_close (eos ev) fd (host_state w)\<rparr> else w)
       in bnd (triggers ev ''write'' ''after'' path '''' w) (\<lambda>(_, w).
          Inr (res, w))))"
    unfolding F_def z_def by (rule write_rest_start [OF m c ok p])
  define w1 where "w1 = w\<lparr>FSCache := C1\<rparr>"
  have w1: "FSCache w1 = C1" "host_state w1 = host_state w" by (simp_all add: w1_def)
  have cm1: "calm ev path w1" using cm by (simp add: w1_def)
  have Fs: "F = file_size hv C1 (host_state w) i" by (simp add: F_def s(3))
  obtain rf C2 d2 where f: "lfs_write_fill ev path z (offset - F) F w1 =
      Inr (rf, w1\<lparr>FSCache := C2, host_state := d2\<rparr>)"
    "written (block_span B F (offset - F)) c hv i F z C1 (host_state w) C2 d2"
    "\<forall>b. F div B \<le> b \<longrightarrow> b * B < offset \<longrightarrow> blocks_of C2 (to_string i) b \<noteq> None \<or> nfree (cengine C2) = 0"
    using lfs_write_fill_ok [OF m c cm1, of i z F] s(1) p z F0 Fs bound
    by (auto simp: w1 B_def)
  define w2 where "w2 = w1\<lparr>FSCache := C2, host_state := d2\<rparr>"
  have w2: "FSCache w2 = C2" "host_state w2 = d2" by (simp_all add: w2_def)
  have ok2: "files_ok c hv C2 d2" and p2: "path_ino hv d2 path = Some i" and fd2: "fd_ino hv d2 fd = Some i"
    using f(2) p fd by (simp_all add: written_def)
  note filled = gap_filled [OF s(1) Fs lt B f(2) [unfolded z_def] f(3)]
  have "fmlookup (contents C2) (to_string i) \<noteq> None" using f(2) by (simp add: written_def)
  then obtain it2 where it2: "fmlookup (contents C2) (to_string i) = Some it2" by blast
  obtain C' d' where wt: "write_through_cache ev path (to_string i) buf len offset fd F w2 =
      Inr ((), w2\<lparr>FSCache := C', host_state := d'\<rparr>)"
    "written (block_span B offset len) c hv i offset buf C2 d2 C' d'"
    using write_through_ok [OF m c, of w2 path i it2 fd buf offset F] ok2 p2 it2 fd2 buf F0 lt bound filled
    by (auto simp: w2 len_def B_def)
  define w3 where "w3 = w2\<lparr>FSCache := C', host_state := d'\<rparr>"
  have cm3: "calm ev path w3" using cm by (simp add: w3_def w2_def w1_def)
  have gap: "True \<and> F < offset" using lt by simp
  have nt: "\<not> \<not> True" by simp
  have run: "write_rest ev (lfs_write_fill ev) path buf len offset True fd w =
      Inr (if c_int len = - 1 then errno_of ev w3 else c_int len, if True then w3
        else w3\<lparr>host_state := os_close (eos ev) fd (host_state w3)\<rparr>)"
    unfolding s(6) if_P [OF gap] w1_def [symmetric] f(1) bnd_Inr prod.case w2_def [symmetric] wt(1) w3_def [symmetric]
    by (rule write_rest_end [OF cm3])
  have fin: "w3 = w\<lparr>FSCache := C', host_state := d'\<rparr>" by (cases w) (simp add: w3_def w2_def w1_def)
  have res: "length buf < 2147483648 \<longrightarrow> (if c_int len = - 1 then errno_of ev w3 else c_int len) = len"
    using write_result [of "length buf" "errno_of ev w3"] unfolding len_def by blast
  have "written (block_span B F (offset - F) + block_span B offset len) c hv i F (z @ buf)
      (FSCache w) (host_state w) C' d'"
    using written_append [OF written_cache [OF f(2) s(2,4)] _ F0] wt(2) z(2) by simp
  then have "written (gap_span B F offset + block_span B offset len) c hv i offset buf
      (FSCache w) (host_state w) C' d'"
    using written_gap [OF ok F_def lt buf, folded z_def] lt by (simp add: gap_span_def)
  then show ?thesis using run res fin unfolding F_def B_def len_def by auto
qed


text \<open>A write of a mounted file, wherever it starts.\<close>

lemma lfs_write_ok:
  assumes m: "mounted ev hv" and c: "c = FSConfig ev" and cm: "calm ev path w"
    and ok: "files_ok c hv (FSCache w) (host_state w)"
    and p: "path_ino hv (host_state w) path = Some i"
    and f: "fd_ino hv (host_state w) (fh f) = Some i" "fh f \<noteq> - 1" "\<not> direct_io f"
    and buf: "buf \<noteq> []" "length buf < 2147483648" and off: "0 \<le> offset"
    and bound: "offset + int (length buf) \<le> 2147483648 * IO_BLOCK_SIZE c"
  shows "\<exists>C' d'. lfs_write ev path buf (int (length buf)) offset (Some f) w =
      Inr (int (length buf), w\<lparr>FSCache := C', host_state := d'\<rparr>) \<and>
    written (gap_span (IO_BLOCK_SIZE c) (file_size hv (FSCache w) (host_state w) i) offset +
        block_span (IO_BLOCK_SIZE c) offset (int (length buf))) c hv i offset buf
      (FSCache w) (host_state w) C' d'"
proof -
  define w0 where "w0 = w\<lparr>shared_locks := Suc (shared_locks w)\<rparr>"
  have w0: "FSCache w0 = FSCache w" "host_state w0 = host_state w" by (simp_all add: w0_def)
  have cm0: "calm ev path w0" using cm by (simp add: w0_def)
  have pre: "files_ok c hv (FSCache w0) (host_state w0)" "path_ino hv (host_state w0) path = Some i"
    "fd_ino hv (host_state w0) (fh f) = Some i"
    using ok p f(1) by (simp_all add: w0)
  have "\<exists>C' d'. write_rest ev (lfs_write_fill ev) path buf (int (length buf)) offset True (fh f) w0 =
      Inr (int (length buf), w0\<lparr>FSCache := C', host_state := d'\<rparr>) \<and>
    written (gap_span (IO_BLOCK_SIZE c) (file_size hv (FSCache w) (host_state w) i) offset +
        block_span (IO_BLOCK_SIZE c) offset (int (length buf))) c hv i offset buf
      (FSCache w) (host_state w) C' d'"
  proof (cases "offset \<le> file_size hv (FSCache w0) (host_state w0) i")
    case True
    have "\<not> file_size hv (FSCache w) (host_state w) i < offset" using True by (simp add: w0)
    then show ?thesis
      using write_rest_flat [OF m c cm0 pre buf(1) off True bound, where fi = True and fill = "lfs_write_fill ev"] buf(2)
      by (auto simp: w0 gap_span_def)
  next
    case False
    then have "file_size hv (FSCache w0) (host_state w0) i < offset" by simp
    from write_rest_gap [OF m c cm0 pre buf(1) this bound] show ?thesis using buf(2) unfolding w0 by blast
  qed
  then obtain C' d' where r: "write_rest ev (lfs_write_fill ev) path buf (int (length buf)) offset True (fh f) w0 =
      Inr (int (length buf), w0\<lparr>FSCache := C', host_state := d'\<rparr>)"
    "written (gap_span (IO_BLOCK_SIZE c) (file_size hv (FSCache w) (host_state w) i) offset +
        block_span (IO_BLOCK_SIZE c) offset (int (length buf))) c hv i offset buf
      (FSCache w) (host_state w) C' d'" by blast
  have "with_shared_lock (write_body ev (lfs_write_fill ev) path buf (int (length buf)) offset (Some f)) w =
      Inr (int (length buf), w\<lparr>FSCache := C', host_state := d'\<rparr>)"
    using r(1) unfolding w0_def by (intro with_shared_lock_ok) (simp add: write_body_rest(1) [OF f(2,3)])
  then show ?thesis using r(2) by (auto simp: lfs_write_def triggers_calm [OF cm])
qed

end
