(* ===== verification/Fs_Sync.thy ===== *)
theory Fs_Sync
  imports Fs_Write
begin

text \<open>
  Making files durable and losing what is not: fsync of a mounted file, the clear-cache and
  checkpoint commands, and mounting anew. Each is related to the two views of a file the write
  theorems use: what readers see (\<open>seen\<close>) and what the host has (\<open>content\<close>).
\<close>


section \<open>Synchronising\<close>

text \<open>
  What a successful fsync of inode \<open>i\<close> does: the host's copy of the file becomes what readers
  see of it, nothing else changes for anyone.
\<close>

definition synced :: "config \<Rightarrow> 'd view \<Rightarrow> int \<Rightarrow> engine cache \<Rightarrow> 'd \<Rightarrow> engine cache \<Rightarrow> 'd \<Rightarrow> bool" where
  "synced c hv i C d C' d' \<longleftrightarrow>
     files_ok c hv C' d' \<and> seen c hv C' d' = seen c hv C d \<and>
     content hv d' = (content hv d)(i := seen c hv C d i) \<and>
     path_ino hv d' = path_ino hv d \<and> fd_ino hv d' = fd_ino hv d \<and> cached C' = cached C"

text \<open>A pending write of the path and the mark that a fault is being injected are dropped.\<close>

definition forgotten :: "string \<Rightarrow> ('e, 'd) world \<Rightarrow> ('e, 'd) world" where
  "forgotten path w = snd (check_and_delete_pendingwrite path w)"

lemma forgotten_simps [simp]:
  "FSCache (forgotten path w) = FSCache w" "host_state (forgotten path w) = host_state w"
  "shared_locks (forgotten path w) = shared_locks w"
  "forgotten path (w\<lparr>shared_locks := n\<rparr>) = (forgotten path w)\<lparr>shared_locks := n\<rparr>"
  "forgotten path (w\<lparr>FSCache := C\<rparr>) = (forgotten path w)\<lparr>FSCache := C\<rparr>"
  "calm ev q (forgotten path w) = calm ev q w"
  by (auto simp: forgotten_def check_and_delete_pendingwrite_def calm_def split: option.splits)

lemma forgotten_locks:
  "(forgotten path w)\<lparr>shared_locks := shared_locks w, FSCache := C, host_state := d\<rparr> =
    (forgotten path w)\<lparr>FSCache := C, host_state := d\<rparr>"
proof -
  have "v\<lparr>shared_locks := shared_locks v\<rparr> = v" for v :: "('e, 'd) world" by simp
  from this [of "forgotten path w"] have "(forgotten path w)\<lparr>shared_locks := shared_locks w\<rparr> = forgotten path w"
    by (metis forgotten_simps(3))
  then show ?thesis by (metis (no_types))
qed

text \<open>Only the torn-seq faults of a path have a counter that an fsync restarts.\<close>

definition no_sequence :: "string \<Rightarrow> ('e, 'd) world \<Rightarrow> bool" where
  "no_sequence path w \<longleftrightarrow> (\<forall>v. fmlookup (ffaults w) path = Some v \<longrightarrow> (\<forall>f \<in> set v. \<not> is_ReorderF f))"

lemma no_sequence_updates [simp]:
  "no_sequence path (w\<lparr>FSCache := C\<rparr>) = no_sequence path w"
  "no_sequence path (w\<lparr>shared_locks := n\<rparr>) = no_sequence path w"
  by (simp_all add: no_sequence_def)

lemma calm_no_sequence: "calm ev path w \<Longrightarrow> no_sequence path w"
  by (simp add: no_sequence_def calm_def)

lemma restart_counter_same: "no_sequence path w \<Longrightarrow> restart_counter path op w = w"
proof (cases "fmlookup (ffaults w) path")
  case (Some v)
  assume "no_sequence path w"
  then have "map (\<lambda>f. case f of
        ReorderF r \<Rightarrow> if ro_op r = op then ReorderF (r\<lparr>ro_counter := 0\<rparr>) else f | _ \<Rightarrow> f) v = v"
    using Some by (intro map_idI) (auto simp: no_sequence_def is_ReorderF_def split: fault.splits)
  then show ?thesis using Some by (simp add: restart_counter_def fmupd_same)
qed (simp add: restart_counter_def)

lemma sync_item_ok:
  assumes m: "mounted ev hv" and c: "c = FSConfig ev"
    and ok: "files_ok c hv C d" and p: "path_ino hv d path = Some i"
    and i: "fmlookup (contents C) (to_string i) \<noteq> None"
  shows "\<exists>C' d'. sync_owner (eengine ev) (eos ev) (to_string i) only_data path C d = Inr (0, C', d') \<and>
    synced c hv i C d C' d' \<and> file_inode_mapping C' = file_inode_mapping C"
proof -
  obtain it where it: "fmlookup (contents C) (to_string i) = Some it" using i by auto
  note F = files_atD [OF ok]
  have B: "0 < IO_BLOCK_SIZE c" using custom.geometry [OF cache_invD(1) [OF F(2)]] by simp
  have fo: "file_ok (IO_BLOCK_SIZE c) (file_size hv C d i) (blocks_of C (to_string i)) (content hv d i)"
    by (rule F(4))
  have size: "meta_size (imetadata it) = file_size hv C d i" by (simp add: file_size_def it)
  note sh = file_ok_shaped [OF fo B] and sz = file_okD(2) [OF fo]
  have laws: "host_laws (eos ev) hv" using m by (simp add: mounted_def)
  have e: "eengine ev = custom_cache_engine (eos ev) c" using m c by (simp add: mounted_def)
  obtain e' d' where s: "sync_owner (custom_cache_engine (eos ev) c) (eos ev) (to_string i) only_data path C d =
      Inr (0, with_item (to_string i) (it\<lparr>data_synced := True\<rparr>) e' C, d')"
    "cache_inv (engine_ok c) cblocks (with_item (to_string i) (it\<lparr>data_synced := True\<rparr>) e' C)"
    "cblocks e' = (blocks_of C)(to_string i := \<lambda>b. map_option clean_block (blocks_of C (to_string i) b))"
    "content hv d' = (content hv d)
      (i := synced_file (IO_BLOCK_SIZE c) (blocks_of C (to_string i)) (file_size hv C d i) (content hv d i))"
    "fd_ino hv d' = fd_ino hv d" "path_ino hv d' = path_ino hv d"
    using custom.sync_owner_ok [OF F(2) it laws p, of only_data] sz sh
    unfolding blocks_of_def [symmetric] size by blast
  define C' where "C' = with_item (to_string i) (it\<lparr>data_synced := True\<rparr>) e' C"
  have new: "content hv d' = (content hv d)(i := seen c hv C d i)"
    unfolding s(4) synced_is_visible [OF B fo] by (simp add: seen_at_def)
  have okC: "cache_ok c C'" using s(2) by (simp add: cache_ok_def C'_def)
  have v: "visible (IO_BLOCK_SIZE c) (file_size hv C d i) (blocks_of C (to_string i)) (content hv d i) =
      seen c hv C d i" by (simp add: seen_at_def)
  note st = files_at_step [where d' = d' and s = "file_size hv C d i",
      OF ok okC _ s(6) new _ synced_file_ok(1) [OF B fo, unfolded v]]
  have bl: "blocks_of C' = (blocks_of C)(to_string i := \<lambda>b. map_option clean_block (blocks_of C (to_string i) b))"
    by (simp add: C'_def s(3))
  have "file_size hv C' d' = file_size hv C d"
  proof
    fix j
    show "file_size hv C' d' j = file_size hv C d j"
      unfolding file_size_def new C'_def by (cases "j = i") (simp_all add: it split: option.split)
  qed
  moreover have "files_at c hv (file_size hv C d) C' d'" "seen_at c hv (file_size hv C d) C' d' = seen c hv C d"
    using st [OF _ bl] synced_file_ok(2) [OF B fo, unfolded v] by (simp_all add: C'_def)
  ultimately have "synced c hv i C d C' d'" using new s(5,6) by (auto simp: synced_def cached_def bl split: if_splits)
  then show ?thesis using s(1) unfolding e C'_def [symmetric] by (intro exI [of _ C'] exI [of _ d']) (simp add: C'_def)
qed

text \<open>What an fsync has done when it reaches the faults that strike after it.\<close>

lemma fsync_body_ok:
  assumes m: "mounted ev hv" and c: "c = FSConfig ev" and ns: "no_sequence path w"
    and ok: "files_ok c hv (FSCache w) (host_state w)"
    and p: "path_ino hv (host_state w) path = Some i"
  shows "\<exists>C' d'. fsync_body ev path isdatasync fi w =
      bnd (triggers ev ''fsync'' ''after'' path '''' ((forgotten path w)\<lparr>FSCache := C', host_state := d'\<rparr>))
        (\<lambda>(_, w). Inr (0, w)) \<and>
    synced c hv i (FSCache w) (host_state w) C' d'"
proof -
  obtain st C1 where g: "lfs_getattr ev path w = Inr ((0, st), w\<lparr>FSCache := C1\<rparr>)"
    "files_ok c hv C1 (host_state w)" "seen c hv C1 (host_state w) = seen c hv (FSCache w) (host_state w)"
    "get_original_inode C1 path = to_string i" "fmlookup (contents C1) (to_string i) \<noteq> None"
    "cengine C1 = cengine (FSCache w)"
    using getattr_ok [OF m, of w path i] ok p unfolding c by blast
  obtain C' d' where s: "sync_owner (eengine ev) (eos ev) (to_string i) isdatasync path C1 (host_state w) =
      Inr (0, C', d')" "synced c hv i C1 (host_state w) C' d'"
    using sync_item_ok [OF m c g(2) p g(5), of isdatasync] by blast
  define w1 where "w1 = forgotten path (w\<lparr>FSCache := C1\<rparr>)"
  have w1: "FSCache w1 = C1" "host_state w1 = host_state w" by (simp_all add: w1_def)
  have rc: "restart_counter path ''write'' (w\<lparr>FSCache := C1\<rparr>) = w\<lparr>FSCache := C1\<rparr>"
    by (rule restart_counter_same) (simp add: ns)
  obtain b where cd: "check_and_delete_pendingwrite path (w\<lparr>FSCache := C1\<rparr>) = (b, w1)"
    by (cases "check_and_delete_pendingwrite path (w\<lparr>FSCache := C1\<rparr>)") (simp add: w1_def forgotten_def)
  define w2 where "w2 = w1\<lparr>FSCache := C', host_state := d'\<rparr>"
  have "on_cache_host (sync_owner (eengine ev) (eos ev) (to_string i) isdatasync path) w1 = Inr (0, w2)"
    using s(1) w1 by (simp add: on_cache_host_def w2_def)
  then have body: "fsync_body ev path isdatasync fi w =
      bnd (triggers ev ''fsync'' ''after'' path '''' w2) (\<lambda>(_, w). Inr (0, w))"
    using g(1,4,5) w1 by (simp add: fsync_body_def rc cd has_content_cached_def)
  have "w2 = (forgotten path w)\<lparr>FSCache := C', host_state := d'\<rparr>" by (simp add: w2_def w1_def)
  then show ?thesis using body s(2) g(3) cached_cengine [OF g(6)] by (auto simp: synced_def)
qed

lemma lfs_fsync_ok:
  assumes m: "mounted ev hv" and c: "c = FSConfig ev" and cm: "calm ev path w"
    and ok: "files_ok c hv (FSCache w) (host_state w)"
    and p: "path_ino hv (host_state w) path = Some i"
  shows "\<exists>C' d'. lfs_fsync ev path isdatasync fi w =
      Inr (0, (forgotten path w)\<lparr>FSCache := C', host_state := d'\<rparr>) \<and>
    synced c hv i (FSCache w) (host_state w) C' d'"
proof -
  define w0 where "w0 = w\<lparr>shared_locks := Suc (shared_locks w)\<rparr>"
  have w0: "FSCache w0 = FSCache w" "host_state w0 = host_state w" "no_sequence path w0"
    using calm_no_sequence [OF cm] by (simp_all add: w0_def)
  obtain C' d' where b: "fsync_body ev path isdatasync fi w0 =
      bnd (triggers ev ''fsync'' ''after'' path '''' ((forgotten path w0)\<lparr>FSCache := C', host_state := d'\<rparr>))
        (\<lambda>(_, w). Inr (0, w))"
    "synced c hv i (FSCache w) (host_state w) C' d'"
    using fsync_body_ok [OF m c w0(3), of i isdatasync fi] ok p unfolding w0 by blast
  define w2 where "w2 = (forgotten path w0)\<lparr>FSCache := C', host_state := d'\<rparr>"
  have "triggers ev ''fsync'' ''after'' path '''' w2 = Inr ((), w2)"
    by (rule triggers_calm) (simp_all add: w2_def w0_def cm)
  then have "with_shared_lock (fsync_body ev path isdatasync fi) w = Inr (0, w2\<lparr>shared_locks := shared_locks w2 - 1\<rparr>)"
    using b(1) unfolding with_shared_lock_def w0_def [symmetric] w2_def [symmetric] by simp
  also have "w2\<lparr>shared_locks := shared_locks w2 - 1\<rparr> = (forgotten path w)\<lparr>FSCache := C', host_state := d'\<rparr>"
    by (simp add: w2_def w0_def forgotten_locks)
  finally have "lfs_fsync ev path isdatasync fi w = Inr (0, (forgotten path w)\<lparr>FSCache := C', host_state := d'\<rparr>)"
    by (simp add: lfs_fsync_def triggers_calm [OF cm])
  then show ?thesis using b(2) by blast
qed

section \<open>Losing the cache\<close>

text \<open>
  When nothing of any file is cached, what is left of every file is the host's copy: the
  situation after the cache has been cleared and after the file system has been mounted anew.
\<close>

lemma nothing_cached:
  assumes "cache_ok c C" and "names_ok hv C d" and "contents C = fmempty" and "blocks_of C = (\<lambda>_ _. None)"
  shows "files_ok c hv C d" and "seen c hv C d = content hv d"
proof -
  have B: "0 < IO_BLOCK_SIZE c"
    using custom.geometry [OF cache_invD(1) [OF assms(1) [unfolded cache_ok_def]]] by simp
  have sz: "file_size hv C d i = int (length (content hv d i))" for i by (simp add: file_size_def assms(3))
  show "files_ok c hv C d"
    using assms(1,2) file_ok_uncached(1) [OF B] by (simp add: files_at_def sz assms(4))
  show "seen c hv C d = content hv d"
    using file_ok_uncached(2) by (simp add: fun_eq_iff seen_at_def sz assms(4))
qed

lemma clear_cache_ok:
  assumes m: "mounted ev hv" and c: "c = FSConfig ev"
    and ok: "files_ok c hv (FSCache w) (host_state w)" and free: "shared_locks w = 0"
  shows "\<exists>C'. command_fault_clear_cache ev w = Inr ((), w\<lparr>FSCache := C'\<rparr>) \<and>
    files_ok c hv C' (host_state w) \<and> seen c hv C' (host_state w) = content hv (host_state w) \<and> cached C' = {}"
proof -
  obtain C' where C': "clear_all_cache (custom_cache_engine (eos ev) c) (FSCache w) = Inr C'"
    "cache_inv (engine_ok c) cblocks C'" "contents C' = fmempty" "\<forall>cid b. cblocks (cengine C') cid b = None"
    "file_inode_mapping C' \<subseteq>\<^sub>f file_inode_mapping (FSCache w)"
    using custom.clear_all_cache_ok [OF files_atD(2) [OF ok], of "eos ev"] by blast
  have names: "names_ok hv C' (host_state w)"
    using files_atD(3) [OF ok] C'(5) by (auto simp: names_ok_def fmsubset_alt_def fmpred_iff)
  have empty: "blocks_of C' = (\<lambda>_ _. None)" using C'(4) by (simp add: blocks_of_def fun_eq_iff)
  have inv: "cache_ok c C'" using C'(2) by (simp add: cache_ok_def)
  have "command_fault_clear_cache ev w = Inr ((), w\<lparr>FSCache := C'\<rparr>)"
  proof -
    have "clear_all_cache (eengine ev) (FSCache w) = Inr C'" using C'(1) m c by (simp add: mounted_def)
    then show ?thesis
      using free by (simp add: command_fault_clear_cache_def with_unique_lock_def on_cache_def)
  qed
  then show ?thesis using nothing_cached [OF inv names C'(3) empty] by (intro exI [of _ C']) (simp add: cached_def empty)
qed

lemma clear_cache_blocked:
  "0 < shared_locks w \<Longrightarrow> command_fault_clear_cache ev w = Inl (Fault Deadlock)"
  by (simp add: command_fault_clear_cache_def with_unique_lock_def)

lemma mount_anew:
  assumes "single_block c" and "new_engine c = Inr e"
  shows "files_ok c hv (new_cache e) d" and "seen c hv (new_cache e) d = content hv d"
proof -
  have "cache_ok c (new_cache e)" "blocks_of (new_cache e) = (\<lambda>_ _. None)"
    using new_cache_ok [OF assms(1)] assms(2) by auto
  moreover have "names_ok hv (new_cache e) d" "contents (new_cache e) = fmempty"
    by (simp_all add: names_ok_def new_cache_def)
  ultimately show "files_ok c hv (new_cache e) d" "seen c hv (new_cache e) d = content hv d"
    by (simp_all add: nothing_cached)
qed

section \<open>The checkpoint command\<close>

lemma unknown_is_durable:
  assumes ok: "files_ok c hv C d" and i: "fmlookup (contents C) (to_string i) = None"
  shows "seen c hv C d i = content hv d i"
proof -
  have "blocks_of C (to_string i) = (\<lambda>_. None)"
    using unknown_blocks [OF files_atD(2) [OF ok] i] by (simp add: blocks_of_def fun_eq_iff)
  moreover have "0 < IO_BLOCK_SIZE c" using custom.geometry [OF cache_invD(1) [OF files_atD(2) [OF ok]]] by simp
  ultimately show ?thesis using i by (simp add: seen_at_def file_size_def file_ok_uncached(2))
qed

text \<open>Writing back one mapped path, and then a list of them.\<close>

lemma checkpoint_step:
  assumes m: "mounted ev hv" and c: "c = FSConfig ev"
    and ok: "files_ok c hv C d" and p: "path_ino hv d path = Some i"
    and s: "fmlookup (file_inode_mapping C) path = Some s"
  shows "\<exists>r C' d'. sync_owner (eengine ev) (eos ev) s False path C d = Inr (r, C', d') \<and>
    synced c hv i C d C' d' \<and> file_inode_mapping C' = file_inode_mapping C"
proof -
  have s: "s = to_string i" using files_atD(3) [OF ok] p s by (auto simp: names_ok_def)
  show ?thesis
  proof (cases "fmlookup (contents C) (to_string i)")
    case None
    then have "synced c hv i C d C d"
      using ok unknown_is_durable [OF ok None] by (simp add: synced_def)
    then show ?thesis
      by (intro exI [of _ "- 1"] exI [of _ C] exI [of _ d]) (simp add: s sync_owner_unknown [OF None])
  next
    case (Some it)
    then show ?thesis using sync_item_ok [OF m c ok p] s by blast
  qed
qed

lemma full_checkpoint_ok:
  assumes m: "mounted ev hv" and c: "c = FSConfig ev"
    and ok: "files_ok c hv C d"
    and p: "\<And>p. p \<in> set ks \<Longrightarrow> fmlookup (file_inode_mapping C) p \<noteq> None \<and> path_ino hv d p \<noteq> None"
  shows "\<exists>C' d'. foldE (\<lambda>path (C, d).
       bnd (fmat (file_inode_mapping C) path) (\<lambda>inode.
       bnd (sync_owner (eengine ev) (eos ev) inode False path C d) (\<lambda>(_, C, d). Inr (C, d)))) ks (C, d) =
       Inr (C', d') \<and>
    files_ok c hv C' d' \<and> seen c hv C' d' = seen c hv C d \<and>
    content hv d' = (\<lambda>i. if \<exists>p \<in> set ks. path_ino hv d p = Some i then seen c hv C d i else content hv d i) \<and>
    path_ino hv d' = path_ino hv d \<and> fd_ino hv d' = fd_ino hv d"
  using ok p
proof (induction ks arbitrary: C d)
  case Nil
  then show ?case by simp
next
  case (Cons path ks)
  obtain s i where s: "fmlookup (file_inode_mapping C) path = Some s" "path_ino hv d path = Some i"
    using Cons.prems(2) [of path] by auto
  obtain r C1 d1 where 1: "sync_owner (eengine ev) (eos ev) s False path C d = Inr (r, C1, d1)"
    "synced c hv i C d C1 d1" "file_inode_mapping C1 = file_inode_mapping C"
    using checkpoint_step [OF m c Cons.prems(1) s(2,1)] by blast
  note y = 1(2) [unfolded synced_def]
  have ks: "fmlookup (file_inode_mapping C1) p \<noteq> None \<and> path_ino hv d1 p \<noteq> None" if "p \<in> set ks" for p
    using Cons.prems(2) [of p] that y 1(3) by simp
  obtain C' d' where 2: "foldE (\<lambda>path (C, d).
       bnd (fmat (file_inode_mapping C) path) (\<lambda>inode.
       bnd (sync_owner (eengine ev) (eos ev) inode False path C d) (\<lambda>(_, C, d). Inr (C, d)))) ks (C1, d1) =
       Inr (C', d')"
    "files_ok c hv C' d'" "seen c hv C' d' = seen c hv C1 d1"
    "content hv d' = (\<lambda>i. if \<exists>p \<in> set ks. path_ino hv d1 p = Some i then seen c hv C1 d1 i else content hv d1 i)"
    "path_ino hv d' = path_ino hv d1" "fd_ino hv d' = fd_ino hv d1"
    using Cons.IH [OF _ ks] y by blast
  have "content hv d' =
      (\<lambda>i. if \<exists>p \<in> set (path # ks). path_ino hv d p = Some i then seen c hv C d i else content hv d i)"
    unfolding 2(4) using y s(2) by (auto simp: fun_eq_iff)
  then show ?case
    using 1(1) 2 y by (intro exI [of _ C'] exI [of _ d']) (simp add: fmat_Some [OF s(1)])
qed

lemma command_checkpoint_ok:
  assumes m: "mounted ev hv" and c: "c = FSConfig ev"
    and ok: "files_ok c hv (FSCache w) (host_state w)" and free: "shared_locks w = 0"
    and p: "\<And>p. fmlookup (file_inode_mapping (FSCache w)) p \<noteq> None \<Longrightarrow> path_ino hv (host_state w) p \<noteq> None"
  shows "\<exists>C' d'. command_checkpoint ev w = Inr ((), w\<lparr>FSCache := C', host_state := d'\<rparr>) \<and>
    files_ok c hv C' d' \<and> seen c hv C' d' = seen c hv (FSCache w) (host_state w) \<and>
    content hv d' = (\<lambda>i.
      if \<exists>p. fmlookup (file_inode_mapping (FSCache w)) p \<noteq> None \<and> path_ino hv (host_state w) p = Some i
      then seen c hv (FSCache w) (host_state w) i else content hv (host_state w) i) \<and>
    path_ino hv d' = path_ino hv (host_state w) \<and> fd_ino hv d' = fd_ino hv (host_state w)"
proof -
  define ks where "ks = fmkeys (file_inode_mapping (FSCache w))"
  have ks: "p \<in> set ks \<longleftrightarrow> fmlookup (file_inode_mapping (FSCache w)) p \<noteq> None" for p
    by (simp add: ks_def fmlookup_dom_iff)
  have "fmlookup (file_inode_mapping (FSCache w)) q \<noteq> None \<and> path_ino hv (host_state w) q \<noteq> None" if "q \<in> set ks" for q
    using that p [of q] by (simp add: ks)
  from full_checkpoint_ok [OF m c ok this, of ks] obtain C' d' where f:
    "full_checkpoint (eengine ev) (eos ev) (FSCache w) (host_state w) = Inr (C', d')"
    "files_ok c hv C' d'" "seen c hv C' d' = seen c hv (FSCache w) (host_state w)"
    "content hv d' = (\<lambda>i. if \<exists>p \<in> set ks. path_ino hv (host_state w) p = Some i
       then seen c hv (FSCache w) (host_state w) i else content hv (host_state w) i)"
    "path_ino hv d' = path_ino hv (host_state w)" "fd_ino hv d' = fd_ino hv (host_state w)"
    unfolding full_checkpoint_def ks_def by blast
  moreover have "command_checkpoint ev w = Inr ((), w\<lparr>FSCache := C', host_state := d'\<rparr>)"
    using f(1) free by (simp add: command_checkpoint_def with_unique_lock_def on_cache_host_def)
  moreover have "content hv d' = (\<lambda>i.
      if \<exists>p. fmlookup (file_inode_mapping (FSCache w)) p \<noteq> None \<and> path_ino hv (host_state w) p = Some i
      then seen c hv (FSCache w) (host_state w) i else content hv (host_state w) i)"
    unfolding f(4) Bex_def ks ..
  ultimately show ?thesis by blast
qed

end
