(* ===== verification/Fs_Read.thy ===== *)
theory Fs_Read
  imports Fs_Sync
begin

text \<open>
  Reading a mounted file: the loop over the blocks of a request copies what is cached and postpones
  the runs of blocks that are not, which one call of pread then fetches from the host. The buffer
  always holds a prefix of what is to be seen of the file (\<open>reading\<close>).
\<close>


section \<open>Bytes of one block\<close>

lemma take_copied:
  assumes "take n buf = take n X" and "n \<le> length buf" and "bs = take k (drop n X)"
  shows "take (n + length bs) (take n buf @ bs @ rest) = take (n + length bs) X"
proof -
  have "take (length bs) (drop n X) = bs" by (cases "k \<le> length X - n") (simp_all add: assms(3))
  moreover have "n \<le> length X" using arg_cong [OF assms(1), of length] assms(2) by simp
  ultimately show ?thesis using assms(1,2) by (simp add: take_add)
qed

lemma take_drop_eqI:
  assumes "length (take n (drop p xs)) = length (take n (drop q ys))"
    and "\<And>j. j < n \<Longrightarrow> p + j < length xs \<Longrightarrow> q + j < length ys \<Longrightarrow> xs ! (p + j) = ys ! (q + j)"
  shows "take n (drop p xs) = take n (drop q ys)"
  by (rule nth_equalityI) (use assms in auto)

text \<open>What the handler copies from a cached block is what is to be seen there.\<close>

lemma cached_bytes:
  assumes B: "0 < B" and ok: "file_ok B sz v disk" and cb: "v b = Some cb" "int (length (cb_data cb)) = B"
    and r: "0 \<le> frm" "0 \<le> m" "frm + m \<le> cb_readable cb + 1"
  shows "take (nat m) (drop (nat frm) (cb_data cb)) =
    take (nat m) (drop (nat (b * B + frm)) (visible B sz v disk))"
proof (rule take_drop_eqI)
  note k = file_okD(3) [OF ok cb(1), unfolded cached_block_ok_def]
  have bB: "0 \<le> b * B" using k B by simp
  have up: "frm + m \<le> B" "b * B + frm + m \<le> sz" using r(3) k by linarith+
  show "length (take (nat m) (drop (nat frm) (cb_data cb))) =
      length (take (nat m) (drop (nat (b * B + frm)) (visible B sz v disk)))"
    using up r bB cb(2) by (simp add: nat_diff_distrib)
  fix j assume j: "j < nat m"
  have i: "int (nat (b * B + frm) + j) = b * B + frm + int j" using bB r(1) by simp
  have p: "0 \<le> frm + int j" "frm + int j \<le> cb_readable cb" "frm + int j < B" "b * B + frm + int j < sz"
    using j r up by linarith+
  have e: "nat (frm + int j) = nat frm + j" using r(1) by (simp add: nat_add_distrib)
  have "file_byte B v (byte_at disk) (nat (b * B + frm) + j) = cb_data cb ! (nat frm + j)"
    using p cb(1) e bB r(1) by (subst file_byte_in [OF B, of b]) (auto simp: i)
  moreover assume "nat (b * B + frm) + j < length (visible B sz v disk)"
  ultimately show "cb_data cb ! (nat frm + j) = visible B sz v disk ! (nat (b * B + frm) + j)"
    by (simp add: visible_def)
qed

text \<open>What the host has of a block of the file that is not cached is what is to be seen there.\<close>

lemma uncached_bytes:
  assumes B: "0 < B" and ok: "file_ok B sz v disk" and none: "v b = None" and b: "0 \<le> b" "b * B < sz"
    and r: "0 \<le> frm" "0 \<le> m" "frm + m \<le> B"
  shows "take (nat m) (drop (nat (b * B + frm)) disk) =
    take (nat m) (drop (nat (b * B + frm)) (visible B sz v disk))"
proof (rule take_drop_eqI)
  have bB: "0 \<le> b * B" using b B by simp
  have len: "min sz (b * B + B) \<le> int (length disk)" "int (length disk) \<le> sz"
    using file_okD(1) [OF ok] file_okD(4) [OF ok b none] by simp_all
  show "length (take (nat m) (drop (nat (b * B + frm)) disk)) =
      length (take (nat m) (drop (nat (b * B + frm)) (visible B sz v disk)))"
  proof -
    obtain p where p: "b * B + frm = int p" using bB r(1) by (metis add_nonneg_nonneg nonneg_int_cases)
    have "min (length disk - p) (nat m) = min (nat sz - p) (nat m)"
    proof (cases "b * B + B \<le> sz")
      case True
      then have "b * B + B \<le> int (length disk)" using len(1) by (simp add: min_absorb2)
      then have "int p + m \<le> int (length disk)" using r(3) p by linarith
      then show ?thesis using len(2) by simp
    next
      case False
      then have "int (length disk) = sz" using len by (simp add: min_def)
      then show ?thesis by (metis nat_int)
    qed
    then show ?thesis by (simp add: p)
  qed
  fix j assume j: "j < nat m" "nat (b * B + frm) + j < length disk"
    "nat (b * B + frm) + j < length (visible B sz v disk)"
  have i: "int (nat (b * B + frm) + j) = b * B + frm + int j" using bB r(1) by simp
  have "frm + int j < B" using j r by linarith
  then have "file_byte B v (byte_at disk) (nat (b * B + frm) + j) = byte_at disk (nat (b * B + frm) + j)"
    using r none bB by (subst file_byte_in [OF B, of b]) (auto simp: i)
  then show "disk ! (nat (b * B + frm) + j) = visible B sz v disk ! (nat (b * B + frm) + j)"
    using j by (simp add: visible_def byte_at_def)
qed

section \<open>The loop over the blocks\<close>

text \<open>
  The state of the loop when block \<open>b\<close> is next. The bytes before the iterator are in the buffer;
  a postponed read of \<open>k\<close> bytes continues them, and the host agrees there with what is to be seen.
\<close>

definition reading ::
  "int \<Rightarrow> byte list \<Rightarrow> byte list \<Rightarrow> int \<Rightarrow> int \<Rightarrow> int \<Rightarrow> read_loop \<Rightarrow> bool" where
  "reading B V disk offset sz b l \<longleftrightarrow>
     int (length (rl_buf l)) = sz \<and> int (length (rl_read_buffer l)) = B \<and>
     0 \<le> rl_BUF_ITERATOR l \<and> 0 \<le> rl_last_pread_chunk_size l \<and>
     rl_BUF_ITERATOR l + rl_last_pread_chunk_size l \<le> sz \<and>
     offset + rl_BUF_ITERATOR l \<le> int (length V) \<and>
     rl_BYTES_LEFT l = sz - rl_BUF_ITERATOR l \<and>
     min (int (length V)) (offset + rl_BUF_ITERATOR l + rl_last_pread_chunk_size l) =
       min (int (length V)) (written_to B offset sz b) \<and>
     take (nat (rl_BUF_ITERATOR l)) (rl_buf l) = take (nat (rl_BUF_ITERATOR l)) (drop (nat offset) V) \<and>
     (0 < rl_last_pread_chunk_size l \<longrightarrow>
        rl_last_pread_chunk_offset l = offset + rl_BUF_ITERATOR l \<and>
        take (nat (rl_last_pread_chunk_size l)) (drop (nat (offset + rl_BUF_ITERATOR l)) disk) =
        take (nat (rl_last_pread_chunk_size l)) (drop (nat (offset + rl_BUF_ITERATOR l)) V)) \<and>
     (rl_last_pread_chunk_size l = 0 \<longrightarrow> b * B < int (length V) \<longrightarrow> b \<le> (offset + sz - 1) div B \<longrightarrow>
        rl_last_pread_chunk_offset l = max offset (b * B))"

lemma readingD:
  assumes "reading B V disk offset sz b l"
  shows "int (length (rl_buf l)) = sz" "int (length (rl_read_buffer l)) = B"
    "0 \<le> rl_BUF_ITERATOR l" "0 \<le> rl_last_pread_chunk_size l"
    "rl_BUF_ITERATOR l + rl_last_pread_chunk_size l \<le> sz"
    "offset + rl_BUF_ITERATOR l \<le> int (length V)" "rl_BYTES_LEFT l = sz - rl_BUF_ITERATOR l"
    "min (int (length V)) (offset + rl_BUF_ITERATOR l + rl_last_pread_chunk_size l) =
       min (int (length V)) (written_to B offset sz b)"
    "take (nat (rl_BUF_ITERATOR l)) (rl_buf l) = take (nat (rl_BUF_ITERATOR l)) (drop (nat offset) V)"
    "0 < rl_last_pread_chunk_size l \<Longrightarrow> rl_last_pread_chunk_offset l = offset + rl_BUF_ITERATOR l"
    "0 < rl_last_pread_chunk_size l \<Longrightarrow>
        take (nat (rl_last_pread_chunk_size l)) (drop (nat (offset + rl_BUF_ITERATOR l)) disk) =
        take (nat (rl_last_pread_chunk_size l)) (drop (nat (offset + rl_BUF_ITERATOR l)) V)"
    "rl_last_pread_chunk_size l = 0 \<Longrightarrow> b * B < int (length V) \<Longrightarrow> b \<le> (offset + sz - 1) div B \<Longrightarrow>
        rl_last_pread_chunk_offset l = max offset (b * B)"
  using assms by (simp_all add: reading_def)

text \<open>Bytes that continue what is already in the buffer.\<close>

lemma buffer_grows:
  assumes it: "0 \<le> it" "take (nat it) buf = take (nat it) (drop (nat offset) V)" and off: "0 \<le> offset"
    and bs: "bs = take k (drop (nat (offset + it)) V)" and room: "it + int (length bs) \<le> int (length buf)"
  obtains buf' where "mem_write buf it bs = Inr buf'" "length buf' = length buf"
    "take (nat (it + int (length bs))) buf' = take (nat (it + int (length bs))) (drop (nat offset) V)"
proof -
  define rest where "rest = drop (nat it + length bs) buf"
  have w: "mem_write buf it bs = Inr (take (nat it) buf @ bs @ rest)"
    using it(1) room by (simp add: mem_write_def rest_def)
  have "bs = take k (drop (nat it) (drop (nat offset) V))"
    using bs it(1) off by (simp add: nat_add_distrib add.commute)
  moreover have "nat it \<le> length buf" using room by linarith
  ultimately have "take (nat it + length bs) (take (nat it) buf @ bs @ rest) =
      take (nat it + length bs) (drop (nat offset) V)" by (intro take_copied it(2))
  then show thesis using that [OF w mem_write_length [OF w]] it(1) by (simp add: nat_add_distrib)
qed

lemma flush_ok:
  assumes rd: "reading B (V :: byte list) (content hv d i) offset sz b l" and m: "pread_law (eos ev) hv"
    and fd: "fd_ino hv d fd = Some i" and k: "0 < rl_last_pread_chunk_size l"
    and sz: "sz < 2147483648" and off: "0 \<le> offset"
  defines "it \<equiv> min (int (length V)) (written_to B offset sz b) - offset"
  obtains buf' where "flush_pread ev fd l d =
      Inr (l\<lparr>rl_buf := buf', rl_BUF_ITERATOR := it, rl_BYTES_LEFT := sz - it\<rparr>)"
    "int (length buf') = sz" "take (nat it) buf' = take (nat it) (drop (nat offset) V)"
    "0 \<le> it" "it \<le> sz"
proof -
  note D = readingD [OF rd]
  define bs where "bs = take (nat (rl_last_pread_chunk_size l)) (drop (nat (offset + rl_BUF_ITERATOR l)) V)"
  have len: "rl_BUF_ITERATOR l + int (length bs) = it"
  proof -
    have "int (length bs) = min (int (length V) - (offset + rl_BUF_ITERATOR l)) (rl_last_pread_chunk_size l)"
      using D(3,6) k off by (simp add: bs_def)
    then show ?thesis unfolding it_def D(8) [symmetric] by linarith
  qed
  have p: "os_pread (eos ev) fd (rl_last_pread_chunk_size l) (rl_last_pread_chunk_offset l) d =
      (int (length bs), bs)"
  proof -
    have "os_pread (eos ev) fd (rl_last_pread_chunk_size l) (offset + rl_BUF_ITERATOR l) d =
        (let bs = take (nat (rl_last_pread_chunk_size l))
            (drop (nat (offset + rl_BUF_ITERATOR l)) (content hv d i)) in (int (length bs), bs))"
      using m fd k D(3) off unfolding pread_law_def by simp
    then show ?thesis unfolding D(11) [OF k] D(10) [OF k] bs_def Let_def .
  qed
  have small: "int (length bs) < 2147483648" using D(3,4,5) sz by (simp add: bs_def)
  have fits: "rl_BUF_ITERATOR l + int (length bs) \<le> int (length (rl_buf l))"
    
  proof -
    have "length bs \<le> nat (rl_last_pread_chunk_size l)" by (simp add: bs_def)
    then show ?thesis using D(1,4,5) by linarith
  qed
  obtain buf' where b: "mem_write (rl_buf l) (rl_BUF_ITERATOR l) bs = Inr buf'" "length buf' = length (rl_buf l)"
    "take (nat it) buf' = take (nat it) (drop (nat offset) V)"
    using buffer_grows [OF D(3,9) off bs_def fits] unfolding len by blast
  have "flush_pread ev fd l d = Inr (l\<lparr>rl_buf := buf', rl_BUF_ITERATOR := it, rl_BYTES_LEFT := sz - it\<rparr>)"
    using small len D(7) by (simp add: flush_pread_def p b(1) c_int_id)
  moreover have "0 \<le> it" "it \<le> sz" using len D(1,3) fits by simp_all
  ultimately show thesis using that b(2,3) D(1) by simp
qed


text \<open>Where a request stands when it gets to one of its blocks.\<close>

lemma block_walk:
  assumes B: "0 < B" and r: "0 \<le> off" "0 < len" "off + len \<le> 9223372036854775808"
    and b: "off div B \<le> b" "b \<le> (off + len - 1) div B"
  defines "frm \<equiv> max off (b * B) - b * B" and "to \<equiv> min (off + len) (b * B + B) - 1 - b * B"
  shows "block_range B off len b = (frm, to)"
    "written_to B off len b = b * B + frm" "written_to B off len (b + 1) = b * B + to + 1"
    "0 \<le> frm" "frm \<le> to" "to < B" "0 \<le> b" "b * B < off + len" "off < b * B + B"
    "b * B + to + 1 \<le> off + len"
proof -
  note br = block_range_eq [OF B r b]
  show "block_range B off len b = (frm, to)" using br(1) by (simp add: frm_def to_def)
  show "written_to B off len b = b * B + frm" "written_to B off len (b + 1) = b * B + to + 1"
    using br(2,3) r(2) by (auto simp: written_to_def frm_def to_def algebra_simps)
  show "0 \<le> frm" "frm \<le> to" "to < B" "b * B + to + 1 \<le> off + len"
    using br(2,3) r(2) B by (auto simp: frm_def to_def)
  show "0 \<le> b" using b(1) r(1) B by (meson order_trans pos_imp_zdiv_nonneg_iff)
  show "b * B < off + len" "off < b * B + B" by (fact br(2), fact br(3))
qed

lemma reading_skip:
  assumes rd: "reading B V disk offset sz b l" and B: "0 < B"
    and past: "int (length V) \<le> b * B" "b * B < offset + sz" and b': "b \<le> b'"
  shows "reading B V disk offset sz b' l"
proof -
  have le: "b * B \<le> b' * B" using b' B by (simp add: mult_right_mono)
  then have "int (length V) \<le> written_to B offset sz b" "int (length V) \<le> written_to B offset sz b'"
    using past by (simp_all add: written_to_def)
  then show ?thesis using rd le past(1) by (auto simp: reading_def min_def)
qed

text \<open>A block of the file that is not cached is added to the postponed read.\<close>

lemma uncached_step:
  assumes B: "0 < B" and off: "0 \<le> offset" "offset < sz" and len: "0 < n" "offset + n \<le> 9223372036854775808"
    and b: "offset div B \<le> b" "b \<le> (offset + n - 1) div B"
    and ok: "file_ok B sz v disk" and none: "v b = None" and inside: "b * B < sz"
    and rd: "reading B (visible B sz v disk) disk offset n b l"
    and range: "block_range B offset n b = (frm, to)"
  shows "reading B (visible B sz v disk) disk offset n (b + 1)
    (l\<lparr>rl_data_allocated := a, rl_last_pread_chunk_size := rl_last_pread_chunk_size l + (to - frm + 1)\<rparr>)"
proof -
  define V where "V = visible B sz v disk"
  define it where "it = rl_BUF_ITERATOR l"
  define k where "k = rl_last_pread_chunk_size l"
  note D = readingD [OF rd, folded V_def it_def k_def]
  note W = block_walk [OF B off(1) len b]
  have ft: "frm = max offset (b * B) - b * B" "to = min (offset + n) (b * B + B) - 1 - b * B"
    using W(1) range by simp_all
  note W = W [folded ft]
  have F: "int (length V) = sz" using file_okD(2) [OF ok] by (simp add: V_def)
  have pos: "offset + it + k = b * B + frm"
  proof -
    have "b * B + frm < sz" using ft(1) off(2) inside by simp
    then show ?thesis using D(8) W(2) F by (simp add: min_def split: if_splits)
  qed
  have bytes: "take (nat (to - frm + 1)) (drop (nat (b * B + frm)) disk) =
      take (nat (to - frm + 1)) (drop (nat (b * B + frm)) V)"
    unfolding V_def using W(4-6) by (intro uncached_bytes [OF B ok none W(7) inside]) simp_all
  define k' where "k' = k + (to - frm + 1)"
  have chunk: "take (nat k') (drop (nat (offset + it)) disk) = take (nat k') (drop (nat (offset + it)) V)"
  proof -
    have k': "nat k' = nat k + nat (to - frm + 1)" using D(4) W(5) by (simp add: k'_def nat_add_distrib)
    have at: "drop (nat k) (drop (nat (offset + it)) X) = drop (nat (b * B + frm)) X" for X :: "byte list"
    proof -
      have "nat k + nat (offset + it) = nat (b * B + frm)" using D(3,4) off(1) pos by linarith
      then show ?thesis by simp
    qed
    have "take (nat k) (drop (nat (offset + it)) disk) = take (nat k) (drop (nat (offset + it)) V)"
      using D(4,11) by (cases "k = 0") simp_all
    then show ?thesis unfolding k' take_add at bytes by simp
  qed
  have o: "rl_last_pread_chunk_offset l = offset + it"
  proof (cases "k = 0")
    case True
    then show ?thesis using D(12) b(2) inside F pos ft(1) by simp
  next
    case False
    then show ?thesis using D(4,10) by simp
  qed
  have k0: "0 < k'" using D(4) W(5) by (simp add: k'_def)
  have "offset + it + k' = b * B + to + 1" using pos by (simp add: k'_def)
  then show ?thesis
    using D chunk o k0 W(3,10) unfolding reading_def V_def [symmetric]
    by (simp add: it_def [symmetric] k_def [symmetric] k'_def [symmetric])
qed

text \<open>Copying a cached block.\<close>

lemma copy_cached_ok:
  assumes l: "int (length (rl_buf l)) = sz" "int (length (rl_read_buffer l)) = B"
      "0 \<le> rl_BUF_ITERATOR l" "rl_BUF_ITERATOR l + n \<le> sz"
      "take (nat (rl_BUF_ITERATOR l)) (rl_buf l) = take (nat (rl_BUF_ITERATOR l)) (drop (nat offset) V)"
    and off: "0 \<le> offset" and dt: "int (length dt) = B"
    and n: "n = min readable to - frm + 1"
    and r: "0 \<le> frm" "frm \<le> to" "to < B" "frm \<le> readable" "B < 2147483648"
    and bytes: "take (nat n) (drop (nat frm) dt) = take (nat n) (drop (nat (offset + rl_BUF_ITERATOR l)) V)"
    and pad: "min readable to < B - 1 \<Longrightarrow> \<not> is_last \<Longrightarrow> rl_BUF_ITERATOR l + n + B \<le> sz"
  obtains buf' where "copy_cached_block B b frm to readable is_last dt l =
      Inr (l\<lparr>rl_buf := buf', rl_BUF_ITERATOR := rl_BUF_ITERATOR l + n, rl_BYTES_LEFT := rl_BYTES_LEFT l - n,
             rl_data_allocated := rl_data_allocated l + n, rl_read_buffer := dt\<rparr>)"
    "int (length buf') = sz"
    "take (nat (rl_BUF_ITERATOR l + n)) buf' = take (nat (rl_BUF_ITERATOR l + n)) (drop (nat offset) V)"
proof -
  define it where "it = rl_BUF_ITERATOR l"
  define bs where "bs = take (nat n) (drop (nat frm) dt)"
  have n0: "0 < n" "frm + n \<le> B" "u64 n = n" using n r by (simp_all add: u64_id)
  have lb: "int (length bs) = n" using n0 r(1) dt by (simp add: bs_def nat_diff_distrib)
  have same: "length (rl_read_buffer l) = length dt" using l(2) dt by simp
  have rb: "mem_write (rl_read_buffer l) 0 dt = Inr dt" using same by (simp add: mem_write_def)
  have rd: "mem_read dt frm n = Inr bs" using n0 r(1) dt by (simp add: mem_read_def bs_def)
  obtain b1 where b1: "mem_write (rl_buf l) it bs = Inr b1" "length b1 = length (rl_buf l)"
    "take (nat (it + n)) b1 = take (nat (it + n)) (drop (nat offset) V)"
    using buffer_grows [OF l(3,5) off, of bs "nat n"] bytes l(1,4) lb
    unfolding it_def bs_def by auto
  define rt where "rt = min readable to"
  show thesis
  proof (cases "rt < B - 1 \<and> \<not> is_last")
    case True
    define z where "z = B - rt"
    have z: "0 \<le> z" "u64 z = z" "0 \<le> it + n + rt" "it + n + rt + z \<le> int (length b1)"
      using True r pad [folded rt_def] l(1,3) b1(2) n0(1) by (simp_all add: z_def rt_def it_def u64_id)
    define buf' where "buf' = take (nat (it + n + rt)) b1 @ replicate (nat z) 0 @ drop (nat (it + n + rt) + nat z) b1"
    have "mem_set b1 (it + n + rt) 0 (u64 z) = Inr buf'"
      using z by (simp add: mem_set_def mem_write_def buf'_def)
    moreover have "take (nat (it + n)) buf' = take (nat (it + n)) b1"
    proof -
      have "nat (it + n) \<le> nat (it + n + rt)" "nat (it + n + rt) \<le> length b1"
        using r(1,2,4) z by (simp_all add: rt_def)
      then show ?thesis by (simp add: buf'_def min_def)
    qed
    moreover have "length buf' = length b1" using calculation(1) by (rule mem_set_length)
    ultimately show thesis
      using True l(1) rb rd b1 n0(3) that [of buf']
      by (simp add: copy_cached_block_def Let_def rt_def z_def it_def n [symmetric])
  next
    case False
    then show thesis
      using l(1) rb rd b1 n0(3) that [of b1]
      by (cases "rt < B - 1"; cases is_last)
        (simp_all add: copy_cached_block_def Let_def rt_def it_def n [symmetric])
  qed
qed


section \<open>One block\<close>

text \<open>What the loop relies on: the request, the descriptor, and what the file looks like.\<close>

definition read_ready ::
  "(engine, 'd) env \<Rightarrow> 'd view \<Rightarrow> read_ctx \<Rightarrow> int \<Rightarrow> int \<Rightarrow> 'd \<Rightarrow> bool" where
  "read_ready ev hv x i sz d \<longleftrightarrow>
     rc_inode x = to_string i \<and> 0 \<le> rc_offset x \<and> rc_offset x < sz \<and> rc_meta_size x = sz \<and>
     0 < rc_size x \<and> rc_size x < 2147483648 \<and>
     rc_offset x + rc_size x \<le> 2147483648 * IO_BLOCK_SIZE (FSConfig ev) \<and>
     0 < rc_fd x \<and> fd_ino hv d (rc_fd x) = Some i"

text \<open>
  When the file ends inside a block and the request goes on past that block, the handler clears a
  block's worth of the buffer after what it has copied, so that much must be left of it.
\<close>

definition room_to_clear :: "int \<Rightarrow> int \<Rightarrow> int \<Rightarrow> int \<Rightarrow> bool" where
  "room_to_clear B sz offset n \<longleftrightarrow> (offset + n - 1) div B \<le> (sz - 1) div B \<or> sz - offset + B \<le> n"

lemma aligned_room:
  assumes B: "0 < B" and "(offset + n) mod B = 0" and "offset < sz"
  shows "room_to_clear B sz offset n"
proof (cases "(offset + n - 1) div B \<le> (sz - 1) div B")
  case False
  define q where "q = (offset + n) div B"
  have e: "offset + n = q * B" using assms(2) by (simp add: q_def mod_0_imp_dvd)
  have "(q * B - 1) div B = q - 1" using B by (intro in_block(1)) (simp_all add: algebra_simps)
  then have "(sz - 1) div B + 1 < q" using False e by simp
  then have "((sz - 1) div B + 1) * B + B \<le> q * B" by (rule block_before [OF B])
  moreover have "sz - 1 < (sz - 1) div B * B + B" by (rule block_bounds(2) [OF B])
  ultimately show ?thesis using e by (simp add: room_to_clear_def distrib_right)
qed (simp add: room_to_clear_def)

text \<open>Reading changes nothing of what the cache holds.\<close>

definition reread :: "config \<Rightarrow> 'd view \<Rightarrow> int \<Rightarrow> engine cache \<Rightarrow> 'd \<Rightarrow> engine cache \<Rightarrow> bool" where
  "reread c hv i C d C' \<longleftrightarrow> files_ok c hv C' d \<and> seen c hv C' d = seen c hv C d \<and>
     blocks_of C' = blocks_of C \<and> file_size hv C' d = file_size hv C d \<and>
     fmlookup (contents C') (to_string i) \<noteq> None \<and> nfree (cengine C') = nfree (cengine C)"

lemma reread_refl:
  "files_ok c hv C d \<Longrightarrow> fmlookup (contents C) (to_string i) \<noteq> None \<Longrightarrow> reread c hv i C d C"
  by (simp add: reread_def)

lemma reread_trans:
  "reread c hv i C d C1 \<Longrightarrow> reread c hv i C1 d C2 \<Longrightarrow> reread c hv i C d C2"
  by (auto simp: reread_def)

lemma get_block_ok:
  assumes m: "mounted ev hv" and c: "c = FSConfig ev"
    and ok: "files_ok c hv C d" and i: "fmlookup (contents C) (to_string i) \<noteq> None"
  shows "\<exists>C'. get_data_blocks (eengine ev) c (to_string i) {|b|} C =
      Inr (got_block b (blocks_of C (to_string i) b), C') \<and> reread c hv i C d C'"
proof -
  obtain it where it: "fmlookup (contents C) (to_string i) = Some it" using i by auto
  obtain e' where g: "get_data_blocks (custom_cache_engine (eos ev) c) c (to_string i) {|b|} C =
      Inr (got_block b (cblocks (cengine C) (to_string i) b), with_item (to_string i) it e' C)"
    "cache_inv (engine_ok c) cblocks (with_item (to_string i) it e' C)"
    "cblocks e' = cblocks (cengine C)" "nfree e' = nfree (cengine C)"
    using custom.get_one [OF files_atD(2) [OF ok] it, of "eos ev" b] by blast
  define C' where "C' = with_item (to_string i) it e' C"
  have inv: "cache_ok c C'" using g(2) by (simp add: cache_ok_def C'_def)
  have sz: "file_size hv C' d = file_size hv C d"
    using it by (auto simp: C'_def file_size_def fun_eq_iff)
  have "files_at c hv (file_size hv C d) C' d" "seen_at c hv (file_size hv C d) C' d = seen c hv C d"
    using files_at_item [OF ok inv [unfolded C'_def]] g(3) by (simp_all add: C'_def cblocks_cengine)
  then have "reread c hv i C d C'"
    using g(3,4) sz by (simp add: reread_def C'_def cblocks_cengine)
  then show ?thesis
    using g(1) m c unfolding C'_def cblocks_cengine by (auto simp: mounted_def)
qed


text \<open>The state of the handler when block \<open>b\<close> is next.\<close>

definition read_under_way ::
  "(engine, 'd) env \<Rightarrow> 'd view \<Rightarrow> read_ctx \<Rightarrow> int \<Rightarrow> int \<Rightarrow> read_loop \<Rightarrow> (engine, 'd) world \<Rightarrow> bool" where
  "read_under_way ev hv x i b l w \<longleftrightarrow>
     read_ready ev hv x i (file_size hv (FSCache w) (host_state w) i) (host_state w) \<and>
     files_ok (FSConfig ev) hv (FSCache w) (host_state w) \<and>
     fmlookup (contents (FSCache w)) (to_string i) \<noteq> None \<and>
     rc_offset x div IO_BLOCK_SIZE (FSConfig ev) \<le> b \<and>
     room_to_clear (IO_BLOCK_SIZE (FSConfig ev)) (file_size hv (FSCache w) (host_state w) i) (rc_offset x) (rc_size x) \<and>
     reading (IO_BLOCK_SIZE (FSConfig ev)) (seen (FSConfig ev) hv (FSCache w) (host_state w) i)
        (content hv (host_state w) i) (rc_offset x) (rc_size x) b l"

lemma read_under_wayD:
  assumes "read_under_way ev hv x i b l w"
  shows "read_ready ev hv x i (file_size hv (FSCache w) (host_state w) i) (host_state w)"
    "files_ok (FSConfig ev) hv (FSCache w) (host_state w)"
    "fmlookup (contents (FSCache w)) (to_string i) \<noteq> None"
    "rc_offset x div IO_BLOCK_SIZE (FSConfig ev) \<le> b"
    "room_to_clear (IO_BLOCK_SIZE (FSConfig ev)) (file_size hv (FSCache w) (host_state w) i) (rc_offset x) (rc_size x)"
    "reading (IO_BLOCK_SIZE (FSConfig ev)) (seen (FSConfig ev) hv (FSCache w) (host_state w) i)
        (content hv (host_state w) i) (rc_offset x) (rc_size x) b l"
  using assms unfolding read_under_way_def by blast+

text \<open>What is known of a block of the request in that state.\<close>

lemma read_block_facts:
  assumes m: "mounted ev hv" and u: "read_under_way ev hv x i b l w"
    and b: "b \<le> (rc_offset x + rc_size x - 1) div IO_BLOCK_SIZE (FSConfig ev)"
  defines "B \<equiv> IO_BLOCK_SIZE (FSConfig ev)" and "F \<equiv> file_size hv (FSCache w) (host_state w) i"
    and "V \<equiv> seen (FSConfig ev) hv (FSCache w) (host_state w) i"
  shows "0 < B" "B < 2147483648" "c_int b = b" "c_int B = B" "rc_inode x = to_string i" "0 \<le> rc_offset x"
    "rc_offset x < F" "rc_meta_size x = F" "0 < rc_size x" "rc_size x < 2147483648"
    "rc_offset x + rc_size x \<le> 9223372036854775808" "0 < rc_fd x" "fd_ino hv (host_state w) (rc_fd x) = Some i"
    "file_ok B F (blocks_of (FSCache w) (to_string i)) (content hv (host_state w) i)"
    "V = visible B F (blocks_of (FSCache w) (to_string i)) (content hv (host_state w) i)" "int (length V) = F"
    "cache_is_block_cached (eengine ev) (FSCache w) (to_string i) b \<longleftrightarrow> blocks_of (FSCache w) (to_string i) b \<noteq> None"
proof -
  note U = read_under_wayD [OF u]
  have sb: "single_block (FSConfig ev)" using m by (simp add: mounted_def)
  show B: "0 < B" "B < 2147483648" using single_blockD(3,4) [OF sb] by (simp_all add: B_def)
  show rr: "rc_inode x = to_string i" "0 \<le> rc_offset x" "rc_offset x < F" "rc_meta_size x = F" "0 < rc_size x"
    "rc_size x < 2147483648" "0 < rc_fd x" "fd_ino hv (host_state w) (rc_fd x) = Some i"
    using U(1) by (simp_all add: read_ready_def F_def)
  have fits: "rc_offset x + rc_size x \<le> 2147483648 * B" using U(1) by (simp add: read_ready_def B_def)
  have "2147483648 * B \<le> 2147483648 * 2147483648" using B by (intro mult_left_mono) simp_all
  then show bound: "rc_offset x + rc_size x \<le> 9223372036854775808" using fits by simp
  note W = block_walk [OF B(1) rr(2,5) bound U(4) [folded B_def] b [folded B_def]]
  have "b < 2147483648"
  proof (rule ccontr)
    assume "\<not> ?thesis"
    then have "2147483648 * B \<le> b * B" using B(1) by (intro mult_right_mono) simp_all
    then show False using W(8) fits by simp
  qed
  then show "c_int b = b" "c_int B = B" using W(7) B by (simp_all add: c_int_id)
  show fo: "file_ok B F (blocks_of (FSCache w) (to_string i)) (content hv (host_state w) i)"
    using files_atD(4) [OF U(2), of i] by (simp add: B_def F_def)
  show V: "V = visible B F (blocks_of (FSCache w) (to_string i)) (content hv (host_state w) i)"
    by (simp add: V_def seen_at_def B_def F_def)
  show "int (length V) = F" using file_okD(2) [OF fo] by (simp add: V)
  show "cache_is_block_cached (eengine ev) (FSCache w) (to_string i) b \<longleftrightarrow> blocks_of (FSCache w) (to_string i) b \<noteq> None"
    by (rule cached_iff [OF m U(2)])
qed

text \<open>Before a cached block is copied the postponed read is made up for.\<close>

lemma catch_up_ok:
  assumes rd: "reading B V (content hv d i) off n b l" and law: "pread_law (eos ev) hv"
    and fd: "fd_ino hv d fd = Some i" and n: "n < 2147483648" and off: "0 \<le> off"
    and at: "b * B < int (length V)" "off < int (length V)" "written_to B off n b = max off (b * B)"
  defines "it \<equiv> max off (b * B) - off"
  obtains l1 where "(if rl_last_pread_chunk_size l > 0
      then bnd (flush_pread ev fd l d) (\<lambda>l.
           Inr (l\<lparr>rl_last_pread_chunk_size := 0, rl_last_pread_chunk_offset := (b + 1) * B\<rparr>))
      else if go_on then Inr (l\<lparr>rl_last_pread_chunk_offset := (b + 1) * B\<rparr>) else Inr l) = Inr l1"
    "int (length (rl_buf l1)) = n" "int (length (rl_read_buffer l1)) = B" "rl_BUF_ITERATOR l1 = it"
    "rl_BYTES_LEFT l1 = n - it" "rl_last_pread_chunk_size l1 = 0"
    "go_on \<longrightarrow> rl_last_pread_chunk_offset l1 = (b + 1) * B"
    "take (nat it) (rl_buf l1) = take (nat it) (drop (nat off) V)"
proof -
  note D = readingD [OF rd]
  have it: "min (int (length V)) (written_to B off n b) - off = it" using at by (simp add: it_def)
  show thesis
  proof (cases "0 < rl_last_pread_chunk_size l")
    case True
    obtain buf' where f: "flush_pread ev fd l d =
        Inr (l\<lparr>rl_buf := buf', rl_BUF_ITERATOR := it, rl_BYTES_LEFT := n - it\<rparr>)"
      "int (length buf') = n" "take (nat it) buf' = take (nat it) (drop (nat off) V)" "0 \<le> it" "it \<le> n"
      by (rule flush_ok [OF rd law fd True n off, unfolded it])
    show thesis
      by (rule that [of "l\<lparr>rl_buf := buf', rl_BUF_ITERATOR := it, rl_BYTES_LEFT := n - it,
          rl_last_pread_chunk_size := 0, rl_last_pread_chunk_offset := (b + 1) * B\<rparr>"])
        (use True f D(2) in simp_all)
  next
    case False
    then have "rl_last_pread_chunk_size l = 0" using D(4) by simp
    moreover have "rl_BUF_ITERATOR l = it"
      using D(6,8) at calculation it by (simp add: min_def split: if_splits)
    ultimately show thesis
      using D(1,2,7,9)
      by (intro that [of "if go_on then l\<lparr>rl_last_pread_chunk_offset := (b + 1) * B\<rparr> else l"])
        (use False in \<open>simp_all split: if_splits\<close>)
  qed
qed

text \<open>When a block ends before its last byte and it is not the last one, the file ends in it.\<close>

lemma clearing_fits:
  assumes B: "0 < B" and room: "room_to_clear B F off n" and b: "b < (off + n - 1) div B" "b * B < F"
    and rt: "rt = min (min B (F - b * B) - 1) (min (off + n) (b * B + B) - 1 - b * B)" "rt < B - 1"
  shows "b * B + rt + 1 - off + B \<le> n"
proof -
  have "b * B + B \<le> (off + n - 1) div B * B" by (rule block_before [OF B b(1)])
  then have "min (off + n) (b * B + B) - 1 - b * B = B - 1"
    using block_bounds(1) [OF B, of "off + n - 1"] by simp
  then have rtF: "rt = F - b * B - 1" using rt by (simp add: min_def split: if_splits)
  have "(F - 1) div B = b" using rtF rt(2) b(2) B by (intro in_block(1)) simp_all
  then show ?thesis using room b(1) rtF by (simp add: room_to_clear_def)
qed

lemma cached_step:
  assumes m: "mounted ev hv" and u: "read_under_way ev hv x i b l w"
    and b: "b \<le> (rc_offset x + rc_size x - 1) div IO_BLOCK_SIZE (FSConfig ev)"
    and cb: "blocks_of (FSCache w) (to_string i) b = Some cb"
  shows "\<exists>l' C'. read_cached_block ev x b (l, w) = Inr (False, l', w\<lparr>FSCache := C'\<rparr>) \<and>
    reread (FSConfig ev) hv i (FSCache w) (host_state w) C' \<and>
    reading (IO_BLOCK_SIZE (FSConfig ev)) (seen (FSConfig ev) hv (FSCache w) (host_state w) i)
        (content hv (host_state w) i) (rc_offset x) (rc_size x) (b + 1) l'"
proof -
  define B where "B = IO_BLOCK_SIZE (FSConfig ev)"
  define V where "V = seen (FSConfig ev) hv (FSCache w) (host_state w) i"
  define F where "F = file_size hv (FSCache w) (host_state w) i"
  define off where "off = rc_offset x"
  define n where "n = rc_size x"
  define hi where "hi = (off + n - 1) div B"
  note U = read_under_wayD [OF u, folded B_def F_def V_def off_def n_def]
  note K = read_block_facts [OF m u b, folded B_def F_def V_def off_def n_def]
  define frm where "frm = max off (b * B) - b * B"
  define to where "to = min (off + n) (b * B + B) - 1 - b * B"
  note W = block_walk [OF K(1,6,9,11) U(4) b [folded off_def n_def B_def], folded frm_def to_def]
  have k: "b * B < F" "cb_readable cb = min B (F - b * B) - 1"
    using file_okD(3) [OF K(14), of b cb] cb by (simp_all add: cached_block_ok_def)
  have dl: "int (length (cb_data cb)) = B"
    using custom.stored [OF cache_invD(1) [OF files_atD(2) [OF U(2)]], of "to_string i" b cb] cb
    by (simp add: blocks_of_def B_def)
  define it where "it = b * B + frm - off"
  have it: "it = max off (b * B) - off" "0 \<le> it" "off + it = b * B + frm" by (simp_all add: it_def frm_def)
  have law: "pread_law (eos ev) hv" using m host_lawsD(3) by (auto simp: mounted_def)
  have wt: "written_to B off n b = max off (b * B)" using W(2) by (simp add: frm_def)
  obtain l1 where l1: "(if rl_last_pread_chunk_size l > 0
      then bnd (flush_pread ev (rc_fd x) l (host_state w)) (\<lambda>l.
           Inr (l\<lparr>rl_last_pread_chunk_size := 0, rl_last_pread_chunk_offset := (b + 1) * B\<rparr>))
      else if b < hi then Inr (l\<lparr>rl_last_pread_chunk_offset := (b + 1) * B\<rparr>) else Inr l) = Inr l1"
    "int (length (rl_buf l1)) = n" "int (length (rl_read_buffer l1)) = B" "rl_BUF_ITERATOR l1 = it"
    "rl_BYTES_LEFT l1 = n - it" "rl_last_pread_chunk_size l1 = 0"
    "b < hi \<longrightarrow> rl_last_pread_chunk_offset l1 = (b + 1) * B"
    "take (nat it) (rl_buf l1) = take (nat it) (drop (nat off) V)"
    by (rule catch_up_ok [where go_on = "b < hi", OF U(6) law K(13,10,6) _ _ wt, unfolded K(16), OF k(1) K(7), folded it(1)])
  define rt where "rt = min (cb_readable cb) to"
  define m' where "m' = rt - frm + 1"
  have frd: "frm \<le> cb_readable cb" using k K(7) W(4,5,6) by (simp add: frm_def)
  have fits: "it + m' \<le> n" using W(10) by (simp add: m'_def rt_def it_def)
  have clear: "it + m' + B \<le> n" if "min (cb_readable cb) to < B - 1" "\<not> \<not> b < hi"
    using clearing_fits [OF K(1) U(5) _ k(1), of rt] that k(2)
    by (simp add: hi_def rt_def to_def m'_def it_def)
  have bytes: "take (nat m') (drop (nat frm) (cb_data cb)) = take (nat m') (drop (nat (off + it)) V)"
    unfolding it(3) K(15)
    using cb frd W(5) by (intro cached_bytes [where cb = cb, OF K(1,14) _ dl W(4)]) (simp_all add: m'_def rt_def)
  obtain buf' where cp: "copy_cached_block B b frm to (cb_readable cb) (\<not> b < hi) (cb_data cb) l1 =
      Inr (l1\<lparr>rl_buf := buf', rl_BUF_ITERATOR := it + m', rl_BYTES_LEFT := rl_BYTES_LEFT l1 - m',
             rl_data_allocated := rl_data_allocated l1 + m', rl_read_buffer := cb_data cb\<rparr>)"
    "int (length buf') = n" "take (nat (it + m')) buf' = take (nat (it + m')) (drop (nat off) V)"
    by (rule copy_cached_ok [OF l1(2,3) _ _ _ K(6) dl m'_def [unfolded rt_def] W(4-6) frd K(2), unfolded l1(4),
          OF it(2) fits l1(8) bytes clear])
  define l2 where "l2 = l1\<lparr>rl_buf := buf', rl_BUF_ITERATOR := it + m', rl_BYTES_LEFT := rl_BYTES_LEFT l1 - m',
      rl_data_allocated := rl_data_allocated l1 + m', rl_read_buffer := cb_data cb\<rparr>"
  have new: "reading B V (content hv (host_state w) i) off n (b + 1) l2"
  proof -
    have "off + (it + m') = b * B + rt + 1" by (simp add: it_def m'_def)
    moreover have "min F (b * B + rt + 1) = min F (b * B + to + 1)" "b * B + rt + 1 \<le> F"
      using k(2) W(6) by (auto simp: rt_def min_def)
    moreover have "max off ((b + 1) * B) = (b + 1) * B" using W(9) by (simp add: distrib_right)
    moreover have "0 \<le> m'" using frd W(5) by (simp add: m'_def rt_def)
    ultimately show ?thesis
      using l1(4-7) cp(2,3) dl fits it(2) W(3) hi_def K(16) by (simp add: reading_def l2_def)
  qed
  obtain C' where g: "get_data_blocks (eengine ev) (FSConfig ev) (to_string i) {|b|} (FSCache w) =
      Inr (got_block b (Some cb), C')" "reread (FSConfig ev) hv i (FSCache w) (host_state w) C'"
    using get_block_ok [OF m refl U(2,3), of b] cb by auto
  have left: "0 < rl_BYTES_LEFT l1" using l1(5) W(10,5) by (simp add: it_def)
  have high: "blk_high_of B off n = hi" using blk_high_eq [OF K(1,6,9,11)] by (simp add: hi_def)
  have "read_cached_block ev x b (l, w) = Inr (False, l2, w\<lparr>FSCache := C'\<rparr>)"
    unfolding read_cached_block_def prod.case Let_def B_def [symmetric] off_def [symmetric]
      n_def [symmetric] K(3-5) high W(1) l1(1)
    using left g(1) cp(1) by (simp add: on_cache_def got_block_def l2_def)
  then show ?thesis using g(2) new unfolding B_def V_def off_def n_def by blast
qed

text \<open>The block after the end of a file that fills its last one, and a block of the file that is not cached.\<close>

lemma end_of_file_step:
  assumes m: "mounted ev hv" and u: "read_under_way ev hv x i b l w"
    and b: "b \<le> (rc_offset x + rc_size x - 1) div IO_BLOCK_SIZE (FSConfig ev)"
    and eof: "b * IO_BLOCK_SIZE (FSConfig ev) = file_size hv (FSCache w) (host_state w) i"
  shows "\<exists>l'. read_block ev x b (l, w) = Inr (False, l', w) \<and>
    reading (IO_BLOCK_SIZE (FSConfig ev)) (seen (FSConfig ev) hv (FSCache w) (host_state w) i)
        (content hv (host_state w) i) (rc_offset x) (rc_size x) (b + 1) l'"
proof -
  define B where "B = IO_BLOCK_SIZE (FSConfig ev)"
  define V where "V = seen (FSConfig ev) hv (FSCache w) (host_state w) i"
  define F where "F = file_size hv (FSCache w) (host_state w) i"
  note U = read_under_wayD [OF u, folded B_def F_def V_def]
  note K = read_block_facts [OF m u b, folded B_def F_def V_def]
  note W = block_walk [OF K(1,6,9,11) U(4) b [folded B_def]]
  have eof: "b * B = F" using eof by (simp add: B_def F_def)
  have none: "blocks_of (FSCache w) (to_string i) b = None"
    using file_okD(3) [OF K(14), of b] eof
    by (cases "blocks_of (FSCache w) (to_string i) b") (auto simp: cached_block_ok_def)
  define l1 where "l1 = snd (read_uncached_block ev x b l)"
  have run: "read_uncached_block ev x b l = (False, l1)"
    using W(1) K(12) by (simp add: l1_def read_uncached_block_def K(3,4) B_def [symmetric])
  have "l1 = l\<lparr>rl_data_allocated := rl_data_allocated l1\<rparr>"
    using W(1) K(8,12) eof by (simp add: l1_def read_uncached_block_def K(3,4) B_def [symmetric])
  moreover have "reading B V (content hv (host_state w) i) (rc_offset x) (rc_size x) (b + 1) l"
    using eof K(16) W(8) by (intro reading_skip [OF U(6) K(1)]) simp_all
  then have "reading B V (content hv (host_state w) i) (rc_offset x) (rc_size x) (b + 1) (l\<lparr>rl_data_allocated := a\<rparr>)" for a
    by (simp add: reading_def)
  ultimately have "reading B V (content hv (host_state w) i) (rc_offset x) (rc_size x) (b + 1) l1" by metis
  moreover have "read_block ev x b (l, w) = Inr (False, l1, w)"
    using eof none K(17) by (simp add: read_block_def K(3-5,8) B_def [symmetric] run)
  ultimately show ?thesis unfolding B_def V_def by blast
qed

lemma absent_step:
  assumes m: "mounted ev hv" and u: "read_under_way ev hv x i b l w"
    and b: "b \<le> (rc_offset x + rc_size x - 1) div IO_BLOCK_SIZE (FSConfig ev)"
    and absent: "b * IO_BLOCK_SIZE (FSConfig ev) < file_size hv (FSCache w) (host_state w) i"
      "blocks_of (FSCache w) (to_string i) b = None"
  shows "\<exists>l'. read_block ev x b (l, w) = Inr (False, l', w) \<and>
    reading (IO_BLOCK_SIZE (FSConfig ev)) (seen (FSConfig ev) hv (FSCache w) (host_state w) i)
        (content hv (host_state w) i) (rc_offset x) (rc_size x) (b + 1) l'"
proof -
  define B where "B = IO_BLOCK_SIZE (FSConfig ev)"
  define V where "V = seen (FSConfig ev) hv (FSCache w) (host_state w) i"
  define F where "F = file_size hv (FSCache w) (host_state w) i"
  note U = read_under_wayD [OF u, folded B_def F_def V_def]
  note K = read_block_facts [OF m u b, folded B_def F_def V_def]
  note bl = U(4) b [folded B_def]
  have absent: "b * B < F" "blocks_of (FSCache w) (to_string i) b = None" using absent by (simp_all add: B_def F_def)
  obtain frm to where range: "block_range B (rc_offset x) (rc_size x) b = (frm, to)" by fastforce
  define l1 where "l1 = l\<lparr>rl_data_allocated := rl_data_allocated l + (to - frm + 1),
      rl_last_pread_chunk_size := rl_last_pread_chunk_size l + (to - frm + 1)\<rparr>"
  have run: "read_uncached_block ev x b l = (False, l1)"
    using K(8,12) absent by (simp add: l1_def read_uncached_block_def K(3,4) B_def [symmetric] range)
  have "reading B V (content hv (host_state w) i) (rc_offset x) (rc_size x) (b + 1) l1"
    unfolding l1_def K(15)
    by (rule uncached_step [OF K(1,6,7,9,11) bl K(14) absent(2,1) U(6) [unfolded K(15)] range])
  moreover have "read_block ev x b (l, w) = Inr (False, l1, w)"
    using absent K(17) by (simp add: read_block_def K(3-5,8) B_def [symmetric] run)
  ultimately show ?thesis unfolding B_def V_def by blast
qed

lemma read_block_step:
  assumes m: "mounted ev hv" and u: "read_under_way ev hv x i b l w"
    and b: "b \<le> (rc_offset x + rc_size x - 1) div IO_BLOCK_SIZE (FSConfig ev)"
    and inside: "b * IO_BLOCK_SIZE (FSConfig ev) \<le> file_size hv (FSCache w) (host_state w) i"
  shows "\<exists>l' C'. read_block ev x b (l, w) = Inr (False, l', w\<lparr>FSCache := C'\<rparr>) \<and>
    reread (FSConfig ev) hv i (FSCache w) (host_state w) C' \<and>
    read_under_way ev hv x i (b + 1) l' (w\<lparr>FSCache := C'\<rparr>)"
proof -
  note U = read_under_wayD [OF u]
  note K = read_block_facts [OF m u b]
  have next_b: "rc_offset x div IO_BLOCK_SIZE (FSConfig ev) \<le> b + 1" using U(4) by simp
  have same: "w\<lparr>FSCache := FSCache w\<rparr> = w" by (cases w) simp
  have unchanged: ?thesis
    if "read_block ev x b (l, w) = Inr (False, l', w)"
      "reading (IO_BLOCK_SIZE (FSConfig ev)) (seen (FSConfig ev) hv (FSCache w) (host_state w) i)
        (content hv (host_state w) i) (rc_offset x) (rc_size x) (b + 1) l'" for l'
    using that U(1-3,5) next_b reread_refl [OF U(2,3)]
    by (intro exI [of _ l'] exI [of _ "FSCache w"]) (simp add: same read_under_way_def)
  consider (end_of_file) "b * IO_BLOCK_SIZE (FSConfig ev) = file_size hv (FSCache w) (host_state w) i"
    | (absent) "b * IO_BLOCK_SIZE (FSConfig ev) < file_size hv (FSCache w) (host_state w) i"
      "blocks_of (FSCache w) (to_string i) b = None"
    | (cached) cb where "b * IO_BLOCK_SIZE (FSConfig ev) < file_size hv (FSCache w) (host_state w) i"
      "blocks_of (FSCache w) (to_string i) b = Some cb"
    using inside by (cases "blocks_of (FSCache w) (to_string i) b"; fastforce)
  then show ?thesis
  proof cases
    case end_of_file
    then show ?thesis using end_of_file_step [OF m u b] unchanged by blast
  next
    case absent
    then show ?thesis using absent_step [OF m u b] unchanged by blast
  next
    case cached
    obtain l1 C1 where st: "read_cached_block ev x b (l, w) = Inr (False, l1, w\<lparr>FSCache := C1\<rparr>)"
      "reread (FSConfig ev) hv i (FSCache w) (host_state w) C1"
      "reading (IO_BLOCK_SIZE (FSConfig ev)) (seen (FSConfig ev) hv (FSCache w) (host_state w) i)
        (content hv (host_state w) i) (rc_offset x) (rc_size x) (b + 1) l1"
      using cached_step [OF m u b cached(2)] by blast
    have "read_block ev x b (l, w) = Inr (False, l1, w\<lparr>FSCache := C1\<rparr>)"
      using cached st(1) K(17) by (simp add: read_block_def K(3-5,8))
    moreover have "read_under_way ev hv x i (b + 1) l1 (w\<lparr>FSCache := C1\<rparr>)"
    proof -
      have ws: "FSCache (w\<lparr>FSCache := C1\<rparr>) = C1" "host_state (w\<lparr>FSCache := C1\<rparr>) = host_state w" by simp_all
      note y = st(2) [unfolded reread_def]
      have sz: "file_size hv C1 (host_state w) = file_size hv (FSCache w) (host_state w)"
        and seen: "seen (FSConfig ev) hv C1 (host_state w) = seen (FSConfig ev) hv (FSCache w) (host_state w)"
        using y by blast+
      show ?thesis
        unfolding read_under_way_def ws unfolding seen unfolding sz
        using y U(1,5) next_b st(3) unfolding sz by blast
    qed
    ultimately show ?thesis using st(2) by blast
  qed
qed

section \<open>All blocks of a request\<close>

lemma read_loop_ok:
  assumes m: "mounted ev hv" and u: "read_under_way ev hv x i b l w"
    and n: "b + int n = (rc_offset x + rc_size x - 1) div IO_BLOCK_SIZE (FSConfig ev) + 1"
  shows "\<exists>l' C'. loopE (read_block ev x) [b .. (rc_offset x + rc_size x - 1) div IO_BLOCK_SIZE (FSConfig ev)] (l, w) =
      Inr (l', w\<lparr>FSCache := C'\<rparr>) \<and>
    reread (FSConfig ev) hv i (FSCache w) (host_state w) C' \<and>
    reading (IO_BLOCK_SIZE (FSConfig ev)) (seen (FSConfig ev) hv (FSCache w) (host_state w) i)
        (content hv (host_state w) i) (rc_offset x) (rc_size x)
        ((rc_offset x + rc_size x - 1) div IO_BLOCK_SIZE (FSConfig ev) + 1) l'"
  using u n
proof (induction n arbitrary: b w l)
  case 0
  note U = read_under_wayD [OF 0(1)]
  have "[b .. (rc_offset x + rc_size x - 1) div IO_BLOCK_SIZE (FSConfig ev)] = []" using 0(2) by simp
  then show ?case
    using 0(2) U(6) reread_refl [OF U(2,3)] by (intro exI [of _ l] exI [of _ "FSCache w"]) simp
next
  case (Suc n)
  define hi where "hi = (rc_offset x + rc_size x - 1) div IO_BLOCK_SIZE (FSConfig ev)"
  have bh: "b \<le> hi" using Suc.prems(2) by (simp add: hi_def)
  have unroll: "[b .. hi] = b # [b + 1 .. hi]" using bh by (simp add: upto_rec1)
  note U = read_under_wayD [OF Suc.prems(1)]
  note K = read_block_facts [OF m Suc.prems(1) bh [unfolded hi_def]]
  show ?case
  proof (cases "b * IO_BLOCK_SIZE (FSConfig ev) \<le> file_size hv (FSCache w) (host_state w) i")
    case False
    have "reading (IO_BLOCK_SIZE (FSConfig ev)) (seen (FSConfig ev) hv (FSCache w) (host_state w) i)
        (content hv (host_state w) i) (rc_offset x) (rc_size x) (hi + 1) l"
      using False K(16) block_walk(8) [OF K(1,6,9,11) U(4) bh [unfolded hi_def]] bh
      by (intro reading_skip [OF U(6) K(1)]) simp_all
    moreover have "loopE (read_block ev x) [b .. hi] (l, w) = Inr (l, w)"
      using False unfolding unroll by (simp add: read_block_def K(3,4,8))
    ultimately show ?thesis
      using reread_refl [OF U(2,3)] by (intro exI [of _ l] exI [of _ "FSCache w"]) (simp add: hi_def)
  next
    case True
    obtain l1 C1 where st: "read_block ev x b (l, w) = Inr (False, l1, w\<lparr>FSCache := C1\<rparr>)"
      "reread (FSConfig ev) hv i (FSCache w) (host_state w) C1"
      "read_under_way ev hv x i (b + 1) l1 (w\<lparr>FSCache := C1\<rparr>)"
      using read_block_step [OF m Suc.prems(1) bh [unfolded hi_def] True] by blast
    have same: "seen (FSConfig ev) hv C1 (host_state w) = seen (FSConfig ev) hv (FSCache w) (host_state w)"
      using st(2) unfolding reread_def by blast
    have n1: "b + 1 + int n = hi + 1" using Suc.prems(2) by (simp add: hi_def)
    obtain l' C' where "loopE (read_block ev x) [b + 1 .. hi] (l1, w\<lparr>FSCache := C1\<rparr>) = Inr (l', w\<lparr>FSCache := C'\<rparr>)"
      "reread (FSConfig ev) hv i C1 (host_state w) C'"
      "reading (IO_BLOCK_SIZE (FSConfig ev)) (seen (FSConfig ev) hv (FSCache w) (host_state w) i)
        (content hv (host_state w) i) (rc_offset x) (rc_size x) (hi + 1) l'"
      using Suc.IH [OF st(3) n1 [unfolded hi_def], folded hi_def] by (auto simp: same)
    then show ?thesis
      using st(1) reread_trans [OF st(2)] unfolding hi_def [symmetric] unroll
      by (intro exI [of _ l'] exI [of _ C']) simp
  qed
qed

section \<open>The handler\<close>

lemma read_file_size_ok:
  assumes m: "mounted ev hv" and ok: "files_ok (FSConfig ev) hv (FSCache w) (host_state w)"
    and i: "fmlookup (contents (FSCache w)) (to_string i) \<noteq> None"
  shows "read_file_size ev path (to_string i) w = Inr (file_size hv (FSCache w) (host_state w) i, w)"
proof -
  obtain it where it: "fmlookup (contents (FSCache w)) (to_string i) = Some it" using i by auto
  note l = lock_round_known [OF files_atD(1) [OF ok] it]
  have "get_content_metadata (holding (to_string i) it (cengine (FSCache w)) (FSCache w)) (to_string i) =
      Some (imetadata it)" by (simp add: get_content_metadata_def)
  then show ?thesis
    using it l by (simp add: read_file_size_def has_content_cached_def file_size_def)
qed

lemma reading_start:
  assumes "0 \<le> offset" and "offset < int (length V)" and "0 < B" and "int (length buf) = sz" and "0 < sz"
  shows "reading B V disk offset sz (offset div B)
    \<lparr>rl_buf = buf, rl_BUF_ITERATOR = 0, rl_BYTES_LEFT = sz, rl_last_pread_chunk_size = 0,
     rl_last_pread_chunk_offset = offset, rl_data_allocated = 0, rl_read_buffer = replicate (nat B) 0\<rparr>"
proof -
  have "offset div B * B \<le> offset" by (rule block_bounds(1) [OF assms(3)])
  then show ?thesis using assms by (simp add: reading_def written_to_def)
qed

lemma reading_done:
  assumes rd: "reading B V (content hv d i) offset sz ((offset + sz - 1) div B + 1) l"
    and B: "0 < B" and law: "pread_law (eos ev) hv" and fd: "fd_ino hv d fd = Some i"
    and sz: "0 < sz" "sz < 2147483648" and off: "0 \<le> offset"
  obtains l' where
    "(if rl_last_pread_chunk_size l > 0 then flush_pread ev fd l d else Inr l) = Inr l'"
    "rl_BUF_ITERATOR l' = int (length (take (nat sz) (drop (nat offset) V)))"
    "int (length (rl_buf l')) = sz"
    "take (nat (rl_BUF_ITERATOR l')) (rl_buf l') = take (nat sz) (drop (nat offset) V)"
proof -
  define it where "it = min (int (length V)) (offset + sz) - offset"
  note D = readingD [OF rd]
  have "offset + sz - 1 < (offset + sz - 1) div B * B + B" by (rule block_bounds(2) [OF B])
  then have wt: "written_to B offset sz ((offset + sz - 1) div B + 1) = offset + sz"
    using sz by (simp add: written_to_def distrib_right)
  have it: "it = int (length (take (nat sz) (drop (nat offset) V)))"
    using D(3,6) off sz by (simp add: it_def)
  have tk: "take (nat it) (drop (nat offset) V) = take (nat sz) (drop (nat offset) V)"
    unfolding it by (simp add: min_def)
  show thesis
  proof (cases "0 < rl_last_pread_chunk_size l")
    case True
    obtain buf' where f: "flush_pread ev fd l d =
        Inr (l\<lparr>rl_buf := buf', rl_BUF_ITERATOR := it, rl_BYTES_LEFT := sz - it\<rparr>)"
      "int (length buf') = sz" "take (nat it) buf' = take (nat it) (drop (nat offset) V)" "0 \<le> it" "it \<le> sz"
      by (rule flush_ok [OF rd law fd True sz(2) off, unfolded wt, folded it_def])
    show thesis
      by (rule that [of "l\<lparr>rl_buf := buf', rl_BUF_ITERATOR := it, rl_BYTES_LEFT := sz - it\<rparr>"])
        (use True f tk it in simp_all)
  next
    case False
    then have "rl_last_pread_chunk_size l = 0" using D(4) by simp
    then have "rl_BUF_ITERATOR l = it" using D(6,8) by (simp add: wt it_def)
    then show thesis using that [of l] False D(1,9) it tk by simp
  qed
qed


text \<open>The part of the handler that reads, for a request that starts before the end of the file.\<close>

lemma read_part_ok:
  assumes m: "mounted ev hv" and cm: "calm ev path w" and ok: "files_ok (FSConfig ev) hv (FSCache w) (host_state w)"
    and i: "fmlookup (contents (FSCache w)) (to_string i) \<noteq> None"
    and fd: "fd_ino hv (host_state w) fd = Some i" "0 < fd"
    and buf: "buf \<noteq> []" "length buf < 2147483648" and off: "0 \<le> offset" "offset < file_size hv (FSCache w) (host_state w) i"
    and bound: "offset + int (length buf) \<le> 2147483648 * IO_BLOCK_SIZE (FSConfig ev)"
    and room: "room_to_clear (IO_BLOCK_SIZE (FSConfig ev)) (file_size hv (FSCache w) (host_state w) i) offset (int (length buf))"
  defines "B \<equiv> IO_BLOCK_SIZE (FSConfig ev)"
    and "bytes \<equiv> take (length buf) (drop (nat offset) (seen (FSConfig ev) hv (FSCache w) (host_state w) i))"
    and "x \<equiv> \<lparr>rc_inode = to_string i, rc_size = int (length buf), rc_offset = offset, rc_fd = fd,
      rc_meta_size = file_size hv (FSCache w) (host_state w) i\<rparr>"
    and "l \<equiv> \<lparr>rl_buf = buf, rl_BUF_ITERATOR = 0, rl_BYTES_LEFT = int (length buf), rl_last_pread_chunk_size = 0,
      rl_last_pread_chunk_offset = offset, rl_data_allocated = 0,
      rl_read_buffer = replicate (nat (IO_BLOCK_SIZE (FSConfig ev))) 0\<rparr>"
  obtains buf' C' where
    "bnd (loopE (read_block ev x) [offset div B .. (offset + int (length buf) - 1) div B] (l, w)) (\<lambda>(l, w).
       bnd (lift (if rl_last_pread_chunk_size l > 0 then flush_pread ev fd l (host_state w) else Inr l)) (\<lambda>l.
       let res = c_int (rl_BUF_ITERATOR l);
           res = (if res = - 1 then errno_of ev w else res)
       in bnd (triggers ev ''read'' ''after'' path '''' w) (\<lambda>(_, w). Inr ((res, rl_buf l), w)))) =
     Inr ((int (length bytes), buf'), w\<lparr>FSCache := C'\<rparr>)"
    "length buf' = length buf" "take (length bytes) buf' = bytes" "reread (FSConfig ev) hv i (FSCache w) (host_state w) C'"
proof -
  define n where "n = int (length buf)"
  define V where "V = seen (FSConfig ev) hv (FSCache w) (host_state w) i"
  have sb: "single_block (FSConfig ev)" using m by (simp add: mounted_def)
  have B: "0 < B" using single_blockD(3) [OF sb] by (simp add: B_def)
  have n: "0 < n" "n < 2147483648" using buf by (simp_all add: n_def)
  have bt: "bytes = take (nat n) (drop (nat offset) V)" by (simp add: bytes_def V_def n_def)
  have VF: "int (length V) = file_size hv (FSCache w) (host_state w) i" using file_size_seen [OF ok, of i] by (simp add: V_def)
  have x: "rc_offset x = offset" "rc_size x = n" by (simp_all add: x_def n_def)
  have "reading B V (content hv (host_state w) i) offset n (offset div B) l"
    unfolding l_def B_def [symmetric] n_def [symmetric] using off n B by (intro reading_start) (simp_all add: VF n_def)
  then have u: "read_under_way ev hv x i (offset div B) l w"
    using ok i room off fd n bound
    by (simp add: read_under_way_def read_ready_def x_def B_def [symmetric] V_def n_def)
  have "offset div B \<le> (offset + n - 1) div B" using n B by (intro zdiv_mono1) simp_all
  then have cover: "offset div B + int (nat ((offset + n - 1) div B - offset div B + 1)) = (offset + n - 1) div B + 1" by simp
  obtain l1 C' where run: "loopE (read_block ev x) [offset div B .. (offset + n - 1) div B] (l, w) = Inr (l1, w\<lparr>FSCache := C'\<rparr>)"
    "reread (FSConfig ev) hv i (FSCache w) (host_state w) C'"
    "reading B V (content hv (host_state w) i) offset n ((offset + n - 1) div B + 1) l1"
    using read_loop_ok [OF m u, unfolded x, folded B_def V_def, OF cover] by blast
  have law: "pread_law (eos ev) hv" using m host_lawsD(3) by (auto simp: mounted_def)
  obtain l2 where l2: "(if rl_last_pread_chunk_size l1 > 0 then flush_pread ev fd l1 (host_state w) else Inr l1) = Inr l2"
    "rl_BUF_ITERATOR l2 = int (length bytes)" "int (length (rl_buf l2)) = n"
    "take (nat (rl_BUF_ITERATOR l2)) (rl_buf l2) = bytes"
    by (rule reading_done [OF run(3) B law fd(1) n off(1), folded bt])
  have small: "int (length bytes) < 2147483648" using n by (simp add: bt)
  define w2 where "w2 = w\<lparr>FSCache := C'\<rparr>"
  have tr: "triggers ev ''read'' ''after'' path '''' w2 = Inr ((), w2)"
    using cm by (intro triggers_calm) (simp_all add: w2_def)
  have hs: "host_state w2 = host_state w" by (simp add: w2_def)
  show thesis
    by (rule that [of "rl_buf l2" C'])
      (use run(1,2) l2 [folded hs] small tr in \<open>simp_all add: w2_def [symmetric] n_def c_int_id split del: if_split\<close>)
qed

text \<open>
  A read of a mounted file returns exactly the bytes that are to be seen there, as many as the
  file has of those asked for, whatever part of them is cached.
\<close>

lemma lfs_read_ok:
  assumes m: "mounted ev hv" and c: "c = FSConfig ev" and cm: "calm ev path w"
    and ok: "files_ok c hv (FSCache w) (host_state w)"
    and p: "path_ino hv (host_state w) path = Some i"
    and f: "fd_ino hv (host_state w) (fh f) = Some i" "0 < fh f"
    and buf: "buf \<noteq> []" "length buf < 2147483648" and off: "0 \<le> offset"
    and bound: "offset + int (length buf) \<le> 2147483648 * IO_BLOCK_SIZE c"
    and room: "offset < file_size hv (FSCache w) (host_state w) i \<Longrightarrow>
      room_to_clear (IO_BLOCK_SIZE c) (file_size hv (FSCache w) (host_state w) i) offset (int (length buf))"
  defines "bytes \<equiv> take (length buf) (drop (nat offset) (seen c hv (FSCache w) (host_state w) i))"
  shows "\<exists>buf' C'. lfs_read ev path buf (int (length buf)) offset (Some f) w =
      Inr ((int (length bytes), buf'), w\<lparr>FSCache := C'\<rparr>) \<and>
    length buf' = length buf \<and> take (length bytes) buf' = bytes \<and>
    files_ok c hv C' (host_state w) \<and> seen c hv C' (host_state w) = seen c hv (FSCache w) (host_state w) \<and>
    cached C' = cached (FSCache w)"
proof -
  define w0 where "w0 = w\<lparr>shared_locks := Suc (shared_locks w)\<rparr>"
  define d where "d = host_state w"
  define B where "B = IO_BLOCK_SIZE c"
  define n where "n = int (length buf)"
  have w0: "FSCache w0 = FSCache w" "host_state w0 = d" by (simp_all add: w0_def d_def)
  obtain st C1 where g: "lfs_getattr ev path w0 = Inr ((0, st), w0\<lparr>FSCache := C1\<rparr>)"
    "files_ok c hv C1 d" "seen c hv C1 d = seen c hv (FSCache w) d"
    "file_size hv C1 d = file_size hv (FSCache w) d"
    "get_original_inode C1 path = to_string i" "fmlookup (contents C1) (to_string i) \<noteq> None"
    "cengine C1 = cengine (FSCache w)"
    using getattr_ok [OF m, of w0 path i] ok p unfolding c w0 d_def by blast
  define w1 where "w1 = w0\<lparr>FSCache := C1\<rparr>"
  have w1: "FSCache w1 = C1" "host_state w1 = d" by (simp_all add: w1_def w0)
  have cm1: "calm ev path w1" using cm by (simp add: w1_def w0_def)
  have sb: "single_block c" using m c by (simp add: mounted_def)
  have B: "0 < B" "B < 2147483648" using single_blockD(3,4) [OF sb] by (simp_all add: B_def)
  have ints: "c_int (IO_BLOCK_SIZE (FSConfig ev)) = B" using B by (simp add: c_int_id B_def c)
  have n: "0 < n" "n < 2147483648" using buf by (simp_all add: n_def)
  have "2147483648 * B \<le> 2147483648 * 2147483648" using B by (intro mult_left_mono) simp_all
  then have bd: "offset + n \<le> 9223372036854775808" using bound by (simp add: n_def B_def)
  define F where "F = file_size hv C1 d i"
  have F: "F = file_size hv (FSCache w) d i" by (simp add: F_def g(4))
  have fs: "read_file_size ev path (to_string i) w1 = Inr (F, w1)"
    using read_file_size_ok [OF m, of w1 i path] g(2,6) by (simp add: w1 c F_def)
  have open_part: "read_body ev path buf n offset (Some f) w0 =
     (if offset > F - 1 then Inr ((0, buf), w1)
      else
        (let x = \<lparr>rc_inode = to_string i, rc_size = n, rc_offset = offset, rc_fd = fh f, rc_meta_size = F\<rparr>;
             l = \<lparr>rl_buf = buf, rl_BUF_ITERATOR = 0, rl_BYTES_LEFT = n,
                  rl_last_pread_chunk_size = 0, rl_last_pread_chunk_offset = offset,
                  rl_data_allocated = 0, rl_read_buffer = replicate (nat B) 0\<rparr>
         in bnd (loopE (read_block ev x) [offset div B .. (offset + n - 1) div B] (l, w1)) (\<lambda>(l, w).
            bnd (lift (if rl_last_pread_chunk_size l > 0 then flush_pread ev (fh f) l (host_state w) else Inr l)) (\<lambda>l.
            let res = c_int (rl_BUF_ITERATOR l);
                res = (if res = - 1 then errno_of ev w else res)
            in bnd (triggers ev ''read'' ''after'' path '''' w) (\<lambda>(_, w). Inr ((res, rl_buf l), w))))))"
    (is "_ = (if _ then _ else ?blocks)")
    using f(2) B(1) g(1,5) fs n blk_high_eq [OF B(1) off n(1) bd] s64_id [of n]
    by (simp add: read_body_def ints w1_def Let_def require_def)
  have "\<exists>buf' C'. read_body ev path buf n offset (Some f) w0 =
      Inr ((int (length bytes), buf'), w0\<lparr>FSCache := C'\<rparr>) \<and>
    length buf' = length buf \<and> take (length bytes) buf' = bytes \<and>
    files_ok c hv C' d \<and> seen c hv C' d = seen c hv (FSCache w) d \<and> cached C' = cached (FSCache w)"
  proof (cases "offset < F")
    case False
    have "int (length (seen c hv (FSCache w) d i)) = F"
      using file_size_seen [OF g(2), of i] by (simp add: F_def g(3))
    then have "bytes = []" using False by (simp add: bytes_def d_def)
    then show ?thesis
      using False open_part g(2,3) cached_cengine [OF g(7)] by (intro exI [of _ buf] exI [of _ C1]) (simp add: w1_def)
  next
    case True
    have run: "read_body ev path buf n offset (Some f) w0 = ?blocks" using open_part True by simp
    obtain buf' C' where rp: "read_body ev path buf n offset (Some f) w0 = Inr ((int (length bytes), buf'), w1\<lparr>FSCache := C'\<rparr>)"
      "length buf' = length buf" "take (length bytes) buf' = bytes" "reread c hv i C1 d C'"
    proof (rule read_part_ok [OF m cm1 _ _ _ f(2) buf off, unfolded w1, folded c, where i = i])
      show "files_ok c hv C1 d" by (fact g(2))
      show "fmlookup (contents C1) (to_string i) \<noteq> None" by (fact g(6))
      show "fd_ino hv d (fh f) = Some i" using f(1) by (simp add: d_def)
      show "offset < file_size hv C1 d i" using True by (simp add: F_def)
      show "offset + int (length buf) \<le> 2147483648 * IO_BLOCK_SIZE c" by (fact bound)
      show "room_to_clear (IO_BLOCK_SIZE c) (file_size hv C1 d i) offset (int (length buf))"
        using room [folded d_def] True [unfolded F] unfolding g(4) by blast
    qed (rule that, subst run, simp_all only: Let_def F_def B_def n_def d_def bytes_def g(3) [unfolded d_def])
    have "w1\<lparr>FSCache := C'\<rparr> = w0\<lparr>FSCache := C'\<rparr>" by (simp add: w1_def)
    moreover have "files_ok c hv C' d" "seen c hv C' d = seen c hv (FSCache w) d"
      using rp(4) unfolding reread_def g(3) by blast+
    moreover have "cached C' = cached (FSCache w)"
      using rp(4) cached_cong [of C' C1] cached_cengine [OF g(7)] unfolding reread_def by simp
    ultimately show ?thesis using rp(1-3) by (intro exI [of _ buf'] exI [of _ C']) simp
  qed
  then obtain buf' C' where b: "read_body ev path buf n offset (Some f) w0 =
      Inr ((int (length bytes), buf'), w0\<lparr>FSCache := C'\<rparr>)"
    "length buf' = length buf" "take (length bytes) buf' = bytes"
    "files_ok c hv C' d" "seen c hv C' d = seen c hv (FSCache w) d" "cached C' = cached (FSCache w)" by blast
  have "w0\<lparr>FSCache := C'\<rparr> = w\<lparr>shared_locks := Suc (shared_locks w), FSCache := C', host_state := host_state w\<rparr>"
    by (simp add: w0_def)
  then have "with_shared_lock (read_body ev path buf n offset (Some f)) w =
      Inr ((int (length bytes), buf'), w\<lparr>FSCache := C', host_state := host_state w\<rparr>)"
    using b(1) unfolding w0_def by (intro with_shared_lock_ok) simp
  then have "lfs_read ev path buf n offset (Some f) w = Inr ((int (length bytes), buf'), w\<lparr>FSCache := C'\<rparr>)"
    by (simp add: lfs_read_def triggers_calm [OF cm])
  then show ?thesis using b(2-6) unfolding n_def d_def by blast
qed

end
