(* ===== verification/Fs_Names.thy ===== *)
theory Fs_Names
  imports Fs_Read
begin

text \<open>
  Files and their names: opening and creating a file, renaming it, adding and removing names, and
  the operations that leave files alone. For each the handler's result, what becomes of the
  invariant of the files, and what everyone sees of them afterwards.
\<close>


section \<open>Open files\<close>

text \<open>
  A file is open: the path and the descriptor refer to it. The sizes of requests are those the
  kernel module passes on: not empty, below 2 GiB, blocks numbered by an \<open>int\<close>.
\<close>

definition open_at :: "'d view \<Rightarrow> string \<Rightarrow> fuse_file_info \<Rightarrow> int \<Rightarrow> 'd \<Rightarrow> bool" where
  "open_at hv path f i d \<longleftrightarrow> path_ino hv d path = Some i \<and> fd_ino hv d (fh f) = Some i \<and> 0 < fh f \<and> \<not> direct_io f"

definition request_fits :: "config \<Rightarrow> int \<Rightarrow> byte list \<Rightarrow> bool" where
  "request_fits c offset buf \<longleftrightarrow> buf \<noteq> [] \<and> length buf < 2147483648 \<and> 0 \<le> offset \<and>
     offset + int (length buf) \<le> 2147483648 * IO_BLOCK_SIZE c"

section \<open>Operations no fault concerns\<close>

definition calm_between :: "('e, 'd) env \<Rightarrow> string \<Rightarrow> string \<Rightarrow> string \<Rightarrow> ('e, 'd) world \<Rightarrow> bool" where
  "calm_between ev op from to w \<longleftrightarrow> fmlookup (ffaults w) from = None \<and>
     (\<forall>m \<in> {crash_faults_before_map w, crash_faults_after_map w}. \<exists>l. fmlookup m op = Some l \<and>
        (\<forall>f \<in> set l. crash_fault_matches ev op from to f = Inr False))"

lemma calm_between_updates [simp]:
  "calm_between ev op from to (w\<lparr>FSCache := C\<rparr>) = calm_between ev op from to w"
  "calm_between ev op from to (w\<lparr>host_state := d\<rparr>) = calm_between ev op from to w"
  "calm_between ev op from to (w\<lparr>shared_locks := n\<rparr>) = calm_between ev op from to w"
  by (simp_all add: calm_between_def)

lemma triggers_calm_between:
  assumes "calm_between ev op from to w"
  shows "trigger_crash_fault ev op timing from to w = Inr ((), w)"
    and "trigger_configured_clear_fault ev op timing from to w = Inr ((), w)"
    and "triggers ev op timing from to w = Inr ((), w)"
proof -
  obtain l where l: "fmlookup (if timing = ''before'' then crash_faults_before_map w
      else crash_faults_after_map w) op = Some l"
    "\<forall>f \<in> set l. crash_fault_matches ev op from to f = Inr False"
    using assms unfolding calm_between_def by (cases "timing = ''before''") auto
  show crash: "trigger_crash_fault ev op timing from to w = Inr ((), w)"
    using no_crash_skip [OF l(2), of w] by (simp add: trigger_crash_fault_def fmat_Some [OF l(1)])
  show clear: "trigger_configured_clear_fault ev op timing from to w = Inr ((), w)"
    using assms by (simp add: trigger_configured_clear_fault_def calm_between_def)
  show "triggers ev op timing from to w = Inr ((), w)"
    by (simp add: triggers_def crash clear)
qed

lemma calm_between_single:
  "calm ev path w \<Longrightarrow> op \<in> set allow_crash_fs_operations \<Longrightarrow> calm_between ev op path '''' w"
  by (auto simp: calm_between_def calm_def no_crash_for_def)

section \<open>Losing a link\<close>

text \<open>The inodes whose item goes when a name of the identifier goes.\<close>

definition unlinked :: "'e cache \<Rightarrow> string \<Rightarrow> int set" where
  "unlinked C cid =
     {j. cid = to_string j \<and> (\<forall>it. fmlookup (contents C) cid = Some it \<longrightarrow> \<not> 1 < nlinks (imetadata it))}"

lemma drop_link_size [simp]: "meta_size (imetadata (drop_link m it)) = meta_size (imetadata it)"
  by (simp add: drop_link_def update_metadata_def update_field_def)

lemma link_dropped_files:
  assumes ok: "files_ok c hv C d" and ld: "link_dropped cblocks cid C C'" and inv: "cache_ok c C'"
    and names: "names_ok hv C' d'" and k: "content hv d' = content hv d" and B: "0 < IO_BLOCK_SIZE c"
  shows "files_ok c hv C' d'"
    and "seen c hv C' d' = (\<lambda>j. if j \<in> unlinked C cid then content hv d j else seen c hv C d j)"
proof -
  note inv0 = files_atD(2) [OF ok]
  have lost: "fmlookup (contents C') (to_string j) = None \<and> blocks_of C' (to_string j) = (\<lambda>_. None)"
    if "j \<in> unlinked C cid" for j
    using that ld by (cases "fmlookup (contents C) cid") (auto simp: unlinked_def link_dropped_def blocks_of_def)
  have kept: "file_size hv C' d' j = file_size hv C d j \<and> blocks_of C' (to_string j) = blocks_of C (to_string j)"
    if "j \<notin> unlinked C cid" for j
  proof (cases "cid = to_string j")
    case True
    then have "\<exists>it. fmlookup (contents C) cid = Some it \<and> 1 < nlinks (imetadata it)"
      using that by (simp add: unlinked_def)
    then obtain it where it: "fmlookup (contents C) cid = Some it" "1 < nlinks (imetadata it)" by blast
    then have "fmlookup (contents C') cid = Some (drop_link (imetadata it) it)" using ld by (simp add: link_dropped_def)
    then show ?thesis using ld it True by (auto simp: file_size_def link_dropped_def blocks_of_def)
  next
    case False
    then have same: "fmlookup (contents C') (to_string j) = fmlookup (contents C) (to_string j)"
      using ld by (auto simp: link_dropped_def)
    have "blocks_of C (to_string j) = (\<lambda>_. None)" if "fmlookup (contents C) (to_string j) = None"
      using unknown_blocks [OF inv0 that] by (simp add: blocks_of_def)
    then show ?thesis using ld same by (auto simp: file_size_def link_dropped_def blocks_of_def k)
  qed
  have one: "file_ok (IO_BLOCK_SIZE c) (file_size hv C' d' j) (blocks_of C' (to_string j)) (content hv d' j)" for j
  proof (cases "j \<in> unlinked C cid")
    case True
    then show ?thesis using lost [OF True] file_ok_uncached(1) [OF B] by (simp add: file_size_def k)
  next
    case False
    then show ?thesis using kept [OF False] files_atD(4) [OF ok, of j] by (simp add: k)
  qed
  show "files_ok c hv C' d'" using inv names one by (simp add: files_at_def)
  show "seen c hv C' d' = (\<lambda>j. if j \<in> unlinked C cid then content hv d j else seen c hv C d j)"
  proof
    fix j
    show "seen c hv C' d' j = (if j \<in> unlinked C cid then content hv d j else seen c hv C d j)"
      using lost [of j] kept [of j] file_ok_uncached(2) by (auto simp: seen_at_def k file_size_def)
  qed
qed

lemma link_dropped_cached:
  assumes "link_dropped cblocks cid C C'"
  shows "cached C' \<subseteq> cached C"
proof -
  have "blocks_of C' x = (if fmlookup (contents C') x = None then (\<lambda>_. None) else blocks_of C x)" for x
    using assms by (simp add: link_dropped_def blocks_of_def)
  then show ?thesis by (auto simp: cached_def split: if_splits)
qed

section \<open>Renaming\<close>

lemma rename_item_files:
  assumes ok: "files_ok c hv C d" and B: "0 < IO_BLOCK_SIZE c"
    and old: "path_ino hv d from = Some i" "fmlookup (file_inode_mapping C) from \<noteq> None"
    and d': "path_ino hv d' = (path_ino hv d)(to := Some i, from := None)" "content hv d' = content hv d"
  obtains C' where "rename_item (custom_cache_engine h c) from to C = Inr (True, C')" "files_ok c hv C' d'"
    "seen c hv C' d' = (\<lambda>j. if j \<in> unlinked C (displaced to (file_inode_mapping C)) then content hv d j
       else seen c hv C d j)"
    "file_inode_mapping C' = fmupd to (to_string i) (fmdrop from (file_inode_mapping C))"
proof -
  have name: "fmlookup (file_inode_mapping C) from = Some (to_string i)"
    using old files_atD(3) [OF ok] by (auto simp: names_ok_def)
  obtain C' where C': "rename_item (custom_cache_engine h c) from to C = Inr (True, C')" "cache_ok c C'"
    "file_inode_mapping C' = fmupd to (to_string i) (fmdrop from (file_inode_mapping C))"
    "link_dropped cblocks (displaced to (file_inode_mapping C)) C C'"
    using custom.rename_item_ok [OF files_atD(2) [OF ok], of h "from" "to"] name
    by (auto simp: cache_ok_def renamed_paths_def)
  have nm: "names_ok hv C' d'"
    using files_atD(3) [OF ok] by (auto simp: names_ok_def C'(3) d'(1))
  show thesis using that [OF C'(1) link_dropped_files [OF ok C'(4,2) nm d'(2) B] C'(3)] .
qed

lemma lfs_rename_ok:
  assumes m: "mounted ev hv" and c: "c = FSConfig ev" and cm: "calm_between ev ''rename'' from to w"
    and ok: "files_ok c hv (FSCache w) (host_state w)"
    and p: "path_ino hv (host_state w) from = Some i" "path_ino hv (host_state w) to \<noteq> Some i"
    and known: "fmlookup (file_inode_mapping (FSCache w)) from \<noteq> None"
    and res: "fst (os_rename (eos ev) from to (host_state w)) \<noteq> - 1"
  shows "\<exists>C' d'. lfs_rename ev from to 0 w = Inr (0, w\<lparr>FSCache := C', host_state := d'\<rparr>) \<and> files_ok c hv C' d' \<and>
    path_ino hv d' = (path_ino hv (host_state w))(to := Some i, from := None) \<and>
    fd_ino hv d' = fd_ino hv (host_state w) \<and> content hv d' = content hv (host_state w) \<and>
    file_inode_mapping C' = fmupd to (to_string i) (fmdrop from (file_inode_mapping (FSCache w))) \<and>
    seen c hv C' d' =
      (\<lambda>j. if j \<in> unlinked (FSCache w) (displaced to (file_inode_mapping (FSCache w)))
           then content hv (host_state w) j else seen c hv (FSCache w) (host_state w) j)"
proof -
  have e: "eengine ev = custom_cache_engine (eos ev) c" and law: "rename_law (eos ev) hv" and sb: "single_block c"
    using m host_lawsD(9) [of "eos ev" hv] by (simp_all add: mounted_def c)
  have B: "0 < IO_BLOCK_SIZE c" using single_blockD(3) [OF sb] .
  obtain r d' where os: "os_rename (eos ev) from to (host_state w) = (r, d')" by fastforce
  then have d': "path_ino hv d' = (path_ino hv (host_state w))(to := Some i, from := None)"
    "fd_ino hv d' = fd_ino hv (host_state w)" "content hv d' = content hv (host_state w)" and r: "r \<noteq> - 1"
    using law [unfolded rename_law_def, rule_format, OF p os] res by (simp_all add: os)
  obtain C' where C': "rename_item (custom_cache_engine (eos ev) c) from to (FSCache w) = Inr (True, C')"
    "files_ok c hv C' d'" "seen c hv C' d' =
      (\<lambda>j. if j \<in> unlinked (FSCache w) (displaced to (file_inode_mapping (FSCache w)))
           then content hv (host_state w) j else seen c hv (FSCache w) (host_state w) j)"
    "file_inode_mapping C' = fmupd to (to_string i) (fmdrop from (file_inode_mapping (FSCache w)))"
    by (rule rename_item_files [OF ok B p(1) known d'(1,3)])
  have "fmlookup (file_inode_mapping (FSCache w)) from = Some (to_string i)"
    using known p(1) files_atD(3) [OF ok] by (auto simp: names_ok_def)
  then have mapped: "get_original_inode (FSCache w) from \<noteq> []" by (simp add: get_original_inode_def to_string_def)
  define w1 where "w1 = w\<lparr>shared_locks := Suc (shared_locks w)\<rparr>"
  define w2 where "w2 = w1\<lparr>FSCache := C', host_state := d'\<rparr>"
  have w1: "FSCache w1 = FSCache w" "host_state w1 = host_state w" by (simp_all add: w1_def)
  have after: "triggers ev ''rename'' ''after'' from to w2 = Inr ((), w2)"
    by (rule triggers_calm_between(3)) (use cm in \<open>simp add: w2_def w1_def\<close>)
  have body: "rename_body ev from to 0 w1 = Inr (0, w2)"
    using mapped r after
    by (simp add: rename_body_def on_cache_def e C'(1) syscall_def os w1 w2_def [symmetric])
  have "lfs_rename ev from to 0 w = Inr (0, w\<lparr>FSCache := C', host_state := d'\<rparr>)"
    using triggers_calm_between(3) [OF cm] body
    by (simp add: lfs_rename_def with_shared_lock_def w1_def [symmetric]) (simp add: w2_def w1_def)
  then show ?thesis using C'(2,3,4) d' by blast
qed

section \<open>Removing a name\<close>

lemma lfs_unlink_ok:
  assumes m: "mounted ev hv" and c: "c = FSConfig ev" and cm: "calm ev path w"
    and ok: "files_ok c hv (FSCache w) (host_state w)"
    and p: "path_ino hv (host_state w) path = Some i"
    and known: "fmlookup (file_inode_mapping (FSCache w)) path \<noteq> None"
    and res: "fst (os_unlink (eos ev) path (host_state w)) \<noteq> - 1"
  shows "\<exists>C' d'. lfs_unlink ev path w = Inr (0, w\<lparr>FSCache := C', host_state := d'\<rparr>) \<and> files_ok c hv C' d' \<and>
    path_ino hv d' = (path_ino hv (host_state w))(path := None) \<and>
    fd_ino hv d' = fd_ino hv (host_state w) \<and> content hv d' = content hv (host_state w) \<and>
    seen c hv C' d' = (\<lambda>j. if j \<in> unlinked (FSCache w) (to_string i)
           then content hv (host_state w) j else seen c hv (FSCache w) (host_state w) j) \<and>
    cached C' \<subseteq> cached (FSCache w)"
proof -
  define C where "C = FSCache w"
  have e: "eengine ev = custom_cache_engine (eos ev) c" and law: "unlink_law (eos ev) hv" and sb: "single_block c"
    using m host_lawsD(11) [of "eos ev" hv] by (simp_all add: mounted_def c)
  have B: "0 < IO_BLOCK_SIZE c" using single_blockD(3) [OF sb] .
  obtain r d' where os: "os_unlink (eos ev) path (host_state w) = (r, d')" by fastforce
  then have d': "path_ino hv d' = (path_ino hv (host_state w))(path := None)"
    "fd_ino hv d' = fd_ino hv (host_state w)" "content hv d' = content hv (host_state w)" and r: "r \<noteq> - 1"
    using law [unfolded unlink_law_def, rule_format, OF p os] res by (simp_all add: os)
  have "fmlookup (file_inode_mapping C) path = Some (to_string i)"
    using known p files_atD(3) [OF ok] by (auto simp: names_ok_def C_def)
  then have ino: "get_original_inode C path = to_string i" by (simp add: get_original_inode_def)
  have not_nil: "to_string i \<noteq> []" by (simp add: to_string_def)
  obtain b C' where C': "remove_cached_item (custom_cache_engine (eos ev) c) (to_string i) path False C = Inr (b, C')"
    "cache_ok c C'" "link_dropped cblocks (to_string i) C C'"
    "file_inode_mapping C' = file_inode_mapping C \<or> file_inode_mapping C' = fmdrop path (file_inode_mapping C)"
  proof (cases "fmlookup (contents C) (to_string i)")
    case None
    then show thesis
      using that [of False C] files_atD(1) [OF ok] link_dropped_unknown [OF files_atD(2) [OF ok]]
      by (simp add: remove_cached_item_def get_content_ptr_def C_def)
  next
    case (Some it)
    show thesis
      using custom.remove_link_ok [OF files_atD(2) [OF ok] Some [unfolded C_def], of "eos ev" path] that
      by (auto simp: C_def cache_ok_def)
  qed
  have "names_ok hv C' d'"
    using files_atD(3) [OF ok] C'(4) by (auto simp: names_ok_def C_def d'(1))
  note files = link_dropped_files [OF ok [folded C_def] C'(3,2) this d'(3) B]
  define w1 where "w1 = w\<lparr>shared_locks := Suc (shared_locks w)\<rparr>"
  define w2 where "w2 = w1\<lparr>FSCache := C', host_state := d'\<rparr>"
  have w1: "FSCache w1 = C" "host_state w1 = host_state w" by (simp_all add: w1_def C_def)
  have cm2: "calm_between ev ''unlink'' path '''' w2"
    by (rule calm_between_single) (use cm in \<open>simp_all add: w2_def w1_def allow_crash_fs_operations_def\<close>)
  have "trigger_crash_fault ev ''unlink'' ''after'' path '''' w2 = Inr ((), w2)"
    "trigger_configured_clear_fault ev ''unlink'' ''before'' path '''' w2 = Inr ((), w2)"
    using triggers_calm_between(1,2) [OF cm2] by simp_all
  then have body: "unlink_body ev path w1 = Inr (0, w2)"
    using r not_nil
    by (simp add: unlink_body_def ino on_cache_def e C'(1) syscall_def os w1 w2_def [symmetric])
  have "triggers ev ''unlink'' ''before'' path '''' w = Inr ((), w)"
    by (rule triggers_calm [OF cm]) (simp add: allow_crash_fs_operations_def)
  with body have "lfs_unlink ev path w = Inr (0, w\<lparr>FSCache := C', host_state := d'\<rparr>)"
    by (simp add: lfs_unlink_def with_shared_lock_def w1_def [symmetric]) (simp add: w2_def w1_def)
  then show ?thesis using files d' link_dropped_cached [OF C'(3)] unfolding C_def by blast
qed

section \<open>Adding a name\<close>

lemma metadata_files:
  assumes ok: "files_ok c hv C d" and it: "fmlookup (contents C) (to_string i) = Some it"
    and same: "idata it' = idata it" "meta_size (imetadata it') = meta_size (imetadata it)"
  shows "files_ok c hv (with_item (to_string i) it' (cengine C) C) d"
    and "seen c hv (with_item (to_string i) it' (cengine C) C) d = seen c hv C d"
proof -
  have inv: "cache_ok c (with_item (to_string i) it' (cengine C) C)"
    using with_metadata_inv [OF files_atD(2) [OF ok] it same(1)] by (simp add: cache_ok_def)
  have sz: "file_size hv (with_item (to_string i) it' (cengine C) C) d = file_size hv C d"
    using it same(2) by (auto simp: file_size_def fun_eq_iff)
  show "files_ok c hv (with_item (to_string i) it' (cengine C) C) d"
    "seen c hv (with_item (to_string i) it' (cengine C) C) d = seen c hv C d"
    using files_at_item [OF ok inv cblocks_cengine] by (simp_all add: sz)
qed

lemma other_names_files:
  assumes ok: "files_ok c hv C d" and nm: "names_ok hv (C\<lparr>file_inode_mapping := m\<rparr>) d'" and k: "content hv d' = content hv d"
  shows "files_ok c hv (C\<lparr>file_inode_mapping := m\<rparr>) d'"
    and "seen c hv (C\<lparr>file_inode_mapping := m\<rparr>) d' = seen c hv C d"
proof -
  have sz: "file_size hv (C\<lparr>file_inode_mapping := m\<rparr>) d' = file_size hv C d"
    by (rule ext) (simp add: file_size_def k split: option.split)
  show "files_ok c hv (C\<lparr>file_inode_mapping := m\<rparr>) d'"
    using ok nm by (simp add: files_at_def cache_ok_def sz k blocks_of_def)
  show "seen c hv (C\<lparr>file_inode_mapping := m\<rparr>) d' = seen c hv C d"
    by (simp add: fun_eq_iff seen_at_def sz k blocks_of_def)
qed

lemma insert_name_files:
  assumes ok: "files_ok c hv C d" and old: "path_ino hv d from = Some i" "path_ino hv d' = (path_ino hv d)(to := Some i)"
    and k: "content hv d' = content hv d"
  shows "files_ok c hv (insert_inode_mapping to (to_string i) True C) d'"
    and "seen c hv (insert_inode_mapping to (to_string i) True C) d' = seen c hv C d"
    and "file_inode_mapping (insert_inode_mapping to (to_string i) True C) = fmupd to (to_string i) (file_inode_mapping C)"
proof -
  define C1 where "C1 = C\<lparr>file_inode_mapping := fmupd to (to_string i) (file_inode_mapping C)\<rparr>"
  have nm: "names_ok hv C1 d'" using files_atD(3) [OF ok] by (auto simp: names_ok_def C1_def old)
  note one = other_names_files [OF ok nm [unfolded C1_def] k, folded C1_def]
  have "files_ok c hv (insert_inode_mapping to (to_string i) True C) d' \<and>
    seen c hv (insert_inode_mapping to (to_string i) True C) d' = seen c hv C d \<and>
    file_inode_mapping (insert_inode_mapping to (to_string i) True C) = fmupd to (to_string i) (file_inode_mapping C)"
  proof (cases "fmlookup (contents C1) (to_string i)")
    case None
    then have "insert_inode_mapping to (to_string i) True C = C1"
      by (simp add: insert_inode_mapping_def get_content_metadata_def get_content_ptr_def C1_def)
    then show ?thesis using one by (simp add: C1_def)
  next
    case (Some it)
    define it' where "it' = update_metadata (Metadata\<lparr>nlinks := nlinks (imetadata it) + 1\<rparr>) [''nlinks''] it"
    have free: "locks_free C1" using cache_invD(2) [OF files_atD(2) [OF one(1)]] .
    then have l: "fmlookup (item_locks C1) (to_string i) = Some False" using Some by (simp add: locks_free_def)
    have "insert_inode_mapping to (to_string i) True C = with_item (to_string i) it' (cengine C1) C1"
      using Some l
      by (simp add: insert_inode_mapping_def get_content_metadata_def get_content_ptr_def C1_def [symmetric]
          update_content_metadata_def update_item_def with_item_def fmupd_same it'_def)
    moreover have "meta_size (imetadata it') = meta_size (imetadata it)" "idata it' = idata it"
      by (simp_all add: it'_def update_metadata_def update_field_def)
    ultimately show ?thesis using metadata_files [OF one(1) Some, of it'] one(2) by (simp add: C1_def)
  qed
  then show "files_ok c hv (insert_inode_mapping to (to_string i) True C) d'"
    "seen c hv (insert_inode_mapping to (to_string i) True C) d' = seen c hv C d"
    "file_inode_mapping (insert_inode_mapping to (to_string i) True C) = fmupd to (to_string i) (file_inode_mapping C)"
    by simp_all
qed

lemma lfs_link_ok:
  assumes m: "mounted ev hv" and c: "c = FSConfig ev" and cm: "calm_between ev ''link'' from to w"
    and ok: "files_ok c hv (FSCache w) (host_state w)"
    and p: "path_ino hv (host_state w) from = Some i"
    and known: "fmlookup (file_inode_mapping (FSCache w)) from \<noteq> None"
    and res: "fst (os_link (eos ev) from to (host_state w)) \<noteq> - 1"
  shows "\<exists>C' d'. lfs_link ev from to w = Inr (0, w\<lparr>FSCache := C', host_state := d'\<rparr>) \<and> files_ok c hv C' d' \<and>
    path_ino hv d' = (path_ino hv (host_state w))(to := Some i) \<and>
    fd_ino hv d' = fd_ino hv (host_state w) \<and> content hv d' = content hv (host_state w) \<and>
    seen c hv C' d' = seen c hv (FSCache w) (host_state w)"
proof -
  obtain r d' where os: "os_link (eos ev) from to (host_state w) = (r, d')" by fastforce
  then have d': "path_ino hv d' = (path_ino hv (host_state w))(to := Some i)"
    "fd_ino hv d' = fd_ino hv (host_state w)" "content hv d' = content hv (host_state w)" and r: "r \<noteq> - 1"
    using host_lawsD(10) [of "eos ev" hv, unfolded link_law_def, rule_format, OF _ p os] res m
    by (simp_all add: os mounted_def)
  have "fmlookup (file_inode_mapping (FSCache w)) from = Some (to_string i)"
    using known p files_atD(3) [OF ok] by (auto simp: names_ok_def)
  then have ino: "get_original_inode (FSCache w) from = to_string i" by (simp add: get_original_inode_def)
  have not_nil: "to_string i \<noteq> []" by (simp add: to_string_def)
  define C' where "C' = insert_inode_mapping to (to_string i) True (FSCache w)"
  define w1 where "w1 = w\<lparr>shared_locks := Suc (shared_locks w)\<rparr>"
  define w2 where "w2 = w1\<lparr>FSCache := C', host_state := d'\<rparr>"
  have w1: "FSCache w1 = FSCache w" "host_state w1 = host_state w" by (simp_all add: w1_def)
  have w2: "w1\<lparr>host_state := d', FSCache := C'\<rparr> = w2" by (simp add: w2_def)
  have "triggers ev ''link'' ''after'' from to w2 = Inr ((), w2)"
    by (rule triggers_calm_between(3)) (use cm in \<open>simp add: w2_def w1_def\<close>)
  then have body: "link_body ev from to w1 = Inr (0, w2)"
    using r not_nil by (simp add: link_body_def syscall_def os w1 ino C'_def [symmetric] w2)
  have run: "lfs_link ev from to w = Inr (0, w\<lparr>FSCache := C', host_state := d'\<rparr>)"
    using triggers_calm_between(3) [OF cm] body
    by (simp add: lfs_link_def with_shared_lock_def w1_def [symmetric]) (simp add: w2_def w1_def)
  show ?thesis
    using run d' insert_name_files(1,2) [OF ok p d'(1,3)] by (auto simp: C'_def)
qed

section \<open>Opening and creating\<close>

text \<open>What opening a file has done when it reaches the faults that strike after it.\<close>

lemma open_body_ok:
  assumes m: "mounted ev hv" and c: "c = FSConfig ev"
    and ok: "files_ok c hv (FSCache w) (host_state w)"
    and p: "path_ino hv (host_state w) path = Some i"
    and fl: "fi_flags fi \<in> {O_RDONLY, O_WRONLY, O_RDWR}"
  shows "\<exists>fd C' d'. open_body ev path fi w =
      bnd (triggers ev ''open'' ''after'' path '''' (w\<lparr>FSCache := C', host_state := d'\<rparr>)) (\<lambda>(_, w).
        Inr ((0, fi\<lparr>fh := fd\<rparr>), w)) \<and>
    0 \<le> fd \<and> fd_ino hv (host_state w) fd = None \<and> fd_ino hv d' = (fd_ino hv (host_state w))(fd := Some i) \<and>
    path_ino hv d' = path_ino hv (host_state w) \<and> content hv d' = content hv (host_state w) \<and>
    files_ok c hv C' d' \<and> seen c hv C' d' = seen c hv (FSCache w) (host_state w) \<and> cached C' = cached (FSCache w)"
proof -
  have fl3: "fi_flags fi = O_RDONLY \<or> fi_flags fi = O_WRONLY \<or> fi_flags fi = O_RDWR \<or> fi_flags fi = O_CREAT + O_WRONLY"
    using fl by blast
  obtain fd d' where o: "os_open (eos ev) path (fi_flags fi) 0 (host_state w) = (fd, d')" "0 \<le> fd"
    "fd_ino hv (host_state w) fd = None" "fd_ino hv d' = (fd_ino hv (host_state w))(fd := Some i)" "content hv d' = content hv (host_state w)"
    "path_ino hv d' = path_ino hv (host_state w)"
    by (rule openD [OF host_lawsD(1) p fl3]) (use m in \<open>auto simp: mounted_def\<close>)
  have tr: "\<not> has_flag (fi_flags fi) O_TRUNC"
    using fl by (auto simp: has_flag_def O_TRUNC_def O_RDONLY_def O_WRONLY_def O_RDWR_def)
  define w1 where "w1 = w\<lparr>host_state := d'\<rparr>"
  have w1: "FSCache w1 = FSCache w" "host_state w1 = d'" by (simp_all add: w1_def)
  have same: "files_ok c hv (FSCache w) d'" "seen c hv (FSCache w) d' = seen c hv (FSCache w) (host_state w)"
    using files_ok_host [OF o(5,6), of c] ok by simp_all
  have p1: "path_ino hv (host_state w1) path = Some i" using p by (simp add: w1 o(6))
  obtain st C' where g: "lfs_getattr ev path w1 = Inr ((0, st), w1\<lparr>FSCache := C'\<rparr>)" "files_ok c hv C' d'"
    "seen c hv C' d' = seen c hv (FSCache w) d'" "cengine C' = cengine (FSCache w)"
    using getattr_ok [OF m _ p1] same(1) unfolding w1 c by blast
  have "w1\<lparr>FSCache := C'\<rparr> = w\<lparr>FSCache := C', host_state := d'\<rparr>" by (simp add: w1_def)
  then have "open_body ev path fi w =
      bnd (triggers ev ''open'' ''after'' path '''' (w\<lparr>FSCache := C', host_state := d'\<rparr>)) (\<lambda>(_, w).
        Inr ((0, fi\<lparr>fh := fd\<rparr>), w))"
    using o(1,2) tr g(1) by (simp add: open_body_def syscall_def w1_def [symmetric])
  then show ?thesis using o(2-6) g(2,3) same(2) cached_cengine [OF g(4)] by auto
qed

lemma lfs_open_ok:
  assumes m: "mounted ev hv" and c: "c = FSConfig ev" and cm: "calm ev path w"
    and ok: "files_ok c hv (FSCache w) (host_state w)"
    and p: "path_ino hv (host_state w) path = Some i"
    and fl: "fi_flags fi \<in> {O_RDONLY, O_WRONLY, O_RDWR}"
  shows "\<exists>fd C' d'. lfs_open ev path fi w = Inr ((0, fi\<lparr>fh := fd\<rparr>), w\<lparr>FSCache := C', host_state := d'\<rparr>) \<and>
    0 \<le> fd \<and> fd_ino hv (host_state w) fd = None \<and> fd_ino hv d' = (fd_ino hv (host_state w))(fd := Some i) \<and>
    path_ino hv d' = path_ino hv (host_state w) \<and> content hv d' = content hv (host_state w) \<and>
    files_ok c hv C' d' \<and> seen c hv C' d' = seen c hv (FSCache w) (host_state w) \<and> cached C' = cached (FSCache w)"
proof -
  define w0 where "w0 = w\<lparr>shared_locks := Suc (shared_locks w)\<rparr>"
  have w0: "FSCache w0 = FSCache w" "host_state w0 = host_state w" by (simp_all add: w0_def)
  obtain fd C' d' where b: "open_body ev path fi w0 =
      bnd (triggers ev ''open'' ''after'' path '''' (w0\<lparr>FSCache := C', host_state := d'\<rparr>)) (\<lambda>(_, w).
        Inr ((0, fi\<lparr>fh := fd\<rparr>), w))"
    "0 \<le> fd" "fd_ino hv (host_state w) fd = None" "fd_ino hv d' = (fd_ino hv (host_state w))(fd := Some i)"
    "path_ino hv d' = path_ino hv (host_state w)" "content hv d' = content hv (host_state w)"
    "files_ok c hv C' d'" "seen c hv C' d' = seen c hv (FSCache w) (host_state w)" "cached C' = cached (FSCache w)"
    using open_body_ok [OF m c _ _ fl, of w0 path i] ok p unfolding w0 by blast
  have "triggers ev ''open'' ''after'' path '''' (w0\<lparr>FSCache := C', host_state := d'\<rparr>) =
      Inr ((), w0\<lparr>FSCache := C', host_state := d'\<rparr>)"
    by (rule triggers_calm) (simp_all add: w0_def cm)
  then have "with_shared_lock (open_body ev path fi) w = Inr ((0, fi\<lparr>fh := fd\<rparr>), w\<lparr>FSCache := C', host_state := d'\<rparr>)"
    using b(1) by (intro with_shared_lock_ok) (simp add: w0_def)
  then have "lfs_open ev path fi w = Inr ((0, fi\<lparr>fh := fd\<rparr>), w\<lparr>FSCache := C', host_state := d'\<rparr>)"
    by (simp add: lfs_open_def triggers_calm [OF cm])
  then show ?thesis using b(2-9) by blast
qed

lemma lfs_create_ok:
  assumes m: "mounted ev hv" and c: "c = FSConfig ev" and cm: "calm ev path w"
    and ok: "files_ok c hv (FSCache w) (host_state w)"
    and fresh: "fst (os_lstat (eos ev) path (host_state w)) = - 1" "fmlookup (file_inode_mapping (FSCache w)) path = None"
    and fl: "has_flag (fi_flags fi) O_CREAT"
    and os: "os_open (eos ev) path (fi_flags fi) mode (host_state w) = (fd, d')" "0 < fd"
    and ino: "path_ino hv d' path = Some i" "fmlookup (contents (FSCache w)) (to_string i) = None"
  shows "\<exists>C'. lfs_create ev path mode fi w = Inr ((0, fi\<lparr>fh := fd\<rparr>), w\<lparr>FSCache := C', host_state := d'\<rparr>) \<and>
    fd_ino hv d' = (fd_ino hv (host_state w))(fd := Some i) \<and>
    path_ino hv d' = (path_ino hv (host_state w))(path := Some i) \<and>
    content hv d' = (content hv (host_state w))(i := []) \<and>
    files_ok c hv C' d' \<and> seen c hv C' d' = (seen c hv (FSCache w) (host_state w))(i := []) \<and>
    cached C' = cached (FSCache w)"
proof -
  have "create_law (eos ev) hv" using m host_lawsD(12) by (auto simp: mounted_def)
  then obtain k where k: "path_ino hv d' = (path_ino hv (host_state w))(path := Some k)"
    "fd_ino hv d' = (fd_ino hv (host_state w))(fd := Some k)" "content hv d' = (content hv (host_state w))(k := [])"
    using fresh(1) fl os unfolding create_law_def has_flag_def by blast
  have i: "k = i" using k(1) ino(1) by simp
  note k = k [unfolded i]
  note inv0 = files_atD(2) [OF ok]
  have B: "0 < IO_BLOCK_SIZE c" using m single_blockD(3) by (auto simp: mounted_def c)
  have none: "blocks_of (FSCache w) (to_string i) = (\<lambda>_. None)"
    using unknown_blocks [OF inv0 ino(2)] by (simp add: blocks_of_def)
  have sz: "file_size hv (FSCache w) d' = (file_size hv (FSCache w) (host_state w))(i := 0)"
    using ino(2) by (auto simp: file_size_def k(3) fun_eq_iff split: option.split)
  have nm: "names_ok hv (FSCache w) d'" using files_atD(3) [OF ok] fresh(2) by (auto simp: names_ok_def k(1))
  have "file_ok (IO_BLOCK_SIZE c) 0 (\<lambda>_. None) []" using file_ok_uncached(1) [OF B, of "[]"] by simp
  then have same: "files_ok c hv (FSCache w) d'"
    using files_atD(1,4) [OF ok] nm none by (auto simp: files_at_def sz k(3))
  have seen: "seen c hv (FSCache w) d' = (seen c hv (FSCache w) (host_state w))(i := [])"
    by (rule ext) (auto simp: seen_at_def sz k(3) visible_def)
  define w1 where "w1 = w\<lparr>shared_locks := Suc (shared_locks w), host_state := d'\<rparr>"
  have w1: "FSCache w1 = FSCache w" "host_state w1 = d'" by (simp_all add: w1_def)
  have p1: "path_ino hv (host_state w1) path = Some i" using ino(1) by (simp add: w1)
  obtain st C1 where g: "lfs_getattr ev path w1 = Inr ((0, st), w1\<lparr>FSCache := C1\<rparr>)" "files_ok c hv C1 d'"
    "seen c hv C1 d' = seen c hv (FSCache w) d'" "st_ino st = i" "fmlookup (contents C1) (to_string i) \<noteq> None"
    "cengine C1 = cengine (FSCache w)"
    using getattr_ok [OF m _ p1] same unfolding w1 c by blast
  obtain it where it: "fmlookup (contents C1) (to_string i) = Some it" using g(5) by auto
  define w2 where "w2 = w1\<lparr>FSCache := C1\<rparr>"
  define meta where "meta = Metadata\<lparr>atim := now_of ev w2, mtim := now_of ev w2\<rparr>"
  define vs where "vs = (if fi_flags fi mod 4 = O_RDONLY \<or> fi_flags fi mod 4 = O_RDWR \<or> fi_flags fi mod 4 = O_CREAT
                     then [''atime''] else [])
                  @ (if fi_flags fi mod 4 = O_WRONLY \<or> fi_flags fi mod 4 = O_RDWR then [''mtime''] else [])"
  define it' where "it' = update_metadata meta vs it"
  have keep: "idata it' = idata it" "meta_size (imetadata it') = meta_size (imetadata it)"
    by (auto simp: it'_def vs_def update_metadata_def update_field_def)
  define C' where "C' = with_item (to_string i) it' (cengine C1) C1"
  have upd: "fs_locked_update (to_string i) meta vs w2 = Inr ((), w1\<lparr>FSCache := C'\<rparr>)"
    using locked_update_known [of c w2 "to_string i" it] files_atD(1) [OF g(2)] it
    by (simp add: w2_def C'_def it'_def)
  have has: "has_content_cached (FSCache w2) (to_string i)"
    using it by (simp add: has_content_cached_def w2_def)
  have "triggers ev ''create'' ''after'' path '''' (w1\<lparr>FSCache := C'\<rparr>) = Inr ((), w1\<lparr>FSCache := C'\<rparr>)"
    by (rule triggers_calm) (use cm in \<open>simp_all add: w1_def\<close>)
  then have body: "create_body ev path mode fi (w\<lparr>shared_locks := Suc (shared_locks w)\<rparr>) =
      Inr ((0, fi\<lparr>fh := fd\<rparr>), w1\<lparr>FSCache := C'\<rparr>)"
    using os g(1,4) upd has unfolding vs_def meta_def
    by (simp add: create_body_def syscall_def w1_def [symmetric] w2_def [symmetric])
  have run: "lfs_create ev path mode fi w = Inr ((0, fi\<lparr>fh := fd\<rparr>), w\<lparr>FSCache := C', host_state := d'\<rparr>)"
    using triggers_calm [OF cm, of "''create''" "''before''"] body
    by (simp add: lfs_create_def with_shared_lock_def) (simp add: w1_def)
  show ?thesis
    using run k metadata_files [OF g(2) it keep] g(3) seen cached_cengine [of C' "FSCache w"] g(6) by (auto simp: C'_def)
qed

section \<open>Operations that leave files alone\<close>

lemma unchanged_files:
  assumes ok: "files_ok c hv C d" and u: "unchanged hv d d'"
  shows "files_ok c hv C d'" and "seen c hv C d' = seen c hv C d"
  using files_ok_host [of hv d' d c C] ok u by (simp_all add: unchanged_def)

lemma pass_on_ok:
  assumes "unchanged hv (host_state w) (snd (call (host_state w)))"
  shows "\<exists>r d'. with_shared_lock (pass_on ev call) w = Inr (r, w\<lparr>host_state := d'\<rparr>) \<and> unchanged hv (host_state w) d'"
proof -
  obtain r d' where c: "call (host_state w) = (r, d')" by fastforce
  then show ?thesis
    using assms by (cases w) (simp add: with_shared_lock_def pass_on_def syscall_def)
qed

lemma pass_on_triggered_ok:
  assumes cm: "calm_between ev op from to w" and u: "unchanged hv (host_state w) (snd (call (host_state w)))"
  shows "\<exists>r d'. pass_on_triggered ev op from to call w = Inr (r, w\<lparr>host_state := d'\<rparr>) \<and> unchanged hv (host_state w) d'"
proof -
  obtain r d' where c: "call (host_state w) = (r, d')" by fastforce
  define w2 where "w2 = w\<lparr>shared_locks := Suc (shared_locks w), host_state := d'\<rparr>"
  have "triggers ev op ''after'' from to w2 = Inr ((), w2)"
    by (rule triggers_calm_between(3)) (use cm in \<open>simp add: w2_def\<close>)
  moreover have "w2\<lparr>shared_locks := shared_locks w2 - 1\<rparr> = w\<lparr>host_state := d'\<rparr>" by (simp add: w2_def)
  ultimately show ?thesis
    using triggers_calm_between(3) [OF cm] c u
    by (intro exI [of _ "if r = - 1 then errno_of ev w2 else 0"] exI [of _ d'])
      (simp add: pass_on_triggered_def with_shared_lock_def syscall_def w2_def [symmetric])
qed

end
