(* ===== verification/Fs_Truncate.thy ===== *)
theory Fs_Truncate
  imports Fs_Names
begin

text \<open>
  Truncating an open file: growing it fills it with zeros, shrinking it only records the new size.
\<close>


lemma file_write_zeros:
  assumes "int (length V) < n"
  shows "file_write V (int (length V)) (replicate (nat (n - int (length V))) 0) = file_resize V n"
proof -
  have "nat (n - int (length V)) = nat n - length V" "length V < nat n" using assms by linarith+
  then show ?thesis by (simp add: file_write_def file_resize_def)
qed

lemma truncate_find_cached:
  assumes "cache_ok c (FSCache w)" and "get_original_inode (FSCache w) path = to_string i"
    and "fmlookup (contents (FSCache w)) (to_string i) = Some it"
  shows "truncate_find ev path fi w = Inr (Some (to_string i, uninit_int ev), w)"
  using lock_round_known [OF assms(1,3)] by (simp add: truncate_find_def assms(2) Let_def)

lemma truncated_size:
  "meta_size (imetadata (update_metadata (Metadata\<lparr>meta_size := n, mtim := t, ctim := t\<rparr>)
     ([''size'', ''mtime''] @ (if b then [''ctime''] else [])) it)) = n"
  by (simp add: update_metadata_def update_field_def)

text \<open>The tail of the handler: the size of the item is set, and nothing else of the files changes.\<close>

lemma truncate_tail:
  assumes ok: "files_at c hv sz C d" and it: "fmlookup (contents C) (to_string i) = Some it"
    and it': "idata it' = idata it" and C': "C' = with_item (to_string i) it' (cengine C) C"
  shows "cache_ok c C'" "names_ok hv C' d" "blocks_of C' = blocks_of C"
    "file_size hv C' d = (file_size hv C d)(i := meta_size (imetadata it'))"
    "get_original_inode C' path = get_original_inode C path"
proof -
  note inv = files_atD(2) [OF ok]
  show "cache_ok c C'"
    using with_metadata_inv [OF inv it it'] by (simp add: cache_ok_def C')
  show "names_ok hv C' d" using files_atD(3) [OF ok] by (simp add: names_ok_def C')
  show "blocks_of C' = blocks_of C" by (simp add: C' cblocks_cengine)
  show "file_size hv C' d = (file_size hv C d)(i := meta_size (imetadata it'))"
    unfolding C' by (rule file_size_with_item) simp
  show "get_original_inode C' path = get_original_inode C path" by (simp add: C' get_original_inode_def)
qed

lemma truncate_body_cached:
  assumes m: "mounted ev hv" and cm: "calm ev path w"
    and ok: "files_ok (FSConfig ev) hv (FSCache w) (host_state w)"
    and p: "path_ino hv (host_state w) path = Some i"
    and u: "uninit_int ev \<noteq> - 1"
    and data: "\<And>w1. \<lbrakk>calm ev path w1; host_state w1 = host_state w; fmlookup (contents (FSCache w1)) (to_string i) \<noteq> None;
        files_ok (FSConfig ev) hv (FSCache w1) (host_state w);
        seen (FSConfig ev) hv (FSCache w1) (host_state w) = seen (FSConfig ev) hv (FSCache w) (host_state w);
        cengine (FSCache w1) = cengine (FSCache w);
        \<forall>cid. cid \<noteq> to_string i \<longrightarrow> fmlookup (contents (FSCache w1)) cid = fmlookup (contents (FSCache w)) cid;
        get_original_inode (FSCache w1) path = to_string i;
        file_size hv (FSCache w1) (host_state w) = file_size hv (FSCache w) (host_state w)\<rbrakk> \<Longrightarrow>
      \<exists>C2 d2. truncate_data ev path n fi (to_string i) w1 = Inr ((), w1\<lparr>FSCache := C2, host_state := d2\<rparr>) \<and>
        files_ok (FSConfig ev) hv C2 d2 \<and> fmlookup (contents C2) (to_string i) \<noteq> None \<and> P C2 d2"
  obtains C2 d2 it it' where
    "lfs_truncate ev path n fi w =
       Inr (0, w\<lparr>FSCache := with_item (to_string i) it' (cengine C2) C2, host_state := d2\<rparr>)"
    "files_ok (FSConfig ev) hv C2 d2" "P C2 d2" "fmlookup (contents C2) (to_string i) = Some it"
    "idata it' = idata it" "meta_size (imetadata it') = n"
proof -
  define w0 where "w0 = w\<lparr>shared_locks := Suc (shared_locks w)\<rparr>"
  have w0: "FSCache w0 = FSCache w" "host_state w0 = host_state w" by (simp_all add: w0_def)
  obtain st C1 where g: "lfs_getattr ev path w0 = Inr ((0, st), w0\<lparr>FSCache := C1\<rparr>)"
    "files_ok (FSConfig ev) hv C1 (host_state w)"
    "seen (FSConfig ev) hv C1 (host_state w) = seen (FSConfig ev) hv (FSCache w) (host_state w)"
    "file_size hv C1 (host_state w) = file_size hv (FSCache w) (host_state w)"
    "get_original_inode C1 path = to_string i" "fmlookup (contents C1) (to_string i) \<noteq> None"
    "cengine C1 = cengine (FSCache w)"
    "\<forall>cid. cid \<noteq> to_string i \<longrightarrow> fmlookup (contents C1) cid = fmlookup (contents (FSCache w)) cid"
    using getattr_ok [OF m, of w0 path i] ok p unfolding w0 by blast
  define w1 where "w1 = w0\<lparr>FSCache := C1\<rparr>"
  have w1: "FSCache w1 = C1" "host_state w1 = host_state w" by (simp_all add: w1_def w0)
  have cm1: "calm ev path w1" using cm by (simp add: w1_def w0_def)
  obtain it1 where it1: "fmlookup (contents C1) (to_string i) = Some it1" using g(6) by auto
  have find: "truncate_find ev path fi w1 = Inr (Some (to_string i, uninit_int ev), w1)"
    using truncate_find_cached [of "FSConfig ev" w1 path i it1] files_atD(1) [OF g(2)] g(5) it1 by (simp add: w1)
  obtain C2 d2 where td: "truncate_data ev path n fi (to_string i) w1 = Inr ((), w1\<lparr>FSCache := C2, host_state := d2\<rparr>)"
    "files_ok (FSConfig ev) hv C2 d2" "fmlookup (contents C2) (to_string i) \<noteq> None" "P C2 d2"
    using data [OF cm1 w1(2)] g unfolding w1 by blast
  define w2 where "w2 = w1\<lparr>FSCache := C2, host_state := d2\<rparr>"
  have w2: "FSCache w2 = C2" "host_state w2 = d2" by (simp_all add: w2_def)
  obtain it where it: "fmlookup (contents C2) (to_string i) = Some it" using td(3) by auto
  define vals where "vals = [''size'', ''mtime''] @ (if n > meta_size (imetadata it) then [''ctime''] else [])"
  define new where "new = Metadata\<lparr>meta_size := n, mtim := now_of ev w2, ctim := now_of ev w2\<rparr>"
  define it' where "it' = update_metadata new vals it"
  define w3 where "w3 = w2\<lparr>FSCache := with_item (to_string i) it' (cengine C2) C2\<rparr>"
  have upd: "fs_locked_update (to_string i) new vals w2 = Inr ((), w3)"
    using locked_update_known [of "FSConfig ev" w2 "to_string i" it new vals] files_atD(1) [OF td(2)] it
    by (simp add: w2 w3_def it'_def)
  have deref: "deref_metadata (to_string i) w2 = Inr (imetadata it)"
    using it by (simp add: deref_metadata_def get_content_metadata_def get_content_ptr_def w2)
  have "triggers ev ''truncate'' ''after'' path '''' w3 = Inr ((), w3)"
    using cm1 by (intro triggers_calm) (simp_all add: w3_def w2_def)
  then have "truncate_body ev path n fi w0 = Inr (0, w3)"
    using g(1) find td(1) upd deref u
    by (simp add: truncate_body_def w1_def [symmetric] w2_def [symmetric] new_def vals_def Let_def)
  moreover have "w3 = w\<lparr>shared_locks := Suc (shared_locks w),
      FSCache := with_item (to_string i) it' (cengine C2) C2, host_state := d2\<rparr>"
    by (simp add: w3_def w2_def w1_def w0_def)
  ultimately have "with_shared_lock (truncate_body ev path n fi) w =
      Inr (0, w\<lparr>FSCache := with_item (to_string i) it' (cengine C2) C2, host_state := d2\<rparr>)"
    unfolding w0_def by (intro with_shared_lock_ok) simp
  then have "lfs_truncate ev path n fi w =
      Inr (0, w\<lparr>FSCache := with_item (to_string i) it' (cengine C2) C2, host_state := d2\<rparr>)"
    by (simp add: lfs_truncate_def triggers_calm [OF cm])
  moreover have "idata it' = idata it" by (simp add: it'_def)
  moreover have "meta_size (imetadata it') = n"
    unfolding it'_def new_def vals_def by (rule truncated_size)
  ultimately show thesis using that [OF _ td(2,4) it] by blast
qed

lemma lfs_truncate_grows:
  assumes m: "mounted ev hv" and cm: "calm ev path w"
    and ok: "files_ok (FSConfig ev) hv (FSCache w) (host_state w)"
    and o: "open_at hv path f i (host_state w)" and u: "uninit_int ev \<noteq> - 1"
    and n: "file_size hv (FSCache w) (host_state w) i < n"
      "n - file_size hv (FSCache w) (host_state w) i < 2147483648" "n \<le> 2147483648 * IO_BLOCK_SIZE (FSConfig ev)"
  obtains C' d' where "lfs_truncate ev path n (Some f) w = Inr (0, w\<lparr>FSCache := C', host_state := d'\<rparr>)"
    "files_ok (FSConfig ev) hv C' d'"
    "seen (FSConfig ev) hv C' d' = (seen (FSConfig ev) hv (FSCache w) (host_state w))
       (i := file_resize (seen (FSConfig ev) hv (FSCache w) (host_state w) i) n)"
    "\<exists>disk'. content hv d' = (content hv (host_state w))(i := disk') \<and>
       torn (file_size hv (FSCache w) (host_state w) i)
         (replicate (nat (n - file_size hv (FSCache w) (host_state w) i)) 0) (content hv (host_state w) i) disk'"
proof -
  define c where "c = FSConfig ev"
  define d where "d = host_state w"
  define F where "F = file_size hv (FSCache w) d i"
  define V where "V = seen c hv (FSCache w) d i"
  define P :: "engine cache \<Rightarrow> 'a \<Rightarrow> bool" where "P C2 d2 \<longleftrightarrow> seen c hv C2 d2 = (seen c hv (FSCache w) d)(i := file_resize V n) \<and>
      (\<exists>disk'. content hv d2 = (content hv d)(i := disk') \<and>
         torn F (replicate (nat (n - F)) 0) (content hv d i) disk')" for C2 d2
  have VF: "int (length V) = F" using file_size_seen [OF ok, of i] by (simp add: V_def F_def c_def d_def)
  have F0: "0 \<le> F" using VF by linarith
  have p: "path_ino hv (host_state w) path = Some i" using o by (simp add: open_at_def)
  obtain C2 d2 it it' where t: "lfs_truncate ev path n (Some f) w =
       Inr (0, w\<lparr>FSCache := with_item (to_string i) it' (cengine C2) C2, host_state := d2\<rparr>)"
    "files_ok c hv C2 d2" "P C2 d2" "fmlookup (contents C2) (to_string i) = Some it"
    "idata it' = idata it" "meta_size (imetadata it') = n"
  proof (rule truncate_body_cached [OF m cm ok p u, where P = P and n = n and fi = "Some f", folded c_def])
    fix w1 assume a: "calm ev path w1" "host_state w1 = host_state w"
      "fmlookup (contents (FSCache w1)) (to_string i) \<noteq> None" "files_ok c hv (FSCache w1) (host_state w)"
      "seen c hv (FSCache w1) (host_state w) = seen c hv (FSCache w) (host_state w)"
      "file_size hv (FSCache w1) (host_state w) = file_size hv (FSCache w) (host_state w)"
    obtain it1 where it1: "fmlookup (contents (FSCache w1)) (to_string i) = Some it1" using a(3) by auto
    have sz: "meta_size (imetadata it1) = F"
      using fun_cong [OF a(6), of i] it1 by (simp add: F_def d_def file_size_def [of hv "FSCache w1"])
    define bs where "bs = replicate (nat (n - F)) (0::byte)"
    have bl: "int (length bs) = n - F" using n(1) by (simp add: bs_def F_def d_def)
    have fits: "request_fits (FSConfig ev) F bs"
      using n VF F0 bl by (auto simp: request_fits_def bs_def F_def d_def)
    have inv: "files_ok (FSConfig ev) hv (FSCache w1) (host_state w1)" "open_at hv path f i (host_state w1)"
      using a(4) o by (simp_all add: a(2) c_def)
    have b: "bs \<noteq> []" "length bs < 2147483648" "F + int (length bs) \<le> 2147483648 * IO_BLOCK_SIZE (FSConfig ev)"
      using fits by (simp_all add: request_fits_def)
    have o1: "path_ino hv (host_state w1) path = Some i" "fd_ino hv (host_state w1) (fh f) = Some i"
      "fh f \<noteq> - 1" "\<not> direct_io f" using inv(2) by (auto simp: open_at_def)
    obtain C2 d2 where wr: "lfs_write ev path bs (int (length bs)) F (Some f) w1 =
        Inr (int (length bs), w1\<lparr>FSCache := C2, host_state := d2\<rparr>)" "files_ok c hv C2 d2"
      "seen c hv C2 d2 = (seen c hv (FSCache w1) (host_state w1))
        (i := file_write (seen c hv (FSCache w1) (host_state w1) i) F bs)"
      "\<exists>disk'. content hv d2 = (content hv (host_state w1))(i := disk') \<and> torn F bs (content hv (host_state w1) i) disk'"
      and cont: "fmlookup (contents C2) (to_string i) \<noteq> None"
      using lfs_write_ok [OF m refl a(1) inv(1) o1 b(1,2) F0 b(3)] unfolding written_def c_def by blast
    have "file_write V F bs = file_resize V n"
      using file_write_zeros [of V n] n(1) unfolding VF by (simp add: bs_def F_def d_def)
    then have P: "P C2 d2" using wr(3,4) unfolding a(2) a(5) by (auto simp: P_def V_def d_def bs_def)
    have "truncate_data ev path n (Some f) (to_string i) w1 = Inr ((), w1\<lparr>FSCache := C2, host_state := d2\<rparr>)"
      using it1 wr(1) n(1) unfolding bl
      by (simp add: truncate_data_def deref_metadata_def get_content_metadata_def get_content_ptr_def sz bs_def F_def d_def)
    then show "\<exists>C2 d2. truncate_data ev path n (Some f) (to_string i) w1 =
        Inr ((), w1\<lparr>FSCache := C2, host_state := d2\<rparr>) \<and>
        files_ok c hv C2 d2 \<and> fmlookup (contents C2) (to_string i) \<noteq> None \<and> P C2 d2"
      using wr(2) cont P by blast
  qed
  define C' where "C' = with_item (to_string i) it' (cengine C2) C2"
  note T = truncate_tail [OF t(2,4,5) C'_def]
  have "int (length (seen c hv C2 d2 i)) = n" using t(3) n(1) F0 by (simp add: P_def F_def d_def)
  then have "file_size hv C2 d2 i = n" using file_size_seen [OF t(2), of i] by simp
  then have fs: "file_size hv C' d2 = file_size hv C2 d2" unfolding T(4) t(6) by (simp add: fun_eq_iff)
  have "files_ok c hv C' d2" "seen c hv C' d2 = seen c hv C2 d2"
    using t(2) T(1,2) unfolding fs by (simp_all add: files_at_def seen_at_def T(3) fun_eq_iff)
  then show thesis
    using that [of d2 C'] t(1,3) by (simp add: C'_def P_def c_def d_def V_def F_def)
qed

end
