(* ===== verification/Fs_Spec.thy ===== *)
theory Fs_Spec
  imports Fs_Truncate
begin

text \<open>
  What the file system promises of files, without its cache: a store with two versions of every
  file, the one everyone sees and the one that would be left after a crash. Its operations are an
  inductive relation, its promises are lemmas about sequences of them, and a locale carries the
  promises over to every system whose steps are steps of the store through a view. The handlers
  and commands of the model are such a system (\<open>fs_step_simulates\<close>).
\<close>


section \<open>The abstract store\<close>

text \<open>What everyone sees of each file, and what would be left of it after a crash.\<close>

record store =
  vis :: "int \<Rightarrow> byte list"
  dur :: "int \<Rightarrow> byte list"

datatype store_op =
    Write int int "byte list"      \<comment> \<open>inode, offset, bytes\<close>
  | Read int int nat "byte list"   \<comment> \<open>inode, offset, how many, what came back\<close>
  | Sync "int set"                 \<comment> \<open>the inodes made durable\<close>
  | Lose "int set"                 \<comment> \<open>the inodes whose unsynced changes are lost, possibly none\<close>
  | Create int                     \<comment> \<open>the inode of a new, empty file\<close>

inductive store_step :: "store \<Rightarrow> store_op \<Rightarrow> store \<Rightarrow> bool" where
  step_write: "torn off bs (dur s i) disk \<Longrightarrow>
     store_step s (Write i off bs)
       (s\<lparr>vis := (vis s)(i := file_write (vis s i) off bs), dur := (dur s)(i := disk)\<rparr>)"
| step_read: "bs = take n (drop (nat off) (vis s i)) \<Longrightarrow> store_step s (Read i off n bs) s"
| step_sync: "store_step s (Sync I) (s\<lparr>dur := \<lambda>i. if i \<in> I then vis s i else dur s i\<rparr>)"
| step_lose: "store_step s (Lose I) (s\<lparr>vis := \<lambda>i. if i \<in> I then dur s i else vis s i\<rparr>)"
| step_create: "store_step s (Create i) (s\<lparr>vis := (vis s)(i := []), dur := (dur s)(i := [])\<rparr>)"

inductive_cases store_stepE: "store_step s op s'"

inductive_simps store_step_simps [simp]:
  "store_step s (Write i off bs) s'" "store_step s (Read i off n bs) s'"
  "store_step s (Sync I) s'" "store_step s (Lose I) s'" "store_step s (Create i) s'"

text \<open>Sequences of steps of any system that has these operations.\<close>

inductive runs :: "('s \<Rightarrow> store_op \<Rightarrow> 's \<Rightarrow> bool) \<Rightarrow> 's \<Rightarrow> store_op list \<Rightarrow> 's \<Rightarrow> bool"
  for step where
  runs_nil: "runs step s [] s"
| runs_cons: "step s op s1 \<Longrightarrow> runs step s1 ops s' \<Longrightarrow> runs step s (op # ops) s'"

inductive_simps runs_simps [simp]: "runs step s [] s'" "runs step s (op # ops) s'"

lemma runs_append [simp]:
  "runs step s (xs @ ys) s' \<longleftrightarrow> (\<exists>t. runs step s xs t \<and> runs step t ys s')"
  by (induction xs arbitrary: s) auto

section \<open>What the store promises\<close>

text \<open>The writes to an inode, in order, and the inodes an operation makes durable or loses.\<close>

fun writes_to :: "int \<Rightarrow> store_op list \<Rightarrow> (int \<times> byte list) list" where
  "writes_to i [] = []"
| "writes_to i (Write j off bs # ops) = (if i = j then (off, bs) # writes_to i ops else writes_to i ops)"
| "writes_to i (_ # ops) = writes_to i ops"

fun syncs :: "int \<Rightarrow> store_op \<Rightarrow> bool" where
  "syncs i (Sync I) \<longleftrightarrow> i \<in> I"
| "syncs i (Create j) \<longleftrightarrow> i = j"
| "syncs i _ \<longleftrightarrow> False"

fun loses :: "int \<Rightarrow> store_op \<Rightarrow> bool" where
  "loses i (Lose I) \<longleftrightarrow> i \<in> I"
| "loses i (Create j) \<longleftrightarrow> i = j"
| "loses i _ \<longleftrightarrow> False"

lemma writes_to_append [simp]: "writes_to i (xs @ ys) = writes_to i xs @ writes_to i ys"
  by (induction i xs rule: writes_to.induct) auto

text \<open>Without a loss, a file is what the writes to it make of it, one after the other.\<close>

lemma store_runs_visible:
  "runs store_step s ops s' \<Longrightarrow> \<forall>op \<in> set ops. \<not> loses i op \<Longrightarrow>
   vis s' i = fold (\<lambda>(off, bs) V. file_write V off bs) (writes_to i ops) (vis s i)"
proof (induction s ops s' rule: runs.induct)
  case (runs_cons s op s1 ops s')
  then show ?case by (cases op) auto
qed simp

text \<open>
  Without a sync of the file, every durable byte is one that was there or one that was written
  there since.
\<close>

definition put_there :: "(int \<times> byte list) list \<Rightarrow> nat \<Rightarrow> byte \<Rightarrow> bool" where
  "put_there ws j x \<longleftrightarrow>
     (\<exists>off bs. (off, bs) \<in> set ws \<and> nat off \<le> j \<and> j < nat off + length bs \<and> x = bs ! (j - nat off))"

definition traced :: "(int \<times> byte list) list \<Rightarrow> byte list \<Rightarrow> byte list \<Rightarrow> bool" where
  "traced ws disk disk' \<longleftrightarrow> length disk \<le> length disk' \<and>
     (\<forall>j. byte_at disk' j = byte_at disk j \<or> put_there ws j (byte_at disk' j))"

lemma traced_refl [simp]: "traced ws disk disk"
  by (simp add: traced_def)

lemma traced_torn: "torn off bs disk disk' \<Longrightarrow> traced [(off, bs)] disk disk'"
  by (auto simp: torn_def traced_def put_there_def)

lemma put_there_append [simp]: "put_there (ws @ ws') j x \<longleftrightarrow> put_there ws j x \<or> put_there ws' j x"
  by (auto simp: put_there_def)

lemma traced_trans: "traced ws d1 d2 \<Longrightarrow> traced ws' d2 d3 \<Longrightarrow> traced (ws @ ws') d1 d3"
  unfolding traced_def put_there_append by (metis order_trans)

lemma store_runs_durable:
  "runs store_step s ops s' \<Longrightarrow> \<forall>op \<in> set ops. \<not> syncs i op \<Longrightarrow> traced (writes_to i ops) (dur s i) (dur s' i)"
proof (induction s ops s' rule: runs.induct)
  case (runs_cons s op s1 ops s')
  have later: "traced (writes_to i ops) (dur s1 i) (dur s' i)" using runs_cons by simp
  show ?case
  proof (cases op)
    case (Write j off bs)
    show ?thesis
    proof (cases "i = j")
      case True
      then have "torn off bs (dur s i) (dur s1 i)" using runs_cons.hyps(1) Write by auto
      from traced_trans [OF traced_torn [OF this] later] show ?thesis using True Write by simp
    next
      case False
      then show ?thesis using runs_cons.hyps(1) Write later by auto
    qed
  qed (use runs_cons later in auto)
qed simp

text \<open>
  The guarantee of fsync: whatever happens after a sync of a file, up to and including a crash,
  every byte of it is the synced one or one written since.
\<close>

lemma store_crash_consistent:
  assumes "runs store_step s (before @ [Sync I] @ after @ [Lose L]) s'" and "i \<in> I" and "i \<in> L"
    and "\<forall>op \<in> set before. \<not> loses i op" and "\<forall>op \<in> set after. \<not> syncs i op"
  shows "traced (writes_to i after)
    (fold (\<lambda>(off, bs) V. file_write V off bs) (writes_to i before) (vis s i)) (vis s' i)"
proof -
  obtain t u where t: "runs store_step s before t"
    "runs store_step (t\<lparr>dur := \<lambda>i. if i \<in> I then vis t i else dur t i\<rparr>) after u"
    "vis s' i = dur u i"
    using assms(1,3) by auto
  from store_runs_durable [OF t(2) assms(5)] show ?thesis
    using store_runs_visible [OF t(1) assms(4)] assms(2) t(3) by simp
qed

text \<open>A file that is not written stays what it was at the sync.\<close>

lemma store_runs_kept:
  "runs store_step s ops s' \<Longrightarrow> \<forall>op \<in> set ops. \<not> syncs i op \<Longrightarrow> writes_to i ops = [] \<Longrightarrow> dur s' i = dur s i"
proof (induction s ops s' rule: runs.induct)
  case (runs_cons s op s1 ops s')
  then show ?case by (cases op) (auto split: if_splits)
qed simp

section \<open>Systems that implement the store\<close>

text \<open>
  A system implements the store when each of its steps is one of the store, seen through a view
  of its states, and keeps its invariant. Then what the store promises holds of its runs.
\<close>

locale implements_store =
  fixes step :: "'s \<Rightarrow> store_op \<Rightarrow> 's \<Rightarrow> bool"
    and inv :: "'s \<Rightarrow> bool"
    and abs :: "'s \<Rightarrow> store"
  assumes keeps: "inv s \<Longrightarrow> step s op s' \<Longrightarrow> inv s'"
    and simulates: "inv s \<Longrightarrow> step s op s' \<Longrightarrow> store_step (abs s) op (abs s')"
begin

lemma runs_simulate: "runs step s ops s' \<Longrightarrow> inv s \<Longrightarrow> inv s' \<and> runs store_step (abs s) ops (abs s')"
  by (induction s ops s' rule: runs.induct) (auto dest: keeps intro: simulates)

lemma sees_own_writes:
  assumes "runs step s ops s'" and "inv s" and "\<forall>op \<in> set ops. \<not> loses i op"
  shows "vis (abs s') i = fold (\<lambda>(off, bs) V. file_write V off bs) (writes_to i ops) (vis (abs s) i)"
  using store_runs_visible runs_simulate [OF assms(1,2)] assms(3) by blast

lemma reads_written:
  assumes "runs step s (ops @ [Read i off n bs]) s'" and "inv s" and "\<forall>op \<in> set ops. \<not> loses i op"
  shows "bs = take n (drop (nat off)
    (fold (\<lambda>(off, bs) V. file_write V off bs) (writes_to i ops) (vis (abs s) i)))"
proof -
  have "runs store_step (abs s) (ops @ [Read i off n bs]) (abs s')" using runs_simulate [OF assms(1,2)] by simp
  then show ?thesis using store_runs_visible [OF _ assms(3)] by fastforce
qed

lemma crash_consistent:
  assumes "runs step s (before @ [Sync I] @ after @ [Lose L]) s'" and "inv s" and "i \<in> I" and "i \<in> L"
    and "\<forall>op \<in> set before. \<not> loses i op" and "\<forall>op \<in> set after. \<not> syncs i op"
  shows "traced (writes_to i after)
    (fold (\<lambda>(off, bs) V. file_write V off bs) (writes_to i before) (vis (abs s) i)) (vis (abs s') i)"
  using store_crash_consistent runs_simulate [OF assms(1,2)] assms(3-6) by blast

lemma synced_kept:
  assumes "runs step s (before @ [Sync I] @ after) s'" and "inv s" and "i \<in> I"
    and "\<forall>op \<in> set before. \<not> loses i op" and "\<forall>op \<in> set after. \<not> syncs i op" and "writes_to i after = []"
  shows "dur (abs s') i = fold (\<lambda>(off, bs) V. file_write V off bs) (writes_to i before) (vis (abs s) i)"
proof -
  have "runs store_step (abs s) (before @ [Sync I] @ after) (abs s')" using runs_simulate [OF assms(1,2)] by simp
  then obtain t where t: "runs store_step (abs s) before t"
    "runs store_step (t\<lparr>dur := \<lambda>i. if i \<in> I then vis t i else dur t i\<rparr>) after (abs s')" by auto
  show ?thesis
    using store_runs_kept [OF t(2) assms(5,6)] store_runs_visible [OF t(1) assms(4)] assms(3) by simp
qed

end

section \<open>The file system implements the store\<close>

definition fs_inv :: "(engine, 'd) env \<Rightarrow> 'd view \<Rightarrow> (engine, 'd) world \<Rightarrow> bool" where
  "fs_inv ev hv w \<longleftrightarrow> mounted ev hv \<and> shared_locks w = 0 \<and>
     files_ok (FSConfig ev) hv (FSCache w) (host_state w)"

definition store_of :: "(engine, 'd) env \<Rightarrow> 'd view \<Rightarrow> (engine, 'd) world \<Rightarrow> store" where
  "store_of ev hv w = \<lparr>vis = seen (FSConfig ev) hv (FSCache w) (host_state w), dur = content hv (host_state w)\<rparr>"

inductive fs_step :: "(engine, 'd) env \<Rightarrow> 'd view \<Rightarrow> (engine, 'd) world \<Rightarrow> store_op \<Rightarrow> (engine, 'd) world \<Rightarrow> bool"
  for ev hv where
  fs_write: "open_at hv path f i (host_state w) \<Longrightarrow> calm ev path w \<Longrightarrow> request_fits (FSConfig ev) offset buf \<Longrightarrow>
     lfs_write ev path buf (int (length buf)) offset (Some f) w = Inr (r, w') \<Longrightarrow>
     fs_step ev hv w (Write i offset buf) w'"
| fs_read: "open_at hv path f i (host_state w) \<Longrightarrow> calm ev path w \<Longrightarrow> request_fits (FSConfig ev) offset buf \<Longrightarrow>
     (offset + int (length buf)) mod IO_BLOCK_SIZE (FSConfig ev) = 0 \<Longrightarrow>
     lfs_read ev path buf (int (length buf)) offset (Some f) w = Inr ((r, buf'), w') \<Longrightarrow>
     fs_step ev hv w (Read i offset (length buf) (take (nat r) buf')) w'"
| fs_fsync: "path_ino hv (host_state w) path = Some i \<Longrightarrow> calm ev path w \<Longrightarrow>
     lfs_fsync ev path isdatasync fi w = Inr (r, w') \<Longrightarrow>
     fs_step ev hv w (Sync {i}) w'"
| fs_checkpoint: "(\<And>p. fmlookup (file_inode_mapping (FSCache w)) p \<noteq> None \<Longrightarrow> path_ino hv (host_state w) p \<noteq> None) \<Longrightarrow>
     I = {i. \<exists>p. fmlookup (file_inode_mapping (FSCache w)) p \<noteq> None \<and> path_ino hv (host_state w) p = Some i} \<Longrightarrow>
     command_checkpoint ev w = Inr (u, w') \<Longrightarrow>
     fs_step ev hv w (Sync I) w'"
| fs_clear: "command_fault_clear_cache ev w = Inr (u, w') \<Longrightarrow> fs_step ev hv w (Lose UNIV) w'"
| fs_crash: "new_engine (FSConfig ev) = Inr e \<Longrightarrow> content hv d = content hv (host_state w) \<Longrightarrow>
     fs_step ev hv w (Lose UNIV) (new_lazyfs (new_cache e) fs d)"
| fs_truncate: "open_at hv path f i (host_state w) \<Longrightarrow> calm ev path w \<Longrightarrow> uninit_int ev \<noteq> - 1 \<Longrightarrow>
     F = file_size hv (FSCache w) (host_state w) i \<Longrightarrow> F < n \<Longrightarrow> n - F < 2147483648 \<Longrightarrow>
     n \<le> 2147483648 * IO_BLOCK_SIZE (FSConfig ev) \<Longrightarrow>
     lfs_truncate ev path n (Some f) w = Inr (r, w') \<Longrightarrow>
     fs_step ev hv w (Write i F (replicate (nat (n - F)) 0)) w'"
| fs_getattr: "path_ino hv (host_state w) path = Some i \<Longrightarrow> lfs_getattr ev path w = Inr (st, w') \<Longrightarrow>
     fs_step ev hv w (Lose {}) w'"
| fs_open: "path_ino hv (host_state w) path = Some i \<Longrightarrow> calm ev path w \<Longrightarrow>
     fi_flags f \<in> {O_RDONLY, O_WRONLY, O_RDWR} \<Longrightarrow>
     lfs_open ev path f w = Inr (st, w') \<Longrightarrow> fs_step ev hv w (Lose {}) w'"
| fs_release: "lfs_release ev f w = Inr (r, w') \<Longrightarrow> fs_step ev hv w (Lose {}) w'"
| fs_attributes: "lfs_mkdir ev path mode w = Inr (r, w') \<or> lfs_rmdir ev path w = Inr (r, w') \<or>
     lfs_chmod ev path mode w = Inr (r, w') \<or> lfs_chown ev path uid gid w = Inr (r, w') \<or>
     lfs_utimens ev path t0 t1 w = Inr (r, w') \<Longrightarrow> fs_step ev hv w (Lose {}) w'"
| fs_symlink: "calm_between ev ''symlink'' from to w \<Longrightarrow> lfs_symlink ev from to w = Inr (r, w') \<Longrightarrow>
     fs_step ev hv w (Lose {}) w'"
| fs_access: "calm ev path w \<Longrightarrow> lfs_access ev path mode w = Inr (r, w') \<Longrightarrow> fs_step ev hv w (Lose {}) w'"
| fs_link: "path_ino hv (host_state w) from = Some i \<Longrightarrow> calm_between ev ''link'' from to w \<Longrightarrow>
     fmlookup (file_inode_mapping (FSCache w)) from \<noteq> None \<Longrightarrow>
     fst (os_link (eos ev) from to (host_state w)) \<noteq> - 1 \<Longrightarrow>
     lfs_link ev from to w = Inr (r, w') \<Longrightarrow> fs_step ev hv w (Lose {}) w'"
| fs_rename: "path_ino hv (host_state w) from = Some i \<Longrightarrow> path_ino hv (host_state w) to \<noteq> Some i \<Longrightarrow>
     calm_between ev ''rename'' from to w \<Longrightarrow>
     fmlookup (file_inode_mapping (FSCache w)) from \<noteq> None \<Longrightarrow>
     fst (os_rename (eos ev) from to (host_state w)) \<noteq> - 1 \<Longrightarrow>
     lfs_rename ev from to 0 w = Inr (r, w') \<Longrightarrow>
     fs_step ev hv w (Lose (unlinked (FSCache w) (displaced to (file_inode_mapping (FSCache w))))) w'"
| fs_unlink: "path_ino hv (host_state w) path = Some i \<Longrightarrow> calm ev path w \<Longrightarrow>
     fmlookup (file_inode_mapping (FSCache w)) path \<noteq> None \<Longrightarrow>
     fst (os_unlink (eos ev) path (host_state w)) \<noteq> - 1 \<Longrightarrow>
     lfs_unlink ev path w = Inr (r, w') \<Longrightarrow>
     fs_step ev hv w (Lose (unlinked (FSCache w) (to_string i))) w'"
| fs_create: "fst (os_lstat (eos ev) path (host_state w)) = - 1 \<Longrightarrow> calm ev path w \<Longrightarrow>
     fmlookup (file_inode_mapping (FSCache w)) path = None \<Longrightarrow> has_flag (fi_flags f) O_CREAT \<Longrightarrow>
     os_open (eos ev) path (fi_flags f) mode (host_state w) = (fd, d) \<Longrightarrow> 0 < fd \<Longrightarrow>
     path_ino hv d path = Some i \<Longrightarrow> fmlookup (contents (FSCache w)) (to_string i) = None \<Longrightarrow>
     lfs_create ev path mode f w = Inr (st, w') \<Longrightarrow> fs_step ev hv w (Create i) w'"

inductive_cases fs_stepE: "fs_step ev hv w op w'"

lemma attribute_calls:
  assumes "mounted ev hv"
  shows "\<exists>r d'. lfs_mkdir ev path mode w = Inr (r, w\<lparr>host_state := d'\<rparr>) \<and> unchanged hv (host_state w) d'"
    and "\<exists>r d'. lfs_rmdir ev path w = Inr (r, w\<lparr>host_state := d'\<rparr>) \<and> unchanged hv (host_state w) d'"
    and "\<exists>r d'. lfs_chmod ev path mode w = Inr (r, w\<lparr>host_state := d'\<rparr>) \<and> unchanged hv (host_state w) d'"
    and "\<exists>r d'. lfs_chown ev path uid gid w = Inr (r, w\<lparr>host_state := d'\<rparr>) \<and> unchanged hv (host_state w) d'"
    and "\<exists>r d'. lfs_utimens ev path t0 t1 w = Inr (r, w\<lparr>host_state := d'\<rparr>) \<and> unchanged hv (host_state w) d'"
proof -
  have "attribute_law (eos ev) hv" using assms host_lawsD(13) by (auto simp: mounted_def)
  note law = this [unfolded attribute_law_def, rule_format]
  show "\<exists>r d'. lfs_mkdir ev path mode w = Inr (r, w\<lparr>host_state := d'\<rparr>) \<and> unchanged hv (host_state w) d'"
    "\<exists>r d'. lfs_rmdir ev path w = Inr (r, w\<lparr>host_state := d'\<rparr>) \<and> unchanged hv (host_state w) d'"
    "\<exists>r d'. lfs_chmod ev path mode w = Inr (r, w\<lparr>host_state := d'\<rparr>) \<and> unchanged hv (host_state w) d'"
    "\<exists>r d'. lfs_chown ev path uid gid w = Inr (r, w\<lparr>host_state := d'\<rparr>) \<and> unchanged hv (host_state w) d'"
    "\<exists>r d'. lfs_utimens ev path t0 t1 w = Inr (r, w\<lparr>host_state := d'\<rparr>) \<and> unchanged hv (host_state w) d'"
    unfolding lfs_mkdir_def lfs_rmdir_def lfs_chmod_def lfs_chown_def lfs_utimens_def
    by (rule pass_on_ok, simp add: law)+
qed

lemma attribute_call:
  assumes m: "mounted ev hv"
    and "lfs_mkdir ev path mode w = Inr (r, w') \<or> lfs_rmdir ev path w = Inr (r, w') \<or>
     lfs_chmod ev path mode w = Inr (r, w') \<or> lfs_chown ev path uid gid w = Inr (r, w') \<or>
     lfs_utimens ev path t0 t1 w = Inr (r, w')"
  shows "\<exists>d'. w' = w\<lparr>host_state := d'\<rparr> \<and> unchanged hv (host_state w) d'"
proof -
  have one: "\<exists>d'. w' = w\<lparr>host_state := d'\<rparr> \<and> unchanged hv (host_state w) d'"
    if "x = Inr (r, w')" "\<exists>r d'. x = Inr (r, w\<lparr>host_state := d'\<rparr>) \<and> unchanged hv (host_state w) d'" for x
    using that by auto
  from assms(2) show ?thesis by (elim disjE) (erule one, rule attribute_calls [OF m])+
qed

lemma attribute_calls_between:
  assumes "mounted ev hv"
  shows "calm_between ev ''symlink'' from to w \<Longrightarrow>
      \<exists>r d'. lfs_symlink ev from to w = Inr (r, w\<lparr>host_state := d'\<rparr>) \<and> unchanged hv (host_state w) d'"
    and "calm ev path w \<Longrightarrow>
      \<exists>r d'. lfs_access ev path mode w = Inr (r, w\<lparr>host_state := d'\<rparr>) \<and> unchanged hv (host_state w) d'"
proof -
  have "attribute_law (eos ev) hv" using assms host_lawsD(13) by (auto simp: mounted_def)
  note law = this [unfolded attribute_law_def, rule_format]
  show "\<exists>r d'. lfs_symlink ev from to w = Inr (r, w\<lparr>host_state := d'\<rparr>) \<and> unchanged hv (host_state w) d'"
    if "calm_between ev ''symlink'' from to w"
    unfolding lfs_symlink_def by (rule pass_on_triggered_ok [OF that]) (simp add: law)
  show "\<exists>r d'. lfs_access ev path mode w = Inr (r, w\<lparr>host_state := d'\<rparr>) \<and> unchanged hv (host_state w) d'"
    if "calm ev path w"
    unfolding lfs_access_def
    by (rule pass_on_triggered_ok [OF calm_between_single [OF that]])
      (simp_all add: law allow_crash_fs_operations_def)
qed

text \<open>
  What an operation leaves is judged by the cache and the host it leaves: the invariant holds if
  their files are in order, and the store is what is seen of them and what the host has.
\<close>

abbreviation simulates_op :: "(engine, 'd) env \<Rightarrow> 'd view \<Rightarrow> (engine, 'd) world \<Rightarrow> store_op \<Rightarrow> (engine, 'd) world \<Rightarrow> bool" where
  "simulates_op ev hv w op w' \<equiv> fs_inv ev hv w' \<and> store_step (store_of ev hv w) op (store_of ev hv w')"

lemma fs_invD:
  assumes "fs_inv ev hv w"
  shows "mounted ev hv" "files_ok (FSConfig ev) hv (FSCache w) (host_state w)" "shared_locks w = 0"
    "single_block (FSConfig ev)"
  using assms by (simp_all add: fs_inv_def mounted_def)

lemma outcome [simp]:
  "fs_inv ev hv (w\<lparr>FSCache := C', host_state := d'\<rparr>) \<longleftrightarrow>
     mounted ev hv \<and> shared_locks w = 0 \<and> files_ok (FSConfig ev) hv C' d'"
  "store_of ev hv (w\<lparr>FSCache := C', host_state := d'\<rparr>) = \<lparr>vis = seen (FSConfig ev) hv C' d', dur = content hv d'\<rparr>"
  "fs_inv ev hv (w\<lparr>FSCache := C'\<rparr>) \<longleftrightarrow>
     mounted ev hv \<and> shared_locks w = 0 \<and> files_ok (FSConfig ev) hv C' (host_state w)"
  "store_of ev hv (w\<lparr>FSCache := C'\<rparr>) =
     \<lparr>vis = seen (FSConfig ev) hv C' (host_state w), dur = content hv (host_state w)\<rparr>"
  "fs_inv ev hv (w\<lparr>host_state := d'\<rparr>) \<longleftrightarrow>
     mounted ev hv \<and> shared_locks w = 0 \<and> files_ok (FSConfig ev) hv (FSCache w) d'"
  "store_of ev hv (w\<lparr>host_state := d'\<rparr>) = \<lparr>vis = seen (FSConfig ev) hv (FSCache w) d', dur = content hv d'\<rparr>"
  "vis (store_of ev hv w) = seen (FSConfig ev) hv (FSCache w) (host_state w)"
  "dur (store_of ev hv w) = content hv (host_state w)"
  by (simp_all add: fs_inv_def store_of_def)

lemma store_update [simp]:
  "(store_of ev hv w)\<lparr>vis := v, dur := k\<rparr> = \<lparr>vis = v, dur = k\<rparr>"
  "(store_of ev hv w)\<lparr>vis := v\<rparr> = \<lparr>vis = v, dur = content hv (host_state w)\<rparr>"
  "(store_of ev hv w)\<lparr>dur := k\<rparr> = \<lparr>vis = seen (FSConfig ev) hv (FSCache w) (host_state w), dur = k\<rparr>"
  by (simp_all add: store_of_def)

lemma store_of_parts: "store_of ev hv w = \<lparr>vis = seen (FSConfig ev) hv (FSCache w) (host_state w), dur = content hv (host_state w)\<rparr>"
  by (simp add: store_of_def)

section \<open>The operations on contents\<close>

lemma write_simulates:
  assumes inv: "fs_inv ev hv w" and o: "open_at hv path f i (host_state w)" and cm: "calm ev path w"
    and fits: "request_fits (FSConfig ev) offset buf"
    and run: "lfs_write ev path buf (int (length buf)) offset (Some f) w = Inr (r, w')"
  shows "simulates_op ev hv w (Write i offset buf) w'"
proof -
  note inv = fs_invD [OF inv]
  obtain C' d' where "w' = w\<lparr>FSCache := C', host_state := d'\<rparr>" "files_ok (FSConfig ev) hv C' d'"
    "seen (FSConfig ev) hv C' d' = (seen (FSConfig ev) hv (FSCache w) (host_state w))
       (i := file_write (seen (FSConfig ev) hv (FSCache w) (host_state w) i) offset buf)"
    "\<exists>disk'. content hv d' = (content hv (host_state w))(i := disk') \<and>
       torn offset buf (content hv (host_state w) i) disk'"
    using lfs_write_ok [OF inv(1) refl cm inv(2), of i f buf offset] o fits run
    unfolding open_at_def request_fits_def written_def by auto
  then show ?thesis using inv by auto
qed

lemma read_simulates:
  assumes inv: "fs_inv ev hv w" and o: "open_at hv path f i (host_state w)" and cm: "calm ev path w"
    and fits: "request_fits (FSConfig ev) offset buf"
    and aligned: "(offset + int (length buf)) mod IO_BLOCK_SIZE (FSConfig ev) = 0"
    and run: "lfs_read ev path buf (int (length buf)) offset (Some f) w = Inr ((r, buf'), w')"
  shows "simulates_op ev hv w (Read i offset (length buf) (take (nat r) buf')) w'"
proof -
  note inv = fs_invD [OF inv]
  define bytes where "bytes = take (length buf) (drop (nat offset) (seen (FSConfig ev) hv (FSCache w) (host_state w) i))"
  have B: "0 < IO_BLOCK_SIZE (FSConfig ev)" using single_blockD(3) [OF inv(4)] .
  have "room_to_clear (IO_BLOCK_SIZE (FSConfig ev)) (file_size hv (FSCache w) (host_state w) i) offset (int (length buf))"
    if "offset < file_size hv (FSCache w) (host_state w) i"
    by (intro aligned_room B that aligned)
  then obtain C' where "w' = w\<lparr>FSCache := C'\<rparr>" "files_ok (FSConfig ev) hv C' (host_state w)"
    "seen (FSConfig ev) hv C' (host_state w) = seen (FSConfig ev) hv (FSCache w) (host_state w)"
    "take (nat r) buf' = bytes"
    using lfs_read_ok [OF inv(1) refl cm inv(2), of i f buf offset] o fits run
    unfolding open_at_def request_fits_def bytes_def [symmetric] by auto
  then show ?thesis using inv by (simp add: bytes_def store_of_parts [of ev hv w])
qed

lemma truncate_simulates:
  assumes inv: "fs_inv ev hv w" and o: "open_at hv path f i (host_state w)" and cm: "calm ev path w"
    and u: "uninit_int ev \<noteq> - 1"
    and n: "file_size hv (FSCache w) (host_state w) i < n" "n - file_size hv (FSCache w) (host_state w) i < 2147483648"
      "n \<le> 2147483648 * IO_BLOCK_SIZE (FSConfig ev)"
    and run: "lfs_truncate ev path n (Some f) w = Inr (r, w')"
  shows "simulates_op ev hv w (Write i (file_size hv (FSCache w) (host_state w) i)
    (replicate (nat (n - file_size hv (FSCache w) (host_state w) i)) 0)) w'"
proof -
  note inv = fs_invD [OF inv]
  define V where "V = seen (FSConfig ev) hv (FSCache w) (host_state w) i"
  have V: "int (length V) = file_size hv (FSCache w) (host_state w) i"
    using file_size_seen [OF inv(2), of i] by (simp add: V_def)
  obtain C' d' where t: "lfs_truncate ev path n (Some f) w = Inr (0, w\<lparr>FSCache := C', host_state := d'\<rparr>)"
    "files_ok (FSConfig ev) hv C' d'"
    "seen (FSConfig ev) hv C' d' = (seen (FSConfig ev) hv (FSCache w) (host_state w))(i := file_resize V n)"
    "\<exists>disk'. content hv d' = (content hv (host_state w))(i := disk') \<and>
       torn (int (length V)) (replicate (nat (n - int (length V))) 0) (content hv (host_state w) i) disk'"
    unfolding V unfolding V_def by (rule lfs_truncate_grows [OF inv(1) cm inv(2) o u n])
  have "file_write V (int (length V)) (replicate (nat (n - int (length V))) 0) = file_resize V n"
    by (rule file_write_zeros) (use n(1) V in simp)
  then show ?thesis unfolding V [symmetric] using t run inv by (auto simp: V_def)
qed

lemma fsync_simulates:
  assumes inv: "fs_inv ev hv w" and p: "path_ino hv (host_state w) path = Some i" and cm: "calm ev path w"
    and run: "lfs_fsync ev path isdatasync fi w = Inr (r, w')"
  shows "simulates_op ev hv w (Sync {i}) w'"
proof -
  note inv = fs_invD [OF inv]
  obtain C' d' where "w' = (forgotten path w)\<lparr>FSCache := C', host_state := d'\<rparr>"
    "synced (FSConfig ev) hv i (FSCache w) (host_state w) C' d'"
    using lfs_fsync_ok [OF inv(1) refl cm inv(2) p, of isdatasync fi] run by auto
  then show ?thesis using inv by (auto simp: synced_def fun_upd_def)
qed

lemma checkpoint_simulates:
  assumes inv: "fs_inv ev hv w"
    and names: "\<And>p. fmlookup (file_inode_mapping (FSCache w)) p \<noteq> None \<Longrightarrow> path_ino hv (host_state w) p \<noteq> None"
    and I: "I = {i. \<exists>p. fmlookup (file_inode_mapping (FSCache w)) p \<noteq> None \<and> path_ino hv (host_state w) p = Some i}"
    and run: "command_checkpoint ev w = Inr (u, w')"
  shows "simulates_op ev hv w (Sync I) w'"
proof -
  note inv = fs_invD [OF inv]
  obtain C' d' where "w' = w\<lparr>FSCache := C', host_state := d'\<rparr>" "files_ok (FSConfig ev) hv C' d'"
    "seen (FSConfig ev) hv C' d' = seen (FSConfig ev) hv (FSCache w) (host_state w)"
    "content hv d' = (\<lambda>i. if i \<in> I then seen (FSConfig ev) hv (FSCache w) (host_state w) i else content hv (host_state w) i)"
    using command_checkpoint_ok [OF inv(1) refl inv(2,3) names] I run by auto
  then show ?thesis using inv by (simp cong: if_cong)
qed

lemma clear_simulates:
  assumes inv: "fs_inv ev hv w" and run: "command_fault_clear_cache ev w = Inr (u, w')"
  shows "simulates_op ev hv w (Lose UNIV) w'"
proof -
  note inv = fs_invD [OF inv]
  obtain C' where "w' = w\<lparr>FSCache := C'\<rparr>" "files_ok (FSConfig ev) hv C' (host_state w)"
    "seen (FSConfig ev) hv C' (host_state w) = content hv (host_state w)"
    using clear_cache_ok [OF inv(1) refl inv(2,3)] run by auto
  then show ?thesis using inv by simp
qed

lemma crash_simulates:
  assumes inv: "fs_inv ev hv w" and e: "new_engine (FSConfig ev) = Inr e" and d: "content hv d = content hv (host_state w)"
  shows "simulates_op ev hv w (Lose UNIV) (new_lazyfs (new_cache e) fs d)"
  using mount_anew [OF fs_invD(4) [OF inv] e, of hv d] fs_invD(1) [OF inv] d
  by (simp add: fs_inv_def store_of_parts [of ev hv "new_lazyfs (new_cache e) fs d"])
    (simp add: new_lazyfs_def Let_def)

section \<open>The operations on names and attributes\<close>

lemma getattr_simulates:
  assumes inv: "fs_inv ev hv w" and p: "path_ino hv (host_state w) path = Some i"
    and run: "lfs_getattr ev path w = Inr (st, w')"
  shows "simulates_op ev hv w (Lose {}) w'"
proof -
  note inv = fs_invD [OF inv]
  obtain C' where "w' = w\<lparr>FSCache := C'\<rparr>" "files_ok (FSConfig ev) hv C' (host_state w)"
    "seen (FSConfig ev) hv C' (host_state w) = seen (FSConfig ev) hv (FSCache w) (host_state w)"
    using getattr_ok [OF inv(1,2) p] run by auto
  then show ?thesis using inv by simp
qed

lemma open_simulates:
  assumes inv: "fs_inv ev hv w" and p: "path_ino hv (host_state w) path = Some i" and cm: "calm ev path w"
    and fl: "fi_flags f \<in> {O_RDONLY, O_WRONLY, O_RDWR}" and run: "lfs_open ev path f w = Inr (st, w')"
  shows "simulates_op ev hv w (Lose {}) w'"
proof -
  note inv = fs_invD [OF inv]
  obtain C' d' where "w' = w\<lparr>FSCache := C', host_state := d'\<rparr>" "files_ok (FSConfig ev) hv C' d'"
    "seen (FSConfig ev) hv C' d' = seen (FSConfig ev) hv (FSCache w) (host_state w)" "content hv d' = content hv (host_state w)"
    using lfs_open_ok [OF inv(1) refl cm inv(2) p fl] run by auto
  then show ?thesis using inv by simp
qed

lemma create_simulates:
  assumes inv: "fs_inv ev hv w" and cm: "calm ev path w"
    and fresh: "fst (os_lstat (eos ev) path (host_state w)) = - 1" "fmlookup (file_inode_mapping (FSCache w)) path = None"
    and fl: "has_flag (fi_flags f) O_CREAT"
    and os: "os_open (eos ev) path (fi_flags f) mode (host_state w) = (fd, d)" "0 < fd"
    and ino: "path_ino hv d path = Some i" "fmlookup (contents (FSCache w)) (to_string i) = None"
    and run: "lfs_create ev path mode f w = Inr (st, w')"
  shows "simulates_op ev hv w (Create i) w'"
proof -
  note inv = fs_invD [OF inv]
  obtain C' where "w' = w\<lparr>FSCache := C', host_state := d\<rparr>" "files_ok (FSConfig ev) hv C' d"
    "seen (FSConfig ev) hv C' d = (seen (FSConfig ev) hv (FSCache w) (host_state w))(i := [])"
    "content hv d = (content hv (host_state w))(i := [])"
    using lfs_create_ok [OF inv(1) refl cm inv(2) fresh fl os ino] run by auto
  then show ?thesis using inv by simp
qed

lemma link_simulates:
  assumes inv: "fs_inv ev hv w" and p: "path_ino hv (host_state w) from = Some i"
    and cm: "calm_between ev ''link'' from to w"
    and known: "fmlookup (file_inode_mapping (FSCache w)) from \<noteq> None"
    and res: "fst (os_link (eos ev) from to (host_state w)) \<noteq> - 1"
    and run: "lfs_link ev from to w = Inr (r, w')"
  shows "simulates_op ev hv w (Lose {}) w'"
proof -
  note inv = fs_invD [OF inv]
  obtain C' d' where "w' = w\<lparr>FSCache := C', host_state := d'\<rparr>" "files_ok (FSConfig ev) hv C' d'"
    "seen (FSConfig ev) hv C' d' = seen (FSConfig ev) hv (FSCache w) (host_state w)" "content hv d' = content hv (host_state w)"
    using lfs_link_ok [OF inv(1) refl cm inv(2) p known res] run by auto
  then show ?thesis using inv by simp
qed

lemma rename_simulates:
  assumes inv: "fs_inv ev hv w"
    and p: "path_ino hv (host_state w) from = Some i" "path_ino hv (host_state w) to \<noteq> Some i"
    and cm: "calm_between ev ''rename'' from to w"
    and known: "fmlookup (file_inode_mapping (FSCache w)) from \<noteq> None"
    and res: "fst (os_rename (eos ev) from to (host_state w)) \<noteq> - 1"
    and run: "lfs_rename ev from to 0 w = Inr (r, w')"
  shows "simulates_op ev hv w (Lose (unlinked (FSCache w) (displaced to (file_inode_mapping (FSCache w))))) w'"
proof -
  note inv = fs_invD [OF inv]
  obtain C' d' where "w' = w\<lparr>FSCache := C', host_state := d'\<rparr>" "files_ok (FSConfig ev) hv C' d'"
    "seen (FSConfig ev) hv C' d' = (\<lambda>j. if j \<in> unlinked (FSCache w) (displaced to (file_inode_mapping (FSCache w)))
       then content hv (host_state w) j else seen (FSConfig ev) hv (FSCache w) (host_state w) j)"
    "content hv d' = content hv (host_state w)"
    using lfs_rename_ok [OF inv(1) refl cm inv(2) p known res] run by auto
  then show ?thesis using inv by (simp cong: if_cong)
qed

lemma unlink_simulates:
  assumes inv: "fs_inv ev hv w" and p: "path_ino hv (host_state w) path = Some i" and cm: "calm ev path w"
    and known: "fmlookup (file_inode_mapping (FSCache w)) path \<noteq> None"
    and res: "fst (os_unlink (eos ev) path (host_state w)) \<noteq> - 1"
    and run: "lfs_unlink ev path w = Inr (r, w')"
  shows "simulates_op ev hv w (Lose (unlinked (FSCache w) (to_string i))) w'"
proof -
  note inv = fs_invD [OF inv]
  obtain C' d' where "w' = w\<lparr>FSCache := C', host_state := d'\<rparr>" "files_ok (FSConfig ev) hv C' d'"
    "seen (FSConfig ev) hv C' d' = (\<lambda>j. if j \<in> unlinked (FSCache w) (to_string i)
       then content hv (host_state w) j else seen (FSConfig ev) hv (FSCache w) (host_state w) j)"
    "content hv d' = content hv (host_state w)"
    using lfs_unlink_ok [OF inv(1) refl cm inv(2) p known res] run by auto
  then show ?thesis using inv by (simp cong: if_cong)
qed

lemma left_alone:
  assumes inv: "fs_inv ev hv w" and "content hv d' = content hv (host_state w)" and "path_ino hv d' = path_ino hv (host_state w)"
  shows "simulates_op ev hv w (Lose {}) (w\<lparr>host_state := d'\<rparr>)"
  using fs_invD [OF inv] files_ok_host [OF assms(2,3), of "FSConfig ev" "FSCache w"] assms(2)
  by (simp add: store_of_parts [of ev hv w])

lemma release_simulates:
  assumes inv: "fs_inv ev hv w" and run: "lfs_release ev f w = Inr (r, w')"
  shows "simulates_op ev hv w (Lose {}) w'"
proof -
  have law: "close_law (eos ev) hv" using fs_invD(1) [OF inv] host_lawsD(2) by (auto simp: mounted_def)
  have w': "w' = w\<lparr>host_state := os_close (eos ev) (fh f) (host_state w)\<rparr>"
    using run by (cases w) (simp add: lfs_release_def with_shared_lock_def)
  show ?thesis unfolding w' by (rule left_alone [OF inv]) (use law in \<open>simp_all add: close_law_def\<close>)
qed

lemma unchanged_simulates:
  assumes "fs_inv ev hv w" and "w' = w\<lparr>host_state := d'\<rparr>" and "unchanged hv (host_state w) d'"
  shows "simulates_op ev hv w (Lose {}) w'"
  unfolding assms(2) by (rule left_alone [OF assms(1)]) (use assms(3) in \<open>simp_all add: unchanged_def\<close>)

lemma attribute_simulates:
  assumes inv: "fs_inv ev hv w"
    and run: "lfs_mkdir ev path mode w = Inr (r, w') \<or> lfs_rmdir ev path w = Inr (r, w') \<or>
     lfs_chmod ev path mode w = Inr (r, w') \<or> lfs_chown ev path uid gid w = Inr (r, w') \<or>
     lfs_utimens ev path t0 t1 w = Inr (r, w')"
  shows "simulates_op ev hv w (Lose {}) w'"
proof -
  obtain d' where d': "w' = w\<lparr>host_state := d'\<rparr>" "unchanged hv (host_state w) d'"
    using attribute_call [OF fs_invD(1) [OF inv] run] by blast
  show ?thesis by (rule unchanged_simulates [OF inv d'])
qed

lemma symlink_simulates:
  assumes inv: "fs_inv ev hv w" and cm: "calm_between ev ''symlink'' from to w"
    and run: "lfs_symlink ev from to w = Inr (r, w')"
  shows "simulates_op ev hv w (Lose {}) w'"
proof -
  obtain d' where d': "w' = w\<lparr>host_state := d'\<rparr>" "unchanged hv (host_state w) d'"
    using attribute_calls_between(1) [OF fs_invD(1) [OF inv] cm] run by auto
  show ?thesis by (rule unchanged_simulates [OF inv d'])
qed

lemma access_simulates:
  assumes inv: "fs_inv ev hv w" and cm: "calm ev path w" and run: "lfs_access ev path mode w = Inr (r, w')"
  shows "simulates_op ev hv w (Lose {}) w'"
proof -
  obtain d' where d': "w' = w\<lparr>host_state := d'\<rparr>" "unchanged hv (host_state w) d'"
    using attribute_calls_between(2) [OF fs_invD(1) [OF inv] cm, of mode] run by auto
  show ?thesis by (rule unchanged_simulates [OF inv d'])
qed

section \<open>The file system implements the store, step by step\<close>

lemma fs_step_simulates:
  assumes inv: "fs_inv ev hv w" and step: "fs_step ev hv w op w'"
  shows "simulates_op ev hv w op w'"
  using step
proof (cases rule: fs_step.cases)
  case fs_write
  then show ?thesis using write_simulates [OF inv fs_write(2-5)] by simp
next
  case fs_read
  then show ?thesis using read_simulates [OF inv fs_read(2-6)] by simp
next
  case fs_fsync
  then show ?thesis using fsync_simulates [OF inv fs_fsync(2-4)] by simp
next
  case fs_checkpoint
  then show ?thesis using checkpoint_simulates [OF inv fs_checkpoint(2-4)] by simp
next
  case fs_clear
  then show ?thesis using clear_simulates [OF inv fs_clear(2)] by simp
next
  case fs_crash
  then show ?thesis using crash_simulates [OF inv fs_crash(3-4)] by simp
next
  case fs_truncate
  then show ?thesis using truncate_simulates [OF inv fs_truncate(2-4)] by simp
next
  case fs_getattr
  then show ?thesis using getattr_simulates [OF inv fs_getattr(2-3)] by simp
next
  case fs_open
  then show ?thesis using open_simulates [OF inv fs_open(2-5)] by simp
next
  case fs_release
  then show ?thesis using release_simulates [OF inv fs_release(2)] by simp
next
  case fs_attributes
  then show ?thesis using attribute_simulates [OF inv fs_attributes(2)] by simp
next
  case fs_symlink
  then show ?thesis using symlink_simulates [OF inv fs_symlink(2-3)] by simp
next
  case fs_access
  then show ?thesis using access_simulates [OF inv fs_access(2-3)] by simp
next
  case fs_link
  then show ?thesis using link_simulates [OF inv fs_link(2-6)] by simp
next
  case fs_rename
  then show ?thesis using rename_simulates [OF inv fs_rename(2-7)] by simp
next
  case fs_unlink
  then show ?thesis using unlink_simulates [OF inv fs_unlink(2-6)] by simp
next
  case fs_create
  then show ?thesis using create_simulates [OF inv fs_create(3,2,4-10)] by simp
qed

interpretation fs: implements_store "fs_step ev hv" "fs_inv ev hv" "store_of ev hv" for ev hv
proof
  show "fs_inv ev hv s'" if "fs_inv ev hv s" "fs_step ev hv s op s'" for s op s'
    using fs_step_simulates [OF that] by simp
  show "store_step (store_of ev hv s) op (store_of ev hv s')" if "fs_inv ev hv s" "fs_step ev hv s op s'" for s op s'
    using fs_step_simulates [OF that] by simp
qed

end
