(* ===== verification/Fs_Theorems.thy ===== *)
theory Fs_Theorems
  imports Fs_Spec Worker
begin

text \<open>
  The properties of the mounted file system: crash consistency, refinement of the abstract store,
  reads that see all writes, requests that complete, and what the single handlers do. The
  witnesses run the handlers of the model on a small host with one open file.
\<close>


section \<open>Requests on an open file\<close>

datatype request =
    Req_write int "byte list"
  | Req_read int "byte list"
  | Req_fsync bool
  | Req_clear

definition perform ::
  "(engine, 'd) env \<Rightarrow> string \<Rightarrow> fuse_file_info \<Rightarrow> request \<Rightarrow> (engine, 'd) world \<Rightarrow> 'd stop + (engine, 'd) world"
  where
  "perform ev path f req w =
     (case req of
        Req_write offset buf \<Rightarrow>
          bnd (lfs_write ev path buf (int (length buf)) offset (Some f) w) (\<lambda>(_, w). Inr w)
      | Req_read offset buf \<Rightarrow>
          bnd (lfs_read ev path buf (int (length buf)) offset (Some f) w) (\<lambda>(_, w). Inr w)
      | Req_fsync isdatasync \<Rightarrow> bnd (lfs_fsync ev path isdatasync (Some f) w) (\<lambda>(_, w). Inr w)
      | Req_clear \<Rightarrow> bnd (command_fault_clear_cache ev w) (\<lambda>(_, w). Inr w))"

fun allowed :: "config \<Rightarrow> request \<Rightarrow> bool" where
  "allowed c (Req_write offset buf) \<longleftrightarrow> request_fits c offset buf"
| "allowed c (Req_read offset buf) \<longleftrightarrow> request_fits c offset buf \<and> (offset + int (length buf)) mod IO_BLOCK_SIZE c = 0"
| "allowed c (Req_fsync isdatasync) \<longleftrightarrow> True"
| "allowed c Req_clear \<longleftrightarrow> True"

fun answers :: "int \<Rightarrow> request \<Rightarrow> store_op \<Rightarrow> bool" where
  "answers i (Req_write offset buf) op \<longleftrightarrow> op = Write i offset buf"
| "answers i (Req_read offset buf) op \<longleftrightarrow> (\<exists>bs. op = Read i offset (length buf) bs)"
| "answers i (Req_fsync isdatasync) op \<longleftrightarrow> op = Sync {i}"
| "answers i Req_clear op \<longleftrightarrow> op = Lose UNIV"

text \<open>A file that is open and that no fault concerns.\<close>

definition serving :: "(engine, 'd) env \<Rightarrow> 'd view \<Rightarrow> string \<Rightarrow> fuse_file_info \<Rightarrow> int \<Rightarrow> (engine, 'd) world \<Rightarrow> bool" where
  "serving ev hv path f i w \<longleftrightarrow> fs_inv ev hv w \<and> calm ev path w \<and> open_at hv path f i (host_state w)"

lemma servingD:
  assumes "serving ev hv path f i w"
  shows "mounted ev hv" "shared_locks w = 0" "files_ok (FSConfig ev) hv (FSCache w) (host_state w)"
    "calm ev path w" "path_ino hv (host_state w) path = Some i" "fd_ino hv (host_state w) (fh f) = Some i"
    "0 < fh f" "\<not> direct_io f" "fs_inv ev hv w" "open_at hv path f i (host_state w)"
  using assms by (simp_all add: serving_def fs_inv_def open_at_def)

lemma perform_ok:
  assumes s: "serving ev hv path f i w" and a: "allowed (FSConfig ev) req"
  shows "\<exists>op w'. perform ev path f req w = Inr w' \<and> answers i req op \<and> fs_step ev hv w op w' \<and> serving ev hv path f i w'"
proof -
  note S = servingD [OF s]
  have B: "0 < IO_BLOCK_SIZE (FSConfig ev)" using S(1) single_blockD(3) by (auto simp: mounted_def)
  show ?thesis
  proof (cases req)
    case (Req_write offset buf)
    have fits: "buf \<noteq> []" "length buf < 2147483648" "0 \<le> offset"
      "offset + int (length buf) \<le> 2147483648 * IO_BLOCK_SIZE (FSConfig ev)"
      using a Req_write by (simp_all add: request_fits_def)
    obtain C' d' where r: "lfs_write ev path buf (int (length buf)) offset (Some f) w =
        Inr (int (length buf), w\<lparr>FSCache := C', host_state := d'\<rparr>)"
      "path_ino hv d' = path_ino hv (host_state w)" "fd_ino hv d' = fd_ino hv (host_state w)"
      using lfs_write_ok [OF S(1) refl S(4,3,5,6) _ S(8) fits] S(7) unfolding written_def by auto
    have st: "fs_step ev hv w (Write i offset buf) (w\<lparr>FSCache := C', host_state := d'\<rparr>)"
      by (rule fs_step.fs_write [OF S(10,4) _ r(1)]) (use a Req_write in simp)
    then have "serving ev hv path f i (w\<lparr>FSCache := C', host_state := d'\<rparr>)"
      using fs.keeps [OF S(9) st] S(4,10) r(2,3) by (simp add: serving_def open_at_def)
    then show ?thesis using st r(1) by (intro exI) (auto simp: perform_def Req_write)
  next
    case (Req_read offset buf)
    have fits: "buf \<noteq> []" "length buf < 2147483648" "0 \<le> offset"
      "offset + int (length buf) \<le> 2147483648 * IO_BLOCK_SIZE (FSConfig ev)"
      "request_fits (FSConfig ev) offset buf"
      "(offset + int (length buf)) mod IO_BLOCK_SIZE (FSConfig ev) = 0"
      using a Req_read by (simp_all add: request_fits_def)
    obtain n buf' C' where r: "lfs_read ev path buf (int (length buf)) offset (Some f) w =
        Inr ((n, buf'), w\<lparr>FSCache := C'\<rparr>)"
      using lfs_read_ok [OF S(1) refl S(4,3,5,6,7) fits(1-4) aligned_room [OF B fits(6)]] by blast
    note st = fs_step.fs_read [OF S(10,4) fits(5,6) r]
    have "serving ev hv path f i (w\<lparr>FSCache := C'\<rparr>)"
      using fs.keeps [OF S(9) st] S(4,10) by (simp add: serving_def)
    then show ?thesis using st r by (intro exI) (auto simp: perform_def Req_read)
  next
    case (Req_fsync isdatasync)
    obtain C' d' where r: "lfs_fsync ev path isdatasync (Some f) w =
        Inr (0, (forgotten path w)\<lparr>FSCache := C', host_state := d'\<rparr>)"
      "path_ino hv d' = path_ino hv (host_state w)" "fd_ino hv d' = fd_ino hv (host_state w)"
      using lfs_fsync_ok [OF S(1) refl S(4,3,5)] unfolding synced_def by blast
    note st = fs_step.fs_fsync [OF S(5,4) r(1)]
    have "serving ev hv path f i ((forgotten path w)\<lparr>FSCache := C', host_state := d'\<rparr>)"
      using fs.keeps [OF S(9) st] S(4,10) r(2,3) by (simp add: serving_def open_at_def)
    then show ?thesis using st r(1) by (intro exI) (auto simp: perform_def Req_fsync)
  next
    case Req_clear
    obtain C' where r: "command_fault_clear_cache ev w = Inr ((), w\<lparr>FSCache := C'\<rparr>)"
      using clear_cache_ok [OF S(1) refl S(3,2)] by blast
    note st = fs_step.fs_clear [where hv = hv, OF r]
    have "serving ev hv path f i (w\<lparr>FSCache := C'\<rparr>)"
      using fs.keeps [OF S(9) st] S(4,10) by (simp add: serving_def)
    then show ?thesis using st r by (intro exI) (auto simp: perform_def Req_clear)
  qed
qed

lemma perform_all:
  assumes "serving ev hv path f i w" and "\<forall>req \<in> set reqs. allowed (FSConfig ev) req"
  shows "\<exists>ops w'. foldE (perform ev path f) reqs w = Inr w' \<and> list_all2 (answers i) reqs ops \<and>
    runs (fs_step ev hv) w ops w' \<and> serving ev hv path f i w'"
  using assms
proof (induction reqs arbitrary: w)
  case Nil
  then show ?case by (intro exI [of _ "[]"]) auto
next
  case (Cons req reqs)
  obtain op w1 where 1: "perform ev path f req w = Inr w1" "answers i req op" "fs_step ev hv w op w1"
    "serving ev hv path f i w1"
    using perform_ok [OF Cons.prems(1), of req] Cons.prems(2) by auto
  obtain ops w' where 2: "foldE (perform ev path f) reqs w1 = Inr w'" "list_all2 (answers i) reqs ops"
    "runs (fs_step ev hv) w1 ops w'" "serving ev hv path f i w'"
    using Cons.IH [OF 1(4)] Cons.prems(2) by auto
  show ?case using 1 2 by (intro exI [of _ "op # ops"] exI [of _ w']) auto
qed

section \<open>A file system to try it on\<close>

definition demo_env :: "(engine, mem_host) env" where
  "demo_env = start_environment mem_os (\<lambda>_ _. False) (\<lambda>_. True) 0 default_config"

definition demo_disk :: mem_host where
  "demo_disk = \<lparr>mh_paths = fmupd ''/f'' 7 fmempty, mh_files = fmupd 7 [9, 9] fmempty,
     mh_fds = fmupd 3 7 fmempty, mh_next = 4\<rparr>"

definition demo_fd :: fuse_file_info where
  "demo_fd = \<lparr>fh = 3, fi_flags = 2, direct_io = False\<rparr>"

lemma demo_mounted: "mounted demo_env mem_view"
  using mem_host_laws single_block_default by (simp add: mounted_def demo_env_def start_environment_def)

lemma demo_config [simp]: "FSConfig demo_env = default_config" "eos demo_env = mem_os"
  by (simp_all add: demo_env_def start_environment_def)

lemma no_faults_lookup:
  "fmlookup (fold (\<lambda>op. fmins op []) ops m) op =
    (if op \<in> set ops \<and> fmlookup m op = None then Some [] else fmlookup m op)"
  by (induction ops arbitrary: m) (auto simp: fmlookup_fmins split: option.splits)

lemma calm_new:
  assumes "fmlookup fs path = None"
  shows "calm ev path (new_lazyfs C fs d)"
  using assms by (simp add: calm_def no_crash_for_def new_lazyfs_def Let_def no_faults_lookup)

lemma demo_serving:
  obtains e where "new_engine default_config = Inr e" "0 < CACHE_NR_PAGES default_config"
    "nfree (cengine (new_cache e)) = nat (CACHE_NR_PAGES default_config)"
    "serving demo_env mem_view ''/f'' demo_fd 7 (new_lazyfs (new_cache e) fmempty demo_disk)"
    "seen default_config mem_view (new_cache e) demo_disk 7 = [9, 9]"
    "content mem_view demo_disk 7 = [9, 9]"
proof -
  obtain e where e: "new_engine default_config = Inr e"
    "nfree e = nat (CACHE_NR_PAGES default_config)"
    by (rule new_cache_ok [OF single_block_default])
  have k: "content mem_view demo_disk 7 = [9, 9]"
    by (simp add: mem_view_def demo_disk_def mh_content_def)
  have "open_at mem_view ''/f'' demo_fd 7 demo_disk"
    by (simp add: open_at_def mem_view_def demo_disk_def demo_fd_def)
  then have "serving demo_env mem_view ''/f'' demo_fd 7 (new_lazyfs (new_cache e) fmempty demo_disk)"
    using mount_anew [OF single_block_default e(1), of mem_view demo_disk] demo_mounted
    by (simp add: serving_def fs_inv_def calm_new) (simp add: new_lazyfs_def Let_def)
  then show thesis
    using that [OF e(1)] e(2) mount_anew(2) [OF single_block_default e(1), of mem_view demo_disk] k
    by (simp add: new_cache_def default_config_def)
qed


lemma demo_requests:
  assumes "\<forall>req \<in> set reqs. allowed default_config req"
  obtains e ops w' where "serving demo_env mem_view ''/f'' demo_fd 7 (new_lazyfs (new_cache e) fmempty demo_disk)"
    "foldE (perform demo_env ''/f'' demo_fd) reqs (new_lazyfs (new_cache e) fmempty demo_disk) = Inr w'"
    "list_all2 (answers 7) reqs ops"
    "runs (fs_step demo_env mem_view) (new_lazyfs (new_cache e) fmempty demo_disk) ops w'"
    "seen default_config mem_view (new_cache e) demo_disk 7 = [9, 9]"
proof -
  obtain e where e: "serving demo_env mem_view ''/f'' demo_fd 7 (new_lazyfs (new_cache e) fmempty demo_disk)"
    "seen default_config mem_view (new_cache e) demo_disk 7 = [9, 9]"
    by (rule demo_serving)
  from perform_all [OF e(1), of reqs] assms obtain ops w' where
    "foldE (perform demo_env ''/f'' demo_fd) reqs (new_lazyfs (new_cache e) fmempty demo_disk) = Inr w'"
    "list_all2 (answers 7) reqs ops"
    "runs (fs_step demo_env mem_view) (new_lazyfs (new_cache e) fmempty demo_disk) ops w'" by auto
  with e show thesis using that by blast
qed

lemma demo_fits [simp]:
  "request_fits default_config 0 [a]" "request_fits default_config 0 [a, b]" "request_fits default_config 1 [a, b]"
  "request_fits default_config 0 (replicate 4096 a)"
  by (simp_all add: request_fits_def default_config_def)

lemma demo_block [simp]: "IO_BLOCK_SIZE default_config = 4096"
  by (simp add: default_config_def)

lemma demo_start [simp]:
  "FSCache (new_lazyfs C fs d) = C" "host_state (new_lazyfs C fs d) = d" "shared_locks (new_lazyfs C fs d) = 0"
  by (simp_all add: new_lazyfs_def Let_def)

section \<open>The properties\<close>

text \<open>
  C1. Crash consistency. Take any sequence of operations of a mounted file system (writes, reads,
  growing truncates, syncs, checkpoints, opening, creating, renaming, linking and removing of
  files, directories and attributes) in which a sync of a file is followed by no other sync of it
  and then by a loss of its cached changes: a crash, a clearing of the cache, or the removal of
  its last name. Afterwards the file is at least as long as it was at the sync, and every byte of
  it is either the one all writes before the sync had put there or one that a write since the
  sync has put there; nothing synced is lost and nothing is made up.
\<close>

theorem crash_consistency:
  assumes "fs_inv ev hv w" and "runs (fs_step ev hv) w (before @ [Sync I] @ after @ [Lose L]) w'"
    and "i \<in> I" and "i \<in> L" and "\<forall>op \<in> set before. \<not> loses i op" and "\<forall>op \<in> set after. \<not> syncs i op"
  shows "traced (writes_to i after)
    (fold (\<lambda>(off, bs) V. file_write V off bs) (writes_to i before)
       (seen (FSConfig ev) hv (FSCache w) (host_state w) i))
    (seen (FSConfig ev) hv (FSCache w') (host_state w') i)"
  using fs.crash_consistent [OF assms(2,1,3-6)] by (simp add: store_of_def)

theorem crash_consistency_witness:
  "\<exists>w w'. runs (fs_step demo_env mem_view) w
       ([Write 7 0 [1]] @ [Sync {7}] @ [Write 7 1 [5, 6]] @ [Lose UNIV]) w' \<and>
     traced [(1, [5, 6])] [1, 9] (seen default_config mem_view (FSCache w') (host_state w') 7)"
proof -
  obtain e ops w' where d: "serving demo_env mem_view ''/f'' demo_fd 7 (new_lazyfs (new_cache e) fmempty demo_disk)"
    "list_all2 (answers 7) [Req_write 0 [1], Req_fsync False, Req_write 1 [5, 6], Req_clear] ops"
    "runs (fs_step demo_env mem_view) (new_lazyfs (new_cache e) fmempty demo_disk) ops w'"
    "seen default_config mem_view (new_cache e) demo_disk 7 = [9, 9]"
    by (rule demo_requests [of "[Req_write 0 [1], Req_fsync False, Req_write 1 [5, 6], Req_clear]"]) auto
  have ops: "ops = [Write 7 0 [1]] @ [Sync {7}] @ [Write 7 1 [5, 6]] @ [Lose UNIV]"
    using d(2) by (auto simp: list_all2_Cons1)
  have "traced (writes_to 7 [Write 7 1 [5, 6]])
      (fold (\<lambda>(off, bs) V. file_write V off bs) (writes_to 7 [Write 7 0 [1]])
        (seen (FSConfig demo_env) mem_view (FSCache (new_lazyfs (new_cache e) fmempty demo_disk))
          (host_state (new_lazyfs (new_cache e) fmempty demo_disk)) 7))
      (seen (FSConfig demo_env) mem_view (FSCache w') (host_state w') 7)"
    by (rule crash_consistency [OF servingD(9) [OF d(1)] d(3) [unfolded ops]]) auto
  then have "traced [(1, [5, 6])] [1, 9] (seen default_config mem_view (FSCache w') (host_state w') 7)"
    by (simp add: d(4) file_write_def)
  then show ?thesis using d(3) unfolding ops by blast
qed

text \<open>
  C2. Refinement. Every step of the file system is a step of the abstract store of visible and
  durable contents, and keeps the invariant of the mounted file system. The steps are the
  handlers for writing, reading, growing, syncing, opening, closing, creating, renaming, linking
  and removing files, for their attributes, directories and symbolic links, the checkpoint, the
  clearing of the cache, and a crash with a new mount.
\<close>

theorem file_system_refines_store:
  assumes "fs_inv ev hv w" and "fs_step ev hv w op w'"
  shows "fs_inv ev hv w' \<and> store_step (store_of ev hv w) op (store_of ev hv w')"
  by (rule conjI [OF fs.keeps [OF assms] fs.simulates [OF assms]])

theorem file_system_refines_store_witness:
  "\<exists>w w'. fs_inv demo_env mem_view w \<and> fs_step demo_env mem_view w (Write 7 1 [5, 6]) w' \<and>
     vis (store_of demo_env mem_view w') 7 = [9, 5, 6]"
proof -
  obtain e ops w' where d: "serving demo_env mem_view ''/f'' demo_fd 7 (new_lazyfs (new_cache e) fmempty demo_disk)"
    "list_all2 (answers 7) [Req_write 1 [5, 6]] ops"
    "runs (fs_step demo_env mem_view) (new_lazyfs (new_cache e) fmempty demo_disk) ops w'"
    "seen default_config mem_view (new_cache e) demo_disk 7 = [9, 9]"
    by (rule demo_requests [of "[Req_write 1 [5, 6]]"]) auto
  have st: "fs_step demo_env mem_view (new_lazyfs (new_cache e) fmempty demo_disk) (Write 7 1 [5, 6]) w'"
    using d(2,3) by (auto simp: list_all2_Cons1)
  from file_system_refines_store [OF servingD(9) [OF d(1)] st]
  have "vis (store_of demo_env mem_view w') 7 = [9, 5, 6]"
    using d(4) by (auto simp: store_of_def file_write_def)
  then show ?thesis using st servingD(9) [OF d(1)] by blast
qed

text \<open>
  C3. Readers see every write. As long as the cache is not lost, a read of a file returns the
  bytes that all writes to it so far, applied in their order to what it contained, have left at
  the place read, whichever blocks are cached.
\<close>

theorem reads_see_all_writes:
  assumes "fs_inv ev hv w" and "runs (fs_step ev hv) w (ops @ [Read i off n bs]) w'" and "\<forall>op \<in> set ops. \<not> loses i op"
  shows "bs = take n (drop (nat off) (fold (\<lambda>(off, bs) V. file_write V off bs) (writes_to i ops)
    (seen (FSConfig ev) hv (FSCache w) (host_state w) i)))"
  using fs.reads_written [OF assms(2,1,3)] by (simp add: store_of_def)

theorem reads_see_all_writes_witness:
  "\<exists>w w'. runs (fs_step demo_env mem_view) w
     ([Write 7 1 [5, 6], Write 7 0 [1]] @ [Read 7 0 4096 [1, 5, 6]]) w'"
proof -
  let ?reqs = "[Req_write 1 [5, 6], Req_write 0 [1], Req_read 0 (replicate 4096 0)]"
  obtain e ops w' where d: "serving demo_env mem_view ''/f'' demo_fd 7 (new_lazyfs (new_cache e) fmempty demo_disk)"
    "list_all2 (answers 7) ?reqs ops"
    "runs (fs_step demo_env mem_view) (new_lazyfs (new_cache e) fmempty demo_disk) ops w'"
    "seen default_config mem_view (new_cache e) demo_disk 7 = [9, 9]"
    by (rule demo_requests [of ?reqs]) auto
  obtain bs where ops: "ops = [Write 7 1 [5, 6], Write 7 0 [1]] @ [Read 7 0 4096 bs]"
    using d(2) by (auto simp: list_all2_Cons1)
  have "bs = take 4096 (drop (nat 0) (fold (\<lambda>(off, bs) V. file_write V off bs)
      (writes_to 7 [Write 7 1 [5, 6], Write 7 0 [1]])
      (seen (FSConfig demo_env) mem_view (FSCache (new_lazyfs (new_cache e) fmempty demo_disk))
        (host_state (new_lazyfs (new_cache e) fmempty demo_disk)) 7)))"
    by (rule reads_see_all_writes [OF servingD(9) [OF d(1)] d(3) [unfolded ops]]) auto
  then have "bs = [1, 5, 6]" by (simp add: d(4) file_write_def)
  then show ?thesis using d(3) unfolding ops by blast
qed

text \<open>
  C4. Requests complete. Take any sequence of writes, fsyncs, cache clears, and reads that end at a
  block boundary, as those the kernel makes for its page cache do, of an open file no fault
  concerns; no request is empty or has 2 GiB or more. It runs to its end: no operation deadlocks,
  accesses memory out of bounds or stops the process, each does what it was asked for, and the file
  system is ready for more. Reads that end elsewhere are left out because copying a cached block
  to the reader can then clear memory past the end of its buffer.
\<close>

theorem requests_complete:
  assumes "serving ev hv path f i w" and "\<forall>req \<in> set reqs. allowed (FSConfig ev) req"
  shows "\<exists>ops w'. foldE (perform ev path f) reqs w = Inr w' \<and> list_all2 (answers i) reqs ops \<and>
    runs (fs_step ev hv) w ops w' \<and> serving ev hv path f i w'"
  by (rule perform_all [OF assms])

theorem requests_complete_witness:
  "\<exists>w w'. foldE (perform demo_env ''/f'' demo_fd)
     [Req_write 1 [5, 6], Req_fsync True, Req_read 0 (replicate 4096 0), Req_clear] w = Inr w'"
proof -
  let ?reqs = "[Req_write 1 [5, 6], Req_fsync True, Req_read 0 (replicate 4096 0), Req_clear]"
  obtain e where s: "serving demo_env mem_view ''/f'' demo_fd 7 (new_lazyfs (new_cache e) fmempty demo_disk)"
    by (rule demo_serving)
  have "\<forall>req \<in> set ?reqs. allowed (FSConfig demo_env) req" by auto
  from requests_complete [OF s this] show ?thesis by blast
qed

section \<open>Single handlers\<close>

lemma open_file_write:
  assumes "mounted ev hv" and "calm ev path w" and "files_ok (FSConfig ev) hv (FSCache w) (host_state w)"
    and "open_at hv path f i (host_state w)" and "request_fits (FSConfig ev) offset buf"
  shows "\<exists>C' d'. lfs_write ev path buf (int (length buf)) offset (Some f) w =
      Inr (int (length buf), w\<lparr>FSCache := C', host_state := d'\<rparr>) \<and>
    files_ok (FSConfig ev) hv C' d' \<and>
    seen (FSConfig ev) hv C' d' = (seen (FSConfig ev) hv (FSCache w) (host_state w))
      (i := file_write (seen (FSConfig ev) hv (FSCache w) (host_state w) i) offset buf) \<and>
    (\<forall>j. j \<noteq> i \<longrightarrow> content hv d' j = content hv (host_state w) j) \<and>
    torn offset buf (content hv (host_state w) i) (content hv d' i) \<and>
    (gap_span (IO_BLOCK_SIZE (FSConfig ev)) (file_size hv (FSCache w) (host_state w) i) offset +
       block_span (IO_BLOCK_SIZE (FSConfig ev)) offset (int (length buf)) \<le> nfree (cengine (FSCache w)) \<longrightarrow>
     content hv d' = content hv (host_state w))"
proof -
  have o: "path_ino hv (host_state w) path = Some i" "fd_ino hv (host_state w) (fh f) = Some i"
    "fh f \<noteq> - 1" "\<not> direct_io f" using assms(4) by (auto simp: open_at_def)
  have b: "buf \<noteq> []" "length buf < 2147483648" "0 \<le> offset"
    "offset + int (length buf) \<le> 2147483648 * IO_BLOCK_SIZE (FSConfig ev)"
    using assms(5) by (simp_all add: request_fits_def)
  obtain C' d' disk' where "lfs_write ev path buf (int (length buf)) offset (Some f) w =
      Inr (int (length buf), w\<lparr>FSCache := C', host_state := d'\<rparr>)" "files_ok (FSConfig ev) hv C' d'"
    "seen (FSConfig ev) hv C' d' = (seen (FSConfig ev) hv (FSCache w) (host_state w))
      (i := file_write (seen (FSConfig ev) hv (FSCache w) (host_state w) i) offset buf)"
    "content hv d' = (content hv (host_state w))(i := disk')" "torn offset buf (content hv (host_state w) i) disk'"
    "gap_span (IO_BLOCK_SIZE (FSConfig ev)) (file_size hv (FSCache w) (host_state w) i) offset +
       block_span (IO_BLOCK_SIZE (FSConfig ev)) offset (int (length buf)) \<le> nfree (cengine (FSCache w)) \<longrightarrow>
     content hv d' = content hv (host_state w)"
    using lfs_write_ok [OF assms(1) refl assms(2,3) o b] unfolding written_def by blast
  then show ?thesis by (intro exI [of _ C'] exI [of _ d']) simp
qed

text \<open>
  C9. A write of an open file always succeeds in full. Everyone then sees the file as the write
  leaves it and every other file as before; of the host, at most bytes in the range of the write
  have changed; and while there is a free page for every block of the request, the host has not
  been touched at all.
\<close>

theorem write_stays_in_cache:
  assumes "mounted ev hv" and "calm ev path w" and "files_ok (FSConfig ev) hv (FSCache w) (host_state w)"
    and "open_at hv path f i (host_state w)" and "request_fits (FSConfig ev) offset buf"
  shows "\<exists>C' d'. lfs_write ev path buf (int (length buf)) offset (Some f) w =
      Inr (int (length buf), w\<lparr>FSCache := C', host_state := d'\<rparr>) \<and>
    files_ok (FSConfig ev) hv C' d' \<and>
    seen (FSConfig ev) hv C' d' = (seen (FSConfig ev) hv (FSCache w) (host_state w))
      (i := file_write (seen (FSConfig ev) hv (FSCache w) (host_state w) i) offset buf) \<and>
    (\<forall>j. j \<noteq> i \<longrightarrow> content hv d' j = content hv (host_state w) j) \<and>
    torn offset buf (content hv (host_state w) i) (content hv d' i) \<and>
    (gap_span (IO_BLOCK_SIZE (FSConfig ev)) (file_size hv (FSCache w) (host_state w) i) offset +
       block_span (IO_BLOCK_SIZE (FSConfig ev)) offset (int (length buf)) \<le> nfree (cengine (FSCache w)) \<longrightarrow>
     content hv d' = content hv (host_state w))"
  by (rule open_file_write [OF assms])

theorem write_stays_in_cache_witness:
  "\<exists>w C' d'. lfs_write demo_env ''/f'' [5, 6] 2 1 (Some demo_fd) w = Inr (2, w\<lparr>FSCache := C', host_state := d'\<rparr>) \<and>
     seen default_config mem_view C' d' 7 = [9, 5, 6] \<and> content mem_view d' 7 = [9, 9]"
proof -
  obtain e where e: "0 < CACHE_NR_PAGES default_config"
    "nfree (cengine (new_cache e)) = nat (CACHE_NR_PAGES default_config)"
    "serving demo_env mem_view ''/f'' demo_fd 7 (new_lazyfs (new_cache e) fmempty demo_disk)"
    "seen default_config mem_view (new_cache e) demo_disk 7 = [9, 9]"
    "content mem_view demo_disk 7 = [9, 9]"
    by (rule demo_serving)
  note S = servingD [OF e(3)]
  have "file_size mem_view (new_cache e) demo_disk 7 = 2"
    using file_size_seen [OF S(3), of 7] e(4) by simp
  then have room: "gap_span 4096 (file_size mem_view (new_cache e) demo_disk 7) 1 + block_span 4096 1 2
      \<le> nfree (cengine (new_cache e))"
    using e(1,2) by (simp add: gap_span_def block_span_def)
  have fits: "request_fits (FSConfig demo_env) 1 [5, 6]" by simp
  from write_stays_in_cache [OF S(1,4,3,10) fits] obtain C' d' where
    "lfs_write demo_env ''/f'' [5, 6] 2 1 (Some demo_fd) (new_lazyfs (new_cache e) fmempty demo_disk) =
      Inr (2, (new_lazyfs (new_cache e) fmempty demo_disk)\<lparr>FSCache := C', host_state := d'\<rparr>)"
    "seen default_config mem_view C' d' 7 = [9, 5, 6]" "content mem_view d' 7 = [9, 9]"
    using room e(4,5) by (auto simp: file_write_def)
  then show ?thesis by blast
qed

text \<open>
  C13. Unsynced data is lost. A write that finds enough free pages leaves no trace once the cache
  is cleared: everyone sees of every file what the host had before the write.
\<close>

theorem unsynced_write_is_lost:
  assumes "serving ev hv path f i w" and "request_fits (FSConfig ev) offset buf"
    and "gap_span (IO_BLOCK_SIZE (FSConfig ev)) (file_size hv (FSCache w) (host_state w) i) offset +
       block_span (IO_BLOCK_SIZE (FSConfig ev)) offset (int (length buf)) \<le> nfree (cengine (FSCache w))"
  shows "\<exists>w1 w2. lfs_write ev path buf (int (length buf)) offset (Some f) w = Inr (int (length buf), w1) \<and>
    command_fault_clear_cache ev w1 = Inr ((), w2) \<and>
    seen (FSConfig ev) hv (FSCache w2) (host_state w2) = content hv (host_state w) \<and>
    content hv (host_state w2) = content hv (host_state w)"
proof -
  note S = servingD [OF assms(1)]
  obtain C' d' where wr: "lfs_write ev path buf (int (length buf)) offset (Some f) w =
      Inr (int (length buf), w\<lparr>FSCache := C', host_state := d'\<rparr>)" "files_ok (FSConfig ev) hv C' d'"
    "content hv d' = content hv (host_state w)"
    using open_file_write [OF S(1,4,3,10) assms(2)] assms(3) by blast
  define w1 where "w1 = w\<lparr>FSCache := C', host_state := d'\<rparr>"
  have w1: "FSCache w1 = C'" "host_state w1 = d'" "shared_locks w1 = 0" using S(2) by (simp_all add: w1_def)
  obtain C2 where cl: "command_fault_clear_cache ev w1 = Inr ((), w1\<lparr>FSCache := C2\<rparr>)"
    "seen (FSConfig ev) hv C2 d' = content hv d'"
    using clear_cache_ok [OF S(1) refl _ w1(3)] wr(2) unfolding w1 by blast
  show ?thesis
    using wr(1,3) cl by (intro exI [of _ w1] exI [of _ "w1\<lparr>FSCache := C2\<rparr>"]) (simp add: w1_def)
qed

theorem unsynced_write_is_lost_witness:
  "\<exists>w w1 w2. lfs_write demo_env ''/f'' [5, 6] 2 1 (Some demo_fd) w = Inr (2, w1) \<and>
     command_fault_clear_cache demo_env w1 = Inr ((), w2) \<and>
     seen default_config mem_view (FSCache w2) (host_state w2) 7 = [9, 9]"
proof -
  obtain e where e: "0 < CACHE_NR_PAGES default_config"
    "nfree (cengine (new_cache e)) = nat (CACHE_NR_PAGES default_config)"
    "serving demo_env mem_view ''/f'' demo_fd 7 (new_lazyfs (new_cache e) fmempty demo_disk)"
    "seen default_config mem_view (new_cache e) demo_disk 7 = [9, 9]"
    "content mem_view demo_disk 7 = [9, 9]"
    by (rule demo_serving)
  have "file_size mem_view (new_cache e) demo_disk 7 = 2"
    using file_size_seen [OF servingD(3) [OF e(3)], of 7] e(4) by simp
  then have room: "gap_span (IO_BLOCK_SIZE (FSConfig demo_env))
      (file_size mem_view (FSCache (new_lazyfs (new_cache e) fmempty demo_disk))
         (host_state (new_lazyfs (new_cache e) fmempty demo_disk)) 7) 1 +
      block_span (IO_BLOCK_SIZE (FSConfig demo_env)) 1 (int (length [5::byte, 6]))
      \<le> nfree (cengine (FSCache (new_lazyfs (new_cache e) fmempty demo_disk)))"
    using e(1,2) by (simp add: gap_span_def block_span_def)
  have fits: "request_fits (FSConfig demo_env) 1 [5, 6]" by simp
  from unsynced_write_is_lost [OF e(3) fits room] obtain w1 w2 where
    "lfs_write demo_env ''/f'' [5, 6] 2 1 (Some demo_fd) (new_lazyfs (new_cache e) fmempty demo_disk) = Inr (2, w1)"
    "command_fault_clear_cache demo_env w1 = Inr ((), w2)"
    "seen default_config mem_view (FSCache w2) (host_state w2) = content mem_view demo_disk" by auto
  moreover from this(3) have "seen default_config mem_view (FSCache w2) (host_state w2) 7 = [9, 9]"
    using e(5) by simp
  ultimately show ?thesis by blast
qed

text \<open>
  C10. A read of an open file returns exactly the bytes that are to be seen at the place read, as
  many of those asked for as the file has, puts them at the start of the buffer, and changes
  nothing for anyone. The request must not end in a block past the one in which the file ends,
  unless a block's worth of the buffer is left after the bytes read.
\<close>

theorem read_returns_what_is_seen:
  assumes "mounted ev hv" and "calm ev path w" and "files_ok (FSConfig ev) hv (FSCache w) (host_state w)"
    and "open_at hv path f i (host_state w)" and "request_fits (FSConfig ev) offset buf"
    and "offset < file_size hv (FSCache w) (host_state w) i \<Longrightarrow>
      room_to_clear (IO_BLOCK_SIZE (FSConfig ev)) (file_size hv (FSCache w) (host_state w) i) offset (int (length buf))"
  shows "\<exists>buf' C'. lfs_read ev path buf (int (length buf)) offset (Some f) w =
      Inr ((int (length (take (length buf) (drop (nat offset) (seen (FSConfig ev) hv (FSCache w) (host_state w) i)))),
            buf'), w\<lparr>FSCache := C'\<rparr>) \<and>
    length buf' = length buf \<and>
    take (length (take (length buf) (drop (nat offset) (seen (FSConfig ev) hv (FSCache w) (host_state w) i)))) buf' =
      take (length buf) (drop (nat offset) (seen (FSConfig ev) hv (FSCache w) (host_state w) i)) \<and>
    files_ok (FSConfig ev) hv C' (host_state w) \<and>
    seen (FSConfig ev) hv C' (host_state w) = seen (FSConfig ev) hv (FSCache w) (host_state w)"
  using lfs_read_ok [OF assms(1) refl assms(2,3), of i f buf offset] assms(4-6)
  unfolding open_at_def request_fits_def by blast

theorem read_returns_what_is_seen_witness:
  "\<exists>w buf' C'. lfs_read demo_env ''/f'' [0] 1 1 (Some demo_fd) w = Inr ((1, buf'), w\<lparr>FSCache := C'\<rparr>) \<and> buf' = [9]"
proof -
  obtain e where e: "serving demo_env mem_view ''/f'' demo_fd 7 (new_lazyfs (new_cache e) fmempty demo_disk)"
    "seen default_config mem_view (new_cache e) demo_disk 7 = [9, 9]"
    by (rule demo_serving)
  note S = servingD [OF e(1)]
  have fits: "request_fits (FSConfig demo_env) 1 [0]" by (simp add: request_fits_def)
  have sz: "file_size mem_view (new_cache e) demo_disk 7 = 2"
    using file_size_seen [OF S(3), of 7] e(2) by simp
  have room: "room_to_clear (IO_BLOCK_SIZE (FSConfig demo_env))
      (file_size mem_view (FSCache (new_lazyfs (new_cache e) fmempty demo_disk))
         (host_state (new_lazyfs (new_cache e) fmempty demo_disk)) 7) 1 (int (length [0::byte]))"
    by (simp add: sz room_to_clear_def)
  from read_returns_what_is_seen [OF S(1,4,3,10) fits room] e(2) obtain C' where
    "lfs_read demo_env ''/f'' [0] 1 1 (Some demo_fd) (new_lazyfs (new_cache e) fmempty demo_disk) =
      Inr ((1, [9]), (new_lazyfs (new_cache e) fmempty demo_disk)\<lparr>FSCache := C'\<rparr>)" by auto
  then show ?thesis by blast
qed

text \<open>
  C11. A successful fsync makes a file durable: the host's copy becomes what everyone sees of the
  file, nothing of any other file changes on the host, and nobody sees a change. With no fault
  on the path, fsync always succeeds.
\<close>

theorem fsync_makes_durable:
  assumes "mounted ev hv" and "calm ev path w" and "files_ok (FSConfig ev) hv (FSCache w) (host_state w)"
    and "path_ino hv (host_state w) path = Some i"
  shows "\<exists>w'. lfs_fsync ev path isdatasync fi w = Inr (0, w') \<and>
    files_ok (FSConfig ev) hv (FSCache w') (host_state w') \<and>
    content hv (host_state w') =
      (content hv (host_state w))(i := seen (FSConfig ev) hv (FSCache w) (host_state w) i) \<and>
    seen (FSConfig ev) hv (FSCache w') (host_state w') = seen (FSConfig ev) hv (FSCache w) (host_state w)"
proof -
  obtain C' d' where "lfs_fsync ev path isdatasync fi w =
      Inr (0, (forgotten path w)\<lparr>FSCache := C', host_state := d'\<rparr>)"
    "synced (FSConfig ev) hv i (FSCache w) (host_state w) C' d'"
    using lfs_fsync_ok [OF assms(1) refl assms(2,3,4), of isdatasync fi] by blast
  then show ?thesis unfolding synced_def by (intro exI) auto
qed

theorem fsync_makes_durable_witness:
  "\<exists>w w'. lfs_fsync demo_env ''/f'' False (Some demo_fd) w = Inr (0, w') \<and> content mem_view (host_state w') 7 = [9, 5, 6]"
proof -
  obtain e ops w' where d: "serving demo_env mem_view ''/f'' demo_fd 7 (new_lazyfs (new_cache e) fmempty demo_disk)"
    "list_all2 (answers 7) [Req_write 1 [5, 6]] ops"
    "runs (fs_step demo_env mem_view) (new_lazyfs (new_cache e) fmempty demo_disk) ops w'"
    "foldE (perform demo_env ''/f'' demo_fd) [Req_write 1 [5, 6]] (new_lazyfs (new_cache e) fmempty demo_disk) = Inr w'"
    "seen default_config mem_view (new_cache e) demo_disk 7 = [9, 9]"
    by (rule demo_requests [of "[Req_write 1 [5, 6]]"]) auto
  have a: "\<forall>req \<in> set [Req_write 1 [5, 6]]. allowed (FSConfig demo_env) req" by simp
  have s: "serving demo_env mem_view ''/f'' demo_fd 7 w'" using perform_all [OF d(1) a] d(4) by auto
  have st: "fs_step demo_env mem_view (new_lazyfs (new_cache e) fmempty demo_disk) (Write 7 1 [5, 6]) w'"
    using d(2,3) by (auto simp: list_all2_Cons1)
  have "seen default_config mem_view (FSCache w') (host_state w') 7 = [9, 5, 6]"
    using fs.simulates [OF servingD(9) [OF d(1)] st] d(5) by (auto simp: store_of_def file_write_def)
  with fsync_makes_durable [OF servingD(1,4,3,5) [OF s], of False "Some demo_fd"] obtain w2 where
    "lfs_fsync demo_env ''/f'' False (Some demo_fd) w' = Inr (0, w2)"
    "content mem_view (host_state w2) 7 = [9, 5, 6]" by auto
  then show ?thesis by blast
qed

section \<open>Truncating\<close>

text \<open>
  C14. Growing a file with truncate fills it with zeros: everyone sees the old bytes followed by
  zeros up to the new size, every other file as before, and on the host nothing of any other
  file changes.
\<close>

theorem truncate_grows_with_zeros:
  assumes "mounted ev hv" and "calm ev path w" and "files_ok (FSConfig ev) hv (FSCache w) (host_state w)"
    and "open_at hv path f i (host_state w)" and "uninit_int ev \<noteq> - 1"
    and "file_size hv (FSCache w) (host_state w) i < n"
    and "n - file_size hv (FSCache w) (host_state w) i < 2147483648" and "n \<le> 2147483648 * IO_BLOCK_SIZE (FSConfig ev)"
  shows "\<exists>C' d'. lfs_truncate ev path n (Some f) w = Inr (0, w\<lparr>FSCache := C', host_state := d'\<rparr>) \<and>
    files_ok (FSConfig ev) hv C' d' \<and>
    seen (FSConfig ev) hv C' d' = (seen (FSConfig ev) hv (FSCache w) (host_state w))
       (i := file_resize (seen (FSConfig ev) hv (FSCache w) (host_state w) i) n) \<and>
    (\<forall>j. j \<noteq> i \<longrightarrow> content hv d' j = content hv (host_state w) j)"
proof -
  obtain C' d' where "lfs_truncate ev path n (Some f) w = Inr (0, w\<lparr>FSCache := C', host_state := d'\<rparr>)"
    "files_ok (FSConfig ev) hv C' d'"
    "seen (FSConfig ev) hv C' d' = (seen (FSConfig ev) hv (FSCache w) (host_state w))
       (i := file_resize (seen (FSConfig ev) hv (FSCache w) (host_state w) i) n)"
    "\<forall>j. j \<noteq> i \<longrightarrow> content hv d' j = content hv (host_state w) j"
    by (rule lfs_truncate_grows [OF assms]) auto
  then show ?thesis by blast
qed

theorem truncate_grows_with_zeros_witness:
  "\<exists>w C' d'. lfs_truncate demo_env ''/f'' 5 (Some demo_fd) w = Inr (0, w\<lparr>FSCache := C', host_state := d'\<rparr>) \<and>
     seen default_config mem_view C' d' 7 = [9, 9, 0, 0, 0]"
proof -
  obtain e where e: "serving demo_env mem_view ''/f'' demo_fd 7 (new_lazyfs (new_cache e) fmempty demo_disk)"
    "seen default_config mem_view (new_cache e) demo_disk 7 = [9, 9]"
    by (rule demo_serving)
  note S = servingD [OF e(1)]
  have sz: "file_size mem_view (new_cache e) demo_disk 7 = 2"
    using file_size_seen [OF S(3), of 7] e(2) by simp
  have u: "uninit_int demo_env \<noteq> - 1" by (simp add: demo_env_def start_environment_def)
  have "file_resize [9, 9] 5 = [9, 9, 0, 0, 0 :: byte]" by (simp add: file_resize_def numeral_eq_Suc)
  with truncate_grows_with_zeros [OF S(1,4,3,10) u, of 5] sz e(2) obtain C' d' where
    "lfs_truncate demo_env ''/f'' 5 (Some demo_fd) (new_lazyfs (new_cache e) fmempty demo_disk) =
      Inr (0, (new_lazyfs (new_cache e) fmempty demo_disk)\<lparr>FSCache := C', host_state := d'\<rparr>)"
    "seen default_config mem_view C' d' 7 = [9, 9, 0, 0, 0]" by auto
  then show ?thesis by blast
qed

text \<open>
  C35. Shrinking a file with truncate only records the new size: the handler hands the path to
  the cache where the cache expects an inode, so no cached block is cut or dropped, and the
  bytes past the new end stay in the cache, where a file that grows again shows them.
\<close>

theorem truncate_shrinks_only_the_size:
  assumes "mounted ev hv" and "calm ev path w" and "files_ok (FSConfig ev) hv (FSCache w) (host_state w)"
    and "path_ino hv (host_state w) path = Some i" and "uninit_int ev \<noteq> - 1"
    and "n < file_size hv (FSCache w) (host_state w) i"
    and "fmlookup (contents (FSCache w)) path = None" and "path \<noteq> to_string i"
  shows "\<exists>C'. lfs_truncate ev path n fi w = Inr (0, w\<lparr>FSCache := C'\<rparr>) \<and>
    blocks_of C' = blocks_of (FSCache w) \<and>
    file_size hv C' (host_state w) = (file_size hv (FSCache w) (host_state w))(i := n)"
proof -
  define P where "P C2 d2 \<longleftrightarrow> d2 = host_state w \<and> blocks_of C2 = blocks_of (FSCache w) \<and>
      file_size hv C2 (host_state w) = file_size hv (FSCache w) (host_state w)" for C2 d2
  obtain C2 d2 it it' where t: "lfs_truncate ev path n fi w =
       Inr (0, w\<lparr>FSCache := with_item (to_string i) it' (cengine C2) C2, host_state := d2\<rparr>)"
    "files_ok (FSConfig ev) hv C2 d2" "P C2 d2" "fmlookup (contents C2) (to_string i) = Some it"
    "idata it' = idata it" "meta_size (imetadata it') = n"
  proof (rule truncate_body_cached [OF assms(1-5), where P = P and n = n and fi = fi])
    fix w1 :: "(engine, 'a) world"
    assume a: "host_state w1 = host_state w" "fmlookup (contents (FSCache w1)) (to_string i) \<noteq> None"
      "files_ok (FSConfig ev) hv (FSCache w1) (host_state w)" "cengine (FSCache w1) = cengine (FSCache w)"
      "\<forall>cid. cid \<noteq> to_string i \<longrightarrow> fmlookup (contents (FSCache w1)) cid = fmlookup (contents (FSCache w)) cid"
      "file_size hv (FSCache w1) (host_state w) = file_size hv (FSCache w) (host_state w)"
    obtain it1 where it1: "fmlookup (contents (FSCache w1)) (to_string i) = Some it1" using a(2) by auto
    have sz: "n < meta_size (imetadata it1)"
      using fun_cong [OF a(6), of i] it1 assms(6) by (simp add: file_size_def [of hv "FSCache w1"])
    have none: "\<not> has_content_cached (FSCache w1) path"
      using a(5) assms(7,8) by (simp add: has_content_cached_def)
    have "truncate_data ev path n fi (to_string i) w1 = Inr ((), w1)"
      using it1 sz none
      by (simp add: truncate_data_def deref_metadata_def get_content_metadata_def get_content_ptr_def on_cache_def
          truncate_item_def)
    moreover have "w1 = w1\<lparr>FSCache := FSCache w1, host_state := host_state w\<rparr>" by (simp add: a(1) [symmetric])
    moreover have "P (FSCache w1) (host_state w)" using a(4,6) by (simp add: P_def blocks_of_def)
    ultimately show "\<exists>C2 d2. truncate_data ev path n fi (to_string i) w1 =
        Inr ((), w1\<lparr>FSCache := C2, host_state := d2\<rparr>) \<and>
        files_ok (FSConfig ev) hv C2 d2 \<and> fmlookup (contents C2) (to_string i) \<noteq> None \<and> P C2 d2"
      using a(2,3) by metis
  qed
  note T = truncate_tail [OF t(2,4,5) refl]
  show ?thesis
    using t(1,3,6) T(3,4) by (intro exI [of _ "with_item (to_string i) it' (cengine C2) C2"]) (simp add: P_def)
qed

theorem truncate_shrinks_only_the_size_witness:
  "\<exists>w C'. lfs_truncate demo_env ''/f'' 1 (Some demo_fd) w = Inr (0, w\<lparr>FSCache := C'\<rparr>) \<and>
     file_size mem_view C' (host_state w) 7 = 1 \<and> content mem_view (host_state w) 7 = [9, 9]"
proof -
  obtain e where e: "serving demo_env mem_view ''/f'' demo_fd 7 (new_lazyfs (new_cache e) fmempty demo_disk)"
    "seen default_config mem_view (new_cache e) demo_disk 7 = [9, 9]" "content mem_view demo_disk 7 = [9, 9]"
    by (rule demo_serving)
  note S = servingD [OF e(1)]
  have sz: "1 < file_size mem_view (FSCache (new_lazyfs (new_cache e) fmempty demo_disk))
      (host_state (new_lazyfs (new_cache e) fmempty demo_disk)) 7"
    using file_size_seen [OF S(3), of 7] e(2) by simp
  have u: "uninit_int demo_env \<noteq> - 1" by (simp add: demo_env_def start_environment_def)
  have none: "fmlookup (contents (FSCache (new_lazyfs (new_cache e) fmempty demo_disk))) ''/f'' = None"
    by (simp add: new_cache_def)
  have "''/f'' \<noteq> to_string 7" by (simp add: to_string_def nat_string.simps)
  from truncate_shrinks_only_the_size [OF S(1,4,3,5) u sz none this, of "Some demo_fd"] obtain C' where
    "lfs_truncate demo_env ''/f'' 1 (Some demo_fd) (new_lazyfs (new_cache e) fmempty demo_disk) =
      Inr (0, (new_lazyfs (new_cache e) fmempty demo_disk)\<lparr>FSCache := C'\<rparr>)"
    "file_size mem_view C' demo_disk 7 = 1" by auto
  then show ?thesis
    using e(3) by (intro exI [of _ "new_lazyfs (new_cache e) fmempty demo_disk"] exI [of _ C']) simp
qed

end
