(* ===== verification/Fault_Handlers.thy ===== *)
theory Fault_Handlers
  imports Fs_Theorems
begin

text \<open>
  What the injected faults do to a handler: the parts a torn-op fault lets through, a crash fault
  that matches, and the two triggers of a handler when the only fault of its path is a
  clear-cache fault. The handlers themselves are taken up to the point where their faults are
  triggered by the lemmas of \<open>Fs_Write\<close>, \<open>Fs_Sync\<close> and \<open>Fs_Names\<close>.
\<close>


section \<open>Torn writes\<close>

lemma torn_trans: "torn off bs d1 d2 \<Longrightarrow> torn off bs d2 d3 \<Longrightarrow> torn off bs d1 d3"
  unfolding torn_def by (metis order_trans)

lemma torn_part:
  assumes "0 \<le> offset" and "0 \<le> b" and "0 \<le> l" and "b + l \<le> int (length buf)"
  shows "torn offset buf disk (file_write disk (offset + b) (take (nat l) (drop (nat b) buf)))"
proof -
  define bs where "bs = take (nat l) (drop (nat b) buf)"
  have len: "int (length bs) = l" using assms(2-4) by (simp add: bs_def nat_diff_distrib)
  have "byte_at (file_write disk (offset + b) bs) j = byte_at disk j \<or>
      (nat offset \<le> j \<and> j < nat offset + length buf \<and>
       byte_at (file_write disk (offset + b) bs) j = buf ! (j - nat offset))" for j
  proof (cases "nat (offset + b) \<le> j \<and> j < nat (offset + b) + length bs")
    case True
    have e: "nat (offset + b) = nat offset + nat b" using assms by (simp add: nat_add_distrib)
    have "nat b + length bs \<le> length buf" using len assms(2,4) by linarith
    moreover have "bs ! (j - nat (offset + b)) = buf ! (nat b + (j - nat (offset + b)))"
    proof -
      have "j - nat (offset + b) < nat l" using True len assms(3) by linarith
      then show ?thesis using \<open>nat b + length bs \<le> length buf\<close> by (simp add: bs_def)
    qed
    moreover have "nat b + (j - nat (offset + b)) = j - nat offset" using True e by simp
    ultimately show ?thesis using True e by (simp add: byte_at_file_write)
  qed (auto simp: byte_at_file_write)
  moreover have "length disk \<le> length (file_write disk (offset + b) bs)" by (simp add: file_write_length)
  ultimately show ?thesis by (simp add: torn_def bs_def)
qed

text \<open>A part to persist lies in the buffer and goes to its place in the file.\<close>

definition part_inside :: "int \<Rightarrow> byte list \<Rightarrow> int \<times> int \<times> int \<Rightarrow> bool" where
  "part_inside offset buf = (\<lambda>(b, l, off).
     0 \<le> b \<and> 0 \<le> l \<and> b + l \<le> int (length buf) \<and> off = offset + b)"

definition persist_part :: "byte list \<Rightarrow> int \<times> int \<times> int \<Rightarrow> byte list \<Rightarrow> byte list" where
  "persist_part buf = (\<lambda>(b, l, off) disk. file_write disk off (take (nat l) (drop (nat b) buf)))"

lemma persist_parts_torn:
  assumes "0 \<le> offset" and "\<forall>p \<in> set info. part_inside offset buf p"
  shows "torn offset buf disk (fold (persist_part buf) info disk)"
  using assms(2)
proof (induction info arbitrary: disk)
  case (Cons p info)
  obtain b l off where p: "p = (b, l, off)" by (cases p)
  have "torn offset buf disk (persist_part buf p disk)"
    using Cons.prems torn_part [OF assms(1), of b l buf disk] by (auto simp: p part_inside_def persist_part_def)
  then show ?case using torn_trans Cons by auto
qed simp

lemma split_pwrite_all:
  assumes law: "pwrite_law (eos ev) hv" and off: "0 \<le> offset" and small: "length buf < 2147483648"
    and fd: "fd_ino hv (host_state w) fd = Some i" and inside: "\<forall>p \<in> set info. part_inside offset buf p"
  shows "\<exists>d'. loopE (split_pwrite ev fd buf) info (False, w) = Inr (False, w\<lparr>host_state := d'\<rparr>) \<and>
    content hv d' = (content hv (host_state w))(i := fold (persist_part buf) info (content hv (host_state w) i)) \<and>
    path_ino hv d' = path_ino hv (host_state w)"
  using fd inside
proof (induction info arbitrary: w)
  case Nil
  then show ?case by (intro exI [of _ "host_state w"]) simp
next
  case (Cons p info)
  obtain b l o' where p: "p = (b, l, o')" by (cases p)
  have q: "0 \<le> b" "0 \<le> l" "b + l \<le> int (length buf)" "o' = offset + b"
    using Cons.prems(2) by (simp_all add: p part_inside_def)
  define bs where "bs = take (nat l) (drop (nat b) buf)"
  have len: "int (length bs) = l" using q by (simp add: bs_def nat_diff_distrib)
  have rd: "mem_read buf b l = Inr bs" using q by (simp add: mem_read_def bs_def)
  obtain d1 where d1: "os_pwrite (eos ev) fd bs o' (host_state w) = (int (length bs), d1)"
    "content hv d1 = (content hv (host_state w))(i := file_write (content hv (host_state w) i) o' bs)"
    "fd_ino hv d1 = fd_ino hv (host_state w)" "path_ino hv d1 = path_ino hv (host_state w)"
    using pwriteD [OF law Cons.prems(1), of o' bs] q off by auto
  define w1 where "w1 = w\<lparr>host_state := d1\<rparr>"
  have st: "split_pwrite ev fd buf p (False, w) = Inr (False, False, w1)"
    using d1(1) len small q
    by (simp add: split_pwrite_def p rd syscall_def c_int_id w1_def)
  have "fd_ino hv (host_state w1) fd = Some i" using d1(3) Cons.prems(1) by (simp add: w1_def)
  note ih = Cons.IH [OF this]
  have "host_state w1 = d1" by (simp add: w1_def)
  with ih Cons.prems(2) obtain d' where
    "loopE (split_pwrite ev fd buf) info (False, w1) = Inr (False, w1\<lparr>host_state := d'\<rparr>)"
    "content hv d' = (content hv d1)(i := fold (persist_part buf) info (content hv d1 i))"
    "path_ino hv d' = path_ino hv d1" by (metis list.set_intros(2))
  then show ?case
    using st d1(2,4) by (intro exI [of _ d']) (simp add: w1_def persist_part_def p bs_def fun_eq_iff)
qed

text \<open>What the validation of a torn-op fault ensures.\<close>

definition torn_op_valid :: "split_write_f \<Rightarrow> bool" where
  "torn_op_valid f \<longleftrightarrow>
     (if sw_parts f = - 1
      then split_write_validate (sw_occurrence f) (sw_persist f) None (Some (sw_parts_bytes f)) = []
      else split_write_validate (sw_occurrence f) (sw_persist f) (Some (sw_parts f)) None = [])"

lemma equal_parts_inside:
  assumes f: "0 < sw_parts f" "\<forall>p \<in> set (sw_persist f). 0 < p \<and> p \<le> sw_parts f"
    "sw_parts f < 2147483648" and off: "0 \<le> offset" "offset + int (length buf) < 2147483648"
  shows "\<exists>info. split_parts_equal f (int (length buf)) offset = Inr info \<and> (\<forall>p \<in> set info. part_inside offset buf p)"
proof -
  define n where "n = sw_parts f"
  define sz where "sz = int (length buf)"
  define s where "s = sz div n"
  define r where "r = sz mod n"
  have u: "u64 n = n" using f(1,3) by (simp add: n_def u64_id)
  have "n * s + r = sz" by (simp add: s_def r_def)
  then have e: "n * s + r = sz" .
  have b: "0 \<le> s" "0 \<le> r" "0 < n" using f(1) by (simp_all add: s_def r_def n_def sz_def pos_imp_zdiv_nonneg_iff)
  have inside: "part_inside offset buf (c_int ((p - 1) * s), c_int (if P then s + r else s), c_int (offset + (p - 1) * s))"
    if "0 < p" "p \<le> n" for p P
  proof -
    have "p * s \<le> n * s" using that(2) b(1) by (rule mult_right_mono)
    moreover have "1 * s \<le> p * s" using that(1) b(1) by (intro mult_right_mono) simp_all
    ultimately have q: "0 \<le> (p - 1) * s" "(p - 1) * s + s + r \<le> sz" using e by (simp_all add: algebra_simps)
    have "c_int ((p - 1) * s) = (p - 1) * s" "c_int (offset + (p - 1) * s) = offset + (p - 1) * s"
      "c_int s = s" "c_int (s + r) = s + r"
      using q b off by (auto simp: sz_def intro!: c_int_id)
    then show ?thesis using q b by (simp add: part_inside_def sz_def)
  qed
  have all: "\<forall>q \<in> set (map (\<lambda>(p_i, p).
               (c_int ((p - 1) * s), c_int (if P p_i then s + r else s), c_int (offset + (p - 1) * s)))
             (List.enumerate 0 (sw_persist f))). part_inside offset buf q" for P
  proof -
    have "part_inside offset buf (c_int ((p - 1) * s), c_int (if P p_i then s + r else s), c_int (offset + (p - 1) * s))"
      if "(p_i, p) \<in> set (List.enumerate 0 (sw_persist f))" for p_i p
      using f(2) that by (intro inside) (auto simp: in_set_enumerate_eq n_def)
    then show ?thesis by force
  qed
  have "n \<noteq> 0" using b(3) by simp
  then show ?thesis
    using all [of "\<lambda>p_i. r > 0 \<and> p_i = length (sw_persist f) - 1"]
    by (auto simp: split_parts_equal_def Let_def n_def [symmetric] u sz_def [symmetric] s_def [symmetric] r_def [symmetric])
qed

lemma split_bytes_inside:
  assumes f: "\<forall>b \<in> set (sw_parts_bytes f). 0 < b" "\<forall>p \<in> set ps. 0 < p \<and> p \<le> int (length (sw_parts_bytes f))"
    and off: "0 \<le> offset" "offset + int (length buf) < 2147483648"
    and acc: "\<forall>p \<in> set info. part_inside offset buf p"
    and sum: "u64 (c_int (sum_list (sw_parts_bytes f))) = int (length buf)" "sum_list (sw_parts_bytes f) < 2147483648"
  shows "\<exists>info'. foldE (split_parts_bytes f (int (length buf)) offset) ps (Some info) = Inr (Some info') \<and>
    (\<forall>p \<in> set info'. part_inside offset buf p)"
  using f(2) acc
proof (induction ps arbitrary: info)
  case Nil
  then show ?case by simp
next
  case (Cons p ps)
  define bs where "bs = sw_parts_bytes f"
  define k where "k = nat (p - 1)"
  have k: "k < length bs" "0 < p" "p \<le> int (length bs)" using Cons.prems(1) by (auto simp: bs_def k_def)
  have nn: "\<forall>x \<in> set bs. 0 \<le> x" using f(1) by (auto simp: bs_def)
  have pos: "0 \<le> sum_list xs" if "set xs \<subseteq> set bs" for xs
    using nn that by (intro sum_list_nonneg) auto
  have total: "sum_list bs = int (length buf)"
    using sum pos [of bs] by (simp add: bs_def u64_id c_int_id)
  have "bs = take k bs @ bs ! k # drop (Suc k) bs" using k(1) by (rule id_take_nth_drop)
  then have "sum_list bs = sum_list (take k bs) + bs ! k + sum_list (drop (Suc k) bs)"
    by (metis add.assoc sum_list.Cons sum_list.append)
  then have le: "sum_list (take k bs) + bs ! k \<le> int (length buf)"
    using total pos [of "drop (Suc k) bs"] set_drop_subset [of "Suc k" bs] by simp
  have ge: "0 \<le> sum_list (take k bs)" "0 \<le> bs ! k"
    using pos [of "take k bs"] set_take_subset [of k bs] nn k(1) by auto
  have "c_int (offset + sum_list (take k bs)) = offset + sum_list (take k bs)"
    using le ge off by (intro c_int_id) auto
  moreover have in_int: "c_int (sum_list (take k bs)) = sum_list (take k bs)"
    using le ge off by (intro c_int_id) auto
  ultimately have new: "part_inside offset buf (sum_list (take k bs), bs ! k, c_int (offset + sum_list (take k bs)))"
    using le ge by (simp add: part_inside_def)
  have st: "split_parts_bytes f (int (length buf)) offset p (Some info) =
      Inr (Some (info @ [(sum_list (take k bs), bs ! k, c_int (offset + sum_list (take k bs)))]))"
    using k sum(1) in_int by (simp add: split_parts_bytes_def bs_def k_def require_def Let_def)
  have "\<forall>q \<in> set (info @ [(sum_list (take k bs), bs ! k, c_int (offset + sum_list (take k bs)))]). part_inside offset buf q"
    using Cons.prems(2) new by auto
  from Cons.IH [OF _ this] Cons.prems(1) st show ?case by simp
qed


text \<open>The parts of a valid fault, and the effect of the operation.\<close>

lemma split_persist_info_inside:
  assumes v: "torn_op_valid f" "sw_parts f < 2147483648" "sum_list (sw_parts_bytes f) < 2147483648"
    and off: "0 \<le> offset" "offset + int (length buf) < 2147483648"
  obtains "split_persist_info f (int (length buf)) offset = Inr None"
  | info where "split_persist_info f (int (length buf)) offset = Inr (Some info)" "\<forall>p \<in> set info. part_inside offset buf p"
proof (cases "sw_parts f = - 1")
  case True
  have f: "\<forall>b \<in> set (sw_parts_bytes f). 0 < b"
    "\<forall>p \<in> set (sw_persist f). 0 < p \<and> p \<le> int (length (sw_parts_bytes f))"
    using v(1) True by (auto simp: torn_op_valid_def split_write_validate_def split: if_splits)
  show thesis
  proof (cases "u64 (c_int (sum_list (sw_parts_bytes f))) = int (length buf)")
    case sum: True
    from split_bytes_inside [OF f off, of "[]"] sum v(3) that(2) show thesis
      using True by (auto simp: split_persist_info_def)
  next
    case False
    have none: "foldE (split_parts_bytes f (int (length buf)) offset) ps None = Inr None" for ps
      by (induction ps) (simp_all add: split_parts_bytes_def)
    show thesis
    proof (cases "sw_persist f")
      case Nil
      then show thesis using that(2) [of "[]"] True by (simp add: split_persist_info_def)
    next
      case (Cons p ps)
      then have "split_persist_info f (int (length buf)) offset = Inr None"
        using True False none [of ps] by (simp add: split_persist_info_def split_parts_bytes_def [of _ _ _ _ "Some []"])
      then show thesis by (rule that(1))
    qed
  qed
next
  case False
  have f: "0 < sw_parts f" "\<forall>p \<in> set (sw_persist f). 0 < p \<and> p \<le> sw_parts f"
    using v(1) False by (auto simp: torn_op_valid_def split_write_validate_def split: if_splits)
  obtain info where "split_parts_equal f (int (length buf)) offset = Inr info" "\<forall>p \<in> set info. part_inside offset buf p"
    using equal_parts_inside [OF f v(2) off] by blast
  then show thesis using that(2) [of info] False by (simp add: split_persist_info_def)
qed

lemma split_write_ok:
  assumes laws: "host_laws (eos ev) hv" and p: "path_ino hv (host_state w) path = Some i"
    and vs: "fmlookup (ffaults w) path = Some vs" "first_split_fault (List.enumerate 0 vs) = Some (k, f)"
    and v: "torn_op_valid f" "sw_parts f < 2147483648" "sum_list (sw_parts_bytes f) < 2147483648"
    and off: "0 \<le> offset" "offset + int (length buf) < 2147483648"
    and now: "sw_counter f + 1 = sw_occurrence f"
    and c: "regex_valid ev (any_around path)" "fmlookup (crash_faults_after_map w) ''write'' = Some l"
  shows "\<exists>torn_now w'. split_write ev path buf (int (length buf)) offset w = Inr (torn_now, w') \<and>
    (torn_now \<longleftrightarrow> split_persist_info f (int (length buf)) offset \<noteq> Inr None) \<and>
    FSCache w' = FSCache w \<and> path_ino hv (host_state w') = path_ino hv (host_state w) \<and>
    torn offset buf (content hv (host_state w) i) (content hv (host_state w') i) \<and>
    (\<forall>j. j \<noteq> i \<longrightarrow> content hv (host_state w') j = content hv (host_state w) j) \<and>
    (if torn_now
     then fmlookup (crash_faults_after_map w') ''write'' = Some (l @ [(any_around path, ''none'')]) \<and>
       (\<exists>info. split_persist_info f (int (length buf)) offset = Inr (Some info) \<and>
          content hv (host_state w') i = fold (persist_part buf) info (content hv (host_state w) i))
     else content hv (host_state w') = content hv (host_state w) \<and>
       crash_faults_after_map w' = crash_faults_after_map w \<and>
       fmlookup (ffaults w') path = Some (vs[k := SplitWriteF (f\<lparr>sw_counter := sw_counter f + 1\<rparr>)]))"
proof -
  note L = host_lawsD [OF laws]
  define f' where "f' = f\<lparr>sw_counter := sw_counter f + 1\<rparr>"
  define w1 where "w1 = set_fault path k (SplitWriteF f') (w\<lparr>injecting_fault := injecting_fault w @ [path]\<rparr>)"
  have w1: "FSCache w1 = FSCache w" "host_state w1 = host_state w"
    "crash_faults_after_map w1 = crash_faults_after_map w" "fmlookup (ffaults w1) path = Some (vs[k := SplitWriteF f'])"
    using vs(1) by (simp_all add: w1_def set_fault_def)
  obtain fd d1 where op: "os_open (eos ev) path (O_CREAT + O_WRONLY) 438 (host_state w) = (fd, d1)"
    "fd_ino hv d1 fd = Some i" "content hv d1 = content hv (host_state w)" "path_ino hv d1 = path_ino hv (host_state w)"
    by (rule openD [OF L(1) p, of "O_CREAT + O_WRONLY" 438]) simp_all
  define w2 where "w2 = w1\<lparr>host_state := d1\<rparr>"
  have sys: "syscall (os_open (eos ev) path (O_CREAT + O_WRONLY) 438) w1 = (fd, w2)"
    using op(1) by (simp add: syscall_def w1 w2_def)
  have same: "split_persist_info f' = split_persist_info f"
    by (simp add: fun_eq_iff f'_def split_persist_info_def split_parts_equal_def split_parts_bytes_def [abs_def] cong: if_cong)
  have run: "split_write ev path buf (int (length buf)) offset w =
      bnd (lift (split_persist_info f (int (length buf)) offset)) (\<lambda>persist_info.
            case persist_info of
              None \<Rightarrow> Inr (False, w2)
            | Some info \<Rightarrow>
                bnd (loopE (split_pwrite ev fd buf) info (False, w2)) (\<lambda>(short, w).
                if short then Inr (False, w)
                else bnd (add_crash_fault ev ''after'' ''write'' path ''none'' w) (\<lambda>(_, w).
                     Inr (True, w))))"
  proof -
    have due: "sw_counter f' = sw_occurrence f'" using now by (simp add: f'_def)
    have "split_write ev path buf (int (length buf)) offset w =
        split_write_fault ev path k f buf (int (length buf)) offset w"
      using vs by (simp add: split_write_def)
    then show ?thesis
      unfolding split_write_fault_def Let_def f'_def [symmetric] w1_def [symmetric] if_P [OF due] sys prod.case same .
  qed
  show ?thesis
  proof (rule split_persist_info_inside [OF v off])
    assume "split_persist_info f (int (length buf)) offset = Inr None"
    then show ?thesis
      using run op(3,4) by (intro exI [of _ False] exI [of _ w2]) (simp add: w2_def w1 f'_def)
  next
    fix info assume info: "split_persist_info f (int (length buf)) offset = Inr (Some info)"
      "\<forall>p \<in> set info. part_inside offset buf p"
    have small: "length buf < 2147483648" using off by simp
    have fd2: "fd_ino hv (host_state w2) fd = Some i" using op(2) by (simp add: w2_def)
    obtain d' where d': "loopE (split_pwrite ev fd buf) info (False, w2) = Inr (False, w2\<lparr>host_state := d'\<rparr>)"
      "content hv d' = (content hv (host_state w2))(i := fold (persist_part buf) info (content hv (host_state w2) i))"
      "path_ino hv d' = path_ino hv (host_state w2)"
      using split_pwrite_all [OF L(4) off(1) small fd2 info(2)] by blast
    define w3 where "w3 = w2\<lparr>host_state := d', crash_faults_after_map :=
        fmupd ''write'' (l @ [(any_around path, ''none'')]) (crash_faults_after_map w)\<rparr>"
    have "add_crash_fault ev ''after'' ''write'' path ''none'' (w2\<lparr>host_state := d'\<rparr>) = Inr ((), w3)"
      using c by (simp add: add_crash_fault_def w2_def w1 w3_def require_def fmat_Some [OF c(2)])
    then have "split_write ev path buf (int (length buf)) offset w = Inr (True, w3)"
      using run info(1) d'(1) by simp
    moreover have "torn offset buf (content hv (host_state w) i) (content hv d' i)"
      using d'(2) op(3) persist_parts_torn [OF off(1) info(2)] by (simp add: w2_def)
    ultimately show ?thesis
      using d'(2,3) op(3,4) info(1)
      by (intro exI [of _ True] exI [of _ w3]) (simp add: w3_def w2_def w1)
  qed
qed


section \<open>Crash faults\<close>

lemma report_ok:
  assumes "eengine ev = custom_cache_engine h c" and "cache_ok c (FSCache w)"
  shows "\<exists>r. command_unsynced_data_report ev ps w = Inr r"
proof -
  obtain r where "report_unsynced_data (custom_cache_engine h c) (FSCache w) = Inr r"
    using custom.report_unsynced_data_ok [OF assms(2) [unfolded cache_ok_def]] by blast
  then show ?thesis by (simp add: command_unsynced_data_report_def assms(1))
qed

text \<open>A crash fault that applies, after some that do not.\<close>

lemma trigger_kills:
  assumes e: "eengine ev = custom_cache_engine h c" and inv: "cache_ok c (FSCache w)"
    and l: "fmlookup (if timing = ''before'' then crash_faults_before_map w else crash_faults_after_map w) op =
        Some (xs @ fl # ys)"
    and skip: "\<forall>f \<in> set xs. crash_fault_matches ev op path to_path f = Inr False"
    and hit: "crash_fault_matches ev op path to_path fl = Inr True"
  shows "triggers ev op timing path to_path w = Inl (SelfKill (host_state w))"
proof -
  obtain r where r: "command_unsynced_data_report ev (injecting_fault w) w = Inr r"
    using report_ok [OF e inv] by blast
  have "foldE (\<lambda>it w. bnd (lift (crash_fault_matches ev op path to_path it)) (\<lambda>matched.
            if matched
            then bnd (command_unsynced_data_report ev (injecting_fault w) w) (\<lambda>_.
                 Inl (SelfKill (host_state w)))
            else Inr w)) (xs @ fl # ys) w = Inl (SelfKill (host_state w))"
    using no_crash_skip [OF skip, of w] hit r by (simp add: foldE_append)
  then show ?thesis by (simp add: triggers_def trigger_crash_fault_def fmat_Some [OF l])
qed

section \<open>Clear-cache faults\<close>

lemma clear_fault_alone:
  assumes "fmlookup (ffaults w) path = Some [ClearF f]"
  shows "trigger_configured_clear_fault ev op timing path to_path w =
    bnd (clear_fault_step ev op timing path to_path (0, ClearF f) w) (\<lambda>w. Inr ((), w))"
  using assms
  by (simp add: trigger_configured_clear_fault_def del: foldE.simps) (simp add: bnd_assoc)

definition counted :: "string \<Rightarrow> clear_f \<Rightarrow> int \<Rightarrow> ('e, 'd) world \<Rightarrow> ('e, 'd) world" where
  "counted path f n w = w\<lparr>ffaults := fmupd path [ClearF (f\<lparr>cl_counter := n\<rparr>)] (ffaults w)\<rparr>"

lemma counted_simps [simp]:
  "fmlookup (ffaults (counted path f n w)) path = Some [ClearF (f\<lparr>cl_counter := n\<rparr>)]"
  "FSCache (counted path f n w) = FSCache w" "host_state (counted path f n w) = host_state w"
  "counted path f n (counted path g m w) = counted path f n w"
  by (simp_all add: counted_def)

text \<open>
  The only fault of a path is a clear-cache fault, and no crash fault concerns the path.
\<close>

definition only_clear :: "('e, 'd) env \<Rightarrow> string \<Rightarrow> clear_f \<Rightarrow> ('e, 'd) world \<Rightarrow> bool" where
  "only_clear ev path f w \<longleftrightarrow> fmlookup (ffaults w) path = Some [ClearF f] \<and>
     no_crash_for ev path (crash_faults_before_map w) \<and> no_crash_for ev path (crash_faults_after_map w)"

lemma only_clear_updates [simp]:
  "only_clear ev path f (w\<lparr>FSCache := C\<rparr>) = only_clear ev path f w"
  "only_clear ev path f (w\<lparr>host_state := d\<rparr>) = only_clear ev path f w"
  "only_clear ev path f (w\<lparr>shared_locks := n\<rparr>) = only_clear ev path f w"
  "only_clear ev path f (forgotten path w) = only_clear ev path f w"
  by (auto simp: only_clear_def forgotten_def check_and_delete_pendingwrite_def split: option.splits)

lemma only_clear_counted:
  "only_clear ev path f w \<Longrightarrow> only_clear ev path (f\<lparr>cl_counter := n\<rparr>) (counted path f n w)"
  by (simp add: only_clear_def) (simp add: counted_def)

lemma counted_same: "only_clear ev path f w \<Longrightarrow> counted path f (cl_counter f) w = w"
  by (cases f) (simp add: only_clear_def counted_def fmupd_same)

lemma no_crash_trigger:
  assumes "no_crash_for ev path (crash_faults_before_map w)" and "no_crash_for ev path (crash_faults_after_map w)"
    and "op \<in> set allow_crash_fs_operations"
  shows "trigger_crash_fault ev op timing path '''' w = Inr ((), w)"
proof -
  obtain l where l: "fmlookup (if timing = ''before'' then crash_faults_before_map w
      else crash_faults_after_map w) op = Some l"
    "\<forall>f \<in> set l. crash_fault_matches ev op path '''' f = Inr False"
    using assms unfolding no_crash_for_def by (cases "timing = ''before''") auto
  show ?thesis using no_crash_skip [OF l(2), of w] by (simp add: trigger_crash_fault_def fmat_Some [OF l(1)])
qed

text \<open>A trigger counts when it stands before the operation, and strikes when its time has come.\<close>

lemma triggers_clear:
  fixes timing :: string
  assumes oc: "only_clear ev path f w" and e: "eengine ev = custom_cache_engine h c" and inv: "cache_ok c (FSCache w)"
    and op: "op \<in> set allow_crash_fs_operations" "op \<notin> set fs_op_multi_path"
  defines "w1 \<equiv> (if cl_op f = op \<and> timing = ''before'' then counted path f (cl_counter f + 1) w else w)"
  shows "triggers ev op timing path '''' w =
    (if cl_op f = op \<and> cl_timing f = timing \<and> cl_counter f = cl_occurrence f
     then if cl_crash f then Inl (SelfKill (host_state w))
          else bnd (command_fault_clear_cache ev w1) (\<lambda>(_, w). Inr ((), w))
     else Inr ((), w1))"
proof -
  have crash: "trigger_crash_fault ev op timing path '''' w = Inr ((), w)"
    using oc op(1) by (intro no_crash_trigger) (simp_all add: only_clear_def)
  have lookup: "fmlookup (ffaults w) path = Some [ClearF f]" using oc by (simp add: only_clear_def)
  have count: "set_fault path 0 (ClearF (f\<lparr>cl_counter := cl_counter f + 1\<rparr>)) w = counted path f (cl_counter f + 1) w"
    using lookup by (simp add: set_fault_def counted_def)
  have w1: "FSCache w1 = FSCache w" "host_state w1 = host_state w" by (simp_all add: w1_def)
  have "cache_ok c (FSCache w1)" using inv by (simp add: w1)
  then obtain r where r: "command_unsynced_data_report ev (injecting_fault w1) w1 = Inr r"
    using report_ok [OF e] by blast
  have "clear_fault_step ev op timing path '''' (0, ClearF f) w =
    (if cl_op f = op \<and> cl_timing f = timing \<and> cl_counter f = cl_occurrence f
     then if cl_crash f then Inl (SelfKill (host_state w))
          else bnd (command_fault_clear_cache ev w1) (\<lambda>(_, w). Inr w)
     else Inr w1)"
  proof (cases "cl_op f = op")
    case True
    then have w1': "w1 = (if timing = ''before''
        then set_fault path 0 (ClearF (f\<lparr>cl_counter := cl_counter f + 1\<rparr>)) w else w)"
      by (simp add: w1_def count)
    show ?thesis
      using True op(2) r w1(2)
      by (simp add: clear_fault_step_def Let_def w1' [symmetric])
  qed (simp add: clear_fault_step_def w1_def)
  then show ?thesis by (auto simp: triggers_def crash clear_fault_alone [OF lookup] bnd_assoc split_def)
qed

section \<open>Handlers of a path with a clear-cache fault\<close>

lemma only_clear_no_sequence: "only_clear ev path f w \<Longrightarrow> no_sequence path w"
  by (simp add: only_clear_def no_sequence_def is_ReorderF_def)

lemma only_clear_write_faults:
  "only_clear ev path f w \<Longrightarrow> write_faults ev path buf sz offset w = Inr (False, w)"
  by (simp add: only_clear_def write_faults_def persist_write_def get_and_update_reorder_fault_def split_write_def)

lemma single_path_ops [simp]:
  "''write'' \<notin> set fs_op_multi_path" "''fsync'' \<notin> set fs_op_multi_path" "''open'' \<notin> set fs_op_multi_path"
  "''access'' \<notin> set fs_op_multi_path" "''access'' \<in> set allow_crash_fs_operations"
  by (simp_all add: fs_op_multi_path_def allow_crash_fs_operations_def)

text \<open>
  The bodies of the handlers that write, synchronise and open, run with the command lock shared:
  each has done its work on the cache and the host when the trigger after it is reached.
\<close>

lemma fsync_to_trigger:
  assumes m: "mounted ev hv" and c: "c = FSConfig ev" and oc: "only_clear ev path f w"
    and ok: "files_ok c hv (FSCache w) (host_state w)" and p: "path_ino hv (host_state w) path = Some i"
  shows "\<exists>C' d'. fsync_body ev path isdatasync fi w =
      bnd (triggers ev ''fsync'' ''after'' path '''' ((forgotten path w)\<lparr>FSCache := C', host_state := d'\<rparr>))
        (\<lambda>(_, w). Inr (0, w)) \<and>
    synced c hv i (FSCache w) (host_state w) C' d'"
  by (rule fsync_body_ok [OF m c only_clear_no_sequence [OF oc] ok p])

lemma write_to_trigger:
  assumes m: "mounted ev hv" and c: "c = FSConfig ev" and oc: "only_clear ev path f w"
    and ok: "files_ok c hv (FSCache w) (host_state w)" and o: "open_at hv path fi i (host_state w)"
    and fits: "request_fits c offset buf" and flat: "offset \<le> file_size hv (FSCache w) (host_state w) i"
  shows "\<exists>C' d'. write_body ev fill path buf (int (length buf)) offset (Some fi) w =
      bnd (triggers ev ''write'' ''after'' path '''' (w\<lparr>FSCache := C', host_state := d'\<rparr>))
        (\<lambda>(_, w). Inr (int (length buf), w)) \<and>
    written (block_span (IO_BLOCK_SIZE c) offset (int (length buf))) c hv i offset buf
      (FSCache w) (host_state w) C' d'"
proof -
  have op: "path_ino hv (host_state w) path = Some i" "fd_ino hv (host_state w) (fh fi) = Some i"
    "fh fi \<noteq> - 1" "\<not> direct_io fi" using o by (auto simp: open_at_def)
  have b: "buf \<noteq> []" "length buf < 2147483648" "0 \<le> offset"
    "offset + int (length buf) \<le> 2147483648 * IO_BLOCK_SIZE c"
    using fits by (simp_all add: request_fits_def)
  obtain C' d' where r: "write_rest ev fill path buf (int (length buf)) offset True (fh fi) w =
      write_end ev path buf (int (length buf)) offset True (fh fi) (w\<lparr>FSCache := C', host_state := d'\<rparr>)"
    "written (block_span (IO_BLOCK_SIZE c) offset (int (length buf))) c hv i offset buf
      (FSCache w) (host_state w) C' d'"
    using write_rest_reaches [OF m c ok op(1,2) b(1,3) flat b(4), of fill True] by blast
  define w2 where "w2 = w\<lparr>FSCache := C', host_state := d'\<rparr>"
  have oc2: "only_clear ev path f w2" using oc by (simp add: w2_def)
  have "write_body ev fill path buf (int (length buf)) offset (Some fi) w =
      write_end ev path buf (int (length buf)) offset True (fh fi) w2"
    using r(1) by (simp add: write_body_rest(1) [OF op(3,4)] w2_def)
  also have "\<dots> = bnd (triggers ev ''write'' ''after'' path '''' w2) (\<lambda>(_, w). Inr (int (length buf), w))"
    using write_result [OF b(2), of "errno_of ev w2"] by (simp add: write_end_def only_clear_write_faults [OF oc2])
  finally show ?thesis using r(2) unfolding w2_def by blast
qed

end
