(* ===== verification/Fault_Theorems.thy ===== *)
theory Fault_Theorems
  imports Fault_Handlers
begin

text \<open>
  The properties of fault injection in the handlers: what a torn-op fault lets through before it
  kills the process, what a crash fault leaves, when a clear-cache fault strikes, and the deadlock
  of one that strikes inside a handler.
\<close>


section \<open>A write with a torn-op fault\<close>

lemma split_fault_no_clear:
  "fmlookup (ffaults w) path = Some [SplitWriteF f] \<Longrightarrow>
    trigger_configured_clear_fault ev op timing path to_path w = Inr ((), w)"
  by (simp add: trigger_configured_clear_fault_def clear_fault_step_def)

lemma split_fault_no_sequence:
  "fmlookup (ffaults w) path = Some [SplitWriteF f] \<Longrightarrow>
    write_faults ev path buf sz offset w = split_write ev path buf sz offset w"
  by (simp add: write_faults_def persist_write_def get_and_update_reorder_fault_def)

text \<open>The faults and the last trigger of the write, when its bytes are in the cache.\<close>

lemma torn_write_end:
  assumes m: "mounted ev hv" and ok: "cache_ok (FSConfig ev) (FSCache w)"
    and p: "path_ino hv (host_state w) path = Some i"
    and f: "fmlookup (ffaults w) path = Some [SplitWriteF f]" "torn_op_valid f" "sw_parts f < 2147483648"
      "sum_list (sw_parts_bytes f) < 2147483648" "sw_counter f + 1 = sw_occurrence f"
    and off: "0 \<le> offset" "offset + int (length buf) < 2147483648"
    and cr: "no_crash_for ev path (crash_faults_after_map w)"
    and r: "regex_valid ev (any_around path)" "regex_match ev path (any_around path)"
  shows "case split_persist_info f (int (length buf)) offset of
      Inl err \<Rightarrow> False
    | Inr None \<Rightarrow>
        (\<exists>w'. write_end ev path buf (int (length buf)) offset True fd w = Inr (int (length buf), w') \<and>
           FSCache w' = FSCache w \<and> content hv (host_state w') = content hv (host_state w))
    | Inr (Some info) \<Rightarrow>
        (\<exists>d'. write_end ev path buf (int (length buf)) offset True fd w = Inl (SelfKill d') \<and>
           content hv d' = (content hv (host_state w))
             (i := fold (persist_part buf) info (content hv (host_state w) i)) \<and>
           torn offset buf (content hv (host_state w) i) (content hv d' i))"
proof -
  have laws: "host_laws (eos ev) hv" and e: "eengine ev = custom_cache_engine (eos ev) (FSConfig ev)"
    using m by (simp_all add: mounted_def)
  obtain l where l: "fmlookup (crash_faults_after_map w) ''write'' = Some l"
    "\<forall>f \<in> set l. crash_fault_matches ev ''write'' path '''' f = Inr False"
    using cr fault_ops(1) unfolding no_crash_for_def by blast
  have first: "first_split_fault (List.enumerate 0 [SplitWriteF f]) = Some (0, f)" by simp
  obtain torn_now w' where s: "split_write ev path buf (int (length buf)) offset w = Inr (torn_now, w')"
    "torn_now \<longleftrightarrow> split_persist_info f (int (length buf)) offset \<noteq> Inr None"
    "FSCache w' = FSCache w" "torn offset buf (content hv (host_state w) i) (content hv (host_state w') i)"
    "\<forall>j. j \<noteq> i \<longrightarrow> content hv (host_state w') j = content hv (host_state w) j"
    "if torn_now
     then fmlookup (crash_faults_after_map w') ''write'' = Some (l @ [(any_around path, ''none'')]) \<and>
       (\<exists>info. split_persist_info f (int (length buf)) offset = Inr (Some info) \<and>
          content hv (host_state w') i = fold (persist_part buf) info (content hv (host_state w) i))
     else content hv (host_state w') = content hv (host_state w) \<and>
       crash_faults_after_map w' = crash_faults_after_map w \<and>
       fmlookup (ffaults w') path = Some ([SplitWriteF f][0 := SplitWriteF (f\<lparr>sw_counter := sw_counter f + 1\<rparr>)])"
    using split_write_ok [OF laws p f(1) first f(2-4) off f(5) r(1) l(1)] by (elim exE conjE) (rule that)
  define res where "res = (if c_int (int (length buf)) = - 1 then errno_of ev w' else c_int (int (length buf)))"
  have res: "res = int (length buf)" using write_result [of "length buf"] off by (simp add: res_def)
  have run: "write_end ev path buf (int (length buf)) offset True fd w =
      bnd (triggers ev ''write'' ''after'' path '''' w') (\<lambda>(_, w). Inr (int (length buf), w))"
    unfolding write_end_def split_fault_no_sequence [OF f(1)] s(1) bnd_Inr prod.case Let_def res_def [symmetric] res by simp
  show ?thesis
  proof (cases torn_now)
    case True
    then obtain info where info: "split_persist_info f (int (length buf)) offset = Inr (Some info)"
      "content hv (host_state w') i = fold (persist_part buf) info (content hv (host_state w) i)"
      "fmlookup (crash_faults_after_map w') ''write'' = Some (l @ (any_around path, ''none'') # [])"
      using s(6) by auto
    have hit: "crash_fault_matches ev ''write'' path '''' (any_around path, ''none'') = Inr True"
      using r(2) by (simp add: crash_fault_matches_def)
    have ok': "cache_ok (FSConfig ev) (FSCache w')" using ok s(3) by simp
    have "triggers ev ''write'' ''after'' path '''' w' = Inl (SelfKill (host_state w'))"
      by (rule trigger_kills [OF e ok' _ l(2) hit]) (use info(3) in simp)
    moreover have "content hv (host_state w') = (content hv (host_state w))
        (i := fold (persist_part buf) info (content hv (host_state w) i))"
      using s(5) info(2) by (auto simp: fun_eq_iff)
    ultimately show ?thesis using info(1) run s(4) by simp
  next
    case False
    then have none: "split_persist_info f (int (length buf)) offset = Inr None" using s(2) by simp
    have w': "content hv (host_state w') = content hv (host_state w)" "crash_faults_after_map w' = crash_faults_after_map w"
      "fmlookup (ffaults w') path = Some [SplitWriteF (f\<lparr>sw_counter := sw_counter f + 1\<rparr>)]"
      using s(6) False by simp_all
    have "trigger_crash_fault ev ''write'' ''after'' path '''' w' = Inr ((), w')"
      using no_crash_skip [OF l(2), of w'] l(1) by (simp add: trigger_crash_fault_def w'(2) fmat_Some [OF l(1)])
    then have "triggers ev ''write'' ''after'' path '''' w' = Inr ((), w')"
      using split_fault_no_clear [OF w'(3)] by (simp add: triggers_def)
    then show ?thesis using run none w'(1) s(3) by simp
  qed
qed

section \<open>Requests on a path with a clear-cache fault\<close>

fun request_op :: "request \<Rightarrow> string" where
  "request_op (Req_write offset buf) = ''write''"
| "request_op (Req_read offset buf) = ''read''"
| "request_op (Req_fsync isdatasync) = ''fsync''"
| "request_op Req_clear = []"









text \<open>A run of requests: how many of them the fault counts, and what they leave.\<close>

definition counted_requests :: "clear_f \<Rightarrow> request list \<Rightarrow> nat" where
  "counted_requests f reqs = length (filter (\<lambda>req. request_op req = cl_op f) reqs)"

lemma counted_requests_simps [simp]:
  "counted_requests f [] = 0"
  "counted_requests f (req # reqs) = (if request_op req = cl_op f then 1 else 0) + counted_requests f reqs"
  by (simp_all add: counted_requests_def)









text \<open>
  A handler whose body comes to its trigger for the operation of a fault that is due, with the
  command lock still shared.
\<close>

definition clears_next :: "('e, 'd) env \<Rightarrow> string \<Rightarrow> clear_f \<Rightarrow> ('e, 'd) world \<Rightarrow> bool" where
  "clears_next ev path f w \<longleftrightarrow> only_clear ev path f w \<and> \<not> cl_crash f \<and> cl_timing f = ''after'' \<and>
     cl_counter f + 1 = cl_occurrence f"

definition entered :: "string \<Rightarrow> clear_f \<Rightarrow> ('e, 'd) world \<Rightarrow> ('e, 'd) world" where
  "entered path f w = (counted path f (cl_counter f + 1) w)\<lparr>shared_locks := Suc (shared_locks w)\<rparr>"

lemma entered_simps [simp]:
  "FSCache (entered path f w) = FSCache w" "host_state (entered path f w) = host_state w"
  "0 < shared_locks (entered path f w)"
  by (simp_all add: entered_def)

lemma entered_clear:
  "clears_next ev path f w \<Longrightarrow> only_clear ev path (f\<lparr>cl_counter := cl_counter f + 1\<rparr>) (entered path f w)"
  using only_clear_counted [of ev path f w "cl_counter f + 1"] by (auto simp: clears_next_def entered_def)

lemma locked_clear:
  assumes w: "fs_inv ev hv w" "clears_next ev path f w"
    and op: "op \<in> set allow_crash_fs_operations" "op \<notin> set fs_op_multi_path" "cl_op f = op"
    and body: "body (entered path f w) = bnd (triggers ev op ''after'' path '''' w2) rest"
    and w2: "only_clear ev path (f\<lparr>cl_counter := cl_counter f + 1\<rparr>) w2" "0 < shared_locks w2"
      "cache_ok (FSConfig ev) (FSCache w2)"
  shows "bnd (triggers ev op ''before'' path '''' w) (\<lambda>(_, w). with_shared_lock body w) = Inl (Fault Deadlock)"
proof -
  have e: "eengine ev = custom_cache_engine (eos ev) (FSConfig ev)" and inv: "cache_ok (FSConfig ev) (FSCache w)"
    using w(1) files_atD(1) by (auto simp: fs_inv_def mounted_def)
  have f: "only_clear ev path f w" "\<not> cl_crash f" "cl_timing f = ''after''" "cl_counter f + 1 = cl_occurrence f"
    using w(2) by (simp_all add: clears_next_def)
  have before: "triggers ev op ''before'' path '''' w = Inr ((), counted path f (cl_counter f + 1) w)"
    using triggers_clear [OF f(1) e inv op(1,2), of "''before''"] op(3) f(3) by simp
  have "triggers ev op ''after'' path '''' w2 = Inl (Fault Deadlock)"
    using triggers_clear [OF w2(1) e w2(3) op(1,2), of "''after''"] op(3) f clear_cache_blocked [OF w2(2)] by simp
  then have "body (entered path f w) = Inl (Fault Deadlock)" using body by simp
  moreover have "shared_locks (counted path f (cl_counter f + 1) w) = shared_locks w" by (simp add: counted_def)
  ultimately show ?thesis by (simp add: before with_shared_lock_def entered_def)
qed

lemma fsync_deadlocks:
  assumes w: "fs_inv ev hv w" "clears_next ev path f w" and p: "path_ino hv (host_state w) path = Some i"
    and op: "cl_op f = ''fsync''"
  shows "lfs_fsync ev path isdatasync fi w = Inl (Fault Deadlock)"
proof -
  have m: "mounted ev hv" and ok: "files_ok (FSConfig ev) hv (FSCache w) (host_state w)"
    using w(1) by (simp_all add: fs_inv_def)
  obtain C' d' where b: "fsync_body ev path isdatasync fi (entered path f w) =
      bnd (triggers ev ''fsync'' ''after'' path '''' ((forgotten path (entered path f w))\<lparr>FSCache := C', host_state := d'\<rparr>))
        (\<lambda>(_, w). Inr (0, w))" "synced (FSConfig ev) hv i (FSCache w) (host_state w) C' d'"
    using fsync_to_trigger [OF m refl entered_clear [OF w(2)], of i isdatasync fi] ok p unfolding entered_simps by blast
  show ?thesis
    unfolding lfs_fsync_def
    by (rule locked_clear [where body = "fsync_body ev path isdatasync fi", OF w _ _ op b(1)])
      (use entered_clear [OF w(2)] b(2) in \<open>auto simp: synced_def dest: files_atD(1)\<close>)
qed

lemma write_deadlocks:
  assumes w: "fs_inv ev hv w" "clears_next ev path f w" and o: "open_at hv path fi i (host_state w)"
    and r: "request_fits (FSConfig ev) offset buf" "offset \<le> file_size hv (FSCache w) (host_state w) i"
    and op: "cl_op f = ''write''"
  shows "lfs_write ev path buf (int (length buf)) offset (Some fi) w = Inl (Fault Deadlock)"
proof -
  have m: "mounted ev hv" and ok: "files_ok (FSConfig ev) hv (FSCache w) (host_state w)"
    using w(1) by (simp_all add: fs_inv_def)
  obtain C' d' where b: "write_body ev (lfs_write_fill ev) path buf (int (length buf)) offset (Some fi) (entered path f w) =
      bnd (triggers ev ''write'' ''after'' path '''' ((entered path f w)\<lparr>FSCache := C', host_state := d'\<rparr>))
        (\<lambda>(_, w). Inr (int (length buf), w))"
    "written (block_span (IO_BLOCK_SIZE (FSConfig ev)) offset (int (length buf))) (FSConfig ev) hv i offset buf
      (FSCache w) (host_state w) C' d'"
    using write_to_trigger [OF m refl entered_clear [OF w(2)] _ _ r(1), of fi i "lfs_write_fill ev"] ok o r(2)
    unfolding entered_simps by blast
  show ?thesis
    unfolding lfs_write_def
    by (rule locked_clear [where body = "write_body ev (lfs_write_fill ev) path buf (int (length buf)) offset (Some fi)",
          OF w _ _ op b(1)])
      (use entered_clear [OF w(2)] b(2) in \<open>auto simp: written_def dest: files_atD(1)\<close>)
qed

lemma open_deadlocks:
  assumes w: "fs_inv ev hv w" "clears_next ev path f w" and p: "path_ino hv (host_state w) path = Some i"
    and fl: "fi_flags fl \<in> {O_RDONLY, O_WRONLY, O_RDWR}" and op: "cl_op f = ''open''"
  shows "lfs_open ev path fl w = Inl (Fault Deadlock)"
proof -
  have m: "mounted ev hv" and ok: "files_ok (FSConfig ev) hv (FSCache w) (host_state w)"
    using w(1) by (simp_all add: fs_inv_def)
  obtain fd C' d' where b: "open_body ev path fl (entered path f w) =
      bnd (triggers ev ''open'' ''after'' path '''' ((entered path f w)\<lparr>FSCache := C', host_state := d'\<rparr>)) (\<lambda>(_, w).
        Inr ((0, fl\<lparr>fh := fd\<rparr>), w))" "files_ok (FSConfig ev) hv C' d'"
    using open_body_ok [OF m refl _ _ fl, of "entered path f w" path i] ok p unfolding entered_simps by blast
  show ?thesis
    unfolding lfs_open_def
    by (rule locked_clear [where body = "open_body ev path fl", OF w _ _ op b(1)])
      (use entered_clear [OF w(2)] files_atD(1) [OF b(2)] in simp_all)
qed

lemma access_deadlocks:
  assumes w: "fs_inv ev hv w" "clears_next ev path f w" and os: "fst (os_access (eos ev) path mode (host_state w)) \<noteq> - 1"
    and op: "cl_op f = ''access''"
  shows "lfs_access ev path mode w = Inl (Fault Deadlock)"
proof -
  have ok: "cache_ok (FSConfig ev) (FSCache w)" using w(1) files_atD(1) by (auto simp: fs_inv_def)
  define w0 where "w0 = entered path f w"
  define d' where "d' = snd (os_access (eos ev) path mode (host_state w))"
  have w0: "FSCache w0 = FSCache w" "host_state w0 = host_state w" by (simp_all add: w0_def)
  have "w0\<lparr>host_state := d'\<rparr> = w0\<lparr>FSCache := FSCache w, host_state := d'\<rparr>" by (cases w0) (use w0(1) in simp)
  then have b: "(\<lambda>w. let (res, w) = syscall (os_access (eos ev) path mode) w in
       if res = - 1 then Inr (errno_of ev w, w)
       else bnd (triggers ev ''access'' ''after'' path '''' w) (\<lambda>(_, w). Inr (0, w))) (entered path f w) =
      bnd (triggers ev ''access'' ''after'' path '''' ((entered path f w)\<lparr>FSCache := FSCache w, host_state := d'\<rparr>))
        (\<lambda>(_, w). Inr (0, w))"
    using os unfolding w0_def [symmetric] by (simp add: syscall_def split_def Let_def w0(2) d'_def)
  show ?thesis
    unfolding lfs_access_def pass_on_triggered_def
    by (rule locked_clear [where body = "\<lambda>w. let (res, w) = syscall (os_access (eos ev) path mode) w in
         if res = - 1 then Inr (errno_of ev w, w)
         else bnd (triggers ev ''access'' ''after'' path '''' w) (\<lambda>(_, w). Inr (0, w))", OF w _ _ op b])
      (use entered_clear [OF w(2)] ok in simp_all)
qed

section \<open>The properties\<close>

text \<open>
  C16. A torn-op fault lets parts of one write through and then kills the process. When the fault
  is due in a write that starts within the file and finds a free page for every block, the process
  ends with the bytes of the chosen parts on the host, at their places in the file and put there in
  the order in which they are listed; every other byte of every file is as it was. When the parts
  of the fault do not add up to the size of the write, the write succeeds in the cache and the host
  is left alone. The text of the path, taken as a pattern, has to match the path: it is the crash
  fault for this pattern, added at the end of the write, that kills the process.
\<close>

theorem torn_op_persists_only_its_parts:
  assumes "mounted ev hv" and "files_ok (FSConfig ev) hv (FSCache w) (host_state w)"
    and "open_at hv path fi i (host_state w)"
    and "fmlookup (ffaults w) path = Some [SplitWriteF f]" and "torn_op_valid f"
    and "sw_parts f < 2147483648" and "sum_list (sw_parts_bytes f) < 2147483648"
    and "sw_counter f + 1 = sw_occurrence f"
    and "no_crash_for ev path (crash_faults_before_map w)" and "no_crash_for ev path (crash_faults_after_map w)"
    and "regex_valid ev (any_around path)" and "regex_match ev path (any_around path)"
    and "buf \<noteq> []" and "0 \<le> offset" and "offset \<le> file_size hv (FSCache w) (host_state w) i"
    and "offset + int (length buf) < 2147483648"
    and "block_span (IO_BLOCK_SIZE (FSConfig ev)) offset (int (length buf)) \<le> nfree (cengine (FSCache w))"
  shows "case split_persist_info f (int (length buf)) offset of
      Inl err \<Rightarrow> False
    | Inr None \<Rightarrow>
        (\<exists>w'. lfs_write ev path buf (int (length buf)) offset (Some fi) w = Inr (int (length buf), w') \<and>
           content hv (host_state w') = content hv (host_state w))
    | Inr (Some info) \<Rightarrow>
        (\<exists>d'. lfs_write ev path buf (int (length buf)) offset (Some fi) w = Inl (SelfKill d') \<and>
           content hv d' = (content hv (host_state w))
             (i := fold (persist_part buf) info (content hv (host_state w) i)) \<and>
           torn offset buf (content hv (host_state w) i) (content hv d' i))"
proof -
  define w0 where "w0 = w\<lparr>shared_locks := Suc (shared_locks w)\<rparr>"
  have w0: "FSCache w0 = FSCache w" "host_state w0 = host_state w" by (simp_all add: w0_def)
  have o: "path_ino hv (host_state w) path = Some i" "fd_ino hv (host_state w) (fh fi) = Some i"
    "fh fi \<noteq> - 1" "\<not> direct_io fi" using assms(3) by (auto simp: open_at_def)
  have "1 * 1 \<le> 2147483648 * IO_BLOCK_SIZE (FSConfig ev)" "2147483648 * 1 \<le> 2147483648 * IO_BLOCK_SIZE (FSConfig ev)"
    using assms(1) single_blockD(3) [of "FSConfig ev"] by (auto simp: mounted_def)
  then have bound: "offset + int (length buf) \<le> 2147483648 * IO_BLOCK_SIZE (FSConfig ev)" using assms(16) by simp
  obtain C' d' where r: "write_rest ev (lfs_write_fill ev) path buf (int (length buf)) offset True (fh fi) w0 =
      write_end ev path buf (int (length buf)) offset True (fh fi) (w0\<lparr>FSCache := C', host_state := d'\<rparr>)"
    "written (block_span (IO_BLOCK_SIZE (FSConfig ev)) offset (int (length buf))) (FSConfig ev) hv i offset buf
      (FSCache w) (host_state w) C' d'"
    using write_rest_reaches [OF assms(1) refl _ _ _ assms(13,14) _ bound, of w0 path i "fh fi" "lfs_write_fill ev" True]
      assms(2,15) o unfolding w0 by blast
  define w2 where "w2 = w0\<lparr>FSCache := C', host_state := d'\<rparr>"
  have w2: "FSCache w2 = C'" "host_state w2 = d'" "ffaults w2 = ffaults w"
    "crash_faults_after_map w2 = crash_faults_after_map w" by (simp_all add: w2_def w0_def)
  have d': "content hv d' = content hv (host_state w)" "path_ino hv d' path = Some i" "cache_ok (FSConfig ev) C'"
    using r(2) assms(17) o(1) files_atD(1) by (auto simp: written_def)
  have "trigger_crash_fault ev ''write'' ''before'' path '''' w = Inr ((), w)"
    by (rule no_crash_trigger [OF assms(9,10)]) simp
  then have before: "triggers ev ''write'' ''before'' path '''' w = Inr ((), w)"
    using split_fault_no_clear [OF assms(4)] by (simp add: triggers_def)
  have run: "lfs_write ev path buf (int (length buf)) offset (Some fi) w =
      bnd (write_end ev path buf (int (length buf)) offset True (fh fi) w2) (\<lambda>(x, w).
        Inr (x, w\<lparr>shared_locks := shared_locks w - 1\<rparr>))"
    using r(1) by (simp add: lfs_write_def before with_shared_lock_def w0_def [symmetric]
        write_body_rest(1) [OF o(3,4)] w2_def)
  have "case split_persist_info f (int (length buf)) offset of
      Inl err \<Rightarrow> False
    | Inr None \<Rightarrow>
        (\<exists>w'. write_end ev path buf (int (length buf)) offset True (fh fi) w2 = Inr (int (length buf), w') \<and>
           FSCache w' = FSCache w2 \<and> content hv (host_state w') = content hv (host_state w2))
    | Inr (Some info) \<Rightarrow>
        (\<exists>d'. write_end ev path buf (int (length buf)) offset True (fh fi) w2 = Inl (SelfKill d') \<and>
           content hv d' = (content hv (host_state w2))
             (i := fold (persist_part buf) info (content hv (host_state w2) i)) \<and>
           torn offset buf (content hv (host_state w2) i) (content hv d' i))"
    by (rule torn_write_end [OF assms(1) _ _ _ assms(5-8,14,16) _ assms(11,12)])
      (use assms(4,10) d' in \<open>simp_all add: w2\<close>)
  then show ?thesis unfolding run w2(2) d'(1) by (auto split: sum.splits option.splits)
qed


text \<open>An environment in which every pattern matches, and a torn-op fault.\<close>

definition demo_regex_env :: "(engine, mem_host) env" where
  "demo_regex_env = start_environment mem_os (\<lambda>_ _. True) (\<lambda>_. True) 0 default_config"

lemma demo_regex_mounted: "mounted demo_regex_env mem_view"
  using mem_host_laws single_block_default by (simp add: mounted_def demo_regex_env_def start_environment_def)

lemma demo_regex_config [simp]: "FSConfig demo_regex_env = default_config"
  by (simp add: demo_regex_env_def start_environment_def)

lemma no_crash_new:
  "no_crash_for ev path (crash_faults_before_map (new_lazyfs C fs d))"
  "no_crash_for ev path (crash_faults_after_map (new_lazyfs C fs d))"
  by (simp_all add: no_crash_for_def new_lazyfs_def Let_def no_faults_lookup)

lemma new_faults [simp]: "ffaults (new_lazyfs C fs d) = fs"
  by (simp add: new_lazyfs_def Let_def)

lemma demo_file:
  obtains e where "new_engine default_config = Inr e"
    "files_ok default_config mem_view (new_cache e) demo_disk"
    "open_at mem_view ''/f'' demo_fd 7 demo_disk" "seen default_config mem_view (new_cache e) demo_disk 7 = [9, 9]"
    "file_size mem_view (new_cache e) demo_disk 7 = 2" "content mem_view demo_disk 7 = [9, 9]"
    "nfree (cengine (new_cache e)) = nat (CACHE_NR_PAGES default_config)" "0 < CACHE_NR_PAGES default_config"
proof -
  obtain e where e: "new_engine default_config = Inr e" "0 < CACHE_NR_PAGES default_config"
    "nfree (cengine (new_cache e)) = nat (CACHE_NR_PAGES default_config)"
    "serving demo_env mem_view ''/f'' demo_fd 7 (new_lazyfs (new_cache e) fmempty demo_disk)"
    "seen default_config mem_view (new_cache e) demo_disk 7 = [9, 9]" "content mem_view demo_disk 7 = [9, 9]"
    by (rule demo_serving)
  have ok: "files_ok default_config mem_view (new_cache e) demo_disk" "open_at mem_view ''/f'' demo_fd 7 demo_disk"
    using servingD(3,10) [OF e(4)] by simp_all
  have "file_size mem_view (new_cache e) demo_disk 7 = 2" using file_size_seen [OF ok(1), of 7] e(5) by simp
  then show thesis using that [OF e(1) ok e(5) _ e(6,3,2)] by blast
qed

definition demo_torn :: split_write_f where
  "demo_torn = new_SplitWriteF_parts 1 [1, 3] 3"

theorem torn_op_persists_only_its_parts_witness:
  "\<exists>w d'. lfs_write demo_regex_env ''/f'' [1, 2, 3, 4, 5, 6, 7] 7 0 (Some demo_fd) w = Inl (SelfKill d') \<and>
     content mem_view (host_state w) 7 = [9, 9] \<and> content mem_view d' 7 = [1, 2, 0, 0, 5, 6, 7]"
proof -
  obtain e where e: "files_ok default_config mem_view (new_cache e) demo_disk"
    "open_at mem_view ''/f'' demo_fd 7 demo_disk" "file_size mem_view (new_cache e) demo_disk 7 = 2"
    "content mem_view demo_disk 7 = [9, 9]"
    "nfree (cengine (new_cache e)) = nat (CACHE_NR_PAGES default_config)" "0 < CACHE_NR_PAGES default_config"
    by (rule demo_file)
  define w where "w = new_lazyfs (new_cache e) (fmupd ''/f'' [SplitWriteF demo_torn] fmempty) demo_disk"
  have w: "FSCache w = new_cache e" "host_state w = demo_disk" by (simp_all add: w_def)
  have f: "fmlookup (ffaults w) ''/f'' = Some [SplitWriteF demo_torn]" "torn_op_valid demo_torn" "sw_parts demo_torn < 2147483648"
    "sum_list (sw_parts_bytes demo_torn) < 2147483648" "sw_counter demo_torn + 1 = sw_occurrence demo_torn"
    by (simp_all add: w_def torn_op_valid_def demo_torn_def new_SplitWriteF_parts_def split_write_validate_def)
  have info: "split_persist_info demo_torn (int (length [1, 2, 3, 4, 5, 6, 7 :: byte])) 0 = Inr (Some [(0, 2, 0), (4, 3, 4)])"
    by (simp add: split_persist_info_def split_parts_equal_def demo_torn_def new_SplitWriteF_parts_def
        require_def u64_def c_int_id)
  have rx: "regex_valid demo_regex_env p" "regex_match demo_regex_env t p" for t p
    by (simp_all add: demo_regex_env_def start_environment_def)
  have nc: "no_crash_for demo_regex_env ''/f'' (crash_faults_before_map w)"
    "no_crash_for demo_regex_env ''/f'' (crash_faults_after_map w)"
    by (simp_all add: w_def no_crash_new)
  have "block_span 4096 0 7 \<le> nfree (cengine (new_cache e))" using e(5,6) by (simp add: block_span_def)
  then obtain d' where "lfs_write demo_regex_env ''/f'' [1, 2, 3, 4, 5, 6, 7] 7 0 (Some demo_fd) w = Inl (SelfKill d')"
    "content mem_view d' = (content mem_view (host_state w))
      (7 := fold (persist_part [1, 2, 3, 4, 5, 6, 7]) [(0, 2, 0), (4, 3, 4)] (content mem_view (host_state w) 7))"
    using torn_op_persists_only_its_parts [OF demo_regex_mounted _ _ f(1-5) nc rx,
        of demo_fd 7 "[1, 2, 3, 4, 5, 6, 7]" 0] e(1-3) info by (auto simp: w)
  moreover have "fold (persist_part [1, 2, 3, 4, 5, 6, 7]) [(0, 2, 0), (4, 3, 4)] [9, 9] = [1, 2, 0, 0, 5, 6, 7 :: byte]"
    by (simp add: persist_part_def file_write_def numeral_eq_Suc)
  ultimately show ?thesis using e(4) w(2) by (intro exI [of _ w] exI [of _ d']) simp
qed



text \<open>
  C36. A configured clear-cache fault without a crash and with the timing \<open>after\<close> deadlocks the
  handler it strikes in: the handler has taken the command lock in shared mode and still holds it
  when the trigger at its end clears the cache, which wants the lock exclusively. This is so for
  fsync, for a write that does not start past the end of the file, for open and for access, as soon
  as the counter of the fault reaches its occurrence.
\<close>

theorem clear_fault_in_handler_deadlocks:
  assumes "fs_inv ev hv w" and "open_at hv path fi i (host_state w)"
    and "fmlookup (ffaults w) path = Some [ClearF f]"
    and "no_crash_for ev path (crash_faults_before_map w)" and "no_crash_for ev path (crash_faults_after_map w)"
    and "\<not> cl_crash f" and "cl_timing f = ''after''" and "cl_counter f + 1 = cl_occurrence f"
    and "request_fits (FSConfig ev) offset buf" and "offset \<le> file_size hv (FSCache w) (host_state w) i"
    and "fi_flags fl \<in> {O_RDONLY, O_WRONLY, O_RDWR}" and "fst (os_access (eos ev) path mode (host_state w)) \<noteq> - 1"
  shows "(cl_op f = ''fsync'' \<longrightarrow> lfs_fsync ev path isdatasync (Some fi) w = Inl (Fault Deadlock)) \<and>
    (cl_op f = ''write'' \<longrightarrow>
       lfs_write ev path buf (int (length buf)) offset (Some fi) w = Inl (Fault Deadlock)) \<and>
    (cl_op f = ''open'' \<longrightarrow> lfs_open ev path fl w = Inl (Fault Deadlock)) \<and>
    (cl_op f = ''access'' \<longrightarrow> lfs_access ev path mode w = Inl (Fault Deadlock))"
proof -
  have p: "path_ino hv (host_state w) path = Some i" using assms(2) by (simp add: open_at_def)
  have w: "fs_inv ev hv w" "clears_next ev path f w"
    using assms(1,3-8) by (simp_all add: clears_next_def only_clear_def)
  show ?thesis
    using fsync_deadlocks [OF w p] write_deadlocks [OF w assms(2,9,10)] open_deadlocks [OF w p assms(11)]
      access_deadlocks [OF w assms(12)] by blast
qed

theorem clear_fault_in_handler_deadlocks_witness:
  "\<exists>w. shared_locks w = 0 \<and> lfs_fsync demo_env ''/f'' False (Some demo_fd) w = Inl (Fault Deadlock)"
proof -
  obtain e where e: "files_ok default_config mem_view (new_cache e) demo_disk"
    "open_at mem_view ''/f'' demo_fd 7 demo_disk" "file_size mem_view (new_cache e) demo_disk 7 = 2"
    by (rule demo_file)
  define f where "f = new_ClearF ''after'' ''fsync'' ''/f'' ''none'' 1 False"
  define w where "w = new_lazyfs (new_cache e) (fmupd ''/f'' [ClearF f] fmempty) demo_disk"
  have w: "FSCache w = new_cache e" "host_state w = demo_disk" "shared_locks w = 0" by (simp_all add: w_def)
  have inv: "fs_inv demo_env mem_view w" using e(1) demo_mounted by (simp add: fs_inv_def w_def)
  have o: "open_at mem_view ''/f'' demo_fd 7 (host_state w)" using e(2) by (simp add: w)
  have nc: "no_crash_for demo_env ''/f'' (crash_faults_before_map w)"
    "no_crash_for demo_env ''/f'' (crash_faults_after_map w)"
    by (simp_all add: w_def no_crash_new)
  have f: "fmlookup (ffaults w) ''/f'' = Some [ClearF f]" "\<not> cl_crash f" "cl_timing f = ''after''"
    "cl_counter f + 1 = cl_occurrence f" "cl_op f = ''fsync''"
    by (simp_all add: f_def new_ClearF_def w_def)
  have req: "request_fits (FSConfig demo_env) 0 [1]" "0 \<le> file_size mem_view (FSCache w) (host_state w) 7"
    "fi_flags demo_fd \<in> {O_RDONLY, O_WRONLY, O_RDWR}"
    using e(3) by (simp_all add: w demo_fd_def O_RDONLY_def O_WRONLY_def O_RDWR_def)
  have acc: "fst (os_access (eos demo_env) ''/f'' 0 (host_state w)) \<noteq> - 1"
    by (simp add: w mem_os_def demo_disk_def mh_path_op_def)
  show ?thesis
    using clear_fault_in_handler_deadlocks [OF inv o f(1) nc f(2-4) req acc] f(5) w(3) by blast
qed

end
