(* ===== verification/Command_Theorems.thy ===== *)
theory Command_Theorems
  imports Fault_Theorems
begin

text \<open>
What the commands of the faults FIFO, the configuration file and the command line do to the
  tables of faults and to the state: at most one torn fault of each kind for a path, validated faults,
  refused commands without effect, the notation of number lists and the arguments passed to FUSE.
\<close>


section \<open>The tables of faults\<close>

lemma add_torn_op_at_most_one:
  assumes "add_torn_op_fault path parts parts_bytes persist occurrence fs = Inr (errors, fs')"
    and "at_most_one is_SplitWriteF fs" and "at_most_one is_ReorderF fs"
  shows "at_most_one is_SplitWriteF fs' \<and> at_most_one is_ReorderF fs' \<and> (errors \<noteq> [] \<longrightarrow> fs' = fs)"
proof -
  have "at_most_one is_SplitWriteF fs'"
    using torn_op.keeps_at_most_one [of "(path, parts, parts_bytes, persist, occurrence)"] assms(1,2) by simp
  moreover consider "fs' = fs"
    | f where "is_SplitWriteF f" "fs' = register_fault is_SplitWriteF path f fs"
        "length errors = conflicts is_SplitWriteF path fs"
    using add_torn_op_fault_law [OF assms(1)] by blast
  then have "at_most_one is_ReorderF fs' \<and> (errors \<noteq> [] \<longrightarrow> fs' = fs)"
  proof cases
    case (2 f)
    have "\<not> is_ReorderF f" using 2(1) by (cases f) simp_all
    moreover have "fs' = fs" if "errors \<noteq> []"
    proof -
      have "filter is_SplitWriteF (faults_of fs path) \<noteq> []"
        using 2(3) that by (auto simp: conflicts_faults_of)
      then show ?thesis
        using 2(2) by (auto simp: register_fault_def faults_of_def filter_empty_conv split: option.splits)
    qed
    ultimately show ?thesis using 2(2) assms(3) by (auto intro: at_most_one_register)
  qed (use assms(3) in simp)
  ultimately show ?thesis by blast
qed

lemma add_torn_seq_at_most_one:
  assumes "add_torn_seq_fault path op persist occurrence fs = Inr (errors, fs')"
    and "at_most_one is_SplitWriteF fs" and "at_most_one is_ReorderF fs"
  shows "at_most_one is_SplitWriteF fs' \<and> at_most_one is_ReorderF fs' \<and> (errors \<noteq> [] \<longrightarrow> fs' = fs)"
proof -
  have "at_most_one is_ReorderF fs'"
    using torn_seq.keeps_at_most_one [of "(path, op, persist, occurrence)"] assms(1,3) by simp
  moreover consider "fs' = fs"
    | f where "is_ReorderF f" "fs' = register_fault is_ReorderF path f fs"
        "length errors = conflicts is_ReorderF path fs"
    using add_torn_seq_fault_law [OF assms(1)] by blast
  then have "at_most_one is_SplitWriteF fs' \<and> (errors \<noteq> [] \<longrightarrow> fs' = fs)"
  proof cases
    case (2 f)
    have "\<not> is_SplitWriteF f" using 2(1) by (cases f) simp_all
    moreover have "fs' = fs" if "errors \<noteq> []"
    proof -
      have "filter is_ReorderF (faults_of fs path) \<noteq> []"
        using 2(3) that by (auto simp: conflicts_faults_of)
      then show ?thesis
        using 2(2) by (auto simp: register_fault_def faults_of_def filter_empty_conv split: option.splits)
    qed
    ultimately show ?thesis using 2(2) assms(2) by (auto intro: at_most_one_register)
  qed (use assms(2) in simp)
  ultimately show ?thesis by blast
qed

text \<open>What a command does to the table of faults and to the world when it is refused.\<close>

definition refused :: "worker_reply \<Rightarrow> bool" where
  "refused reply \<longleftrightarrow> (\<exists>es. reply = CrashInvalid es) \<or> (\<exists>es. reply = TornInvalid es) \<or> reply = UnknownCommand \<or>
     reply = HelpShown \<or> (\<exists>u. reply = CacheUsage u) \<or> (\<exists>l t. reply = UnsyncedReport l t)"

lemma torn_command_ok:
  assumes "run_torn_command t register w = Inr (reply, w')"
    and "\<And>fs errors fs'. register fs = Inr (errors, fs') \<Longrightarrow> P fs \<Longrightarrow> P fs' \<and> (errors \<noteq> [] \<longrightarrow> fs' = fs)"
    and "P (ffaults w)"
  shows "P (ffaults w') \<and> (refused reply \<longrightarrow> w' = w)"
proof (cases "tc_errors t = []")
  case True
  then obtain errors fs where r: "register (ffaults w) = Inr (errors, fs)"
    "w' = w\<lparr>ffaults := fs\<rparr>" "reply = (if errors = [] then TornConfigured else TornInvalid (map FaultError errors))"
    using assms(1) by (auto simp: run_torn_command_def bnd_eq_Inr Let_def split: if_splits)
  then show ?thesis using assms(2) [OF r(1) assms(3)] by (auto simp: refused_def)
next
  case False
  then show ?thesis using assms(1,3) by (auto simp: run_torn_command_def)
qed

definition one_torn_each :: "faults \<Rightarrow> bool" where
  "one_torn_each fs \<longleftrightarrow> at_most_one is_SplitWriteF fs \<and> at_most_one is_ReorderF fs"

lemma on_cache_world:
  "on_cache f w = Inr (x, w') \<Longrightarrow> ffaults w' = ffaults w"
  "on_cache_host g w = Inr (y, w'') \<Longrightarrow> ffaults w'' = ffaults w"
  by (auto simp: on_cache_def on_cache_host_def bnd_eq_Inr)

lemma worker_command_ok:
  assumes "worker_command ev buffer w = Inr (reply, w')" and "one_torn_each (ffaults w)"
  shows "one_torn_each (ffaults w') \<and> (refused reply \<longrightarrow> w' = w)"
proof -
  define s where "s = command_string buffer"
  note run = assms(1) [unfolded worker_command_def Let_def s_def [symmetric]]
  consider (crash) "run_crash_command ev s w = Inr (reply, w')"
    | (clear) u where "command_fault_clear_cache ev w = Inr (u, w')" "reply = CacheCleared"
    | (op) "run_torn_op_command s w = Inr (reply, w')"
    | (seq) "run_torn_seq_command s w = Inr (reply, w')"
    | (usage) u where "command_display_cache_usage ev w = Inr (u, w')" "reply = CacheUsage u"
    | (checkpoint) u where "command_checkpoint ev w = Inr (u, w')" "reply = Checkpointed"
    | (other) "w' = w"
    using run by (auto simp: bnd_eq_Inr split: if_splits)
  then show ?thesis
  proof cases
    case crash
    then show ?thesis
      using assms(2)
      by (auto simp: run_crash_command_def add_crash_fault_def bnd_eq_Inr refused_def Let_def split: if_splits)
  next
    case clear
    then have "ffaults w' = ffaults w"
      by (auto simp: command_fault_clear_cache_def with_unique_lock_def bnd_eq_Inr dest: on_cache_world)
    then show ?thesis using clear assms(2) by (simp add: refused_def)
  next
    case op
    then show ?thesis
      using torn_command_ok [where P = one_torn_each, OF _ _ assms(2)] add_torn_op_at_most_one
      unfolding run_torn_op_command_def Let_def one_torn_each_def by blast
  next
    case seq
    then show ?thesis
      using torn_command_ok [where P = one_torn_each, OF _ _ assms(2)] add_torn_seq_at_most_one
      unfolding run_torn_seq_command_def Let_def one_torn_each_def by blast
  next
    case usage
    then show ?thesis
      using assms(2) by (auto simp: command_display_cache_usage_def with_unique_lock_def bnd_eq_Inr)
  next
    case checkpoint
    then have "ffaults w' = ffaults w"
      by (auto simp: command_checkpoint_def with_unique_lock_def bnd_eq_Inr dest: on_cache_world)
    then show ?thesis using checkpoint assms(2) by (simp add: refused_def)
  next
    case other
    then show ?thesis using assms(2) by simp
  qed
qed


lemma one_torn_each_new: "one_torn_each fmempty"
  by (simp add: one_torn_each_def at_most_one_def faults_of_def)

text \<open>
  Commands keep the table of faults in order: whatever arrives on the pipe, there is never
  more than one torn-op and one torn-seq fault for a path, and a command that is refused, unknown
  or only asks for information leaves the whole state of the file system as it was.
\<close>

theorem commands_keep_faults_in_order:
  assumes "worker_command ev buffer w = Inr (reply, w')"
    and "at_most_one is_SplitWriteF (ffaults w)" and "at_most_one is_ReorderF (ffaults w)"
  shows "at_most_one is_SplitWriteF (ffaults w') \<and> at_most_one is_ReorderF (ffaults w') \<and>
    (refused reply \<longrightarrow> w' = w)"
  using worker_command_ok [OF assms(1)] assms(2,3) by (simp add: one_torn_each_def)

theorem commands_keep_faults_in_order_witness:
  "\<exists>w w' :: (engine, mem_host) world. worker_command demo_env ''lazyfs::help.'' w = Inr (HelpShown, w') \<and> w' = w"
proof -
  define w where "w = new_lazyfs (undefined :: engine cache) fmempty demo_disk"
  have run: "worker_command demo_env ''lazyfs::help.'' w = Inr (HelpShown, w)"
    by (simp add: worker_command_def command_string_def starts_with_def)
  have "at_most_one is_SplitWriteF (ffaults w)" "at_most_one is_ReorderF (ffaults w)"
    using one_torn_each_new by (simp_all add: w_def new_lazyfs_def Let_def one_torn_each_def)
  then have "refused HelpShown \<longrightarrow> w = w" using commands_keep_faults_in_order [OF run] by blast
  then show ?thesis using run by blast
qed

text \<open>
  The command for a crash fault without an operation ends the process: the operation is then
  \<open>none\<close>, which the table of crash faults does not have, and the exception is not caught.
\<close>

theorem crash_command_without_op_dies:
  assumes "fmlookup (crash_faults_after_map w) ''none'' = None"
  shows "worker_command ev ''lazyfs::crash::timing=after::from_rgx=x.'' w = Inl (Fault OutOfRange)"
  using assms
  by (simp add: worker_command_def command_string_def starts_with_def run_crash_command_def
      parse_crash_command_def split_colons_def crash_attribute_def after_equals_def Let_def
      fs_op_multi_path_def add_crash_fault_def fmat_def of_option_def)

theorem crash_command_without_op_dies_witness:
  "worker_command demo_env ''lazyfs::crash::timing=after::from_rgx=x.''
     (new_lazyfs (undefined :: engine cache) fmempty demo_disk) = Inl (Fault OutOfRange)"
proof (rule crash_command_without_op_dies)
  show "fmlookup (crash_faults_after_map (new_lazyfs (undefined :: engine cache) fmempty demo_disk)) ''none'' = None"
    by (simp only: new_lazyfs_def Let_def world.simps no_faults_lookup) (simp add: allow_crash_fs_operations_def fs_op_multi_path_def)
qed

section \<open>Numbers in text\<close>

lemma stoi_all_to_string:
  assumes "\<forall>n \<in> set ns. 0 \<le> n \<and> n < 2147483648"
  shows "foldE (\<lambda>t vs. bnd (stoi t) (\<lambda>v. Inr (vs @ [v]))) (map to_string ns) acc = Inr (acc @ ns)"
  using assms
proof (induction ns arbitrary: acc)
  case (Cons n ns)
  then have n: "0 \<le> n" "n < 2147483648" by simp_all
  have "is_number (to_string n)" using to_string_nonneg [OF n(1)] by (simp add: is_number_def)
  then have "stoi (to_string n) = Inr n" using stoi_digits to_string_nonneg(1) [OF n(1)] n(2) by simp
  then show ?case using Cons by simp
qed simp

text \<open>
  Lists of numbers survive their notation: the decimal notations of any list of non-negative
  numbers that fit an \<open>int\<close>, joined by commas, are read back as that list.
\<close>

theorem number_list_roundtrip:
  assumes "\<forall>n \<in> set ns. 0 \<le> n \<and> n < 2147483648"
  shows "stoi_all (number_tokens (comma_join (map to_string ns))) = Inr ns"
proof -
  have "\<forall>t \<in> set (map to_string ns). is_number t"
    using assms to_string_nonneg by (auto simp: is_number_def)
  then show ?thesis
    using stoi_all_to_string [OF assms, of "[]"] by (simp add: number_tokens_comma_join stoi_all_def)
qed

theorem number_list_roundtrip_witness:
  "stoi_all (number_tokens (comma_join (map to_string [4096, 7, 0]))) = Inr [4096, 7, 0]"
  by (rule number_list_roundtrip) simp

section \<open>The configuration file\<close>

lemma load_injections_ok:
  assumes "foldE load_injection injs fs = Inr fs'" and "at_most_one is_SplitWriteF fs" and "at_most_one is_ClearF fs"
  shows "at_most_one is_SplitWriteF fs' \<and> at_most_one is_ClearF fs'"
  using assms
proof (induction injs arbitrary: fs)
  case (Cons x injs)
  then obtain fs1 where "load_injection x fs = Inr fs1" "foldE load_injection injs fs1 = Inr fs'"
    by (auto simp: bnd_eq_Inr)
  then show ?case using load_injection_at_most_one Cons by blast
qed simp

text \<open>The kinds of faults the configuration validates.\<close>

definition validated :: "fault \<Rightarrow> bool" where
  "validated g = (case g of SplitWriteF f \<Rightarrow> split_write_ok g | ClearF f \<Rightarrow> clear_validate f = [] \<and> cl_counter f = 0
     | ReorderF f \<Rightarrow> True)"

definition all_validated :: "faults \<Rightarrow> bool" where
  "all_validated fs \<longleftrightarrow> (\<forall>path. \<forall>g \<in> set (faults_of fs path). validated g)"

lemma register_validated: "all_validated fs \<Longrightarrow> validated f \<Longrightarrow> all_validated (register_fault same path f fs)"
  by (auto simp: all_validated_def faults_of_register_fault)

lemma load_injection_validated:
  assumes "load_injection x fs = Inr fs'" and "all_validated fs"
  shows "all_validated fs'"
proof -
  have "all_validated (load_torn_seq x fs)"
    using assms(2) by (auto simp: load_torn_seq_def validated_def intro!: register_validated split: option.splits)
  moreover have "all_validated (load_torn_op x fs)"
    using assms(2) by (auto simp: load_torn_op_def validated_def split_write_ok_parts split_write_ok_bytes
        intro!: register_validated split: option.splits)
  moreover have "all_validated (load_clear x fs)"
    using assms(2) by (auto simp: load_clear_def validated_def Let_def new_ClearF_def intro!: register_validated
        split: option.splits)
  ultimately show ?thesis using assms by (auto simp: load_injection_def bnd_eq_Inr split: if_splits)
qed

lemma load_injections_validated:
  assumes "foldE load_injection injs fs = Inr fs'" and "all_validated fs"
  shows "all_validated fs'"
  using assms
proof (induction injs arbitrary: fs)
  case (Cons x injs)
  then obtain fs1 where "load_injection x fs = Inr fs1" "foldE load_injection injs fs1 = Inr fs'"
    by (auto simp: bnd_eq_Inr)
  then show ?case using load_injection_validated Cons by blast
qed simp

lemma load_config_faults:
  assumes "load_config uninit doc c = Inr (c', fs)"
  shows "at_most_one is_SplitWriteF fs \<and> at_most_one is_ClearF fs \<and> all_validated fs"
proof -
  have new: "at_most_one is_SplitWriteF fmempty" "at_most_one is_ClearF fmempty" "all_validated fmempty"
    by (simp_all add: at_most_one_def all_validated_def faults_of_def)
  have "fs = fmempty \<or> (\<exists>injs. foldE load_injection injs fmempty = Inr fs)"
    using assms by (auto simp: load_config_def load_injections_def bnd_eq_Inr Let_def split: option.splits)
  then show ?thesis
    using new load_injections_ok [OF _ new(1,2)] load_injections_validated [OF _ new(3)] by blast
qed

text \<open>
  C34. The faults of a configuration file, whatever the file lists: for each path at most one
  torn-op and one clear-cache fault is taken over, and each of them has passed its validation.
\<close>

theorem configured_faults_are_valid:
  assumes "load_config uninit doc c = Inr (c', fs)"
  shows "at_most_one is_SplitWriteF fs \<and> at_most_one is_ClearF fs \<and> all_validated fs"
  by (rule load_config_faults [OF assms])

definition demo_injection :: toml_injection where
  "demo_injection = \<lparr>in_type = Some ''torn-op'', in_file = Some ''/f'', in_op = None, in_timing = None, in_from = None,
     in_to = None, in_occurrence = Some 1, in_persist = Some [1, 3], in_parts = Some 3, in_parts_bytes = None,
     in_crash = None\<rparr>"

definition demo_document :: toml_document where
  "demo_document = \<lparr>doc_faults = Some \<lparr>tf_fifo_path = None, tf_fifo_path_completed = None\<rparr>,
     doc_cache = Some \<lparr>tc_simple = None, tc_manual = None, tc_apply_eviction = None\<rparr>,
     doc_filesystem = None, doc_injection = Some [demo_injection, demo_injection]\<rparr>"

theorem configured_faults_are_valid_witness:
  "\<exists>fs. load_config 0 demo_document default_config = Inr (default_config, fs) \<and>
     length (faults_of fs ''/f'') = 1 \<and> at_most_one is_SplitWriteF fs"
proof -
  obtain fs where fs: "load_config 0 demo_document default_config = Inr (default_config, fs)"
    "length (faults_of fs ''/f'') = 1"
    by (simp add: load_config_def demo_document_def toml_find_def of_option_def load_fifo_paths_def
        load_cache_settings_def load_injections_def load_injection_def demo_injection_def load_torn_op_def
        split_write_validate_def register_fault_def faults_of_def find_int_def find_ints_def c_int_id)
  then show ?thesis using configured_faults_are_valid [OF fs(1)] by blast
qed

text \<open>
  A torn-seq fault of a configuration file is taken over without validation, where the same
  fault given as a command is refused: the messages of the validation go to a variable that
  hides the one that is tested.
\<close>

theorem configured_torn_seq_is_not_validated:
  "load_injection \<lparr>in_type = Some ''torn-seq'', in_file = Some path, in_op = Some op, in_timing = None,
     in_from = None, in_to = None, in_occurrence = Some occurrence, in_persist = Some persist, in_parts = None,
     in_parts_bytes = None, in_crash = None\<rparr> fmempty =
     Inr (fmupd path [ReorderF (new_ReorderF op (sort (map c_int persist)) (c_int occurrence))] fmempty) \<and>
   add_torn_seq_fault path ''read'' ''1'' ''0'' fs = Inr ([OperationNotWrite, OccurrenceNotPositive], fs)"
proof -
  have "stoi_all (number_tokens ''1'') = Inr [1]" "stoi ''0'' = Inr 0" by code_simp+
  then have "add_torn_seq_fault path ''read'' ''1'' ''0'' fs = Inr ([OperationNotWrite, OccurrenceNotPositive], fs)"
    by (simp add: add_torn_seq_fault_def reorder_validate_def new_ReorderF_def)
  then show ?thesis by
    (simp add: load_injection_def of_option_def load_torn_seq_def register_fault_def find_int_def find_ints_def)
qed

section \<open>The command line\<close>

lemma parse_args_bound:
  "parse_args argv new_argv path = Inr (new_argv', path') \<Longrightarrow> length new_argv \<le> MAX_ARGS \<Longrightarrow>
   length new_argv' \<le> MAX_ARGS \<and> set new_argv' \<subseteq> set new_argv \<union> (set argv - {''--config-path''})"
proof (induction argv new_argv path rule: parse_args.induct)
  case (2 a rest new_argv path)
  note args = 2(4) [unfolded parse_args.simps(2)]
  consider (full) "\<not> length new_argv < MAX_ARGS"
    | (path) "length new_argv < MAX_ARGS" "a = ''--config-path''"
    | (keep) "length new_argv < MAX_ARGS" "a \<noteq> ''--config-path''"
    by blast
  then show ?case
  proof cases
    case full
    then show ?thesis using 2(4,5) by simp
  next
    case path
    then obtain b rest' where r: "rest = b # rest'"
      and run: "if strcasestr b ''-o'' then parse_args rest new_argv None = Inr (new_argv', path')
        else parse_args rest' new_argv (Some b) = Inr (new_argv', path')"
      using args by (cases rest) (simp_all split: if_splits)
    have "length new_argv' \<le> MAX_ARGS \<and> set new_argv' \<subseteq> set new_argv \<union> (set rest - {''--config-path''})"
    proof (cases "strcasestr b ''-o''")
      case True
      then show ?thesis using 2(1) path r run 2(5) by simp
    next
      case False
      then show ?thesis using 2(2) [OF _ _ r] path r run 2(5) by auto
    qed
    then show ?thesis by auto
  next
    case keep
    then have "parse_args rest (new_argv @ [a]) path = Inr (new_argv', path')" using args by simp
    then have "length new_argv' \<le> MAX_ARGS \<and>
        set new_argv' \<subseteq> set (new_argv @ [a]) \<union> (set rest - {''--config-path''})"
      using 2(3) keep by simp
    then show ?thesis using keep(2) by auto
  qed
qed simp

text \<open>
  What is passed on to the FUSE library are at most ten of the given arguments, none of them
  the option with the configuration file.
\<close>

theorem passed_arguments_bounded:
  assumes "parse_args argv [] None = Inr (new_argv, path)"
  shows "length new_argv \<le> 10 \<and> set new_argv \<subseteq> set argv - {''--config-path''}"
  using parse_args_bound [OF assms] by (simp add: MAX_ARGS_def)

theorem passed_arguments_bounded_witness:
  "parse_args [''lazyfs'', ''--config-path'', ''c.toml'', ''/mnt''] [] None = Inr ([''lazyfs'', ''/mnt''], Some ''c.toml'') \<and>
   length [''lazyfs'', ''/mnt''] \<le> (10::nat)"
proof -
  have run: "parse_args [''lazyfs'', ''--config-path'', ''c.toml'', ''/mnt''] [] None = Inr ([''lazyfs'', ''/mnt''], Some ''c.toml'')"
    by (simp add: MAX_ARGS_def strcasestr_def to_lower_def)
  then show ?thesis using passed_arguments_bounded [OF run] by blast
qed

end
