(* ===== verification/Command_Text.thy ===== *)
theory Command_Text
  imports Dispatch Command_Theorems
begin

text \<open>
  The notation of the commands for torn and crash faults: a command written down with decimal numbers
  and names without colons is read back as the fault it describes, and a crash command has its effect
  on the next matching request.
\<close>


section \<open>Splitting what was joined\<close>

fun colon_join :: "string list \<Rightarrow> string" where
  "colon_join [] = []"
| "colon_join [p] = p"
| "colon_join (p # ps) = p @ ''::'' @ colon_join ps"

lemma split_colons_piece:
  "CHR '':'' \<notin> set p \<Longrightarrow>
   split_colons_acc acc (p @ CHR '':'' # CHR '':'' # rest) = (rev acc @ p) # split_colons_acc [] rest"
  by (induction p arbitrary: acc) auto

lemma split_colons_last: "CHR '':'' \<notin> set p \<Longrightarrow> split_colons_acc acc p = (if acc = [] \<and> p = [] then [] else [rev acc @ p])"
  by (induction p arbitrary: acc) auto

lemma split_colons_join:
  "\<forall>p \<in> set ps. CHR '':'' \<notin> set p \<Longrightarrow> ps = [] \<or> last ps \<noteq> [] \<Longrightarrow> split_colons (colon_join ps) = ps"
proof (induction ps rule: colon_join.induct)
  case (3 p q ps)
  then show ?case by (simp add: split_colons_def split_colons_piece)
qed (simp_all add: split_colons_def split_colons_last)

lemma split_commas_join:
  "\<forall>t \<in> set ts. CHR '','' \<notin> set t \<Longrightarrow> ts \<noteq> [] \<Longrightarrow> split_commas_acc [] (comma_join ts) = ts"
proof (induction ts rule: comma_join.induct)
  case (2 t)
  have "CHR '','' \<notin> set t \<Longrightarrow> split_commas_acc acc t = [rev acc @ t]" for acc
    by (induction t arbitrary: acc) auto
  with 2 show ?case by simp
next
  case (3 t u ts)
  have "CHR '','' \<notin> set t \<Longrightarrow>
      split_commas_acc acc (t @ CHR '','' # rest) = (rev acc @ t) # split_commas_acc [] rest" for acc rest
    by (induction t arbitrary: acc) auto
  with 3 show ?case by simp
qed simp

lemma after_attribute: "CHR ''='' \<notin> set name \<Longrightarrow> after_equals (name @ CHR ''='' # v) = v"
  by (induction name) (auto simp: after_equals_def)

text \<open>The notation of a number, and of a list of numbers.\<close>

definition notation_of :: "int list \<Rightarrow> string" where
  "notation_of ns = comma_join (map to_string ns)"

lemma is_number_to_string: "0 \<le> n \<Longrightarrow> is_number (to_string n)"
  using to_string_nonneg by (simp add: is_number_def)

lemma to_string_chars: "0 \<le> n \<Longrightarrow> ch \<in> set (to_string n) \<Longrightarrow> is_digit ch"
  using to_string_nonneg(2) by blast

lemma not_digits [simp]:
  "\<not> is_digit (CHR '':'')" "\<not> is_digit (CHR '','')" "\<not> is_digit (CHR 0x00)" "\<not> is_digit (CHR ''n'')"
  by (simp_all add: is_digit_def)

lemma to_string_no [simp]:
  assumes "0 \<le> n"
  shows "CHR '':'' \<notin> set (to_string n)" "CHR '','' \<notin> set (to_string n)" "CHR 0x00 \<notin> set (to_string n)"
  using to_string_chars [OF assms] not_digits by blast+

lemma comma_join_chars: "ch \<in> set (comma_join ts) \<Longrightarrow> ch = CHR '','' \<or> (\<exists>t \<in> set ts. ch \<in> set t)"
  by (induction ts rule: comma_join.induct) auto

lemma notation_chars:
  assumes "\<forall>n \<in> set ns. 0 \<le> n"
  shows "CHR '':'' \<notin> set (notation_of ns)" "CHR 0x00 \<notin> set (notation_of ns)"
  using assms unfolding notation_of_def by (fastforce dest: comma_join_chars)+

lemma notation_list: "\<forall>n \<in> set ns. 0 \<le> n \<Longrightarrow> ns \<noteq> [] \<Longrightarrow> is_number_list (notation_of ns)"
  unfolding is_number_list_def notation_of_def
  by (subst split_commas_join) (auto simp: is_number_to_string)

lemma notation_value:
  "\<forall>n \<in> set ns. 0 \<le> n \<and> n < 2147483648 \<Longrightarrow> stoi_all (number_tokens (notation_of ns)) = Inr ns"
  unfolding notation_of_def by (rule number_list_roundtrip)

lemma stoi_to_string: "0 \<le> n \<Longrightarrow> n < 2147483648 \<Longrightarrow> stoi (to_string n) = Inr n"
  using stoi_digits [OF is_number_to_string] to_string_nonneg(1) by simp

section \<open>The notation of commands\<close>

definition torn_op_text :: "string \<Rightarrow> int list \<Rightarrow> int \<Rightarrow> int \<Rightarrow> string" where
  "torn_op_text file persist parts occurrence =
     colon_join [''lazyfs'', ''torn-op'', ''file='' @ file, ''persist='' @ notation_of persist,
       ''parts='' @ to_string parts, ''occurrence='' @ to_string occurrence]"

definition torn_seq_text :: "string \<Rightarrow> int list \<Rightarrow> int \<Rightarrow> string" where
  "torn_seq_text file persist occurrence =
     colon_join [''lazyfs'', ''torn-seq'', ''op=write'', ''file='' @ file, ''persist='' @ notation_of persist,
       ''occurrence='' @ to_string occurrence]"

definition crash_text :: "string \<Rightarrow> string \<Rightarrow> string \<Rightarrow> string" where
  "crash_text timing op from =
     colon_join [''lazyfs'', ''crash'', ''timing='' @ timing, ''op='' @ op, ''from_rgx='' @ from]"

text \<open>The commands as they arrive on the FIFO, with the newline of \<open>echo\<close>.\<close>

lemma command_string_line: "CHR 0x00 \<notin> set s \<Longrightarrow> command_string (s @ [ch]) = s"
  by (simp add: command_string_def takeWhile_eq_all_conv) (metis)

lemma starts_with_append [simp]: "starts_with p (p @ s)"
  by (simp add: starts_with_def)

lemma parse_torn_op_text:
  assumes "CHR '':'' \<notin> set file" "file \<noteq> []" "persist \<noteq> []" "\<forall>p \<in> set persist. 0 \<le> p" "0 \<le> parts" "0 \<le> occurrence"
  shows "parse_torn_op_command (torn_op_text file persist parts occurrence) =
    new_torn_command\<lparr>tc_file := file, tc_persist := notation_of persist, tc_parts := to_string parts,
      tc_occurrence := to_string occurrence\<rparr>"
proof -
  have attr: "after_equals (''file='' @ v) = v" "after_equals (''persist='' @ v) = v"
    "after_equals (''parts='' @ v) = v" "after_equals (''occurrence='' @ v) = v" for v
    using after_attribute [of "''file''" v] after_attribute [of "''persist''" v] after_attribute [of "''parts''" v]
      after_attribute [of "''occurrence''" v] by simp_all
  have "split_colons (torn_op_text file persist parts occurrence) =
      [''lazyfs'', ''torn-op'', ''file='' @ file, ''persist='' @ notation_of persist,
       ''parts='' @ to_string parts, ''occurrence='' @ to_string occurrence]"
    unfolding torn_op_text_def
    by (rule split_colons_join) (use assms in \<open>auto simp: notation_chars\<close>)
  then show ?thesis
    using assms
    by (simp add: parse_torn_op_command_def torn_op_attribute_def starts_with_def attr [simplified] new_torn_command_def
        notation_list is_number_to_string)
qed


lemma parse_torn_seq_text:
  assumes "CHR '':'' \<notin> set file" "file \<noteq> []" "persist \<noteq> []" "\<forall>p \<in> set persist. 0 \<le> p" "0 \<le> occurrence"
  shows "parse_torn_seq_command (torn_seq_text file persist occurrence) =
    new_torn_command\<lparr>tc_op := ''write'', tc_file := file, tc_persist := notation_of persist,
      tc_occurrence := to_string occurrence\<rparr>"
proof -
  have attr: "after_equals (''file='' @ v) = v" "after_equals (''persist='' @ v) = v"
    "after_equals (''op='' @ v) = v" "after_equals (''occurrence='' @ v) = v" for v
    using after_attribute [of "''file''" v] after_attribute [of "''persist''" v] after_attribute [of "''op''" v]
      after_attribute [of "''occurrence''" v] by simp_all
  have "split_colons (torn_seq_text file persist occurrence) =
      [''lazyfs'', ''torn-seq'', ''op=write'', ''file='' @ file, ''persist='' @ notation_of persist,
       ''occurrence='' @ to_string occurrence]"
    unfolding torn_seq_text_def
    by (rule split_colons_join) (use assms in \<open>auto simp: notation_chars\<close>)
  then show ?thesis
    using assms attr(3) [of "''write''"]
    by (simp add: parse_torn_seq_command_def torn_seq_attribute_def starts_with_def attr [simplified]
        new_torn_command_def notation_list is_number_to_string)
qed

lemma parse_crash_text:
  assumes "CHR '':'' \<notin> set from" "from \<noteq> []" "from \<noteq> ''none''" "timing \<in> {''before'', ''after''}"
    "op \<in> set allow_crash_fs_operations"
  shows "parse_crash_command (crash_text timing op from) =
    \<lparr>cc_operation = op, cc_timing = timing, cc_from_rgx = from, cc_to_rgx = ''none'', cc_errors = []\<rparr>"
proof -
  have attr: "after_equals (''timing='' @ v) = v" "after_equals (''op='' @ v) = v"
    "after_equals (''from_rgx='' @ v) = v" for v
    using after_attribute [of "''timing''" v] after_attribute [of "''op''" v] after_attribute [of "''from_rgx''" v]
    by simp_all
  have "split_colons (crash_text timing op from) =
      [''lazyfs'', ''crash'', ''timing='' @ timing, ''op='' @ op, ''from_rgx='' @ from]"
    unfolding crash_text_def
    by (rule split_colons_join) (use assms in \<open>auto simp: allow_crash_fs_operations_def\<close>)
  then show ?thesis
    using assms
    by (simp add: parse_crash_command_def crash_attribute_def starts_with_def attr [simplified]) (auto simp: Let_def)
qed

lemma torn_op_text_ok:
  assumes "CHR '':'' \<notin> set file" "CHR 0x00 \<notin> set file" "file \<noteq> []" "persist \<noteq> []"
    and "0 < occurrence" "occurrence < 2147483648" "0 < parts" "parts < 2147483648"
    and "\<forall>p \<in> set persist. 0 < p \<and> p \<le> parts"
    and "\<forall>g \<in> set (faults_of (ffaults w) file). \<not> is_SplitWriteF g"
  shows "worker_command ev (torn_op_text file persist parts occurrence @ [ch]) w =
    Inr (TornConfigured, w\<lparr>ffaults := fmupd file
      (faults_of (ffaults w) file @ [SplitWriteF (new_SplitWriteF_parts occurrence persist parts)]) (ffaults w)\<rparr>)"
proof -
  define s where "s = torn_op_text file persist parts occurrence"
  have nn: "\<forall>p \<in> set persist. 0 \<le> p" "\<forall>p \<in> set persist. 0 \<le> p \<and> p < 2147483648" using assms(8,9) by auto
  have cs: "command_string (s @ [ch]) = s"
    by (rule command_string_line) (use assms nn(1) in \<open>auto simp: s_def torn_op_text_def notation_chars\<close>)
  have parsed: "parse_torn_op_command s = new_torn_command\<lparr>tc_file := file, tc_persist := notation_of persist,
      tc_parts := to_string parts, tc_occurrence := to_string occurrence\<rparr>"
    unfolding s_def using assms nn by (intro parse_torn_op_text) simp_all
  have reg: "conflicts is_SplitWriteF file (ffaults w) = 0"
    "register_fault is_SplitWriteF file f (ffaults w) = fmupd file (faults_of (ffaults w) file @ [f]) (ffaults w)" for f
    using assms(10) by (auto simp: conflicts_faults_of register_fault_def faults_of_def split: option.splits)
  have valid: "split_write_validate occurrence persist (Some parts) None = []"
    using assms by (simp add: split_write_validate_parts_Nil)
  have "starts_with ''lazyfs::torn-op'' s" "\<not> starts_with ''lazyfs::crash'' s" "s \<noteq> ''lazyfs::clear-cache''"
    by (simp_all add: s_def torn_op_text_def starts_with_def)
  then show ?thesis
    unfolding s_def [symmetric]
    using assms(5-8)
    by (simp add: worker_command_def cs run_torn_op_command_def run_torn_command_def parsed new_torn_command_def
        add_torn_op_fault_def notation_value [OF nn(2)] stoi_to_string valid reg)
qed

lemma torn_seq_text_ok:
  assumes "CHR '':'' \<notin> set file" "CHR 0x00 \<notin> set file" "file \<noteq> []" "persist \<noteq> []"
    and "0 < occurrence" "occurrence < 2147483648"
    and "\<forall>p \<in> set persist. 0 < p \<and> p < 2147483648"
    and "\<forall>g \<in> set (faults_of (ffaults w) file). \<not> is_ReorderF g"
  shows "worker_command ev (torn_seq_text file persist occurrence @ [ch]) w =
    Inr (TornConfigured, w\<lparr>ffaults := fmupd file
      (faults_of (ffaults w) file @ [ReorderF (new_ReorderF ''write'' persist occurrence)]) (ffaults w)\<rparr>)"
proof -
  define s where "s = torn_seq_text file persist occurrence"
  have nn: "\<forall>p \<in> set persist. 0 \<le> p" "\<forall>p \<in> set persist. 0 \<le> p \<and> p < 2147483648" using assms(7) by auto
  have cs: "command_string (s @ [ch]) = s"
    by (rule command_string_line) (use assms nn(1) in \<open>auto simp: s_def torn_seq_text_def notation_chars\<close>)
  have parsed: "parse_torn_seq_command s = new_torn_command\<lparr>tc_op := ''write'', tc_file := file,
      tc_persist := notation_of persist, tc_occurrence := to_string occurrence\<rparr>"
    unfolding s_def using assms nn by (intro parse_torn_seq_text) simp_all
  have reg: "conflicts is_ReorderF file (ffaults w) = 0"
    "register_fault is_ReorderF file f (ffaults w) = fmupd file (faults_of (ffaults w) file @ [f]) (ffaults w)" for f
    using assms(8) by (auto simp: conflicts_faults_of register_fault_def faults_of_def split: option.splits)
  have valid: "reorder_validate (new_ReorderF ''write'' persist occurrence) = []"
    using assms by (simp add: reorder_validate_Nil new_ReorderF_def)
  have "starts_with ''lazyfs::torn-seq'' s" "\<not> starts_with ''lazyfs::torn-op'' s" "\<not> starts_with ''lazyfs::crash'' s"
    "s \<noteq> ''lazyfs::clear-cache''"
    by (simp_all add: s_def torn_seq_text_def starts_with_def)
  then show ?thesis
    unfolding s_def [symmetric]
    using assms(5,6)
    by (simp add: worker_command_def cs run_torn_seq_command_def run_torn_command_def parsed new_torn_command_def
        add_torn_seq_fault_def notation_value [OF nn(2)] stoi_to_string valid reg)
qed


lemma crash_text_ok:
  assumes "CHR '':'' \<notin> set from" "CHR 0x00 \<notin> set from" "from \<noteq> []" "from \<noteq> ''none''"
    and "op \<in> set allow_crash_fs_operations" "regex_valid ev (any_around from)"
    and "fmlookup (crash_faults_before_map w) op = Some l"
  shows "worker_command ev (crash_text ''before'' op from @ [ch]) w =
    Inr (CrashAdded, w\<lparr>crash_faults_before_map :=
      fmupd op (l @ [(any_around from, ''none'')]) (crash_faults_before_map w)\<rparr>)"
proof -
  define s where "s = crash_text ''before'' op from"
  have cs: "command_string (s @ [ch]) = s"
    by (rule command_string_line)
      (use assms in \<open>auto simp: s_def crash_text_def allow_crash_fs_operations_def\<close>)
  have parsed: "parse_crash_command s = \<lparr>cc_operation = op, cc_timing = ''before'', cc_from_rgx = from,
      cc_to_rgx = ''none'', cc_errors = []\<rparr>"
    unfolding s_def using assms by (intro parse_crash_text) simp_all
  have "starts_with ''lazyfs::crash'' s" by (simp add: s_def crash_text_def starts_with_def)
  then show ?thesis
    unfolding s_def [symmetric]
    using assms(6,7)
    by (simp add: worker_command_def cs run_crash_command_def parsed add_crash_fault_def fmat_Some)
qed

text \<open>
  C31. The commands for torn faults say what they mean: when the command names a file, the parts or
  writes to persist, the number of parts and the occurrence, each in decimal notation, the fault
  that is registered for this file, behind those it already has, carries exactly these numbers.
\<close>

theorem torn_commands_configure:
  assumes "CHR '':'' \<notin> set file" and "CHR 0x00 \<notin> set file" and "file \<noteq> []" and "persist \<noteq> []"
    and "0 < occurrence" and "occurrence < 2147483648" and "parts < 2147483648"
    and "\<forall>p \<in> set persist. 0 < p \<and> p \<le> parts"
    and "\<forall>g \<in> set (faults_of (ffaults w) file). is_ClearF g"
  shows "worker_command ev (torn_op_text file persist parts occurrence @ [ch]) w =
      Inr (TornConfigured, w\<lparr>ffaults := fmupd file
        (faults_of (ffaults w) file @ [SplitWriteF (new_SplitWriteF_parts occurrence persist parts)]) (ffaults w)\<rparr>) \<and>
    worker_command ev (torn_seq_text file persist occurrence @ [ch]) w =
      Inr (TornConfigured, w\<lparr>ffaults := fmupd file
        (faults_of (ffaults w) file @ [ReorderF (new_ReorderF ''write'' persist occurrence)]) (ffaults w)\<rparr>)"
proof -
  have "0 < parts" using assms(4,8) by (cases persist) auto
  moreover have "\<not> is_SplitWriteF g \<and> \<not> is_ReorderF g" if "g \<in> set (faults_of (ffaults w) file)" for g
    using assms(9) that by (cases g) auto
  ultimately show ?thesis
    using assms by (intro conjI torn_op_text_ok torn_seq_text_ok) auto
qed

theorem torn_commands_configure_witness:
  "worker_command demo_env ''lazyfs::torn-op::file=/f::persist=1,3::parts=3::occurrence=2.''
     (new_lazyfs (undefined :: engine cache) fmempty demo_disk) =
   Inr (TornConfigured, new_lazyfs undefined
     (fmupd ''/f'' [SplitWriteF (new_SplitWriteF_parts 2 [1, 3] 3)] fmempty) demo_disk)"
proof -
  define w where "w = new_lazyfs (undefined :: engine cache) fmempty demo_disk"
  have none: "faults_of (ffaults w) ''/f'' = []" by (simp add: w_def new_lazyfs_def Let_def faults_of_def)
  have line: "''lazyfs::torn-op::file=/f::persist=1,3::parts=3::occurrence=2.'' = torn_op_text ''/f'' [1, 3] 3 2 @ ''.''"
    by code_simp
  have "worker_command demo_env (torn_op_text ''/f'' [1, 3] 3 2 @ ''.'') w =
      Inr (TornConfigured, w\<lparr>ffaults := fmupd ''/f''
        (faults_of (ffaults w) ''/f'' @ [SplitWriteF (new_SplitWriteF_parts 2 [1, 3] 3)]) (ffaults w)\<rparr>)"
    by (rule conjunct1 [OF torn_commands_configure]) (simp_all add: none)
  then show ?thesis unfolding line none by (simp add: w_def new_lazyfs_def Let_def)
qed

section \<open>From the command to the crash\<close>

text \<open>The operation and the path for which a request is a point of fault injection.\<close>

definition injection_point :: "fuse_request \<Rightarrow> (string \<times> string) option" where
  "injection_point req =
     (case req of
        T_truncate path sz fi \<Rightarrow> Some (''truncate'', path)
      | T_open path fi \<Rightarrow> Some (''open'', path)
      | T_read path buf sz offset fi \<Rightarrow> Some (''read'', path)
      | T_write path buf sz offset fi \<Rightarrow> Some (''write'', path)
      | T_fsync path isdatasync fi \<Rightarrow> Some (''fsync'', path)
      | T_access path acc \<Rightarrow> Some (''access'', path)
      | T_create path mode fi \<Rightarrow> Some (''create'', path)
      | T_unlink path \<Rightarrow> Some (''unlink'', path)
      | _ \<Rightarrow> None)"

lemma injection_point_ops:
  "injection_point req = Some (op, path) \<Longrightarrow> op \<in> set allow_crash_fs_operations \<and> op \<notin> set fs_op_multi_path"
  by (cases req) (auto simp: injection_point_def allow_crash_fs_operations_def fs_op_multi_path_def)

lemma serve_stopped_before:
  assumes "injection_point req = Some (op, path)" and "triggers ev op ''before'' path '''' w = Inl e"
  shows "serve x unset ev req w = Inl e"
  using assms
  by (cases req)
    (auto simp: injection_point_def serve_def load_operations_def replying_def lfs_truncate_def lfs_open_def
      lfs_read_def lfs_write_def lfs_fsync_def lfs_access_def pass_on_triggered_def lfs_create_def lfs_unlink_def)

text \<open>
  C30. From the command to the crash: after the command for a crash before an operation, the next
  request of that operation for a path that matches kills the process before anything has been
  done, so that the host is exactly as it was when the command was given.
\<close>

theorem crash_command_kills:
  assumes "eengine ev = custom_cache_engine h c" and "cache_ok c (FSCache w)"
    and "CHR '':'' \<notin> set from" and "CHR 0x00 \<notin> set from" and "from \<noteq> []" and "from \<noteq> ''none''"
    and "regex_valid ev (any_around from)" and "regex_match ev path (any_around from)"
    and "injection_point req = Some (op, path)"
    and "fmlookup (crash_faults_before_map w) op = Some l"
    and "\<forall>f \<in> set l. \<not> regex_match ev path (fst f)"
  shows "\<exists>w1. worker_command ev (crash_text ''before'' op from @ [ch]) w = Inr (CrashAdded, w1) \<and>
    serve have_setxattr unset ev req w1 = Inl (SelfKill (host_state w))"
proof -
  define w1 where "w1 = w\<lparr>crash_faults_before_map :=
      fmupd op (l @ [(any_around from, ''none'')]) (crash_faults_before_map w)\<rparr>"
  note op = injection_point_ops [OF assms(9)]
  have command: "worker_command ev (crash_text ''before'' op from @ [ch]) w = Inr (CrashAdded, w1)"
    unfolding w1_def using assms op by (intro crash_text_ok) simp_all
  have "triggers ev op ''before'' path '''' w1 = Inl (SelfKill (host_state w1))"
    using assms(1,2,8,11) op
    by (intro trigger_kills [of ev h c w1 "''before''" op l "(any_around from, ''none'')" "[]"])
      (auto simp: w1_def crash_fault_matches_def split_def)
  then have "serve have_setxattr unset ev req w1 = Inl (SelfKill (host_state w1))"
    by (rule serve_stopped_before [OF assms(9)])
  then show ?thesis using command by (intro exI [of _ w1]) (simp add: w1_def)
qed

theorem crash_command_kills_witness:
  "\<exists>w w1. worker_command demo_regex_env ''lazyfs::crash::timing=before::op=fsync::from_rgx=f.'' w = Inr (CrashAdded, w1) \<and>
     serve False (\<lambda>_. - 38) demo_regex_env (T_fsync ''/f'' False (Some demo_fd)) w1 = Inl (SelfKill demo_disk)"
proof -
  obtain e where e: "cache_ok default_config (new_cache e)"
    using new_cache_ok [OF single_block_default] by blast
  define w where "w = new_lazyfs (new_cache e) fmempty demo_disk"
  have line: "''lazyfs::crash::timing=before::op=fsync::from_rgx=f.'' = crash_text ''before'' ''fsync'' ''f'' @ ''.''"
    by code_simp
  have eng: "eengine demo_regex_env = custom_cache_engine mem_os default_config"
    by (simp add: demo_regex_env_def start_environment_def)
  have ok: "cache_ok default_config (FSCache w)" using e by (simp add: w_def new_lazyfs_def Let_def)
  have "fmlookup (crash_faults_before_map w) op = Some []" if "op \<in> set allow_crash_fs_operations" for op
    using that by (simp add: w_def new_lazyfs_def Let_def no_faults_lookup)
  then have none: "fmlookup (crash_faults_before_map w) ''fsync'' = Some []"
    by (simp add: allow_crash_fs_operations_def)
  have rx: "regex_valid demo_regex_env (any_around ''f'')" "regex_match demo_regex_env ''/f'' (any_around ''f'')"
    by (simp_all add: demo_regex_env_def start_environment_def)
  have point: "injection_point (T_fsync ''/f'' False (Some demo_fd)) = Some (''fsync'', ''/f'')"
    by (simp add: injection_point_def)
  have disk: "host_state w = demo_disk" by (simp add: w_def new_lazyfs_def Let_def)
  from crash_command_kills [OF eng ok _ _ _ _ rx point none, of "CHR ''.''" False "\<lambda>_. - 38"]
  have run: "\<exists>w1. worker_command demo_regex_env (crash_text ''before'' ''fsync'' ''f'' @ ''.'') w = Inr (CrashAdded, w1) \<and>
     serve False (\<lambda>_. - 38) demo_regex_env (T_fsync ''/f'' False (Some demo_fd)) w1 = Inl (SelfKill (host_state w))"
    by simp
  show ?thesis unfolding line disk [symmetric] by (rule exI [of _ w]) (rule run)
qed

end
