(* ===== verification/Handler_Theorems.thy ===== *)
theory Handler_Theorems
  imports Command_Theorems
begin

text \<open>
How a request is cut into blocks, what a checkpoint makes durable, the size that is reported, the
  types of what is cached, and the walk over a directory that a rename makes.
\<close>


section \<open>Requests and blocks\<close>

lemma upto_join: "i \<le> j + 1 \<Longrightarrow> j \<le> k \<Longrightarrow> [i..j] @ [j + 1..k] = [i..k :: int]"
  by (metis add_le_cancel_right upto_split2 le_less upto_empty append_Nil zle_add1_eq_le)

lemma block_pieces:
  assumes "0 < bs" and "0 < sz" and "offset div bs \<le> h"
  shows "concat (map (\<lambda>b. [max offset (b * bs) .. min (offset + sz) (b * bs + bs) - 1]) [offset div bs .. h]) =
    [offset .. min (offset + sz) (h * bs + bs) - 1]"
  using assms(3)
proof (induction h rule: int_ge_induct)
  case base
  then show ?case using block_bounds [OF assms(1), of offset] by simp
next
  case (step h)
  have "offset \<le> h * bs + bs"
    using block_bounds [OF assms(1), of offset] mult_right_mono [OF step(1), of bs] assms(1) by linarith
  moreover have "[offset div bs .. h + 1] = [offset div bs .. h] @ [h + 1]" using step(1) by (simp add: upto_rec2)
  ultimately show ?case
    using step(2) assms(1,2) upto_join [of offset "h * bs + bs - 1" "min (offset + sz) ((h + 1) * bs + bs) - 1"]
    by (cases "offset + sz \<le> h * bs + bs") (auto simp: algebra_simps min_def max_def)
qed

text \<open>
  C22. The blocks of a request cut it without a gap and without overlap: walking the blocks from
  the first to the last one the handlers compute, and in each the bytes from the first to the
  last one they compute, visits the positions of the request once each and in order.
\<close>

theorem block_ranges_partition:
  assumes "0 < bs" and "0 \<le> offset" and "0 < sz" and "offset + sz \<le> 9223372036854775808"
  shows "concat (map (\<lambda>b. map (\<lambda>k. b * bs + k) [fst (block_range bs offset sz b) .. snd (block_range bs offset sz b)])
      [offset div bs .. blk_high_of bs offset sz]) = [offset .. offset + sz - 1]"
proof -
  have hi: "blk_high_of bs offset sz = (offset + sz - 1) div bs" by (rule blk_high_eq(1) [OF assms])
  have shift: "map (\<lambda>k. a + k) [i..j] = [a + i..a + j]" for a i j :: int
    by (rule nth_equalityI) simp_all
  have "map (\<lambda>b. map (\<lambda>k. b * bs + k) [fst (block_range bs offset sz b) .. snd (block_range bs offset sz b)])
      [offset div bs .. (offset + sz - 1) div bs] =
    map (\<lambda>b. [max offset (b * bs) .. min (offset + sz) (b * bs + bs) - 1]) [offset div bs .. (offset + sz - 1) div bs]"
    using block_range_eq(1) [OF assms] by (intro map_cong refl) (simp add: shift)
  moreover have "offset div bs \<le> (offset + sz - 1) div bs" using assms by (intro zdiv_mono1) simp_all
  moreover have "offset + sz \<le> (offset + sz - 1) div bs * bs + bs"
    using block_bounds [OF assms(1), of "offset + sz - 1"] by simp
  ultimately show ?thesis
    using block_pieces [OF assms(1,3), of offset "(offset + sz - 1) div bs"] by (simp only: hi) simp
qed

theorem block_ranges_partition_witness:
  "concat (map (\<lambda>b. map (\<lambda>k. b * 4 + k) [fst (block_range 4 3 6 b) .. snd (block_range 4 3 6 b)])
      [3 div 4 .. blk_high_of 4 3 6]) = [3 .. 8]"
  using block_ranges_partition [of 4 3 6] by simp

section \<open>Checkpoints and attributes\<close>

text \<open>
  C12. A checkpoint makes every file the cache has a name for durable: the host's copy of it
  becomes what everyone sees of it. The other files keep their copy, and nobody sees a change.
\<close>

theorem checkpoint_makes_durable:
  assumes "mounted ev hv" and "files_ok (FSConfig ev) hv (FSCache w) (host_state w)" and "shared_locks w = 0"
    and "\<And>p. fmlookup (file_inode_mapping (FSCache w)) p \<noteq> None \<Longrightarrow> path_ino hv (host_state w) p \<noteq> None"
  shows "\<exists>w'. command_checkpoint ev w = Inr ((), w') \<and>
    files_ok (FSConfig ev) hv (FSCache w') (host_state w') \<and>
    seen (FSConfig ev) hv (FSCache w') (host_state w') = seen (FSConfig ev) hv (FSCache w) (host_state w) \<and>
    (\<forall>i. content hv (host_state w') i =
      (if \<exists>p. fmlookup (file_inode_mapping (FSCache w)) p \<noteq> None \<and> path_ino hv (host_state w) p = Some i
       then seen (FSConfig ev) hv (FSCache w) (host_state w) i else content hv (host_state w) i))"
proof -
  obtain C' d' where "command_checkpoint ev w = Inr ((), w\<lparr>FSCache := C', host_state := d'\<rparr>)"
    "files_ok (FSConfig ev) hv C' d'"
    "seen (FSConfig ev) hv C' d' = seen (FSConfig ev) hv (FSCache w) (host_state w)"
    "content hv d' = (\<lambda>i.
      if \<exists>p. fmlookup (file_inode_mapping (FSCache w)) p \<noteq> None \<and> path_ino hv (host_state w) p = Some i
      then seen (FSConfig ev) hv (FSCache w) (host_state w) i else content hv (host_state w) i)"
    using command_checkpoint_ok [OF assms(1) refl assms(2,3,4)] by blast
  then show ?thesis by (intro exI [of _ "w\<lparr>FSCache := C', host_state := d'\<rparr>"]) simp
qed

theorem checkpoint_makes_durable_witness:
  "\<exists>w w'. fmlookup (file_inode_mapping (FSCache w)) ''/f'' = Some ''7'' \<and> command_checkpoint demo_env w = Inr ((), w') \<and>
     content mem_view (host_state w') 7 = [9, 9]"
proof -
  obtain e where e: "serving demo_env mem_view ''/f'' demo_fd 7 (new_lazyfs (new_cache e) fmempty demo_disk)"
    "seen default_config mem_view (new_cache e) demo_disk 7 = [9, 9]"
    by (rule demo_serving)
  note S = servingD [OF e(1)]
  define C where "C = insert_inode_mapping ''/f'' (to_string 7) False (new_cache e)"
  define w where "w = new_lazyfs C fmempty demo_disk"
  have seven: "to_string 7 = ''7''" by code_simp
  have map: "file_inode_mapping C = fmupd ''/f'' ''7'' fmempty" "contents C = contents (new_cache e)"
    by (simp_all add: C_def insert_inode_mapping_def new_cache_def seven)
  have size: "file_size mem_view C = file_size mem_view (new_cache e)"
    by (simp add: file_size_def fun_eq_iff map(2))
  have f: "files_ok default_config mem_view C demo_disk" "seen default_config mem_view C demo_disk 7 = [9, 9]"
    using files_at_name [of default_config mem_view "file_size mem_view (new_cache e) demo_disk" "new_cache e" demo_disk
        "''/f''" 7] S(3,5) e(2) size by (simp_all add: C_def [symmetric])
  have "path_ino mem_view (host_state w) p \<noteq> None" if "fmlookup (file_inode_mapping (FSCache w)) p \<noteq> None" for p
    using that S(5) by (simp add: w_def map(1) split: if_splits)
  from checkpoint_makes_durable [OF S(1) _ _ this] f(1) obtain w' where
    "command_checkpoint demo_env w = Inr ((), w')" "content mem_view (host_state w') 7 = [9, 9]"
    using f S(5) by (auto simp: w_def map(1))
  then show ?thesis by (intro exI [of _ w] exI [of _ w']) (simp add: w_def map(1))
qed

text \<open>
  C29. The size the file system reports is the number of bytes everyone sees, cached or not; asking
  for it changes neither the host nor what is seen.
\<close>

theorem reported_size_is_seen:
  assumes "mounted ev hv" and "files_ok (FSConfig ev) hv (FSCache w) (host_state w)"
    and "path_ino hv (host_state w) path = Some i"
  shows "\<exists>st C'. lfs_getattr ev path w = Inr ((0, st), w\<lparr>FSCache := C'\<rparr>) \<and>
    st_size st = int (length (seen (FSConfig ev) hv (FSCache w) (host_state w) i)) \<and> st_ino st = i \<and>
    files_ok (FSConfig ev) hv C' (host_state w) \<and>
    seen (FSConfig ev) hv C' (host_state w) = seen (FSConfig ev) hv (FSCache w) (host_state w)"
  using getattr_ok [OF assms] file_size_seen [OF assms(2), of i] by fastforce

theorem reported_size_is_seen_witness:
  "\<exists>w st C'. lfs_getattr demo_env ''/f'' w = Inr ((0, st), w\<lparr>FSCache := C'\<rparr>) \<and> st_size st = 2"
proof -
  obtain e where e: "serving demo_env mem_view ''/f'' demo_fd 7 (new_lazyfs (new_cache e) fmempty demo_disk)"
    "seen default_config mem_view (new_cache e) demo_disk 7 = [9, 9]"
    by (rule demo_serving)
  note S = servingD [OF e(1)]
  from reported_size_is_seen [OF S(1,3,5)] e(2) show ?thesis by fastforce
qed

section \<open>What is in the cache\<close>

lemma put_block_keeps:
  assumes "cache_ok c C" and "cid \<noteq> ''none''" and "put_ok c req"
    and "put_data_blocks (custom_cache_engine h c) cid (fmupd b req fmempty) op C d = Inr (res, C', d')"
  shows "cache_ok c C'"
proof (cases "blocks_of C cid b \<noteq> None \<or> 0 < nfree (cengine C)")
  case True
  then show ?thesis
    using custom.put_one_stores [OF assms(1) [unfolded cache_ok_def] assms(2,3), of b h op d] assms(4)
    by (auto simp: blocks_of_def cache_ok_def)
next
  case False
  then show ?thesis
    using custom.put_one_fails [OF assms(1) [unfolded cache_ok_def] assms(2,3), of b h op d] assms(4)
      custom.put_nothing_inv [OF assms(1) [unfolded cache_ok_def] assms(2)]
    by (auto simp: blocks_of_def cache_ok_def)
qed

text \<open>
  C25. The types of what is cached. After any successful put, every cached block of every file is
  a whole block, in a page of the pool that no other block shares, and known to the item of its
  file with that page and the range that may be read.
\<close>

theorem cached_blocks_typed:
  assumes "cache_ok c C" and "cid \<noteq> ''none''" and "put_ok c req"
    and "put_data_blocks (custom_cache_engine h c) cid (fmupd b req fmempty) op C d = Inr (res, C', d')"
    and "blocks_of C' cid' b' = Some cb"
  shows "int (length (cb_data cb)) = IO_BLOCK_SIZE c \<and> 0 \<le> cb_page cb \<and> cb_page cb < CACHE_NR_PAGES c \<and>
    (\<forall>cid2 b2 cb2. blocks_of C' cid2 b2 = Some cb2 \<and> cb_page cb2 = cb_page cb \<longrightarrow> cid2 = cid' \<and> b2 = b') \<and>
    (\<exists>it info. fmlookup (contents C') cid' = Some it \<and> fmlookup (idata it) b' = Some info \<and>
       page_index_number info = cb_page cb \<and> readable_offset info = (0, cb_readable cb))"
proof -
  have ok: "cache_ok c C'" by (rule put_block_keeps [OF assms(1-4)])
  have inv: "eng_inv c (cengine C')" and agrees: "item_agrees (data_of C' cid') (blocks_of C' cid')"
    using ok by (simp_all add: cache_ok_def cache_inv_def engine_ok_def coherent_def blocks_of_def)
  have cb: "cblocks (cengine C') cid' b' = Some cb" using assms(5) by (simp add: blocks_of_def)
  have unique: "cid2 = cid' \<and> b2 = b'"
    if "blocks_of C' cid2 b2 = Some cb2 \<and> cb_page cb2 = cb_page cb" for cid2 b2 cb2
  proof -
    have "cblocks (cengine C') cid2 b2 = Some cb2" "cb_page cb2 = cb_page cb" using that by (simp_all add: blocks_of_def)
    then show ?thesis by (rule cblocks_page_unique [OF inv _ cb])
  qed
  obtain info where info: "fmlookup (data_of C' cid') b' = Some info"
    "page_index_number info = cb_page cb" "readable_offset info = (0, cb_readable cb)"
    by (rule item_agrees_cases [OF agrees, of b']) (use assms(5) in auto)
  then obtain it where "fmlookup (contents C') cid' = Some it" "idata it = data_of C' cid'"
    by (auto simp: data_of_def split: option.splits)
  then show ?thesis using cblocks_Some(2,4,5) [OF inv cb] unique info by metis
qed

theorem cached_blocks_typed_witness:
  "\<exists>e C'. put_data_blocks (custom_cache_engine mem_os default_config) ''7''
       (fmupd 0 ([1, 2, 3], 3, 0, 2) fmempty) OP_WRITE (new_cache e) demo_host =
       Inr (fmupd 0 True fmempty, C', demo_host) \<and>
     (\<exists>cb. blocks_of C' ''7'' 0 = Some cb \<and> length (cb_data cb) = 4096)"
proof -
  obtain e where e: "new_engine default_config = Inr e" "cache_ok default_config (new_cache e)"
    "nfree e = nat (CACHE_NR_PAGES default_config)"
    by (rule new_cache_ok [OF single_block_default])
  have put: "put_ok default_config ([1, 2, 3], 3, 0, 2)"
    by (simp add: put_ok_def request_ok_def default_config_def)
  have free: "0 < nfree (cengine (new_cache e))" using e(3) by (simp add: new_cache_def default_config_def)
  obtain C' where r: "put_data_blocks (custom_cache_engine mem_os default_config) ''7''
       (fmupd 0 ([1, 2, 3], 3, 0, 2) fmempty) OP_WRITE (new_cache e) demo_host =
       Inr (fmupd 0 True fmempty, C', demo_host)" "blocks_of C' ''7'' 0 \<noteq> None"
    using custom.put_one_stores [OF e(2) [unfolded cache_ok_def] _ put, of "''7''" 0 mem_os OP_WRITE demo_host] free
    by (auto simp: blocks_of_def upd_view_apply)
  then obtain cb where "blocks_of C' ''7'' 0 = Some cb" by blast
  then show ?thesis using cached_blocks_typed [OF e(2) _ put r(1)] r(1) by fastforce
qed

section \<open>The walk over a directory\<close>

text \<open>
  The regular files at or below a directory: those a directory lists, and those below its entries,
  the two that stand for the directory itself and its parent left out.
\<close>

inductive file_below :: "'d os \<Rightarrow> 'd \<Rightarrow> string \<Rightarrow> string \<Rightarrow> bool" for h d where
  listed: "os_readdir h dir d = Some entries \<Longrightarrow> (name, True) \<in> set entries \<Longrightarrow> name \<noteq> ''.'' \<Longrightarrow> name \<noteq> ''..'' \<Longrightarrow>
    file_below h d dir (dir @ ''/'' @ name)"
| deeper: "os_readdir h dir d = Some entries \<Longrightarrow> (name, is_reg) \<in> set entries \<Longrightarrow> name \<noteq> ''.'' \<Longrightarrow> name \<noteq> ''..'' \<Longrightarrow>
    file_below h d (dir @ ''/'' @ name) p \<Longrightarrow> file_below h d dir p"

lemma file_below_entry:
  "file_below h d dir p \<longleftrightarrow> (\<exists>entries. os_readdir h dir d = Some entries \<and>
     (\<exists>(name, is_reg) \<in> set entries. name \<noteq> ''.'' \<and> name \<noteq> ''..'' \<and>
        (is_reg \<and> p = dir @ ''/'' @ name \<or> file_below h d (dir @ ''/'' @ name) p)))"
proof
  assume "file_below h d dir p"
  then show "\<exists>entries. os_readdir h dir d = Some entries \<and>
     (\<exists>(name, is_reg) \<in> set entries. name \<noteq> ''.'' \<and> name \<noteq> ''..'' \<and>
        (is_reg \<and> p = dir @ ''/'' @ name \<or> file_below h d (dir @ ''/'' @ name) p))"
    by cases fastforce+
next
  assume "\<exists>entries. os_readdir h dir d = Some entries \<and>
     (\<exists>(name, is_reg) \<in> set entries. name \<noteq> ''.'' \<and> name \<noteq> ''..'' \<and>
        (is_reg \<and> p = dir @ ''/'' @ name \<or> file_below h d (dir @ ''/'' @ name) p))"
  then show "file_below h d dir p" by (auto intro: file_below.intros simp del: append.simps)
qed

lemma file_below_name: "file_below h d dir p \<Longrightarrow> \<exists>rest. p = dir @ ''/'' @ rest"
  by (induction rule: file_below.induct) auto

lemma those_map_Some: "(\<And>x. x \<in> set xs \<Longrightarrow> f x = Some (g x)) \<Longrightarrow> those (map f xs) = Some (map g xs)"
  by (induction xs) auto

text \<open>Every call lengthens the name, so where long names are refused there is an end to it.\<close>

lemma walk_ends:
  assumes long: "\<And>p. PATH_MAX \<le> length p \<Longrightarrow> os_readdir h p d = None" and n: "0 < n" "PATH_MAX < n + length dir"
  shows "\<exists>ps. lfs_get_dir_filenames n h d dir = Some ps \<and> set ps = {p. file_below h d dir p}"
  using n
proof (induction n arbitrary: dir)
  case (Suc n)
  show ?case
  proof (cases "os_readdir h dir d")
    case None
    then show ?thesis using file_below_entry [of h d dir] by simp
  next
    case (Some entries)
    have "\<exists>ps. lfs_get_dir_filenames n h d (dir @ ''/'' @ name) = Some ps \<and>
        set ps = {p. file_below h d (dir @ ''/'' @ name) p}" for name
    proof (rule Suc.IH)
      have "length dir < PATH_MAX" using Some long [of dir] by (cases "PATH_MAX \<le> length dir") simp_all
      then show "0 < n" "PATH_MAX < n + length (dir @ ''/'' @ name)" using Suc.prems(2) by simp_all
    qed
    then obtain below where below: "\<And>name. lfs_get_dir_filenames n h d (dir @ ''/'' @ name) = Some (below name)"
      "\<And>name. set (below name) = {p. file_below h d (dir @ ''/'' @ name) p}" by metis
    define found where "found = (\<lambda>(name, is_reg).
      if name \<noteq> ''.'' \<and> name \<noteq> ''..''
      then (if is_reg then [dir @ ''/'' @ name] else []) @ below name else [])"
    have "lfs_get_dir_filenames (Suc n) h d dir = Some (concat (map found entries))"
      using those_map_Some [of entries _ found] below(1) by (auto simp: Some found_def Let_def)
    moreover have "set (concat (map found entries)) = {p. file_below h d dir p}"
      unfolding set_eq_iff mem_Collect_eq file_below_entry [of h d dir] Some
      using below(2) by (auto simp: found_def split: if_splits)
    ultimately show ?thesis by blast
  qed
qed simp

text \<open>
  C33. The walk over a directory that a rename makes ends, even where directories lead back to
  themselves, because the host refuses names of \<open>PATH_MAX\<close> bytes or more: as many nested calls
  are enough, so the rename does not use up the stack. The walk finds exactly the regular files
  listed in the directory and, through entries other than \<open>.\<close> and \<open>..\<close>, in those below it; when
  the new name is not taken, the rename gives each of them, one after the other, the name that has
  the new directory in place of the old one.
\<close>

theorem dir_walk_finds_all_files:
  assumes "\<And>p. PATH_MAX \<le> length p \<Longrightarrow> os_readdir (eos ev) p (host_state w) = None"
  shows "\<exists>ps. lfs_get_dir_filenames (Suc PATH_MAX) (eos ev) (host_state w) from = Some ps \<and>
    set ps = {p. file_below (eos ev) (host_state w) from p} \<and>
    (\<forall>p \<in> set ps. \<exists>rest. p = from @ ''/'' @ rest \<and> to @ drop (length from) p = to @ ''/'' @ rest) \<and>
    (fst (os_stat (eos ev) to (host_state w)) \<noteq> 0 \<longrightarrow>
     lfs_recursive_rename ev from to w =
       bnd (foldE (\<lambda>p w. bnd (on_cache (rename_item (eengine ev) p (to @ drop (length from) p)) w) (\<lambda>(_, w). Inr w)) ps w)
         (\<lambda>w. Inr (0, w)))"
proof -
  have "0 < Suc PATH_MAX" "PATH_MAX < Suc PATH_MAX + length from" by simp_all
  from walk_ends [OF assms this] obtain ps where
    ps: "lfs_get_dir_filenames (Suc PATH_MAX) (eos ev) (host_state w) from = Some ps"
    "set ps = {p. file_below (eos ev) (host_state w) from p}" by blast
  then show ?thesis
    using file_below_name by (intro exI [of _ ps]) (force simp: lfs_recursive_rename_def split_def Let_def)
qed

text \<open>A host where every name is that of one directory, which has one file and itself as entries.\<close>

definition dir_os :: "unit os" where
  "dir_os = undefined\<lparr>os_readdir := (\<lambda>p d. if length p < PATH_MAX then Some [(''.'', False), (''x'', True), (''l'', False)] else None)\<rparr>"

definition dir_env :: "(engine, unit) env" where
  "dir_env = start_environment dir_os (\<lambda>_ _. False) (\<lambda>_. True) 0 default_config"

theorem dir_walk_finds_all_files_witness:
  "\<exists>ps. lfs_get_dir_filenames (Suc PATH_MAX) dir_os () ''/a'' = Some ps \<and> {''/a/x'', ''/a/l/x''} \<subseteq> set ps"
proof -
  define w :: "(engine, unit) world" where "w = new_lazyfs undefined fmempty ()"
  have os: "eos dir_env = dir_os" by (simp add: dir_env_def start_environment_def)
  have readdir: "os_readdir dir_os p () =
      (if length p < PATH_MAX then Some [(''.'', False), (''x'', True), (''l'', False)] else None)" for p
    by (simp add: dir_os_def)
  have "os_readdir (eos dir_env) p (host_state w) = None" if "PATH_MAX \<le> length p" for p
    using that by (simp add: os readdir)
  from dir_walk_finds_all_files [OF this, of "''/a''" "''/b''"] obtain ps where
    ps: "lfs_get_dir_filenames (Suc PATH_MAX) dir_os () ''/a'' = Some ps" "set ps = {p. file_below dir_os () ''/a'' p}"
    by (auto simp: os)
  have "file_below dir_os () ''/a'' ''/a/x''" "file_below dir_os () ''/a/l'' ''/a/l/x''"
    using file_below.listed [of dir_os "''/a''" "()" _ "''x''"] file_below.listed [of dir_os "''/a/l''" "()" _ "''x''"]
    by (simp_all add: readdir PATH_MAX_def)
  moreover from this(2) have "file_below dir_os () ''/a'' ''/a/l/x''"
    using file_below.deeper [of dir_os "''/a''" "()" _ "''l''" False "''/a/l/x''"] by (simp add: readdir PATH_MAX_def)
  ultimately show ?thesis using ps by auto
qed

end
