(* ===== verification/Torn_Seq.thy ===== *)
theory Torn_Seq
  imports Command_Theorems
begin

text \<open>
Torn-seq faults: a sequence of writes to one path, step by step, and what of it reaches the host.
\<close>


section \<open>Sequences of writes under a torn-seq fault\<close>

lemma persist_bytes_ok:
  assumes laws: "host_laws (eos ev) hv" and p: "path_ino hv (host_state w) path = Some i"
    and b: "0 \<le> offset" "length bs < 2147483648"
  obtains d' where "persist_bytes ev path bs offset w = (int (length bs), w\<lparr>host_state := d'\<rparr>)"
    "content hv d' = (content hv (host_state w))(i := file_write (content hv (host_state w) i) offset bs)"
    "path_ino hv d' = path_ino hv (host_state w)"
proof -
  note L = host_lawsD [OF laws]
  obtain fd d1 where op: "os_open (eos ev) path (O_CREAT + O_WRONLY) 438 (host_state w) = (fd, d1)"
    "fd_ino hv d1 fd = Some i" "content hv d1 = content hv (host_state w)" "path_ino hv d1 = path_ino hv (host_state w)"
    by (rule openD [OF L(1) p, of "O_CREAT + O_WRONLY" 438]) simp_all
  obtain d2 where pw: "os_pwrite (eos ev) fd bs offset d1 = (int (length bs), d2)"
    "content hv d2 = (content hv d1)(i := file_write (content hv d1 i) offset bs)" "path_ino hv d2 = path_ino hv d1"
    by (rule pwriteD [OF L(4) op(2) b(1)])
  have "c_int (int (length bs)) = int (length bs)" using b(2) by (simp add: c_int_id)
  then have "persist_bytes ev path bs offset w = (int (length bs), w\<lparr>host_state := os_close (eos ev) fd d2\<rparr>)"
    by (simp add: persist_bytes_def syscall_def op(1) pw(1))
  then show thesis
    using that [of "os_close (eos ev) fd d2"] L(2) op pw by (simp add: close_law_def)
qed

text \<open>The writes of a sequence whose number, from one, is among the given ones.\<close>

definition chosen :: "int list \<Rightarrow> (int \<times> byte list) list \<Rightarrow> (int \<times> byte list) list" where
  "chosen ps writes = map snd (filter (\<lambda>(k, x). int k \<in> set ps) (List.enumerate 1 writes))"

definition put_all :: "(int \<times> byte list) list \<Rightarrow> byte list \<Rightarrow> byte list" where
  "put_all = fold (\<lambda>(offset, bs) disk. file_write disk offset bs)"

lemma chosen_Nil [simp]: "chosen ps [] = []"
  by (simp add: chosen_def)

lemma chosen_snoc:
  "chosen ps (writes @ [x]) = chosen ps writes @ (if int (length writes) + 1 \<in> set ps then [x] else [])"
  by (simp add: chosen_def enumerate_append_eq add.commute)

lemma put_all_simps [simp]:
  "put_all [] disk = disk" "put_all (ws @ [(offset, bs)]) disk = file_write (put_all ws disk) offset bs"
  by (simp_all add: put_all_def)

definition seq_writes ::
  "('e, 'd) env \<Rightarrow> string \<Rightarrow> (int \<times> byte list) list \<Rightarrow> ('e, 'd) world \<Rightarrow> 'd stop + ('e, 'd) world" where
  "seq_writes ev path = foldE (\<lambda>(offset, buf) w.
     bnd (persist_write ev path buf (int (length buf)) offset w) (\<lambda>(_, w). Inr w))"

text \<open>A fault of which the next sequence of writes is the one to tear, or is not.\<close>

definition due :: "reorder_f \<Rightarrow> bool" where
  "due r \<longleftrightarrow> ro_group_counter r + 1 = ro_occurrence r"

definition at_write :: "nat \<Rightarrow> reorder_f \<Rightarrow> reorder_f" where
  "at_write m r = r\<lparr>ro_counter := int m,
     ro_group_counter := ro_group_counter r + (if 2 \<le> m then 1 else 0)\<rparr>"

text \<open>The number of the write after which the process is to crash.\<close>

definition last_write :: "reorder_f \<Rightarrow> int" where
  "last_write r = max 2 (last (ro_persist r))"

definition the_write :: "string \<Rightarrow> int \<times> byte list \<Rightarrow> write_call" where
  "the_write path = (\<lambda>(offset, buf).
     \<lparr>wr_path = path, wr_buf = buf, wr_size = int (length buf), wr_offset = offset\<rparr>)"

text \<open>The world after some writes of a sequence.\<close>

definition seq_state ::
  "'d view \<Rightarrow> string \<Rightarrow> int \<Rightarrow> reorder_f \<Rightarrow> ('e, 'd) world \<Rightarrow> (int \<times> byte list) list \<Rightarrow> ('e, 'd) world \<Rightarrow> bool" where
  "seq_state hv path i r w0 writes w \<longleftrightarrow>
     fmlookup (ffaults w) path = Some [ReorderF (at_write (length writes) r)] \<and>
     pending_write w =
       (if 1 \<in> set (ro_persist r) \<and>
           (length writes = 1 \<or> due r \<and> ro_persist r = [1] \<and> 2 \<le> length writes)
        then Some (the_write path (hd writes)) else None) \<and>
     content hv (host_state w) = (content hv (host_state w0))
       (i := put_all (if due r \<and> 2 \<le> length writes then chosen (ro_persist r) writes else [])
               (content hv (host_state w0) i)) \<and>
     path_ino hv (host_state w) = path_ino hv (host_state w0) \<and> FSCache w = FSCache w0 \<and>
     crash_faults_after_map w =
       (if due r \<and> last_write r \<le> int (length writes)
        then fmupd ''write'' (the (fmlookup (crash_faults_after_map w0) ''write'') @ [(any_around path, ''none'')])
               (crash_faults_after_map w0)
        else crash_faults_after_map w0)"

lemma update_one_reorder_fault:
  assumes "fmlookup (ffaults w) path = Some [ReorderF r]" and "ro_op r = op"
  shows "get_and_update_reorder_fault path op w =
    (Some 0, set_fault path 0 (ReorderF (r\<lparr>ro_counter := ro_counter r + 1\<rparr>)) w)"
  using assms by (simp add: get_and_update_reorder_fault_def)

text \<open>What \<open>persist_write\<close> does once it has counted the write.\<close>

definition persist_counted ::
  "('e, 'd) env \<Rightarrow> string \<Rightarrow> byte list \<Rightarrow> int \<Rightarrow> reorder_f \<Rightarrow> ('e, 'd) world \<Rightarrow> ('e, 'd, bool) outcome" where
  "persist_counted ev path buf offset r w =
     bnd (persist_pending ev path r w) (\<lambda>(returned, w).
       if returned then Inr (False, w)
       else if ro_counter r \<notin> set (ro_persist r) then Inr (False, w)
       else if ro_counter r = 1 then
         bnd (lift (new_Write path buf (int (length buf)) offset)) (\<lambda>p.
         Inr (False, w\<lparr>pending_write := Some p\<rparr>))
       else if ro_group_counter r = ro_occurrence r then
         bnd (lift (mem_read buf 0 (int (length buf)))) (\<lambda>bs.
         let (pw, w) = persist_bytes ev path bs offset w in
         if u64 pw = int (length buf) \<and> last (ro_persist r) = ro_counter r then
           bnd (add_crash_fault ev ''after'' ''write'' path ''none'' w) (\<lambda>(_, w).
           Inr (True, w))
         else Inr (False, w))
       else Inr (False, w))"

lemma persist_write_counted:
  assumes "fmlookup (ffaults w) path = Some [ReorderF (at_write m r)]" and "ro_op r = ''write''"
  obtains w1 where "persist_write ev path buf (int (length buf)) offset w =
      persist_counted ev path buf offset (at_write (Suc m) r) w1"
    "fmlookup (ffaults w1) path = Some [ReorderF (at_write (Suc m) r)]"
    "pending_write w1 = pending_write w" "host_state w1 = host_state w" "FSCache w1 = FSCache w"
    "crash_faults_after_map w1 = crash_faults_after_map w"
proof -
  define q where "q = (at_write m r)\<lparr>ro_counter := int (Suc m)\<rparr>"
  define v where "v = set_fault path 0 (ReorderF q) w"
  have up: "get_and_update_reorder_fault path ''write'' w = (Some 0, v)"
    using update_one_reorder_fault [OF assms(1), of "''write''"] assms(2)
    by (simp add: at_write_def v_def q_def add.commute)
  have v: "fmlookup (ffaults v) path = Some [ReorderF q]" "pending_write v = pending_write w"
    "host_state v = host_state w" "FSCache v = FSCache w" "crash_faults_after_map v = crash_faults_after_map w"
    using assms(1) by (simp_all add: v_def set_fault_def)
  have at: "reorder_fault_at path 0 v = Inr q" using v(1) by (simp add: reorder_fault_at_def)
  show thesis
  proof (cases "m = 1")
    case True
    define w1 where "w1 = set_fault path 0 (ReorderF (at_write (Suc m) r)) (v\<lparr>injecting_fault := injecting_fault v @ [path]\<rparr>)"
    have q: "ro_counter q = 2" "q\<lparr>ro_group_counter := ro_group_counter q + 1\<rparr> = at_write (Suc m) r"
      using True by (simp_all add: q_def at_write_def)
    show thesis
    proof (rule that [of w1])
      show "persist_write ev path buf (int (length buf)) offset w =
          persist_counted ev path buf offset (at_write (Suc m) r) w1"
        unfolding persist_write_def up Let_def prod.case option.case at lift_simps bnd_Inr if_P [OF q(1)] q(2)
          w1_def [symmetric] persist_counted_def ..
    qed (use v in \<open>simp_all add: w1_def set_fault_def\<close>)
  next
    case False
    have q: "ro_counter q \<noteq> 2" "q = at_write (Suc m) r"
      using False by (auto simp: q_def at_write_def)
    show thesis
    proof (rule that [of v])
      show "persist_write ev path buf (int (length buf)) offset w =
          persist_counted ev path buf offset (at_write (Suc m) r) v"
        unfolding persist_write_def up Let_def prod.case option.case at lift_simps bnd_Inr if_not_P [OF q(1)]
          q(2) [symmetric] persist_counted_def ..
    qed (use v in \<open>simp_all add: q(2)\<close>)
  qed
qed

lemma add_after_write:
  assumes "regex_valid ev (any_around path)" and "fmlookup (crash_faults_after_map w) ''write'' = Some l"
  shows "add_crash_fault ev ''after'' ''write'' path ''none'' w =
    Inr ((), w\<lparr>crash_faults_after_map := fmupd ''write'' (l @ [(any_around path, ''none'')]) (crash_faults_after_map w)\<rparr>)"
  using assms by (simp add: add_crash_fault_def require_def fmat_Some [OF assms(2)])

text \<open>A write after the first one, once the kept write has been dealt with.\<close>

lemma counted_later:
  assumes laws: "host_laws (eos ev) hv" and p: "path_ino hv (host_state v) path = Some i"
    and c: "regex_valid ev (any_around path)" "fmlookup (crash_faults_after_map v) ''write'' = Some l"
    and b: "0 \<le> offset" "length buf < 2147483648"
    and n: "2 \<le> n" and pend: "persist_pending ev path (at_write n r) w1 = Inr (False, v)"
  shows "\<exists>t d' m. persist_counted ev path buf offset (at_write n r) w1 =
      Inr (t, v\<lparr>host_state := d', crash_faults_after_map := m\<rparr>) \<and>
    content hv d' = (if due r \<and> int n \<in> set (ro_persist r)
       then (content hv (host_state v))(i := file_write (content hv (host_state v) i) offset buf)
       else content hv (host_state v)) \<and>
    path_ino hv d' = path_ino hv (host_state v) \<and>
    m = (if due r \<and> int n \<in> set (ro_persist r) \<and> last (ro_persist r) = int n
       then fmupd ''write'' (l @ [(any_around path, ''none'')]) (crash_faults_after_map v) else crash_faults_after_map v)"
proof -
  have at: "ro_counter (at_write n r) = int n" "ro_persist (at_write n r) = ro_persist r"
    "ro_group_counter (at_write n r) = ro_occurrence (at_write n r) \<longleftrightarrow> due r"
    using n by (simp_all add: at_write_def due_def)
  show ?thesis
  proof (cases "due r \<and> int n \<in> set (ro_persist r)")
    case False
    then have "persist_counted ev path buf offset (at_write n r) w1 = Inr (False, v)"
      using n by (auto simp: persist_counted_def pend at)
    then show ?thesis using False
      by (intro exI [of _ False] exI [of _ "host_state v"] exI [of _ "crash_faults_after_map v"]) auto
  next
    case True
    obtain d' where d': "persist_bytes ev path buf offset v = (int (length buf), v\<lparr>host_state := d'\<rparr>)"
      "content hv d' = (content hv (host_state v))(i := file_write (content hv (host_state v) i) offset buf)"
      "path_ino hv d' = path_ino hv (host_state v)"
      by (rule persist_bytes_ok [OF laws p b])
    have u: "u64 (int (length buf)) = int (length buf)" using b(2) by (simp add: u64_id)
    have c': "fmlookup (crash_faults_after_map (v\<lparr>host_state := d'\<rparr>)) ''write'' = Some l" using c(2) by simp
    show ?thesis
    proof (cases "last (ro_persist r) = int n")
      case last: True
      then have "persist_counted ev path buf offset (at_write n r) w1 =
          Inr (True, v\<lparr>host_state := d', crash_faults_after_map :=
            fmupd ''write'' (l @ [(any_around path, ''none'')]) (crash_faults_after_map v)\<rparr>)"
        using True n by (simp add: persist_counted_def pend at mem_read_all d'(1) u add_after_write [OF c(1) c'])
      then show ?thesis using True last d'(2,3)
        by (intro exI [of _ True] exI [of _ d']
            exI [of _ "fmupd ''write'' (l @ [(any_around path, ''none'')]) (crash_faults_after_map v)"]) simp
    next
      case False
      then have "persist_counted ev path buf offset (at_write n r) w1 = Inr (False, v\<lparr>host_state := d'\<rparr>)"
        using True n by (simp add: persist_counted_def pend at mem_read_all d'(1) u)
      then show ?thesis using True False d'(2,3)
        by (intro exI [of _ False] exI [of _ d'] exI [of _ "crash_faults_after_map v"]) simp
    qed
  qed
qed

text \<open>The kept first write when the second one comes.\<close>

lemma pending_second:
  assumes laws: "host_laws (eos ev) hv" and p: "path_ino hv (host_state w1) path = Some i"
    and c: "regex_valid ev (any_around path)" "fmlookup (crash_faults_after_map w1) ''write'' = Some l"
    and b: "0 \<le> offset" "length buf < 2147483648"
    and pw: "pending_write w1 = (if 1 \<in> set (ro_persist r) then Some (the_write path (offset, buf)) else None)"
  shows "\<exists>d' m. persist_pending ev path (at_write 2 r) w1 = Inr (due r \<and> ro_persist r = [1],
      w1\<lparr>host_state := d', crash_faults_after_map := m,
         pending_write := (if due r \<and> ro_persist r = [1] then Some (the_write path (offset, buf)) else None)\<rparr>) \<and>
    content hv d' = (if due r \<and> 1 \<in> set (ro_persist r)
       then (content hv (host_state w1))(i := file_write (content hv (host_state w1) i) offset buf)
       else content hv (host_state w1)) \<and>
    path_ino hv d' = path_ino hv (host_state w1) \<and>
    m = (if due r \<and> ro_persist r = [1]
       then fmupd ''write'' (l @ [(any_around path, ''none'')]) (crash_faults_after_map w1) else crash_faults_after_map w1)"
proof -
  have at: "ro_persist (at_write 2 r) = ro_persist r"
    "ro_group_counter (at_write 2 r) = ro_occurrence (at_write 2 r) \<longleftrightarrow> due r"
    by (simp_all add: at_write_def due_def)
  have wr: "wr_path (the_write path (offset, buf)) = path" "wr_buf (the_write path (offset, buf)) = buf"
    "wr_size (the_write path (offset, buf)) = int (length buf)" "wr_offset (the_write path (offset, buf)) = offset"
    by (simp_all add: the_write_def)
  consider (none) "1 \<notin> set (ro_persist r)" | (other) "1 \<in> set (ro_persist r)" "\<not> due r"
    | (due) "1 \<in> set (ro_persist r)" "due r" by blast
  then show ?thesis
  proof cases
    case none
    have "w1\<lparr>host_state := host_state w1, crash_faults_after_map := crash_faults_after_map w1, pending_write := None\<rparr> = w1"
      using pw none by simp
    then show ?thesis using none pw
      by (intro exI [of _ "host_state w1"] exI [of _ "crash_faults_after_map w1"]) (auto simp: persist_pending_def)
  next
    case other
    then show ?thesis using pw
      by (intro exI [of _ "host_state w1"] exI [of _ "crash_faults_after_map w1"]) (simp add: persist_pending_def at)
  next
    case due
    obtain d' where d': "persist_bytes ev path buf offset w1 = (int (length buf), w1\<lparr>host_state := d'\<rparr>)"
      "content hv d' = (content hv (host_state w1))(i := file_write (content hv (host_state w1) i) offset buf)"
      "path_ino hv d' = path_ino hv (host_state w1)"
      by (rule persist_bytes_ok [OF laws p b])
    have u: "u64 (int (length buf)) = int (length buf)" using b(2) by (simp add: u64_id)
    have c': "fmlookup (crash_faults_after_map (w1\<lparr>host_state := d'\<rparr>)) ''write'' = Some l" using c(2) by simp
    have one: "length (ro_persist r) = 1 \<longleftrightarrow> ro_persist r = [1]" using due(1) by (cases "ro_persist r") auto
    show ?thesis
    proof (cases "ro_persist r = [1]")
      case True
      have "persist_pending ev path (at_write 2 r) w1 =
          Inr (True, w1\<lparr>host_state := d', crash_faults_after_map :=
            fmupd ''write'' (l @ [(any_around path, ''none'')]) (crash_faults_after_map w1)\<rparr>)"
        using True due pw by (simp add: persist_pending_def at wr d'(1) u add_after_write [OF c(1) c'])
      moreover have "pending_write w1 = Some (the_write path (offset, buf))" using pw due(1) by simp
      moreover from this have "w1\<lparr>host_state := d', crash_faults_after_map := m, pending_write := Some (the_write path (offset, buf))\<rparr> =
          w1\<lparr>host_state := d', crash_faults_after_map := m\<rparr>" for m by (intro world.equality) simp_all
      ultimately show ?thesis using True due d'(2,3)
        by (intro exI [of _ d'] exI [of _ "fmupd ''write'' (l @ [(any_around path, ''none'')]) (crash_faults_after_map w1)"]) simp
    next
      case False
      then have "persist_pending ev path (at_write 2 r) w1 = Inr (False, w1\<lparr>host_state := d', pending_write := None\<rparr>)"
        using due pw one by (simp add: persist_pending_def at wr d'(1) u)
      then show ?thesis using False due d'(2,3)
        by (intro exI [of _ d'] exI [of _ "crash_faults_after_map w1"]) simp
    qed
  qed
qed

text \<open>One more write of the sequence.\<close>

lemma last_write_cases:
  assumes "sorted_wrt (<) (ro_persist r)" and "\<forall>p \<in> set (ro_persist r). 0 < p" and "ro_persist r \<noteq> []"
    and "2 \<le> n" and "n \<le> last_write r"
  shows "last_write r \<le> n \<longleftrightarrow> (n \<in> set (ro_persist r) \<and> last (ro_persist r) = n) \<or> (ro_persist r = [1] \<and> n = 2)"
proof -
  have l: "last (ro_persist r) \<in> set (ro_persist r)" "0 < last (ro_persist r)" using assms(2,3) by simp_all
  have "ro_persist r = [1]" if "last (ro_persist r) = 1"
  proof -
    have eq: "ro_persist r = butlast (ro_persist r) @ [1]" using assms(3) that by (metis append_butlast_last_id)
    have "butlast (ro_persist r) = []"
    proof (rule ccontr)
      assume "butlast (ro_persist r) \<noteq> []"
      then obtain x xs where "butlast (ro_persist r) = x # xs" by (cases "butlast (ro_persist r)") auto
      then have "ro_persist r = x # xs @ [1]" using eq by simp
      then show False using assms(1,2) by auto
    qed
    then show ?thesis using eq by simp
  qed
  moreover have "n = 2 \<or> last (ro_persist r) = last_write r" using assms(4,5) l(2) by (auto simp: last_write_def max_def)
  ultimately show ?thesis using assms(4,5) l by (auto simp: last_write_def max_def split: if_splits)
qed

text \<open>The write has been counted, by the fault of the path: what holds when the handler goes on to act
on the counter.\<close>

definition seq_counted where
  "seq_counted ev hv path i r w0 l writes offset buf w w1 \<longleftrightarrow>
    host_laws (eos ev) hv \<and>
    path_ino hv (host_state w1) path = Some i \<and>
    regex_valid ev (any_around path) \<and>
    fmlookup (crash_faults_after_map w0) ''write'' = Some l \<and>
    (\<forall>(offset, buf) \<in> set (writes @ [(offset, buf)]). 0 \<le> offset \<and> length buf < 2147483648) \<and>
    (due r \<longrightarrow> int (Suc (length writes)) \<le> last_write r) \<and>
    seq_state hv path i r w0 writes w \<and>
    persist_write ev path buf (int (length buf)) offset w =
      persist_counted ev path buf offset (at_write (Suc (length writes)) r) w1 \<and>
    fmlookup (ffaults w1) path = Some [ReorderF (at_write (Suc (length writes)) r)] \<and>
    pending_write w1 = pending_write w \<and>
    host_state w1 = host_state w \<and>
    FSCache w1 = FSCache w \<and>
    crash_faults_after_map w1 = crash_faults_after_map w \<and>
    ro_op r = ''write'' \<and>
    sorted_wrt (<) (ro_persist r) \<and>
    (\<forall>p \<in> set (ro_persist r). 0 < p) \<and>
    ro_persist r \<noteq> []"

lemma seq_countedD:
  assumes "seq_counted ev hv path i r w0 l writes offset buf w w1"
  shows "host_laws (eos ev) hv"
    and "path_ino hv (host_state w1) path = Some i"
    and "regex_valid ev (any_around path)"
    and "fmlookup (crash_faults_after_map w0) ''write'' = Some l"
    and "\<forall>(offset, buf) \<in> set (writes @ [(offset, buf)]). 0 \<le> offset \<and> length buf < 2147483648"
    and "due r \<Longrightarrow> int (Suc (length writes)) \<le> last_write r"
    and "seq_state hv path i r w0 writes w"
    and "persist_write ev path buf (int (length buf)) offset w =
      persist_counted ev path buf offset (at_write (Suc (length writes)) r) w1"
    and "fmlookup (ffaults w1) path = Some [ReorderF (at_write (Suc (length writes)) r)]"
    and "pending_write w1 = pending_write w"
    and "host_state w1 = host_state w"
    and "FSCache w1 = FSCache w"
    and "crash_faults_after_map w1 = crash_faults_after_map w"
    and "ro_op r = ''write''"
    and "sorted_wrt (<) (ro_persist r)"
    and "\<forall>p \<in> set (ro_persist r). 0 < p"
    and "ro_persist r \<noteq> []"
  using assms unfolding seq_counted_def by blast+

lemma seq_step_first:
  assumes G: "seq_counted ev hv path i r w0 l writes offset buf w w1" and first: "writes = []"
  shows "\<exists>w'. bnd (persist_write ev path buf (int (length buf)) offset w) (\<lambda>(_, w). Inr w) = Inr w' \<and>
    seq_state hv path i r w0 (writes @ [(offset, buf)]) w'"
proof -
  note laws = seq_countedD(1) [OF G] and p1 = seq_countedD(2) [OF G] and c = seq_countedD(3,4) [OF G]
    and b = seq_countedD(5) [OF G] and bound = seq_countedD(6) [OF G] and S = seq_countedD(7) [OF G, unfolded seq_state_def]
    and w1 = seq_countedD(8-13) [OF G] and r = seq_countedD(14-17) [OF G]
  have b': "0 \<le> offset" "length buf < 2147483648" using b by auto
  have at: "ro_counter (at_write (Suc (length writes)) r) = 1" "ro_persist (at_write (Suc (length writes)) r) = ro_persist r"
    using first by (simp_all add: at_write_def)
  have none: "pending_write w1 = None" using S w1(3) first by simp
  define w' where "w' = (if 1 \<in> set (ro_persist r) then w1\<lparr>pending_write := Some (the_write path (offset, buf))\<rparr> else w1)"
  have "persist_counted ev path buf offset (at_write (Suc (length writes)) r) w1 = Inr (False, w')"
    by (simp add: persist_counted_def persist_pending_def none at new_Write_def mem_read_all w'_def the_write_def)
  then have "bnd (persist_write ev path buf (int (length buf)) offset w) (\<lambda>(_, w). Inr w) = Inr w'"
    using w1(1) by auto
  moreover have "\<not> last_write r \<le> 1" by (simp add: last_write_def)
  ultimately show ?thesis
    using S w1(2-6) first none by (intro exI [of _ w']) (simp add: seq_state_def w'_def)
qed

lemma seq_step_second:
  assumes G: "seq_counted ev hv path i r w0 l writes offset buf w w1" and second: "writes = [x]"
  shows "\<exists>w'. bnd (persist_write ev path buf (int (length buf)) offset w) (\<lambda>(_, w). Inr w) = Inr w' \<and>
    seq_state hv path i r w0 (writes @ [(offset, buf)]) w'"
proof -
  note laws = seq_countedD(1) [OF G] and p1 = seq_countedD(2) [OF G] and c = seq_countedD(3,4) [OF G]
    and b = seq_countedD(5) [OF G] and bound = seq_countedD(6) [OF G] and S = seq_countedD(7) [OF G, unfolded seq_state_def]
    and w1 = seq_countedD(8-13) [OF G] and r = seq_countedD(14-17) [OF G]
  have b': "0 \<le> offset" "length buf < 2147483648" using b by auto
  obtain o1 b1 where x: "x = (o1, b1)" by (cases x)
  have bx: "0 \<le> o1" "length b1 < 2147483648" using b second x by auto
  have two: "Suc (length writes) = 2" "length (writes @ [(offset, buf)]) = 2" using second by simp_all
  note w1' = w1(1,2) [unfolded two(1)] w1(3-6)
  have c1: "fmlookup (crash_faults_after_map w1) ''write'' = Some l" "crash_faults_after_map w1 = crash_faults_after_map w0"
    using S c(2) w1(6) second by (simp_all add: last_write_def)
  have k1: "content hv (host_state w1) = content hv (host_state w0)" using S w1(4) second by simp
  have pend: "pending_write w1 = (if 1 \<in> set (ro_persist r) then Some (the_write path (o1, b1)) else None)"
    using S w1(3) second x by simp
  obtain d1 m1 where P: "persist_pending ev path (at_write 2 r) w1 = Inr (due r \<and> ro_persist r = [1],
      w1\<lparr>host_state := d1, crash_faults_after_map := m1,
         pending_write := (if due r \<and> ro_persist r = [1] then Some (the_write path (o1, b1)) else None)\<rparr>)"
    "content hv d1 = (if due r \<and> 1 \<in> set (ro_persist r)
       then (content hv (host_state w1))(i := file_write (content hv (host_state w1) i) o1 b1)
       else content hv (host_state w1))"
    "path_ino hv d1 = path_ino hv (host_state w1)"
    "m1 = (if due r \<and> ro_persist r = [1]
       then fmupd ''write'' (l @ [(any_around path, ''none'')]) (crash_faults_after_map w1) else crash_faults_after_map w1)"
    using pending_second [OF laws p1 c(1) c1(1) bx pend] by blast
  define v where "v = w1\<lparr>host_state := d1, crash_faults_after_map := m1,
         pending_write := (if due r \<and> ro_persist r = [1] then Some (the_write path (o1, b1)) else None)\<rparr>"
  show ?thesis
  proof (cases "due r \<and> ro_persist r = [1]")
    case True
    then have "persist_counted ev path buf offset (at_write 2 r) w1 = Inr (False, v)"
      using P(1) by (simp add: persist_counted_def v_def)
    moreover have "last_write r = 2" using True by (simp add: last_write_def)
    moreover have "chosen [1] [(o1, b1), (offset, buf)] = [(o1, b1)]" by (simp add: chosen_def)
    moreover have "put_all [(o1, b1)] disk = file_write disk o1 b1" for disk by (simp add: put_all_def)
    ultimately show ?thesis
      using w1' S True P(2-4) k1 c1 c(2) x second
      by (intro exI [of _ v]) (simp add: seq_state_def v_def two(2) numeral_2_eq_2)
  next
    case False
    have v: "persist_pending ev path (at_write 2 r) w1 = Inr (False, v)" "pending_write v = None"
      "path_ino hv (host_state v) path = Some i" "fmlookup (crash_faults_after_map v) ''write'' = Some l"
      "crash_faults_after_map v = crash_faults_after_map w0"
      using P False p1 c1 by (simp_all add: v_def)
    obtain t d' m where R: "persist_counted ev path buf offset (at_write 2 r) w1 =
        Inr (t, v\<lparr>host_state := d', crash_faults_after_map := m\<rparr>)"
      "content hv d' = (if due r \<and> int 2 \<in> set (ro_persist r)
         then (content hv (host_state v))(i := file_write (content hv (host_state v) i) offset buf)
         else content hv (host_state v))"
      "path_ino hv d' = path_ino hv (host_state v)"
      "m = (if due r \<and> int 2 \<in> set (ro_persist r) \<and> last (ro_persist r) = int 2
         then fmupd ''write'' (l @ [(any_around path, ''none'')]) (crash_faults_after_map v) else crash_faults_after_map v)"
      using counted_later [OF laws v(3) c(1) v(4) b' _ v(1)] by blast
    have m: "m = (if due r \<and> last_write r \<le> 2 then fmupd ''write'' (l @ [(any_around path, ''none'')])
        (crash_faults_after_map w0) else crash_faults_after_map w0)"
      using last_write_cases [OF r(2-4), of 2] bound False two R(4) v(5) by (auto simp: last_write_def)
    have k: "content hv d' = (content hv (host_state w0))
       (i := put_all (if due r then chosen (ro_persist r) [(o1, b1), (offset, buf)] else []) (content hv (host_state w0) i))"
      using R(2) P(2) k1 by (auto simp: v_def chosen_def put_all_def)
    define w' where "w' = v\<lparr>host_state := d', crash_faults_after_map := m\<rparr>"
    have "fmlookup (ffaults w') path = Some [ReorderF (at_write 2 r)]" "pending_write w' = None"
      "FSCache w' = FSCache w0" "host_state w' = d'" "crash_faults_after_map w' = m"
      "path_ino hv d' = path_ino hv (host_state w0)"
      using w1'(2-5) S v(2) R(3) P(3) by (simp_all add: w'_def v_def)
    moreover have "\<not> (1 \<in> set (ro_persist r) \<and> (length (writes @ [(offset, buf)]) = 1 \<or>
        due r \<and> ro_persist r = [1] \<and> 2 \<le> length (writes @ [(offset, buf)])))"
      using False two(2) by simp
    ultimately have "seq_state hv path i r w0 (writes @ [(offset, buf)]) w'"
      using k m c(2) second x unfolding seq_state_def two(2) by simp
    moreover have "persist_write ev path buf (int (length buf)) offset w = Inr (t, w')"
      using w1'(1) R(1) by (simp add: w'_def)
    ultimately show ?thesis by (intro exI [of _ w']) simp
  qed
qed

lemma seq_step_later:
  assumes G: "seq_counted ev hv path i r w0 l writes offset buf w w1" and later: "2 \<le> length writes"
  shows "\<exists>w'. bnd (persist_write ev path buf (int (length buf)) offset w) (\<lambda>(_, w). Inr w) = Inr w' \<and>
    seq_state hv path i r w0 (writes @ [(offset, buf)]) w'"
proof -
  note laws = seq_countedD(1) [OF G] and p1 = seq_countedD(2) [OF G] and c = seq_countedD(3,4) [OF G]
    and b = seq_countedD(5) [OF G] and bound = seq_countedD(6) [OF G] and S = seq_countedD(7) [OF G, unfolded seq_state_def]
    and w1 = seq_countedD(8-13) [OF G] and r = seq_countedD(14-17) [OF G]
  have b': "0 \<le> offset" "length buf < 2147483648" using b by auto
  define n where "n = Suc (length writes)"
  have n: "3 \<le> n" "int n = int (length writes) + 1" using later by (simp_all add: n_def)
  have not1: "\<not> (due r \<and> ro_persist r = [1])" using bound later by (auto simp: last_write_def)
  have none: "pending_write w1 = None" using S w1(3) later not1 by auto
  have early: "crash_faults_after_map w1 = crash_faults_after_map w0"
    using S w1(6) bound by (auto)
  have c1: "fmlookup (crash_faults_after_map w1) ''write'' = Some l" using c(2) early by simp
  have pend: "persist_pending ev path (at_write n r) w1 = Inr (False, w1)" by (simp add: persist_pending_def none)
  obtain t d' m where R: "persist_counted ev path buf offset (at_write n r) w1 =
      Inr (t, w1\<lparr>host_state := d', crash_faults_after_map := m\<rparr>)"
    "content hv d' = (if due r \<and> int n \<in> set (ro_persist r)
       then (content hv (host_state w1))(i := file_write (content hv (host_state w1) i) offset buf)
       else content hv (host_state w1))"
    "path_ino hv d' = path_ino hv (host_state w1)"
    "m = (if due r \<and> int n \<in> set (ro_persist r) \<and> last (ro_persist r) = int n
       then fmupd ''write'' (l @ [(any_around path, ''none'')]) (crash_faults_after_map w1) else crash_faults_after_map w1)"
    using counted_later [OF laws p1 c(1) c1 b' _ pend] n(1) by auto
  have m: "m = (if due r \<and> last_write r \<le> int n then fmupd ''write'' (l @ [(any_around path, ''none'')])
      (crash_faults_after_map w0) else crash_faults_after_map w0)"
    using last_write_cases [OF r(2-4), of "int n"] bound n R(4) early by (auto simp: n_def)
  have k: "content hv d' = (content hv (host_state w0))
     (i := put_all (if due r then chosen (ro_persist r) (writes @ [(offset, buf)]) else []) (content hv (host_state w0) i))"
    using R(2) S w1(4) later n(2) by (auto simp: chosen_snoc)
  show ?thesis
    using w1 S R k m c(2) later not1 none
    by (intro exI [of _ "w1\<lparr>host_state := d', crash_faults_after_map := m\<rparr>"])
      (auto simp: seq_state_def n_def)
qed

lemma seq_step:
  assumes laws: "host_laws (eos ev) hv" and p0: "path_ino hv (host_state w0) path = Some i"
    and r: "ro_op r = ''write''" "sorted_wrt (<) (ro_persist r)" "\<forall>p \<in> set (ro_persist r). 0 < p" "ro_persist r \<noteq> []"
    and c: "regex_valid ev (any_around path)" "fmlookup (crash_faults_after_map w0) ''write'' = Some l"
    and b: "\<forall>(offset, buf) \<in> set (writes @ [(offset, buf)]). 0 \<le> offset \<and> length buf < 2147483648"
    and bound: "due r \<Longrightarrow> int (Suc (length writes)) \<le> last_write r"
    and st: "seq_state hv path i r w0 writes w"
  shows "\<exists>w'. bnd (persist_write ev path buf (int (length buf)) offset w) (\<lambda>(_, w). Inr w) = Inr w' \<and>
    seq_state hv path i r w0 (writes @ [(offset, buf)]) w'"
proof -
  note S = st [unfolded seq_state_def]
  obtain w1 where w1: "persist_write ev path buf (int (length buf)) offset w =
      persist_counted ev path buf offset (at_write (Suc (length writes)) r) w1"
    "fmlookup (ffaults w1) path = Some [ReorderF (at_write (Suc (length writes)) r)]"
    "pending_write w1 = pending_write w" "host_state w1 = host_state w" "FSCache w1 = FSCache w"
    "crash_faults_after_map w1 = crash_faults_after_map w"
    by (rule persist_write_counted [OF conjunct1 [OF S] r(1)])
  have p1: "path_ino hv (host_state w1) path = Some i" using S p0 w1(4) by simp
  have G: "seq_counted ev hv path i r w0 l writes offset buf w w1"
    unfolding seq_counted_def using laws p1 r c b bound st w1 by blast
  consider "writes = []" | x where "writes = [x]" | "2 \<le> length writes"
    by (cases writes; cases "tl writes") auto
  then show ?thesis
    by cases (rule seq_step_first [OF G] seq_step_second [OF G] seq_step_later [OF G], assumption)+
qed


lemma seq_writes_ok:
  assumes laws: "host_laws (eos ev) hv" and p0: "path_ino hv (host_state w0) path = Some i"
    and r: "ro_op r = ''write''" "sorted_wrt (<) (ro_persist r)" "\<forall>p \<in> set (ro_persist r). 0 < p" "ro_persist r \<noteq> []"
    and c: "regex_valid ev (any_around path)" "fmlookup (crash_faults_after_map w0) ''write'' = Some l"
    and f: "fmlookup (ffaults w0) path = Some [ReorderF r]" "ro_counter r = 0" "pending_write w0 = None"
    and b: "\<forall>(offset, buf) \<in> set writes. 0 \<le> offset \<and> length buf < 2147483648"
    and bound: "due r \<Longrightarrow> int (length writes) \<le> last_write r"
  shows "\<exists>w'. seq_writes ev path writes w0 = Inr w' \<and> seq_state hv path i r w0 writes w'"
  using b bound
proof (induction writes rule: rev_induct)
  case Nil
  have "at_write 0 r = r" using f(2) by (cases r) (simp add: at_write_def)
  moreover have "\<not> last_write r \<le> 0" by (simp add: last_write_def)
  ultimately show ?case using f by (simp add: seq_writes_def seq_state_def)
next
  case (snoc x writes)
  obtain offset buf where x: "x = (offset, buf)" by (cases x)
  obtain w where w: "seq_writes ev path writes w0 = Inr w" "seq_state hv path i r w0 writes w"
  proof -
    have "due r \<Longrightarrow> int (length writes) \<le> last_write r" using snoc(3) by fastforce
    then show thesis using snoc(1,2) that by auto
  qed
  obtain w' where "bnd (persist_write ev path buf (int (length buf)) offset w) (\<lambda>(_, w). Inr w) = Inr w'"
    "seq_state hv path i r w0 (writes @ [(offset, buf)]) w'"
    using seq_step [OF laws p0 r c _ _ w(2), of offset buf] snoc(2,3) x by auto
  then show ?case using w(1) x by (simp add: seq_writes_def foldE_append)
qed

text \<open>
  C15. A torn-seq fault persists the chosen writes of the sequence it is due for, in their order
  and nothing else, and arms the crash exactly with the last of them (or with the second write,
  when only the first is chosen: it is kept back until a second one shows that there is a
  sequence). The cache is not touched.
\<close>

theorem torn_seq_persists_chosen_writes:
  assumes "host_laws (eos ev) hv" and "path_ino hv (host_state w) path = Some i"
    and "ro_op r = ''write''" and "sorted_wrt (<) (ro_persist r)" and "\<forall>p \<in> set (ro_persist r). 0 < p"
    and "ro_persist r \<noteq> []" and "ro_group_counter r + 1 = ro_occurrence r"
    and "regex_valid ev (any_around path)" and "fmlookup (crash_faults_after_map w) ''write'' = Some l"
    and "fmlookup (ffaults w) path = Some [ReorderF r]" and "ro_counter r = 0" and "pending_write w = None"
    and "\<forall>(offset, buf) \<in> set writes. 0 \<le> offset \<and> length buf < 2147483648"
    and "2 \<le> length writes" and "int (length writes) \<le> max 2 (last (ro_persist r))"
  shows "\<exists>w'. seq_writes ev path writes w = Inr w' \<and> FSCache w' = FSCache w \<and>
    content hv (host_state w') = (content hv (host_state w))
      (i := put_all (chosen (ro_persist r) writes) (content hv (host_state w) i)) \<and>
    fmlookup (crash_faults_after_map w') ''write'' =
      Some (if int (length writes) = max 2 (last (ro_persist r)) then l @ [(any_around path, ''none'')] else l)"
proof -
  have d: "due r" using assms(7) by (simp add: due_def)
  have "int (length writes) \<le> last_write r" using assms(15) by (simp add: last_write_def)
  then obtain w' where "seq_writes ev path writes w = Inr w'" "seq_state hv path i r w writes w'"
    using seq_writes_ok [OF assms(1-6,8-13)] by blast
  then show ?thesis
    using assms(9,14,15) d by (intro exI [of _ w']) (auto simp: seq_state_def last_write_def)
qed

definition demo_seq :: reorder_f where
  "demo_seq = new_ReorderF ''write'' [1, 3] 1"

theorem torn_seq_persists_chosen_writes_witness:
  "\<exists>w w'. seq_writes demo_env ''/f'' [(0, [1, 2]), (0, [5]), (1, [7, 8])] w = Inr w' \<and>
     content mem_view (host_state w) 7 = [9, 9] \<and> content mem_view (host_state w') 7 = [1, 7, 8]"
proof -
  define w where "w = new_lazyfs (undefined :: engine cache) (fmupd ''/f'' [ReorderF demo_seq] fmempty) demo_disk"
  have p: "path_ino mem_view (host_state w) ''/f'' = Some 7"
    by (simp add: w_def mem_view_def demo_disk_def)
  have k: "content mem_view (host_state w) 7 = [9, 9]"
    by (simp add: w_def mem_view_def demo_disk_def mh_content_def)
  have vs: "fmlookup (ffaults w) ''/f'' = Some [ReorderF demo_seq]" "pending_write w = None"
    "fmlookup (crash_faults_after_map w) ''write'' = Some []"
    by (simp_all add: w_def new_lazyfs_def Let_def no_faults_lookup)
  have r: "ro_op demo_seq = ''write''" "ro_persist demo_seq = [1, 3]" "ro_group_counter demo_seq = 0"
    "ro_occurrence demo_seq = 1" "ro_counter demo_seq = 0"
    by (simp_all add: demo_seq_def new_ReorderF_def)
  have rv: "regex_valid demo_env (any_around ''/f'')" by (simp add: demo_env_def start_environment_def)
  have laws: "host_laws (eos demo_env) mem_view" using mem_host_laws by simp
  from torn_seq_persists_chosen_writes [OF laws p r(1) _ _ _ _ rv vs(3,1) r(5) vs(2),
      of "[(0, [1, 2]), (0, [5]), (1, [7, 8])]"]
  obtain w' where "seq_writes demo_env ''/f'' [(0, [1, 2]), (0, [5]), (1, [7, 8])] w = Inr w'"
    "content mem_view (host_state w') 7 = put_all (chosen [1, 3] [(0, [1, 2]), (0, [5]), (1, [7, 8])]) [9, 9]"
    using r k by auto
  moreover have "put_all (chosen [1, 3] [(0, [1, 2]), (0, [5]), (1, [7, 8])]) [9, 9] = [1, 7, 8 :: byte]"
    by (simp add: put_all_def chosen_def file_write_def numeral_eq_Suc)
  ultimately show ?thesis using k by auto
qed

text \<open>
  A torn-seq fault spares every other sequence: while it is not due, no write of the sequence
  reaches the host, however many there are, and no crash is armed.
\<close>

theorem torn_seq_spares_other_sequences:
  assumes "host_laws (eos ev) hv" and "path_ino hv (host_state w) path = Some i"
    and "ro_op r = ''write''" and "sorted_wrt (<) (ro_persist r)" and "\<forall>p \<in> set (ro_persist r). 0 < p"
    and "ro_persist r \<noteq> []" and "ro_group_counter r + 1 \<noteq> ro_occurrence r"
    and "regex_valid ev (any_around path)" and "fmlookup (crash_faults_after_map w) ''write'' = Some l"
    and "fmlookup (ffaults w) path = Some [ReorderF r]" and "ro_counter r = 0" and "pending_write w = None"
    and "\<forall>(offset, buf) \<in> set writes. 0 \<le> offset \<and> length buf < 2147483648"
  shows "\<exists>w'. seq_writes ev path writes w = Inr w' \<and> FSCache w' = FSCache w \<and>
    content hv (host_state w') = content hv (host_state w) \<and> crash_faults_after_map w' = crash_faults_after_map w"
proof -
  have d: "\<not> due r" using assms(7) by (simp add: due_def)
  then obtain w' where "seq_writes ev path writes w = Inr w'" "seq_state hv path i r w writes w'"
    using seq_writes_ok [OF assms(1-6,8-13)] by blast
  then show ?thesis using d by (intro exI [of _ w']) (simp add: seq_state_def)
qed

theorem torn_seq_spares_other_sequences_witness:
  "\<exists>w w'. seq_writes demo_env ''/f'' [(0, [1, 2]), (0, [5]), (1, [7, 8])] w = Inr w' \<and>
     content mem_view (host_state w') 7 = [9, 9]"
proof -
  define r where "r = new_ReorderF ''write'' [1, 3] 2"
  define w where "w = new_lazyfs (undefined :: engine cache) (fmupd ''/f'' [ReorderF r] fmempty) demo_disk"
  have p: "path_ino mem_view (host_state w) ''/f'' = Some 7"
    by (simp add: w_def mem_view_def demo_disk_def)
  have k: "content mem_view (host_state w) 7 = [9, 9]"
    by (simp add: w_def mem_view_def demo_disk_def mh_content_def)
  have vs: "fmlookup (ffaults w) ''/f'' = Some [ReorderF r]" "pending_write w = None"
    "fmlookup (crash_faults_after_map w) ''write'' = Some []"
    by (simp_all add: w_def new_lazyfs_def Let_def no_faults_lookup)
  have r: "ro_op r = ''write''" "ro_persist r = [1, 3]" "ro_group_counter r = 0" "ro_occurrence r = 2" "ro_counter r = 0"
    by (simp_all add: r_def new_ReorderF_def)
  have rv: "regex_valid demo_env (any_around ''/f'')" by (simp add: demo_env_def start_environment_def)
  have laws: "host_laws (eos demo_env) mem_view" using mem_host_laws by simp
  from torn_seq_spares_other_sequences [OF laws p r(1) _ _ _ _ rv vs(3,1) r(5) vs(2),
      of "[(0, [1, 2]), (0, [5]), (1, [7, 8])]"]
  obtain w' where "seq_writes demo_env ''/f'' [(0, [1, 2]), (0, [5]), (1, [7, 8])] w = Inr w'"
    "content mem_view (host_state w') = content mem_view (host_state w)"
    using r by auto
  then show ?thesis using k by (intro exI [of _ w] exI [of _ w']) simp
qed

end
