(* ===== verification/Defect_Theorems.thy ===== *)
theory Defect_Theorems
  imports Command_Theorems
begin

text \<open>
Places where the code does not do what it means to: crash faults on operations with two paths,
  the eviction of dirty pages, and pages of several blocks.
\<close>


section \<open>Crash faults of operations with two paths\<close>

text \<open>
  C39. A crash fault for a rename that names only a source strikes every rename, whatever is
  renamed: the pattern for the source is only asked when it matches the word \<open>none\<close>. The process
  is killed before the host has been touched.
\<close>

theorem rename_crash_ignores_source:
  assumes "eengine ev = custom_cache_engine h c" and "cache_ok c (FSCache w)"
    and "fmlookup (crash_faults_before_map w) ''rename'' = Some [(rgx, ''none'')]"
    and "\<not> regex_match ev ''none'' rgx" and "regex_valid ev (any_around ''none'')"
  shows "lfs_rename ev from to flags w = Inl (SelfKill (host_state w))"
proof -
  have "crash_fault_matches ev ''rename'' from to (rgx, ''none'') = Inr True"
    using assms(4,5) by (simp add: crash_fault_matches_def fs_op_multi_path_def)
  then show ?thesis
    using trigger_kills [OF assms(1,2), of "''before''" "''rename''" "[]" "(rgx, ''none'')" "[]" "from" "to"] assms(3)
    by (simp add: lfs_rename_def)
qed

theorem rename_crash_ignores_source_witness:
  "\<exists>w. \<not> regex_match demo_env ''/a'' (any_around ''/b'') \<and>
     fmlookup (crash_faults_before_map w) ''rename'' = Some [(any_around ''/b'', ''none'')] \<and>
     lfs_rename demo_env ''/a'' ''/c'' 0 w = Inl (SelfKill demo_disk)"
proof -
  obtain e where e: "new_engine default_config = Inr e" "cache_ok default_config (new_cache e)"
    by (rule new_cache_ok [OF single_block_default])
  define w where "w = (new_lazyfs (new_cache e) fmempty demo_disk)
    \<lparr>crash_faults_before_map := fmupd ''rename'' [(any_around ''/b'', ''none'')] fmempty\<rparr>"
  have ev: "eengine demo_env = custom_cache_engine mem_os default_config" "\<not> regex_match demo_env t p"
    "regex_valid demo_env p" for t p
    by (simp_all add: demo_env_def start_environment_def)
  have w: "cache_ok default_config (FSCache w)" "host_state w = demo_disk"
    "fmlookup (crash_faults_before_map w) ''rename'' = Some [(any_around ''/b'', ''none'')]"
    using e(2) by (simp_all add: w_def)
  show ?thesis
    using rename_crash_ignores_source [OF ev(1) w(1,3) ev(2,3), of "''/a''" "''/c''" 0] ev(2) w(2,3)
    by (intro exI [of _ w]) simp
qed

section \<open>Eviction\<close>

text \<open>
  C38. Evicting a dirty page loses its data: the page is written to a file whose name is the
  number of the inode. Unless the working directory happens to have such a file, opening it
  fails, nothing is written, and the page is cleared and handed out all the same.
\<close>

theorem eviction_loses_dirty_page:
  assumes "CACHE_PAGE_SIZE c = IO_BLOCK_SIZE c" and "IO_BLOCK_SIZE c < 2147483648" and "APPLY_LRU_EVICTION c"
    and "free_pages e = []" and "fmlookup (owner_pages_mapping e) owner = None"
    and "lru_main_vector e = xs @ [(node, pid)]"
    and "fmlookup (search_index e) pid = Some (full_page c inode b r bytes True)"
    and "int (length bytes) = IO_BLOCK_SIZE c" and "0 \<le> r" and "r < IO_BLOCK_SIZE c"
    and "os_open h inode O_WRONLY 0 d = (- 1, d)" and "\<And>bs off. os_pwrite h (- 1) bs off d = (- 1, d)"
    and "os_close h (- 1) d = d"
  shows "\<exists>e'. get_next_free_page h c owner e d = Inr ((pid, Some pid), e', d) \<and>
    fmlookup (search_index e') pid = Some ((blank_page c)\<lparr>page_owner_id := inode\<rparr>)"
proof -
  define p where "p = full_page c inode b r bytes True"
  have B: "0 < IO_BLOCK_SIZE c" using assms(9,10) by simp
  have u: "u64 (r + 1) = r + 1" using assms(2,9,10) by (simp add: u64_id)
  have visit: "sync_data_visit h c p (- 1) b (b, r) (d, 0, 0) = Inr (d, r + 1, - 1)"
    using assms(8-10,12) by (simp add: sync_data_visit_def p_def contains_block_def bo_contains_block_def
        full_page_def get_block_offsets_def bo_get_block_offsets_def mem_read_def u)
  have sync: "sync_data h c p d = Inr (False, p, d)"
    using visit assms(9,11,13) by (simp add: sync_data_def p_def full_page_def get_block_readable_offsets_def Let_def)
  have reset: "page_reset c p = (blank_page c)\<lparr>page_owner_id := inode\<rparr>"
    using assms(1) B by (simp add: page_reset_def p_def full_page_def blank_page_def slot_indexes_single bo_reset_def bo_empty_def)
  have dirty: "is_dirty p" by (simp add: p_def full_page_def)
  have "\<exists>e'. evict_page h c e d = Inr ((pid, Some pid), put_page pid (page_reset c p) e', d)"
    using assms(6,7) by (simp add: evict_page_def deref_page_def sync dirty Let_def p_def [symmetric] split: option.splits) blast+
  then obtain e' where "evict_page h c e d = Inr ((pid, Some pid), put_page pid (page_reset c p) e', d)" by blast
  then show ?thesis
    using assms(3-5)
    by (intro exI [of _ "put_page pid (page_reset c p) e'"]) (simp add: get_next_free_page_def put_page_def reset)
qed

definition evicting :: config where
  "evicting = default_config\<lparr>IO_BLOCK_SIZE := 2, CACHE_PAGE_SIZE := 2, CACHE_NR_PAGES := 1, APPLY_LRU_EVICTION := True\<rparr>"

definition full_engine :: engine where
  "full_engine = \<lparr>lru_main_vector = [(0, 0)], lru_fresh = 1, page_order_mapping = fmupd 0 0 fmempty,
     search_index = fmupd 0 (full_page evicting ''7'' 3 1 [5, 6] True) fmempty, free_pages = [],
     owner_pages_mapping = fmempty, owner_ordered_pages_mapping = fmempty, owner_free_pages_mapping = fmempty\<rparr>"

theorem eviction_loses_dirty_page_witness:
  "\<exists>e'. get_next_free_page mem_os evicting ''8'' full_engine demo_disk = Inr ((0, Some 0), e', demo_disk) \<and>
     fmlookup (search_index e') 0 = Some ((blank_page evicting)\<lparr>page_owner_id := ''7''\<rparr>)"
proof (rule eviction_loses_dirty_page [where xs = "[]" and node = 0 and b = 3 and r = 1 and bytes = "[5, 6]"])
  show "os_close mem_os (- 1) demo_disk = demo_disk"
    by (simp add: mem_os_def demo_disk_def fmdrop_fmupd)
qed (simp_all add: evicting_def full_engine_def default_config_def mem_os_def mh_open_def mh_update_def demo_disk_def O_CREAT_def
    O_WRONLY_def)

section \<open>Several blocks per page\<close>

text \<open>
  A page of an owner that has one free slot left and stands at the end of the owner's list of pages
  with free slots.
\<close>

definition last_slot :: "config \<Rightarrow> engine \<Rightarrow> string \<Rightarrow> int \<Rightarrow> page \<Rightarrow> bool" where
  "last_slot c e owner pid p \<longleftrightarrow> 0 \<le> pid \<and> fmlookup (search_index e) pid = Some p \<and> page_owner_id p = owner \<and>
     (\<exists>slot. free_block_indexes p = [slot] \<and> 0 \<le> slot \<and> slot + IO_BLOCK_SIZE c < 2147483648 \<and>
        slot + IO_BLOCK_SIZE c \<le> int (length (pdata p))) \<and>
     (\<exists>vs. fmlookup (owner_free_pages_mapping e) owner = Some (vs @ [pid])) \<and>
     fmlookup (owner_pages_mapping e) owner \<noteq> None \<and> fmlookup (owner_ordered_pages_mapping e) owner \<noteq> None"

definition no_slot :: "engine \<Rightarrow> string \<Rightarrow> int \<Rightarrow> page \<Rightarrow> bool" where
  "no_slot e owner pid p \<longleftrightarrow> 0 \<le> pid \<and> fmlookup (search_index e) pid = Some p \<and> page_owner_id p = owner \<and>
     free_block_indexes p = [] \<and>
     (\<exists>vs. fmlookup (owner_free_pages_mapping e) owner = Some (vs @ [pid])) \<and>
     fmlookup (owner_pages_mapping e) owner \<noteq> None \<and> fmlookup (owner_ordered_pages_mapping e) owner \<noteq> None"

lemma owned_page_found:
  assumes "fmlookup (owner_pages_mapping e) owner \<noteq> None"
    and "fmlookup (owner_free_pages_mapping e) owner = Some (vs @ [pid])" and "fmlookup (search_index e) pid = Some p"
  shows "get_next_free_page h c owner e d = Inr ((pid, Some pid), e, d)"
proof -
  obtain s where "fmlookup (owner_pages_mapping e) owner = Some s" using assms(1) by blast
  then show ?thesis by (simp add: get_next_free_page_def fmat_Some [OF assms(2)] get_page_ptr_def assms(3))
qed

text \<open>Recording a block in a page that belongs to the owner and is full: the lists of pages stay.\<close>

lemma record_in_full_page:
  assumes "fmlookup (search_index e) pid = Some p" "page_owner_id p = owner" "free_block_indexes p = []"
    and "fmlookup (owner_pages_mapping e) owner \<noteq> None" "fmlookup (owner_ordered_pages_mapping e) owner \<noteq> None"
  shows "\<exists>e'. update_owner_pages owner pid b offs e = Inr e' \<and>
    (\<forall>q. fmlookup (search_index e') q = fmlookup (search_index e) q) \<and>
    free_pages e' = free_pages e \<and> owner_free_pages_mapping e' = owner_free_pages_mapping e \<and>
    fmlookup (owner_pages_mapping e') owner \<noteq> None \<and> fmlookup (owner_ordered_pages_mapping e') owner \<noteq> None"
proof -
  obtain s m where sm: "fmlookup (owner_pages_mapping e) owner = Some s" "fmlookup (owner_ordered_pages_mapping e) owner = Some m"
    using assms(4,5) by blast
  define e1 where "e1 = e\<lparr>search_index := fmupd pid p (search_index e)\<rparr>"
  have same: "(if page_owner_id p = ''none'' then change_owner owner p else p) = p"
    using assms(2) by (cases p) (auto simp: change_owner_def)
  have "update_owner_pages owner pid b offs e = own_page owner pid b offs e1"
    using assms(1-3) unfolding update_owner_pages_def Let_def assms(1) option.case same
    by (simp add: put_page_def has_free_space_def e1_def) (metis bnd_Inr bnd_def old.sum.exhaust old.sum.simps(5))
  then show ?thesis
    using sm assms(1) by (auto simp: own_page_def Let_def fmat_def e1_def of_option_def)
qed

text \<open>The next block goes to the last slot of the page, which stays in the list.\<close>

lemma block_takes_last_slot:
  assumes s: "last_slot c e owner pid p" and c: "\<not> APPLY_LRU_EVICTION c" "1 < IO_BLOCK_SIZE c" "IO_BLOCK_SIZE c < 2147483648"
    and new: "\<not> contains_block p b" and r: "request_ok c (pg, bs, len, off)"
  shows "\<exists>e' p'. allocate_new_block h c owner op b (pg, bs, len, off) e d = Inr (pid, e', d) \<and>
    no_slot e' owner pid p' \<and> (\<forall>b'. contains_block p' b' \<longleftrightarrow> b' = b \<or> contains_block p b') \<and>
    (\<forall>q. q \<noteq> pid \<longrightarrow> fmlookup (search_index e') q = fmlookup (search_index e) q) \<and> free_pages e' = free_pages e"
proof -
  obtain slot vs where sl: "free_block_indexes p = [slot]" "0 \<le> slot" "slot + IO_BLOCK_SIZE c < 2147483648"
    "slot + IO_BLOCK_SIZE c \<le> int (length (pdata p))"
    and fr: "fmlookup (owner_free_pages_mapping e) owner = Some (vs @ [pid])"
    and p: "0 \<le> pid" "fmlookup (search_index e) pid = Some p" "page_owner_id p = owner"
    and ow: "fmlookup (owner_pages_mapping e) owner \<noteq> None" "fmlookup (owner_ordered_pages_mapping e) owner \<noteq> None"
    using s by (auto simp: last_slot_def)
  have rq: "0 \<le> off" "0 \<le> len" "off + len \<le> IO_BLOCK_SIZE c" "len \<le> int (length bs)"
    using r by (simp_all add: request_ok_def)
  define offs where "offs = (slot, slot + IO_BLOCK_SIZE c - 1)"
  define p1 where "p1 = p\<lparr>free_block_indexes := [],
      allocated_block_ids := insert_or_update_block_offsets b offs (allocated_block_ids p)\<rparr>"
  have "c_int (slot + IO_BLOCK_SIZE c - 1) = slot + IO_BLOCK_SIZE c - 1" using sl c(2) by (intro c_int_id) simp_all
  then have taken: "get_allocate_free_offset c b p = (offs, p1)"
    by (simp add: get_allocate_free_offset_def sl(1) Let_def offs_def p1_def)
  have in_page: "get_block_offsets p1 b = offs"
    using new by (auto simp: p1_def get_block_offsets_def bo_get_block_offsets_def insert_or_update_block_offsets_def
        contains_block_def bo_contains_block_def fmlookup_fmins)
  obtain bytes m where bytes: "mem_read bs 0 (u64 len) = Inr bytes" and m: "mem_write (pdata p1) (slot + off) bytes = Inr m"
    "length m = length (pdata p)"
  proof -
    have u: "u64 len = len" using rq c(3) by (intro u64_id) simp_all
    have rd: "mem_read bs 0 (u64 len) = Inr (take (nat len) bs)" using rq by (simp add: u mem_read_def)
    have "nat len \<le> length bs" using rq by simp
    then have "int (length (take (nat len) bs)) = len" using rq(2) by simp
    then show thesis using that [OF rd] rq sl by (auto simp: mem_write_def p1_def)
  qed
  define p2 where "p2 = p1\<lparr>is_dirty := True, pdata := m\<rparr>"
  have "u64 (slot + off + len - 1 - (slot + off) + 1) = u64 len" by (simp add: algebra_simps)
  then have stored: "update_block_data c b bs len off p1 = Inr (True, p2)"
    using in_page bytes m(1) rq sl(2) c(2)
    by (simp add: update_block_data_def offs_def rewrite_offset_data_def set_page_as_dirty_def p2_def)
  define p3 where "p3 = (if op = OP_WRITE then set_page_as_dirty True p2 else p2)"
  have p3: "page_owner_id p3 = owner" "free_block_indexes p3 = []"
    "contains_block p3 b' \<longleftrightarrow> b' = b \<or> contains_block p b'" for b'
    using p(3) by (auto simp: p3_def p2_def p1_def set_page_as_dirty_def contains_block_def bo_contains_block_def
        insert_or_update_block_offsets_def fmlookup_fmins split: option.splits)
  obtain e' where e': "update_owner_pages owner pid b offs (put_page pid p3 e) = Inr e'"
    "\<forall>q. fmlookup (search_index e') q = fmlookup (search_index (put_page pid p3 e)) q"
    "free_pages e' = free_pages e" "owner_free_pages_mapping e' = owner_free_pages_mapping e"
    "fmlookup (owner_pages_mapping e') owner \<noteq> None" "fmlookup (owner_ordered_pages_mapping e') owner \<noteq> None"
    using record_in_full_page [of "put_page pid p3 e" pid p3 owner b offs] p3 ow by (auto simp: put_page_def)
  have "allocate_new_block h c owner op b (pg, bs, len, off) e d = Inr (pid, e', d)"
    using p(1,2) taken stored e'(1) c(1)
    by (simp add: allocate_new_block_def owned_page_found [OF ow(1) fr p(2)] deref_page_def p3_def [symmetric] Let_def)
  then show ?thesis
    using e'(2-6) p3 p(1) fr
    by (intro exI [of _ e'] exI [of _ p3]) (simp add: no_slot_def put_page_def)
qed

text \<open>The block after it is given the same page, where there is no place for it.\<close>

lemma block_without_slot:
  assumes s: "no_slot e owner pid p" and c: "\<not> APPLY_LRU_EVICTION c" and new: "\<not> contains_block p b"
  shows "\<exists>e'. allocate_new_block h c owner op b req e d = Inr (pid, e', d) \<and>
    (\<forall>b' q. is_block_cached e' owner q b' \<longleftrightarrow> is_block_cached e owner q b') \<and> free_pages e' = free_pages e"
proof -
  obtain pg bs len off where req: "req = (pg, bs, len, off)" by (cases req)
  obtain vs where fr: "fmlookup (owner_free_pages_mapping e) owner = Some (vs @ [pid])"
    and p: "0 \<le> pid" "fmlookup (search_index e) pid = Some p" "page_owner_id p = owner" "free_block_indexes p = []"
    and ow: "fmlookup (owner_pages_mapping e) owner \<noteq> None" "fmlookup (owner_ordered_pages_mapping e) owner \<noteq> None"
    using s by (auto simp: no_slot_def)
  have none: "get_allocate_free_offset c b p = ((- 1, - 1), p)" by (simp add: get_allocate_free_offset_def p(4))
  have "fmlookup (block_offset_mapping (allocated_block_ids p)) b = None"
    using new unfolding contains_block_def bo_contains_block_def by blast
  then have lost: "update_block_data c b bs len off p = Inr (False, p)"
    by (simp add: update_block_data_def get_block_offsets_def bo_get_block_offsets_def Let_def)
  define p3 where "p3 = (if op = OP_WRITE then set_page_as_dirty True p else p)"
  have p3: "page_owner_id p3 = owner" "free_block_indexes p3 = []" "contains_block p3 = contains_block p"
    using p(3,4) by (simp_all add: p3_def set_page_as_dirty_def contains_block_def fun_eq_iff)
  obtain e' where e': "update_owner_pages owner pid b (- 1, - 1) (put_page pid p3 e) = Inr e'"
    "\<forall>q. fmlookup (search_index e') q = fmlookup (search_index (put_page pid p3 e)) q"
    "free_pages e' = free_pages e"
    using record_in_full_page [of "put_page pid p3 e" pid p3 owner b "(- 1, - 1)"] p3 ow by (auto simp: put_page_def)
  have "allocate_new_block h c owner op b req e d = Inr (pid, e', d)"
    using p(1,2) none lost e'(1) c
    by (simp add: allocate_new_block_def req owned_page_found [OF ow(1) fr p(2)] deref_page_def p3_def [symmetric] Let_def)
  moreover have "is_block_cached e' owner q b' \<longleftrightarrow> is_block_cached e owner q b'" for q b'
    using e'(2) p3 p(2,3) by (cases "q = pid") (simp_all add: is_block_cached_def put_page_def is_page_owner_def)
  ultimately show ?thesis using e'(3) by blast
qed

text \<open>
  C37. With several blocks per page a block is lost as soon as a page is full. When a file has a
  page with one slot left and puts two new blocks, as a write does, the first takes the slot; the
  page stays in the list of the file's pages with free slots, so it is handed out for the second
  block too, which finds no place in it. The put reports this page for both of them, yet the second
  block is in no page afterwards, while not one of the free pages has been taken.
\<close>

theorem full_page_is_reused:
  assumes "last_slot c e owner pid p" and "\<not> APPLY_LRU_EVICTION c"
    and "1 < IO_BLOCK_SIZE c" and "IO_BLOCK_SIZE c < 2147483648" and "b1 < b2"
    and "request_ok c (- 1, bs1, len1, off1)"
    and "\<And>q. \<not> is_block_cached e owner q b1" and "\<And>q. \<not> is_block_cached e owner q b2"
  shows "\<exists>res e'. allocate_blocks h c owner
      (fmupd b1 (- 1, bs1, len1, off1) (fmupd b2 (- 1, bs2, len2, off2) fmempty)) op e d = Inr (res, e', d) \<and>
    fmlookup res b1 = Some pid \<and> fmlookup res b2 = Some pid \<and> 0 \<le> pid \<and>
    is_block_cached e' owner pid b1 \<and> (\<forall>q. \<not> is_block_cached e' owner q b2) \<and> free_pages e' = free_pages e"
proof -
  have p: "0 \<le> pid" "fmlookup (search_index e) pid = Some p" "page_owner_id p = owner"
    using assms(1) by (simp_all add: last_slot_def)
  have new: "\<not> contains_block p b1" "\<not> contains_block p b2"
    using assms(7,8) [of pid] p(2,3) by (simp_all add: is_block_cached_def is_page_owner_def)
  obtain e1 p1 where 1: "allocate_new_block h c owner op b1 (- 1, bs1, len1, off1) e d = Inr (pid, e1, d)"
    "no_slot e1 owner pid p1" "\<forall>b'. contains_block p1 b' \<longleftrightarrow> b' = b1 \<or> contains_block p b'"
    "\<forall>q. q \<noteq> pid \<longrightarrow> fmlookup (search_index e1) q = fmlookup (search_index e) q" "free_pages e1 = free_pages e"
    using block_takes_last_slot [OF assms(1-4) new(1) assms(6), where h = h and op = op and d = d]
    by (elim exE conjE) (rule that)
  have other: "\<not> contains_block p1 b2" using 1(3) new(2) assms(5) by simp
  obtain e' where 2: "allocate_new_block h c owner op b2 (- 1, bs2, len2, off2) e1 d = Inr (pid, e', d)"
    "\<forall>b' q. is_block_cached e' owner q b' \<longleftrightarrow> is_block_cached e1 owner q b'" "free_pages e' = free_pages e1"
    using block_without_slot [OF 1(2) assms(2) other, where h = h and op = op and d = d and req = "(- 1, bs2, len2, off2)"]
    by (elim exE conjE) (rule that)
  have at: "is_block_cached e1 owner q b' \<longleftrightarrow> (if q = pid then b' = b1 \<or> contains_block p b' else is_block_cached e owner q b')"
    for q b'
  proof (cases "q = pid")
    case True
    have "fmlookup (search_index e1) pid = Some p1" "page_owner_id p1 = owner" using 1(2) by (simp_all add: no_slot_def)
    then show ?thesis using True 1(3) by (simp add: is_block_cached_def is_page_owner_def)
  next
    case False
    then show ?thesis using 1(4) by (simp add: is_block_cached_def)
  qed
  have keys: "fmkeys (fmupd b1 (- 1, bs1, len1, off1) (fmupd b2 (- 1, bs2, len2, off2) fmempty)) = [b1, b2]"
    using assms(5) by (simp add: fmkeys_def sorted_list_of_fset_def)
  have "allocate_blocks h c owner (fmupd b1 (- 1, bs1, len1, off1) (fmupd b2 (- 1, bs2, len2, off2) fmempty)) op e d =
      Inr (fmupd b2 pid (fmupd b1 pid fmempty), e', d)"
    unfolding allocate_blocks_def keys using 1(1) 2(1) assms(5)
    by (simp add: allocate_block_def fmat_def fmins_def of_option_def)
  then show ?thesis
    using p(1) 1(5) 2(2,3) at new(2) assms(5,8) by (intro exI [of _ "fmupd b2 pid (fmupd b1 pid fmempty)"] exI [of _ e']) auto
qed

definition two_per_page :: config where
  "two_per_page = default_config\<lparr>IO_BLOCK_SIZE := 2, CACHE_PAGE_SIZE := 4, CACHE_NR_PAGES := 2\<rparr>"

text \<open>The cache of a file whose block 0 is in the first of two pages.\<close>

definition half_page :: page where
  "half_page = \<lparr>is_dirty = True, page_owner_id = ''7'', free_block_indexes = [0], pdata = [0, 0, 1, 2],
     allocated_block_ids = \<lparr>block_offset_mapping = fmupd 0 (2, 3) fmempty, block_readable_to = fmupd 0 1 fmempty\<rparr>\<rparr>"

definition half_full :: engine where
  "half_full = \<lparr>lru_main_vector = [], lru_fresh = 0, page_order_mapping = fmempty,
     search_index = fmupd 1 half_page fmempty, free_pages = [0],
     owner_pages_mapping = fmupd ''7'' {|1|} fmempty,
     owner_ordered_pages_mapping = fmupd ''7'' (fmupd 0
       \<lparr>ref_page_id = 1, ref_page = 1, ref_offsets = (2, 3), ref_synced = False\<rparr> fmempty) fmempty,
     owner_free_pages_mapping = fmupd ''7'' [1] fmempty\<rparr>"

theorem full_page_is_reused_witness:
  "\<exists>res e'. allocate_blocks mem_os two_per_page ''7''
      (fmupd 1 (- 1, [1, 2], 2, 0) (fmupd 2 (- 1, [1, 2], 2, 0) fmempty)) OP_WRITE half_full demo_disk =
      Inr (res, e', demo_disk) \<and>
    fmlookup res 2 = Some 1 \<and> (\<forall>q. \<not> is_block_cached e' ''7'' q 2) \<and> free_pages e' = [0]"
proof -
  have "last_slot two_per_page half_full ''7'' 1 half_page"
    by (simp add: last_slot_def half_full_def half_page_def two_per_page_def)
  moreover have "\<not> is_block_cached half_full ''7'' q b" if "b \<noteq> 0" for q b
    using that by (simp add: is_block_cached_def half_full_def half_page_def contains_block_def bo_contains_block_def)
  moreover have "\<not> APPLY_LRU_EVICTION two_per_page" "1 < IO_BLOCK_SIZE two_per_page"
    "IO_BLOCK_SIZE two_per_page < 2147483648" "request_ok two_per_page (- 1, [1, 2], 2, 0)"
    by (simp_all add: two_per_page_def default_config_def request_ok_def)
  ultimately have "\<exists>res e'. allocate_blocks mem_os two_per_page ''7''
      (fmupd 1 (- 1, [1, 2], 2, 0) (fmupd 2 (- 1, [1, 2], 2, 0) fmempty)) OP_WRITE half_full demo_disk =
      Inr (res, e', demo_disk) \<and> fmlookup res 1 = Some 1 \<and> fmlookup res 2 = Some 1 \<and> 0 \<le> (1 :: int) \<and>
    is_block_cached e' ''7'' 1 1 \<and> (\<forall>q. \<not> is_block_cached e' ''7'' q 2) \<and> free_pages e' = free_pages half_full"
    by (intro full_page_is_reused [where p = half_page]) simp_all
  then show ?thesis by (auto simp: half_full_def)
qed

end
