(* ===== verification/Mount_Theorems.thy ===== *)
theory Mount_Theorems
  imports Command_Theorems
begin

text \<open>
From start-up to a mounted file system, and from one mount across a crash to the next.
\<close>


section \<open>From the command line to a mounted file system\<close>

text \<open>A start with the demonstration disk and configuration file.\<close>

lemma demo_system_start:
  obtains e fs where "start mem_os (\<lambda>_ _. False) (\<lambda>_. True) 0 (\<lambda>_. Some demo_document) [''lazyfs'', ''/mnt''] demo_disk =
    Inr (Some ([''lazyfs'', ''/mnt''], demo_env, new_lazyfs (new_cache e) fs demo_disk))"
proof -
  obtain e where e: "new_engine default_config = Inr e"
    using new_cache_ok [OF single_block_default] by blast
  obtain fs where fs: "load_config 0 demo_document default_config = Inr (default_config, fs)"
    by (simp add: load_config_def demo_document_def toml_find_def of_option_def load_fifo_paths_def
        load_cache_settings_def load_injections_def load_injection_def demo_injection_def load_torn_op_def
        split_write_validate_def register_fault_def faults_of_def find_int_def find_ints_def c_int_id)
  have args: "parse_args [''lazyfs'', ''/mnt''] [] None = Inr ([''lazyfs'', ''/mnt''], None)"
    by code_simp
  have fifos: "make_fifos mem_os default_config demo_disk = (True, demo_disk)"
    by (simp add: make_fifos_def make_fifo_def mem_os_def)
  have "start mem_os (\<lambda>_ _. False) (\<lambda>_. True) 0 (\<lambda>_. Some demo_document) [''lazyfs'', ''/mnt''] demo_disk =
      Inr (Some ([''lazyfs'', ''/mnt''], demo_env, new_lazyfs (new_cache e) fs demo_disk))"
    by (simp add: start_def boot_def args fs e of_option_def demo_env_def fifos del: parse_args.simps)
  then show thesis by (rule that)
qed

text \<open>
  C17. Start-up. Whatever the command line and the configuration file, a start that succeeds with a
  geometry of one block per page and no eviction hands FUSE a file system in order: the invariant
  of the mounted file system holds, everyone sees exactly what the host has, and no fault concerns
  a path for which none is configured.
\<close>

theorem start_mounts:
  assumes "start h rmatch rvalid uninit toml argv d = Inr (Some (new_argv, ev, w))"
    and "single_block (FSConfig ev)" and "host_laws h hv"
  shows "fs_inv ev hv w \<and> host_state w = snd (make_fifos h (FSConfig ev) d) \<and>
    seen (FSConfig ev) hv (FSCache w) (host_state w) = content hv (host_state w) \<and>
    (\<forall>path. fmlookup (ffaults w) path = None \<longrightarrow> calm ev path w)"
proof -
  obtain new_argv' c fs where "boot h rmatch rvalid uninit new_argv' c fs d = Inr (Some (new_argv, ev, w))"
    using assms(1) by (auto simp: start_def bnd_eq_Inr)
  then obtain e d' where s: "new_engine c = Inr e" "ev = start_environment h rmatch rvalid uninit c"
    "w = new_lazyfs (new_cache e) fs d'" "make_fifos h c d = (True, d')"
    by (rule boot_running)
  then have ev: "FSConfig ev = c" "eos ev = h" "eengine ev = custom_cache_engine h c"
    by (simp_all add: start_environment_def)
  have w: "FSCache w = new_cache e" "host_state w = d'" "shared_locks w = 0" "ffaults w = fs"
    by (simp_all add: s(3) new_lazyfs_def Let_def)
  note m = mount_anew [OF assms(2) [unfolded ev(1)] s(1), of hv d']
  have "fs_inv ev hv w" using m assms(2,3) by (simp add: fs_inv_def mounted_def ev w)
  moreover have "calm ev path w" if "fmlookup (ffaults w) path = None" for path
    unfolding s(3) by (rule calm_new) (use that w(4) in simp)
  ultimately show ?thesis using m s(4) by (simp add: ev w)
qed

theorem start_mounts_witness:
  "\<exists>w ev. start mem_os (\<lambda>_ _. False) (\<lambda>_. True) 0 (\<lambda>_. Some demo_document) [''lazyfs'', ''/mnt''] demo_disk =
       Inr (Some ([''lazyfs'', ''/mnt''], ev, w)) \<and> fs_inv ev mem_view w"
proof -
  obtain e fs where run: "start mem_os (\<lambda>_ _. False) (\<lambda>_. True) 0 (\<lambda>_. Some demo_document) [''lazyfs'', ''/mnt''] demo_disk =
      Inr (Some ([''lazyfs'', ''/mnt''], demo_env, new_lazyfs (new_cache e) fs demo_disk))"
    by (rule demo_system_start)
  have "single_block (FSConfig demo_env)" using single_block_default by simp
  from start_mounts [OF run this mem_host_laws] run show ?thesis by blast
qed

section \<open>Across a crash\<close>

text \<open>
  C7. What is written and synced comes back after a crash: write bytes to an open file, fsync it,
  let the process die, mount the file system again on the same host, open the file and read at
  the same place. The read returns exactly the bytes written, whatever the cache held before.
\<close>

theorem synced_write_survives_crash:
  assumes "serving ev hv path f i w" and "request_fits (FSConfig ev) offset buf"
    and "lfs_write ev path buf (int (length buf)) offset (Some f) w = Inr (r1, w1)"
    and "lfs_fsync ev path isdatasync (Some f) w1 = Inr (r2, w2)"
    and "new_engine (FSConfig ev) = Inr e" and "content hv d = content hv (host_state w2)"
    and "open_at hv path f2 i d" and "fmlookup fs path = None" and "length out = length buf"
  shows "\<exists>w3. lfs_read ev path out (int (length out)) offset (Some f2) (new_lazyfs (new_cache e) fs d) =
    Inr ((int (length buf), buf), w3)"
proof -
  define c where "c = FSConfig ev"
  note S = servingD [OF assms(1)]
  have sb: "single_block c" using S(1) by (simp add: mounted_def c_def)
  have B: "0 < IO_BLOCK_SIZE c" using single_blockD(3) [OF sb] .
  have fits: "buf \<noteq> []" "length buf < 2147483648" "0 \<le> offset"
    "offset + int (length buf) \<le> 2147483648 * IO_BLOCK_SIZE c"
    using assms(2) by (simp_all add: request_fits_def c_def)
  obtain C1 d1 where 1: "w1 = w\<lparr>FSCache := C1, host_state := d1\<rparr>" "files_ok c hv C1 d1"
    "seen c hv C1 d1 i = file_write (seen c hv (FSCache w) (host_state w) i) offset buf"
    "path_ino hv d1 path = Some i"
    using lfs_write_ok [OF S(1) refl S(4,3,5,6) _ S(8) fits [unfolded c_def]] S(5,7) assms(3)
    unfolding written_def c_def [symmetric] by auto
  have 2: "content hv (host_state w2) i = seen c hv C1 d1 i"
    using lfs_fsync_ok [OF S(1) refl, of path w1 i isdatasync "Some f"] S(4) 1 assms(4)
    unfolding synced_def c_def [symmetric] by auto
  define w3 where "w3 = new_lazyfs (new_cache e) fs d"
  have w3: "FSCache w3 = new_cache e" "host_state w3 = d" "calm ev path w3"
    using calm_new [OF assms(8)] by (simp_all add: w3_def)
  note m = mount_anew [OF sb assms(5) [folded c_def], of hv d]
  define V where "V = file_write (seen c hv (FSCache w) (host_state w) i) offset buf"
  have V: "seen c hv (new_cache e) d i = V" using m(2) assms(6) 1(3) 2 by (simp add: V_def)
  have len: "nat offset + length buf \<le> length V" using fits(1) by (simp add: V_def file_write_length)
  have bytes: "take (length out) (drop (nat offset) V) = buf"
    using fits(1) by (simp add: V_def file_write_def assms(9))
  have size: "file_size hv (new_cache e) d i = int (length V)" using file_size_seen [OF m(1), of i] V by simp
  have "(offset + int (length buf) - 1) div IO_BLOCK_SIZE c \<le> (int (length V) - 1) div IO_BLOCK_SIZE c"
    using len fits(3) B by (intro zdiv_mono1) linarith+
  then have room: "room_to_clear (IO_BLOCK_SIZE c) (file_size hv (FSCache w3) (host_state w3) i) offset (int (length out))"
    by (simp add: room_to_clear_def size w3 assms(9))
  have o: "path_ino hv (host_state w3) path = Some i" "fd_ino hv (host_state w3) (fh f2) = Some i" "0 < fh f2"
    using assms(7) by (simp_all add: open_at_def w3)
  have out: "out \<noteq> []" "length out < 2147483648" "offset + int (length out) \<le> 2147483648 * IO_BLOCK_SIZE c"
    using fits assms(9) by auto
  have ok3: "files_ok c hv (FSCache w3) (host_state w3)" using m(1) by (simp add: w3)
  obtain out' C' where "lfs_read ev path out (int (length out)) offset (Some f2) w3 =
      Inr ((int (length buf), out'), w3\<lparr>FSCache := C'\<rparr>)" "length out' = length out" "take (length buf) out' = buf"
    using lfs_read_ok [OF S(1) c_def w3(3) ok3 o out(1,2) fits(3) out(3) room] bytes V
    unfolding w3(1,2) by auto
  then show ?thesis using assms(9) by (simp add: w3_def)
qed

theorem synced_write_survives_crash_witness:
  "\<exists>e w1 w2 w3. lfs_write demo_env ''/f'' [5, 6] 2 1 (Some demo_fd) (new_lazyfs (new_cache e) fmempty demo_disk) =
       Inr (2, w1) \<and>
     lfs_fsync demo_env ''/f'' False (Some demo_fd) w1 = Inr (0, w2) \<and>
     lfs_read demo_env ''/f'' [0, 0] 2 1 (Some demo_fd) (new_lazyfs (new_cache e) fmempty (host_state w2)) =
       Inr ((2, [5, 6]), w3)"
proof -
  obtain e where e: "new_engine default_config = Inr e"
    "serving demo_env mem_view ''/f'' demo_fd 7 (new_lazyfs (new_cache e) fmempty demo_disk)"
    by (rule demo_serving)
  note S = servingD [OF e(2)]
  have fits: "request_fits (FSConfig demo_env) 1 [5, 6]" by simp
  have b: "[5, 6 :: byte] \<noteq> []" "length [5, 6 :: byte] < 2147483648" "(0::int) \<le> 1"
    "1 + int (length [5, 6 :: byte]) \<le> 2147483648 * IO_BLOCK_SIZE (FSConfig demo_env)"
    by simp_all
  obtain C1 d1 where 1: "lfs_write demo_env ''/f'' [5, 6] 2 1 (Some demo_fd) (new_lazyfs (new_cache e) fmempty demo_disk) =
      Inr (2, (new_lazyfs (new_cache e) fmempty demo_disk)\<lparr>FSCache := C1, host_state := d1\<rparr>)"
    "files_ok (FSConfig demo_env) mem_view C1 d1" "path_ino mem_view d1 = path_ino mem_view demo_disk"
    "fd_ino mem_view d1 = fd_ino mem_view demo_disk"
    using lfs_write_ok [OF S(1) refl S(4,3,5,6) _ S(8) b] S(7) unfolding written_def by auto
  define w1 where "w1 = (new_lazyfs (new_cache e) fmempty demo_disk)\<lparr>FSCache := C1, host_state := d1\<rparr>"
  have w1: "FSCache w1 = C1" "host_state w1 = d1" "calm demo_env ''/f'' w1" using S(4) by (simp_all add: w1_def)
  have p1: "path_ino mem_view (host_state w1) ''/f'' = Some 7" using S(5) 1(3) by (simp add: w1)
  obtain w2 where 2: "lfs_fsync demo_env ''/f'' False (Some demo_fd) w1 = Inr (0, w2)"
    "path_ino mem_view (host_state w2) = path_ino mem_view d1" "fd_ino mem_view (host_state w2) = fd_ino mem_view d1"
    using lfs_fsync_ok [OF S(1) refl w1(3) _ p1, of False "Some demo_fd"] 1(2) unfolding synced_def w1 by auto
  have o: "open_at mem_view ''/f'' demo_fd 7 (host_state w2)"
    using S(10) 1(3,4) 2(2,3) by (simp add: open_at_def)
  have wr: "lfs_write demo_env ''/f'' [5, 6] (int (length [5, 6 :: byte])) 1 (Some demo_fd)
      (new_lazyfs (new_cache e) fmempty demo_disk) = Inr (2, w1)"
    using 1(1) by (simp add: w1_def)
  have ne: "new_engine (FSConfig demo_env) = Inr e" using e(1) by simp
  from synced_write_survives_crash [OF e(2) fits wr 2(1) ne refl o, of fmempty "[0, 0]"] wr 2(1)
  show ?thesis by auto
qed

end
