(* ===== verification/System_Theorems.thy ===== *)
theory System_Theorems
  imports Dispatch Mount_Theorems
begin

text \<open>
  The system as a whole: what every request and every command leaves alone, proved for the table of
  operations from the parts of the handlers up, and the invariant that holds after any sequence of
  requests and commands since the start.
\<close>


section \<open>What an operation leaves alone\<close>

text \<open>A fault without its counters.\<close>

fun uncounted :: "fault \<Rightarrow> fault" where
  "uncounted (SplitWriteF f) = SplitWriteF (f\<lparr>sw_counter := 0\<rparr>)"
| "uncounted (ReorderF r) = ReorderF (r\<lparr>ro_counter := 0, ro_group_counter := 0\<rparr>)"
| "uncounted (ClearF c) = ClearF (c\<lparr>cl_counter := 0\<rparr>)"

record outline =
  ol_locks :: nat
  ol_faults :: faults
  ol_before :: "string fset"
  ol_after :: "string fset"

definition outline :: "('e, 'd) world \<Rightarrow> outline" where
  "outline w =
     \<lparr>ol_locks = shared_locks w, ol_faults = fmmap (map uncounted) (ffaults w),
      ol_before = fmdom (crash_faults_before_map w), ol_after = fmdom (crash_faults_after_map w)\<rparr>"

text \<open>
  The outcomes that leave a world with the outline \<open>s\<close>, for operations that return a value, for
  the steps of loops over a local state, and for the steps of loops over the world alone.
\<close>

definition keeps :: "outline \<Rightarrow> ('e, 'd, 'a) outcome \<Rightarrow> bool" where
  "keeps s m \<longleftrightarrow> (\<forall>x w. m = Inr (x, w) \<longrightarrow> outline w = s)"

definition keeps_step :: "outline \<Rightarrow> 'd stop + (bool \<times> 'l \<times> ('e, 'd) world) \<Rightarrow> bool" where
  "keeps_step s m \<longleftrightarrow> (\<forall>b l w. m = Inr (b, l, w) \<longrightarrow> outline w = s)"

definition keeps_world :: "outline \<Rightarrow> 'd stop + ('e, 'd) world \<Rightarrow> bool" where
  "keeps_world s m \<longleftrightarrow> (\<forall>w. m = Inr w \<longrightarrow> outline w = s)"

named_theorems keeping

lemma keeps_Inl [simp]:
  "keeps s (Inl e)" "keeps_step s (Inl e)" "keeps_world s (Inl e)"
  by (simp_all add: keeps_def keeps_step_def keeps_world_def)

lemma keeps_Inr [simp]:
  "keeps s (Inr (x, w)) \<longleftrightarrow> outline w = s"
  "keeps_step s (Inr (b, l, w)) \<longleftrightarrow> outline w = s"
  "keeps_world s (Inr w) \<longleftrightarrow> outline w = s"
  by (simp_all add: keeps_def keeps_step_def keeps_world_def)

lemma keeps_bnd [keeping]:
  assumes "keeps s m" and "\<And>x w. outline w = s \<Longrightarrow> keeps s (f (x, w))"
  shows "keeps s (bnd m f)"
  using assms by (cases m) (auto simp: keeps_def)

lemma keeps_bnd_world [keeping]:
  assumes "keeps_world s m" and "\<And>w. outline w = s \<Longrightarrow> keeps s (f w)"
  shows "keeps s (bnd m f)"
  using assms by (cases m) (auto simp: keeps_world_def)

lemma keeps_lift [keeping]: "(\<And>x. m = Inr x \<Longrightarrow> keeps s (f x)) \<Longrightarrow> keeps s (bnd (lift m) f)"
  by (cases m) auto

lemma keeps_value: "(\<And>x. keeps s (f x)) \<Longrightarrow> keeps s (bnd m f)"
  by (cases m) auto

lemma step_bnd [keeping]:
  assumes "keeps s m" and "\<And>x w. outline w = s \<Longrightarrow> keeps_step s (f (x, w))"
  shows "keeps_step s (bnd m f)"
  using assms by (cases m) (auto simp: keeps_def)

lemma step_lift [keeping]: "(\<And>x. m = Inr x \<Longrightarrow> keeps_step s (f x)) \<Longrightarrow> keeps_step s (bnd (lift m) f)"
  by (cases m) auto

lemma world_bnd [keeping]:
  assumes "keeps s m" and "\<And>x w. outline w = s \<Longrightarrow> keeps_world s (f (x, w))"
  shows "keeps_world s (bnd m f)"
  using assms by (cases m) (auto simp: keeps_def)

lemma world_lift [keeping]: "(\<And>x. m = Inr x \<Longrightarrow> keeps_world s (f x)) \<Longrightarrow> keeps_world s (bnd (lift m) f)"
  by (cases m) auto

lemma keeps_foldE [keeping]:
  assumes "outline w = s" and "\<And>x w. x \<in> set xs \<Longrightarrow> outline w = s \<Longrightarrow> keeps_world s (f x w)"
  shows "keeps_world s (foldE f xs w)"
  using assms
proof (induction xs arbitrary: w)
  case (Cons x xs)
  have step: "keeps_world s (f x w)" by (rule Cons.prems(2)) (simp_all add: Cons.prems(1))
  show ?case
  proof (cases "f x w")
    case (Inr w')
    have "keeps_world s (foldE f xs w')"
      by (rule Cons.IH) (use step Inr in simp, rule Cons.prems(2), simp_all)
    then show ?thesis using Inr by simp
  qed simp
qed simp

lemma keeps_loopE [keeping]:
  assumes "outline w = s" and "\<And>x l w. x \<in> set xs \<Longrightarrow> outline w = s \<Longrightarrow> keeps_step s (f x (l, w))"
  shows "keeps s (loopE f xs (l, w))"
  using assms
proof (induction xs arbitrary: l w)
  case (Cons x xs)
  show ?case
  proof (cases "f x (l, w)")
    case (Inr r)
    obtain b l' w' where r: "r = (b, l', w')" by (cases r) auto
    have "keeps_step s (f x (l, w))" by (rule Cons.prems(2)) (simp_all add: Cons.prems(1))
    then have w': "outline w' = s" using r Inr by simp
    have "keeps s (loopE f xs (l', w'))" by (rule Cons.IH [OF w']) (rule Cons.prems(2), simp_all)
    then show ?thesis using w' r Inr by simp
  qed simp
qed simp

section \<open>The parts of the handlers\<close>

lemma outline_updates [simp]:
  "outline (w\<lparr>FSCache := C\<rparr>) = outline w"
  "outline (w\<lparr>host_state := d\<rparr>) = outline w"
  "outline (w\<lparr>pending_write := p\<rparr>) = outline w"
  "outline (w\<lparr>injecting_fault := l\<rparr>) = outline w"
  "outline (w\<lparr>shared_locks := n\<rparr>) = outline w\<lparr>ol_locks := n\<rparr>"
  by (simp_all add: outline_def)

lemma outline_syscall [simp]: "outline (snd (syscall f w)) = outline w"
  by (simp add: syscall_def split_def Let_def)

lemma keeps_syscall [simp]: "keeps s (Inr (syscall f w)) \<longleftrightarrow> outline w = s"
  using outline_syscall [of f w] by (cases "syscall f w") simp

lemma on_cache_keeps [keeping]: "outline w = s \<Longrightarrow> keeps s (on_cache f w)"
  by (auto simp: on_cache_def intro!: keeping)

lemma on_cache_host_keeps [keeping]: "outline w = s \<Longrightarrow> keeps s (on_cache_host f w)"
  by (auto simp: on_cache_host_def intro!: keeping)

lemma shared_lock_keeps [keeping]:
  assumes "outline w = s"
    and "\<And>w. outline w = s\<lparr>ol_locks := Suc (ol_locks s)\<rparr> \<Longrightarrow> keeps (s\<lparr>ol_locks := Suc (ol_locks s)\<rparr>) (body w)"
  shows "keeps s (with_shared_lock body w)"
proof -
  have "shared_locks w = ol_locks s" using assms(1) by (auto simp: outline_def)
  then have run: "keeps (s\<lparr>ol_locks := Suc (ol_locks s)\<rparr>) (body (w\<lparr>shared_locks := Suc (shared_locks w)\<rparr>))"
    using assms by simp
  have free: "shared_locks w' = Suc (ol_locks s)" if "outline w' = s\<lparr>ol_locks := Suc (ol_locks s)\<rparr>"
    for w' :: "('a, 'b) world"
    using arg_cong [OF that, of ol_locks] by (simp add: outline_def)
  show ?thesis
  proof (cases "body (w\<lparr>shared_locks := Suc (shared_locks w)\<rparr>)")
    case (Inr r)
    then show ?thesis using run free [of "snd r"] by (cases r) (simp add: with_shared_lock_def)
  qed (simp add: with_shared_lock_def)
qed

lemma unique_lock_keeps [keeping]:
  "keeps s (body w) \<Longrightarrow> keeps s (with_unique_lock body w)"
  by (auto simp: with_unique_lock_def intro!: keeping)

lemma command_fault_clear_cache_keeps [keeping]:
  "outline w = s \<Longrightarrow> keeps s (command_fault_clear_cache ev w)"
  by (auto simp: command_fault_clear_cache_def intro!: keeping)

lemma command_checkpoint_keeps [keeping]: "outline w = s \<Longrightarrow> keeps s (command_checkpoint ev w)"
  by (auto simp: command_checkpoint_def intro!: keeping)

lemma command_display_cache_usage_keeps [keeping]:
  "outline w = s \<Longrightarrow> keeps s (command_display_cache_usage ev w)"
  by (auto simp: command_display_cache_usage_def intro!: keeping)

text \<open>Replacing a fault by one that differs in its counters only.\<close>

lemma outline_faults: "outline w = s \<Longrightarrow> fmlookup (ol_faults s) path = map_option (map uncounted) (fmlookup (ffaults w) path)"
  by (auto simp: outline_def)

lemma set_fault_outline:
  assumes "outline w = s" and "fmlookup (ol_faults s) path = Some l" and "i < length l"
    and "l ! i = uncounted f"
  shows "outline (set_fault path i f w) = s"
proof -
  obtain v where v: "fmlookup (ffaults w) path = Some v" "l = map uncounted v"
    using assms(2) outline_faults [OF assms(1), of path] by auto
  then have "map uncounted (v[i := f]) = l"
    using assms(3,4) by (metis list_update_id map_update nth_map length_map)
  then have "fmmap (map uncounted) (fmupd path (v[i := f]) (ffaults w)) = fmmap (map uncounted) (ffaults w)"
    using v by (intro fmap_ext) auto
  then show ?thesis using assms(1) v by (simp add: set_fault_def outline_def)
qed

lemma set_enumerated_fault:
  assumes "outline w = s" and "fmlookup (ffaults w0) path = Some v" and "outline w0 = s"
    and "(i, g) \<in> set (List.enumerate 0 v)" and "uncounted f = uncounted g"
  shows "outline (set_fault path i f w) = s"
  using assms(4,5) outline_faults [OF assms(3), of path] assms(2)
  by (intro set_fault_outline [OF assms(1)]) (auto simp: in_set_enumerate_eq)


section \<open>Triggers and faults of writes\<close>

lemma add_crash_fault_keeps [keeping]:
  assumes "outline w = s"
  shows "keeps s (add_crash_fault ev timing op from to w)"
proof -
  have dom: "finsert op (fmdom m) = fmdom m" if "fmat m op = Inr l" for m :: crash_faults and l
    using that by (auto intro: fmdomI)
  show ?thesis
    using assms by (auto simp: add_crash_fault_def Let_def outline_def dom intro!: keeping)
qed

lemma trigger_crash_fault_keeps [keeping]:
  "outline w = s \<Longrightarrow> keeps s (trigger_crash_fault ev op timing from to w)"
  unfolding trigger_crash_fault_def
  by (intro keeping) (auto simp: command_unsynced_data_report_def bnd_def split: sum.splits)

lemma clear_fault_step_keeps:
  assumes "outline w = s" and "fmlookup (ffaults w0) path = Some v" and "outline w0 = s"
    and "x \<in> set (List.enumerate 0 v)"
  shows "keeps_world s (clear_fault_step ev op timing path to x w)"
proof (cases x)
  case (Pair i f)
  note set_fault = set_enumerated_fault [OF assms(1-3) assms(4) [unfolded Pair]]
  show ?thesis
  proof (cases f)
    case (ClearF c)
    show ?thesis
      unfolding Pair ClearF clear_fault_step_def
      using assms(1) set_fault ClearF
      by (auto simp: Let_def command_unsynced_data_report_def bnd_assoc intro!: keeping)
  qed (use assms(1) Pair in \<open>simp_all add: clear_fault_step_def\<close>)
qed

lemma trigger_configured_clear_fault_keeps [keeping]:
  assumes "outline w = s"
  shows "keeps s (trigger_configured_clear_fault ev op timing from to w)"
  unfolding trigger_configured_clear_fault_def
  using assms by (auto split: option.split intro!: keeping clear_fault_step_keeps)

lemma triggers_keeps [keeping]: "outline w = s \<Longrightarrow> keeps s (triggers ev op timing from to w)"
  unfolding triggers_def by (auto intro!: keeping)

lemma restart_counter_outline [simp]: "outline (restart_counter path op w) = outline w"
proof (cases "fmlookup (ffaults w) path")
  case (Some v)
  have "map uncounted (map (\<lambda>f. case f of ReorderF r \<Rightarrow> if ro_op r = op then ReorderF (r\<lparr>ro_counter := 0\<rparr>) else f
        | _ \<Rightarrow> f) v) = map uncounted v"
    by (auto split: fault.split)
  then have "fmmap (map uncounted) (ffaults (restart_counter path op w)) = fmmap (map uncounted) (ffaults w)"
    unfolding restart_counter_def using Some by (intro fmap_ext) auto
  then show ?thesis using Some by (simp add: outline_def restart_counter_def)
qed (simp add: restart_counter_def)

lemma check_and_delete_pendingwrite_outline [simp]:
  "outline (snd (check_and_delete_pendingwrite path w)) = outline w"
  by (auto simp: check_and_delete_pendingwrite_def Let_def split: option.split)

lemma get_and_update_reorder_fault_outline [simp]:
  "outline (snd (get_and_update_reorder_fault path op w)) = outline w"
proof (cases "fmlookup (ffaults w) path")
  case (Some v)
  define step where "step = (\<lambda>(i, f) (found, w).
    case f of
      ReorderF r \<Rightarrow>
        if ro_op r = op
        then (Some i, set_fault path i (ReorderF (r\<lparr>ro_counter := ro_counter r + 1\<rparr>)) w)
        else (found :: nat option, w :: ('a, 'b) world)
    | _ \<Rightarrow> (found, w))"
  have one: "outline (snd (step x p)) = outline w" if "outline (snd p) = outline w" "x \<in> set (List.enumerate 0 v)" for x p
    using that set_enumerated_fault [OF that(1) Some refl]
    by (cases x; cases p) (auto simp: step_def split: fault.split)
  have "outline (snd (fold step xs p)) = outline w"
    if "outline (snd p) = outline w" "set xs \<subseteq> set (List.enumerate 0 v)" for xs p
    using that by (induction xs arbitrary: p) (simp_all add: one)
  from this [of "(None, w)" "List.enumerate 0 v"] show ?thesis
    unfolding get_and_update_reorder_fault_def step_def using Some by simp
qed (simp add: get_and_update_reorder_fault_def)

lemma persist_bytes_outline [simp]: "outline (snd (persist_bytes ev path bs offset w)) = outline w"
  by (simp add: persist_bytes_def Let_def split_def)

lemma persist_pending_keeps [keeping]: "outline w = s \<Longrightarrow> keeps s (persist_pending ev path r w)"
  unfolding persist_pending_def
  by (auto simp: Let_def split_def split: option.split intro!: keeping)

lemma reorder_fault_at_outline:
  assumes "reorder_fault_at path i w = Inr r" and "outline w = s" and "uncounted (ReorderF r') = uncounted (ReorderF r)"
    and "outline w' = s"
  shows "outline (set_fault path i (ReorderF r') w') = s"
proof -
  obtain v where "fmlookup (ffaults w) path = Some v" "i < length v" "v ! i = ReorderF r"
    using assms(1) by (auto simp: reorder_fault_at_def split: option.splits if_splits fault.splits)
  then show ?thesis
    using outline_faults [OF assms(2), of path] assms(3)
    by (intro set_fault_outline [OF assms(4), of path "map uncounted v"]) simp_all
qed

lemma persist_write_keeps [keeping]:
  assumes "outline w = s"
  shows "keeps s (persist_write ev path buf sz offset w)"
proof -
  obtain found w1 where g: "get_and_update_reorder_fault path ''write'' w = (found, w1)"
    by (cases "get_and_update_reorder_fault path ''write'' w") auto
  then have w1: "outline w1 = s"
    using get_and_update_reorder_fault_outline [of path "''write''" w] assms by simp
  have "outline (set_fault path i (ReorderF (r\<lparr>ro_group_counter := n\<rparr>)) (w1\<lparr>injecting_fault := l\<rparr>)) = s"
    if "reorder_fault_at path i w1 = Inr r" for i r n l
    by (rule reorder_fault_at_outline [OF that w1]) (simp_all add: w1)
  then show ?thesis
    unfolding persist_write_def g Let_def prod.case
    using w1 by (auto simp: split_def split: option.split intro!: keeping)
qed

lemma first_split_fault_in: "first_split_fault xs = Some (i, f) \<Longrightarrow> (i, SplitWriteF f) \<in> set xs"
  by (induction xs rule: first_split_fault.induct) auto

lemma split_write_keeps [keeping]:
  assumes "outline w = s"
  shows "keeps s (split_write ev path buf sz offset w)"
proof (cases "fmlookup (ffaults w) path")
  case (Some v)
  have fault: "keeps s (split_write_fault ev path i f buf sz offset w)"
    if "(i, SplitWriteF f) \<in> set (List.enumerate 0 v)" for i f
  proof -
    have set: "outline (set_fault path i (SplitWriteF (f\<lparr>sw_counter := n\<rparr>)) (w\<lparr>injecting_fault := l\<rparr>)) = s" for n l
      by (rule set_enumerated_fault [OF _ Some assms that]) (simp_all add: assms)
    show ?thesis
      unfolding split_write_fault_def Let_def split_def
      using set by (auto simp: split_pwrite_def split_def Let_def split: option.split intro!: keeping)
  qed
  show ?thesis
    unfolding split_write_def
    using Some by (auto simp: assms split: option.split dest!: first_split_fault_in intro!: fault)
qed (use assms in \<open>simp add: split_write_def\<close>)

lemma write_faults_keeps [keeping]: "outline w = s \<Longrightarrow> keeps s (write_faults ev path buf sz offset w)"
  unfolding write_faults_def by (auto intro!: keeping)


section \<open>The handlers\<close>

lemma lock_item_keeps [keeping]: "outline w = s \<Longrightarrow> keeps s (fs_lockItemCheckExists inode w)"
  by (simp add: fs_lockItemCheckExists_def on_cache_keeps)

lemma unlock_item_keeps [keeping]: "outline w = s \<Longrightarrow> keeps s (fs_unlockItem inode w)"
  by (simp add: fs_unlockItem_def on_cache_keeps)

lemma put_data_blocks_keeps [keeping]: "outline w = s \<Longrightarrow> keeps s (fs_put_data_blocks ev inode blocks op w)"
  by (simp add: fs_put_data_blocks_def on_cache_host_keeps)

lemma update_metadata_outline [simp]: "outline (fs_update_metadata inode meta values w) = outline w"
  by (simp add: fs_update_metadata_def)

lemma locked_update_keeps [keeping]: "outline w = s \<Longrightarrow> keeps s (fs_locked_update inode meta values w)"
  unfolding fs_locked_update_def by (auto intro!: keeping)

lemma lfs_getattr_keeps [keeping]: "outline w = s \<Longrightarrow> keeps s (lfs_getattr ev path w)"
  unfolding lfs_getattr_def getattr_body_def
  by (rule keeping, assumption) (auto simp: Let_def split_def intro!: keeping)

lemma write_block_keeps: "outline w = s \<Longrightarrow> keeps_step s (write_block ev x blk (l, w))"
  unfolding write_block_def write_cached_block_def write_uncached_block_def store_block_def
  by (auto simp: Let_def split_def intro!: keeping)

lemma write_through_cache_keeps [keeping]:
  "outline w = s \<Longrightarrow> keeps s (write_through_cache ev path inode buf sz offset fd sz0 w)"
  unfolding write_through_cache_def
  by (auto simp: Let_def split_def intro!: keeping write_block_keeps)

lemma file_size_before_keeps [keeping]: "outline w = s \<Longrightarrow> keeps s (file_size_before inode stats w)"
  unfolding file_size_before_def by (auto simp: Let_def intro!: keeping)

lemma write_body_keeps:
  assumes "outline w = s" and "\<And>p b n i w. outline w = s \<Longrightarrow> keeps s (fill p b n i w)"
  shows "keeps s (write_body ev fill path buf sz offset fi w)"
proof -
  have fill: "keeps (outline w) (fill p b n i w')" if "outline w' = outline w" for p b n i w'
    using assms that by simp
  have "keeps (outline w) (write_body ev fill path buf sz offset fi w)"
    unfolding write_body_def by (cases fi) (auto simp: Let_def split_def intro!: keeping fill)
  then show ?thesis using assms(1) by simp
qed

lemma lfs_write_fill_keeps: "outline w = s \<Longrightarrow> keeps s (lfs_write_fill ev path buf sz offset w)"
  unfolding lfs_write_fill_def by (auto intro!: keeping write_body_keeps)

lemma lfs_write_keeps [keeping]: "outline w = s \<Longrightarrow> keeps s (lfs_write ev path buf sz offset fi w)"
  unfolding lfs_write_def by (auto intro!: keeping write_body_keeps lfs_write_fill_keeps)

lemma read_block_keeps: "outline w = s \<Longrightarrow> keeps_step s (read_block ev x blk (l, w))"
  unfolding read_block_def read_cached_block_def
  by (auto simp: Let_def split_def split: option.split intro!: keeping)

lemma read_file_size_keeps [keeping]: "outline w = s \<Longrightarrow> keeps s (read_file_size ev path inode w)"
  unfolding read_file_size_def by (auto simp: Let_def split_def intro!: keeping)

lemma read_body_keeps [keeping]: "outline w = s \<Longrightarrow> keeps s (read_body ev path buf sz offset fi w)"
  unfolding read_body_def
  by (cases fi) (auto simp: Let_def split_def intro!: keeping read_block_keeps)

lemma lfs_read_keeps [keeping]: "outline w = s \<Longrightarrow> keeps s (lfs_read ev path buf sz offset fi w)"
  unfolding lfs_read_def by (auto intro!: keeping)

lemma fsync_body_keeps [keeping]: "outline w = s \<Longrightarrow> keeps s (fsync_body ev path isdatasync fi w)"
  unfolding fsync_body_def by (auto simp: Let_def split_def intro!: keeping)

lemma lfs_fsync_keeps [keeping]: "outline w = s \<Longrightarrow> keeps s (lfs_fsync ev path isdatasync fi w)"
  unfolding lfs_fsync_def by (auto intro!: keeping)

lemma host_truncate_outline [simp]: "outline (snd (host_truncate ev path sz fi w)) = outline w"
  by (simp add: host_truncate_def split: option.split)

lemma truncate_find_keeps [keeping]: "outline w = s \<Longrightarrow> keeps s (truncate_find ev path fi w)"
  unfolding truncate_find_def by (auto simp: Let_def split_def intro!: keeping)

lemma truncate_data_keeps [keeping]: "outline w = s \<Longrightarrow> keeps s (truncate_data ev path sz fi inode w)"
  unfolding truncate_data_def deref_metadata_def by (auto simp: Let_def split_def intro!: keeping)

lemma truncate_body_keeps [keeping]: "outline w = s \<Longrightarrow> keeps s (truncate_body ev path sz fi w)"
  unfolding truncate_body_def deref_metadata_def
  by (auto simp: Let_def split: option.split intro!: keeping)

lemma lfs_truncate_keeps [keeping]: "outline w = s \<Longrightarrow> keeps s (lfs_truncate ev path sz fi w)"
  unfolding lfs_truncate_def by (auto intro!: keeping)

lemma lfs_open_keeps [keeping]: "outline w = s \<Longrightarrow> keeps s (lfs_open ev path fi w)"
  unfolding lfs_open_def open_body_def by (auto simp: Let_def split_def intro!: keeping)

lemma create_body_keeps [keeping]: "outline w = s \<Longrightarrow> keeps s (create_body ev path mode fi w)"
  unfolding create_body_def by (auto simp: Let_def split_def intro!: keeping)

lemma lfs_create_keeps [keeping]: "outline w = s \<Longrightarrow> keeps s (lfs_create ev path mode fi w)"
  unfolding lfs_create_def by (auto intro!: keeping)

lemma recursive_rename_keeps [keeping]: "outline w = s \<Longrightarrow> keeps s (lfs_recursive_rename ev from to w)"
  unfolding lfs_recursive_rename_def by (auto simp: Let_def split_def intro!: keeping)

lemma lfs_rename_keeps [keeping]: "outline w = s \<Longrightarrow> keeps s (lfs_rename ev from to flags w)"
  unfolding lfs_rename_def rename_body_def by (auto simp: Let_def split_def intro!: keeping)

lemma lfs_link_keeps [keeping]: "outline w = s \<Longrightarrow> keeps s (lfs_link ev from to w)"
  unfolding lfs_link_def link_body_def by (auto simp: Let_def split_def intro!: keeping)

lemma lfs_unlink_keeps [keeping]: "outline w = s \<Longrightarrow> keeps s (lfs_unlink ev path w)"
  unfolding lfs_unlink_def unlink_body_def by (auto simp: Let_def split_def intro!: keeping)

lemma pass_on_keeps [keeping]: "outline w = s \<Longrightarrow> keeps s (pass_on ev call w)"
  by (simp add: pass_on_def Let_def split_def)

lemma pass_on_triggered_keeps [keeping]:
  "outline w = s \<Longrightarrow> keeps s (pass_on_triggered ev op from to call w)"
  unfolding pass_on_triggered_def by (auto simp: Let_def split_def intro!: keeping)

lemma lfs_readdir_keeps [keeping]: "outline w = s \<Longrightarrow> keeps s (lfs_readdir ev path filler buf w)"
  unfolding lfs_readdir_def by (rule shared_lock_keeps) (auto split: option.split intro!: keeps_value)

lemma handler_keeps:
  assumes "outline w = s" and "load_operations x ev req = Some handler"
  shows "keeps s (handler w)"
  using assms
  by (cases req; cases x)
    (auto simp: load_operations_def unset_operations_def replying_def split_def lfs_symlink_def lfs_access_def
      lfs_mkdir_def lfs_rmdir_def lfs_chmod_def lfs_chown_def lfs_utimens_def lfs_readlink_def lfs_release_def
      lfs_setxattr_def lfs_getxattr_def lfs_listxattr_def lfs_removexattr_def Let_def intro!: keeping)


section \<open>The running system\<close>

text \<open>
  Requests of the FUSE library and commands of the FIFO, one after the other in any order. A step
  is one that completes; the others end in a fault or in the death of the process. \<open>fd\<close> is the
  descriptor of the FIFO for notifications, when there is one.
\<close>

inductive system_step ::
  "bool \<Rightarrow> (fuse_request \<Rightarrow> int) \<Rightarrow> int option \<Rightarrow> ('e, 'd) env \<Rightarrow> ('e, 'd) world \<Rightarrow> ('e, 'd) world \<Rightarrow> bool"
  for have_setxattr unset fd ev where
  request: "serve have_setxattr unset ev req w = Inr (reply, w') \<Longrightarrow>
    system_step have_setxattr unset fd ev w w'"
| command: "worker_command ev buffer w = Inr (reply, w') \<Longrightarrow>
    system_step have_setxattr unset fd ev w (notify_completed ev fd reply w')"

inductive reachable ::
  "bool \<Rightarrow> (fuse_request \<Rightarrow> int) \<Rightarrow> int option \<Rightarrow> ('e, 'd) env \<Rightarrow> ('e, 'd) world \<Rightarrow> ('e, 'd) world \<Rightarrow> bool"
  for have_setxattr unset fd ev w0 where
  reachable_init: "reachable have_setxattr unset fd ev w0 w0"
| reachable_step: "reachable have_setxattr unset fd ev w0 w \<Longrightarrow> system_step have_setxattr unset fd ev w w' \<Longrightarrow>
    reachable have_setxattr unset fd ev w0 w'"

inductive_cases system_stepE: "system_step have_setxattr unset fd ev w w'"

text \<open>Whatever the worker does with the chunks it reads is a sequence of steps.\<close>

lemma worker_loop_reachable:
  "worker_loop ev fd chunks w = Inr (replies, w') \<Longrightarrow> reachable x unset fd ev w0 w \<Longrightarrow>
   reachable x unset fd ev w0 w'"
proof (induction chunks arbitrary: w replies)
  case (Cons buffer chunks)
  show ?case
  proof (cases "buffer = []")
    case False
    then obtain reply w1 replies' where r: "worker_command ev (take MAX_READ_CHUNK buffer) w = Inr (reply, w1)"
      "worker_loop ev fd chunks (notify_completed ev fd reply w1) = Inr (replies', w')"
      using Cons.prems(1) by (auto simp: bnd_eq_Inr)
    have "reachable x unset fd ev w0 (notify_completed ev fd reply w1)"
      using Cons.prems(2) r(1) by (blast intro: reachable_step command)
    then show ?thesis using Cons.IH r(2) by blast
  qed (use Cons.prems in simp)
qed simp

text \<open>The invariant of the running system.\<close>

definition in_order :: "('e, 'd) world \<Rightarrow> bool" where
  "in_order w \<longleftrightarrow>
     shared_locks w = 0 \<and>
     at_most_one is_SplitWriteF (ffaults w) \<and> at_most_one is_ClearF (ffaults w) \<and>
     (\<forall>op \<in> set allow_crash_fs_operations.
        op |\<in>| fmdom (crash_faults_before_map w) \<and> op |\<in>| fmdom (crash_faults_after_map w))"

lemma is_uncounted [simp]:
  "is_SplitWriteF (uncounted f) = is_SplitWriteF f" "is_ReorderF (uncounted f) = is_ReorderF f"
  "is_ClearF (uncounted f) = is_ClearF f"
  by (cases f; simp)+

lemma at_most_one_uncounted:
  assumes "\<And>f. same (uncounted f) = same f"
  shows "at_most_one same (fmmap (map uncounted) fs) = at_most_one same fs"
proof -
  have "length (filter same (map uncounted v)) = length (filter same v)" for v
    by (simp add: filter_map o_def assms)
  then show ?thesis by (simp add: at_most_one_def faults_of_def option.case_eq_if option.map_sel)
qed

lemma in_order_outline:
  "in_order w \<longleftrightarrow>
     ol_locks (outline w) = 0 \<and>
     at_most_one is_SplitWriteF (ol_faults (outline w)) \<and> at_most_one is_ClearF (ol_faults (outline w)) \<and>
     (\<forall>op \<in> set allow_crash_fs_operations. op |\<in>| ol_before (outline w) \<and> op |\<in>| ol_after (outline w))"
  by (simp add: in_order_def outline_def at_most_one_uncounted)

lemma serve_outline: "serve x unset ev req w = Inr (reply, w') \<Longrightarrow> outline w' = outline w"
  using handler_keeps [of w "outline w" x ev req]
  by (auto simp: serve_def keeps_def split: option.splits)

lemma notify_outline [simp]: "outline (notify_completed ev fd reply w) = outline w"
  by (simp add: notify_completed_def split: option.split)

text \<open>Commands add torn faults and crash faults, and nothing else.\<close>

lemma torn_op_keeps:
  assumes "add_torn_op_fault path parts parts_bytes persist occurrence fs = Inr (errors, fs')"
    and "at_most_one same fs" and "same = is_SplitWriteF \<or> same = is_ClearF"
  shows "at_most_one same fs'"
proof -
  consider "fs' = fs" | f where "is_SplitWriteF f" "fs' = register_fault is_SplitWriteF path f fs"
    using add_torn_op_fault_law [OF assms(1)] by blast
  then show ?thesis
  proof cases
    case (2 f)
    have "\<forall>g. same g \<longrightarrow> is_SplitWriteF g" if "same f"
      using assms(3) 2(1) that by (cases f) auto
    then show ?thesis unfolding 2(2) by (rule at_most_one_register [OF assms(2)])
  qed (use assms(2) in simp)
qed

lemma torn_seq_keeps:
  assumes "add_torn_seq_fault path op persist occurrence fs = Inr (errors, fs')"
    and "at_most_one same fs" and "same = is_SplitWriteF \<or> same = is_ClearF"
  shows "at_most_one same fs'"
proof -
  consider "fs' = fs" | f where "is_ReorderF f" "fs' = register_fault is_ReorderF path f fs"
    using add_torn_seq_fault_law [OF assms(1)] by blast
  then show ?thesis
  proof cases
    case (2 f)
    have "\<forall>g. same g \<longrightarrow> is_ReorderF g" if "same f"
      using assms(3) 2(1) that by (cases f) auto
    then show ?thesis unfolding 2(2) by (rule at_most_one_register [OF assms(2)])
  qed (use assms(2) in simp)
qed

lemma run_torn_world:
  assumes "run_torn_command t register w = Inr (reply, w')"
  shows "w' = w \<or> (\<exists>errors fs. register (ffaults w) = Inr (errors, fs) \<and> w' = w\<lparr>ffaults := fs\<rparr>)"
  using assms by (auto simp: run_torn_command_def bnd_eq_Inr Let_def split: if_splits)

lemma run_torn_in_order:
  assumes "run_torn_command t register w = Inr (reply, w')" and "in_order w"
    and "\<And>same fs errors fs'. register fs = Inr (errors, fs') \<Longrightarrow> at_most_one same fs \<Longrightarrow>
      same = is_SplitWriteF \<or> same = is_ClearF \<Longrightarrow> at_most_one same fs'"
  shows "in_order w'"
proof -
  consider "w' = w" | errors fs where "register (ffaults w) = Inr (errors, fs)" "w' = w\<lparr>ffaults := fs\<rparr>"
    using run_torn_world [OF assms(1)] by blast
  then show ?thesis
  proof cases
    case (2 errors fs)
    then show ?thesis using assms(3) [OF 2(1)] assms(2) by (simp add: in_order_def)
  qed (use assms(2) in simp)
qed

lemma kept_in_order: "keeps (outline w) m \<Longrightarrow> m = Inr (x, w') \<Longrightarrow> in_order w \<Longrightarrow> in_order w'"
  by (simp add: in_order_outline)

lemma run_crash_command_keeps [keeping]: "outline w = s \<Longrightarrow> keeps s (run_crash_command ev command_str w)"
  unfolding run_crash_command_def by (auto simp: Let_def intro!: keeping)

lemma worker_command_in_order:
  assumes "worker_command ev buffer w = Inr (reply, w')" and "in_order w"
  shows "in_order w'"
proof -
  define s where "s = command_string buffer"
  note run = assms(1) [unfolded worker_command_def Let_def s_def [symmetric]]
  consider (crash) "run_crash_command ev s w = Inr (reply, w')"
    | (clear) u where "command_fault_clear_cache ev w = Inr (u, w')"
    | (op) "run_torn_op_command s w = Inr (reply, w')"
    | (seq) "run_torn_seq_command s w = Inr (reply, w')"
    | (usage) u where "command_display_cache_usage ev w = Inr (u, w')"
    | (checkpoint) u where "command_checkpoint ev w = Inr (u, w')"
    | (other) "w' = w"
    using run by (auto simp: bnd_eq_Inr split: if_splits)
  then show ?thesis
  proof cases
    case crash
    then show ?thesis by (rule kept_in_order [OF run_crash_command_keeps [OF refl] _ assms(2)])
  next
    case clear
    then show ?thesis by (rule kept_in_order [OF command_fault_clear_cache_keeps [OF refl] _ assms(2)])
  next
    case op
    then show ?thesis
      unfolding run_torn_op_command_def Let_def by (rule run_torn_in_order [OF _ assms(2)]) (rule torn_op_keeps)
  next
    case seq
    then show ?thesis
      unfolding run_torn_seq_command_def Let_def by (rule run_torn_in_order [OF _ assms(2)]) (rule torn_seq_keeps)
  next
    case usage
    then show ?thesis by (rule kept_in_order [OF command_display_cache_usage_keeps [OF refl] _ assms(2)])
  next
    case checkpoint
    then show ?thesis by (rule kept_in_order [OF command_checkpoint_keeps [OF refl] _ assms(2)])
  qed (use assms(2) in simp)
qed

lemma system_step_in_order:
  assumes "system_step x unset fd ev w w'" and "in_order w"
  shows "in_order w'"
  using assms(1)
proof (rule system_stepE)
  fix req reply
  assume "serve x unset ev req w = Inr (reply, w')"
  then show ?thesis using serve_outline assms(2) by (metis in_order_outline)
next
  fix buffer reply w1
  assume "w' = notify_completed ev fd reply w1" "worker_command ev buffer w = Inr (reply, w1)"
  then show ?thesis using worker_command_in_order assms(2) by (metis in_order_outline notify_outline)
qed

lemma reachable_in_order: "reachable x unset fd ev w0 w \<Longrightarrow> in_order w0 \<Longrightarrow> in_order w"
  by (induction rule: reachable.induct) (auto intro: system_step_in_order)


text \<open>
  C19. Whatever request FUSE sends, a handler that completes has given the command lock back and
  has changed no fault but its counters: none is added, dropped, reordered or altered, and no
  operation loses its entry in the tables of crash faults.
\<close>

theorem requests_change_only_counters:
  assumes "serve have_setxattr unset ev req w = Inr (reply, w')"
  shows "shared_locks w' = shared_locks w \<and>
    fmmap (map uncounted) (ffaults w') = fmmap (map uncounted) (ffaults w) \<and>
    fmdom (crash_faults_before_map w') = fmdom (crash_faults_before_map w) \<and>
    fmdom (crash_faults_after_map w') = fmdom (crash_faults_after_map w)"
  using serve_outline [OF assms] by (simp add: outline_def)

theorem requests_change_only_counters_witness:
  "\<exists>w w' :: (engine, mem_host) world. serve False (\<lambda>_. - 38) demo_env (T_access ''/f'' 0) w = Inr (R_status 0, w') \<and>
     ffaults w' \<noteq> ffaults w \<and> fmmap (map uncounted) (ffaults w') = fmmap (map uncounted) (ffaults w)"
proof -
  define c where "c = new_ClearF ''after'' ''access'' ''/f'' ''none'' 3 False"
  define w where "w = new_lazyfs (undefined :: engine cache) (fmupd ''/f'' [ClearF c] fmempty) demo_disk"
  define w' where "w' = w\<lparr>ffaults := fmupd ''/f'' [ClearF (c\<lparr>cl_counter := 1\<rparr>)] fmempty\<rparr>"
  have maps: "fmlookup (crash_faults_before_map w) ''access'' = Some []"
    "fmlookup (crash_faults_after_map w) ''access'' = Some []"
    by (simp_all add: w_def new_lazyfs_def Let_def no_faults_lookup)
  have w: "ffaults w = fmupd ''/f'' [ClearF c] fmempty" "shared_locks w = 0" "host_state w = demo_disk"
    by (simp_all add: w_def new_lazyfs_def Let_def)
  have upd: "fmupd ''/f'' x (fmupd ''/f'' y fmempty) = (fmupd ''/f'' x fmempty :: faults)" for x y
    by (rule fmap_ext) simp
  have acc: "os_access mem_os ''/f'' 0 demo_disk = (0, demo_disk)"
    by (simp add: mem_os_def mh_path_op_def demo_disk_def)
  have "triggers demo_env ''access'' ''before'' ''/f'' '''' w = Inr ((), w')"
    using w by (simp add: triggers_def trigger_crash_fault_def trigger_configured_clear_fault_def maps fmat_Some
        clear_fault_step_def c_def new_ClearF_def fs_op_multi_path_def set_fault_def w'_def upd)
  moreover have "triggers demo_env ''access'' ''after'' ''/f'' '''' (w'\<lparr>shared_locks := 1, host_state := demo_disk\<rparr>) =
      Inr ((), w'\<lparr>shared_locks := 1, host_state := demo_disk\<rparr>)"
    using w by (simp add: triggers_def trigger_crash_fault_def trigger_configured_clear_fault_def maps fmat_Some
        clear_fault_step_def c_def new_ClearF_def fs_op_multi_path_def w'_def)
  ultimately have run: "serve False (\<lambda>_. - 38) demo_env (T_access ''/f'' 0) w = Inr (R_status 0, w')"
    using w by (simp add: serve_def load_operations_def replying_def lfs_access_def pass_on_triggered_def
        with_shared_lock_def syscall_def acc w'_def)
  have "ffaults w' \<noteq> ffaults w"
    using w(1) by (auto simp: w'_def c_def new_ClearF_def dest: arg_cong [where f = "\<lambda>m. fmlookup m ''/f''"])
  then show ?thesis using requests_change_only_counters [OF run] run by blast
qed

lemma boot_in_order:
  assumes "start h rmatch rvalid uninit toml argv d = Inr (Some (new_argv, ev, w0))"
  shows "in_order w0"
proof -
  obtain path doc c fs new_argv' where "load_config uninit doc path = Inr (c, fs)"
    "boot h rmatch rvalid uninit new_argv' c fs d = Inr (Some (new_argv, ev, w0))"
    using assms by (auto simp: start_def bnd_eq_Inr)
  moreover from this(2) obtain e d' where "w0 = new_lazyfs (new_cache e) fs d'" by (rule boot_running)
  ultimately show ?thesis
    using load_config_faults
    by (simp add: in_order_def new_lazyfs_def Let_def no_faults_lookup fmlookup_dom_iff)
qed

text \<open>
  C18. The running system. After a start, whatever requests of FUSE and commands of the FIFO have
  been served, in whatever order: nobody holds the command lock, so every command gets it and none
  waits; no path has more than one torn-op and one clear-cache fault; and every operation still has
  its entries in the tables of crash faults, so no trigger ends in an uncaught exception of \<open>at\<close>.
\<close>

theorem running_system_in_order:
  assumes "start h rmatch rvalid uninit toml argv d = Inr (Some (new_argv, ev, w0))"
    and "reachable have_setxattr unset fd ev w0 w"
  shows "shared_locks w = 0 \<and> with_unique_lock command w = command w \<and>
    at_most_one is_SplitWriteF (ffaults w) \<and> at_most_one is_ClearF (ffaults w) \<and>
    (\<forall>op \<in> set allow_crash_fs_operations.
       (\<exists>l. fmat (crash_faults_before_map w) op = Inr l) \<and> (\<exists>l. fmat (crash_faults_after_map w) op = Inr l))"
  using reachable_in_order [OF assms(2) boot_in_order [OF assms(1)]]
  by (auto simp: in_order_def with_unique_lock_def fmlookup_dom_iff)


theorem running_system_in_order_witness:
  "\<exists>ev (w0 :: (engine, mem_host) world) w.
     start mem_os (\<lambda>_ _. False) (\<lambda>_. True) 0 (\<lambda>_. Some demo_document) [''lazyfs'', ''/mnt''] demo_disk =
       Inr (Some ([''lazyfs'', ''/mnt''], ev, w0)) \<and>
     system_step False (\<lambda>_. - 38) None ev w0 w \<and>
     worker_command ev ''lazyfs::display-cache-usage.'' w =
       Inr (CacheUsage (get_cache_usage (eengine ev) (FSCache w)), w)"
proof -
  obtain e fs where run: "start mem_os (\<lambda>_ _. False) (\<lambda>_. True) 0 (\<lambda>_. Some demo_document) [''lazyfs'', ''/mnt''] demo_disk =
      Inr (Some ([''lazyfs'', ''/mnt''], demo_env, new_lazyfs (new_cache e) fs demo_disk))" (is "_ = Inr (Some (_, _, ?w0))")
    by (rule demo_system_start)
  have "serve False (\<lambda>_. - 38) demo_env (T_mkdir ''/d'' 511) ?w0 = Inr (R_status 0, ?w0)"
    by (simp add: serve_def load_operations_def replying_def lfs_mkdir_def with_shared_lock_def pass_on_def
        syscall_def mem_os_def new_lazyfs_def Let_def)
  then have step: "system_step False (\<lambda>_. - 38) None demo_env ?w0 ?w0" by (rule request)
  have "reachable False (\<lambda>_. - 38) None demo_env ?w0 ?w0"
    by (rule reachable_step [OF reachable_init step])
  from running_system_in_order [OF run this, of "\<lambda>w. Inr (get_cache_usage (eengine demo_env) (FSCache w), w)"]
  have "command_display_cache_usage demo_env ?w0 = Inr (get_cache_usage (eengine demo_env) (FSCache ?w0), ?w0)"
    by (simp only: command_display_cache_usage_def)
  then have "worker_command demo_env ''lazyfs::display-cache-usage.'' ?w0 =
      Inr (CacheUsage (get_cache_usage (eengine demo_env) (FSCache ?w0)), ?w0)"
    by (simp add: worker_command_def command_string_def starts_with_def)
  then show ?thesis using run step by blast
qed

end
