(* ===== verification/Names_Theorems.thy ===== *)
theory Names_Theorems
  imports Fs_Theorems
begin

text \<open>
  Names: what renaming and removing a file do to it, and that replacing a file by renaming a synced
  one onto it is safe against a crash.
\<close>


section \<open>A file system that knows a name\<close>

lemma calm_between_new:
  assumes "fmlookup fs from = None" and "op \<in> set allow_crash_fs_operations"
  shows "calm_between ev op from to (new_lazyfs C fs d)"
  using assms by (simp add: calm_between_def new_lazyfs_def Let_def no_faults_lookup)

lemma demo_named:
  obtains e w where "new_engine default_config = Inr e" "serving demo_env mem_view ''/f'' demo_fd 7 w"
    "host_state w = demo_disk" "file_inode_mapping (FSCache w) = fmupd ''/f'' (to_string 7) fmempty"
    "seen default_config mem_view (FSCache w) demo_disk 7 = [9, 9]" "contents (FSCache w) = fmempty"
    "\<forall>op \<in> set allow_crash_fs_operations. \<forall>from to. calm_between demo_env op from to w"
proof -
  obtain e where e: "new_engine default_config = Inr e"
    "serving demo_env mem_view ''/f'' demo_fd 7 (new_lazyfs (new_cache e) fmempty demo_disk)"
    "seen default_config mem_view (new_cache e) demo_disk 7 = [9, 9]"
    by (rule demo_serving)
  define C where "C = insert_inode_mapping ''/f'' (to_string 7) False (new_cache e)"
  define w where "w = (new_lazyfs (new_cache e) fmempty demo_disk)\<lparr>FSCache := C\<rparr>"
  note S = servingD [OF e(2)]
  have C: "contents C = fmempty" "file_inode_mapping C = fmupd ''/f'' (to_string 7) fmempty"
    by (simp_all add: C_def insert_inode_mapping_def new_cache_def)
  have sz: "file_size mem_view C demo_disk = file_size mem_view (new_cache e) demo_disk"
    by (rule ext) (simp add: file_size_def C(1) new_cache_def)
  have f: "files_ok default_config mem_view C demo_disk"
    "seen default_config mem_view C demo_disk 7 = [9, 9]"
    using files_at_name [OF S(3,5)] e(3) unfolding sz by (simp_all add: C_def)
  have "serving demo_env mem_view ''/f'' demo_fd 7 w"
    using e(2) f(1) by (simp add: serving_def fs_inv_def w_def)
  moreover have "calm_between demo_env op from to w" if "op \<in> set allow_crash_fs_operations" for op "from" to
    unfolding w_def calm_between_updates by (rule calm_between_new [OF _ that]) simp
  ultimately show thesis
    by (intro that [OF e(1), of w]) (use f C in \<open>auto simp: w_def\<close>)
qed

lemma calm_between_forgotten [simp]: "calm_between ev op from to (forgotten path w) = calm_between ev op from to w"
  by (auto simp: calm_between_def forgotten_def check_and_delete_pendingwrite_def split: option.splits)

lemma demo_rename_succeeds:
  "path_ino mem_view d p = Some i \<Longrightarrow> fst (os_rename mem_os p q d) \<noteq> - 1"
  by (auto simp: mem_view_def mem_os_def mh_path_op_def split: if_splits option.splits)

lemma demo_write:
  assumes "serving demo_env mem_view ''/f'' demo_fd 7 w" and "host_state w = demo_disk"
    and "calm_between demo_env op from to w"
  obtains w' where "fs_step demo_env mem_view w (Write 7 1 [5, 6]) w'" "serving demo_env mem_view ''/f'' demo_fd 7 w'"
    "path_ino mem_view (host_state w') = path_ino mem_view demo_disk" "calm_between demo_env op from to w'"
proof -
  note S = servingD [OF assms(1)]
  have fits: "request_fits (FSConfig demo_env) 1 [5, 6]" by simp
  have b: "[5, 6 :: byte] \<noteq> []" "length [5, 6 :: byte] < 2147483648" "(0::int) \<le> 1"
    "1 + int (length [5, 6 :: byte]) \<le> 2147483648 * IO_BLOCK_SIZE (FSConfig demo_env)"
    by simp_all
  obtain C' d' where r: "lfs_write demo_env ''/f'' [5, 6] (int (length [5, 6 :: byte])) 1 (Some demo_fd) w =
      Inr (2, w\<lparr>FSCache := C', host_state := d'\<rparr>)"
    "path_ino mem_view d' = path_ino mem_view (host_state w)" "fd_ino mem_view d' = fd_ino mem_view (host_state w)"
    using lfs_write_ok [OF S(1) refl S(4,3,5,6) _ S(8) b] S(7) unfolding written_def by auto
  note st = fs_step.fs_write [OF S(10,4) fits r(1)]
  show thesis
    by (rule that [OF st]) (use fs.keeps [OF S(9) st] S(4,10) r(2,3) assms(2,3) in \<open>auto simp: serving_def open_at_def\<close>)
qed

lemma demo_sync:
  assumes "serving demo_env mem_view ''/f'' demo_fd 7 w" and "path_ino mem_view (host_state w) = path_ino mem_view demo_disk"
    and "calm_between demo_env op from to w"
  obtains w' where "fs_step demo_env mem_view w (Sync {7}) w'" "serving demo_env mem_view ''/f'' demo_fd 7 w'"
    "path_ino mem_view (host_state w') = path_ino mem_view demo_disk" "calm_between demo_env op from to w'"
proof -
  note S = servingD [OF assms(1)]
  obtain C' d' where r: "lfs_fsync demo_env ''/f'' False (Some demo_fd) w =
      Inr (0, (forgotten ''/f'' w)\<lparr>FSCache := C', host_state := d'\<rparr>)"
    "path_ino mem_view d' = path_ino mem_view (host_state w)" "fd_ino mem_view d' = fd_ino mem_view (host_state w)"
    using lfs_fsync_ok [OF S(1) refl S(4,3,5)] unfolding synced_def by blast
  note st = fs_step.fs_fsync [OF S(5,4) r(1)]
  have "calm_between demo_env op from to (forgotten ''/f'' w)" using assms(3) by simp
  then show thesis
    by (intro that [OF st]) (use fs.keeps [OF S(9) st] S(4,10) r(2,3) assms(2) in \<open>auto simp: serving_def open_at_def\<close>)
qed

lemma demo_lookup:
  assumes "serving demo_env mem_view ''/f'' demo_fd 7 w" and "path_ino mem_view (host_state w) = path_ino mem_view demo_disk"
    and "calm_between demo_env op from to w"
  obtains w' where "fs_step demo_env mem_view w (Lose {}) w'"
    "path_ino mem_view (host_state w') = path_ino mem_view demo_disk" "calm_between demo_env op from to w'"
    "fmlookup (file_inode_mapping (FSCache w')) ''/f'' \<noteq> None" "fs_inv demo_env mem_view w'"
proof -
  note S = servingD [OF assms(1)]
  obtain st C' where g: "lfs_getattr demo_env ''/f'' w = Inr ((0, st), w\<lparr>FSCache := C'\<rparr>)"
    "get_original_inode C' ''/f'' = to_string 7"
    using getattr_ok [OF S(1,3,5)] by blast
  have "to_string 7 \<noteq> []" by (simp add: to_string_def)
  then have "fmlookup (file_inode_mapping C') ''/f'' \<noteq> None"
    using g(2) by (cases "fmlookup (file_inode_mapping C') ''/f''") (simp_all add: get_original_inode_def)
  moreover note st = fs_step.fs_getattr [OF S(5) g(1)]
  ultimately show thesis
    by (intro that [OF st]) (use fs.keeps [OF S(9) st] assms(2,3) in auto)
qed

section \<open>Renaming and removing\<close>

text \<open>
  C28. Renaming a file no fault concerns, when the host does it: the new name stands for the file
  on the host and in the cache and the old one for nothing, everyone sees the file unchanged and
  so every other file, except that a file which has lost its last name to the rename is forgotten.
\<close>

theorem rename_moves_the_file:
  assumes "fs_inv ev hv w" and "calm_between ev ''rename'' from to w"
    and "path_ino hv (host_state w) from = Some i" and "path_ino hv (host_state w) to \<noteq> Some i"
    and "fmlookup (file_inode_mapping (FSCache w)) from \<noteq> None"
    and "fmlookup (file_inode_mapping (FSCache w)) to \<noteq> Some (to_string i)"
    and "fst (os_rename (eos ev) from to (host_state w)) \<noteq> - 1"
  shows "\<exists>w'. lfs_rename ev from to 0 w = Inr (0, w') \<and> fs_inv ev hv w' \<and>
    path_ino hv (host_state w') = (path_ino hv (host_state w))(to := Some i, from := None) \<and>
    get_original_inode (FSCache w') to = to_string i \<and> get_original_inode (FSCache w') from = [] \<and>
    content hv (host_state w') = content hv (host_state w) \<and>
    seen (FSConfig ev) hv (FSCache w') (host_state w') i = seen (FSConfig ev) hv (FSCache w) (host_state w) i \<and>
    (\<forall>j. j \<notin> unlinked (FSCache w) (displaced to (file_inode_mapping (FSCache w))) \<longrightarrow>
       seen (FSConfig ev) hv (FSCache w') (host_state w') j = seen (FSConfig ev) hv (FSCache w) (host_state w) j)"
proof -
  have inv: "mounted ev hv" "shared_locks w = 0" "files_ok (FSConfig ev) hv (FSCache w) (host_state w)"
    using assms(1) by (simp_all add: fs_inv_def)
  obtain C' d' where r: "lfs_rename ev from to 0 w = Inr (0, w\<lparr>FSCache := C', host_state := d'\<rparr>)"
    "files_ok (FSConfig ev) hv C' d'"
    "path_ino hv d' = (path_ino hv (host_state w))(to := Some i, from := None)"
    "content hv d' = content hv (host_state w)"
    "file_inode_mapping C' = fmupd to (to_string i) (fmdrop from (file_inode_mapping (FSCache w)))"
    "seen (FSConfig ev) hv C' d' =
      (\<lambda>j. if j \<in> unlinked (FSCache w) (displaced to (file_inode_mapping (FSCache w)))
           then content hv (host_state w) j else seen (FSConfig ev) hv (FSCache w) (host_state w) j)"
    using lfs_rename_ok [OF inv(1) refl assms(2) inv(3) assms(3,4,5,7)] by blast
  have "to_string i \<noteq> ''''" by (simp add: to_string_def)
  then have "i \<notin> unlinked (FSCache w) (displaced to (file_inode_mapping (FSCache w)))"
    using assms(6) by (auto simp: unlinked_def displaced_def split: option.splits)
  moreover have "from \<noteq> to" using assms(3,4) by auto
  ultimately show ?thesis
    using r inv by (intro exI [of _ "w\<lparr>FSCache := C', host_state := d'\<rparr>"])
      (simp add: fs_inv_def get_original_inode_def)
qed

theorem rename_moves_the_file_witness:
  "\<exists>w w'. lfs_rename demo_env ''/f'' ''/g'' 0 w = Inr (0, w') \<and>
     path_ino mem_view (host_state w') ''/g'' = Some 7 \<and> path_ino mem_view (host_state w') ''/f'' = None \<and>
     seen default_config mem_view (FSCache w') (host_state w') 7 = [9, 9]"
proof -
  obtain e w where w: "serving demo_env mem_view ''/f'' demo_fd 7 w" "host_state w = demo_disk"
    "file_inode_mapping (FSCache w) = fmupd ''/f'' (to_string 7) fmempty"
    "seen default_config mem_view (FSCache w) demo_disk 7 = [9, 9]"
    "\<forall>op \<in> set allow_crash_fs_operations. \<forall>from to. calm_between demo_env op from to w"
    by (rule demo_named) blast
  note S = servingD [OF w(1)]
  have calm: "calm_between demo_env ''rename'' ''/f'' ''/g'' w"
    using w(5) by (simp add: allow_crash_fs_operations_def)
  have new: "path_ino mem_view (host_state w) ''/g'' \<noteq> Some 7"
    by (simp add: w(2) demo_disk_def mem_view_def)
  have res: "fst (os_rename (eos demo_env) ''/f'' ''/g'' (host_state w)) \<noteq> - 1"
    using demo_rename_succeeds S(5) by simp
  from rename_moves_the_file [OF S(9) calm S(5) new _ _ res] w(2-4) obtain w' where
    "lfs_rename demo_env ''/f'' ''/g'' 0 w = Inr (0, w')"
    "path_ino mem_view (host_state w') = (path_ino mem_view demo_disk)(''/g'' \<mapsto> 7, ''/f'' := None)"
    "seen default_config mem_view (FSCache w') (host_state w') 7 = [9, 9]" by auto
  then show ?thesis by (intro exI [of _ w] exI [of _ w']) simp
qed

text \<open>
  C27. Removing a name of a file no fault concerns, when the host does it: the name is gone, the
  file stays as it is while the cache knows another link of it, and otherwise its unsynced
  changes go with its last name; every other file is as before, and no file changes on the host.
\<close>

theorem unlink_removes_one_name:
  assumes "fs_inv ev hv w" and "calm ev path w" and "path_ino hv (host_state w) path = Some i"
    and "fmlookup (file_inode_mapping (FSCache w)) path \<noteq> None"
    and "fst (os_unlink (eos ev) path (host_state w)) \<noteq> - 1"
  shows "\<exists>w'. lfs_unlink ev path w = Inr (0, w') \<and> fs_inv ev hv w' \<and>
    path_ino hv (host_state w') = (path_ino hv (host_state w))(path := None) \<and>
    content hv (host_state w') = content hv (host_state w) \<and>
    seen (FSConfig ev) hv (FSCache w') (host_state w') =
      (if \<exists>it. fmlookup (contents (FSCache w)) (to_string i) = Some it \<and> 1 < nlinks (imetadata it)
       then seen (FSConfig ev) hv (FSCache w) (host_state w)
       else (seen (FSConfig ev) hv (FSCache w) (host_state w))(i := content hv (host_state w) i))"
proof -
  have inv: "mounted ev hv" "shared_locks w = 0" "files_ok (FSConfig ev) hv (FSCache w) (host_state w)"
    using assms(1) by (simp_all add: fs_inv_def)
  obtain C' d' where r: "lfs_unlink ev path w = Inr (0, w\<lparr>FSCache := C', host_state := d'\<rparr>)"
    "files_ok (FSConfig ev) hv C' d'"
    "path_ino hv d' = (path_ino hv (host_state w))(path := None)" "content hv d' = content hv (host_state w)"
    "seen (FSConfig ev) hv C' d' = (\<lambda>j. if j \<in> unlinked (FSCache w) (to_string i)
           then content hv (host_state w) j else seen (FSConfig ev) hv (FSCache w) (host_state w) j)"
    using lfs_unlink_ok [OF inv(1) refl assms(2) inv(3) assms(3,4,5)] by blast
  have "unlinked (FSCache w) (to_string i) =
      (if \<exists>it. fmlookup (contents (FSCache w)) (to_string i) = Some it \<and> 1 < nlinks (imetadata it) then {} else {i})"
    by (auto simp: unlinked_def)
  then show ?thesis
    using r inv by (intro exI [of _ "w\<lparr>FSCache := C', host_state := d'\<rparr>"]) (auto simp: fs_inv_def)
qed

theorem unlink_removes_one_name_witness:
  "\<exists>w w'. lfs_unlink demo_env ''/f'' w = Inr (0, w') \<and> path_ino mem_view (host_state w') ''/f'' = None \<and>
     content mem_view (host_state w') 7 = [9, 9]"
proof -
  obtain e w where w: "serving demo_env mem_view ''/f'' demo_fd 7 w" "host_state w = demo_disk"
    "file_inode_mapping (FSCache w) = fmupd ''/f'' (to_string 7) fmempty"
    by (rule demo_named) blast
  note S = servingD [OF w(1)]
  have res: "fst (os_unlink (eos demo_env) ''/f'' (host_state w)) \<noteq> - 1"
    by (simp add: w(2) demo_disk_def mem_os_def mh_path_op_def)
  have "content mem_view (host_state w) 7 = [9, 9]"
    by (simp add: w(2) mem_view_def demo_disk_def mh_content_def)
  with unlink_removes_one_name [OF S(9,4,5) _ res] w(3) show ?thesis by fastforce
qed

section \<open>Replacing a file\<close>

text \<open>
  C8. Replacing a file by a rename is safe. Write a file, sync it, rename it onto the name of
  another one, and let the process die right after: when the file system is mounted again, the
  name stands for the new file, and everyone sees in it exactly what all writes before the sync
  have made of it. Between the sync and the rename other files may be written, opened and synced.
\<close>

theorem replacement_is_durable:
  assumes "fs_inv ev hv w" and "runs (fs_step ev hv) w (before @ [Sync I] @ after) w1" and "i \<in> I"
    and "\<forall>op \<in> set before. \<not> loses i op" and "\<forall>op \<in> set after. \<not> syncs i op" and "writes_to i after = []"
    and "calm_between ev ''rename'' from to w1"
    and "path_ino hv (host_state w1) from = Some i" and "path_ino hv (host_state w1) to \<noteq> Some i"
    and "fmlookup (file_inode_mapping (FSCache w1)) from \<noteq> None"
    and "fst (os_rename (eos ev) from to (host_state w1)) \<noteq> - 1"
    and "lfs_rename ev from to 0 w1 = Inr (r, w2)"
    and "new_engine (FSConfig ev) = Inr e"
    and "path_ino hv d = path_ino hv (host_state w2)" and "content hv d = content hv (host_state w2)"
    and "w3 = new_lazyfs (new_cache e) fs d"
  shows "r = 0 \<and> path_ino hv (host_state w3) to = Some i \<and> path_ino hv (host_state w3) from = None \<and>
    seen (FSConfig ev) hv (FSCache w3) (host_state w3) i =
      fold (\<lambda>(off, bs) V. file_write V off bs) (writes_to i before)
        (seen (FSConfig ev) hv (FSCache w) (host_state w) i)"
proof -
  have "fs_inv ev hv w1" using fs.runs_simulate [OF assms(2,1)] by simp
  then have inv: "mounted ev hv" "shared_locks w1 = 0" "files_ok (FSConfig ev) hv (FSCache w1) (host_state w1)"
    by (simp_all add: fs_inv_def)
  obtain C' d' where r: "lfs_rename ev from to 0 w1 = Inr (0, w1\<lparr>FSCache := C', host_state := d'\<rparr>)"
    "path_ino hv d' = (path_ino hv (host_state w1))(to := Some i, from := None)"
    "content hv d' = content hv (host_state w1)"
    using lfs_rename_ok [OF inv(1) refl assms(7) inv(3) assms(8-11)] by blast
  have "seen (FSConfig ev) hv (new_cache e) d = content hv d"
    using mount_anew(2) [OF _ assms(13)] inv(1) by (simp add: mounted_def)
  moreover have "content hv (host_state w1) i =
      fold (\<lambda>(off, bs) V. file_write V off bs) (writes_to i before)
        (seen (FSConfig ev) hv (FSCache w) (host_state w) i)"
    using fs.synced_kept [OF assms(2,1,3-6)] by (simp add: store_of_def)
  moreover have "from \<noteq> to" using assms(8,9) by auto
  ultimately show ?thesis using r assms(12,14-16) by auto
qed

theorem replacement_is_durable_witness:
  "\<exists>w w1 w2 e. runs (fs_step demo_env mem_view) w ([Write 7 1 [5, 6]] @ [Sync {7}] @ [Lose {}]) w1 \<and>
     lfs_rename demo_env ''/f'' ''/g'' 0 w1 = Inr (0, w2) \<and>
     seen default_config mem_view (new_cache e) (host_state w2) 7 = [9, 5, 6]"
proof -
  obtain e w where w: "new_engine default_config = Inr e" "serving demo_env mem_view ''/f'' demo_fd 7 w"
    "host_state w = demo_disk" "seen default_config mem_view (FSCache w) demo_disk 7 = [9, 9]"
    "\<forall>op \<in> set allow_crash_fs_operations. \<forall>from to. calm_between demo_env op from to w"
    by (rule demo_named) blast
  have calm: "calm_between demo_env ''rename'' ''/f'' ''/g'' w"
    using w(5) by (simp add: allow_crash_fs_operations_def)
  obtain wa where a: "fs_step demo_env mem_view w (Write 7 1 [5, 6]) wa" "serving demo_env mem_view ''/f'' demo_fd 7 wa"
    "path_ino mem_view (host_state wa) = path_ino mem_view demo_disk" "calm_between demo_env ''rename'' ''/f'' ''/g'' wa"
    by (rule demo_write [OF w(2,3) calm])
  obtain wb where b: "fs_step demo_env mem_view wa (Sync {7}) wb" "serving demo_env mem_view ''/f'' demo_fd 7 wb"
    "path_ino mem_view (host_state wb) = path_ino mem_view demo_disk" "calm_between demo_env ''rename'' ''/f'' ''/g'' wb"
    by (rule demo_sync [OF a(2-4)])
  obtain w1 where c: "fs_step demo_env mem_view wb (Lose {}) w1"
    "path_ino mem_view (host_state w1) = path_ino mem_view demo_disk" "calm_between demo_env ''rename'' ''/f'' ''/g'' w1"
    "fmlookup (file_inode_mapping (FSCache w1)) ''/f'' \<noteq> None" "fs_inv demo_env mem_view w1"
    by (rule demo_lookup [OF b(2-4)])
  have run: "runs (fs_step demo_env mem_view) w ([Write 7 1 [5, 6]] @ [Sync {7}] @ [Lose {}]) w1"
    using a(1) b(1) c(1) by auto
  have p: "path_ino mem_view (host_state w1) ''/f'' = Some 7" "path_ino mem_view (host_state w1) ''/g'' \<noteq> Some 7"
    unfolding c(2) by (simp_all add: demo_disk_def mem_view_def)
  have res: "fst (os_rename (eos demo_env) ''/f'' ''/g'' (host_state w1)) \<noteq> - 1"
    using demo_rename_succeeds p(1) by simp
  obtain C' d' where r: "lfs_rename demo_env ''/f'' ''/g'' 0 w1 = Inr (0, w1\<lparr>FSCache := C', host_state := d'\<rparr>)"
    using lfs_rename_ok [OF demo_mounted refl c(3) _ p c(4) res] c(5) by (auto simp: fs_inv_def)
  have "seen default_config mem_view (new_cache e) d' 7 = [9, 5, 6]"
    using replacement_is_durable [where e = e and fs = fmempty, OF servingD(9) [OF w(2)] run _ _ _ _ c(3) p c(4) res r _ refl refl refl]
      w(1,3,4) by (simp add: file_write_def)
  then show ?thesis using run r by (intro exI [of _ w] exI [of _ w1] exI conjI) auto
qed

end
