(* ===== verification/Calls.thy ===== *)
theory Calls
  imports Lazyfs Host
begin

text \<open>
  The system calls of the test programs of the repository (\<open>tests/lfscheck\<close>, \<open>lazyfs/unit\<close>) and the
  contract they need of them. The calls are a record of functions over the state of whatever is
  mounted. The contract speaks of a file as it is seen and as it is durable, and of the path and
  access mode of a descriptor.
\<close>

section \<open>System calls\<close>

record 'k calls =
  c_open :: "string \<Rightarrow> int \<Rightarrow> int \<Rightarrow> 'k \<Rightarrow> int \<times> 'k"       \<comment> \<open>path, flags, mode\<close>
  c_close :: "int \<Rightarrow> 'k \<Rightarrow> int \<times> 'k"
  c_pread :: "int \<Rightarrow> int \<Rightarrow> int \<Rightarrow> 'k \<Rightarrow> (int \<times> byte list) \<times> 'k" \<comment> \<open>fd, count, offset\<close>
  c_pwrite :: "int \<Rightarrow> byte list \<Rightarrow> int \<Rightarrow> 'k \<Rightarrow> int \<times> 'k"
  c_lseek_end :: "int \<Rightarrow> 'k \<Rightarrow> int \<times> 'k"                \<comment> \<open>\<open>lseek (fd, 0, SEEK_END)\<close>\<close>
  c_fsync :: "int \<Rightarrow> 'k \<Rightarrow> int \<times> 'k"
  c_unlink :: "string \<Rightarrow> 'k \<Rightarrow> int \<times> 'k"
  c_fifo :: "string \<Rightarrow> 'k \<Rightarrow> int option \<times> 'k"
    \<comment> \<open>open the FIFO, write to it, wait; nothing if it cannot be opened\<close>

definition clear_command :: string where
  "clear_command = ''lazyfs::clear-cache'' @ [CHR 0x0A]"

section \<open>The contract\<close>

text \<open>
  A file is seen in one way and durable in another (\<open>kfile\<close>). A write is seen at once and durable
  after a sync, and clearing the cache leaves what is durable. The FIFO may be missing. Files have
  at most \<open>U\<close> bytes; reads are of bytes the file has, or end at a multiple of \<open>B\<close>.
\<close>

type_synonym files_view = "string \<Rightarrow> (byte list \<times> byte list) option"
type_synonym fds_view = "int \<Rightarrow> (string \<times> int) option"

locale file_calls =
  fixes K :: "'k calls"
    and paths :: "string set"
    and B :: int and U :: int
    and kinv :: "'k \<Rightarrow> bool"
    and kfile :: "'k \<Rightarrow> files_view"
    and kfd :: "'k \<Rightarrow> fds_view"
  assumes open_again: "\<lbrakk>kinv k; p \<in> paths; kfile k p = Some x; \<forall>fd m. kfd k fd \<noteq> Some (p, m);
      m \<in> {O_RDONLY, O_WRONLY, O_RDWR}; flags \<in> {m, O_CREAT + m}\<rbrakk> \<Longrightarrow>
      \<exists>fd k'. c_open K p flags mode k = (fd, k') \<and> 0 \<le> fd \<and> kinv k' \<and> kfile k' = kfile k \<and>
        kfd k fd = None \<and> kfd k' = (kfd k)(fd := Some (p, m))"
    and close_it: "\<lbrakk>kinv k; p \<in> paths; kfile k p = Some x; kfd k fd = Some (p, m)\<rbrakk> \<Longrightarrow>
      \<exists>k'. c_close K fd k = (0, k') \<and> kinv k' \<and> kfile k' = kfile k \<and> kfd k' = (kfd k)(fd := None)"
    and write_seen: "\<lbrakk>kinv k; p \<in> paths; kfile k p = Some (V, D); kfd k fd = Some (p, m); m \<in> {O_WRONLY, O_RDWR};
      bs \<noteq> []; 0 \<le> off; off + int (length bs) \<le> U\<rbrakk> \<Longrightarrow>
      \<exists>k'. c_pwrite K fd bs off k = (int (length bs), k') \<and> kinv k' \<and> kfd k' = kfd k \<and>
        kfile k' = (kfile k)(p := Some (file_write V off bs, D))"
    and read_back: "\<lbrakk>kinv k; p \<in> paths; kfile k p = Some (V, D); kfd k fd = Some (p, m); m \<in> {O_RDONLY, O_RDWR};
      0 < n; 0 \<le> off; off + n \<le> U; off + n \<le> int (length V) \<or> (off + n) mod B = 0\<rbrakk> \<Longrightarrow>
      \<exists>k'. c_pread K fd n off k =
          ((int (length (take (nat n) (drop (nat off) V))), take (nat n) (drop (nat off) V)), k') \<and>
        kinv k' \<and> kfd k' = kfd k \<and> kfile k' = kfile k"
    and seek_end: "\<lbrakk>kinv k; p \<in> paths; kfile k p = Some (V, D); kfd k fd = Some (p, m)\<rbrakk> \<Longrightarrow>
      \<exists>k'. c_lseek_end K fd k = (int (length V), k') \<and> kinv k' \<and> kfd k' = kfd k \<and> kfile k' = kfile k"
    and sync_durable: "\<lbrakk>kinv k; p \<in> paths; kfile k p = Some (V, D); kfd k fd = Some (p, m)\<rbrakk> \<Longrightarrow>
      \<exists>k'. c_fsync K fd k = (0, k') \<and> kinv k' \<and> kfd k' = kfd k \<and> kfile k' = (kfile k)(p := Some (V, V))"
    and unlink_own: "\<lbrakk>kinv k; p \<in> paths; kfile k p = Some x; \<forall>fd m. kfd k fd \<noteq> Some (p, m)\<rbrakk> \<Longrightarrow>
      \<exists>k'. c_unlink K p k = (0, k') \<and> kinv k' \<and> kfd k' = kfd k \<and> kfile k' = (kfile k)(p := None)"
    and clear_loses: "kinv k \<Longrightarrow> \<exists>r k'. c_fifo K clear_command k = (r, k') \<and> kinv k' \<and> kfd k' = kfd k \<and>
      (r = None \<and> kfile k' = kfile k \<or>
       r = Some 20 \<and> kfile k' = (\<lambda>p. map_option (\<lambda>(V, D). (D, D)) (kfile k p)))"
    and largest: "kinv k \<Longrightarrow> 0 < U \<and> U mod B = 0"

end
