(* ===== verification/Lfscheck.thy ===== *)
theory Lfscheck
  imports Worker Calls
begin

text \<open>
  \<open>tests/lfscheck\<close>, the consistency checker of the repository: threads that write to a file each,
  read back what they wrote and sometimes sync, and a monitor that clears the cache of LazyFS
  between their bursts; after a clear every thread compares its file with what it has tracked as
  synced. Its system calls are those of \<open>Calls\<close>. A thread is at one of a few places of its program and a step does what lies between two
  of them, with at most one system call, so all interleavings of the threads are covered.
\<close>

section \<open>Configuration\<close>

definition BURST_OPS_MAX :: int where "BURST_OPS_MAX = 10000"
definition MAX_THREADS :: int where "MAX_THREADS = 100"
definition MAX_WRITE_OFF :: int where "MAX_WRITE_OFF = 32768"

record check_config =
  nr_threads :: int
  upper_bound_write :: int
  max_burst_operations :: int

text \<open>The globals before the arguments are read.\<close>

definition check_defaults :: check_config where
  "check_defaults =
     \<lparr>nr_threads = 2, upper_bound_write = MAX_WRITE_OFF, max_burst_operations = BURST_OPS_MAX\<rparr>"

text \<open>
  The numeric arguments; \<open>None\<close> is one that is not used on the command line, for which the parser
  has a default of its own (\<open>add_argument\<close>) that is never read. \<open>Inl\<close> is the exit status.
\<close>

definition used_argument ::
  "int option \<Rightarrow> int \<Rightarrow> (int \<Rightarrow> check_config \<Rightarrow> check_config) \<Rightarrow> check_config \<Rightarrow> int + check_config" where
  "used_argument arg limit upd c =
     (case arg of
        None \<Rightarrow> Inr c
      | Some v \<Rightarrow> if v > limit then Inl 1 else Inr (upd v c))"

definition check_arguments ::
  "int option \<Rightarrow> int option \<Rightarrow> int option \<Rightarrow> bool \<Rightarrow> bool \<Rightarrow> bool \<Rightarrow> int + check_config" where
  "check_arguments threads burst max_off mount_exists fifo_exists chdir_ok =
     bnd (used_argument threads MAX_THREADS (\<lambda>v c. c\<lparr>nr_threads := v\<rparr>) check_defaults) (\<lambda>c.
     bnd (used_argument burst BURST_OPS_MAX (\<lambda>v c. c\<lparr>max_burst_operations := v\<rparr>) c) (\<lambda>c.
     bnd (used_argument max_off MAX_WRITE_OFF (\<lambda>v c. c\<lparr>upper_bound_write := v\<rparr>) c) (\<lambda>c.
     if \<not> fifo_exists \<or> \<not> mount_exists then Inl 1
     else if \<not> chdir_ok then Inl 1
     else Inr c)))"

section \<open>State\<close>

text \<open>
  The places of a thread: before the test of the loop, before it has the lock, in the check (before
  \<open>close\<close>, \<open>open\<close> and \<open>pread\<close>), after it, before the write, before reading back what it wrote,
  before the sync, and after the loop.
\<close>

datatype worker_pc =
    Loop_test
  | Loop_wait
  | Check_close
  | Check_open
  | Check_read
  | Checked
  | Do_write
  | Read_back int int byte bool    \<comment> \<open>bt, up, ch, fs\<close>
  | Do_sync
  | Leave
  | Unlink
  | Finished
  | Failed

record worker =
  w_pc :: worker_pc
  fd_operations :: int
  file_buffer :: "byte list"
  unsynced_buf :: "byte list"
  w_file_size :: int
  last_off_check_bottom :: int
  last_off_check_up :: int

datatype monitor_pc = Sleeping | Clearing | Releasing | Monitor_finished | Monitor_failed

record 'k checker =
  workers :: "worker list"
  thread_op_count :: "int list"
  thread_check_file :: "bool list"
  stop_workers :: bool
  last_iteration :: bool
  can_do_work :: bool
  loop_shared :: nat        \<comment> \<open>\<open>loop_mtx\<close>: how many threads share it\<close>
  loop_unique :: bool       \<comment> \<open>\<open>loop_mtx\<close>: the monitor has it alone\<close>
  monitor :: monitor_pc
  kernel :: 'k

text \<open>The random choices of one round: the pairs drawn until they differ, the letter, the sync.\<close>

record draw =
  d_ranges :: "(int \<times> int) list"
  d_ch :: int
  d_fs :: int

text \<open>
  \<open>get_random_number (min, max)\<close> yields a number of the range. Without a number between 0 and
  \<open>upper_bound_write - 1\<close> the range of the source wraps around and what it draws lies outside the
  buffers; no draw stands for that here.
\<close>

definition draw_ok :: "check_config \<Rightarrow> draw \<Rightarrow> bool" where
  "draw_ok c r \<longleftrightarrow>
     (\<forall>(bt, up) \<in> set (d_ranges r). 0 \<le> bt \<and> bt \<le> upper_bound_write c - 1 \<and>
        bt \<le> up \<and> up \<le> upper_bound_write c - 1) \<and>
     65 \<le> d_ch r \<and> d_ch r \<le> 90 \<and> 0 \<le> d_fs r \<and> d_fs r \<le> 1"

text \<open>The pair drawn before the loop counts for nothing; the loop ends with the first good one.\<close>

fun first_distinct :: "(int \<times> int) list \<Rightarrow> (int \<times> int) option" where
  "first_distinct [] = None"
| "first_distinct ((bt, up) # rs) = (if bt = up then first_distinct rs else Some (bt, up))"

section \<open>A worker\<close>

definition worker_path :: "nat \<Rightarrow> string" where
  "worker_path tid = ''file_'' @ to_string (int tid)"

definition fresh_worker :: "check_config \<Rightarrow> int \<Rightarrow> worker" where
  "fresh_worker c fd =
     \<lparr>w_pc = Loop_test, fd_operations = fd,
      file_buffer = replicate (nat (upper_bound_write c)) 0,
      unsynced_buf = replicate (nat (upper_bound_write c)) 0,
      w_file_size = 0, last_off_check_bottom = - 1, last_off_check_up = - 1\<rparr>"

text \<open>What a thread does before its loop.\<close>

definition start_worker :: "'k calls \<Rightarrow> check_config \<Rightarrow> nat \<Rightarrow> 'k \<Rightarrow> worker \<times> 'k" where
  "start_worker K c tid k =
     (let (fd, k) = c_open K (worker_path tid) (O_CREAT + O_RDWR + O_TRUNC) 511 k;
          (_, k) = c_close K fd k;
          (fd_operations, k) = c_open K (worker_path tid) O_RDWR 0 k
      in (fresh_worker c fd_operations, k))"

text \<open>\<open>memset (buf + from, ch, n)\<close>.\<close>

definition mem_fill :: "byte list \<Rightarrow> int \<Rightarrow> byte \<Rightarrow> int \<Rightarrow> byte list" where
  "mem_fill buf from ch n = take (nat from) buf @ replicate (nat n) ch @ drop (nat (from + n)) buf"

definition forget_unsynced :: "check_config \<Rightarrow> worker \<Rightarrow> worker" where
  "forget_unsynced c wk =
     wk\<lparr>last_off_check_bottom := - 1, last_off_check_up := - 1,
        unsynced_buf := replicate (nat (upper_bound_write c)) 0\<rparr>"

text \<open>Where the range of unsynced bytes ends after a write.\<close>

definition track_write :: "int \<Rightarrow> int \<Rightarrow> byte \<Rightarrow> worker \<Rightarrow> worker" where
  "track_write bt up ch wk =
     (let bottom = (if last_off_check_bottom wk = - 1 then bt else last_off_check_bottom wk);
          top = (if last_off_check_up wk = - 1 then up else last_off_check_up wk);
          (bottom, top) =
            (if bottom \<noteq> - 1 \<and> top \<noteq> - 1 then (min bottom bt, max top up) else (bottom, top))
      in wk\<lparr>unsynced_buf := mem_fill (unsynced_buf wk) bt ch (up - bt + 1),
            last_off_check_bottom := bottom, last_off_check_up := top\<rparr>)"

text \<open>What a successful sync makes of the buffers.\<close>

definition merge_unsynced :: "worker \<Rightarrow> byte list" where
  "merge_unsynced wk =
     fold (\<lambda>i f. if unsynced_buf wk ! nat i \<noteq> 0 then f[nat i := unsynced_buf wk ! nat i] else f)
       [last_off_check_bottom wk .. last_off_check_up wk] (file_buffer wk)"

definition track_sync :: "check_config \<Rightarrow> worker \<Rightarrow> worker" where
  "track_sync c wk =
     forget_unsynced c
       (wk\<lparr>file_buffer := merge_unsynced wk,
           w_file_size := max (w_file_size wk) (last_off_check_up wk + 1)\<rparr>)"

text \<open>
  One step of thread \<open>tid\<close>; \<open>None\<close> when it has to wait: for the monitor to give the lock back, to be
  allowed to work, or for a pair of offsets that differ. The lock is given back at the end of a round.
\<close>

definition at_worker :: "nat \<Rightarrow> (worker \<Rightarrow> worker) \<Rightarrow> 'k checker \<Rightarrow> 'k checker" where
  "at_worker tid f s = s\<lparr>workers := (workers s)[tid := f (workers s ! tid)]\<rparr>"

definition goto :: "nat \<Rightarrow> worker_pc \<Rightarrow> 'k checker \<Rightarrow> 'k checker" where
  "goto tid pc = at_worker tid (\<lambda>wk. wk\<lparr>w_pc := pc\<rparr>)"

definition unlock_loop :: "'k checker \<Rightarrow> 'k checker" where
  "unlock_loop s = s\<lparr>loop_shared := loop_shared s - 1\<rparr>"

definition must_wait :: "check_config \<Rightarrow> nat \<Rightarrow> 'k checker \<Rightarrow> bool" where
  "must_wait c tid s \<longleftrightarrow>
     (\<not> can_do_work s \<or> thread_op_count s ! tid \<ge> max_burst_operations c) \<and> \<not> stop_workers s"

definition enter_loop :: "check_config \<Rightarrow> nat \<Rightarrow> 'k checker \<Rightarrow> 'k checker option" where
  "enter_loop c tid s =
     (if loop_unique s \<or> must_wait c tid s then None
      else Some (goto tid (if thread_check_file s ! tid then Check_close else Checked)
             (s\<lparr>loop_shared := Suc (loop_shared s),
                thread_op_count := (thread_op_count s)[tid := thread_op_count s ! tid + 1]\<rparr>)))"

definition check_content :: "'k calls \<Rightarrow> check_config \<Rightarrow> nat \<Rightarrow> 'k checker \<Rightarrow> 'k checker" where
  "check_content K c tid s =
     (let wk = workers s ! tid;
          ((pr_res, read_buf), k) = c_pread K (fd_operations wk) (upper_bound_write c) 0 (kernel s);
          s = s\<lparr>kernel := k\<rparr>
      in if pr_res \<noteq> w_file_size wk then goto tid Failed s
         else if take (nat pr_res) read_buf \<noteq> take (nat pr_res) (file_buffer wk) then goto tid Failed s
         else goto tid Checked
           (at_worker tid (forget_unsynced c)
             (s\<lparr>thread_check_file := (thread_check_file s)[tid := False]\<rparr>)))"

definition write_range :: "'k calls \<Rightarrow> nat \<Rightarrow> draw \<Rightarrow> 'k checker \<Rightarrow> 'k checker option" where
  "write_range K tid r s =
     (case first_distinct (d_ranges r) of
        None \<Rightarrow> None
      | Some (bt, up) \<Rightarrow>
          (let ch = word_of_int (d_ch r);
               write_size = up - bt + 1;
               (pw_res, k) = c_pwrite K (fd_operations (workers s ! tid)) (replicate (nat write_size) ch) bt (kernel s);
               s = s\<lparr>kernel := k\<rparr>
           in Some (if pw_res \<noteq> write_size then goto tid Failed s
                    else goto tid (Read_back bt up ch (d_fs r \<noteq> 0)) s)))"

definition read_range ::
  "'k calls \<Rightarrow> nat \<Rightarrow> int \<Rightarrow> int \<Rightarrow> byte \<Rightarrow> bool \<Rightarrow> 'k checker \<Rightarrow> 'k checker" where
  "read_range K tid bt up ch fs s =
     (let write_size = up - bt + 1;
          ((pr_res, read_buf), k) = c_pread K (fd_operations (workers s ! tid)) write_size bt (kernel s);
          s = s\<lparr>kernel := k\<rparr>
      in if pr_res \<noteq> write_size then goto tid Failed s
         else if take (nat write_size) read_buf \<noteq> replicate (nat write_size) ch then goto tid Failed s
         else (let s = at_worker tid (track_write bt up ch) s
               in if fs then goto tid Do_sync s else unlock_loop (goto tid Loop_test s)))"

definition sync_file :: "'k calls \<Rightarrow> check_config \<Rightarrow> nat \<Rightarrow> 'k checker \<Rightarrow> 'k checker" where
  "sync_file K c tid s =
     (let (fr, k) = c_fsync K (fd_operations (workers s ! tid)) (kernel s);
          s = s\<lparr>kernel := k\<rparr>
      in if fr < 0 then goto tid Failed s
         else unlock_loop (goto tid Loop_test (at_worker tid (track_sync c) s)))"

definition worker_step :: "'k calls \<Rightarrow> check_config \<Rightarrow> nat \<Rightarrow> draw \<Rightarrow> 'k checker \<Rightarrow> 'k checker option" where
  "worker_step K c tid r s =
     (let wk = workers s ! tid in
      case w_pc wk of
        Loop_test \<Rightarrow> Some (goto tid (if stop_workers s then Leave else Loop_wait) s)
      | Loop_wait \<Rightarrow> enter_loop c tid s
      | Check_close \<Rightarrow> Some (goto tid Check_open (s\<lparr>kernel := snd (c_close K (fd_operations wk) (kernel s))\<rparr>))
      | Check_open \<Rightarrow>
          (let (fd, k) = c_open K (worker_path tid) O_RDWR 0 (kernel s)
           in Some (goto tid Check_read (at_worker tid (\<lambda>wk. wk\<lparr>fd_operations := fd\<rparr>) (s\<lparr>kernel := k\<rparr>))))
      | Check_read \<Rightarrow> Some (check_content K c tid s)
      | Checked \<Rightarrow>
          Some (if last_iteration s then unlock_loop (goto tid Leave s) else goto tid Do_write s)
      | Do_write \<Rightarrow> write_range K tid r s
      | Read_back bt up ch fs \<Rightarrow> Some (read_range K tid bt up ch fs s)
      | Do_sync \<Rightarrow> Some (sync_file K c tid s)
      | Leave \<Rightarrow> Some (goto tid Unlink (s\<lparr>kernel := snd (c_close K (fd_operations wk) (kernel s))\<rparr>))
      | Unlink \<Rightarrow> Some (goto tid Finished (s\<lparr>kernel := snd (c_unlink K (worker_path tid) (kernel s))\<rparr>))
      | Finished \<Rightarrow> None
      | Failed \<Rightarrow> None)"

section \<open>The monitor\<close>

definition stop_all :: "'k checker \<Rightarrow> 'k checker" where
  "stop_all s = s\<lparr>can_do_work := True, stop_workers := True, last_iteration := True,
                   loop_unique := False, monitor := Monitor_finished\<rparr>"

text \<open>
  One step of the monitor; \<open>over\<close> tells whether the test has run for long enough. The wait after
  the command is part of \<open>c_fifo\<close>: the command has been carried out when the monitor goes on.
\<close>

definition monitor_step :: "'k calls \<Rightarrow> check_config \<Rightarrow> bool \<Rightarrow> 'k checker \<Rightarrow> 'k checker option" where
  "monitor_step K c over s =
     (case monitor s of
        Sleeping \<Rightarrow>
          (if loop_shared s \<noteq> 0 \<or> loop_unique s then None
           else Some (s\<lparr>loop_unique := True, can_do_work := False, monitor := Clearing\<rparr>))
      | Clearing \<Rightarrow>
          (case c_fifo K clear_command (kernel s) of
             (None, k) \<Rightarrow> Some (stop_all (s\<lparr>kernel := k\<rparr>))
           | (Some r, k) \<Rightarrow>
               Some (s\<lparr>kernel := k, monitor := (if r = 20 then Releasing else Monitor_failed)\<rparr>))
      | Releasing \<Rightarrow>
          (let n = nat (nr_threads c);
               s = s\<lparr>thread_check_file := replicate n True @ drop n (thread_check_file s),
                     thread_op_count := replicate n 0 @ drop n (thread_op_count s)\<rparr>
           in Some (if over then stop_all s
                    else s\<lparr>can_do_work := True, loop_unique := False, monitor := Sleeping\<rparr>))
      | Monitor_finished \<Rightarrow> None
      | Monitor_failed \<Rightarrow> None)"

section \<open>All of it\<close>

inductive check_step :: "'k calls \<Rightarrow> check_config \<Rightarrow> 'k checker \<Rightarrow> 'k checker \<Rightarrow> bool" for K c where
  worker_moves: "tid < nat (nr_threads c) \<Longrightarrow> draw_ok c r \<Longrightarrow> worker_step K c tid r s = Some s' \<Longrightarrow> check_step K c s s'"
| monitor_moves: "monitor_step K c over s = Some s' \<Longrightarrow> check_step K c s s'"

inductive_cases check_stepE: "check_step K c s s'"

text \<open>An assertion of the checker has failed.\<close>

definition check_failed :: "'k checker \<Rightarrow> bool" where
  "check_failed s \<longleftrightarrow> monitor s = Monitor_failed \<or> (\<exists>wk \<in> set (workers s). w_pc wk = Failed)"

text \<open>The state when the threads have opened their files: \<open>fds\<close> are their descriptors.\<close>

definition check_start :: "check_config \<Rightarrow> int list \<Rightarrow> 'k \<Rightarrow> 'k checker" where
  "check_start c fds k =
     \<lparr>workers = map (fresh_worker c) fds,
      thread_op_count = replicate (nat MAX_THREADS) 0, thread_check_file = replicate (nat MAX_THREADS) False,
      stop_workers = False, last_iteration = False, can_do_work = False,
      loop_shared = 0, loop_unique = False, monitor = Sleeping, kernel = k\<rparr>"

end
