(* ===== verification/Lfscheck_Facts.thy ===== *)
theory Lfscheck_Facts
  imports Lfscheck Host
begin

text \<open>
  Why the checker is right: what it tracks of its files, the contract it needs of the system calls
  (the locale \<open>checked_calls\<close>), and the invariant that no assertion fails as long as the contract
  holds.
\<close>

section \<open>What a thread tracks\<close>

text \<open>
  Of a file that everyone sees as \<open>V\<close> and that is durable as \<open>D\<close>: \<open>file_buffer\<close> and the size are
  those of \<open>D\<close>, and \<open>unsynced_buf\<close> has the bytes in which \<open>V\<close> differs from it, in the range
  between the two offsets.
\<close>

definition settled :: "check_config \<Rightarrow> worker \<Rightarrow> byte list \<Rightarrow> bool" where
  "settled c wk D \<longleftrightarrow> length (file_buffer wk) = nat (upper_bound_write c) \<and>
     length (unsynced_buf wk) = nat (upper_bound_write c) \<and>
     w_file_size wk = int (length D) \<and> int (length D) \<le> upper_bound_write c \<and>
     (\<forall>j < nat (upper_bound_write c). file_buffer wk ! j = byte_at D j)"

definition pending :: "check_config \<Rightarrow> worker \<Rightarrow> byte list \<Rightarrow> byte list \<Rightarrow> bool" where
  "pending c wk V D \<longleftrightarrow>
     (last_off_check_bottom wk = - 1 \<and> last_off_check_up wk = - 1 \<or>
      0 \<le> last_off_check_bottom wk \<and> last_off_check_bottom wk \<le> last_off_check_up wk \<and>
      last_off_check_up wk < upper_bound_write c) \<and>
     (\<forall>j < nat (upper_bound_write c). unsynced_buf wk ! j \<noteq> 0 \<longrightarrow>
        last_off_check_bottom wk \<le> int j \<and> int j \<le> last_off_check_up wk) \<and>
     length V = max (length D) (nat (last_off_check_up wk + 1)) \<and>
     (\<forall>j < nat (upper_bound_write c).
        byte_at V j = (if unsynced_buf wk ! j \<noteq> 0 then unsynced_buf wk ! j else byte_at D j))"

lemma mem_fill_simps:
  assumes "0 \<le> a" and "0 \<le> n" and "a + n \<le> int (length buf)"
  shows "length (mem_fill buf a ch n) = length buf"
    and "j < length buf \<Longrightarrow> mem_fill buf a ch n ! j =
      (if a \<le> int j \<and> int j < a + n then ch else buf ! j)"
  using assms by (auto simp: mem_fill_def nth_append min_def nat_add_distrib)

lemma pending_settled: "pending c wk D D" if "settled c wk D" "last_off_check_bottom wk = - 1" "last_off_check_up wk = - 1"
    "\<forall>j < nat (upper_bound_write c). unsynced_buf wk ! j = 0"
  using that by (simp add: pending_def settled_def)

lemma pending_forget:
  assumes "settled c wk D"
  shows "settled c (forget_unsynced c wk) D" and "pending c (forget_unsynced c wk) D D"
proof -
  show s: "settled c (forget_unsynced c wk) D" using assms by (simp add: settled_def forget_unsynced_def)
  show "pending c (forget_unsynced c wk) D D"
    by (rule pending_settled [OF s]) (simp_all add: forget_unsynced_def)
qed

lemma pending_length: "pending c wk V D \<Longrightarrow> settled c wk D \<Longrightarrow> int (length V) \<le> upper_bound_write c"
  by (auto simp: pending_def settled_def)

lemma tracked_write:
  assumes s: "settled c wk D" and p: "pending c wk V D" and r: "0 \<le> bt" "bt \<le> up" "up < upper_bound_write c"
    and ch: "ch \<noteq> 0"
  defines "V' \<equiv> file_write V bt (replicate (nat (up - bt + 1)) ch)"
  shows "settled c (track_write bt up ch wk) D" and "pending c (track_write bt up ch wk) V' D"
proof -
  have len: "length (unsynced_buf wk) = nat (upper_bound_write c)" using s by (simp add: settled_def)
  note m = mem_fill_simps [where a = bt and n = "up - bt + 1" and buf = "unsynced_buf wk" and ch = ch]
  have fill: "length (mem_fill (unsynced_buf wk) bt ch (up - bt + 1)) = nat (upper_bound_write c)"
    "\<And>j. j < nat (upper_bound_write c) \<Longrightarrow> mem_fill (unsynced_buf wk) bt ch (up - bt + 1) ! j =
      (if bt \<le> int j \<and> int j < up + 1 then ch else unsynced_buf wk ! j)"
    using m len r by (simp_all add: algebra_simps)
  show "settled c (track_write bt up ch wk) D"
    using s fill(1) by (simp add: settled_def track_write_def Let_def split: prod.split)
  have lv: "length V' = max (length V) (nat (up + 1))"
    using r by (auto simp: V'_def file_write_length max_def)
  have bv: "byte_at V' j = (if bt \<le> int j \<and> int j < up + 1 then ch else byte_at V j)" for j
    using r by (auto simp: V'_def byte_at_file_write)
  have w: "unsynced_buf (track_write bt up ch wk) = mem_fill (unsynced_buf wk) bt ch (up - bt + 1)"
    "last_off_check_bottom (track_write bt up ch wk) =
      (if last_off_check_bottom wk = - 1 then bt else min (last_off_check_bottom wk) bt)"
    "last_off_check_up (track_write bt up ch wk) =
      (if last_off_check_bottom wk = - 1 then up else max (last_off_check_up wk) up)"
    using p r by (auto simp: track_write_def Let_def pending_def)
  show "pending c (track_write bt up ch wk) V' D"
    unfolding pending_def w lv bv
  proof (intro conjI)
    show "\<forall>j<nat (upper_bound_write c). mem_fill (unsynced_buf wk) bt ch (up - bt + 1) ! j \<noteq> 0 \<longrightarrow>
        (if last_off_check_bottom wk = - 1 then bt else min (last_off_check_bottom wk) bt) \<le> int j \<and>
        int j \<le> (if last_off_check_bottom wk = - 1 then up else max (last_off_check_up wk) up)"
      using p fill(2) by (auto simp: pending_def)
    show "max (length V) (nat (up + 1)) = max (length D)
        (nat ((if last_off_check_bottom wk = - 1 then up else max (last_off_check_up wk) up) + 1))"
      using p r by (auto simp: pending_def max_def)
    show "\<forall>j<nat (upper_bound_write c). (if bt \<le> int j \<and> int j < up + 1 then ch else byte_at V j) =
        (if mem_fill (unsynced_buf wk) bt ch (up - bt + 1) ! j \<noteq> 0 then mem_fill (unsynced_buf wk) bt ch (up - bt + 1) ! j
         else byte_at D j)"
      using p fill(2) ch by (auto simp: pending_def)
  qed (use p r in \<open>auto simp: pending_def\<close>)
qed

lemma track_write_up:
  "pending c wk V D \<Longrightarrow> 0 \<le> up \<Longrightarrow> last_off_check_up (track_write bt up ch wk) \<noteq> - 1"
  by (auto simp: track_write_def Let_def)

lemma fold_merge:
  "length (fold (\<lambda>i f. if u ! nat i \<noteq> 0 then f[nat i := u ! nat i] else f) is f) = length f"
  "\<forall>i \<in> set is. 0 \<le> i \<Longrightarrow> j < length f \<Longrightarrow>
    fold (\<lambda>i f. if u ! nat i \<noteq> 0 then f[nat i := u ! nat i] else f) is f ! j =
      (if int j \<in> set is \<and> u ! j \<noteq> 0 then u ! j else f ! j)"
proof (induction "is" arbitrary: f)
  case (Cons i "is")
  { case 1 show ?case using Cons.IH(1) by simp }
  { case 2
    then have "nat i = j \<longleftrightarrow> i = int j" by auto
    then show ?case using 2 Cons.IH(2) by (auto simp: nth_list_update) }
qed simp_all

lemma tracked_sync:
  assumes s: "settled c wk D" and p: "pending c wk V D" and up: "last_off_check_up wk \<noteq> - 1"
  shows "settled c (track_sync c wk) V" and "pending c (track_sync c wk) V V"
proof -
  define wk' where "wk' = wk\<lparr>file_buffer := merge_unsynced wk,
      w_file_size := max (w_file_size wk) (last_off_check_up wk + 1)\<rparr>"
  have len: "length (file_buffer wk) = nat (upper_bound_write c)" using s by (simp add: settled_def)
  have nonneg: "\<forall>i \<in> set [last_off_check_bottom wk .. last_off_check_up wk]. 0 \<le> i"
    using p up by (auto simp: pending_def)
  have "merge_unsynced wk ! j = byte_at V j" if "j < nat (upper_bound_write c)" for j
  proof -
    have "merge_unsynced wk ! j = (if int j \<in> set [last_off_check_bottom wk .. last_off_check_up wk] \<and>
        unsynced_buf wk ! j \<noteq> 0 then unsynced_buf wk ! j else file_buffer wk ! j)"
      unfolding merge_unsynced_def by (rule fold_merge(2) [OF nonneg]) (use that len in simp)
    then show ?thesis using s p that by (auto simp: settled_def pending_def)
  qed
  then have "settled c wk' V"
    using s p pending_length [OF p s]
    by (auto simp: settled_def wk'_def merge_unsynced_def fold_merge(1) pending_def)
  from pending_forget [OF this] show "settled c (track_sync c wk) V" "pending c (track_sync c wk) V V"
    by (simp_all add: track_sync_def wk'_def)
qed

section \<open>The contract the checker needs\<close>

text \<open>
  That of the calls, for files of at most \<open>upper_bound_write\<close> bytes, and the files of the threads are
  among the paths.
\<close>

definition only_file :: "('k \<Rightarrow> files_view) \<Rightarrow> ('k \<Rightarrow> fds_view) \<Rightarrow> string \<Rightarrow> 'k \<Rightarrow> 'k \<Rightarrow> bool" where
  "only_file kfile kfd p k k' \<longleftrightarrow> (\<forall>q. q \<noteq> p \<longrightarrow> kfile k' q = kfile k q) \<and>
     (\<forall>fd q m. q \<noteq> p \<longrightarrow> (kfd k' fd = Some (q, m) \<longleftrightarrow> kfd k fd = Some (q, m)))"

locale checked_calls = file_calls K paths B "upper_bound_write c" kinv kfile kfd
  for K :: "'k calls" and c :: check_config and paths :: "string set" and B :: int
    and kinv :: "'k \<Rightarrow> bool" and kfile :: "'k \<Rightarrow> files_view" and kfd :: "'k \<Rightarrow> fds_view" +
  assumes own_path: "kinv k \<Longrightarrow> tid < nat (nr_threads c) \<Longrightarrow> worker_path tid \<in> paths"

section \<open>The invariant\<close>

fun in_round :: "worker_pc \<Rightarrow> bool" where
  "in_round Check_close \<longleftrightarrow> True"
| "in_round Check_open \<longleftrightarrow> True"
| "in_round Check_read \<longleftrightarrow> True"
| "in_round Checked \<longleftrightarrow> True"
| "in_round Do_write \<longleftrightarrow> True"
| "in_round (Read_back bt up ch fs) \<longleftrightarrow> True"
| "in_round Do_sync \<longleftrightarrow> True"
| "in_round Failed \<longleftrightarrow> True"
| "in_round _ \<longleftrightarrow> False"

text \<open>Who has the lock of the loop. This needs nothing of the system calls.\<close>

definition locks_ok :: "check_config \<Rightarrow> 'k checker \<Rightarrow> bool" where
  "locks_ok c s \<longleftrightarrow> length (workers s) = nat (nr_threads c) \<and>
     nat (nr_threads c) \<le> length (thread_check_file s) \<and> nat (nr_threads c) \<le> length (thread_op_count s) \<and>
     loop_shared s = length (filter (in_round \<circ> w_pc) (workers s)) \<and>
     (loop_unique s \<longleftrightarrow> monitor s = Clearing \<or> monitor s = Releasing \<or> monitor s = Monitor_failed) \<and>
     (loop_unique s \<longrightarrow> loop_shared s = 0) \<and>
     (monitor s = Monitor_finished \<longrightarrow> stop_workers s \<and> last_iteration s)"

text \<open>
  What a thread may rely on at each place. A file whose unsynced bytes are \<open>lost\<close> is the durable
  one, and \<open>flag\<close> makes the thread check it before it goes on.
\<close>

fun content_ok :: "check_config \<Rightarrow> worker_pc \<Rightarrow> bool \<Rightarrow> bool \<Rightarrow> worker \<Rightarrow> byte list \<Rightarrow> byte list \<Rightarrow> bool" where
  "content_ok c Loop_test lost flag wk V D \<longleftrightarrow> (if lost then V = D else pending c wk V D)"
| "content_ok c Loop_wait lost flag wk V D \<longleftrightarrow> (if lost then V = D else pending c wk V D)"
| "content_ok c Check_close lost flag wk V D \<longleftrightarrow> V = D"
| "content_ok c Check_open lost flag wk V D \<longleftrightarrow> V = D"
| "content_ok c Check_read lost flag wk V D \<longleftrightarrow> V = D"
| "content_ok c Checked lost flag wk V D \<longleftrightarrow> \<not> flag \<and> pending c wk V D"
| "content_ok c Do_write lost flag wk V D \<longleftrightarrow> \<not> flag \<and> pending c wk V D"
| "content_ok c (Read_back bt up ch fs) lost flag wk V D \<longleftrightarrow>
     \<not> flag \<and> 0 \<le> bt \<and> bt \<le> up \<and> up < upper_bound_write c \<and> ch \<noteq> 0 \<and>
     (\<exists>V0. V = file_write V0 bt (replicate (nat (up - bt + 1)) ch) \<and> pending c wk V0 D)"
| "content_ok c Do_sync lost flag wk V D \<longleftrightarrow> \<not> flag \<and> pending c wk V D \<and> last_off_check_up wk \<noteq> - 1"
| "content_ok c _ lost flag wk V D \<longleftrightarrow> True"

fun has_fd :: "worker_pc \<Rightarrow> bool" where
  "has_fd Check_open \<longleftrightarrow> False"
| "has_fd Unlink \<longleftrightarrow> False"
| "has_fd Finished \<longleftrightarrow> False"
| "has_fd Failed \<longleftrightarrow> False"
| "has_fd _ \<longleftrightarrow> True"

definition worker_ok ::
  "check_config \<Rightarrow> files_view \<Rightarrow> fds_view \<Rightarrow> bool \<Rightarrow> bool \<Rightarrow> string \<Rightarrow> worker \<Rightarrow> bool" where
  "worker_ok c files fds lost flag p wk \<longleftrightarrow> w_pc wk \<noteq> Failed \<and>
     (\<forall>fd m. fds fd = Some (p, m) \<longleftrightarrow> has_fd (w_pc wk) \<and> fd = fd_operations wk \<and> m = O_RDWR) \<and>
     (w_pc wk \<noteq> Finished \<longrightarrow> (\<exists>V D. files p = Some (V, D) \<and>
        (w_pc wk \<noteq> Leave \<and> w_pc wk \<noteq> Unlink \<longrightarrow> settled c wk D) \<and> content_ok c (w_pc wk) lost flag wk V D))"

definition check_inv ::
  "check_config \<Rightarrow> ('k \<Rightarrow> bool) \<Rightarrow> ('k \<Rightarrow> files_view) \<Rightarrow> ('k \<Rightarrow> fds_view) \<Rightarrow> 'k checker \<Rightarrow> bool" where
  "check_inv c kinv kfile kfd s \<longleftrightarrow> locks_ok c s \<and> kinv (kernel s) \<and> monitor s \<noteq> Monitor_failed \<and>
     (\<forall>tid < nat (nr_threads c). worker_ok c (kfile (kernel s)) (kfd (kernel s))
        (thread_check_file s ! tid \<or> monitor s = Releasing) (thread_check_file s ! tid)
        (worker_path tid) (workers s ! tid))"

section \<open>The lock of the loop\<close>

lemma length_filter_update:
  "i < length xs \<Longrightarrow> length (filter P (xs[i := x])) + of_bool (P (xs ! i)) = length (filter P xs) + of_bool (P x)"
proof (induction xs arbitrary: i)
  case (Cons y ys)
  show ?case
  proof (cases i)
    case (Suc j)
    then show ?thesis using Cons.IH [of j] Cons.prems by auto
  qed simp
qed simp

lemma at_worker_simps [simp]:
  "workers (at_worker tid f s) = (workers s)[tid := f (workers s ! tid)]"
  "thread_op_count (at_worker tid f s) = thread_op_count s"
  "thread_check_file (at_worker tid f s) = thread_check_file s"
  "stop_workers (at_worker tid f s) = stop_workers s" "last_iteration (at_worker tid f s) = last_iteration s"
  "can_do_work (at_worker tid f s) = can_do_work s" "loop_shared (at_worker tid f s) = loop_shared s"
  "loop_unique (at_worker tid f s) = loop_unique s" "monitor (at_worker tid f s) = monitor s"
  "kernel (at_worker tid f s) = kernel s"
  by (simp_all add: at_worker_def)

lemma unlock_loop_simps [simp]:
  "workers (unlock_loop s) = workers s" "thread_op_count (unlock_loop s) = thread_op_count s"
  "thread_check_file (unlock_loop s) = thread_check_file s" "loop_shared (unlock_loop s) = loop_shared s - 1"
  "stop_workers (unlock_loop s) = stop_workers s" "last_iteration (unlock_loop s) = last_iteration s"
  "loop_unique (unlock_loop s) = loop_unique s" "monitor (unlock_loop s) = monitor s" "kernel (unlock_loop s) = kernel s"
  by (simp_all add: unlock_loop_def)

lemma tracking_pc [simp]:
  "w_pc (forget_unsynced c wk) = w_pc wk" "w_pc (track_write bt up ch wk) = w_pc wk" "w_pc (track_sync c wk) = w_pc wk"
  "fd_operations (forget_unsynced c wk) = fd_operations wk" "fd_operations (track_write bt up ch wk) = fd_operations wk"
  "fd_operations (track_sync c wk) = fd_operations wk"
  by (simp_all add: forget_unsynced_def track_write_def track_sync_def Let_def split: prod.split)

text \<open>A step of a thread changes its own entries, and holds the lock exactly while it is in a round.\<close>

definition moved :: "nat \<Rightarrow> 'k checker \<Rightarrow> worker \<Rightarrow> bool \<Rightarrow> 'k checker \<Rightarrow> bool" where
  "moved tid s wk' flag' s' \<longleftrightarrow> workers s' = (workers s)[tid := wk'] \<and>
     thread_check_file s' = (thread_check_file s)[tid := flag'] \<and>
     length (thread_op_count s') = length (thread_op_count s) \<and>
     monitor s' = monitor s \<and> loop_unique s' = loop_unique s \<and>
     stop_workers s' = stop_workers s \<and> last_iteration s' = last_iteration s \<and>
     loop_shared s' = loop_shared s + of_bool (in_round (w_pc wk')) - of_bool (in_round (w_pc (workers s ! tid))) \<and>
     (in_round (w_pc wk') \<longrightarrow> in_round (w_pc (workers s ! tid)) \<or> \<not> loop_unique s)"

lemma move_own:
  assumes "tid < length (workers s)" and "tid < length (thread_check_file s)"
    and "worker_step K c tid r s = Some s'"
  shows "moved tid s (workers s' ! tid) (thread_check_file s' ! tid) s'"
proof -
  have same: "thread_check_file s = (thread_check_file s)[tid := b] \<longleftrightarrow> thread_check_file s ! tid = b" for b
  proof
    assume "thread_check_file s = (thread_check_file s)[tid := b]"
    from arg_cong [OF this, of "\<lambda>xs. xs ! tid"] show "thread_check_file s ! tid = b" using assms(2) by simp
  next
    assume e: "thread_check_file s ! tid = b"
    show "thread_check_file s = (thread_check_file s)[tid := b]" unfolding e [symmetric] list_update_id ..
  qed
  show ?thesis
  proof (cases "w_pc (workers s ! tid)")
    case Loop_wait
    then show ?thesis using assms
      by (auto simp: worker_step_def enter_loop_def goto_def moved_def same split: if_splits)
  next
    case Check_read
    then show ?thesis using assms
      by (auto simp: worker_step_def check_content_def goto_def moved_def Let_def split: prod.splits if_splits)
  next
    case Do_write
    then show ?thesis using assms
      by (auto simp: worker_step_def write_range_def goto_def moved_def Let_def split: prod.splits if_splits option.splits)
  next
    case (Read_back bt up ch fs)
    then show ?thesis using assms
      by (auto simp: worker_step_def read_range_def goto_def moved_def Let_def split: prod.splits if_splits)
  next
    case Do_sync
    then show ?thesis using assms
      by (auto simp: worker_step_def sync_file_def goto_def moved_def Let_def split: prod.splits if_splits)
  qed (use assms in \<open>auto simp: worker_step_def goto_def moved_def Let_def split: prod.splits if_splits\<close>)
qed

lemma moved_locks:
  assumes l: "locks_ok c s" and tid: "tid < nat (nr_threads c)" and m: "moved tid s wk' flag' s'"
  shows "locks_ok c s'"
proof -
  have len: "tid < length (workers s)" using l tid by (simp add: locks_ok_def)
  have n: "loop_shared s = length (filter (in_round \<circ> w_pc) (workers s))" using l by (simp add: locks_ok_def)
  have w: "workers s' = (workers s)[tid := wk']" and sh: "loop_shared s' =
      loop_shared s + of_bool (in_round (w_pc wk')) - of_bool (in_round (w_pc (workers s ! tid)))"
    using m by (simp_all add: moved_def)
  have count: "length (filter (in_round \<circ> w_pc) (workers s')) + of_bool (in_round (w_pc (workers s ! tid))) =
      loop_shared s + of_bool (in_round (w_pc wk'))"
    using length_filter_update [OF len, of "in_round \<circ> w_pc" wk'] unfolding w n by simp
  have pos: "0 < loop_shared s" if "in_round (w_pc (workers s ! tid))"
  proof -
    have "workers s ! tid \<in> set (filter (in_round \<circ> w_pc) (workers s))" using that len by simp
    then show ?thesis unfolding n by (metis length_pos_if_in_set)
  qed
  have new: "loop_shared s' = length (filter (in_round \<circ> w_pc) (workers s'))"
    using count sh pos by (cases "in_round (w_pc (workers s ! tid))") simp_all
  have "loop_shared s' = 0" if u: "loop_unique s"
  proof -
    have z: "loop_shared s = 0" using l u unfolding locks_ok_def by blast
    then have "\<not> in_round (w_pc (workers s ! tid))" using pos by auto
    then show ?thesis using m u z by (auto simp: moved_def)
  qed
  moreover have "length (workers s) = nat (nr_threads c)" "nat (nr_threads c) \<le> length (thread_check_file s)"
    "nat (nr_threads c) \<le> length (thread_op_count s)"
    "loop_unique s \<longleftrightarrow> monitor s = Clearing \<or> monitor s = Releasing \<or> monitor s = Monitor_failed"
    "monitor s = Monitor_finished \<longrightarrow> stop_workers s \<and> last_iteration s"
    using l unfolding locks_ok_def by blast+
  ultimately show ?thesis using m unfolding locks_ok_def new [symmetric] by (simp add: moved_def)
qed

lemma monitor_locks:
  assumes "locks_ok c s" and "monitor_step K c over s = Some s'"
  shows "locks_ok c s'"
  using assms
  by (cases "monitor s")
    (auto simp: locks_ok_def monitor_step_def stop_all_def Let_def split: if_splits prod.splits option.splits)

lemma check_step_locks:
  assumes l: "locks_ok c s" and step: "check_step K c s s'"
  shows "locks_ok c s'"
  using step
proof (cases rule: check_step.cases)
  case (worker_moves tid r)
  have "tid < length (workers s)" "tid < length (thread_check_file s)"
    using l worker_moves(1) by (auto simp: locks_ok_def)
  from moved_locks [OF l worker_moves(1) move_own [OF this worker_moves(3)]] show ?thesis .
next
  case (monitor_moves over)
  then show ?thesis using monitor_locks [OF l] by blast
qed

lemma start_locks:
  assumes "length fds = nat (nr_threads c)" and "nr_threads c \<le> MAX_THREADS"
  shows "locks_ok c (check_start c fds k)"
  using assms by (simp add: locks_ok_def check_start_def fresh_worker_def MAX_THREADS_def)

lemma nobody_in_round:
  assumes "locks_ok c s" and "loop_unique s" and "tid < nat (nr_threads c)"
  shows "\<not> in_round (w_pc (workers s ! tid))"
proof -
  have "length (filter (in_round \<circ> w_pc) (workers s)) = 0" using assms(1,2) by (auto simp: locks_ok_def)
  then have "filter (in_round \<circ> w_pc) (workers s) = []" by blast
  then show ?thesis using assms(1,3) by (auto simp: locks_ok_def filter_empty_conv)
qed

lemma check_runs_locks: "(check_step K c)\<^sup>*\<^sup>* s s' \<Longrightarrow> locks_ok c s \<Longrightarrow> locks_ok c s'"
  by (induction rule: rtranclp_induct) (blast intro: check_step_locks)+

section \<open>Progress\<close>

text \<open>
  A thread can always take a step, unless it is done or waits for the lock, as long as there are
  two different offsets to draw.
\<close>

definition some_draw :: draw where
  "some_draw = \<lparr>d_ranges = [(0, 1)], d_ch = 65, d_fs = 0\<rparr>"

lemma some_draw_ok: "2 \<le> upper_bound_write c \<Longrightarrow> draw_ok c some_draw"
  by (simp add: draw_ok_def some_draw_def)

lemma worker_moves_on:
  assumes "w_pc (workers s ! tid) \<notin> {Finished, Failed}"
    and "w_pc (workers s ! tid) = Loop_wait \<Longrightarrow> \<not> loop_unique s \<and> stop_workers s"
  shows "\<exists>s'. worker_step K c tid some_draw s = Some s'"
  using assms
  by (cases "w_pc (workers s ! tid)")
    (auto simp: worker_step_def enter_loop_def must_wait_def write_range_def some_draw_def Let_def split: prod.splits)

lemma never_stuck:
  assumes l: "locks_ok c s" and U: "2 \<le> upper_bound_write c" and ok: "\<not> check_failed s"
    and on: "\<not> (monitor s = Monitor_finished \<and> (\<forall>wk \<in> set (workers s). w_pc wk = Finished))"
  shows "\<exists>s'. check_step K c s s'"
proof -
  have len: "length (workers s) = nat (nr_threads c)" using l by (simp add: locks_ok_def)
  have step: "\<exists>s'. check_step K c s s'"
    if wk: "wk \<in> set (workers s)" "w_pc wk \<noteq> Finished" "w_pc wk = Loop_wait \<Longrightarrow> \<not> loop_unique s \<and> stop_workers s" for wk
  proof -
    obtain tid where tid: "tid < nat (nr_threads c)" "workers s ! tid = wk"
      using wk(1) len by (auto simp: in_set_conv_nth)
    have "w_pc wk \<noteq> Failed" using ok wk(1) by (auto simp: check_failed_def)
    then obtain s' where "worker_step K c tid some_draw s = Some s'"
      using worker_moves_on [of s tid K c] wk(2,3) tid(2) by auto
    from worker_moves [OF tid(1) some_draw_ok [OF U] this] show ?thesis ..
  qed
  show ?thesis
  proof (cases "monitor s")
    case Sleeping
    show ?thesis
    proof (cases "loop_shared s = 0")
      case True
      then have "monitor_step K c True s \<noteq> None" using l Sleeping by (simp add: monitor_step_def locks_ok_def)
      then show ?thesis using monitor_moves by blast
    next
      case False
      then have "filter (in_round \<circ> w_pc) (workers s) \<noteq> []" using l by (auto simp: locks_ok_def)
      then obtain wk where "wk \<in> set (workers s)" "in_round (w_pc wk)" by (auto simp: filter_empty_conv)
      then show ?thesis by (intro step [of wk]) auto
    qed
  next
    case Clearing
    then have "monitor_step K c True s \<noteq> None" by (simp add: monitor_step_def split: prod.splits option.splits)
    then show ?thesis using monitor_moves by blast
  next
    case Releasing
    then have "monitor_step K c True s \<noteq> None" by (simp add: monitor_step_def Let_def)
    then show ?thesis using monitor_moves by blast
  next
    case Monitor_finished
    then obtain wk where "wk \<in> set (workers s)" "w_pc wk \<noteq> Finished" using on by blast
    then show ?thesis using l Monitor_finished by (intro step [of wk]) (auto simp: locks_ok_def)
  next
    case Monitor_failed
    then show ?thesis using ok by (simp add: check_failed_def)
  qed
qed

text \<open>Once the monitor has finished, how many steps a thread takes at most.\<close>

fun steps_left :: "worker_pc \<Rightarrow> nat" where
  "steps_left Loop_wait = 7"
| "steps_left Check_close = 6"
| "steps_left Check_open = 5"
| "steps_left Check_read = 4"
| "steps_left Checked = 3"
| "steps_left Do_write = 6"
| "steps_left (Read_back bt up ch fs) = 5"
| "steps_left Do_sync = 4"
| "steps_left Loop_test = 3"
| "steps_left Leave = 2"
| "steps_left Unlink = 1"
| "steps_left _ = 0"

definition work_left :: "'k checker \<Rightarrow> nat" where
  "work_left s = sum_list (map (steps_left \<circ> w_pc) (workers s))"

lemma worker_step_left:
  assumes "tid < length (workers s)" and "stop_workers s" and "last_iteration s" and "worker_step K c tid r s = Some s'"
  shows "steps_left (w_pc (workers s' ! tid)) < steps_left (w_pc (workers s ! tid))"
  using assms
  by (cases "w_pc (workers s ! tid)")
    (auto simp: worker_step_def enter_loop_def check_content_def write_range_def read_range_def sync_file_def goto_def
      Let_def split: prod.splits if_splits option.splits)

lemma sum_list_smaller:
  fixes f :: "'a \<Rightarrow> nat"
  assumes "i < length xs" and "f x < f (xs ! i)"
  shows "sum_list (map f (xs[i := x])) < sum_list (map f xs)"
  using assms
proof (induction xs arbitrary: i)
  case (Cons y ys)
  then show ?case by (cases i) auto
qed simp

lemma finished_step:
  assumes l: "locks_ok c s" and m: "monitor s = Monitor_finished" and step: "check_step K c s s'"
  shows "monitor s' = Monitor_finished" "work_left s' < work_left s"
proof -
  obtain tid r where t: "tid < nat (nr_threads c)" "worker_step K c tid r s = Some s'"
    using step m by (cases rule: check_step.cases) (auto simp: monitor_step_def)
  have len: "tid < length (workers s)" "tid < length (thread_check_file s)" using l t(1) by (auto simp: locks_ok_def)
  have mv: "moved tid s (workers s' ! tid) (thread_check_file s' ! tid) s'" by (rule move_own [OF len t(2)])
  then show "monitor s' = Monitor_finished" using m by (simp add: moved_def)
  have "stop_workers s" "last_iteration s" using l m by (simp_all add: locks_ok_def)
  from worker_step_left [OF len(1) this t(2)]
  have "sum_list (map (steps_left \<circ> w_pc) ((workers s)[tid := workers s' ! tid])) < work_left s"
    unfolding work_left_def by (intro sum_list_smaller [OF len(1)]) simp
  moreover have "workers s' = (workers s)[tid := workers s' ! tid]" using mv unfolding moved_def by blast
  ultimately show "work_left s' < work_left s" unfolding work_left_def by metis
qed

lemma finished_runs:
  "(check_step K c ^^ n) s s' \<Longrightarrow> locks_ok c s \<Longrightarrow> monitor s = Monitor_finished \<Longrightarrow> n + work_left s' \<le> work_left s"
proof (induction n arbitrary: s)
  case (Suc n)
  obtain t where t: "check_step K c s t" "(check_step K c ^^ n) t s'" using relpowp_Suc_D2 [OF Suc.prems(1)] by blast
  have "n + work_left s' \<le> work_left t"
    by (rule Suc.IH [OF t(2) check_step_locks [OF Suc.prems(2) t(1)] finished_step(1) [OF Suc.prems(2,3) t(1)]])
  then show ?case using finished_step(2) [OF Suc.prems(2,3) t(1)] by simp
qed simp

lemma work_left_bound: "work_left s \<le> 7 * length (workers s)"
proof -
  have "steps_left pc \<le> 7" for pc by (cases pc) simp_all
  then have "sum_list (map (steps_left \<circ> w_pc) xs) \<le> 7 * length xs" for xs by (induction xs) (simp_all add: add_mono)
  then show ?thesis by (simp add: work_left_def)
qed

section \<open>No assertion fails\<close>

lemma worker_path_inj: "worker_path i = worker_path j \<longleftrightarrow> i = j"
  using to_string_inj [of "int i" "int j"] by (auto simp: worker_path_def)

lemma check_invD:
  assumes "check_inv c kinv kfile kfd s"
  shows "locks_ok c s" "kinv (kernel s)" "monitor s \<noteq> Monitor_failed"
    "tid < nat (nr_threads c) \<Longrightarrow> worker_ok c (kfile (kernel s)) (kfd (kernel s))
       (thread_check_file s ! tid \<or> monitor s = Releasing) (thread_check_file s ! tid) (worker_path tid) (workers s ! tid)"
    "tid < nat (nr_threads c) \<Longrightarrow> tid < length (workers s) \<and> tid < length (thread_check_file s)"
    "loop_unique s \<longleftrightarrow> monitor s = Clearing \<or> monitor s = Releasing"
  using assms unfolding check_inv_def locks_ok_def by auto

lemma in_round_calm:
  assumes "check_inv c kinv kfile kfd s" and "tid < nat (nr_threads c)" and "in_round (w_pc (workers s ! tid))"
  shows "monitor s \<noteq> Releasing"
  using nobody_in_round [OF check_invD(1) [OF assms(1)] _ assms(2)] assms(3) check_invD(6) [OF assms(1)] by blast

lemma worker_ok_elsewhere:
  assumes "worker_ok c (kfile k) (kfd k) lost flag q wk" and "only_file kfile kfd p k k'" and "q \<noteq> p"
  shows "worker_ok c (kfile k') (kfd k') lost flag q wk"
  using assms unfolding worker_ok_def only_file_def by simp

lemma place_simps [simp]:
  "settled c (wk\<lparr>w_pc := pc\<rparr>) D = settled c wk D" "pending c (wk\<lparr>w_pc := pc\<rparr>) V D = pending c wk V D"
  "settled c (wk\<lparr>fd_operations := fd\<rparr>) D = settled c wk D" "pending c (wk\<lparr>fd_operations := fd\<rparr>) V D = pending c wk V D"
  by (simp_all add: settled_def pending_def)

lemma worker_okI:
  assumes "files p = Some (V, D)" and "settled c wk D" and "content_ok c (w_pc wk) lost flag wk V D"
    and "\<And>fd m. fds fd = Some (p, m) \<longleftrightarrow> has_fd (w_pc wk) \<and> fd = fd_operations wk \<and> m = O_RDWR" and "w_pc wk \<noteq> Failed"
  shows "worker_ok c files fds lost flag p wk"
  using assms by (simp add: worker_ok_def)

text \<open>A step of a thread that leaves the files of the others alone only has to be right for its own.\<close>

lemma worker_result:
  assumes inv: "check_inv c kinv kfile kfd s" and tid: "tid < nat (nr_threads c)" and step: "worker_step K c tid r s = Some s'"
    and k: "kinv (kernel s')" "only_file kfile kfd (worker_path tid) (kernel s) (kernel s')"
    and own: "worker_ok c (kfile (kernel s')) (kfd (kernel s')) (thread_check_file s' ! tid \<or> monitor s = Releasing)
      (thread_check_file s' ! tid) (worker_path tid) (workers s' ! tid)"
  shows "check_inv c kinv kfile kfd s'"
proof -
  note I = check_invD [OF inv]
  have m: "moved tid s (workers s' ! tid) (thread_check_file s' ! tid) s'"
    by (rule move_own [OF _ _ step]) (use I(5) [OF tid] in simp_all)
  have w: "monitor s' = monitor s" "workers s' = (workers s)[tid := workers s' ! tid]"
    "thread_check_file s' = (thread_check_file s)[tid := thread_check_file s' ! tid]"
    using m unfolding moved_def by blast+
  have "workers s' ! i = workers s ! i" "thread_check_file s' ! i = thread_check_file s ! i" if "i \<noteq> tid" for i
    using that by (metis w(2) nth_list_update_neq, metis w(3) nth_list_update_neq)
  note same = w(1) this
  have "worker_ok c (kfile (kernel s')) (kfd (kernel s')) (thread_check_file s' ! i \<or> monitor s' = Releasing)
      (thread_check_file s' ! i) (worker_path i) (workers s' ! i)" if i: "i < nat (nr_threads c)" for i
  proof (cases "i = tid")
    case True
    then show ?thesis using own same(1) by simp
  next
    case False
    then have "worker_path i \<noteq> worker_path tid" by (simp add: worker_path_inj)
    then show ?thesis using worker_ok_elsewhere [OF I(4) [OF i] k(2)] same False by simp
  qed
  then show ?thesis
    unfolding check_inv_def using moved_locks [OF I(1) tid m] k(1) I(3) same(1) by (intro conjI) simp_all
qed

text \<open>Where a thread in a round is after its next step, when it goes on as intended.\<close>

fun next_place :: "worker_pc \<Rightarrow> worker_pc" where
  "next_place Check_close = Check_open"
| "next_place Check_open = Check_read"
| "next_place Check_read = Checked"
| "next_place Checked = Do_write"
| "next_place Do_write = Read_back 0 1 65 False"
| "next_place pc = pc"

context checked_calls begin

abbreviation good :: "'k checker \<Rightarrow> bool" where
  "good s \<equiv> check_inv c kinv kfile kfd s"

lemma tracked_file:
  assumes "good s" and "tid < nat (nr_threads c)" and "w_pc (workers s ! tid) \<notin> {Leave, Unlink, Finished}"
  obtains V D where "kfile (kernel s) (worker_path tid) = Some (V, D)" "settled c (workers s ! tid) D"
    "content_ok c (w_pc (workers s ! tid)) (thread_check_file s ! tid \<or> monitor s = Releasing)
       (thread_check_file s ! tid) (workers s ! tid) V D"
    "\<And>fd m. kfd (kernel s) fd = Some (worker_path tid, m) \<longleftrightarrow>
       has_fd (w_pc (workers s ! tid)) \<and> fd = fd_operations (workers s ! tid) \<and> m = O_RDWR"
  using check_invD(4) [OF assms(1,2)] assms(3) unfolding worker_ok_def by auto

lemma file_alone:
  "kfd k' = kfd k \<Longrightarrow> kfile k' = (kfile k)(p := x) \<Longrightarrow> only_file kfile kfd p k k'"
  "kfd k' = kfd k \<Longrightarrow> kfile k' = kfile k \<Longrightarrow> only_file kfile kfd p k k'"
  "kfd k fd = None \<Longrightarrow> kfd k' = (kfd k)(fd := Some (p, m)) \<Longrightarrow> kfile k' = kfile k \<Longrightarrow> only_file kfile kfd p k k'"
  "kfd k fd = Some (p, m) \<Longrightarrow> kfd k' = (kfd k)(fd := None) \<Longrightarrow> kfile k' = kfile k \<Longrightarrow> only_file kfile kfd p k k'"
  by (auto simp: only_file_def)

text \<open>One lemma per place.\<close>

lemma step_loop_test:
  assumes inv: "good s" and tid: "tid < nat (nr_threads c)" and pc: "w_pc (workers s ! tid) = Loop_test"
    and step: "worker_step K c tid r s = Some s'"
  shows "good s'"
proof -
  have len: "tid < length (workers s)" using check_invD(5) [OF inv tid] by simp
  obtain V D where f: "kfile (kernel s) (worker_path tid) = Some (V, D)" "settled c (workers s ! tid) D"
    "content_ok c Loop_test (thread_check_file s ! tid \<or> monitor s = Releasing) (thread_check_file s ! tid)
       (workers s ! tid) V D"
    "\<And>fd m. kfd (kernel s) fd = Some (worker_path tid, m) \<longleftrightarrow> fd = fd_operations (workers s ! tid) \<and> m = O_RDWR"
    by (rule tracked_file [OF inv tid]) (simp_all add: pc)
  have s': "s' = goto tid (if stop_workers s then Leave else Loop_wait) s" using step pc by (simp add: worker_step_def)
  show ?thesis
  proof (rule worker_result [OF inv tid step])
    show "worker_ok c (kfile (kernel s')) (kfd (kernel s')) (thread_check_file s' ! tid \<or> monitor s = Releasing)
        (thread_check_file s' ! tid) (worker_path tid) (workers s' ! tid)"
      by (rule worker_okI [of _ _ V D]) (use f len in \<open>auto simp: s' goto_def\<close>)
  qed (use check_invD(2) [OF inv] in \<open>simp_all add: s' goto_def file_alone\<close>)
qed

lemma step_loop_wait:
  assumes inv: "good s" and tid: "tid < nat (nr_threads c)" and pc: "w_pc (workers s ! tid) = Loop_wait"
    and step: "worker_step K c tid r s = Some s'"
  shows "good s'"
proof -
  have len: "tid < length (workers s)" using check_invD(5) [OF inv tid] by simp
  obtain V D where f: "kfile (kernel s) (worker_path tid) = Some (V, D)" "settled c (workers s ! tid) D"
    "content_ok c Loop_wait (thread_check_file s ! tid \<or> monitor s = Releasing) (thread_check_file s ! tid)
       (workers s ! tid) V D"
    "\<And>fd m. kfd (kernel s) fd = Some (worker_path tid, m) \<longleftrightarrow> fd = fd_operations (workers s ! tid) \<and> m = O_RDWR"
    by (rule tracked_file [OF inv tid]) (simp_all add: pc)
  have free: "\<not> loop_unique s" and s': "s' = goto tid (if thread_check_file s ! tid then Check_close else Checked)
      (s\<lparr>loop_shared := Suc (loop_shared s), thread_op_count := (thread_op_count s)[tid := thread_op_count s ! tid + 1]\<rparr>)"
    using step pc by (auto simp: worker_step_def enter_loop_def split: if_splits)
  have calm: "monitor s \<noteq> Releasing" using check_invD(6) [OF inv] free by blast
  show ?thesis
  proof (rule worker_result [OF inv tid step])
    show "worker_ok c (kfile (kernel s')) (kfd (kernel s')) (thread_check_file s' ! tid \<or> monitor s = Releasing)
        (thread_check_file s' ! tid) (worker_path tid) (workers s' ! tid)"
      by (rule worker_okI [of _ _ V D]) (use f len calm in \<open>auto simp: s' goto_def\<close>)
  qed (use check_invD(2) [OF inv] in \<open>simp_all add: s' goto_def file_alone\<close>)
qed

lemma step_check_close:
  assumes inv: "good s" and tid: "tid < nat (nr_threads c)" and pc: "w_pc (workers s ! tid) = Check_close"
    and step: "worker_step K c tid r s = Some s'"
  shows "good s'"
proof -
  have len: "tid < length (workers s)" using check_invD(5) [OF inv tid] by simp
  obtain V D where f: "kfile (kernel s) (worker_path tid) = Some (V, D)" "settled c (workers s ! tid) D"
    "V = D" "\<And>fd m. kfd (kernel s) fd = Some (worker_path tid, m) \<longleftrightarrow> fd = fd_operations (workers s ! tid) \<and> m = O_RDWR"
    by (rule tracked_file [OF inv tid]) (simp_all add: pc)
  have s': "s' = goto tid Check_open (s\<lparr>kernel := snd (c_close K (fd_operations (workers s ! tid)) (kernel s))\<rparr>)"
    using step pc by (simp add: worker_step_def)
  have fd: "kfd (kernel s) (fd_operations (workers s ! tid)) = Some (worker_path tid, O_RDWR)" using f(4) by simp
  from close_it [OF check_invD(2) [OF inv] own_path [OF check_invD(2) [OF inv] tid] f(1) fd]
  have k: "kinv (kernel s')" "kfile (kernel s') = kfile (kernel s)"
    "kfd (kernel s') = (kfd (kernel s))(fd_operations (workers s ! tid) := None)"
    by (auto simp: s' goto_def)
  show ?thesis
  proof (rule worker_result [OF inv tid step k(1) file_alone(4) [OF fd k(3,2)]])
    show "worker_ok c (kfile (kernel s')) (kfd (kernel s')) (thread_check_file s' ! tid \<or> monitor s = Releasing)
        (thread_check_file s' ! tid) (worker_path tid) (workers s' ! tid)"
      unfolding k(2,3) by (rule worker_okI [of _ _ V D]) (use f len in \<open>auto simp: s' goto_def\<close>)
  qed
qed

lemma step_check_open:
  assumes inv: "good s" and tid: "tid < nat (nr_threads c)" and pc: "w_pc (workers s ! tid) = Check_open"
    and step: "worker_step K c tid r s = Some s'"
  shows "good s'"
proof -
  have len: "tid < length (workers s)" using check_invD(5) [OF inv tid] by simp
  obtain V D where f: "kfile (kernel s) (worker_path tid) = Some (V, D)" "settled c (workers s ! tid) D"
    "V = D" "\<forall>fd m. kfd (kernel s) fd \<noteq> Some (worker_path tid, m)"
    by (rule tracked_file [OF inv tid]) (simp_all add: pc)
  obtain fd k' where o: "c_open K (worker_path tid) O_RDWR 0 (kernel s) = (fd, k')" "kinv k'" "kfile k' = kfile (kernel s)"
    "kfd (kernel s) fd = None" "kfd k' = (kfd (kernel s))(fd := Some (worker_path tid, O_RDWR))"
    using open_again [OF check_invD(2) [OF inv] own_path [OF check_invD(2) [OF inv] tid] f(1,4), of O_RDWR O_RDWR 0] by auto
  have s': "s' = goto tid Check_read (at_worker tid (\<lambda>wk. wk\<lparr>fd_operations := fd\<rparr>) (s\<lparr>kernel := k'\<rparr>))"
    using step pc o(1) by (simp add: worker_step_def)
  have k: "kernel s' = k'" by (simp add: s' goto_def)
  show ?thesis
  proof (rule worker_result [OF inv tid step])
    show "worker_ok c (kfile (kernel s')) (kfd (kernel s')) (thread_check_file s' ! tid \<or> monitor s = Releasing)
        (thread_check_file s' ! tid) (worker_path tid) (workers s' ! tid)"
      unfolding k o(3,5) by (rule worker_okI [of _ _ V D]) (use f len in \<open>auto simp: s' goto_def\<close>)
  qed (use o file_alone(3) [OF o(4,5,3)] in \<open>simp_all add: k\<close>)
qed

lemma settled_content:
  assumes "settled c wk D"
  shows "take (length D) (file_buffer wk) = D"
proof (rule nth_equalityI)
  show "length (take (length D) (file_buffer wk)) = length D" using assms by (auto simp: settled_def)
  show "take (length D) (file_buffer wk) ! j = D ! j" if "j < length (take (length D) (file_buffer wk))" for j
    using that assms by (auto simp: settled_def byte_at_def)
qed

lemma step_check_read:
  assumes inv: "good s" and tid: "tid < nat (nr_threads c)" and pc: "w_pc (workers s ! tid) = Check_read"
    and step: "worker_step K c tid r s = Some s'"
  shows "good s'"
proof -
  let ?wk = "workers s ! tid"
  have len: "tid < length (workers s)" "tid < length (thread_check_file s)" using check_invD(5) [OF inv tid] by simp_all
  have calm: "monitor s \<noteq> Releasing" using in_round_calm [OF inv tid] pc by simp
  obtain D where f: "kfile (kernel s) (worker_path tid) = Some (D, D)" "settled c ?wk D"
    "\<And>fd m. kfd (kernel s) fd = Some (worker_path tid, m) \<longleftrightarrow> fd = fd_operations ?wk \<and> m = O_RDWR"
    by (rule tracked_file [OF inv tid]) (simp_all add: pc)
  have D: "w_file_size ?wk = int (length D)" "length D \<le> nat (upper_bound_write c)" using f(2) by (auto simp: settled_def)
  obtain k' where rd: "c_pread K (fd_operations ?wk) (upper_bound_write c) 0 (kernel s) = ((int (length D), D), k')"
    "kinv k'" "kfd k' = kfd (kernel s)" "kfile k' = kfile (kernel s)"
    using read_back [OF check_invD(2) [OF inv] own_path [OF check_invD(2) [OF inv] tid] f(1), of "fd_operations ?wk" O_RDWR "upper_bound_write c" 0]
      largest [OF check_invD(2) [OF inv]] f(3) D(2) by auto
  have s': "s' = goto tid Checked (at_worker tid (forget_unsynced c)
      (s\<lparr>kernel := k', thread_check_file := (thread_check_file s)[tid := False]\<rparr>))"
    using step pc rd(1) D(1) settled_content [OF f(2)] by (simp add: worker_step_def check_content_def Let_def)
  have k: "kernel s' = k'" by (simp add: s' goto_def)
  show ?thesis
  proof (rule worker_result [OF inv tid step])
    show "worker_ok c (kfile (kernel s')) (kfd (kernel s')) (thread_check_file s' ! tid \<or> monitor s = Releasing)
        (thread_check_file s' ! tid) (worker_path tid) (workers s' ! tid)"
      unfolding k rd(3,4)
      by (rule worker_okI [of _ _ D D]) (use f calm len pending_forget [OF f(2)] in \<open>auto simp: s' goto_def\<close>)
  qed (use rd file_alone(2) [OF rd(3,4)] in \<open>simp_all add: k\<close>)
qed

lemma step_checked:
  assumes inv: "good s" and tid: "tid < nat (nr_threads c)" and pc: "w_pc (workers s ! tid) = Checked"
    and step: "worker_step K c tid r s = Some s'"
  shows "good s'"
proof -
  have len: "tid < length (workers s)" using check_invD(5) [OF inv tid] by simp
  obtain V D where f: "kfile (kernel s) (worker_path tid) = Some (V, D)" "settled c (workers s ! tid) D"
    "\<not> thread_check_file s ! tid \<and> pending c (workers s ! tid) V D"
    "\<And>fd m. kfd (kernel s) fd = Some (worker_path tid, m) \<longleftrightarrow> fd = fd_operations (workers s ! tid) \<and> m = O_RDWR"
    by (rule tracked_file [OF inv tid]) (simp_all add: pc)
  have s': "s' = (if last_iteration s then unlock_loop (goto tid Leave s) else goto tid Do_write s)"
    using step pc by (simp add: worker_step_def)
  show ?thesis
  proof (rule worker_result [OF inv tid step])
    show "worker_ok c (kfile (kernel s')) (kfd (kernel s')) (thread_check_file s' ! tid \<or> monitor s = Releasing)
        (thread_check_file s' ! tid) (worker_path tid) (workers s' ! tid)"
      by (rule worker_okI [of _ _ V D]) (use f len in \<open>auto simp: s' goto_def\<close>)
  qed (use check_invD(2) [OF inv] in \<open>simp_all add: s' goto_def file_alone\<close>)
qed

lemma first_distinct_drawn: "first_distinct rs = Some (bt, up) \<Longrightarrow> (bt, up) \<in> set rs \<and> bt \<noteq> up"
  by (induction rs rule: first_distinct.induct) (auto split: if_splits)

lemma letter_nonzero: "65 \<le> x \<Longrightarrow> x \<le> 90 \<Longrightarrow> word_of_int x \<noteq> (0 :: byte)"
  by (simp add: word_of_int_eq_0_iff) presburger

lemma step_do_write:
  assumes inv: "good s" and tid: "tid < nat (nr_threads c)" and pc: "w_pc (workers s ! tid) = Do_write"
    and r: "draw_ok c r" and step: "worker_step K c tid r s = Some s'"
  shows "good s'"
proof -
  have len: "tid < length (workers s)" using check_invD(5) [OF inv tid] by simp
  obtain V D where f: "kfile (kernel s) (worker_path tid) = Some (V, D)" "settled c (workers s ! tid) D"
    "\<not> thread_check_file s ! tid \<and> pending c (workers s ! tid) V D"
    "\<And>fd m. kfd (kernel s) fd = Some (worker_path tid, m) \<longleftrightarrow> fd = fd_operations (workers s ! tid) \<and> m = O_RDWR"
    by (rule tracked_file [OF inv tid]) (simp_all add: pc)
  obtain bt up where bu: "first_distinct (d_ranges r) = Some (bt, up)"
    using step pc by (auto simp: worker_step_def write_range_def split: option.splits)
  then have range: "0 \<le> bt" "bt \<le> up" "up < upper_bound_write c"
    using first_distinct_drawn [OF bu] r by (auto simp: draw_ok_def)
  define ch :: byte where "ch = word_of_int (d_ch r)"
  have ch: "ch \<noteq> 0" unfolding ch_def by (rule letter_nonzero) (use r in \<open>simp_all add: draw_ok_def\<close>)
  define bs where "bs = replicate (nat (up - bt + 1)) ch"
  obtain k' where w: "c_pwrite K (fd_operations (workers s ! tid)) bs bt (kernel s) = (up - bt + 1, k')"
    "kinv k'" "kfd k' = kfd (kernel s)" "kfile k' = (kfile (kernel s))(worker_path tid := Some (file_write V bt bs, D))"
    using write_seen [OF check_invD(2) [OF inv] own_path [OF check_invD(2) [OF inv] tid] f(1), of "fd_operations (workers s ! tid)" O_RDWR bs bt]
      f(4) range by (auto simp: bs_def)
  have s': "s' = goto tid (Read_back bt up ch (d_fs r \<noteq> 0)) (s\<lparr>kernel := k'\<rparr>)"
    using step pc bu w(1) by (simp add: worker_step_def write_range_def ch_def [symmetric] bs_def Let_def)
  have k: "kernel s' = k'" by (simp add: s' goto_def)
  show ?thesis
  proof (rule worker_result [OF inv tid step])
    show "worker_ok c (kfile (kernel s')) (kfd (kernel s')) (thread_check_file s' ! tid \<or> monitor s = Releasing)
        (thread_check_file s' ! tid) (worker_path tid) (workers s' ! tid)"
      unfolding k w(3,4)
      by (rule worker_okI [of _ _ "file_write V bt bs" D]) (use f len range ch in \<open>auto simp: s' goto_def bs_def\<close>)
  qed (use w file_alone(1) [OF w(3,4)] in \<open>simp_all add: k\<close>)
qed

lemma file_write_back: "0 \<le> bt \<Longrightarrow> take (length bs) (drop (nat bt) (file_write V bt bs)) = bs"
  by (simp add: file_write_def min_def)

lemma step_read_back:
  assumes inv: "good s" and tid: "tid < nat (nr_threads c)" and pc: "w_pc (workers s ! tid) = Read_back bt up ch fs"
    and step: "worker_step K c tid r s = Some s'"
  shows "good s'"
proof -
  let ?wk = "workers s ! tid" and ?bs = "replicate (nat (up - bt + 1)) ch"
  have len: "tid < length (workers s)" using check_invD(5) [OF inv tid] by simp
  have calm: "monitor s \<noteq> Releasing" using in_round_calm [OF inv tid] pc by simp
  obtain V D V0 where f: "kfile (kernel s) (worker_path tid) = Some (V, D)" "settled c ?wk D"
    "\<not> thread_check_file s ! tid" "0 \<le> bt" "bt \<le> up" "up < upper_bound_write c" "ch \<noteq> 0"
    "V = file_write V0 bt ?bs" "pending c ?wk V0 D"
    "\<And>fd m. kfd (kernel s) fd = Some (worker_path tid, m) \<longleftrightarrow> fd = fd_operations ?wk \<and> m = O_RDWR"
    by (rule tracked_file [OF inv tid]) (auto simp: pc)
  have same: "take (nat (up - bt + 1)) (drop (nat bt) V) = ?bs"
    using file_write_back [OF f(4), of ?bs V0] by (simp add: f(8))
  have "bt + (up - bt + 1) \<le> int (length V)" using f(4,5) by (simp add: f(8) file_write_length)
  then obtain k' where rd: "c_pread K (fd_operations ?wk) (up - bt + 1) bt (kernel s) = ((up - bt + 1, ?bs), k')"
    "kinv k'" "kfd k' = kfd (kernel s)" "kfile k' = kfile (kernel s)"
    using read_back [OF check_invD(2) [OF inv] own_path [OF check_invD(2) [OF inv] tid] f(1), of "fd_operations ?wk" O_RDWR "up - bt + 1" bt]
      f(4-6,10) same by auto
  note T = tracked_write [OF f(2,9,4,5,6,7)]
  have s': "s' = (let s = at_worker tid (track_write bt up ch) (s\<lparr>kernel := k'\<rparr>)
      in if fs then goto tid Do_sync s else unlock_loop (goto tid Loop_test s))"
    using step pc rd(1) by (simp add: worker_step_def read_range_def Let_def)
  have k: "kernel s' = k'" by (simp add: s' goto_def Let_def)
  show ?thesis
  proof (rule worker_result [OF inv tid step])
    show "worker_ok c (kfile (kernel s')) (kfd (kernel s')) (thread_check_file s' ! tid \<or> monitor s = Releasing)
        (thread_check_file s' ! tid) (worker_path tid) (workers s' ! tid)"
      unfolding k rd(3,4)
      by (rule worker_okI [of _ _ V D])
        (use f calm len T track_write_up [OF f(9), of up bt ch] in \<open>auto simp: s' goto_def Let_def\<close>)
  qed (use rd file_alone(2) [OF rd(3,4)] in \<open>simp_all add: k\<close>)
qed

lemma step_do_sync:
  assumes inv: "good s" and tid: "tid < nat (nr_threads c)" and pc: "w_pc (workers s ! tid) = Do_sync"
    and step: "worker_step K c tid r s = Some s'"
  shows "good s'"
proof -
  let ?wk = "workers s ! tid"
  have len: "tid < length (workers s)" using check_invD(5) [OF inv tid] by simp
  have calm: "monitor s \<noteq> Releasing" using in_round_calm [OF inv tid] pc by simp
  obtain V D where f: "kfile (kernel s) (worker_path tid) = Some (V, D)" "settled c ?wk D"
    "\<not> thread_check_file s ! tid" "pending c ?wk V D" "last_off_check_up ?wk \<noteq> - 1"
    "\<And>fd m. kfd (kernel s) fd = Some (worker_path tid, m) \<longleftrightarrow> fd = fd_operations ?wk \<and> m = O_RDWR"
    by (rule tracked_file [OF inv tid]) (auto simp: pc)
  obtain k' where y: "c_fsync K (fd_operations ?wk) (kernel s) = (0, k')" "kinv k'" "kfd k' = kfd (kernel s)"
    "kfile k' = (kfile (kernel s))(worker_path tid := Some (V, V))"
    using sync_durable [OF check_invD(2) [OF inv] own_path [OF check_invD(2) [OF inv] tid] f(1), of "fd_operations ?wk" O_RDWR] f(6) by auto
  have s': "s' = unlock_loop (goto tid Loop_test (at_worker tid (track_sync c) (s\<lparr>kernel := k'\<rparr>)))"
    using step pc y(1) by (simp add: worker_step_def sync_file_def Let_def)
  have k: "kernel s' = k'" by (simp add: s' goto_def)
  show ?thesis
  proof (rule worker_result [OF inv tid step])
    show "worker_ok c (kfile (kernel s')) (kfd (kernel s')) (thread_check_file s' ! tid \<or> monitor s = Releasing)
        (thread_check_file s' ! tid) (worker_path tid) (workers s' ! tid)"
      unfolding k y(3,4)
      by (rule worker_okI [of _ _ V V]) (use f calm len tracked_sync [OF f(2,4,5)] in \<open>auto simp: s' goto_def\<close>)
  qed (use y file_alone(1) [OF y(3,4)] in \<open>simp_all add: k\<close>)
qed

lemma step_leave:
  assumes inv: "good s" and tid: "tid < nat (nr_threads c)" and pc: "w_pc (workers s ! tid) = Leave"
    and step: "worker_step K c tid r s = Some s'"
  shows "good s'"
proof -
  have len: "tid < length (workers s)" using check_invD(5) [OF inv tid] by simp
  obtain x where f: "kfile (kernel s) (worker_path tid) = Some x"
    "\<And>fd m. kfd (kernel s) fd = Some (worker_path tid, m) \<longleftrightarrow> fd = fd_operations (workers s ! tid) \<and> m = O_RDWR"
    using check_invD(4) [OF inv tid] pc by (auto simp: worker_ok_def)
  have s': "s' = goto tid Unlink (s\<lparr>kernel := snd (c_close K (fd_operations (workers s ! tid)) (kernel s))\<rparr>)"
    using step pc by (simp add: worker_step_def)
  have fd: "kfd (kernel s) (fd_operations (workers s ! tid)) = Some (worker_path tid, O_RDWR)" using f(2) by simp
  from close_it [OF check_invD(2) [OF inv] own_path [OF check_invD(2) [OF inv] tid] f(1) fd]
  have k: "kinv (kernel s')" "kfile (kernel s') = kfile (kernel s)"
    "kfd (kernel s') = (kfd (kernel s))(fd_operations (workers s ! tid) := None)"
    by (auto simp: s' goto_def)
  show ?thesis
  proof (rule worker_result [OF inv tid step k(1) file_alone(4) [OF fd k(3,2)]])
    show "worker_ok c (kfile (kernel s')) (kfd (kernel s')) (thread_check_file s' ! tid \<or> monitor s = Releasing)
        (thread_check_file s' ! tid) (worker_path tid) (workers s' ! tid)"
      unfolding k(2,3) using f len by (cases x) (auto simp: s' goto_def worker_ok_def)
  qed
qed

lemma step_unlink:
  assumes inv: "good s" and tid: "tid < nat (nr_threads c)" and pc: "w_pc (workers s ! tid) = Unlink"
    and step: "worker_step K c tid r s = Some s'"
  shows "good s'"
proof -
  have len: "tid < length (workers s)" using check_invD(5) [OF inv tid] by simp
  obtain x where f: "kfile (kernel s) (worker_path tid) = Some x" "\<forall>fd m. kfd (kernel s) fd \<noteq> Some (worker_path tid, m)"
    using check_invD(4) [OF inv tid] pc by (auto simp: worker_ok_def)
  have s': "s' = goto tid Finished (s\<lparr>kernel := snd (c_unlink K (worker_path tid) (kernel s))\<rparr>)"
    using step pc by (simp add: worker_step_def)
  from unlink_own [OF check_invD(2) [OF inv] own_path [OF check_invD(2) [OF inv] tid] f]
  have k: "kinv (kernel s')" "kfd (kernel s') = kfd (kernel s)"
    "kfile (kernel s') = (kfile (kernel s))(worker_path tid := None)"
    by (auto simp: s' goto_def)
  show ?thesis
  proof (rule worker_result [OF inv tid step k(1)])
    show "worker_ok c (kfile (kernel s')) (kfd (kernel s')) (thread_check_file s' ! tid \<or> monitor s = Releasing)
        (thread_check_file s' ! tid) (worker_path tid) (workers s' ! tid)"
      unfolding k(2) using f len by (auto simp: s' goto_def worker_ok_def)
  qed (use k file_alone(1) [OF k(2,3)] in simp)
qed

lemma worker_keeps:
  assumes inv: "good s" and tid: "tid < nat (nr_threads c)" and r: "draw_ok c r" and step: "worker_step K c tid r s = Some s'"
  shows "good s'"
proof (cases "w_pc (workers s ! tid)")
  case Loop_test then show ?thesis by (rule step_loop_test [OF inv tid _ step])
next
  case Loop_wait then show ?thesis by (rule step_loop_wait [OF inv tid _ step])
next
  case Check_close then show ?thesis by (rule step_check_close [OF inv tid _ step])
next
  case Check_open then show ?thesis by (rule step_check_open [OF inv tid _ step])
next
  case Check_read then show ?thesis by (rule step_check_read [OF inv tid _ step])
next
  case Checked then show ?thesis by (rule step_checked [OF inv tid _ step])
next
  case Do_write then show ?thesis by (rule step_do_write [OF inv tid _ r step])
next
  case (Read_back bt up ch fs) then show ?thesis by (rule step_read_back [OF inv tid _ step])
next
  case Do_sync then show ?thesis by (rule step_do_sync [OF inv tid _ step])
next
  case Leave then show ?thesis by (rule step_leave [OF inv tid _ step])
next
  case Unlink then show ?thesis by (rule step_unlink [OF inv tid _ step])
qed (use step in \<open>simp_all add: worker_step_def\<close>)

lemma monitor_clears:
  assumes inv: "good s" and pc: "monitor s = Clearing" and step: "monitor_step K c over s = Some s'"
  shows "good s'"
proof -
  note I = check_invD [OF inv]
  obtain x k' where clear: "c_fifo K clear_command (kernel s) = (x, k')" "kinv k'" "kfd k' = kfd (kernel s)"
    "x = None \<and> kfile k' = kfile (kernel s) \<or>
     x = Some 20 \<and> kfile k' = (\<lambda>p. map_option (\<lambda>(V, D). (D, D)) (kfile (kernel s) p))"
    using clear_loses [OF I(2)] by blast
  have still: "\<not> in_round (w_pc (workers s ! tid))" if "tid < nat (nr_threads c)" for tid
    by (rule nobody_in_round [OF I(1) _ that]) (use I(6) pc in simp)
  have s': "workers s' = workers s" "thread_check_file s' = thread_check_file s" "kernel s' = k'"
    "monitor s' = (if x = None then Monitor_finished else Releasing)"
    using step pc clear(1,4) by (auto simp: monitor_step_def stop_all_def)
  have "worker_ok c (kfile k') (kfd k') (thread_check_file s ! tid \<or> monitor s' = Releasing) (thread_check_file s ! tid)
      (worker_path tid) (workers s ! tid)" if tid: "tid < nat (nr_threads c)" for tid
    using clear(4)
  proof (elim disjE conjE)
    assume n: "x = None" "kfile k' = kfile (kernel s)"
    show ?thesis using I(4) [OF tid] pc s'(4) by (simp add: n clear(3))
  next
    assume y: "x = Some 20" "kfile k' = (\<lambda>p. map_option (\<lambda>(V, D). (D, D)) (kfile (kernel s) p))"
    show ?thesis using I(4) [OF tid] still [OF tid] s'(4) unfolding y(2) clear(3)
      by (cases "w_pc (workers s ! tid)") (auto simp: worker_ok_def y(1))
  qed
  then show ?thesis
    using monitor_locks [OF I(1) step] clear(2) s' unfolding check_inv_def by simp
qed

lemma monitor_releases:
  assumes inv: "good s" and pc: "monitor s = Releasing" and step: "monitor_step K c over s = Some s'"
  shows "good s'"
proof -
  note I = check_invD [OF inv]
  have still: "\<not> in_round (w_pc (workers s ! tid))" if "tid < nat (nr_threads c)" for tid
    by (rule nobody_in_round [OF I(1) _ that]) (use I(6) pc in simp)
  have s': "workers s' = workers s" "kernel s' = kernel s" "monitor s' \<noteq> Releasing" "monitor s' \<noteq> Monitor_failed"
    "\<And>tid. tid < nat (nr_threads c) \<Longrightarrow> thread_check_file s' ! tid"
    using step pc by (auto simp: monitor_step_def stop_all_def Let_def nth_append split: if_splits)
  have "worker_ok c (kfile (kernel s)) (kfd (kernel s)) True True (worker_path tid) (workers s ! tid)"
    if tid: "tid < nat (nr_threads c)" for tid
    using I(4) [OF tid] still [OF tid] pc by (cases "w_pc (workers s ! tid)") (auto simp: worker_ok_def)
  then show ?thesis
    using monitor_locks [OF I(1) step] I(2) s' unfolding check_inv_def by simp
qed

lemma monitor_keeps:
  assumes inv: "good s" and step: "monitor_step K c over s = Some s'"
  shows "good s'"
proof (cases "monitor s")
  case Sleeping
  then show ?thesis using monitor_locks [OF check_invD(1) [OF inv] step] inv step
    by (auto simp: check_inv_def monitor_step_def split: if_splits)
next
  case Clearing then show ?thesis by (rule monitor_clears [OF inv _ step])
next
  case Releasing then show ?thesis by (rule monitor_releases [OF inv _ step])
qed (use step in \<open>simp_all add: monitor_step_def\<close>)

lemma check_keeps: "good s \<Longrightarrow> check_step K c s s' \<Longrightarrow> good s'"
  by (erule check_stepE) (blast intro: worker_keeps monitor_keeps)+

lemma check_runs: "(check_step K c)\<^sup>*\<^sup>* s s' \<Longrightarrow> good s \<Longrightarrow> good s'"
  by (induction rule: rtranclp_induct) (blast intro: check_keeps)+

lemma good_not_failed:
  assumes "good s"
  shows "\<not> check_failed s"
proof -
  have "wk \<in> set (workers s) \<Longrightarrow> w_pc wk \<noteq> Failed" for wk
    using assms by (auto simp: check_inv_def locks_ok_def worker_ok_def in_set_conv_nth)
  then show ?thesis using check_invD(3) [OF assms] by (auto simp: check_failed_def)
qed

text \<open>The threads have opened their empty files.\<close>

lemma start_good:
  assumes n: "length fds = nat (nr_threads c)" "nr_threads c \<le> MAX_THREADS" and k: "kinv k"
    and own: "\<And>tid. tid < length fds \<Longrightarrow> kfile k (worker_path tid) = Some ([], []) \<and>
      (\<forall>fd m. kfd k fd = Some (worker_path tid, m) \<longleftrightarrow> fd = fds ! tid \<and> m = O_RDWR)"
  shows "good (check_start c fds k)"
proof -
  have "worker_ok c (kfile k) (kfd k) False False (worker_path tid) (fresh_worker c (fds ! tid))" if "tid < length fds" for tid
    by (rule worker_okI [of _ _ "[]" "[]"])
      (use own [OF that] largest [OF k] in \<open>auto simp: fresh_worker_def settled_def pending_def byte_at_def\<close>)
  moreover have "thread_check_file (check_start c fds k) ! tid = False" if "tid < length fds" for tid
    using that n by (auto simp: check_start_def)
  ultimately show ?thesis
    using start_locks [OF n, of k] k n(1) unfolding check_inv_def by (simp add: check_start_def)
qed

theorem never_fails:
  assumes "length fds = nat (nr_threads c)" "nr_threads c \<le> MAX_THREADS" and "kinv k"
    and "\<And>tid. tid < length fds \<Longrightarrow> kfile k (worker_path tid) = Some ([], []) \<and>
      (\<forall>fd m. kfd k fd = Some (worker_path tid, m) \<longleftrightarrow> fd = fds ! tid \<and> m = O_RDWR)"
    and "(check_step K c)\<^sup>*\<^sup>* (check_start c fds k) s"
  shows "\<not> check_failed s"
  by (rule good_not_failed [OF check_runs [OF assms(5) start_good]]) (use assms(1-4) in auto)

lemma goes_on:
  assumes inv: "good s" and tid: "tid < nat (nr_threads c)" and U: "2 \<le> upper_bound_write c"
    and on: "\<not> last_iteration s" and pc: "w_pc (workers s ! tid) \<in> {Check_close, Check_open, Check_read, Checked, Do_write}"
  obtains s' where "check_step K c s s'" "good s'" "\<not> last_iteration s'"
    "w_pc (workers s' ! tid) = next_place (w_pc (workers s ! tid))"
proof -
  have len: "tid < length (workers s)" "tid < length (thread_check_file s)" using check_invD(5) [OF inv tid] by simp_all
  obtain s' where step: "worker_step K c tid some_draw s = Some s'"
    using worker_moves_on [of s tid K c] pc by auto
  have good': "good s'" by (rule worker_keeps [OF inv tid some_draw_ok [OF U] step])
  have "tid < length (workers s')" using check_invD(5) [OF good' tid] by simp
  then have "w_pc (workers s' ! tid) \<noteq> Failed" using good_not_failed [OF good'] by (auto simp: check_failed_def)
  then have "w_pc (workers s' ! tid) = next_place (w_pc (workers s ! tid))"
    using step pc len on
    by (auto simp: worker_step_def check_content_def write_range_def some_draw_def goto_def Let_def
        split: prod.splits if_splits)
  moreover have "\<not> last_iteration s'" using move_own [OF len step] on by (simp add: moved_def)
  ultimately show thesis using that worker_moves [OF tid some_draw_ok [OF U] step] good' by blast
qed

end

end
