(* ===== verification/Mounted.thy ===== *)
theory Mounted
  imports Calls Dispatch Worker Fs_Theorems
begin

text \<open>
  The system calls of the test programs on LazyFS. How a call becomes requests, and a name the path
  of a request, is up to the kernel and the FUSE library: the calls are a parameter, and what is
  documented of them is a hypothesis (\<open>forwards\<close>). The table of operations answers the requests,
  and the worker the commands, so the handlers keep the contract \<open>file_calls\<close> as long as the cache
  has room for the files.
\<close>

section \<open>The calls reach the file system\<close>

record ('k, 'd) mount =
  m_env :: "(engine, 'd) env"
  m_view :: "'d view"
  m_setxattr :: bool
  m_unset :: "fuse_request \<Rightarrow> int"
  m_paths :: "string set"                 \<comment> \<open>the names of the files\<close>
  m_limit :: int                          \<comment> \<open>their largest size\<close>
  m_name :: "string \<Rightarrow> string"             \<comment> \<open>the path under which LazyFS knows a name\<close>
  m_ino :: "string \<Rightarrow> int"                 \<comment> \<open>its inode\<close>
  m_world :: "'k \<Rightarrow> (engine, 'd) world"
  m_fds :: "'k \<Rightarrow> int \<Rightarrow> (string \<times> fuse_file_info) option"

abbreviation request :: "('k, 'd) mount \<Rightarrow> fuse_request \<Rightarrow> (engine, 'd) handler" where
  "request M \<equiv> serve (m_setxattr M) (m_unset M) (m_env M)"

text \<open>The kernel may look up a file at any time.\<close>

inductive looks :: "('k, 'd) mount \<Rightarrow> (engine, 'd) world \<Rightarrow> (engine, 'd) world \<Rightarrow> bool" for M where
  looks_none [intro]: "looks M w w"
| looks_again: "looks M w w1 \<Longrightarrow> path_ino (m_view M) (host_state w1) path \<noteq> None \<Longrightarrow>
     request M (T_getattr path) w1 = Inr (R_attr r st, w2) \<Longrightarrow> looks M w w2"

definition open_info :: "int \<Rightarrow> fuse_file_info" where
  "open_info flags = \<lparr>fh = 0, fi_flags = flags, direct_io = False\<rparr>"

text \<open>
  A call sends its request, possibly between lookups, and returns what the handler answers. A new
  descriptor is one that was free; \<open>O_CREAT\<close> makes no difference when there is a file. The caller of
  \<open>pread\<close> gets as many bytes of the buffer as the handler says. Closing succeeds, as there is no
  operation \<open>flush\<close>, and releasing is not delayed. Seeking to the end asks for the attributes, and
  \<open>unlink\<close> looks the file up.
\<close>

definition forwards_open :: "'k calls \<Rightarrow> ('k, 'd) mount \<Rightarrow> bool" where
  "forwards_open K M \<longleftrightarrow> (\<forall>k p m flags mode. m \<in> {O_RDONLY, O_WRONLY, O_RDWR} \<longrightarrow> flags \<in> {m, O_CREAT + m} \<longrightarrow>
     path_ino (m_view M) (host_state (m_world M k)) (m_name M p) \<noteq> None \<longrightarrow> (\<exists>w1. looks M (m_world M k) w1 \<and>
     (\<forall>fi w2. request M (T_open (m_name M p) (open_info m)) w1 = Inr (R_open 0 fi, w2) \<longrightarrow>
        (\<exists>fd k'. c_open K p flags mode k = (fd, k') \<and> 0 \<le> fd \<and> m_fds M k fd = None \<and>
           m_fds M k' = (m_fds M k)(fd := Some (p, fi)) \<and> looks M w2 (m_world M k')))))"

definition forwards_close :: "'k calls \<Rightarrow> ('k, 'd) mount \<Rightarrow> bool" where
  "forwards_close K M \<longleftrightarrow> (\<forall>k fd p fi. m_fds M k fd = Some (p, fi) \<longrightarrow> (\<exists>w1. looks M (m_world M k) w1 \<and>
     (\<forall>r w2. request M (T_release (m_name M p) fi) w1 = Inr (R_status r, w2) \<longrightarrow>
        (\<exists>k'. c_close K fd k = (0, k') \<and> m_fds M k' = (m_fds M k)(fd := None) \<and> looks M w2 (m_world M k')))))"

definition forwards_pwrite :: "'k calls \<Rightarrow> ('k, 'd) mount \<Rightarrow> bool" where
  "forwards_pwrite K M \<longleftrightarrow> (\<forall>k fd p fi bs off. m_fds M k fd = Some (p, fi) \<longrightarrow> fi_flags fi \<in> {O_WRONLY, O_RDWR} \<longrightarrow>
     (\<exists>w1. looks M (m_world M k) w1 \<and>
     (\<forall>r w2. request M (T_write (m_name M p) bs (int (length bs)) off (Some fi)) w1 = Inr (R_status r, w2) \<longrightarrow> 0 \<le> r \<longrightarrow>
        (\<exists>k'. c_pwrite K fd bs off k = (r, k') \<and> m_fds M k' = m_fds M k \<and> looks M w2 (m_world M k')))))"

definition forwards_pread :: "'k calls \<Rightarrow> ('k, 'd) mount \<Rightarrow> bool" where
  "forwards_pread K M \<longleftrightarrow> (\<forall>k fd p fi n off. m_fds M k fd = Some (p, fi) \<longrightarrow> fi_flags fi \<in> {O_RDONLY, O_RDWR} \<longrightarrow>
     (\<exists>w1 buf. looks M (m_world M k) w1 \<and> length buf = nat n \<and>
     (\<forall>r bs w2. request M (T_read (m_name M p) buf n off (Some fi)) w1 = Inr (R_data r bs, w2) \<longrightarrow> 0 \<le> r \<longrightarrow>
        (\<exists>k'. c_pread K fd n off k = ((r, take (nat r) bs), k') \<and> m_fds M k' = m_fds M k \<and>
           looks M w2 (m_world M k')))))"

definition forwards_lseek :: "'k calls \<Rightarrow> ('k, 'd) mount \<Rightarrow> bool" where
  "forwards_lseek K M \<longleftrightarrow> (\<forall>k fd p fi. m_fds M k fd = Some (p, fi) \<longrightarrow> (\<exists>w1. looks M (m_world M k) w1 \<and>
     (\<forall>st w2. request M (T_getattr (m_name M p)) w1 = Inr (R_attr 0 st, w2) \<longrightarrow>
        (\<exists>k'. c_lseek_end K fd k = (st_size st, k') \<and> m_fds M k' = m_fds M k \<and> looks M w2 (m_world M k')))))"

definition forwards_fsync :: "'k calls \<Rightarrow> ('k, 'd) mount \<Rightarrow> bool" where
  "forwards_fsync K M \<longleftrightarrow> (\<forall>k fd p fi. m_fds M k fd = Some (p, fi) \<longrightarrow> (\<exists>w1. looks M (m_world M k) w1 \<and>
     (\<forall>r w2. request M (T_fsync (m_name M p) False (Some fi)) w1 = Inr (R_status r, w2) \<longrightarrow> 0 \<le> r \<longrightarrow>
        (\<exists>k'. c_fsync K fd k = (r, k') \<and> m_fds M k' = m_fds M k \<and> looks M w2 (m_world M k')))))"

definition forwards_unlink :: "'k calls \<Rightarrow> ('k, 'd) mount \<Rightarrow> bool" where
  "forwards_unlink K M \<longleftrightarrow> (\<forall>k p. \<exists>w1. looks M (m_world M k) w1 \<and>
     (\<forall>st w2 r w3. request M (T_getattr (m_name M p)) w1 = Inr (R_attr 0 st, w2) \<longrightarrow>
        request M (T_unlink (m_name M p)) w2 = Inr (R_status r, w3) \<longrightarrow>
        (\<exists>k'. c_unlink K p k = (r, k') \<and> m_fds M k' = m_fds M k \<and> looks M w3 (m_world M k'))))"

text \<open>The FIFO cannot be opened, or what is written to it is a command that the worker runs while the caller waits.\<close>

definition forwards_fifo :: "'k calls \<Rightarrow> ('k, 'd) mount \<Rightarrow> bool" where
  "forwards_fifo K M \<longleftrightarrow> (\<forall>k cmd. \<exists>r k'. c_fifo K cmd k = (r, k') \<and> m_fds M k' = m_fds M k \<and>
     (\<exists>w1. looks M (m_world M k) w1 \<and>
        (r = None \<and> m_world M k' = w1 \<or>
         r = Some (int (length cmd)) \<and>
           (\<forall>reply w2. worker_command (m_env M) cmd w1 = Inr (reply, w2) \<longrightarrow> looks M w2 (m_world M k')))))"

definition forwards :: "'k calls \<Rightarrow> ('k, 'd) mount \<Rightarrow> bool" where
  "forwards K M \<longleftrightarrow> forwards_open K M \<and> forwards_close K M \<and> forwards_pwrite K M \<and> forwards_pread K M \<and>
     forwards_lseek K M \<and> forwards_fsync K M \<and> forwards_unlink K M \<and> forwards_fifo K M"

section \<open>The files\<close>

abbreviation file_blocks :: "('k, 'd) mount \<Rightarrow> int" where
  "file_blocks M \<equiv> m_limit M div IO_BLOCK_SIZE (FSConfig (m_env M))"

text \<open>
  The names stand for different files that the host lets go, the largest size is a number of blocks,
  and the cache has a page for each block of each file, and for those of one request more.
\<close>

definition mount_fits :: "('k, 'd) mount \<Rightarrow> bool" where
  "mount_fits M \<longleftrightarrow> finite (m_paths M) \<and> inj_on (m_name M) (m_paths M) \<and> inj_on (m_ino M) (m_paths M) \<and>
     0 < m_limit M \<and> m_limit M < 2147483648 \<and> m_limit M mod IO_BLOCK_SIZE (FSConfig (m_env M)) = 0 \<and>
     card (m_paths M) * nat (file_blocks M) + nat (file_blocks M) + 1 \<le> nat (CACHE_NR_PAGES (FSConfig (m_env M))) \<and>
     (\<forall>p \<in> m_paths M. \<forall>d. path_ino (m_view M) d (m_name M p) \<noteq> None \<longrightarrow>
        fst (os_unlink (eos (m_env M)) (m_name M p) d) \<noteq> - 1)"

abbreviation seen_in :: "('k, 'd) mount \<Rightarrow> (engine, 'd) world \<Rightarrow> int \<Rightarrow> byte list" where
  "seen_in M w \<equiv> seen (FSConfig (m_env M)) (m_view M) (FSCache w) (host_state w)"

definition own_blocks :: "('k, 'd) mount \<Rightarrow> (string \<times> int) set" where
  "own_blocks M = (\<lambda>(p, b). (to_string (m_ino M p), b)) ` (m_paths M \<times> {0..<file_blocks M})"

text \<open>A world that serves the files, and the descriptors that are open.\<close>

definition served :: "('k, 'd) mount \<Rightarrow> (engine, 'd) world \<Rightarrow> bool" where
  "served M w \<longleftrightarrow> fs_inv (m_env M) (m_view M) w \<and> fd_ino (m_view M) (host_state w) 0 \<noteq> None \<and>
     cached (FSCache w) \<subseteq> own_blocks M \<and>
     (\<forall>p \<in> m_paths M. calm (m_env M) (m_name M p) w \<and>
        path_ino (m_view M) (host_state w) (m_name M p) \<in> {None, Some (m_ino M p)} \<and>
        int (length (seen_in M w (m_ino M p))) \<le> m_limit M)"

definition table_ok :: "('k, 'd) mount \<Rightarrow> (engine, 'd) world \<Rightarrow> (int \<Rightarrow> (string \<times> fuse_file_info) option) \<Rightarrow> bool" where
  "table_ok M w T \<longleftrightarrow> (\<forall>fd p fi. T fd = Some (p, fi) \<longrightarrow> p \<in> m_paths M \<and>
     open_at (m_view M) (m_name M p) fi (m_ino M p) (host_state w) \<and>
     (\<forall>fd' p' fi'. T fd' = Some (p', fi') \<longrightarrow> fh fi' = fh fi \<longrightarrow> fd' = fd))"

definition mount_inv :: "'k calls \<Rightarrow> ('k, 'd) mount \<Rightarrow> 'k \<Rightarrow> bool" where
  "mount_inv K M k \<longleftrightarrow> forwards K M \<and> mount_fits M \<and> served M (m_world M k) \<and> table_ok M (m_world M k) (m_fds M k)"

definition mount_file :: "('k, 'd) mount \<Rightarrow> 'k \<Rightarrow> files_view" where
  "mount_file M k p =
     (if p \<in> m_paths M \<and> path_ino (m_view M) (host_state (m_world M k)) (m_name M p) \<noteq> None
      then Some (seen_in M (m_world M k) (m_ino M p), content (m_view M) (host_state (m_world M k)) (m_ino M p))
      else None)"

definition mount_fd :: "('k, 'd) mount \<Rightarrow> 'k \<Rightarrow> fds_view" where
  "mount_fd M k fd = map_option (\<lambda>(p, fi). (p, fi_flags fi)) (m_fds M k fd)"

section \<open>Requests of a world that serves the files\<close>

lemma servedD:
  assumes "served M w"
  shows "mounted (m_env M) (m_view M)" "shared_locks w = 0"
    "files_ok (FSConfig (m_env M)) (m_view M) (FSCache w) (host_state w)"
    "fd_ino (m_view M) (host_state w) 0 \<noteq> None" "cached (FSCache w) \<subseteq> own_blocks M"
    "p \<in> m_paths M \<Longrightarrow> calm (m_env M) (m_name M p) w"
    "p \<in> m_paths M \<Longrightarrow> path_ino (m_view M) (host_state w) (m_name M p) \<in> {None, Some (m_ino M p)}"
    "p \<in> m_paths M \<Longrightarrow> int (length (seen_in M w (m_ino M p))) \<le> m_limit M"
    "fs_inv (m_env M) (m_view M) w"
  using assms by (simp_all add: served_def fs_inv_def)

lemma served_step:
  assumes "served M w" and "files_ok (FSConfig (m_env M)) (m_view M) C' d'" and "cached C' \<subseteq> own_blocks M"
    and "fd_ino (m_view M) d' 0 \<noteq> None"
    and "\<And>p. p \<in> m_paths M \<Longrightarrow> path_ino (m_view M) d' (m_name M p) \<in> {None, path_ino (m_view M) (host_state w) (m_name M p)}"
    and "\<And>p. p \<in> m_paths M \<Longrightarrow>
      int (length (seen (FSConfig (m_env M)) (m_view M) C' d' (m_ino M p))) \<le> m_limit M"
  shows "served M (w\<lparr>FSCache := C', host_state := d'\<rparr>)"
  using assms(2-4,6) assms(5) servedD(1,2,6,7) [OF assms(1)]
  unfolding served_def fs_inv_def by fastforce

lemma same_host: "w\<lparr>FSCache := C, host_state := host_state w\<rparr> = w\<lparr>FSCache := C\<rparr>"
  by (cases w) simp

text \<open>Two worlds that look the same.\<close>

definition same_view :: "('k, 'd) mount \<Rightarrow> (engine, 'd) world \<Rightarrow> (engine, 'd) world \<Rightarrow> bool" where
  "same_view M w w' \<longleftrightarrow> seen_in M w' = seen_in M w \<and> unchanged (m_view M) (host_state w) (host_state w')"

lemma same_view_refl [simp]: "same_view M w w"
  by (simp add: same_view_def unchanged_def)

lemma look_keeps:
  assumes s: "served M w" and p: "path_ino (m_view M) (host_state w) path \<noteq> None"
    and run: "request M (T_getattr path) w = Inr (R_attr r st, w')"
  shows "served M w' \<and> same_view M w w' \<and> fmlookup (file_inode_mapping (FSCache w')) path \<noteq> None \<and> r = 0"
proof -
  note S = servedD [OF s]
  obtain i where i: "path_ino (m_view M) (host_state w) path = Some i" using p by blast
  obtain st C' where g: "lfs_getattr (m_env M) path w = Inr ((0, st), w\<lparr>FSCache := C'\<rparr>)"
    "files_ok (FSConfig (m_env M)) (m_view M) C' (host_state w)"
    "seen (FSConfig (m_env M)) (m_view M) C' (host_state w) = seen_in M w"
    "get_original_inode C' path = to_string i" "cengine C' = cengine (FSCache w)"
    using getattr_ok [OF S(1,3) i] by blast
  have w': "w' = w\<lparr>FSCache := C', host_state := host_state w\<rparr>" "r = 0"
    unfolding same_host using run g(1) by (simp_all add: serve_def load_operations_def replying_def)
  have "served M w'"
    unfolding w' by (rule served_step [OF s g(2)]) (use S g(3) cached_cengine [OF g(5)] in simp_all)
  moreover have "to_string i \<noteq> []" by (simp add: to_string_def)
  then have "fmlookup (file_inode_mapping C') path \<noteq> None"
    using g(4) by (auto simp: get_original_inode_def split: option.splits)
  ultimately show ?thesis using g(3) by (simp add: w' same_view_def unchanged_def)
qed

lemma getattr_served:
  assumes s: "served M w" and p: "path_ino (m_view M) (host_state w) path \<noteq> None"
  obtains st w' where "request M (T_getattr path) w = Inr (R_attr 0 st, w')"
    "\<forall>i. path_ino (m_view M) (host_state w) path = Some i \<longrightarrow> st_size st = int (length (seen_in M w i))"
proof -
  note S = servedD [OF s]
  obtain i where i: "path_ino (m_view M) (host_state w) path = Some i" using p by blast
  obtain st C' where g: "lfs_getattr (m_env M) path w = Inr ((0, st), w\<lparr>FSCache := C'\<rparr>)"
    "st_size st = file_size (m_view M) (FSCache w) (host_state w) i"
    using getattr_ok [OF S(1,3) i] by blast
  then have "request M (T_getattr path) w = Inr (R_attr 0 st, w\<lparr>FSCache := C'\<rparr>)"
    by (simp add: serve_def load_operations_def replying_def)
  then show thesis using g(2) i file_size_seen [OF S(3), of i] by (intro that) auto
qed

lemma looks_keep:
  assumes "looks M w w'" and "served M w"
  shows "served M w' \<and> same_view M w w'"
  using assms
proof induction
  case looks_none
  then show ?case by simp
next
  case (looks_again w w1 path r st w2)
  then show ?case
    using look_keeps [OF _ looks_again.hyps(2,3)] by (auto simp: same_view_def unchanged_def)
qed

lemma open_served:
  assumes s: "served M w" and p: "p \<in> m_paths M" "path_ino (m_view M) (host_state w) (m_name M p) \<noteq> None"
    and m: "m \<in> {O_RDONLY, O_WRONLY, O_RDWR}"
  obtains fi w' where "request M (T_open (m_name M p) (open_info m)) w = Inr (R_open 0 fi, w')" "served M w'"
    "seen_in M w' = seen_in M w" "content (m_view M) (host_state w') = content (m_view M) (host_state w)"
    "path_ino (m_view M) (host_state w') = path_ino (m_view M) (host_state w)"
    "fd_ino (m_view M) (host_state w) (fh fi) = None"
    "fd_ino (m_view M) (host_state w') = (fd_ino (m_view M) (host_state w))(fh fi := Some (m_ino M p))"
    "0 < fh fi" "\<not> direct_io fi" "fi_flags fi = m"
proof -
  note S = servedD [OF s]
  have i: "path_ino (m_view M) (host_state w) (m_name M p) = Some (m_ino M p)" using S(7) [OF p(1)] p(2) by auto
  have fl: "fi_flags (open_info m) \<in> {O_RDONLY, O_WRONLY, O_RDWR}" using m by (simp add: open_info_def)
  obtain fd C' d' where o: "lfs_open (m_env M) (m_name M p) (open_info m) w =
      Inr ((0, (open_info m)\<lparr>fh := fd\<rparr>), w\<lparr>FSCache := C', host_state := d'\<rparr>)"
    "0 \<le> fd" "fd_ino (m_view M) (host_state w) fd = None"
    "fd_ino (m_view M) d' = (fd_ino (m_view M) (host_state w))(fd := Some (m_ino M p))"
    "path_ino (m_view M) d' = path_ino (m_view M) (host_state w)" "content (m_view M) d' = content (m_view M) (host_state w)"
    "files_ok (FSConfig (m_env M)) (m_view M) C' d'" "seen (FSConfig (m_env M)) (m_view M) C' d' = seen_in M w"
    "cached C' = cached (FSCache w)"
    using lfs_open_ok [OF S(1) refl S(6) [OF p(1)] S(3) i fl] by blast
  have "served M (w\<lparr>FSCache := C', host_state := d'\<rparr>)"
    by (rule served_step [OF s o(7)]) (use S o(4,5,8,9) in simp_all)
  moreover have "0 < fd" using o(2,3) S(4) by (cases "fd = 0") auto
  ultimately show thesis
    using that [of "(open_info m)\<lparr>fh := fd\<rparr>" "w\<lparr>FSCache := C', host_state := d'\<rparr>"] o
    by (simp add: serve_def load_operations_def replying_def open_info_def)
qed

lemma release_served:
  assumes s: "served M w" and f: "fh fi \<noteq> 0"
  obtains r w' where "request M (T_release path fi) w = Inr (R_status r, w')" "served M w'"
    "seen_in M w' = seen_in M w" "content (m_view M) (host_state w') = content (m_view M) (host_state w)"
    "path_ino (m_view M) (host_state w') = path_ino (m_view M) (host_state w)"
    "fd_ino (m_view M) (host_state w') = (fd_ino (m_view M) (host_state w))(fh fi := None)"
proof -
  note S = servedD [OF s]
  define d' where "d' = os_close (eos (m_env M)) (fh fi) (host_state w)"
  have law: "content (m_view M) d' = content (m_view M) (host_state w)"
    "path_ino (m_view M) d' = path_ino (m_view M) (host_state w)"
    "fd_ino (m_view M) d' = (fd_ino (m_view M) (host_state w))(fh fi := None)"
    using S(1) host_lawsD(2) by (auto simp: mounted_def close_law_def d'_def)
  have same: "files_ok (FSConfig (m_env M)) (m_view M) (FSCache w) d'"
    "seen (FSConfig (m_env M)) (m_view M) (FSCache w) d' = seen_in M w"
    using files_ok_host [OF law(1,2), of "FSConfig (m_env M)" "FSCache w"] S(3) by simp_all
  obtain r where r: "lfs_release (m_env M) fi w = Inr (r, w\<lparr>FSCache := FSCache w, host_state := d'\<rparr>)"
    by (cases w) (simp add: lfs_release_def with_shared_lock_def d'_def)
  have "served M (w\<lparr>FSCache := FSCache w, host_state := d'\<rparr>)"
    by (rule served_step [OF s same(1)]) (use S law f same(2) in simp_all)
  then show thesis
    using that [of r "w\<lparr>FSCache := FSCache w, host_state := d'\<rparr>"] r same(2) law
    by (simp add: serve_def load_operations_def replying_def)
qed

text \<open>The pages a write needs are free.\<close>

lemma spans_sum:
  "a \<le> x \<Longrightarrow> 0 \<le> s \<Longrightarrow> e \<le> q - 1 \<Longrightarrow> 0 \<le> x \<Longrightarrow> x \<le> e \<Longrightarrow> nat (a - s + 1) + nat (e - x + 1) \<le> nat q + 1"
  "e \<le> q - 1 \<Longrightarrow> 0 \<le> x \<Longrightarrow> x \<le> e \<Longrightarrow> nat (e - x + 1) \<le> nat q + 1"
  for a x s e q :: int
  by linarith+

lemma spans_fit:
  assumes B: "0 < B" and U: "U mod B = 0" and r: "0 \<le> sz" "0 \<le> off" "0 < len" "off + len \<le> U"
  shows "gap_span B sz off + block_span B off len \<le> nat (U div B) + 1"
proof -
  define q where "q = U div B"
  have U: "U = q * B" using U by (simp add: q_def mod_0_imp_dvd)
  have "(off + len - 1) div B \<le> (q * B - 1) div B" using r B U by (intro zdiv_mono1) simp_all
  moreover have "(q * B - 1) div B = q - 1" using B by (intro in_block(1)) (simp_all add: algebra_simps)
  ultimately have e: "(off + len - 1) div B \<le> q - 1" by simp
  have o: "0 \<le> off div B" "off div B \<le> (off + len - 1) div B" "0 \<le> sz div B" "(off - 1) div B \<le> off div B"
    using B r by (simp_all add: pos_imp_zdiv_nonneg_iff zdiv_mono1)
  have "sz + (off - sz) - 1 = off - 1" by simp
  then show ?thesis
    unfolding gap_span_def block_span_def q_def [symmetric]
    using spans_sum(1) [OF o(4,3) e o(1,2)] spans_sum(2) [OF e o(1,2)]
    by (cases "sz < off") (simp_all only: if_True if_False add_0)
qed

lemma own_room:
  assumes s: "served M w" and m: "mount_fits M"
  shows "nat (file_blocks M) + 1 \<le> nfree (cengine (FSCache w))"
proof -
  have fin: "finite (m_paths M \<times> {0..<file_blocks M})" using m by (simp add: mount_fits_def)
  have "card (m_paths M \<times> {0..<file_blocks M}) = card (m_paths M) * nat (file_blocks M)"
    by (simp add: card_cartesian_product)
  with fin have "card (own_blocks M) \<le> card (m_paths M) * nat (file_blocks M)"
    unfolding own_blocks_def by (metis card_image_le)
  moreover have "card (cached (FSCache w)) \<le> card (own_blocks M)"
    by (rule card_mono [OF _ servedD(5) [OF s]]) (use fin in \<open>simp add: own_blocks_def\<close>)
  ultimately show ?thesis
    using cached_room(2) [OF servedD(3) [OF s]] m unfolding mount_fits_def by linarith
qed

lemma own_ino: "mount_fits M \<Longrightarrow> p \<in> m_paths M \<Longrightarrow> q \<in> m_paths M \<Longrightarrow> m_ino M p = m_ino M q \<longleftrightarrow> p = q"
  unfolding mount_fits_def by (meson inj_on_eq_iff)

lemma write_served:
  assumes s: "served M w" and m: "mount_fits M" and p: "p \<in> m_paths M"
    and o: "open_at (m_view M) (m_name M p) fi (m_ino M p) (host_state w)"
    and r: "bs \<noteq> []" "0 \<le> off" "off + int (length bs) \<le> m_limit M"
  obtains w' where "request M (T_write (m_name M p) bs (int (length bs)) off (Some fi)) w = Inr (R_status (int (length bs)), w')"
    "served M w'" "seen_in M w' = (seen_in M w)(m_ino M p := file_write (seen_in M w (m_ino M p)) off bs)"
    "unchanged (m_view M) (host_state w) (host_state w')"
proof -
  let ?B = "IO_BLOCK_SIZE (FSConfig (m_env M))" and ?i = "m_ino M p"
  note S = servedD [OF s]
  have B: "0 < ?B" using single_blockD(3) S(1) by (auto simp: mounted_def)
  have U: "m_limit M < 2147483648" "m_limit M mod ?B = 0"
    using m by (simp_all add: mount_fits_def)
  have len: "int (length bs) < 2147483648" "off + int (length bs) < 2147483648" using r(2,3) U(1) by linarith+
  have big: "2147483648 \<le> 2147483648 * ?B" using B by simp
  define sz where "sz = file_size (m_view M) (FSCache w) (host_state w) ?i"
  have sz: "sz = int (length (seen_in M w ?i))" using file_size_seen [OF S(3), of ?i] by (simp add: sz_def)
  obtain C' d' where w: "lfs_write (m_env M) (m_name M p) bs (int (length bs)) off (Some fi) w =
      Inr (int (length bs), w\<lparr>FSCache := C', host_state := d'\<rparr>)"
    "written (gap_span ?B sz off + block_span ?B off (int (length bs))) (FSConfig (m_env M)) (m_view M) ?i off bs
       (FSCache w) (host_state w) C' d'"
    using lfs_write_ok [OF S(1) refl S(6) [OF p] S(3), of ?i fi bs off] o r len big
    unfolding open_at_def sz_def by auto
  have "gap_span ?B sz off + block_span ?B off (int (length bs)) \<le> nfree (cengine (FSCache w))"
    using spans_fit [OF B U(2), of sz off "int (length bs)"] own_room [OF s m] sz r by simp
  then have W: "files_ok (FSConfig (m_env M)) (m_view M) C' d'"
    "seen (FSConfig (m_env M)) (m_view M) C' d' = (seen_in M w)(?i := file_write (seen_in M w ?i) off bs)"
    "unchanged (m_view M) (host_state w) d'"
    "\<And>cid. cid \<noteq> to_string ?i \<Longrightarrow> blocks_of C' cid = blocks_of (FSCache w) cid"
    using w(2) by (auto simp: written_def unchanged_def)
  have small: "int (length (seen (FSConfig (m_env M)) (m_view M) C' d' (m_ino M q))) \<le> m_limit M"
    if "q \<in> m_paths M" for q
    using S(8) [OF that] r by (auto simp: W(2) file_write_length)
  have "(cid, b) \<in> own_blocks M" if in_cache: "(cid, b) \<in> cached C'" for cid b
  proof (cases "cid = to_string ?i")
    case True
    then obtain cb where "blocks_of C' (to_string ?i) b = Some cb" using in_cache by (auto simp: cached_def)
    then have b: "0 \<le> b" "b * ?B < file_size (m_view M) C' d' ?i"
      using file_okD(3) [OF files_atD(4) [OF W(1)]] by (auto simp: cached_block_ok_def)
    then have "b * ?B < m_limit M" using small [OF p] file_size_seen [OF W(1), of ?i] by simp
    then have "b < file_blocks M" using B U(2) by (metis div_mult_mod_eq add.right_neutral mult_less_cancel_right_pos)
    then show ?thesis using b(1) p True by (force simp: own_blocks_def)
  next
    case False
    then show ?thesis using in_cache S(5) W(4) by (auto simp: cached_def)
  qed
  then have "served M (w\<lparr>FSCache := C', host_state := d'\<rparr>)"
    by (intro served_step [OF s W(1)]) (use S W(3) small in \<open>auto simp: unchanged_def\<close>)
  then show thesis
    using that [of "w\<lparr>FSCache := C', host_state := d'\<rparr>"] w(1) W(2,3)
    by (simp add: serve_def load_operations_def replying_def)
qed

lemma read_served:
  assumes s: "served M w" and m: "mount_fits M" and p: "p \<in> m_paths M"
    and o: "open_at (m_view M) (m_name M p) fi (m_ino M p) (host_state w)" and buf: "length buf = nat n"
    and r: "0 < n" "0 \<le> off" "off + n \<le> m_limit M"
      "off + n \<le> int (length (seen_in M w (m_ino M p))) \<or> (off + n) mod IO_BLOCK_SIZE (FSConfig (m_env M)) = 0"
  defines "bytes \<equiv> take (nat n) (drop (nat off) (seen_in M w (m_ino M p)))"
  obtains bs w' where "request M (T_read (m_name M p) buf n off (Some fi)) w = Inr (R_data (int (length bytes)) bs, w')"
    "take (length bytes) bs = bytes" "served M w'" "same_view M w w'"
proof -
  let ?B = "IO_BLOCK_SIZE (FSConfig (m_env M))" and ?i = "m_ino M p"
  note S = servedD [OF s]
  have B: "0 < ?B" using single_blockD(3) S(1) by (auto simp: mounted_def)
  have U: "m_limit M < 2147483648" "m_limit M mod ?B = 0"
    using m by (simp_all add: mount_fits_def)
  have n: "n = int (length buf)" using buf r(1) by simp
  have top: "off + n < 2147483648" using r(3) U(1) by simp
  have big: "2147483648 \<le> 2147483648 * ?B" using B by simp
  define sz where "sz = file_size (m_view M) (FSCache w) (host_state w) ?i"
  have sz: "sz = int (length (seen_in M w ?i))" using file_size_seen [OF S(3), of ?i] by (simp add: sz_def)
  have room: "room_to_clear ?B sz off n" if "off < sz"
    using r(4)
  proof (elim disjE)
    assume "off + n \<le> int (length (seen_in M w ?i))"
    then have "(off + n - 1) div ?B \<le> (sz - 1) div ?B" using B by (intro zdiv_mono1) (simp_all add: sz)
    then show ?thesis by (simp add: room_to_clear_def)
  next
    assume "(off + n) mod ?B = 0"
    then show ?thesis by (rule aligned_room [OF B _ that])
  qed
  have pre: "path_ino (m_view M) (host_state w) (m_name M p) = Some ?i" "fd_ino (m_view M) (host_state w) (fh fi) = Some ?i"
    "0 < fh fi" "buf \<noteq> []" "length buf < 2147483648" "0 \<le> off" "off + n \<le> 2147483648 * ?B"
    using o r(1,2) n top big unfolding open_at_def by auto
  obtain bs C' where w: "lfs_read (m_env M) (m_name M p) buf n off (Some fi) w =
      Inr ((int (length bytes), bs), w\<lparr>FSCache := C'\<rparr>)" "take (length bytes) bs = bytes"
    "files_ok (FSConfig (m_env M)) (m_view M) C' (host_state w)"
    "seen (FSConfig (m_env M)) (m_view M) C' (host_state w) = seen_in M w" "cached C' = cached (FSCache w)"
    using lfs_read_ok [OF S(1) refl S(6) [OF p] S(3), of ?i fi buf off] pre room
    unfolding n [symmetric] buf [symmetric] bytes_def sz_def by blast
  have "served M (w\<lparr>FSCache := C', host_state := host_state w\<rparr>)"
    by (rule served_step [OF s w(3)]) (use S w(4,5) in simp_all)
  then show thesis
    using that [of bs "w\<lparr>FSCache := C'\<rparr>"] w by (simp add: serve_def load_operations_def replying_def same_view_def unchanged_def)
qed

lemma sync_served:
  assumes s: "served M w" and p: "p \<in> m_paths M" "path_ino (m_view M) (host_state w) (m_name M p) \<noteq> None"
  obtains w' where "request M (T_fsync (m_name M p) isdatasync fi) w = Inr (R_status 0, w')" "served M w'"
    "seen_in M w' = seen_in M w"
    "content (m_view M) (host_state w') = (content (m_view M) (host_state w))(m_ino M p := seen_in M w (m_ino M p))"
    "path_ino (m_view M) (host_state w') = path_ino (m_view M) (host_state w)"
    "fd_ino (m_view M) (host_state w') = fd_ino (m_view M) (host_state w)"
proof -
  note S = servedD [OF s]
  have i: "path_ino (m_view M) (host_state w) (m_name M p) = Some (m_ino M p)" using S(7) [OF p(1)] p(2) by auto
  obtain C' d' where y: "lfs_fsync (m_env M) (m_name M p) isdatasync fi w =
      Inr (0, (forgotten (m_name M p) w)\<lparr>FSCache := C', host_state := d'\<rparr>)"
    "synced (FSConfig (m_env M)) (m_view M) (m_ino M p) (FSCache w) (host_state w) C' d'"
    using lfs_fsync_ok [OF S(1) refl S(6) [OF p(1)] S(3) i] by blast
  have f: "FSCache (forgotten path w) = FSCache w" "host_state (forgotten path w) = host_state w"
    "shared_locks (forgotten path w) = shared_locks w" "calm (m_env M) q (forgotten path w) = calm (m_env M) q w" for path q
    by simp_all
  have s': "served M (forgotten (m_name M p) w)" using s unfolding served_def fs_inv_def f .
  have "served M ((forgotten (m_name M p) w)\<lparr>FSCache := C', host_state := d'\<rparr>)"
    by (rule served_step [OF s']) (use y(2) S in \<open>auto simp: synced_def f\<close>)
  then show thesis
    using that [of "(forgotten (m_name M p) w)\<lparr>FSCache := C', host_state := d'\<rparr>"] y
    by (simp add: serve_def load_operations_def replying_def synced_def)
qed

lemma unlink_served:
  assumes s: "served M w" and m: "mount_fits M" and p: "p \<in> m_paths M"
    and i: "path_ino (m_view M) (host_state w) (m_name M p) \<noteq> None"
    and known: "fmlookup (file_inode_mapping (FSCache w)) (m_name M p) \<noteq> None"
  obtains w' where "request M (T_unlink (m_name M p)) w = Inr (R_status 0, w')" "served M w'"
    "content (m_view M) (host_state w') = content (m_view M) (host_state w)"
    "\<forall>j. j \<noteq> m_ino M p \<longrightarrow> seen_in M w' j = seen_in M w j"
    "path_ino (m_view M) (host_state w') = (path_ino (m_view M) (host_state w))(m_name M p := None)"
    "fd_ino (m_view M) (host_state w') = fd_ino (m_view M) (host_state w)"
proof -
  note S = servedD [OF s]
  have i: "path_ino (m_view M) (host_state w) (m_name M p) = Some (m_ino M p)" using S(7) [OF p] i by auto
  have res: "fst (os_unlink (eos (m_env M)) (m_name M p) (host_state w)) \<noteq> - 1"
    using m p i unfolding mount_fits_def by auto
  obtain C' d' where u: "lfs_unlink (m_env M) (m_name M p) w = Inr (0, w\<lparr>FSCache := C', host_state := d'\<rparr>)"
    "files_ok (FSConfig (m_env M)) (m_view M) C' d'"
    "path_ino (m_view M) d' = (path_ino (m_view M) (host_state w))(m_name M p := None)"
    "fd_ino (m_view M) d' = fd_ino (m_view M) (host_state w)" "content (m_view M) d' = content (m_view M) (host_state w)"
    "seen (FSConfig (m_env M)) (m_view M) C' d' = (\<lambda>j. if j \<in> unlinked (FSCache w) (to_string (m_ino M p))
       then content (m_view M) (host_state w) j else seen_in M w j)"
    "cached C' \<subseteq> cached (FSCache w)"
    using lfs_unlink_ok [OF S(1) refl S(6) [OF p] S(3) i known res] by blast
  have shorter: "length (content (m_view M) (host_state w) j) \<le> length (seen_in M w j)" for j
    using file_okD(1) [OF files_atD(4) [OF S(3), of j]] file_size_seen [OF S(3), of j] by simp
  have "int (length (seen (FSConfig (m_env M)) (m_view M) C' d' (m_ino M q))) \<le> m_limit M"
    if "q \<in> m_paths M" for q
    using S(8) [OF that] shorter [of "m_ino M q"] by (auto simp: u(6))
  then have "served M (w\<lparr>FSCache := C', host_state := d'\<rparr>)"
    by (intro served_step [OF s u(2)]) (use S u(3-7) in auto)
  moreover have "unlinked (FSCache w) (to_string (m_ino M p)) \<subseteq> {m_ino M p}" by (auto simp: unlinked_def)
  ultimately show thesis
    by (intro that [of "w\<lparr>FSCache := C', host_state := d'\<rparr>"])
      (use u in \<open>auto simp: serve_def load_operations_def replying_def\<close>)
qed

lemma clear_served:
  assumes s: "served M w"
  obtains w' where "worker_command (m_env M) clear_command w = Inr (CacheCleared, w')" "served M w'"
    "seen_in M w' = content (m_view M) (host_state w)" "host_state w' = host_state w"
proof -
  note S = servedD [OF s]
  obtain C' where k: "command_fault_clear_cache (m_env M) w = Inr ((), w\<lparr>FSCache := C'\<rparr>)"
    "files_ok (FSConfig (m_env M)) (m_view M) C' (host_state w)"
    "seen (FSConfig (m_env M)) (m_view M) C' (host_state w) = content (m_view M) (host_state w)" "cached C' = {}"
    using clear_cache_ok [OF S(1) refl S(3,2)] by blast
  have "command_string clear_command = ''lazyfs::clear-cache''" by (simp add: command_string_def clear_command_def)
  then have run: "worker_command (m_env M) clear_command w = Inr (CacheCleared, w\<lparr>FSCache := C'\<rparr>)"
    using k(1) by (simp add: worker_command_def starts_with_def)
  have shorter: "length (content (m_view M) (host_state w) j) \<le> length (seen_in M w j)" for j
    using file_okD(1) [OF files_atD(4) [OF S(3), of j]] file_size_seen [OF S(3), of j] by simp
  have "served M (w\<lparr>FSCache := C', host_state := host_state w\<rparr>)"
  proof (rule served_step [OF s k(2)])
    show "int (length (seen (FSConfig (m_env M)) (m_view M) C' (host_state w) (m_ino M p))) \<le> m_limit M"
      if "p \<in> m_paths M" for p
      using S(8) [OF that] shorter [of "m_ino M p"] by (simp add: k(3))
  qed (use S k(4) in simp_all)
  then show thesis using that [OF run] k(3) by simp
qed

section \<open>The contract of the calls\<close>

lemma mount_invD:
  assumes "mount_inv K M k"
  shows "forwards K M" "mount_fits M" "served M (m_world M k)" "table_ok M (m_world M k) (m_fds M k)"
  using assms by (simp_all add: mount_inv_def)

lemma table_okD:
  assumes "table_ok M w T" and "T fd = Some (p, fi)"
  shows "p \<in> m_paths M" "open_at (m_view M) (m_name M p) fi (m_ino M p) (host_state w)"
    "T fd' = Some (p', fi') \<Longrightarrow> fh fi' = fh fi \<Longrightarrow> fd' = fd"
  using assms unfolding table_ok_def by blast+

lemma table_ok_cong:
  assumes "table_ok M w T" and "unchanged (m_view M) (host_state w) (host_state w')"
  shows "table_ok M w' T"
  using assms by (simp add: table_ok_def open_at_def unchanged_def)

text \<open>Before and after its request a call may only look files up.\<close>

lemma departs:
  assumes "mount_inv K M k" and "looks M (m_world M k) w"
  shows "served M w" "table_ok M w (m_fds M k)" "seen_in M w = seen_in M (m_world M k)"
    "unchanged (m_view M) (host_state (m_world M k)) (host_state w)"
proof -
  note I = mount_invD [OF assms(1)]
  have L: "served M w" "seen_in M w = seen_in M (m_world M k)"
    "unchanged (m_view M) (host_state (m_world M k)) (host_state w)"
    using looks_keep [OF assms(2) I(3)] by (simp_all add: same_view_def)
  then show "served M w" "seen_in M w = seen_in M (m_world M k)"
    "unchanged (m_view M) (host_state (m_world M k)) (host_state w)" by simp_all
  show "table_ok M w (m_fds M k)" by (rule table_ok_cong [OF I(4) L(3)])
qed

lemma arrives:
  assumes "mount_inv K M k" and "looks M w (m_world M k')" and "served M w" and "table_ok M w (m_fds M k')"
  shows "mount_inv K M k'" "seen_in M (m_world M k') = seen_in M w"
    "unchanged (m_view M) (host_state w) (host_state (m_world M k'))"
proof -
  have L: "served M (m_world M k')" "seen_in M (m_world M k') = seen_in M w"
    "unchanged (m_view M) (host_state w) (host_state (m_world M k'))"
    using looks_keep [OF assms(2,3)] by (simp_all add: same_view_def)
  then show "seen_in M (m_world M k') = seen_in M w" "unchanged (m_view M) (host_state w) (host_state (m_world M k'))"
    by simp_all
  show "mount_inv K M k'"
    using mount_invD(1,2) [OF assms(1)] L(1) table_ok_cong [OF assms(4) L(3)] by (simp add: mount_inv_def)
qed

lemma mount_file_SomeD:
  assumes "mount_file M k p = Some x"
  shows "p \<in> m_paths M" "path_ino (m_view M) (host_state (m_world M k)) (m_name M p) \<noteq> None"
    "x = (seen_in M (m_world M k) (m_ino M p), content (m_view M) (host_state (m_world M k)) (m_ino M p))"
  using assms by (auto simp: mount_file_def split: if_splits)

lemma mount_fd_SomeD: "mount_fd M k fd = Some (p, m) \<Longrightarrow> \<exists>fi. m_fds M k fd = Some (p, fi) \<and> fi_flags fi = m"
  by (auto simp: mount_fd_def)

lemma mount_file_same:
  assumes "seen_in M (m_world M k') = seen_in M (m_world M k)"
    and "unchanged (m_view M) (host_state (m_world M k)) (host_state (m_world M k'))"
  shows "mount_file M k' = mount_file M k"
  using assms by (intro ext) (simp add: mount_file_def unchanged_def)

lemma mount_file_upd:
  assumes m: "mount_fits M" and f: "mount_file M k p = Some x"
    and k': "seen_in M (m_world M k') = (seen_in M (m_world M k))(m_ino M p := V')"
      "content (m_view M) (host_state (m_world M k')) = (content (m_view M) (host_state (m_world M k)))(m_ino M p := D')"
      "path_ino (m_view M) (host_state (m_world M k')) = path_ino (m_view M) (host_state (m_world M k))"
  shows "mount_file M k' = (mount_file M k)(p := Some (V', D'))"
proof
  fix q
  note F = mount_file_SomeD [OF f]
  show "mount_file M k' q = ((mount_file M k)(p := Some (V', D'))) q"
  proof (cases "q = p")
    case True
    then show ?thesis using F(1,2) by (simp add: mount_file_def k')
  next
    case False
    then have "m_ino M q \<noteq> m_ino M p" if "q \<in> m_paths M" using own_ino [OF m that F(1)] by simp
    then show ?thesis using False by (simp add: mount_file_def k')
  qed
qed

lemma mounted_open:
  assumes inv: "mount_inv K M k" and f: "mount_file M k p = Some x" "\<forall>fd m. mount_fd M k fd \<noteq> Some (p, m)"
    and m: "m \<in> {O_RDONLY, O_WRONLY, O_RDWR}" "flags \<in> {m, O_CREAT + m}"
  shows "\<exists>fd k'. c_open K p flags mode k = (fd, k') \<and> 0 \<le> fd \<and> mount_inv K M k' \<and> mount_file M k' = mount_file M k \<and>
    mount_fd M k fd = None \<and> mount_fd M k' = (mount_fd M k)(fd := Some (p, m))"
proof -
  note I = mount_invD [OF inv]
  note F = mount_file_SomeD [OF f(1)]
  have "forwards_open K M" using I(1) by (simp add: forwards_def)
  then obtain w1 where w1: "looks M (m_world M k) w1"
    "\<And>fi w2. request M (T_open (m_name M p) (open_info m)) w1 = Inr (R_open 0 fi, w2) \<Longrightarrow>
       \<exists>fd k'. c_open K p flags mode k = (fd, k') \<and> 0 \<le> fd \<and> m_fds M k fd = None \<and>
         m_fds M k' = (m_fds M k)(fd := Some (p, fi)) \<and> looks M w2 (m_world M k')"
    using m F(2) unfolding forwards_open_def by blast
  note D = departs [OF inv w1(1)]
  have p1: "path_ino (m_view M) (host_state w1) (m_name M p) \<noteq> None" using F(2) D(4) by (simp add: unchanged_def)
  obtain fi w2 where o: "request M (T_open (m_name M p) (open_info m)) w1 = Inr (R_open 0 fi, w2)" "served M w2"
    "seen_in M w2 = seen_in M w1" "content (m_view M) (host_state w2) = content (m_view M) (host_state w1)"
    "path_ino (m_view M) (host_state w2) = path_ino (m_view M) (host_state w1)"
    "fd_ino (m_view M) (host_state w1) (fh fi) = None"
    "fd_ino (m_view M) (host_state w2) = (fd_ino (m_view M) (host_state w1))(fh fi := Some (m_ino M p))"
    "0 < fh fi" "\<not> direct_io fi" "fi_flags fi = m"
    by (rule open_served [OF D(1) F(1) p1 m(1)])
  obtain fd k' where k': "c_open K p flags mode k = (fd, k')" "m_fds M k fd = None"
    "m_fds M k' = (m_fds M k)(fd := Some (p, fi))" "looks M w2 (m_world M k')" "0 \<le> fd"
    using w1(2) [OF o(1)] by blast
  have "path_ino (m_view M) (host_state w1) (m_name M p) = Some (m_ino M p)" using servedD(7) [OF D(1) F(1)] p1 by auto
  moreover have "\<forall>fd' p' fi'. m_fds M k fd' = Some (p', fi') \<longrightarrow> \<not> fh fi' = fh fi \<and> \<not> fh fi = fh fi'"
    using table_okD(2) [OF D(2)] o(6) by (fastforce simp: open_at_def)
  ultimately have "table_ok M w2 (m_fds M k')"
    using D(2) o(5,7-9) F(1) unfolding k'(3) by (auto simp: table_ok_def open_at_def)
  note A = arrives [OF inv k'(4) o(2) this]
  have "mount_file M k' = mount_file M k"
    using A(2,3) D(3,4) o(3-5) by (intro ext) (simp add: mount_file_def unchanged_def)
  then show ?thesis using k'(1-3,5) A(1) o(10) by (auto simp: mount_fd_def fun_eq_iff)
qed

lemma mounted_close:
  assumes inv: "mount_inv K M k" and fd: "mount_fd M k fd = Some (p, m)"
  shows "\<exists>k'. c_close K fd k = (0, k') \<and> mount_inv K M k' \<and> mount_file M k' = mount_file M k \<and>
    mount_fd M k' = (mount_fd M k)(fd := None)"
proof -
  note I = mount_invD [OF inv]
  obtain fi where fi: "m_fds M k fd = Some (p, fi)" using mount_fd_SomeD [OF fd] by blast
  obtain w1 where w1: "looks M (m_world M k) w1"
    "\<And>r w2. request M (T_release (m_name M p) fi) w1 = Inr (R_status r, w2) \<Longrightarrow>
       \<exists>k'. c_close K fd k = (0, k') \<and> m_fds M k' = (m_fds M k)(fd := None) \<and> looks M w2 (m_world M k')"
    using I(1) fi unfolding forwards_def forwards_close_def by blast
  note D = departs [OF inv w1(1)]
  have "fh fi \<noteq> 0" using table_okD(2) [OF D(2) fi] by (simp add: open_at_def)
  then obtain r w2 where o: "request M (T_release (m_name M p) fi) w1 = Inr (R_status r, w2)" "served M w2"
    "seen_in M w2 = seen_in M w1" "content (m_view M) (host_state w2) = content (m_view M) (host_state w1)"
    "path_ino (m_view M) (host_state w2) = path_ino (m_view M) (host_state w1)"
    "fd_ino (m_view M) (host_state w2) = (fd_ino (m_view M) (host_state w1))(fh fi := None)"
    by (rule release_served [OF D(1)])
  obtain k' where k': "c_close K fd k = (0, k')" "m_fds M k' = (m_fds M k)(fd := None)" "looks M w2 (m_world M k')"
    using w1(2) [OF o(1)] by blast
  have "table_ok M w2 (m_fds M k')"
    using D(2) table_okD(3) [OF D(2) fi] o(5,6) k'(2) by (auto simp: table_ok_def open_at_def)
  note A = arrives [OF inv k'(3) o(2) this]
  have "mount_file M k' = mount_file M k"
    using A(2,3) D(3,4) o(3-5) by (intro ext) (simp add: mount_file_def unchanged_def)
  then show ?thesis using k'(1,2) A(1) by (auto simp: mount_fd_def fun_eq_iff)
qed

lemma mounted_write:
  assumes inv: "mount_inv K M k" and f: "mount_file M k p = Some (V, D)" and fd: "mount_fd M k fd = Some (p, m)"
    and m: "m \<in> {O_WRONLY, O_RDWR}" and r: "bs \<noteq> []" "0 \<le> off" "off + int (length bs) \<le> m_limit M"
  shows "\<exists>k'. c_pwrite K fd bs off k = (int (length bs), k') \<and> mount_inv K M k' \<and> mount_fd M k' = mount_fd M k \<and>
    mount_file M k' = (mount_file M k)(p := Some (file_write V off bs, D))"
proof -
  note I = mount_invD [OF inv]
  note F = mount_file_SomeD [OF f]
  obtain fi where fi: "m_fds M k fd = Some (p, fi)" and fm: "fi_flags fi \<in> {O_WRONLY, O_RDWR}"
    using mount_fd_SomeD [OF fd] m by blast
  obtain w1 where w1: "looks M (m_world M k) w1"
    "\<And>r w2. request M (T_write (m_name M p) bs (int (length bs)) off (Some fi)) w1 = Inr (R_status r, w2) \<Longrightarrow> 0 \<le> r \<Longrightarrow>
       \<exists>k'. c_pwrite K fd bs off k = (r, k') \<and> m_fds M k' = m_fds M k \<and> looks M w2 (m_world M k')"
    using I(1) fi fm unfolding forwards_def forwards_pwrite_def by blast
  note E = departs [OF inv w1(1)]
  obtain w2 where o: "request M (T_write (m_name M p) bs (int (length bs)) off (Some fi)) w1 = Inr (R_status (int (length bs)), w2)"
    "served M w2" "seen_in M w2 = (seen_in M w1)(m_ino M p := file_write (seen_in M w1 (m_ino M p)) off bs)"
    "unchanged (m_view M) (host_state w1) (host_state w2)"
    by (rule write_served [OF E(1) I(2) F(1) table_okD(2) [OF E(2) fi] r])
  obtain k' where k': "c_pwrite K fd bs off k = (int (length bs), k')" "m_fds M k' = m_fds M k" "looks M w2 (m_world M k')"
    using w1(2) [OF o(1)] by auto
  have "table_ok M w2 (m_fds M k')" using table_ok_cong [OF E(2) o(4)] by (simp add: k'(2))
  note A = arrives [OF inv k'(3) o(2) this]
  have "mount_file M k' = (mount_file M k)(p := Some (file_write V off bs, D))"
    by (rule mount_file_upd [OF I(2) f]) (use A(2,3) E(3,4) o(3,4) F(3) in \<open>simp_all add: unchanged_def\<close>)
  then show ?thesis using k'(1,2) A(1) by (auto simp: mount_fd_def fun_eq_iff)
qed

lemma mounted_read:
  assumes inv: "mount_inv K M k" and f: "mount_file M k p = Some (V, D)" and fd: "mount_fd M k fd = Some (p, m)"
    and m: "m \<in> {O_RDONLY, O_RDWR}" and r: "0 < n" "0 \<le> off" "off + n \<le> m_limit M"
      "off + n \<le> int (length V) \<or> (off + n) mod IO_BLOCK_SIZE (FSConfig (m_env M)) = 0"
  shows "\<exists>k'. c_pread K fd n off k =
      ((int (length (take (nat n) (drop (nat off) V))), take (nat n) (drop (nat off) V)), k') \<and>
    mount_inv K M k' \<and> mount_fd M k' = mount_fd M k \<and> mount_file M k' = mount_file M k"
proof -
  note I = mount_invD [OF inv]
  note F = mount_file_SomeD [OF f]
  obtain fi where fi: "m_fds M k fd = Some (p, fi)" and fm: "fi_flags fi \<in> {O_RDONLY, O_RDWR}"
    using mount_fd_SomeD [OF fd] m by blast
  obtain w1 buf where w1: "looks M (m_world M k) w1" "length buf = nat n"
    "\<And>r bs w2. request M (T_read (m_name M p) buf n off (Some fi)) w1 = Inr (R_data r bs, w2) \<Longrightarrow> 0 \<le> r \<Longrightarrow>
       \<exists>k'. c_pread K fd n off k = ((r, take (nat r) bs), k') \<and> m_fds M k' = m_fds M k \<and> looks M w2 (m_world M k')"
    using I(1) fi fm unfolding forwards_def forwards_pread_def by blast
  note E = departs [OF inv w1(1)]
  have V: "V = seen_in M w1 (m_ino M p)" using F(3) E(3) by simp
  obtain bs w2 where o: "request M (T_read (m_name M p) buf n off (Some fi)) w1 =
      Inr (R_data (int (length (take (nat n) (drop (nat off) V)))) bs, w2)"
    "take (length (take (nat n) (drop (nat off) V))) bs = take (nat n) (drop (nat off) V)" "served M w2" "same_view M w1 w2"
    unfolding V by (rule read_served [OF E(1) I(2) F(1) table_okD(2) [OF E(2) fi] w1(2) r(1-3)]) (use r(4) V in auto)
  obtain k' where k': "c_pread K fd n off k =
      ((int (length (take (nat n) (drop (nat off) V))), take (nat n) (drop (nat off) V)), k')"
    "m_fds M k' = m_fds M k" "looks M w2 (m_world M k')"
    using w1(3) [OF o(1)] o(2) by auto
  have u: "unchanged (m_view M) (host_state w1) (host_state w2)" "seen_in M w2 = seen_in M w1"
    using o(4) by (simp_all add: same_view_def)
  have "table_ok M w2 (m_fds M k')" using table_ok_cong [OF E(2) u(1)] by (simp add: k'(2))
  note A = arrives [OF inv k'(3) o(3) this]
  have "mount_file M k' = mount_file M k"
    by (rule mount_file_same) (use A(2,3) E(3,4) u in \<open>simp_all add: unchanged_def\<close>)
  then show ?thesis using k'(1,2) A(1) by (auto simp: mount_fd_def fun_eq_iff)
qed

lemma mounted_lseek:
  assumes inv: "mount_inv K M k" and f: "mount_file M k p = Some (V, D)" and fd: "mount_fd M k fd = Some (p, m)"
  shows "\<exists>k'. c_lseek_end K fd k = (int (length V), k') \<and> mount_inv K M k' \<and> mount_fd M k' = mount_fd M k \<and>
    mount_file M k' = mount_file M k"
proof -
  note I = mount_invD [OF inv]
  note F = mount_file_SomeD [OF f]
  obtain fi where fi: "m_fds M k fd = Some (p, fi)" using mount_fd_SomeD [OF fd] by blast
  obtain w1 where w1: "looks M (m_world M k) w1"
    "\<And>st w2. request M (T_getattr (m_name M p)) w1 = Inr (R_attr 0 st, w2) \<Longrightarrow>
       \<exists>k'. c_lseek_end K fd k = (st_size st, k') \<and> m_fds M k' = m_fds M k \<and> looks M w2 (m_world M k')"
    using I(1) fi unfolding forwards_def forwards_lseek_def by blast
  note E = departs [OF inv w1(1)]
  have p1: "path_ino (m_view M) (host_state w1) (m_name M p) \<noteq> None" using F(2) E(4) by (simp add: unchanged_def)
  obtain st w2 where g: "request M (T_getattr (m_name M p)) w1 = Inr (R_attr 0 st, w2)"
    "\<forall>i. path_ino (m_view M) (host_state w1) (m_name M p) = Some i \<longrightarrow> st_size st = int (length (seen_in M w1 i))"
    by (rule getattr_served [OF E(1) p1])
  have "path_ino (m_view M) (host_state w1) (m_name M p) = Some (m_ino M p)" using servedD(7) [OF E(1) F(1)] p1 by auto
  then have size: "st_size st = int (length V)" using g(2) F(3) E(3) by simp
  have L: "served M w2" "seen_in M w2 = seen_in M w1" "unchanged (m_view M) (host_state w1) (host_state w2)"
    using look_keeps [OF E(1) p1 g(1)] by (simp_all add: same_view_def)
  obtain k' where k': "c_lseek_end K fd k = (int (length V), k')" "m_fds M k' = m_fds M k" "looks M w2 (m_world M k')"
    using w1(2) [OF g(1)] size by auto
  have "table_ok M w2 (m_fds M k')" using table_ok_cong [OF E(2) L(3)] by (simp add: k'(2))
  note A = arrives [OF inv k'(3) L(1) this]
  have "mount_file M k' = mount_file M k"
    by (rule mount_file_same) (use A(2,3) E(3,4) L(2,3) in \<open>simp_all add: unchanged_def\<close>)
  then show ?thesis using k'(1,2) A(1) by (auto simp: mount_fd_def fun_eq_iff)
qed

lemma mounted_sync:
  assumes inv: "mount_inv K M k" and f: "mount_file M k p = Some (V, D)" and fd: "mount_fd M k fd = Some (p, m)"
  shows "\<exists>k'. c_fsync K fd k = (0, k') \<and> mount_inv K M k' \<and> mount_fd M k' = mount_fd M k \<and>
    mount_file M k' = (mount_file M k)(p := Some (V, V))"
proof -
  note I = mount_invD [OF inv]
  note F = mount_file_SomeD [OF f]
  obtain fi where fi: "m_fds M k fd = Some (p, fi)" using mount_fd_SomeD [OF fd] by blast
  obtain w1 where w1: "looks M (m_world M k) w1"
    "\<And>r w2. request M (T_fsync (m_name M p) False (Some fi)) w1 = Inr (R_status r, w2) \<Longrightarrow> 0 \<le> r \<Longrightarrow>
       \<exists>k'. c_fsync K fd k = (r, k') \<and> m_fds M k' = m_fds M k \<and> looks M w2 (m_world M k')"
    using I(1) fi unfolding forwards_def forwards_fsync_def by blast
  note E = departs [OF inv w1(1)]
  have p1: "path_ino (m_view M) (host_state w1) (m_name M p) \<noteq> None" using F(2) E(4) by (simp add: unchanged_def)
  obtain w2 where o: "request M (T_fsync (m_name M p) False (Some fi)) w1 = Inr (R_status 0, w2)" "served M w2"
    "seen_in M w2 = seen_in M w1"
    "content (m_view M) (host_state w2) = (content (m_view M) (host_state w1))(m_ino M p := seen_in M w1 (m_ino M p))"
    "path_ino (m_view M) (host_state w2) = path_ino (m_view M) (host_state w1)"
    "fd_ino (m_view M) (host_state w2) = fd_ino (m_view M) (host_state w1)"
    by (rule sync_served [OF E(1) F(1) p1])
  obtain k' where k': "c_fsync K fd k = (0, k')" "m_fds M k' = m_fds M k" "looks M w2 (m_world M k')"
    using w1(2) [OF o(1)] by auto
  have "table_ok M w2 (m_fds M k')" using E(2) o(5,6) by (simp add: k'(2) table_ok_def open_at_def)
  note A = arrives [OF inv k'(3) o(2) this]
  have "mount_file M k' = (mount_file M k)(p := Some (V, V))"
    by (rule mount_file_upd [OF I(2) f]) (use A(2,3) E(3,4) o(3-5) F(3) in \<open>simp_all add: unchanged_def\<close>)
  then show ?thesis using k'(1,2) A(1) by (auto simp: mount_fd_def fun_eq_iff)
qed

lemma mounted_unlink:
  assumes inv: "mount_inv K M k" and f: "mount_file M k p = Some x" and fd: "\<forall>fd m. mount_fd M k fd \<noteq> Some (p, m)"
  shows "\<exists>k'. c_unlink K p k = (0, k') \<and> mount_inv K M k' \<and> mount_fd M k' = mount_fd M k \<and>
    mount_file M k' = (mount_file M k)(p := None)"
proof -
  note I = mount_invD [OF inv]
  note F = mount_file_SomeD [OF f]
  obtain w1 where w1: "looks M (m_world M k) w1"
    "\<And>st w2 r w3. request M (T_getattr (m_name M p)) w1 = Inr (R_attr 0 st, w2) \<Longrightarrow>
        request M (T_unlink (m_name M p)) w2 = Inr (R_status r, w3) \<Longrightarrow>
        \<exists>k'. c_unlink K p k = (r, k') \<and> m_fds M k' = m_fds M k \<and> looks M w3 (m_world M k')"
    using I(1) unfolding forwards_def forwards_unlink_def by blast
  note E = departs [OF inv w1(1)]
  have p1: "path_ino (m_view M) (host_state w1) (m_name M p) \<noteq> None" using F(2) E(4) by (simp add: unchanged_def)
  obtain st w2 where g: "request M (T_getattr (m_name M p)) w1 = Inr (R_attr 0 st, w2)"
    by (rule getattr_served [OF E(1) p1])
  have L: "served M w2" "seen_in M w2 = seen_in M w1" "unchanged (m_view M) (host_state w1) (host_state w2)"
    "fmlookup (file_inode_mapping (FSCache w2)) (m_name M p) \<noteq> None"
    using look_keeps [OF E(1) p1 g] by (simp_all add: same_view_def)
  have p2: "path_ino (m_view M) (host_state w2) (m_name M p) \<noteq> None" using p1 L(3) by (simp add: unchanged_def)
  obtain w3 where o: "request M (T_unlink (m_name M p)) w2 = Inr (R_status 0, w3)" "served M w3"
    "content (m_view M) (host_state w3) = content (m_view M) (host_state w2)"
    "\<forall>j. j \<noteq> m_ino M p \<longrightarrow> seen_in M w3 j = seen_in M w2 j"
    "path_ino (m_view M) (host_state w3) = (path_ino (m_view M) (host_state w2))(m_name M p := None)"
    "fd_ino (m_view M) (host_state w3) = fd_ino (m_view M) (host_state w2)"
    by (rule unlink_served [OF L(1) I(2) F(1) p2 L(4)])
  obtain k' where k': "c_unlink K p k = (0, k')" "m_fds M k' = m_fds M k" "looks M w3 (m_world M k')"
    using w1(2) [OF g o(1)] by blast
  have names: "m_name M q \<noteq> m_name M p" if "q \<in> m_paths M" "q \<noteq> p" for q
    using I(2) F(1) that unfolding mount_fits_def by (meson inj_on_eq_iff)
  have "p' \<noteq> p" if "m_fds M k fd = Some (p', fi)" for fd p' fi
    using fd that by (auto simp: mount_fd_def)
  then have "table_ok M w3 (m_fds M k')"
    using E(2) L(3) o(5,6) k'(2) names unfolding table_ok_def open_at_def unchanged_def by auto
  note A = arrives [OF inv k'(3) o(2) this]
  have "mount_file M k' q = ((mount_file M k)(p := None)) q" for q
  proof (cases "q = p \<or> q \<notin> m_paths M")
    case True
    then show ?thesis using A(3) o(5) by (auto simp: mount_file_def unchanged_def)
  next
    case False
    then have q: "q \<in> m_paths M" "q \<noteq> p" by simp_all
    have "m_ino M q \<noteq> m_ino M p" using own_ino [OF I(2) q(1) F(1)] q(2) by simp
    then show ?thesis
      using A(2,3) E(3,4) L(2,3) o(3-5) names [OF q] q(2) by (simp add: mount_file_def unchanged_def)
  qed
  then show ?thesis using A(1) k'(1,2) by (auto simp: mount_fd_def fun_eq_iff)
qed

lemma mounted_clear:
  assumes inv: "mount_inv K M k"
  shows "\<exists>r k'. c_fifo K clear_command k = (r, k') \<and> mount_inv K M k' \<and> mount_fd M k' = mount_fd M k \<and>
    (r = None \<and> mount_file M k' = mount_file M k \<or>
     r = Some 20 \<and> mount_file M k' = (\<lambda>p. map_option (\<lambda>(V, D). (D, D)) (mount_file M k p)))"
proof -
  note I = mount_invD [OF inv]
  have "length clear_command = 20" by (simp add: clear_command_def)
  then obtain r k' w1 where k': "c_fifo K clear_command k = (r, k')" "m_fds M k' = m_fds M k" "looks M (m_world M k) w1"
    "r = None \<and> m_world M k' = w1 \<or> r = Some 20 \<and>
       (\<forall>reply w2. worker_command (m_env M) clear_command w1 = Inr (reply, w2) \<longrightarrow> looks M w2 (m_world M k'))"
    using I(1) unfolding forwards_def forwards_fifo_def by fastforce
  note E = departs [OF inv k'(3)]
  have fds: "mount_fd M k' = mount_fd M k" by (simp add: mount_fd_def fun_eq_iff k'(2))
  from k'(4) show ?thesis
  proof (elim disjE conjE)
    assume n: "r = None" "m_world M k' = w1"
    have "mount_inv K M k'" using I E n(2) by (simp add: mount_inv_def k'(2))
    moreover have "mount_file M k' = mount_file M k" by (rule mount_file_same) (use E(3,4) n(2) in simp_all)
    ultimately show ?thesis using k'(1) fds n(1) by blast
  next
    assume y: "r = Some 20"
      "\<forall>reply w2. worker_command (m_env M) clear_command w1 = Inr (reply, w2) \<longrightarrow> looks M w2 (m_world M k')"
    obtain w2 where o: "worker_command (m_env M) clear_command w1 = Inr (CacheCleared, w2)" "served M w2"
      "seen_in M w2 = content (m_view M) (host_state w1)" "host_state w2 = host_state w1"
      by (rule clear_served [OF E(1)])
    have "table_ok M w2 (m_fds M k')" using E(2) by (simp add: k'(2) table_ok_def o(4))
    note A = arrives [OF inv y(2) [rule_format, OF o(1)] o(2) this]
    have "mount_file M k' = (\<lambda>p. map_option (\<lambda>(V, D). (D, D)) (mount_file M k p))"
      using A(2,3) E(3,4) o(3,4) by (intro ext) (auto simp: mount_file_def unchanged_def)
    then show ?thesis using k'(1) fds y(1) A(1) by blast
  qed
qed

interpretation files: file_calls K "m_paths M" "IO_BLOCK_SIZE (FSConfig (m_env M))" "m_limit M" "mount_inv K M"
  "mount_file M" "mount_fd M" for K M
proof
  show "0 < m_limit M \<and> m_limit M mod IO_BLOCK_SIZE (FSConfig (m_env M)) = 0" if "mount_inv K M k" for k
    using mount_invD(2) [OF that] by (simp add: mount_fits_def)
qed (rule mounted_open mounted_close mounted_write mounted_read mounted_lseek mounted_sync mounted_unlink mounted_clear;
     assumption)+

end
