(* ===== verification/Fresh_Mount.thy ===== *)
theory Fresh_Mount
  imports Mounted
begin

text \<open>
  Creating a file on a LazyFS that has just been mounted. Which inode the host gives the file is not
  known in advance, so it is found out by the call: after it the mount keeps the contract of the
  calls with that inode.
\<close>

section \<open>The call\<close>

text \<open>
  The kernel creates a file that is not there and opens it at once; the flags it hands on later are
  without \<open>O_CREAT\<close>.
\<close>

definition forwards_create :: "'k calls \<Rightarrow> ('k, 'd) mount \<Rightarrow> bool" where
  "forwards_create K M \<longleftrightarrow> (\<forall>k p m mode. m \<in> {O_RDONLY, O_WRONLY, O_RDWR} \<longrightarrow>
     path_ino (m_view M) (host_state (m_world M k)) (m_name M p) = None \<longrightarrow> (\<exists>w1 mode'. looks M (m_world M k) w1 \<and>
     (\<forall>fi w2. request M (T_create (m_name M p) mode' (open_info (O_CREAT + m))) w1 = Inr (R_open 0 fi, w2) \<longrightarrow>
        (\<exists>fd k'. c_open K p (O_CREAT + m) mode k = (fd, k') \<and> 0 \<le> fd \<and> m_fds M k fd = None \<and>
           m_fds M k' = (m_fds M k)(fd := Some (p, fi\<lparr>fi_flags := m\<rparr>)) \<and> looks M w2 (m_world M k')))))"

text \<open>
  The mount has nothing in its cache, the file is not there and the host creates it with an inode
  that no path has.
\<close>

definition fresh_mount :: "'k calls \<Rightarrow> ('k, 'd) mount \<Rightarrow> string \<Rightarrow> 'k \<Rightarrow> bool" where
  "fresh_mount K M p k \<longleftrightarrow> forwards K M \<and> forwards_create K M \<and> mount_fits M \<and> m_paths M = {p} \<and>
     m_fds M k = (\<lambda>_. None) \<and>
     (let w = m_world M k; d = host_state w; name = m_name M p
      in fs_inv (m_env M) (m_view M) w \<and> calm (m_env M) name w \<and> fd_ino (m_view M) d 0 \<noteq> None \<and>
         contents (FSCache w) = fmempty \<and> file_inode_mapping (FSCache w) = fmempty \<and>
         path_ino (m_view M) d name = None \<and> fst (os_lstat (eos (m_env M)) name d) = - 1 \<and>
         (\<forall>flags mode. has_flag flags O_CREAT \<longrightarrow>
            (\<exists>fd d' i. os_open (eos (m_env M)) name flags mode d = (fd, d') \<and> 0 < fd \<and>
               path_ino (m_view M) d' name = Some i \<and> (\<forall>q. path_ino (m_view M) d q \<noteq> Some i))))"

section \<open>Lookups before it\<close>

text \<open>The items of the cache are of files that have a name, and the file to be created is not among them.\<close>

definition without_file :: "('k, 'd) mount \<Rightarrow> 'd \<Rightarrow> string \<Rightarrow> (engine, 'd) world \<Rightarrow> bool" where
  "without_file M d name w \<longleftrightarrow> fs_inv (m_env M) (m_view M) w \<and> calm (m_env M) name w \<and> host_state w = d \<and>
     cached (FSCache w) = {} \<and> fmlookup (file_inode_mapping (FSCache w)) name = None \<and>
     (\<forall>cid. fmlookup (contents (FSCache w)) cid \<noteq> None \<longrightarrow> (\<exists>q i. path_ino (m_view M) d q = Some i \<and> cid = to_string i))"

lemma looks_without_file:
  assumes "looks M w w'" and "without_file M d name w" and name: "path_ino (m_view M) d name = None"
  shows "without_file M d name w'"
  using assms(1,2)
proof induction
  case (looks_again w w1 path r st w2)
  have W: "without_file M d name w1" by (rule looks_again.IH [OF looks_again.prems])
  then have w1: "mounted (m_env M) (m_view M)" "files_ok (FSConfig (m_env M)) (m_view M) (FSCache w1) (host_state w1)"
    "host_state w1 = d" by (auto simp: without_file_def fs_inv_def)
  obtain i where i: "path_ino (m_view M) (host_state w1) path = Some i" using looks_again.hyps(2) by blast
  have other: "name \<noteq> path" using i name w1(3) by auto
  obtain st' C' where g: "lfs_getattr (m_env M) path w1 = Inr ((0, st'), w1\<lparr>FSCache := C'\<rparr>)"
    "files_ok (FSConfig (m_env M)) (m_view M) C' (host_state w1)" "cengine C' = cengine (FSCache w1)"
    "\<forall>cid. cid \<noteq> to_string i \<longrightarrow> fmlookup (contents C') cid = fmlookup (contents (FSCache w1)) cid"
    "\<forall>q. q \<noteq> path \<longrightarrow> fmlookup (file_inode_mapping C') q = fmlookup (file_inode_mapping (FSCache w1)) q"
    using getattr_ok [OF w1(1,2) i] by blast
  have w2: "w2 = w1\<lparr>FSCache := C'\<rparr>"
    using looks_again.hyps(3) g(1) by (simp add: serve_def load_operations_def replying_def)
  have "\<exists>q i. path_ino (m_view M) d q = Some i \<and> cid = to_string i" if "fmlookup (contents C') cid \<noteq> None" for cid
    using that W i g(4) w1(3) unfolding without_file_def by (cases "cid = to_string i") auto
  then show ?case
    using W g(2,5) other cached_cengine [OF g(3)] by (auto simp: w2 without_file_def fs_inv_def)
qed

lemma fresh_without_file:
  assumes "fresh_mount K M p k"
  shows "without_file M (host_state (m_world M k)) (m_name M p) (m_world M k)"
proof -
  let ?w = "m_world M k"
  have f: "fs_inv (m_env M) (m_view M) ?w" "calm (m_env M) (m_name M p) ?w" "contents (FSCache ?w) = fmempty"
    "file_inode_mapping (FSCache ?w) = fmempty"
    using assms by (simp_all add: fresh_mount_def Let_def)
  then have "cached (FSCache ?w) = {}"
    using unknown_blocks [OF files_atD(2)] by (fastforce simp: fs_inv_def cached_def blocks_of_def)
  then show ?thesis using f by (simp add: without_file_def)
qed

section \<open>The mount with the inode of the file\<close>

abbreviation with_ino :: "int \<Rightarrow> ('k, 'd) mount \<Rightarrow> ('k, 'd) mount" where
  "with_ino i M \<equiv> M\<lparr>m_ino := \<lambda>_. i\<rparr>"

lemma looks_ino [simp]: "looks (M\<lparr>m_ino := f\<rparr>) w w' \<longleftrightarrow> looks M w w'"
proof
  show "looks M w w'" if "looks (M\<lparr>m_ino := f\<rparr>) w w'"
    using that
  proof induction
    case (looks_again w w1 path r st w2)
    then show ?case using looks.looks_again [of M w w1 path r st w2] by simp
  qed auto
  show "looks (M\<lparr>m_ino := f\<rparr>) w w'" if "looks M w w'"
    using that
  proof induction
    case (looks_again w w1 path r st w2)
    then show ?case using looks.looks_again [of "M\<lparr>m_ino := f\<rparr>" w w1 path r st w2] by simp
  qed auto
qed

lemma forwards_ino [simp]: "forwards K (M\<lparr>m_ino := f\<rparr>) \<longleftrightarrow> forwards K M"
  by (simp add: forwards_def forwards_open_def forwards_close_def forwards_pwrite_def forwards_pread_def
      forwards_lseek_def forwards_fsync_def forwards_unlink_def forwards_fifo_def)

lemma mount_fits_ino: "mount_fits M \<Longrightarrow> m_paths M = {p} \<Longrightarrow> mount_fits (with_ino i M)"
  by (simp add: mount_fits_def)

lemma create_served:
  assumes W: "without_file M d (m_name M p) w" and p: "m_paths M = {p}" "0 < m_limit M" "fd_ino (m_view M) d 0 \<noteq> None"
    and gone: "fst (os_lstat (eos (m_env M)) (m_name M p) d) = - 1"
    and os: "os_open (eos (m_env M)) (m_name M p) (O_CREAT + m) mode d = (fh', d')" "0 < fh'"
    and i: "path_ino (m_view M) d' (m_name M p) = Some i" "\<forall>q. path_ino (m_view M) d q \<noteq> Some i"
    and m: "m \<in> {O_RDONLY, O_WRONLY, O_RDWR}"
  obtains w' where
    "request M (T_create (m_name M p) mode (open_info (O_CREAT + m))) w = Inr (R_open 0 ((open_info (O_CREAT + m))\<lparr>fh := fh'\<rparr>), w')"
    "served (with_ino i M) w'" "seen_in M w' i = []" "content (m_view M) (host_state w') i = []"
    "path_ino (m_view M) (host_state w') (m_name M p) = Some i" "fd_ino (m_view M) (host_state w') fh' = Some i"
proof -
  have w: "mounted (m_env M) (m_view M)" "files_ok (FSConfig (m_env M)) (m_view M) (FSCache w) (host_state w)"
    "calm (m_env M) (m_name M p) w" "host_state w = d" "shared_locks w = 0" "cached (FSCache w) = {}"
    "fmlookup (file_inode_mapping (FSCache w)) (m_name M p) = None" "fmlookup (contents (FSCache w)) (to_string i) = None"
    using W i(2) by (auto simp: without_file_def fs_inv_def)
  have fl: "has_flag (fi_flags (open_info (O_CREAT + m))) O_CREAT"
    using m by (auto simp: has_flag_def open_info_def O_CREAT_def O_RDONLY_def O_WRONLY_def O_RDWR_def)
  obtain C' where c: "lfs_create (m_env M) (m_name M p) mode (open_info (O_CREAT + m)) w =
      Inr ((0, (open_info (O_CREAT + m))\<lparr>fh := fh'\<rparr>), w\<lparr>FSCache := C', host_state := d'\<rparr>)"
    "fd_ino (m_view M) d' = (fd_ino (m_view M) d)(fh' := Some i)"
    "content (m_view M) d' = (content (m_view M) d)(i := [])"
    "files_ok (FSConfig (m_env M)) (m_view M) C' d'"
    "seen (FSConfig (m_env M)) (m_view M) C' d' = (seen (FSConfig (m_env M)) (m_view M) (FSCache w) (host_state w))(i := [])"
    "cached C' = cached (FSCache w)"
    using lfs_create_ok [OF w(1) refl w(3,2) _ w(7) fl _ os(2) i(1) w(8), of mode] gone os(1) w(4)
    by (auto simp: open_info_def)
  have "served (with_ino i M) (w\<lparr>FSCache := C', host_state := d'\<rparr>)"
    using w c(2-6) p i(1) by (auto simp: served_def fs_inv_def)
  then show thesis
    using that [of "w\<lparr>FSCache := C', host_state := d'\<rparr>"] c i(1)
    by (simp add: serve_def load_operations_def replying_def)
qed

lemma mounted_create:
  assumes fresh: "fresh_mount K M p k" and m: "m \<in> {O_RDONLY, O_WRONLY, O_RDWR}"
  obtains fd k' i where "c_open K p (O_CREAT + m) mode k = (fd, k')" "0 \<le> fd" "mount_inv K (with_ino i M) k'"
    "mount_file (with_ino i M) k' p = Some ([], [])" "mount_fd (with_ino i M) k' = [fd \<mapsto> (p, m)]"
proof -
  let ?w = "m_world M k" and ?name = "m_name M p"
  define d where "d = host_state ?w"
  have f: "forwards K M" "forwards_create K M" "mount_fits M" "m_paths M = {p}" "m_fds M k = (\<lambda>_. None)"
    "path_ino (m_view M) d ?name = None" "fst (os_lstat (eos (m_env M)) ?name d) = - 1" "fd_ino (m_view M) d 0 \<noteq> None"
    "\<And>flags mode. has_flag flags O_CREAT \<Longrightarrow>
      \<exists>fd d' i. os_open (eos (m_env M)) ?name flags mode d = (fd, d') \<and> 0 < fd \<and>
        path_ino (m_view M) d' ?name = Some i \<and> (\<forall>q. path_ino (m_view M) d q \<noteq> Some i)"
    using fresh by (simp_all add: fresh_mount_def Let_def d_def)
  obtain w1 mode' where w1: "looks M ?w w1"
    "\<And>fi w2. request M (T_create ?name mode' (open_info (O_CREAT + m))) w1 = Inr (R_open 0 fi, w2) \<Longrightarrow>
        \<exists>fd k'. c_open K p (O_CREAT + m) mode k = (fd, k') \<and> 0 \<le> fd \<and> m_fds M k fd = None \<and>
           m_fds M k' = (m_fds M k)(fd := Some (p, fi\<lparr>fi_flags := m\<rparr>)) \<and> looks M w2 (m_world M k')"
    using f(2,6) m unfolding forwards_create_def d_def by metis
  have W: "without_file M d ?name w1"
    using looks_without_file [OF w1(1) fresh_without_file [OF fresh]] f(6) by (simp add: d_def)
  have "has_flag (O_CREAT + m) O_CREAT"
    using m by (auto simp: has_flag_def O_CREAT_def O_RDONLY_def O_WRONLY_def O_RDWR_def)
  then obtain fh' d' i where os: "os_open (eos (m_env M)) ?name (O_CREAT + m) mode' d = (fh', d')" "0 < fh'"
    "path_ino (m_view M) d' ?name = Some i" "\<forall>q. path_ino (m_view M) d q \<noteq> Some i"
    using f(9) by blast
  have limit: "0 < m_limit M" using f(3) by (simp add: mount_fits_def)
  obtain w2 where w2: "request M (T_create ?name mode' (open_info (O_CREAT + m))) w1 =
      Inr (R_open 0 ((open_info (O_CREAT + m))\<lparr>fh := fh'\<rparr>), w2)"
    "served (with_ino i M) w2" "seen_in M w2 i = []" "content (m_view M) (host_state w2) i = []"
    "path_ino (m_view M) (host_state w2) ?name = Some i" "fd_ino (m_view M) (host_state w2) fh' = Some i"
    by (rule create_served [OF W f(4) limit f(8,7) os m])
  obtain fd k' where k': "c_open K p (O_CREAT + m) mode k = (fd, k')" "0 \<le> fd"
    "m_fds M k' = [fd \<mapsto> (p, (open_info (O_CREAT + m))\<lparr>fh := fh', fi_flags := m\<rparr>)]" "looks M w2 (m_world M k')"
    using w1(2) [OF w2(1)] f(5) by (auto simp: fun_upd_def)
  have L: "served (with_ino i M) (m_world M k')" "seen_in M (m_world M k') = seen_in M w2"
    "unchanged (m_view M) (host_state w2) (host_state (m_world M k'))"
    using looks_keep [of "with_ino i M" w2 "m_world M k'"] k'(4) w2(2) by (simp_all add: same_view_def)
  have "table_ok (with_ino i M) (m_world M k') (m_fds M k')"
    using w2(5,6) os(2) L(3) f(4) by (auto simp: table_ok_def open_at_def k'(3) unchanged_def open_info_def split: if_splits)
  then have "mount_inv K (with_ino i M) k'"
    using f(1) mount_fits_ino [OF f(3,4)] L(1) by (simp add: mount_inv_def)
  moreover have "mount_file (with_ino i M) k' p = Some ([], [])"
    using f(4) L(2,3) w2(3-5) by (simp add: mount_file_def unchanged_def)
  moreover have "mount_fd (with_ino i M) k' = [fd \<mapsto> (p, m)]"
    by (auto simp: mount_fd_def k'(3) fun_eq_iff)
  ultimately show thesis by (rule that [OF k'(1,2)])
qed

end
