(* ===== verification/Direct_Calls.thy ===== *)
theory Direct_Calls
  imports Fresh_Mount
begin

text \<open>
  A kernel that turns every system call into one request, for the witnesses: it shows that what is
  assumed of the kernel can hold.
\<close>

record 'd direct =
  d_world :: "(engine, 'd) world"
  d_table :: "int \<Rightarrow> (string \<times> fuse_file_info) option"
  d_next :: nat

definition direct_fds :: "'d direct \<Rightarrow> int \<Rightarrow> (string \<times> fuse_file_info) option" where
  "direct_fds k fd = (if fd < int (d_next k) then d_table k fd else None)"

definition direct_mount ::
  "(engine, 'd) env \<Rightarrow> 'd view \<Rightarrow> string set \<Rightarrow> int \<Rightarrow> (string \<Rightarrow> int) \<Rightarrow> ('d direct, 'd) mount" where
  "direct_mount ev hv paths limit ino =
     \<lparr>m_env = ev, m_view = hv, m_setxattr = True, m_unset = (\<lambda>_. - 38), m_paths = paths,
      m_limit = limit, m_name = (\<lambda>p. CHR ''/'' # p),
      m_ino = ino, m_world = d_world, m_fds = direct_fds\<rparr>"

definition ask :: "(engine, 'd) env \<Rightarrow> fuse_request \<Rightarrow> 'd direct \<Rightarrow> fuse_reply \<times> 'd direct" where
  "ask ev req k =
     (case serve True (\<lambda>_. - 38) ev req (d_world k) of
        Inl _ \<Rightarrow> (R_status (- 5), k)
      | Inr (reply, w) \<Rightarrow> (reply, k\<lparr>d_world := w\<rparr>))"

fun reply_status :: "fuse_reply \<Rightarrow> int" where
  "reply_status (R_status r) = r"
| "reply_status (R_attr r st) = r"
| "reply_status (R_text r t) = r"
| "reply_status (R_data r bs) = r"
| "reply_status (R_open r fi) = r"
| "reply_status (R_dir r names) = r"

definition with_fd :: "int \<Rightarrow> 'd direct \<Rightarrow> (string \<Rightarrow> fuse_file_info \<Rightarrow> fuse_request) \<Rightarrow> (engine, 'd) env \<Rightarrow> fuse_reply \<times> 'd direct" where
  "with_fd fd k req ev =
     (case direct_fds k fd of
        None \<Rightarrow> (R_status (- 9), k)
      | Some (p, fi) \<Rightarrow> ask ev (req (CHR ''/'' # p) fi) k)"

definition new_direct_fd ::
  "string \<Rightarrow> (fuse_file_info \<Rightarrow> fuse_file_info) \<Rightarrow> fuse_reply \<times> 'd direct \<Rightarrow> int \<times> 'd direct" where
  "new_direct_fd p g rk =
     (case rk of
        (R_open r fi, k) \<Rightarrow>
          if r = 0
          then (int (d_next k), k\<lparr>d_table := (d_table k)(int (d_next k) := Some (p, g fi)), d_next := Suc (d_next k)\<rparr>)
          else (- 1, k)
      | (_, k) \<Rightarrow> (- 1, k))"

definition direct_calls :: "(engine, 'd) env \<Rightarrow> 'd view \<Rightarrow> 'd direct calls" where
  "direct_calls ev hv =
     \<lparr>c_open = (\<lambda>p flags mode k.
        let access = (if has_flag flags O_CREAT then flags - O_CREAT else flags)
        in if has_flag flags O_CREAT \<and> path_ino hv (host_state (d_world k)) (CHR ''/'' # p) = None
           then new_direct_fd p (\<lambda>fi. fi\<lparr>fi_flags := access\<rparr>) (ask ev (T_create (CHR ''/'' # p) mode (open_info flags)) k)
           else new_direct_fd p (\<lambda>fi. fi) (ask ev (T_open (CHR ''/'' # p) (open_info access)) k)),
      c_close = (\<lambda>fd k. let k = snd (with_fd fd k T_release ev) in (0, k\<lparr>d_table := (d_table k)(fd := None)\<rparr>)),
      c_pread = (\<lambda>fd n off k.
        case with_fd fd k (\<lambda>p fi. T_read p (replicate (nat n) 0) n off (Some fi)) ev of
          (R_data r bs, k) \<Rightarrow> ((r, take (nat r) bs), k)
        | (_, k) \<Rightarrow> ((- 1, []), k)),
      c_pwrite = (\<lambda>fd bs off k.
        let (reply, k) = with_fd fd k (\<lambda>p fi. T_write p bs (int (length bs)) off (Some fi)) ev in (reply_status reply, k)),
      c_lseek_end = (\<lambda>fd k.
        case with_fd fd k (\<lambda>p fi. T_getattr p) ev of
          (R_attr r st, k) \<Rightarrow> (if r = 0 then st_size st else - 1, k)
        | (_, k) \<Rightarrow> (- 1, k)),
      c_fsync = (\<lambda>fd k.
        let (reply, k) = with_fd fd k (\<lambda>p fi. T_fsync p False (Some fi)) ev in (reply_status reply, k)),
      c_unlink = (\<lambda>p k.
        let (_, k) = ask ev (T_getattr (CHR ''/'' # p)) k;
            (reply, k) = ask ev (T_unlink (CHR ''/'' # p)) k in (reply_status reply, k)),
      c_fifo = (\<lambda>cmd k.
        case worker_command ev cmd (d_world k) of
          Inl _ \<Rightarrow> (Some (int (length cmd)), k)
        | Inr (_, w) \<Rightarrow> (Some (int (length cmd)), k\<lparr>d_world := w\<rparr>))\<rparr>"

lemma direct_mount_simps [simp]:
  "m_env (direct_mount ev hv paths limit ino) = ev" "m_view (direct_mount ev hv paths limit ino) = hv" "m_ino (direct_mount ev hv paths limit ino) = ino"
  "m_name (direct_mount ev hv paths limit ino) p = CHR ''/'' # p" "m_world (direct_mount ev hv paths limit ino) = d_world"
  "m_fds (direct_mount ev hv paths limit ino) = direct_fds" "m_setxattr (direct_mount ev hv paths limit ino) = True"
  "m_unset (direct_mount ev hv paths limit ino) = (\<lambda>_. - 38)"
  "m_paths (direct_mount ev hv paths limit ino) = paths" "m_limit (direct_mount ev hv paths limit ino) = limit"
  by (simp_all add: direct_mount_def)

lemma ask_answered:
  "request (direct_mount ev hv paths limit ino) req (d_world k) = Inr (reply, w) \<Longrightarrow> ask ev req k = (reply, k\<lparr>d_world := w\<rparr>)"
  by (simp add: ask_def)

lemma with_fd_answered:
  "direct_fds k fd = Some (p, fi) \<Longrightarrow> request (direct_mount ev hv paths limit ino) (req (CHR ''/'' # p) fi) (d_world k) = Inr (reply, w) \<Longrightarrow>
   with_fd fd k req ev = (reply, k\<lparr>d_world := w\<rparr>)"
  by (simp add: with_fd_def ask_def)

lemma direct_fds_world [simp]: "direct_fds (k\<lparr>d_world := w\<rparr>) = direct_fds k"
  by (simp add: direct_fds_def fun_eq_iff)

lemma open_modes:
  assumes "m \<in> {O_RDONLY, O_WRONLY, O_RDWR}" and "flags \<in> {m, O_CREAT + m}"
  shows "(if has_flag flags O_CREAT then flags - O_CREAT else flags) = m"
  using assms by (auto simp: has_flag_def O_CREAT_def O_RDONLY_def O_WRONLY_def O_RDWR_def)

lemma create_modes:
  assumes "m \<in> {O_RDONLY, O_WRONLY, O_RDWR}"
  shows "has_flag (O_CREAT + m) O_CREAT"
  using assms by (auto simp: has_flag_def O_CREAT_def O_RDONLY_def O_WRONLY_def O_RDWR_def)

lemma new_direct_fd:
  "\<exists>fd k'. new_direct_fd p g (R_open 0 fi, k\<lparr>d_world := w\<rparr>) = (fd, k') \<and> 0 \<le> fd \<and> direct_fds k fd = None \<and>
    direct_fds k' = (direct_fds k)(fd := Some (p, g fi)) \<and> d_world k' = w"
  by (intro exI [of _ "int (d_next k)"]
      exI [of _ "k\<lparr>d_world := w, d_table := (d_table k)(int (d_next k) := Some (p, g fi)), d_next := Suc (d_next k)\<rparr>"])
    (auto simp: new_direct_fd_def direct_fds_def fun_eq_iff)

lemma direct_open:
  assumes m: "m \<in> {O_RDONLY, O_WRONLY, O_RDWR}" "flags \<in> {m, O_CREAT + m}"
    and there: "path_ino hv (host_state (d_world k)) (CHR ''/'' # p) \<noteq> None"
    and run: "request (direct_mount ev hv paths limit ino) (T_open (CHR ''/'' # p) (open_info m)) (d_world k) = Inr (R_open 0 fi, w)"
  shows "\<exists>fd k'. c_open (direct_calls ev hv) p flags mode k = (fd, k') \<and> 0 \<le> fd \<and> direct_fds k fd = None \<and>
    direct_fds k' = (direct_fds k)(fd := Some (p, fi)) \<and> d_world k' = w"
  using ask_answered [OF run] open_modes [OF m] there new_direct_fd [where p = p and g = "\<lambda>fi. fi" and fi = fi and k = k and w = w]
  by (auto simp: direct_calls_def)

lemma direct_create:
  assumes m: "m \<in> {O_RDONLY, O_WRONLY, O_RDWR}"
    and gone: "path_ino hv (host_state (d_world k)) (CHR ''/'' # p) = None"
    and run: "request (direct_mount ev hv paths limit ino) (T_create (CHR ''/'' # p) mode (open_info (O_CREAT + m))) (d_world k) =
      Inr (R_open 0 fi, w)"
  shows "\<exists>fd k'. c_open (direct_calls ev hv) p (O_CREAT + m) mode k = (fd, k') \<and> 0 \<le> fd \<and> direct_fds k fd = None \<and>
    direct_fds k' = (direct_fds k)(fd := Some (p, fi\<lparr>fi_flags := m\<rparr>)) \<and> d_world k' = w"
  using ask_answered [OF run] create_modes [OF m] gone new_direct_fd [where p = p and g = "\<lambda>fi. fi\<lparr>fi_flags := m\<rparr>" and fi = fi and k = k and w = w]
  by (simp add: direct_calls_def)

lemma direct_requests:
  assumes "direct_fds k fd = Some (p, fi)"
  shows "request (direct_mount ev hv paths limit ino) (T_release (CHR ''/'' # p) fi) (d_world k) = Inr (R_status r, w) \<Longrightarrow>
      \<exists>k'. c_close (direct_calls ev hv) fd k = (0, k') \<and> direct_fds k' = (direct_fds k)(fd := None) \<and> d_world k' = w"
    and "request (direct_mount ev hv paths limit ino) (T_write (CHR ''/'' # p) bs (int (length bs)) off (Some fi)) (d_world k) =
      Inr (R_status r, w) \<Longrightarrow> c_pwrite (direct_calls ev hv) fd bs off k = (r, k\<lparr>d_world := w\<rparr>)"
    and "request (direct_mount ev hv paths limit ino) (T_read (CHR ''/'' # p) (replicate (nat n) 0) n off (Some fi)) (d_world k) =
      Inr (R_data r bs, w) \<Longrightarrow> c_pread (direct_calls ev hv) fd n off k = ((r, take (nat r) bs), k\<lparr>d_world := w\<rparr>)"
    and "request (direct_mount ev hv paths limit ino) (T_getattr (CHR ''/'' # p)) (d_world k) = Inr (R_attr 0 st, w) \<Longrightarrow>
      c_lseek_end (direct_calls ev hv) fd k = (st_size st, k\<lparr>d_world := w\<rparr>)"
    and "request (direct_mount ev hv paths limit ino) (T_fsync (CHR ''/'' # p) False (Some fi)) (d_world k) = Inr (R_status r, w) \<Longrightarrow>
      c_fsync (direct_calls ev hv) fd k = (r, k\<lparr>d_world := w\<rparr>)"
  using assms by (auto simp: direct_calls_def with_fd_def ask_def direct_fds_def fun_eq_iff)

lemma direct_unlink:
  assumes "request (direct_mount ev hv paths limit ino) (T_getattr (CHR ''/'' # p)) (d_world k) = Inr (R_attr 0 st, w)"
    and "request (direct_mount ev hv paths limit ino) (T_unlink (CHR ''/'' # p)) w = Inr (R_status r, w')"
  shows "c_unlink (direct_calls ev hv) p k = (r, k\<lparr>d_world := w'\<rparr>)"
  using assms by (simp add: direct_calls_def ask_def)

lemma direct_fifo:
  "\<exists>k'. c_fifo (direct_calls ev hv) cmd k = (Some (int (length cmd)), k') \<and> direct_fds k' = direct_fds k \<and>
     (\<forall>reply w. worker_command ev cmd (d_world k) = Inr (reply, w) \<longrightarrow> d_world k' = w)"
  by (cases "worker_command ev cmd (d_world k)") (auto simp: direct_calls_def)

lemma direct_forwards: "forwards (direct_calls ev hv) (direct_mount ev hv paths limit ino)" for ev :: "(engine, 'd) env"
proof -
  let ?K = "direct_calls ev hv" and ?M = "direct_mount ev hv paths limit ino"
  note once = looks_none [of ?M] and names = direct_mount_simps(4-6)
  have "forwards_open ?K ?M"
    unfolding forwards_open_def names
  proof (intro allI impI, rule exI, rule conjI, rule once, intro allI impI)
    fix k :: "'d direct" and p m flags mode fi w2
    assume there: "path_ino (m_view ?M) (host_state (d_world k)) (CHR ''/'' # p) \<noteq> None" and m: "m \<in> {O_RDONLY, O_WRONLY, O_RDWR}" "flags \<in> {m, O_CREAT + m}"
      and run: "request ?M (T_open (CHR ''/'' # p) (open_info m)) (d_world k) = Inr (R_open 0 fi, w2)"
    from direct_open [OF m _ run, of mode] there
    show "\<exists>fd k'. c_open ?K p flags mode k = (fd, k') \<and> 0 \<le> fd \<and> direct_fds k fd = None \<and>
        direct_fds k' = (direct_fds k)(fd := Some (p, fi)) \<and> looks ?M w2 (d_world k')" using once by auto
  qed
  moreover have "forwards_close ?K ?M"
    unfolding forwards_close_def names
    by (intro allI impI, rule exI, rule conjI, rule once, intro allI impI) (drule (1) direct_requests(1), auto simp: once)
  moreover have "forwards_pwrite ?K ?M"
    unfolding forwards_pwrite_def names
    by (intro allI impI, rule exI, rule conjI, rule once, intro allI impI) (drule (1) direct_requests(2), simp add: once)
  moreover have "forwards_pread ?K ?M"
    unfolding forwards_pread_def names
  proof (intro allI impI)
    fix k :: "'d direct" and fd p fi n off
    assume fd: "direct_fds k fd = Some (p, fi)"
    show "\<exists>w1 buf. looks ?M (d_world k) w1 \<and> length buf = nat n \<and>
       (\<forall>r bs w2. request ?M (T_read (CHR ''/'' # p) buf n off (Some fi)) w1 = Inr (R_data r bs, w2) \<longrightarrow> 0 \<le> r \<longrightarrow>
          (\<exists>k'. c_pread ?K fd n off k = ((r, take (nat r) bs), k') \<and> direct_fds k' = direct_fds k \<and> looks ?M w2 (d_world k')))"
      by (intro exI [of _ "d_world k"] exI [of _ "replicate (nat n) 0"] conjI once allI impI, simp)
        (drule direct_requests(3) [OF fd], simp add: once)
  qed
  moreover have "forwards_lseek ?K ?M"
    unfolding forwards_lseek_def names
    by (intro allI impI, rule exI, rule conjI, rule once, intro allI impI) (drule (1) direct_requests(4), simp add: once)
  moreover have "forwards_fsync ?K ?M"
    unfolding forwards_fsync_def names
    by (intro allI impI, rule exI, rule conjI, rule once, intro allI impI) (drule (1) direct_requests(5), simp add: once)
  moreover have "forwards_unlink ?K ?M"
    unfolding forwards_unlink_def names
    by (intro allI, rule exI, rule conjI, rule once, intro allI impI) (drule (1) direct_unlink, simp add: once)
  moreover have "forwards_fifo ?K ?M"
    unfolding forwards_fifo_def direct_mount_simps(1,5,6)
  proof (intro allI)
    fix k :: "'d direct" and cmd
    show "\<exists>r k'. c_fifo ?K cmd k = (r, k') \<and> direct_fds k' = direct_fds k \<and>
      (\<exists>w1. looks ?M (d_world k) w1 \<and> (r = None \<and> d_world k' = w1 \<or> r = Some (int (length cmd)) \<and>
         (\<forall>reply w2. worker_command ev cmd w1 = Inr (reply, w2) \<longrightarrow> looks ?M w2 (d_world k'))))"
      using direct_fifo [of ev hv cmd k] once by metis
  qed
  ultimately show ?thesis by (simp add: forwards_def)
qed

lemma direct_creates: "forwards_create (direct_calls ev hv) (direct_mount ev hv paths limit ino)" for ev :: "(engine, 'd) env"
proof -
  let ?K = "direct_calls ev hv" and ?M = "direct_mount ev hv paths limit ino"
  note once = looks_none [of ?M]
  show ?thesis
    unfolding forwards_create_def direct_mount_simps(4-6)
  proof (intro allI impI, rule exI, rule exI, rule conjI, rule once, intro allI impI)
    fix k :: "'d direct" and p m mode fi w2
    assume m: "m \<in> {O_RDONLY, O_WRONLY, O_RDWR}"
      and gone: "path_ino (m_view ?M) (host_state (d_world k)) (CHR ''/'' # p) = None"
      and run: "request ?M (T_create (CHR ''/'' # p) mode (open_info (O_CREAT + m))) (d_world k) = Inr (R_open 0 fi, w2)"
    show "\<exists>fd k'. c_open ?K p (O_CREAT + m) mode k = (fd, k') \<and> 0 \<le> fd \<and> direct_fds k fd = None \<and>
        direct_fds k' = (direct_fds k)(fd := Some (p, fi\<lparr>fi_flags := m\<rparr>)) \<and> looks ?M w2 (d_world k')"
      using direct_create [OF m _ run] gone once by auto
  qed
qed

end
