(* ===== verification/Lfscheck_Theorems.thy ===== *)
theory Lfscheck_Theorems
  imports Lfscheck_Facts Direct_Calls
begin

text \<open>
  What holds of every run of the checker: the monitor and the rounds exclude each other, the checker
  never gets stuck and ends once the monitor has, and on LazyFS no assertion of it fails. The
  witnesses use a kernel that turns every call into one request.
\<close>

section \<open>The checker as a client of the calls\<close>

text \<open>The files of the threads are among those of the mount, which may be as large as the checker makes them.\<close>

definition check_mounted :: "'k calls \<Rightarrow> check_config \<Rightarrow> ('k, 'd) mount \<Rightarrow> 'k \<Rightarrow> bool" where
  "check_mounted K c M k \<longleftrightarrow> mount_inv K M k \<and> m_limit M = upper_bound_write c \<and>
     worker_path ` {..<nat (nr_threads c)} \<subseteq> m_paths M"

interpretation lfs: checked_calls K c "m_paths M" "IO_BLOCK_SIZE (FSConfig (m_env M))" "check_mounted K c M"
  "mount_file M" "mount_fd M" for K c M
proof
  show "worker_path tid \<in> m_paths M" if "check_mounted K c M k" "tid < nat (nr_threads c)" for k tid
    using that by (auto simp: check_mounted_def)
  show "\<exists>k'. c_pread K fd n off k =
      ((int (length (take (nat n) (drop (nat off) V))), take (nat n) (drop (nat off) V)), k') \<and>
      check_mounted K c M k' \<and> mount_fd M k' = mount_fd M k \<and> mount_file M k' = mount_file M k"
    if "check_mounted K c M k" "p \<in> m_paths M" "mount_file M k p = Some (V, D)" "mount_fd M k fd = Some (p, m)"
      "m \<in> {O_RDONLY, O_RDWR}" "0 < n" "0 \<le> off" "off + n \<le> upper_bound_write c"
      "off + n \<le> int (length V) \<or> (off + n) mod IO_BLOCK_SIZE (FSConfig (m_env M)) = 0"
    for k p V D fd m n off
    using files.read_back [of K M k p V D fd m n off] that by (auto simp: check_mounted_def)
  show "0 < upper_bound_write c \<and> upper_bound_write c mod IO_BLOCK_SIZE (FSConfig (m_env M)) = 0"
    if "check_mounted K c M k" for k
    using that files.largest [of K M k] by (simp add: check_mounted_def)
qed (simp_all add: check_mounted_def files.open_again files.close_it files.write_seen files.seek_end
      files.sync_durable files.unlink_own files.clear_loses)

section \<open>A file of the checker on an empty cache\<close>

definition check_disk :: mem_host where
  "check_disk = \<lparr>mh_paths = fmupd ''/file_0'' 7 fmempty, mh_files = fmupd 7 [] fmempty,
     mh_fds = fmupd 0 0 (fmupd 3 7 fmempty), mh_next = 4\<rparr>"

definition check_small :: check_config where
  "check_small = \<lparr>nr_threads = 1, upper_bound_write = 4096, max_burst_operations = 10\<rparr>"

abbreviation check_mount :: "(mem_host direct, mem_host) mount" where
  "check_mount \<equiv> direct_mount demo_env mem_view {''file_0''} 4096 (\<lambda>_. 7)"

definition check_kernel :: "engine \<Rightarrow> mem_host direct" where
  "check_kernel e = \<lparr>d_world = new_lazyfs (new_cache e) fmempty check_disk,
     d_table = [5 \<mapsto> (''file_0'', demo_fd)], d_next = 6\<rparr>"

lemma check_small_simps [simp]:
  "nr_threads check_small = 1" "upper_bound_write check_small = 4096" "max_burst_operations check_small = 10"
  by (simp_all add: check_small_def)

lemma worker_path_0 [simp]: "worker_path 0 = ''file_0''"
  by code_simp

lemma check_small_paths [simp]: "worker_path ` {..<nat (nr_threads check_small)} = {''file_0''}"
  by (simp add: lessThan_Suc)

lemma check_ready:
  obtains e where "check_mounted (direct_calls demo_env mem_view) check_small check_mount (check_kernel e)"
    "mount_file check_mount (check_kernel e) ''file_0'' = Some ([], [])"
    "\<forall>fd m. mount_fd check_mount (check_kernel e) fd = Some (''file_0'', m) \<longleftrightarrow> fd = 5 \<and> m = O_RDWR"
proof -
  obtain e where e: "new_engine default_config = Inr e" "blocks_of (new_cache e) = (\<lambda>_ _. None)"
    by (rule new_cache_ok [OF single_block_default])
  note anew = mount_anew [OF single_block_default e(1), of mem_view check_disk]
  define w where "w = new_lazyfs (new_cache e) fmempty check_disk"
  have w: "FSCache w = new_cache e" "host_state w = check_disk" "shared_locks w = 0"
    by (simp_all add: w_def new_lazyfs_def Let_def)
  have ino: "path_ino mem_view check_disk ''/file_0'' = Some 7" "fd_ino mem_view check_disk 0 = Some 0"
    "fd_ino mem_view check_disk 3 = Some 7" "content mem_view check_disk 7 = []"
    by (simp_all add: mem_view_def check_disk_def mh_content_def)
  have k: "d_world (check_kernel e) = w" "direct_fds (check_kernel e) = [5 \<mapsto> (''file_0'', demo_fd)]"
    by (auto simp: check_kernel_def w_def direct_fds_def fun_eq_iff)
  have "fst (os_unlink mem_os ''/file_0'' d) \<noteq> - 1" if "path_ino mem_view d ''/file_0'' \<noteq> None" for d
    using that by (auto simp: mem_os_def mem_view_def mh_path_op_def split: option.splits if_splits)
  then have "mount_fits check_mount"
    by (simp add: mount_fits_def default_config_def)
  moreover have "calm demo_env ''/file_0'' w" unfolding w_def by (rule calm_new) simp
  then have "served check_mount w"
    using anew ino e(2) demo_mounted by (simp add: served_def fs_inv_def w cached_def)
  moreover have "table_ok check_mount w [5 \<mapsto> (''file_0'', demo_fd)]"
    using ino by (auto simp: table_ok_def open_at_def w demo_fd_def split: if_splits)
  ultimately have "check_mounted (direct_calls demo_env mem_view) check_small check_mount (check_kernel e)"
    using direct_forwards check_small_paths by (simp add: check_mounted_def mount_inv_def k)
  moreover have "mount_file check_mount (check_kernel e) ''file_0'' = Some ([], [])"
    using anew(2) ino by (simp add: mount_file_def k w)
  moreover have "\<forall>fd m. mount_fd check_mount (check_kernel e) fd = Some (''file_0'', m) \<longleftrightarrow> fd = 5 \<and> m = O_RDWR"
    by (auto simp: mount_fd_def k demo_fd_def O_RDWR_def)
  ultimately show thesis using that by blast
qed

lemma first_clear:
  assumes fifo: "c_fifo K clear_command k = (Some 20, k')"
  obtains s1 s3 where "check_step K c (check_start c fds k) s1" "monitor s1 = Clearing"
    "(check_step K c)\<^sup>*\<^sup>* (check_start c fds k) s3" "workers s3 = map (fresh_worker c) fds"
    "monitor s3 = Sleeping" "can_do_work s3" "\<not> last_iteration s3" "\<not> loop_unique s3" "\<not> stop_workers s3"
    "\<forall>tid < nat (nr_threads c). thread_check_file s3 ! tid \<and> thread_op_count s3 ! tid = 0"
proof -
  let ?s0 = "check_start c fds k"
  define s1 where "s1 = ?s0\<lparr>loop_unique := True, can_do_work := False, monitor := Clearing\<rparr>"
  have one: "check_step K c ?s0 s1"
    by (rule monitor_moves [where over = False]) (simp add: monitor_step_def check_start_def s1_def)
  define s2 where "s2 = s1\<lparr>kernel := k', monitor := Releasing\<rparr>"
  have two: "check_step K c s1 s2"
    by (rule monitor_moves [where over = False]) (use fifo in \<open>simp add: monitor_step_def s1_def s2_def check_start_def\<close>)
  define s3 where "s3 = s2\<lparr>thread_check_file := replicate (nat (nr_threads c)) True @ drop (nat (nr_threads c)) (thread_check_file s2),
    thread_op_count := replicate (nat (nr_threads c)) 0 @ drop (nat (nr_threads c)) (thread_op_count s2),
    can_do_work := True, loop_unique := False, monitor := Sleeping\<rparr>"
  have three: "check_step K c s2 s3"
    by (rule monitor_moves [where over = False]) (simp add: monitor_step_def s2_def s3_def Let_def)
  have "(check_step K c)\<^sup>*\<^sup>* ?s0 s3" using one two three by (meson converse_rtranclp_into_rtranclp rtranclp.rtrancl_refl)
  then show thesis
    by (intro that [OF one, of s3]) (simp_all add: s1_def s2_def s3_def check_start_def nth_append)
qed

section \<open>The lock of the loop\<close>

text \<open>
  C20. While the monitor clears the cache, or hands out the checks after it, no thread is in a round:
  no file is read, written or synced between a clear and the check that follows it. This holds
  whatever the system calls do.
\<close>

theorem monitor_excludes_rounds:
  assumes "length fds = nat (nr_threads c)" and "nr_threads c \<le> MAX_THREADS"
    and "(check_step K c)\<^sup>*\<^sup>* (check_start c fds k) s" and "monitor s \<in> {Clearing, Releasing}"
    and "tid < nat (nr_threads c)"
  shows "\<not> in_round (w_pc (workers s ! tid))"
proof -
  have l: "locks_ok c s" by (rule check_runs_locks [OF assms(3) start_locks [OF assms(1,2)]])
  moreover have "loop_unique s" using l assms(4) by (auto simp: locks_ok_def)
  ultimately show ?thesis by (rule nobody_in_round [OF _ _ assms(5)])
qed

theorem monitor_excludes_rounds_witness:
  "\<forall>k :: mem_host direct. \<exists>s. (check_step (direct_calls demo_env mem_view) check_small)\<^sup>*\<^sup>* (check_start check_small [5] k) s \<and>
     monitor s = Clearing \<and> \<not> in_round (w_pc (workers s ! 0))"
proof
  fix k :: "mem_host direct"
  obtain k' where "c_fifo (direct_calls demo_env mem_view) clear_command k = (Some 20, k')"
    using direct_fifo [of demo_env mem_view clear_command k] by (auto simp: clear_command_def)
  then obtain s where s: "check_step (direct_calls demo_env mem_view) check_small (check_start check_small [5] k) s" "monitor s = Clearing"
    by (rule first_clear [where fds = "[5]"]) (rule that)
  then have run: "(check_step (direct_calls demo_env mem_view) check_small)\<^sup>*\<^sup>* (check_start check_small [5] k) s" by blast
  have "\<not> in_round (w_pc (workers s ! 0))"
    by (rule monitor_excludes_rounds [OF _ _ run]) (simp_all add: MAX_THREADS_def s(2))
  then show "\<exists>s. (check_step (direct_calls demo_env mem_view) check_small)\<^sup>*\<^sup>* (check_start check_small [5] k) s \<and>
      monitor s = Clearing \<and> \<not> in_round (w_pc (workers s ! 0))"
    using run s(2) by blast
qed

text \<open>
  C21. The checker never gets stuck: as long as there are two offsets to choose from and no assertion has
  failed, some thread or the monitor can take a step, until all of them have ended. Once the monitor
  has ended, at most seven steps of each thread are left. So a run in which the monitor ends comes to
  its end.
\<close>

theorem checker_comes_to_its_end:
  assumes "length fds = nat (nr_threads c)" and "nr_threads c \<le> MAX_THREADS" and "2 \<le> upper_bound_write c"
    and "(check_step K c)\<^sup>*\<^sup>* (check_start c fds k) s" and "\<not> check_failed s"
  shows "(monitor s = Monitor_finished \<and> (\<forall>wk \<in> set (workers s). w_pc wk = Finished) \<or> (\<exists>s'. check_step K c s s')) \<and>
    (monitor s = Monitor_finished \<longrightarrow> (\<forall>n s'. (check_step K c ^^ n) s s' \<longrightarrow> n \<le> 7 * nat (nr_threads c)))"
proof -
  have l: "locks_ok c s" by (rule check_runs_locks [OF assms(4) start_locks [OF assms(1,2)]])
  have "n \<le> 7 * nat (nr_threads c)" if "monitor s = Monitor_finished" "(check_step K c ^^ n) s s'" for n s'
    using finished_runs [OF that(2) l that(1)] work_left_bound [of s] l by (simp add: locks_ok_def)
  then show ?thesis using never_stuck [OF l assms(3,5)] by blast
qed

theorem checker_comes_to_its_end_witness:
  "\<forall>k :: mem_host direct. \<exists>s. check_step (direct_calls demo_env mem_view) check_small (check_start check_small [5] k) s"
proof
  fix k :: "mem_host direct"
  have "\<not> check_failed (check_start check_small [5] k)"
    by (simp add: check_failed_def check_start_def fresh_worker_def)
  with checker_comes_to_its_end [of "[5]" check_small "direct_calls demo_env mem_view" k "check_start check_small [5] k"]
  show "\<exists>s. check_step (direct_calls demo_env mem_view) check_small (check_start check_small [5] k) s"
    by (simp add: MAX_THREADS_def check_start_def fresh_worker_def)
qed

section \<open>The checker on LazyFS\<close>

text \<open>
  C5. On LazyFS no assertion of the checker ever fails: in every run, whatever offsets, letters and
  syncs the threads draw and however they and the monitor interleave, each thread reads back what it
  has written, and after every clear of the cache its file has exactly the size and bytes it has
  tracked as synced. The kernel only has to turn the calls into requests; the cache needs a page for
  each block of each file and for those of one request more, and the files start empty.
\<close>

theorem lfscheck_accepts_lazyfs:
  assumes "length fds = nat (nr_threads c)" and "nr_threads c \<le> MAX_THREADS"
    and "check_mounted K c M k"
    and "\<And>tid. tid < length fds \<Longrightarrow> mount_file M k (worker_path tid) = Some ([], []) \<and>
      (\<forall>fd m. mount_fd M k fd = Some (worker_path tid, m) \<longleftrightarrow> fd = fds ! tid \<and> m = O_RDWR)"
    and "(check_step K c)\<^sup>*\<^sup>* (check_start c fds k) s"
  shows "\<not> check_failed s"
  by (rule lfs.never_fails [OF assms])

theorem lfscheck_accepts_lazyfs_witness:
  "\<exists>k s. (check_step (direct_calls demo_env mem_view) check_small)\<^sup>*\<^sup>* (check_start check_small [5] k) s \<and>
     w_pc (workers s ! 0) = Read_back 0 1 65 False \<and> \<not> check_failed s"
proof -
  obtain e where k: "check_mounted (direct_calls demo_env mem_view) check_small check_mount (check_kernel e)"
    "mount_file check_mount (check_kernel e) ''file_0'' = Some ([], [])"
    "\<forall>fd m. mount_fd check_mount (check_kernel e) fd = Some (''file_0'', m) \<longleftrightarrow> fd = 5 \<and> m = O_RDWR"
    by (rule check_ready)
  let ?K = "direct_calls demo_env mem_view"
  let ?runs = "(check_step ?K check_small)\<^sup>*\<^sup>* (check_start check_small [5] (check_kernel e))"
  have own: "mount_file check_mount (check_kernel e) (worker_path tid) = Some ([], []) \<and>
      (\<forall>fd m. mount_fd check_mount (check_kernel e) fd = Some (worker_path tid, m) \<longleftrightarrow> fd = [5] ! tid \<and> m = O_RDWR)" if "tid < length [5::int]" for tid
    using that k(2,3) by simp
  have n: "length [5::int] = nat (nr_threads check_small)" "nr_threads check_small \<le> MAX_THREADS"
    by (simp_all add: MAX_THREADS_def)
  obtain k' where "c_fifo ?K clear_command (check_kernel e) = (Some 20, k')"
    using direct_fifo [of demo_env mem_view clear_command "check_kernel e"] by (auto simp: clear_command_def)
  then obtain s3 where s3: "?runs s3" "workers s3 = [fresh_worker check_small 5]" "monitor s3 = Sleeping" "can_do_work s3"
    "\<not> last_iteration s3" "\<not> loop_unique s3" "\<not> stop_workers s3" "thread_check_file s3 ! 0" "thread_op_count s3 ! 0 = 0"
    by (rule first_clear [where c = check_small and fds = "[5]"]) simp
  define s4 where "s4 = goto 0 Loop_wait s3"
  have s4: "check_step ?K check_small s3 s4"
    by (rule worker_moves [of 0 _ some_draw])
      (use s3 in \<open>simp_all add: some_draw_ok worker_step_def fresh_worker_def s4_def\<close>)
  have "worker_step ?K check_small 0 some_draw s4 \<noteq> None"
    using s3 by (simp add: worker_step_def s4_def goto_def fresh_worker_def enter_loop_def must_wait_def)
  then obtain s5 where s5: "worker_step ?K check_small 0 some_draw s4 = Some s5" by blast
  have five: "check_step ?K check_small s4 s5"
    by (rule worker_moves [OF _ _ s5]) (simp_all add: some_draw_ok)
  have p5: "w_pc (workers s5 ! 0) = Check_close" "\<not> last_iteration s5"
    using s5 s3 by (auto simp: worker_step_def s4_def goto_def fresh_worker_def enter_loop_def must_wait_def split: if_splits)
  have r5: "?runs s5" using s3(1) s4 five by (meson rtranclp.rtrancl_into_rtrancl)
  have good5: "check_inv check_small (check_mounted ?K check_small check_mount) (mount_file check_mount) (mount_fd check_mount) s5"
    using lfs.check_runs [OF r5 lfs.start_good [OF n k(1) own]] .
  have "\<exists>s. ?runs s \<and> \<not> last_iteration s \<and> w_pc (workers s ! 0) = (next_place ^^ j) Check_close \<and>
      check_inv check_small (check_mounted ?K check_small check_mount) (mount_file check_mount) (mount_fd check_mount) s"
    if "j \<le> 5" for j
    using that
  proof (induction j)
    case 0
    then show ?case using r5 p5 good5 by auto
  next
    case (Suc j)
    then obtain s where s: "?runs s" "\<not> last_iteration s" "w_pc (workers s ! 0) = (next_place ^^ j) Check_close"
      "check_inv check_small (check_mounted ?K check_small check_mount) (mount_file check_mount) (mount_fd check_mount) s"
      by auto
    have "j \<in> {0, 1, 2, 3, 4}" using Suc.prems by auto
    then have pc: "w_pc (workers s ! 0) \<in> {Check_close, Check_open, Check_read, Checked, Do_write}"
      unfolding s(3) by (auto simp: numeral_eq_Suc)
    obtain s' where "check_step ?K check_small s s'" "\<not> last_iteration s'"
      "check_inv check_small (check_mounted ?K check_small check_mount) (mount_file check_mount) (mount_fd check_mount) s'"
      "w_pc (workers s' ! 0) = next_place (w_pc (workers s ! 0))"
      by (rule lfs.goes_on [OF s(4) _ _ s(2) pc]) auto
    then show ?case using s(1,3) by (intro exI [of _ s']) auto
  qed
  from this [of 5] obtain s where s: "?runs s" "w_pc (workers s ! 0) = Read_back 0 1 65 False"
    by (auto simp: numeral_eq_Suc)
  have "\<not> check_failed s" by (rule lfscheck_accepts_lazyfs [OF n k(1) own s(1)])
  then show ?thesis using s by blast
qed

end
