(* ===== verification/Unit_Tests.thy ===== *)
theory Unit_Tests
  imports Calls
begin

text \<open>
  The tests of \<open>lazyfs/unit\<close> that write, read, sync and clear (\<open>test_write.cpp\<close> and
  \<open>test_consistency_clear_cache.cpp\<close>). A test is the list of its statements, with the assertion
  each stands in, and runs on the system calls of \<open>Calls\<close>; its assertions fail as those of the test
  library do: the rest of the test is skipped and the next one runs.
\<close>

section \<open>Statements\<close>

text \<open>
  The arrays of a test have names; what is in one before it is set is not known. The descriptor is
  always \<open>fd\<close>.
\<close>

datatype statement =
    Char_array string nat              \<comment> \<open>\<open>char buf[n]\<close>\<close>
  | Memset string nat byte nat         \<comment> \<open>\<open>memset (buf + i, ch, n)\<close>\<close>
  | Open_file string int int           \<comment> \<open>\<open>fd = open (path, flags, mode); ASSERT_TRUE (fd >= 0)\<close>\<close>
  | Pwrite string nat nat              \<comment> \<open>\<open>ASSERT_EQ (pwrite (fd, buf, n, off), n)\<close>\<close>
  | Pread string nat nat nat           \<comment> \<open>\<open>ASSERT_EQ (pread (fd, buf, n, off), r)\<close>\<close>
  | Lseek_end nat                      \<comment> \<open>\<open>ASSERT_EQ (lseek (fd, 0, SEEK_END), r)\<close>\<close>
  | Fsync_file                         \<comment> \<open>\<open>ASSERT_TRUE (fsync (fd) >= 0)\<close>\<close>
  | Clear_cache                        \<comment> \<open>\<open>ASSERT_EQ (clear_cache_command (), 0)\<close>\<close>
  | Memcmp string string nat           \<comment> \<open>\<open>ASSERT_TRUE (!memcmp (buf, buf_expected, n))\<close>\<close>
  | Byte_is string nat byte            \<comment> \<open>\<open>ASSERT_EQ (buf[i], ch)\<close>\<close>
  | Close_file                         \<comment> \<open>\<open>ASSERT_TRUE (close (fd) >= 0)\<close>\<close>
  | Unlink_file string                 \<comment> \<open>\<open>ASSERT_TRUE (unlink (path) >= 0)\<close>\<close>

record 'k test_state =
  t_kernel :: 'k
  t_fd :: int
  t_arrays :: "string \<Rightarrow> byte list"

definition clear_cache_command :: "'k calls \<Rightarrow> 'k \<Rightarrow> int \<times> 'k" where
  "clear_cache_command K k =
     (case c_fifo K clear_command k of
        (None, k) \<Rightarrow> (- 1, k)
      | (Some r, k) \<Rightarrow> (if r = 20 then 0 else - 1, k))"

definition array_set :: "string \<Rightarrow> nat \<Rightarrow> byte list \<Rightarrow> 'k test_state \<Rightarrow> 'k test_state" where
  "array_set x i bs t =
     (let a = t_arrays t x
      in t\<lparr>t_arrays := (t_arrays t)(x := take i a @ bs @ drop (i + length bs) a)\<rparr>)"

text \<open>
  Whether the assertion holds, and what comes after. An access outside an array counts as a failure.
  The contents of a new array are those of \<open>u\<close>.
\<close>

fun execute :: "'k calls \<Rightarrow> (string \<Rightarrow> nat \<Rightarrow> byte) \<Rightarrow> statement \<Rightarrow> 'k test_state \<Rightarrow> bool \<times> 'k test_state" where
  "execute K u (Char_array x n) t = (True, t\<lparr>t_arrays := (t_arrays t)(x := map (u x) [0..<n])\<rparr>)"
| "execute K u (Memset x i ch n) t =
     (if i + n \<le> length (t_arrays t x) then (True, array_set x i (replicate n ch) t) else (False, t))"
| "execute K u (Open_file path flags mode) t =
     (let (fd, k) = c_open K path flags mode (t_kernel t) in (0 \<le> fd, t\<lparr>t_kernel := k, t_fd := fd\<rparr>))"
| "execute K u (Pwrite x n off) t =
     (if n \<le> length (t_arrays t x)
      then let (r, k) = c_pwrite K (t_fd t) (take n (t_arrays t x)) (int off) (t_kernel t)
           in (r = int n, t\<lparr>t_kernel := k\<rparr>)
      else (False, t))"
| "execute K u (Pread x n off r) t =
     (let ((res, bs), k) = c_pread K (t_fd t) (int n) (int off) (t_kernel t);
          t = t\<lparr>t_kernel := k\<rparr>
      in if length bs \<le> length (t_arrays t x) then (res = int r, array_set x 0 bs t) else (False, t))"
| "execute K u (Lseek_end r) t =
     (let (res, k) = c_lseek_end K (t_fd t) (t_kernel t) in (res = int r, t\<lparr>t_kernel := k\<rparr>))"
| "execute K u Fsync_file t = (let (res, k) = c_fsync K (t_fd t) (t_kernel t) in (0 \<le> res, t\<lparr>t_kernel := k\<rparr>))"
| "execute K u Clear_cache t = (let (res, k) = clear_cache_command K (t_kernel t) in (res = 0, t\<lparr>t_kernel := k\<rparr>))"
| "execute K u (Memcmp x y n) t =
     (n \<le> length (t_arrays t x) \<and> n \<le> length (t_arrays t y) \<and> take n (t_arrays t x) = take n (t_arrays t y), t)"
| "execute K u (Byte_is x i ch) t = (i < length (t_arrays t x) \<and> t_arrays t x ! i = ch, t)"
| "execute K u Close_file t = (let (res, k) = c_close K (t_fd t) (t_kernel t) in (0 \<le> res, t\<lparr>t_kernel := k\<rparr>))"
| "execute K u (Unlink_file path) t =
     (let (res, k) = c_unlink K path (t_kernel t) in (0 \<le> res, t\<lparr>t_kernel := k\<rparr>))"

fun run_test :: "'k calls \<Rightarrow> (string \<Rightarrow> nat \<Rightarrow> byte) \<Rightarrow> statement list \<Rightarrow> 'k test_state \<Rightarrow> bool \<times> 'k test_state" where
  "run_test K u [] t = (True, t)"
| "run_test K u (s # ss) t =
     (let (ok, t) = execute K u s t in if ok then run_test K u ss t else (False, t))"

text \<open>The exit code is 0 if no test fails.\<close>

fun run_all_tests :: "'k calls \<Rightarrow> (string \<Rightarrow> nat \<Rightarrow> byte) \<Rightarrow> statement list list \<Rightarrow> 'k \<Rightarrow> int \<times> 'k" where
  "run_all_tests K u [] k = (0, k)"
| "run_all_tests K u (test # tests) k =
     (let (ok, t) = run_test K u test \<lparr>t_kernel = k, t_fd = - 1, t_arrays = \<lambda>_. []\<rparr>;
          (r, k) = run_all_tests K u tests (t_kernel t)
      in (if ok then r else 1, k))"

section \<open>The tests\<close>

abbreviation IO_BLOCK :: nat where "IO_BLOCK \<equiv> 4096"
abbreviation "mode_0640 \<equiv> (416 :: int)"

definition byte_of :: "char \<Rightarrow> byte" where "byte_of c = of_char c"

subsection \<open>\<open>test_write.cpp\<close>\<close>

definition WriteSeq1 :: "statement list" where
  "WriteSeq1 =
    [Open_file ''WriteSeq1'' (O_CREAT + O_WRONLY) mode_0640,
     Char_array ''buf'' IO_BLOCK,
     Memset ''buf'' 0 0 IO_BLOCK,
     Pwrite ''buf'' IO_BLOCK 0,
     Lseek_end IO_BLOCK,
     Pwrite ''buf'' IO_BLOCK IO_BLOCK,
     Lseek_end (2 * IO_BLOCK),
     Close_file]"

definition WriteSeq1CheckIntegrity :: "statement list" where
  "WriteSeq1CheckIntegrity =
    [Open_file ''WriteSeq1'' O_RDONLY mode_0640,
     Char_array ''buf'' IO_BLOCK,
     Char_array ''buf_expected'' IO_BLOCK,
     Memset ''buf_expected'' 0 0 IO_BLOCK,
     Pread ''buf'' IO_BLOCK 0 IO_BLOCK,
     Memcmp ''buf'' ''buf_expected'' IO_BLOCK,
     Pread ''buf'' IO_BLOCK IO_BLOCK IO_BLOCK,
     Memcmp ''buf'' ''buf_expected'' IO_BLOCK,
     Close_file,
     Unlink_file ''WriteSeq1'']"

definition WriteBlockEdges1 :: "statement list" where
  "WriteBlockEdges1 =
    [Open_file ''WriteSeq1WriteBlockEdges1'' (O_CREAT + O_WRONLY) mode_0640,
     Char_array ''buf'' IO_BLOCK,
     Memset ''buf'' 0 0 IO_BLOCK,
     Pwrite ''buf'' IO_BLOCK 0,
     Lseek_end IO_BLOCK,
     Char_array ''edge_buf'' 2,
     Memset ''edge_buf'' 0 (byte_of CHR ''E'') 2,
     Pwrite ''edge_buf'' 2 (IO_BLOCK - 1),
     Lseek_end (IO_BLOCK + 1),
     Pwrite ''buf'' IO_BLOCK (2 * IO_BLOCK),
     Lseek_end (3 * IO_BLOCK),
     Close_file]"

definition WriteBlockEdges1CheckIntegrity :: "statement list" where
  "WriteBlockEdges1CheckIntegrity =
    [Open_file ''WriteSeq1WriteBlockEdges1'' O_RDONLY mode_0640,
     Char_array ''buf'' IO_BLOCK,
     Char_array ''buf_expected'' IO_BLOCK,
     Memset ''buf_expected'' 0 0 IO_BLOCK,
     Pread ''buf'' IO_BLOCK 0 IO_BLOCK,
     Memcmp ''buf'' ''buf_expected'' (IO_BLOCK - 1),
     Byte_is ''buf'' (IO_BLOCK - 1) (byte_of CHR ''E''),
     Pread ''buf'' IO_BLOCK IO_BLOCK IO_BLOCK,
     Byte_is ''buf'' 0 (byte_of CHR ''E''),
     Byte_is ''buf'' 1 0,
     Close_file,
     Unlink_file ''WriteSeq1WriteBlockEdges1'']"

definition WriteSparseBlocks1 :: "statement list" where
  "WriteSparseBlocks1 =
    [Open_file ''WriteSparseBlocks1'' (O_CREAT + O_WRONLY) mode_0640,
     Char_array ''buf'' IO_BLOCK,
     Memset ''buf'' 0 (byte_of CHR ''A'') 10,
     Pwrite ''buf'' 10 (IO_BLOCK - 10),
     Lseek_end IO_BLOCK,
     Memset ''buf'' 0 (byte_of CHR ''B'') 20,
     Pwrite ''buf'' 20 (2 * IO_BLOCK - 10),
     Lseek_end (2 * IO_BLOCK + 10),
     Memset ''buf'' 0 0 IO_BLOCK,
     Pwrite ''buf'' IO_BLOCK (3 * IO_BLOCK),
     Lseek_end (4 * IO_BLOCK),
     Close_file]"

definition WriteSparseBlocks1CheckIntegrity :: "statement list" where
  "WriteSparseBlocks1CheckIntegrity =
    [Open_file ''WriteSparseBlocks1'' O_RDONLY mode_0640,
     Char_array ''buf'' (IO_BLOCK * 4),
     Char_array ''buf_expected'' (IO_BLOCK * 4),
     Memset ''buf_expected'' 0 0 (IO_BLOCK - 10),
     Memset ''buf_expected'' (IO_BLOCK - 10) (byte_of CHR ''A'') 10,
     Memset ''buf_expected'' IO_BLOCK 0 (IO_BLOCK - 10),
     Memset ''buf_expected'' (IO_BLOCK * 2 - 10) (byte_of CHR ''B'') 20,
     Memset ''buf_expected'' (IO_BLOCK * 2 + 10) 0 (IO_BLOCK * 2 - 10),
     Pread ''buf'' (IO_BLOCK * 4) 0 (IO_BLOCK * 4),
     Memcmp ''buf'' ''buf_expected'' (IO_BLOCK * 4),
     Close_file,
     Unlink_file ''WriteSparseBlocks1'']"

definition write_tests :: "statement list list" where
  "write_tests = [WriteSeq1, WriteSeq1CheckIntegrity, WriteBlockEdges1, WriteBlockEdges1CheckIntegrity,
     WriteSparseBlocks1, WriteSparseBlocks1CheckIntegrity]"

subsection \<open>\<open>test_consistency_clear_cache.cpp\<close>\<close>

definition SimpleReadBlocks_SyncOff :: "statement list" where
  "SimpleReadBlocks_SyncOff =
    [Open_file ''SimpleReadBlocks_SyncOff'' (O_CREAT + O_RDWR) mode_0640,
     Char_array ''buf'' IO_BLOCK,
     Memset ''buf'' 0 (byte_of CHR ''A'') IO_BLOCK,
     Pwrite ''buf'' IO_BLOCK 0,
     Clear_cache,
     Pread ''buf'' IO_BLOCK 0 0,
     Pwrite ''buf'' IO_BLOCK 0,
     Pread ''buf'' IO_BLOCK 0 IO_BLOCK,
     Clear_cache,
     Pread ''buf'' IO_BLOCK 0 0,
     Close_file,
     Unlink_file ''SimpleReadBlocks_SyncOff'']"

definition SimpleReadBlocks_SyncOn :: "statement list" where
  "SimpleReadBlocks_SyncOn =
    [Open_file ''SimpleReadBlocks_SyncOn'' (O_CREAT + O_RDWR) mode_0640,
     Char_array ''buf'' IO_BLOCK,
     Memset ''buf'' 0 (byte_of CHR ''A'') IO_BLOCK,
     Pwrite ''buf'' IO_BLOCK 0,
     Fsync_file,
     Clear_cache,
     Pread ''buf'' IO_BLOCK 0 IO_BLOCK,
     Pwrite ''buf'' IO_BLOCK 0,
     Pread ''buf'' IO_BLOCK 0 IO_BLOCK,
     Clear_cache,
     Pread ''buf'' IO_BLOCK 0 IO_BLOCK,
     Close_file,
     Unlink_file ''SimpleReadBlocks_SyncOn'']"

definition SequentialRW_SyncOn :: "statement list" where
  "SequentialRW_SyncOn =
    [Open_file ''SequentialRW_SyncOn'' (O_CREAT + O_RDWR) mode_0640,
     Char_array ''buf'' IO_BLOCK,
     Memset ''buf'' 0 (byte_of CHR ''A'') IO_BLOCK,
     Pwrite ''buf'' IO_BLOCK 0,
     Lseek_end IO_BLOCK,
     Fsync_file,
     Clear_cache,
     Memset ''buf'' 0 (byte_of CHR ''B'') IO_BLOCK,
     Pwrite ''buf'' IO_BLOCK IO_BLOCK,
     Lseek_end (2 * IO_BLOCK),
     Fsync_file,
     Clear_cache,
     Char_array ''buf_read'' (2 * IO_BLOCK),
     Char_array ''buf_expected'' (2 * IO_BLOCK),
     Memset ''buf_expected'' 0 (byte_of CHR ''A'') IO_BLOCK,
     Memset ''buf_expected'' IO_BLOCK (byte_of CHR ''B'') IO_BLOCK,
     Pread ''buf_read'' (3 * IO_BLOCK) 0 (2 * IO_BLOCK),
     Memcmp ''buf_read'' ''buf_expected'' (IO_BLOCK * 2),
     Close_file,
     Unlink_file ''SequentialRW_SyncOn'']"

definition SparseSyncsConsistencyCheck :: "statement list" where
  "SparseSyncsConsistencyCheck =
    [Open_file ''SparseSyncsConsistencyCheck'' (O_CREAT + O_RDWR) mode_0640,
     Char_array ''buf'' IO_BLOCK,
     Memset ''buf'' 0 (byte_of CHR ''A'') IO_BLOCK,
     Pwrite ''buf'' IO_BLOCK 0,
     Lseek_end IO_BLOCK,
     Fsync_file,
     Clear_cache,
     Memset ''buf'' 0 (byte_of CHR ''B'') IO_BLOCK,
     Pwrite ''buf'' IO_BLOCK 0,
     Lseek_end IO_BLOCK,
     Clear_cache,
     Char_array ''buf_read'' IO_BLOCK,
     Char_array ''buf_expected'' IO_BLOCK,
     Memset ''buf_expected'' 0 (byte_of CHR ''A'') IO_BLOCK,
     Pread ''buf_read'' (2 * IO_BLOCK) 0 IO_BLOCK,
     Memcmp ''buf_read'' ''buf_expected'' IO_BLOCK,
     Pwrite ''buf'' IO_BLOCK (2 * IO_BLOCK),
     Lseek_end (3 * IO_BLOCK),
     Clear_cache,
     Lseek_end IO_BLOCK,
     Close_file,
     Unlink_file ''SparseSyncsConsistencyCheck'']"

definition consistency_tests :: "statement list list" where
  "consistency_tests = [SimpleReadBlocks_SyncOff, SimpleReadBlocks_SyncOn, SequentialRW_SyncOn,
     SparseSyncsConsistencyCheck]"

end
