(* ===== verification/Unit_Facts.thy ===== *)
theory Unit_Facts
  imports Unit_Tests
begin

text \<open>
  When a test passes. A test has no branches, so what it will find can be computed in advance:
  \<open>foresee\<close> runs it on what is known of its arrays and files, kept as runs of equal bytes, and
  gives nothing when the contract does not tell the outcome or an assertion would fail. A test that
  \<open>foresee\<close> accepts passes on any system calls that keep the contract (\<open>foreseen_run\<close>).
\<close>

section \<open>Contents as runs of bytes\<close>

text \<open>A byte that is not known is \<open>None\<close>.\<close>

type_synonym runs = "(nat \<times> byte option) list"

definition runs_length :: "runs \<Rightarrow> nat" where
  "runs_length rs = sum_list (map fst rs)"

definition expand :: "runs \<Rightarrow> byte option list" where
  "expand rs = concat (map (\<lambda>(k, x). replicate k x) rs)"

fun runs_take :: "nat \<Rightarrow> runs \<Rightarrow> runs" where
  "runs_take n [] = []"
| "runs_take n ((k, x) # rs) = (if n \<le> k then [(n, x)] else (k, x) # runs_take (n - k) rs)"

fun runs_drop :: "nat \<Rightarrow> runs \<Rightarrow> runs" where
  "runs_drop n [] = []"
| "runs_drop n ((k, x) # rs) = (if n \<le> k then (k - n, x) # rs else runs_drop (n - k) rs)"

definition runs_put :: "nat \<Rightarrow> runs \<Rightarrow> runs \<Rightarrow> runs" where
  "runs_put i ws rs = runs_take i rs @ ws @ runs_drop (i + runs_length ws) rs"

definition runs_write :: "nat \<Rightarrow> runs \<Rightarrow> runs \<Rightarrow> runs" where
  "runs_write off ws rs =
     runs_take off rs @ (off - runs_length rs, Some 0) # ws @ runs_drop (off + runs_length ws) rs"

function same_known :: "runs \<Rightarrow> runs \<Rightarrow> bool" where
  "same_known [] [] = True"
| "same_known ((k, x) # xs) [] = (k = 0 \<and> same_known xs [])"
| "same_known [] ((l, y) # ys) = (l = 0 \<and> same_known [] ys)"
| "same_known ((k, x) # xs) ((l, y) # ys) =
     (if k = 0 then same_known xs ((l, y) # ys)
      else if l = 0 then same_known ((k, x) # xs) ys
      else x = y \<and> x \<noteq> None \<and>
        (if k < l then same_known xs ((l - k, y) # ys)
         else if l < k then same_known ((k - l, x) # xs) ys
         else same_known xs ys))"
  by pat_completeness auto
termination by (relation "measure (\<lambda>(xs, ys). length xs + length ys)") auto

lemma expand_simps [simp]: "expand [] = []" "expand ((k, x) # rs) = replicate k x @ expand rs"
  "expand (rs @ rs') = expand rs @ expand rs'"
  by (simp_all add: expand_def)

lemma runs_length_simps [simp]: "runs_length [] = 0" "runs_length ((k, x) # rs) = k + runs_length rs"
  "runs_length (rs @ rs') = runs_length rs + runs_length rs'"
  by (simp_all add: runs_length_def)

lemma expand_length [simp]: "length (expand rs) = runs_length rs"
  by (induction rs) auto

lemma expand_take [simp]: "expand (runs_take n rs) = take n (expand rs)"
  by (induction n rs rule: runs_take.induct) (auto simp: take_append)

lemma expand_drop [simp]: "expand (runs_drop n rs) = drop n (expand rs)"
  by (induction n rs rule: runs_drop.induct) auto

text \<open>Bytes that agree with what is known of them.\<close>

definition fits :: "runs \<Rightarrow> byte list \<Rightarrow> bool" where
  "fits rs bs \<longleftrightarrow> list_all2 (\<lambda>x b. x = None \<or> x = Some b) (expand rs) bs"

lemma fits_length: "fits rs bs \<Longrightarrow> length bs = runs_length rs"
  by (auto simp: fits_def dest: list_all2_lengthD)

lemma fits_Nil [simp]: "fits [] bs \<longleftrightarrow> bs = []"
  by (simp add: fits_def)

lemma fits_take: "fits rs bs \<Longrightarrow> fits (runs_take n rs) (take n bs)"
  by (simp add: fits_def list_all2_takeI)

lemma fits_drop: "fits rs bs \<Longrightarrow> fits (runs_drop n rs) (drop n bs)"
  by (simp add: fits_def list_all2_dropI)

lemma fits_append: "fits rs bs \<Longrightarrow> fits rs' bs' \<Longrightarrow> fits (rs @ rs') (bs @ bs')"
  by (simp add: fits_def list_all2_appendI)

lemma fits_replicate: "fits [(n, Some b)] (replicate n b)"
  by (simp add: fits_def list_all2_conv_all_nth)

lemma fits_unknown: "length bs = n \<Longrightarrow> fits [(n, None)] bs"
  by (auto simp: fits_def list_all2_conv_all_nth)

lemma fits_put:
  assumes "fits rs bs" and "fits ws cs"
  shows "fits (runs_put i ws rs) (take i bs @ cs @ drop (i + length cs) bs)"
  unfolding runs_put_def fits_length [OF assms(2)]
  by (intro fits_append fits_take fits_drop assms)

lemma fits_write:
  assumes "fits rs bs" and "fits ws cs" and "cs \<noteq> []"
  shows "fits (runs_write off ws rs) (file_write bs (int off) cs)"
proof -
  have "fits (runs_take off rs @ [(off - runs_length rs, Some 0)] @ ws @ runs_drop (off + runs_length ws) rs)
    (take off bs @ replicate (off - runs_length rs) 0 @ cs @ drop (off + runs_length ws) bs)"
    by (intro fits_append fits_take fits_drop fits_replicate assms)
  then show ?thesis using assms(3) fits_length [OF assms(1)] fits_length [OF assms(2)]
    by (simp add: runs_write_def file_write_def)
qed

lemma fits_read: "fits rs bs \<Longrightarrow> fits (runs_take n (runs_drop off rs)) (take n (drop off bs))"
  by (intro fits_take fits_drop)

lemma same_known_expand: "same_known xs ys \<Longrightarrow> expand xs = expand ys \<and> None \<notin> set (expand xs)"
proof (induction xs ys rule: same_known.induct)
  case (4 k x xs l y ys)
  have split: "replicate (m + n) z = replicate m z @ replicate n z" for m n and z :: "byte option"
    by (rule replicate_add)
  show ?case
    using 4 split [of k "l - k" y] split [of l "k - l" x] by (auto split: if_splits)
qed auto

lemma same_known_fits:
  assumes "same_known xs ys" and "fits xs bs" and "fits ys cs"
  shows "bs = cs"
proof -
  note e = same_known_expand [OF assms(1)]
  have "bs ! i = cs ! i" if i: "i < length bs" for i
  proof -
    have "expand xs ! i \<noteq> None" using e i fits_length [OF assms(2)] by (metis expand_length nth_mem)
    then show ?thesis using assms(2,3) e i unfolding fits_def list_all2_conv_all_nth by fastforce
  qed
  moreover have "length bs = length cs"
    using e assms(2,3) unfolding fits_def list_all2_conv_all_nth by simp
  ultimately show ?thesis by (simp add: list_eq_iff_nth_eq)
qed

section \<open>Running a test on what is known\<close>

record foresight =
  f_files :: "string \<Rightarrow> (runs \<times> runs) option"   \<comment> \<open>seen and durable\<close>
  f_fd :: "(string \<times> int) option"
  f_arrays :: "string \<Rightarrow> runs"

definition access_of :: "int \<Rightarrow> int option" where
  "access_of flags =
     (if flags \<in> {O_RDONLY, O_WRONLY, O_RDWR} then Some flags
      else if flags - O_CREAT \<in> {O_RDONLY, O_WRONLY, O_RDWR} then Some (flags - O_CREAT) else None)"

definition opened :: "foresight \<Rightarrow> (string \<times> int \<times> runs \<times> runs) option" where
  "opened F =
     (case f_fd F of
        None \<Rightarrow> None
      | Some (p, m) \<Rightarrow> map_option (\<lambda>(V, D). (p, m, V, D)) (f_files F p))"

definition known_array :: "string \<Rightarrow> nat \<Rightarrow> runs \<Rightarrow> foresight \<Rightarrow> foresight" where
  "known_array x i ws F = F\<lparr>f_arrays := (f_arrays F)(x := runs_put i ws (f_arrays F x))\<rparr>"

abbreviation largest_test_file :: nat where "largest_test_file \<equiv> 4 * IO_BLOCK"

fun foresee :: "statement \<Rightarrow> foresight \<Rightarrow> foresight option" where
  "foresee (Char_array x n) F = Some (F\<lparr>f_arrays := (f_arrays F)(x := [(n, None)])\<rparr>)"
| "foresee (Memset x i ch n) F =
     (if i + n \<le> runs_length (f_arrays F x) then Some (known_array x i [(n, Some ch)] F) else None)"
| "foresee (Open_file path flags mode) F =
     (if f_files F path \<noteq> None \<and> f_fd F = None
      then map_option (\<lambda>m. F\<lparr>f_fd := Some (path, m)\<rparr>) (access_of flags) else None)"
| "foresee (Pwrite x n off) F =
     (case opened F of
        None \<Rightarrow> None
      | Some (p, m, V, D) \<Rightarrow>
          if m \<noteq> O_RDONLY \<and> 0 < n \<and> n \<le> runs_length (f_arrays F x) \<and> off + n \<le> largest_test_file
          then Some (F\<lparr>f_files := (f_files F)(p \<mapsto> (runs_write off (runs_take n (f_arrays F x)) V, D))\<rparr>) else None)"
| "foresee (Pread x n off r) F =
     (case opened F of
        None \<Rightarrow> None
      | Some (p, m, V, D) \<Rightarrow>
          if m \<noteq> O_WRONLY \<and> 0 < n \<and> off + n \<le> largest_test_file \<and>
            (off + n \<le> runs_length V \<or> (off + n) mod IO_BLOCK = 0) \<and>
            runs_length (runs_take n (runs_drop off V)) = r \<and> r \<le> runs_length (f_arrays F x)
          then Some (known_array x 0 (runs_take n (runs_drop off V)) F) else None)"
| "foresee (Lseek_end r) F =
     (case opened F of None \<Rightarrow> None | Some (p, m, V, D) \<Rightarrow> if runs_length V = r then Some F else None)"
| "foresee Fsync_file F =
     (case opened F of None \<Rightarrow> None | Some (p, m, V, D) \<Rightarrow> Some (F\<lparr>f_files := (f_files F)(p \<mapsto> (V, V))\<rparr>))"
| "foresee Clear_cache F = Some (F\<lparr>f_files := \<lambda>p. map_option (\<lambda>(V, D). (D, D)) (f_files F p)\<rparr>)"
| "foresee (Memcmp x y n) F =
     (if n \<le> runs_length (f_arrays F x) \<and> n \<le> runs_length (f_arrays F y) \<and>
        same_known (runs_take n (f_arrays F x)) (runs_take n (f_arrays F y)) then Some F else None)"
| "foresee (Byte_is x i ch) F =
     (if i < runs_length (f_arrays F x) \<and> same_known (runs_take 1 (runs_drop i (f_arrays F x))) [(1, Some ch)]
      then Some F else None)"
| "foresee Close_file F = (case opened F of None \<Rightarrow> None | Some _ \<Rightarrow> Some (F\<lparr>f_fd := None\<rparr>))"
| "foresee (Unlink_file path) F =
     (if f_files F path \<noteq> None \<and> f_fd F = None then Some (F\<lparr>f_files := (f_files F)(path := None)\<rparr>) else None)"

fun foresee_test :: "statement list \<Rightarrow> foresight \<Rightarrow> foresight option" where
  "foresee_test [] F = Some F"
| "foresee_test (s # ss) F = (case foresee s F of None \<Rightarrow> None | Some F \<Rightarrow> foresee_test ss F)"

text \<open>A test that leaves the file open is not accepted.\<close>

fun foresee_tests :: "statement list list \<Rightarrow> (string \<Rightarrow> (runs \<times> runs) option) \<Rightarrow> bool" where
  "foresee_tests [] files = True"
| "foresee_tests (test # tests) files =
     (case foresee_test test \<lparr>f_files = files, f_fd = None, f_arrays = \<lambda>_. []\<rparr> of
        None \<Rightarrow> False
      | Some F \<Rightarrow> f_fd F = None \<and> foresee_tests tests (f_files F))"

section \<open>Foresight is right\<close>

text \<open>What is known is true.\<close>

definition known_files ::
  "string set \<Rightarrow> ('k \<Rightarrow> files_view) \<Rightarrow> (string \<Rightarrow> (runs \<times> runs) option) \<Rightarrow> 'k \<Rightarrow> bool" where
  "known_files paths kfile files k \<longleftrightarrow> (\<forall>p V D. files p = Some (V, D) \<longrightarrow>
     p \<in> paths \<and> (\<exists>bs ds. kfile k p = Some (bs, ds) \<and> fits V bs \<and> fits D ds))"

definition known_fds ::
  "('k \<Rightarrow> fds_view) \<Rightarrow> (string \<Rightarrow> (runs \<times> runs) option) \<Rightarrow> (string \<times> int) option \<Rightarrow> int \<Rightarrow> 'k \<Rightarrow> bool" where
  "known_fds kfd files ofd tfd k \<longleftrightarrow>
     (\<forall>fd p m. files p \<noteq> None \<longrightarrow> (kfd k fd = Some (p, m) \<longleftrightarrow> ofd = Some (p, m) \<and> fd = tfd)) \<and>
     (\<forall>p m. ofd = Some (p, m) \<longrightarrow> files p \<noteq> None \<and> m \<in> {O_RDONLY, O_WRONLY, O_RDWR})"

definition known_state ::
  "string set \<Rightarrow> ('k \<Rightarrow> bool) \<Rightarrow> ('k \<Rightarrow> files_view) \<Rightarrow> ('k \<Rightarrow> fds_view) \<Rightarrow> foresight \<Rightarrow> 'k test_state \<Rightarrow> bool" where
  "known_state paths kinv kfile kfd F t \<longleftrightarrow> kinv (t_kernel t) \<and> known_files paths kfile (f_files F) (t_kernel t) \<and>
     known_fds kfd (f_files F) (f_fd F) (t_fd t) (t_kernel t) \<and> (\<forall>x. fits (f_arrays F x) (t_arrays t x))"

text \<open>The calls keep the contract for files of four blocks of the tests, and the FIFO can be opened.\<close>

locale tested_calls = file_calls K paths B U kinv kfile kfd
  for K :: "'k calls" and paths B U kinv and kfile :: "'k \<Rightarrow> files_view" and kfd +
  assumes fifo_open: "kinv k \<Longrightarrow> fst (c_fifo K clear_command k) \<noteq> None"
    and sizes: "kinv k \<Longrightarrow> int largest_test_file \<le> U \<and> int IO_BLOCK mod B = 0"
begin

abbreviation "files_known \<equiv> known_files paths kfile"
abbreviation "fds_known \<equiv> known_fds kfd"
abbreviation "knows \<equiv> known_state paths kinv kfile kfd"

lemma knowsD:
  assumes "knows F t"
  shows "kinv (t_kernel t)" "files_known (f_files F) (t_kernel t)"
    "fds_known (f_files F) (f_fd F) (t_fd t) (t_kernel t)" "fits (f_arrays F x) (t_arrays t x)"
    "length (t_arrays t x) = runs_length (f_arrays F x)"
  using assms fits_length by (simp_all add: known_state_def)

lemma knows_opened:
  assumes "knows F t" and "opened F = Some (p, m, V, D)"
  obtains bs ds where "p \<in> paths" "kfile (t_kernel t) p = Some (bs, ds)" "fits V bs" "fits D ds"
    "kfd (t_kernel t) (t_fd t) = Some (p, m)" "m \<in> {O_RDONLY, O_WRONLY, O_RDWR}"
    "f_files F p = Some (V, D)" "f_fd F = Some (p, m)" "length bs = runs_length V"
proof -
  have o: "f_fd F = Some (p, m)" "f_files F p = Some (V, D)"
    using assms(2) by (auto simp: opened_def split: option.splits)
  note N = knowsD [OF assms(1)]
  obtain bs ds where "p \<in> paths" "kfile (t_kernel t) p = Some (bs, ds)" "fits V bs" "fits D ds"
    using N(2) o(2) unfolding known_files_def by blast
  moreover have "kfd (t_kernel t) (t_fd t) = Some (p, m)" "m \<in> {O_RDONLY, O_WRONLY, O_RDWR}"
    using N(3) o unfolding known_fds_def by auto
  ultimately show thesis using that o fits_length by blast
qed

lemma knows_closed:
  assumes "knows F t" and "f_files F p \<noteq> None" and "f_fd F = None"
  obtains x where "p \<in> paths" "kfile (t_kernel t) p = Some x" "\<forall>fd m. kfd (t_kernel t) fd \<noteq> Some (p, m)"
proof -
  obtain V D where "f_files F p = Some (V, D)" using assms(2) by auto
  then obtain bs ds where "p \<in> paths" "kfile (t_kernel t) p = Some (bs, ds)"
    using knowsD(2) [OF assms(1)] unfolding known_files_def by blast
  moreover have "\<forall>fd m. kfd (t_kernel t) fd \<noteq> Some (p, m)"
    using knowsD(3) [OF assms(1)] assms(2,3) by (simp add: known_fds_def)
  ultimately show thesis by (rule that)
qed

lemma knows_array:
  assumes "knows F t" and "fits ws bs"
  shows "knows (known_array x i ws F) (array_set x i bs t)"
  using assms fits_put by (auto simp: known_state_def known_array_def array_set_def Let_def)

lemma knows_file:
  assumes "knows F t" and f: "f_files F p \<noteq> None" and k': "kinv k'" "kfd k' = kfd (t_kernel t)"
    "kfile k' = (kfile (t_kernel t))(p := Some (bs, ds))" and fit: "fits V bs" "fits D ds"
  shows "knows (F\<lparr>f_files := (f_files F)(p \<mapsto> (V, D))\<rparr>) (t\<lparr>t_kernel := k'\<rparr>)"
proof -
  have "p \<in> paths" using assms(1) f by (auto simp: known_state_def known_files_def)
  then show ?thesis using assms by (auto simp: known_state_def known_files_def known_fds_def)
qed

lemma knows_same:
  assumes "knows F t" and "kinv k'" "kfd k' = kfd (t_kernel t)" "kfile k' = kfile (t_kernel t)"
  shows "knows F (t\<lparr>t_kernel := k'\<rparr>)"
  using assms by (simp add: known_state_def known_files_def known_fds_def)

lemma knows_open:
  assumes N: "knows F t" and f: "f_files F p \<noteq> None" "f_fd F = None" and m: "m \<in> {O_RDONLY, O_WRONLY, O_RDWR}"
    and k': "kinv k'" "kfile k' = kfile (t_kernel t)" "kfd (t_kernel t) fd = None"
      "kfd k' = (kfd (t_kernel t))(fd := Some (p, m))"
  shows "knows (F\<lparr>f_fd := Some (p, m)\<rparr>) (t\<lparr>t_kernel := k', t_fd := fd\<rparr>)"
  using N f m k' by (auto simp: known_state_def known_files_def known_fds_def)

lemma foreseen_step:
  assumes N: "knows F t" and F': "foresee s F = Some F'"
  shows "\<exists>t'. execute K u s t = (True, t') \<and> knows F' t'"
proof (cases s)
  case (Char_array x n)
  then show ?thesis using N F' by (auto simp: known_state_def fits_unknown)
next
  case (Memset x i ch n)
  then show ?thesis
    using F' knows_array [OF N fits_replicate, of x i n ch] knowsD(5) [OF N, of x] by (auto split: if_splits)
next
  case (Open_file p flags mode)
  then obtain m where F: "f_files F p \<noteq> None" "f_fd F = None" "access_of flags = Some m"
    "F' = F\<lparr>f_fd := Some (p, m)\<rparr>"
    using F' by (auto split: if_splits)
  have m: "m \<in> {O_RDONLY, O_WRONLY, O_RDWR}" "flags \<in> {m, O_CREAT + m}"
    using F(3) by (auto simp: access_of_def split: if_splits)
  obtain x where p: "p \<in> paths" "kfile (t_kernel t) p = Some x" "\<forall>fd m. kfd (t_kernel t) fd \<noteq> Some (p, m)"
    by (rule knows_closed [OF N F(1,2)])
  obtain fd k' where k': "c_open K p flags mode (t_kernel t) = (fd, k')" "0 \<le> fd" "kinv k'"
    "kfile k' = kfile (t_kernel t)" "kfd (t_kernel t) fd = None" "kfd k' = (kfd (t_kernel t))(fd := Some (p, m))"
    using open_again [OF knowsD(1) [OF N] p m] by blast
  show ?thesis using knows_open [OF N F(1,2) m(1) k'(3-6)] k'(1,2) F(4) Open_file by auto
next
  case (Pwrite x n off)
  then obtain p m V D where F: "opened F = Some (p, m, V, D)" "m \<noteq> O_RDONLY" "0 < n"
    "n \<le> runs_length (f_arrays F x)" "off + n \<le> largest_test_file"
    "F' = F\<lparr>f_files := (f_files F)(p \<mapsto> (runs_write off (runs_take n (f_arrays F x)) V, D))\<rparr>"
    using F' by (auto split: option.splits if_splits)
  obtain bs ds where o: "p \<in> paths" "kfile (t_kernel t) p = Some (bs, ds)" "fits V bs" "fits D ds"
    "kfd (t_kernel t) (t_fd t) = Some (p, m)" "m \<in> {O_RDONLY, O_WRONLY, O_RDWR}" "f_files F p = Some (V, D)"
    by (rule knows_opened [OF N F(1)])
  let ?ws = "take n (t_arrays t x)"
  have ws: "?ws \<noteq> []" "length ?ws = n" "fits (runs_take n (f_arrays F x)) ?ws"
    using F(3,4) knowsD(5) [OF N, of x] fits_take [OF knowsD(4) [OF N]] by auto
  have fit: "int off + int (length ?ws) \<le> U" using F(5) sizes [OF knowsD(1) [OF N]] ws(2) by linarith
  have m: "m \<in> {O_WRONLY, O_RDWR}" using o(6) F(2) by auto
  obtain k' where k': "c_pwrite K (t_fd t) ?ws (int off) (t_kernel t) = (int (length ?ws), k')" "kinv k'"
    "kfd k' = kfd (t_kernel t)" "kfile k' = (kfile (t_kernel t))(p := Some (file_write bs (int off) ?ws, ds))"
    using write_seen [OF knowsD(1) [OF N] o(1,2,5) m ws(1) _ fit] by auto
  show ?thesis
    using knows_file [OF N _ k'(2,3,4) fits_write [OF o(3) ws(3,1)] o(4)] k'(1) ws(2) F(4,6) o(7)
      knowsD(5) [OF N, of x] Pwrite by simp
next
  case (Pread x n off r)
  then obtain p m V D where F: "opened F = Some (p, m, V, D)" "m \<noteq> O_WRONLY" "0 < n"
    "off + n \<le> largest_test_file" "off + n \<le> runs_length V \<or> (off + n) mod IO_BLOCK = 0"
    "runs_length (runs_take n (runs_drop off V)) = r" "r \<le> runs_length (f_arrays F x)"
    "F' = known_array x 0 (runs_take n (runs_drop off V)) F"
    using F' by (auto split: option.splits if_splits)
  obtain bs ds where o: "p \<in> paths" "kfile (t_kernel t) p = Some (bs, ds)" "fits V bs" "fits D ds"
    "kfd (t_kernel t) (t_fd t) = Some (p, m)" "m \<in> {O_RDONLY, O_WRONLY, O_RDWR}" "length bs = runs_length V"
    by (rule knows_opened [OF N F(1)])
  let ?bs = "take n (drop off bs)"
  have fit: "int off + int n \<le> U" "int IO_BLOCK mod B = 0"
    using F(4) sizes [OF knowsD(1) [OF N]] by linarith+
  have "int (off + n) mod B = 0" if "(off + n) mod IO_BLOCK = 0"
  proof -
    have "int IO_BLOCK dvd int (off + n)" using that by (simp only: int_dvd_int_iff) auto
    then show ?thesis using fit(2) by (meson dvd_imp_mod_0 dvd_trans mod_0_imp_dvd)
  qed
  then have ends: "int off + int n \<le> int (length bs) \<or> (int off + int n) mod B = 0"
    using F(5) o(7) by auto
  have m: "m \<in> {O_RDONLY, O_RDWR}" using o(6) F(2) by auto
  obtain k' where k': "c_pread K (t_fd t) (int n) (int off) (t_kernel t) = ((int (length ?bs), ?bs), k')" "kinv k'"
    "kfd k' = kfd (t_kernel t)" "kfile k' = kfile (t_kernel t)"
    using read_back [OF knowsD(1) [OF N] o(1,2,5) m _ _ fit(1) ends] F(3) by auto
  have fits: "fits (runs_take n (runs_drop off V)) ?bs" by (rule fits_read [OF o(3)])
  show ?thesis
    using knows_array [OF knows_same [OF N k'(2-4)] fits, of x 0] k'(1) F(6-8) fits_length [OF fits]
      knowsD(5) [OF N, of x] Pread by (auto simp: Let_def)
next
  case (Lseek_end r)
  then obtain p m V D where F: "opened F = Some (p, m, V, D)" "runs_length V = r" "F' = F"
    using F' by (auto split: option.splits if_splits)
  obtain bs ds where o: "p \<in> paths" "kfile (t_kernel t) p = Some (bs, ds)" "fits V bs" "fits D ds"
    "kfd (t_kernel t) (t_fd t) = Some (p, m)" "m \<in> {O_RDONLY, O_WRONLY, O_RDWR}" "length bs = runs_length V"
    by (rule knows_opened [OF N F(1)])
  show ?thesis
    using seek_end [OF knowsD(1) [OF N] o(1,2,5)] knows_same [OF N] o(7) F(2,3) Lseek_end by auto
next
  case Fsync_file
  then obtain p m V D where F: "opened F = Some (p, m, V, D)" "F' = F\<lparr>f_files := (f_files F)(p \<mapsto> (V, V))\<rparr>"
    using F' by (auto split: option.splits)
  obtain bs ds where o: "p \<in> paths" "kfile (t_kernel t) p = Some (bs, ds)" "fits V bs" "fits D ds"
    "kfd (t_kernel t) (t_fd t) = Some (p, m)" "m \<in> {O_RDONLY, O_WRONLY, O_RDWR}" "f_files F p = Some (V, D)"
    by (rule knows_opened [OF N F(1)])
  obtain k' where k': "c_fsync K (t_fd t) (t_kernel t) = (0, k')" "kinv k'"
    "kfd k' = kfd (t_kernel t)" "kfile k' = (kfile (t_kernel t))(p := Some (bs, bs))"
    using sync_durable [OF knowsD(1) [OF N] o(1,2,5)] by blast
  show ?thesis using knows_file [OF N _ k'(2,3,4) o(3,3)] k'(1) o(7) F(2) Fsync_file by simp
next
  case Clear_cache
  obtain k' where k': "c_fifo K clear_command (t_kernel t) = (Some 20, k')" "kinv k'" "kfd k' = kfd (t_kernel t)"
    "kfile k' = (\<lambda>p. map_option (\<lambda>(V, D). (D, D)) (kfile (t_kernel t) p))"
    using clear_loses [OF knowsD(1) [OF N]] fifo_open [OF knowsD(1) [OF N]] by auto
  have "knows F' (t\<lparr>t_kernel := k'\<rparr>)"
    using N F' k'(2-4) Clear_cache by (fastforce simp: known_state_def known_files_def known_fds_def)
  then show ?thesis using k'(1) Clear_cache by (simp add: clear_cache_command_def)
next
  case (Memcmp x y n)
  then have F: "n \<le> runs_length (f_arrays F x)" "n \<le> runs_length (f_arrays F y)" "F' = F"
    "same_known (runs_take n (f_arrays F x)) (runs_take n (f_arrays F y))"
    using F' by (auto split: if_splits)
  have "take n (t_arrays t x) = take n (t_arrays t y)"
    by (rule same_known_fits [OF F(4) fits_take fits_take]) (rule knowsD(4) [OF N])+
  then show ?thesis using F N knowsD(5) [OF N] Memcmp by simp
next
  case (Byte_is x i ch)
  then have F: "i < runs_length (f_arrays F x)" "F' = F"
    "same_known (runs_take 1 (runs_drop i (f_arrays F x))) [(1, Some ch)]"
    using F' by (auto split: if_splits)
  have "take 1 (drop i (t_arrays t x)) = replicate 1 ch"
    by (rule same_known_fits [OF F(3) fits_read [OF knowsD(4) [OF N]] fits_replicate])
  moreover have "i < length (t_arrays t x)" using F(1) knowsD(5) [OF N] by simp
  ultimately have "t_arrays t x ! i = ch" by (simp add: Cons_nth_drop_Suc [symmetric])
  then show ?thesis using F N knowsD(5) [OF N] Byte_is by simp
next
  case Close_file
  then obtain p m V D where F: "opened F = Some (p, m, V, D)" "F' = F\<lparr>f_fd := None\<rparr>"
    using F' by (auto split: option.splits)
  obtain bs ds where o: "p \<in> paths" "kfile (t_kernel t) p = Some (bs, ds)" "fits V bs" "fits D ds"
    "kfd (t_kernel t) (t_fd t) = Some (p, m)" "m \<in> {O_RDONLY, O_WRONLY, O_RDWR}" "f_files F p = Some (V, D)" "f_fd F = Some (p, m)"
    by (rule knows_opened [OF N F(1)])
  obtain k' where k': "c_close K (t_fd t) (t_kernel t) = (0, k')" "kinv k'" "kfile k' = kfile (t_kernel t)"
    "kfd k' = (kfd (t_kernel t))(t_fd t := None)"
    using close_it [OF knowsD(1) [OF N] o(1,2,5)] by blast
  have "knows F' (t\<lparr>t_kernel := k'\<rparr>)"
    using N k'(2-4) F(2) o(5) by (auto simp: known_state_def known_files_def known_fds_def)
  then show ?thesis using k'(1) Close_file by simp
next
  case (Unlink_file p)
  then have F: "f_files F p \<noteq> None" "f_fd F = None" "F' = F\<lparr>f_files := (f_files F)(p := None)\<rparr>"
    using F' by (auto split: if_splits)
  obtain x where p: "p \<in> paths" "kfile (t_kernel t) p = Some x" "\<forall>fd m. kfd (t_kernel t) fd \<noteq> Some (p, m)"
    by (rule knows_closed [OF N F(1,2)])
  obtain k' where k': "c_unlink K p (t_kernel t) = (0, k')" "kinv k'" "kfd k' = kfd (t_kernel t)"
    "kfile k' = (kfile (t_kernel t))(p := None)"
    using unlink_own [OF knowsD(1) [OF N] p] by blast
  have "knows F' (t\<lparr>t_kernel := k'\<rparr>)"
    using N k'(2-4) F(2,3) by (auto simp: known_state_def known_files_def known_fds_def)
  then show ?thesis using k'(1) Unlink_file by simp
qed

lemma foreseen_run:
  "knows F t \<Longrightarrow> foresee_test ss F = Some F' \<Longrightarrow> \<exists>t'. run_test K u ss t = (True, t') \<and> knows F' t'"
proof (induction ss arbitrary: F t)
  case (Cons s ss)
  then obtain F1 where F1: "foresee s F = Some F1" "foresee_test ss F1 = Some F'" by (auto split: option.splits)
  obtain t1 where "execute K u s t = (True, t1)" "knows F1 t1" using foreseen_step [OF Cons.prems(1) F1(1)] by blast
  then show ?case using Cons.IH [OF _ F1(2)] by simp
qed simp

lemma foreseen_tests:
  "kinv k \<Longrightarrow> files_known files k \<Longrightarrow> fds_known files None fd k \<Longrightarrow> foresee_tests tests files \<Longrightarrow>
   fst (run_all_tests K u tests k) = 0"
proof (induction tests arbitrary: files k fd)
  case (Cons test tests)
  let ?F = "\<lparr>f_files = files, f_fd = None, f_arrays = \<lambda>_. []\<rparr>"
    and ?t = "\<lparr>t_kernel = k, t_fd = - 1, t_arrays = \<lambda>_. []\<rparr>"
  obtain F where F: "foresee_test test ?F = Some F" "f_fd F = None" "foresee_tests tests (f_files F)"
    using Cons.prems(4) by (auto split: option.splits)
  have "knows ?F ?t" using Cons.prems(1-3) by (auto simp: known_state_def known_fds_def)
  from foreseen_run [OF this F(1)] obtain t where t: "run_test K u test ?t = (True, t)" "knows F t" by blast
  show ?case using Cons.IH [OF knowsD(1-3) [OF t(2), unfolded F(2)] F(3)] t(1)
    by (simp add: Let_def split: prod.splits)
qed simp

end

end
