(* ===== verification/Unit_Theorems.thy ===== *)
theory Unit_Theorems
  imports Unit_Facts Direct_Calls
begin

text \<open>
  The unit tests pass on LazyFS: each test of \<open>Unit_Tests\<close>, with the one that checks its file if
  there is one, on a mount with an empty cache and without the file.
\<close>

section \<open>The tests as clients of the calls\<close>

definition test_mounted :: "'k calls \<Rightarrow> ('k, 'd) mount \<Rightarrow> 'k \<Rightarrow> bool" where
  "test_mounted K M k \<longleftrightarrow> mount_inv K M k \<and> int largest_test_file \<le> m_limit M \<and>
     int IO_BLOCK mod IO_BLOCK_SIZE (FSConfig (m_env M)) = 0 \<and> (\<forall>k. fst (c_fifo K clear_command k) \<noteq> None)"

interpretation tests: tested_calls K "m_paths M" "IO_BLOCK_SIZE (FSConfig (m_env M))" "m_limit M" "test_mounted K M"
  "mount_file M" "mount_fd M" for K M
proof
  show "\<exists>k'. c_pread K fd n off k =
      ((int (length (take (nat n) (drop (nat off) V))), take (nat n) (drop (nat off) V)), k') \<and>
      test_mounted K M k' \<and> mount_fd M k' = mount_fd M k \<and> mount_file M k' = mount_file M k"
    if "test_mounted K M k" "p \<in> m_paths M" "mount_file M k p = Some (V, D)" "mount_fd M k fd = Some (p, m)"
      "m \<in> {O_RDONLY, O_RDWR}" "0 < n" "0 \<le> off" "off + n \<le> m_limit M"
      "off + n \<le> int (length V) \<or> (off + n) mod IO_BLOCK_SIZE (FSConfig (m_env M)) = 0"
    for k p V D fd m n off
    using files.read_back [of K M k p V D fd m n off] that by (auto simp: test_mounted_def)
  show "0 < m_limit M \<and> m_limit M mod IO_BLOCK_SIZE (FSConfig (m_env M)) = 0" if "test_mounted K M k" for k
    using files.largest [of K M k] that by (simp add: test_mounted_def)
qed (simp_all add: test_mounted_def files.open_again files.close_it files.write_seen files.seek_end
      files.sync_durable files.unlink_own files.clear_loses)

text \<open>A first test that creates its file, and the tests after it, pass if they are foreseen to pass on an empty file.\<close>

lemma tests_on_new_file:
  assumes fresh: "fresh_mount K M p k" and fits: "int largest_test_file \<le> m_limit M"
      "int IO_BLOCK mod IO_BLOCK_SIZE (FSConfig (m_env M)) = 0" "\<And>k. fst (c_fifo K clear_command k) \<noteq> None"
    and m: "m \<in> {O_RDONLY, O_WRONLY, O_RDWR}"
    and ok: "foresee_tests ((Open_file p (O_CREAT + m) mode # ss) # tests) [p \<mapsto> ([], [])]"
  shows "fst (run_all_tests K u ((Open_file p (O_CREAT + m) mode # ss) # tests) k) = 0"
proof -
  let ?F = "\<lparr>f_files = [p \<mapsto> ([], [])], f_fd = Some (p, m), f_arrays = \<lambda>_. []\<rparr>"
  obtain fd k' i where o: "c_open K p (O_CREAT + m) mode k = (fd, k')" "0 \<le> fd" "mount_inv K (with_ino i M) k'"
    "mount_file (with_ino i M) k' p = Some ([], [])" "mount_fd (with_ino i M) k' = [fd \<mapsto> (p, m)]"
    by (rule mounted_create [OF fresh m])
  let ?M = "with_ino i M" and ?t = "\<lparr>t_kernel = k', t_fd = fd, t_arrays = \<lambda>_. []\<rparr>"
  have "access_of (O_CREAT + m) = Some m"
    using m by (auto simp: access_of_def O_CREAT_def O_RDONLY_def O_WRONLY_def O_RDWR_def)
  then obtain F where F: "foresee_test ss ?F = Some F" "f_fd F = None" "foresee_tests tests (f_files F)"
    using ok by (auto split: option.splits)
  have "p \<in> m_paths M" using fresh by (simp add: fresh_mount_def)
  then have "known_state (m_paths ?M) (test_mounted K ?M) (mount_file ?M) (mount_fd ?M) ?F ?t"
    using o(3-5) fits m by (auto simp: known_state_def known_files_def known_fds_def test_mounted_def)
  from tests.foreseen_run [OF this F(1)] obtain t where t: "run_test K u ss ?t = (True, t)"
    "known_state (m_paths ?M) (test_mounted K ?M) (mount_file ?M) (mount_fd ?M) F t" by blast
  have "fst (run_all_tests K u tests (t_kernel t)) = 0"
    using tests.foreseen_tests [OF tests.knowsD(1-3) [OF t(2), unfolded F(2)] F(3)] .
  then show ?thesis using o(1,2) t(1) by (simp add: split: prod.splits)
qed

section \<open>The tests\<close>

definition unit_tests :: "(string \<times> statement list list) list" where
  "unit_tests =
    [(''WriteSeq1'', [WriteSeq1, WriteSeq1CheckIntegrity]),
     (''WriteSeq1WriteBlockEdges1'', [WriteBlockEdges1, WriteBlockEdges1CheckIntegrity]),
     (''WriteSparseBlocks1'', [WriteSparseBlocks1, WriteSparseBlocks1CheckIntegrity]),
     (''SimpleReadBlocks_SyncOff'', [SimpleReadBlocks_SyncOff]),
     (''SimpleReadBlocks_SyncOn'', [SimpleReadBlocks_SyncOn]),
     (''SequentialRW_SyncOn'', [SequentialRW_SyncOn]),
     (''SparseSyncsConsistencyCheck'', [SparseSyncsConsistencyCheck])]"

lemma unit_tests_are_all: "mset (concat (map snd unit_tests)) = mset (write_tests @ consistency_tests)"
  by (simp add: unit_tests_def write_tests_def consistency_tests_def)

lemmas foresee_defs = opened_def access_of_def known_array_def runs_put_def runs_write_def runs_length_def
  O_CREAT_def O_RDONLY_def O_WRONLY_def O_RDWR_def

lemmas unit_test_defs = WriteSeq1_def WriteSeq1CheckIntegrity_def WriteBlockEdges1_def WriteBlockEdges1CheckIntegrity_def
  WriteSparseBlocks1_def WriteSparseBlocks1CheckIntegrity_def SimpleReadBlocks_SyncOff_def SimpleReadBlocks_SyncOn_def
  SequentialRW_SyncOn_def SparseSyncsConsistencyCheck_def

lemma write_tests_foreseen:
  "foresee_tests [WriteSeq1, WriteSeq1CheckIntegrity] [''WriteSeq1'' \<mapsto> ([], [])]"
  "foresee_tests [WriteBlockEdges1, WriteBlockEdges1CheckIntegrity] [''WriteSeq1WriteBlockEdges1'' \<mapsto> ([], [])]"
  "foresee_tests [WriteSparseBlocks1, WriteSparseBlocks1CheckIntegrity] [''WriteSparseBlocks1'' \<mapsto> ([], [])]"
  by (simp_all add: unit_test_defs foresee_defs)

lemma consistency_tests_foreseen:
  "foresee_tests [SimpleReadBlocks_SyncOff] [''SimpleReadBlocks_SyncOff'' \<mapsto> ([], [])]"
  "foresee_tests [SimpleReadBlocks_SyncOn] [''SimpleReadBlocks_SyncOn'' \<mapsto> ([], [])]"
  "foresee_tests [SequentialRW_SyncOn] [''SequentialRW_SyncOn'' \<mapsto> ([], [])]"
  "foresee_tests [SparseSyncsConsistencyCheck] [''SparseSyncsConsistencyCheck'' \<mapsto> ([], [])]"
  by (simp_all add: unit_test_defs foresee_defs)

lemma unit_tests_create:
  assumes "(p, tests) \<in> set unit_tests"
  obtains m mode ss rest where "m \<in> {O_RDONLY, O_WRONLY, O_RDWR}" "tests = (Open_file p (O_CREAT + m) mode # ss) # rest"
proof -
  have "list_all (\<lambda>(p, tests). \<exists>m mode ss rest. m \<in> {O_RDONLY, O_WRONLY, O_RDWR} \<and>
      tests = (Open_file p (O_CREAT + m) mode # ss) # rest) unit_tests"
    by (simp add: unit_tests_def unit_test_defs)
  then show thesis using that assms by (fastforce simp: list_all_iff)
qed

section \<open>They pass\<close>

text \<open>
  C6. A unit test of writing or of consistency after clearing the cache, followed by the one that
  checks its file, passes on a LazyFS that has nothing cached and has no such file yet: the run
  ends with exit code 0, whatever the arrays of the test hold before they are set.
\<close>

theorem unit_tests_pass:
  assumes "(p, tests) \<in> set unit_tests" and "fresh_mount K M p k" and "16384 \<le> m_limit M"
    and "4096 mod IO_BLOCK_SIZE (FSConfig (m_env M)) = 0" and "\<And>k. fst (c_fifo K clear_command k) \<noteq> None"
  shows "fst (run_all_tests K u tests k) = 0"
proof -
  have ok: "foresee_tests tests [p \<mapsto> ([], [])]"
    using assms(1) write_tests_foreseen consistency_tests_foreseen unfolding unit_tests_def by auto
  obtain m mode ss rest where t: "m \<in> {O_RDONLY, O_WRONLY, O_RDWR}" "tests = (Open_file p (O_CREAT + m) mode # ss) # rest"
    by (rule unit_tests_create [OF assms(1)])
  show ?thesis
    unfolding t(2) by (rule tests_on_new_file [OF assms(2) _ _ assms(5) t(1) ok [unfolded t(2)]]) (use assms(3,4) in simp_all)
qed

text \<open>A cache with room for the largest of the files and one more request.\<close>

definition roomy :: config where
  "roomy = default_config\<lparr>CACHE_NR_PAGES := 9\<rparr>"

definition roomy_env :: "(engine, mem_host) env" where
  "roomy_env = start_environment mem_os (\<lambda>_ _. False) (\<lambda>_. True) 0 roomy"

definition empty_disk :: mem_host where
  "empty_disk = \<lparr>mh_paths = fmempty, mh_files = fmempty, mh_fds = fmupd 0 0 fmempty, mh_next = 4\<rparr>"

definition empty_kernel :: "engine \<Rightarrow> mem_host direct" where
  "empty_kernel e = \<lparr>d_world = new_lazyfs (new_cache e) fmempty empty_disk, d_table = (\<lambda>_. None), d_next = 3\<rparr>"

lemma empty_disk_facts:
  "path_ino mem_view empty_disk q = None" "fd_ino mem_view empty_disk 0 = Some 0"
  "fst (os_lstat mem_os q empty_disk) = - 1"
  "has_flag flags O_CREAT \<Longrightarrow> \<exists>fd d' i. os_open mem_os q flags mode empty_disk = (fd, d') \<and> 0 < fd \<and>
     path_ino mem_view d' q = Some i"
  by (simp_all add: mem_view_def empty_disk_def mem_os_def mh_stat_def Let_def mh_open_def has_flag_def)

lemma empty_kernel_fresh:
  obtains e where "fresh_mount (direct_calls roomy_env mem_view)
    (direct_mount roomy_env mem_view {p} 16384 (\<lambda>_. 0)) p (empty_kernel e)"
proof -
  have c: "single_block roomy" by (simp add: single_block_def roomy_def default_config_def)
  obtain e where e: "new_engine roomy = Inr e" by (rule new_cache_ok [OF c])
  have ev: "FSConfig roomy_env = roomy" "eos roomy_env = mem_os" "mounted roomy_env mem_view"
    using mem_host_laws c by (simp_all add: mounted_def roomy_env_def start_environment_def)
  define w where "w = new_lazyfs (new_cache e) fmempty empty_disk"
  have w: "FSCache w = new_cache e" "host_state w = empty_disk" "shared_locks w = 0"
    by (simp_all add: w_def new_lazyfs_def Let_def)
  let ?M = "direct_mount roomy_env mem_view {p} 16384 (\<lambda>_. 0)"
  have "fst (os_unlink mem_os path d) \<noteq> - 1" if "path_ino mem_view d path \<noteq> None" for d path
    using that by (auto simp: mem_os_def mem_view_def mh_path_op_def split: option.splits if_splits)
  then have "mount_fits ?M" by (simp add: mount_fits_def ev roomy_def default_config_def)
  moreover have "fs_inv roomy_env mem_view w"
    using mount_anew(1) [OF c e, of mem_view empty_disk] ev by (simp add: fs_inv_def w)
  moreover have "calm roomy_env (CHR ''/'' # p) w" unfolding w_def by (rule calm_new) simp
  moreover have "direct_fds (empty_kernel e) = (\<lambda>_. None)" "d_world (empty_kernel e) = w"
    by (simp_all add: empty_kernel_def direct_fds_def w_def fun_eq_iff)
  ultimately have "fresh_mount (direct_calls roomy_env mem_view) ?M p (empty_kernel e)"
    by (simp add: fresh_mount_def Let_def ev w new_cache_def empty_disk_facts(1-3) direct_forwards direct_creates)
      (use empty_disk_facts(4) in blast)
  then show thesis by (rule that)
qed

theorem unit_tests_pass_witness:
  "\<exists>e. fst (run_all_tests (direct_calls roomy_env mem_view) (\<lambda>_ _. 7) [SparseSyncsConsistencyCheck] (empty_kernel e)) = 0"
proof -
  let ?p = "''SparseSyncsConsistencyCheck''"
  obtain e where e: "fresh_mount (direct_calls roomy_env mem_view)
    (direct_mount roomy_env mem_view {?p} 16384 (\<lambda>_. 0)) ?p (empty_kernel e)"
    by (rule empty_kernel_fresh)
  have t: "(?p, [SparseSyncsConsistencyCheck]) \<in> set unit_tests" by (simp add: unit_tests_def)
  have b: "4096 mod IO_BLOCK_SIZE (FSConfig roomy_env) = 0"
    by (simp add: roomy_env_def start_environment_def roomy_def default_config_def)
  have "fst (c_fifo (direct_calls roomy_env mem_view) clear_command k) \<noteq> None" for k
    using direct_fifo [of roomy_env mem_view clear_command k] by auto
  then have "fst (run_all_tests (direct_calls roomy_env mem_view) (\<lambda>_ _. 7) [SparseSyncsConsistencyCheck] (empty_kernel e)) = 0"
    by (intro unit_tests_pass [OF t e]) (simp_all only: direct_mount_simps b order_refl not_False_eq_True)
  then show ?thesis by blast
qed

end
