(* ===== verification/Spec2Isabelle.thy ===== *)
theory Spec2Isabelle
  imports Prelude Config Text Faults Config_Load Items Host Pages Engine Mem_Host Page_Cache Cache
    Injection Torn Lazyfs Handlers Worker Dispatch
    Page_Facts Engine_Facts Engine_Ops Engine_Sync Engine_Spec Cache_Facts Cache_Theorems
    Files Fs_Files Fs_Blocks Fs_Write Fs_Sync Fs_Read Fs_Names Fs_Truncate Fs_Spec Fs_Theorems
    Fault_Handlers Fault_Theorems Command_Theorems Command_Text Handler_Theorems Torn_Seq Defect_Theorems
    Mount_Theorems System_Theorems Names_Theorems
    Calls Lfscheck Lfscheck_Facts Mounted Fresh_Mount Direct_Calls Lfscheck_Theorems
    Unit_Tests Unit_Facts Unit_Theorems
begin

text \<open>
  LazyFS, a FUSE file system with a page cache of its own that loses unsynced data on request.

  A program writes to a mounted LazyFS; the bytes stay in a cache of the process and reach the
  host file system on \<open>fsync\<close>, on a checkpoint, or not at all: commands on a FIFO clear the cache,
  kill the process around a chosen operation, or let parts of chosen writes through (torn writes).
  The development models the program from the FUSE table and \<open>main\<close> down to the bytes of a page,
  and proves that what a program sees and what is left after a crash are what they should be.

  \<^bold>\<open>The parts of the program and the theories that model them\<close>

  \<^item> \<open>lazyfs/src/main.cpp\<close>: \<open>main\<close> and the thread \<open>fht_worker\<close> are \<open>start\<close>, \<open>boot\<close>, \<open>fht_worker\<close>,
    \<open>worker_loop\<close> and \<open>worker_command\<close> in \<open>Worker\<close>, on the text functions of \<open>Text\<close>. A command is
    one step; its reply is what the thread logs.
  \<^item> \<open>lazyfs/include/lazyfs/fusepp\<close>: the requests of FUSE and the table of operations are
    \<open>fuse_request\<close>, \<open>load_operations\<close> and \<open>serve\<close> in \<open>Dispatch\<close>.
  \<^item> \<open>lazyfs/src/lazyfs.cpp\<close>, \<open>class LazyFS\<close>: its members are the record \<open>world\<close> (with the state of
    the host) and what never changes is the record \<open>env\<close>, both in \<open>Injection\<close>, with the commands and
    the crash and clear-cache faults. \<open>Torn\<close> has the torn-op and torn-seq faults, \<open>Lazyfs\<close> the
    attributes and writing, \<open>Handlers\<close> all other handlers. A handler \<open>lfs_x\<close> of the source is the
    definition \<open>lfs_x\<close>, its locked part \<open>x_body\<close>, and the bodies of its loops are definitions of their
    own (\<open>write_block\<close>, \<open>read_block\<close>).
  \<^item> \<open>libpcache/src/cache.cpp\<close>, \<open>class Cache\<close>: the record \<open>cache\<close> and its operations in \<open>Cache\<close>; the
    item mutexes are the map \<open>item_locks\<close>. \<open>item/*.cpp\<close> (\<open>Item\<close>, \<open>Data\<close>, \<open>BlockInfo\<close>, \<open>Metadata\<close>) are
    in \<open>Items\<close>.
  \<^item> \<open>engine/page_cache.hpp\<close>: the interface of engines is the record of functions \<open>page_cache_engine\<close>
    in \<open>Page_Cache\<close>; \<open>engine/backends/custom/custom_cache.cpp\<close> is \<open>Engine\<close> and
    \<open>engine/page/*.cpp\<close> is \<open>Pages\<close>.
  \<^item> \<open>libpcache/src/config/config.cpp\<close> is \<open>Config\<close> and \<open>Config_Load\<close>; \<open>faults.cpp\<close> and \<open>faults.hpp\<close>
    are \<open>Faults\<close>.
  \<^item> \<open>tests/lfscheck/src/lfscheck.cpp\<close>, the consistency checker: its threads, its monitor and the lock
    between them are \<open>worker_step\<close>, \<open>monitor_step\<close> and \<open>check_step\<close> in \<open>Lfscheck\<close>, over the record
    \<open>calls\<close> of \<open>Calls\<close>, the system calls that the test programs make.
  \<^item> \<open>lazyfs/unit/test_write.cpp\<close> and \<open>test_consistency_clear_cache.cpp\<close>, the unit tests: each test is
    the list of its statements in \<open>Unit_Tests\<close>, run by \<open>execute\<close> and \<open>run_test\<close> on the same calls.
  \<^item> The host kernel is not part of the repository: \<open>Host\<close> has the record \<open>os\<close> of the system calls,
    a parameter of everything, and its documented behaviour as the predicate \<open>host_laws\<close> over a
    view of the host (which inode a path and a descriptor name, what an inode holds). \<open>Mem_Host\<close> is
    a small host in memory that satisfies it, for the witnesses.

  A request goes \<open>serve\<close> to handler to \<open>Cache\<close> to engine to page, and from the handlers, the
  write-back and the torn faults to the host. Commands and requests meet at \<open>cache_command_lock\<close>,
  the counter \<open>shared_locks\<close>: handlers share it, commands want it alone.

  \<^bold>\<open>How behaviour is written down\<close>

  An operation is a function of the state to a sum: \<open>Inl\<close> for what has no defined continuation in
  C++ (an exception nobody catches, a null pointer, a copy outside a buffer, a mutex its holder
  waits for; \<open>cpp_fault\<close> in \<open>Prelude\<close>) and for the death of the process (\<open>SelfKill\<close>, with what is
  left of the host), \<open>Inr\<close> for a result. Memory is lists of bytes with checked access. Where the
  source narrows an integer the model does (\<open>c_int\<close>, \<open>u64\<close>, \<open>s64\<close>). An uninitialised variable has
  the value \<open>uninit_int\<close> of the environment, so a theorem that holds for all environments does not
  depend on it. Handlers are steps: one runs after the other.

  \<^bold>\<open>What is proved, from the bottom up\<close>

  \<^item> \<open>Page_Facts\<close>, \<open>Engine_Facts\<close>, \<open>Engine_Ops\<close>, \<open>Engine_Sync\<close>: the invariant of the page pool, what
    each operation does to the stored blocks, and that the runs the write-back forms put every dirty
    block at its place. \<open>Engine_Spec\<close> states the contract of an engine as the locales \<open>page_engine\<close>
    and \<open>durable_page_engine\<close> and interprets them on the custom engine.
  \<^item> \<open>Cache_Facts\<close>, \<open>Cache_Theorems\<close>: the upper layer, verified against the contract only. Every mutex
    is given back, items and blocks agree, and each operation does what it says.
  \<^item> \<open>Files\<close>, \<open>Fs_Files\<close>, \<open>Fs_Blocks\<close>, \<open>Fs_Write\<close>, \<open>Fs_Read\<close>, \<open>Fs_Sync\<close>, \<open>Fs_Names\<close>, \<open>Fs_Truncate\<close>: a file as
    what everyone sees of it (\<open>seen\<close>) and what the host has of it (\<open>content\<close>), the invariant that
    ties both to the cache, and the handlers, loop by loop.
  \<^item> \<open>Fs_Spec\<close>: an abstract store with a visible and a durable version of every file, its promises,
    and the locale \<open>implements_store\<close>, interpreted on the handlers and commands (\<open>fs_step\<close>): those
    for contents, names, attributes and directories, the checkpoint, the clearing of the cache and a
    crash. A step either writes, reads, syncs or creates a file, or loses the unsynced changes of
    some files: of all in a crash, of those without a name left in a rename or removal, of none in
    the others. \<open>Fs_Theorems\<close>, \<open>Names_Theorems\<close> and \<open>Mount_Theorems\<close>: crash consistency,
    refinement, completion of requests, safe replacement of a file by a rename, and survival of
    synced data across a crash and a new mount.
  \<^item> \<open>Fault_Handlers\<close>, \<open>Fault_Theorems\<close>, \<open>Torn_Seq\<close>, \<open>Command_Theorems\<close>, \<open>Command_Text\<close>: what the
    faults let through, when they strike in the handlers and what is left then, and how commands and
    configuration become faults (the locale \<open>fault_registrar\<close>, interpreted on the two operations that
    register one).
  \<^item> \<open>System_Theorems\<close>: what every request leaves alone and the invariant of every state reachable
    from the start by requests and commands in any order.
  \<^item> \<open>Calls\<close>: the contract of the system calls that a test program relies on (the locale \<open>file_calls\<close>).
    \<open>Mounted\<close> interprets it on LazyFS: calls become requests (\<open>forwards\<close>, a hypothesis about the
    kernel), requests go through \<open>serve\<close>, the command on the FIFO through \<open>worker_command\<close>.
    \<open>Direct_Calls\<close> is a kernel of which the hypothesis is true, for the witnesses.
  \<^item> \<open>Lfscheck_Facts\<close>: the checker against the contract (the locale \<open>checked_calls\<close> extends
    \<open>file_calls\<close>): what a thread tracks of its file is what is durable, and no assertion fails. Its
    lock, its progress and its end need no contract. \<open>Lfscheck_Theorems\<close> interprets the locale on
    LazyFS (\<open>check_mounted\<close>) and has the properties.
  \<^item> \<open>Unit_Facts\<close>: what a test will find is computed in advance from what is known of its files and
    arrays (\<open>foresee\<close>), and comes true on any calls that keep the contract (the locale \<open>tested_calls\<close>
    extends \<open>file_calls\<close>). \<open>Fresh_Mount\<close>: creating a file on a mount with an empty cache gives a mount
    that keeps the contract. \<open>Unit_Theorems\<close> interprets the locale on LazyFS: the tests pass.
  \<^item> \<open>Handler_Theorems\<close>: how a request is cut into blocks, checkpoints, reported sizes, and the end and
    result of the walk over directories. \<open>Defect_Theorems\<close> and the properties of kind error: places
    where the code does not do what it means to.

  \<^bold>\<open>Bounds and hypotheses\<close>

  The theorems about stored data are for configurations with one block per page and no eviction
  (\<open>single_block\<close>), as the shipped configuration has; \<open>Defect_Theorems\<close> shows that with more blocks
  per page or with eviction they are false. Requests are not empty, below 2 GiB and number their
  blocks by an \<open>int\<close> (\<open>request_fits\<close>); reads in sequences of operations end at a block boundary, as
  those of the kernel's page cache do, since others may clear memory past the reader's buffer. The
  path is one no fault concerns (\<open>calm\<close>, \<open>calm_between\<close>), except in the theorems about faults; those
  about the faults of a write are for writes that do not start past the end of the file, because the
  filling of a gap is a write of its own, with its own triggers. Renaming, linking and removing is
  for regular files the cache has a name for, as it has after the lookup the kernel makes first, and
  for calls the host carries out; the findings say what goes wrong when it does not. Shrinking truncates are not
  steps of the store: they leave cached bytes behind (\<open>truncate_shrinks_only_the_size\<close>). Loops over
  blocks, pages and directory entries are recursions over finite lists. The walk over directories has
  no bound in the code: it has the depth of its recursion as fuel, is \<open>None\<close> and then \<open>StackOverflow\<close>
  where that does not suffice, and \<open>Suc PATH_MAX\<close> is enough on every host that refuses to list
  directories with names of \<open>PATH_MAX\<close> bytes or more (\<open>walk_ends\<close>, \<open>dir_walk_finds_all_files\<close>).
  \<open>System_Theorems\<close> and the theorems about commands have none of these hypotheses. The checker runs
  on LazyFS when its largest file is a number of blocks and the cache has a page for each block of
  each of its files, and for those of one request more (\<open>mount_fits\<close>); the unit tests need files
  of four of their blocks, and a block of LazyFS that divides them.

  \<^bold>\<open>Not modelled\<close>

  \<^item> Log output, the print functions and the set-up of the logger: they do not change the state.
  \<^item> The TOML parser, the regular-expression library, libfuse and the kernel: not in the repository.
    The parsed document, matching and validity of a pattern, the answer for an operation that is not
    set and the system calls are parameters.
  \<^item> Interleavings inside a handler: handlers and commands are atomic here, while the source runs
    handlers of different files in parallel under item mutexes. So \<open>cache_command_lock\<close> is a counter;
    who is served first and the taking of a lock a thread already shares are not modelled.
  \<^item> Floating point: the number in \<open>custom_size\<close> is taken as it is written, not rounded to a \<open>double\<close>.
  \<^item> \<open>lfs_lseek\<close> is modelled but has no entry in the table of operations, so no request reaches it;
    \<open>lfs_destroy\<close> only logs.
  \<^item> The set-up of the files of \<open>lfscheck\<close> is a definition (\<open>start_worker\<close>), but its runs start when the
    files are open and empty.
  \<^item> The unit tests of truncation and of hard links: the contract of the calls has no calls for
    them. The tests that are modelled start on a mount without their files; a mount that has run
    other tests before is left out, since the host may give a new file the inode of a removed one.
  \<^item> The reproduced bugs, the test utilities and \<open>logparse\<close>: programs that use or follow the file
    system from outside.
\<close>

end
